(* ===== verification/Prelude.thy ===== *)
theory Prelude
  imports Complex_Main "HOL-Library.AList" "HOL-Library.Sublist"
begin

text \<open>
  What every component of the development shares: the model of Python values
  (\<open>pyval\<close>, dictionaries as association lists in insertion order), of the string methods the
  sources call, of the state-and-exception results of methods that mutate and raise
  (\<open>sx\<close>), the locale for "an invariant that every operation keeps holds after every run", the
  locale for bounded first-in-first-out buffers, and the collections of simplification rules
  the component proofs use.

  Conventions. Text is modelled over 8-bit code points (\<open>char\<close>); case mapping is ASCII.
  A float is a real number where the code computes with it, and is carried by its \<open>repr\<close>
  inside a \<open>pyval\<close>, where the code only stores, prints or compares it. A clock reading is an
  argument of the operation that reads it.
\<close>

named_theorems op_defs \<open>unfoldings of the operations of a component\<close>
named_theorems frame_simps \<open>fields an operation leaves alone\<close>

subsection \<open>Results of methods that mutate state and may raise\<close>

text \<open>A Python method that changes its object and then raises leaves the change behind, so the
  state is part of the result in both cases.\<close>

type_synonym ('s, 'e, 'a) sx = "'s \<Rightarrow> 's \<times> ('e + 'a)"

definition sx_return :: "'a \<Rightarrow> ('s, 'e, 'a) sx" where
  "sx_return x s = (s, Inr x)"

definition sx_raise :: "'e \<Rightarrow> ('s, 'e, 'a) sx" where
  "sx_raise e s = (s, Inl e)"

definition sx_bind :: "('s, 'e, 'a) sx \<Rightarrow> ('a \<Rightarrow> ('s, 'e, 'b) sx) \<Rightarrow> ('s, 'e, 'b) sx" where
  "sx_bind m f s = (case m s of (s', Inl e) \<Rightarrow> (s', Inl e) | (s', Inr x) \<Rightarrow> f x s')"

lemma sx_bind_return [simp]: "sx_bind (sx_return x) f = f x"
  by (simp add: fun_eq_iff sx_bind_def sx_return_def)

lemma sx_return_bind [simp]: "sx_bind m sx_return = m"
  by (auto simp: fun_eq_iff sx_bind_def sx_return_def split: prod.splits sum.splits)

lemma sx_bind_raise [simp]: "sx_bind (sx_raise e) f = sx_raise e"
  by (simp add: fun_eq_iff sx_bind_def sx_raise_def)

lemma sx_bind_assoc: "sx_bind (sx_bind m f) g = sx_bind m (\<lambda>x. sx_bind (f x) g)"
  by (auto simp: fun_eq_iff sx_bind_def split: prod.splits sum.splits)

lemma sx_bind_Inr_iff:
  "sx_bind m f s = (t, Inr y) \<longleftrightarrow> (\<exists>s' x. m s = (s', Inr x) \<and> f x s' = (t, Inr y))"
  by (auto simp: sx_bind_def split: prod.splits sum.splits)

lemma sx_bind_Inl_iff:
  "sx_bind m f s = (t, Inl e) \<longleftrightarrow>
     m s = (t, Inl e) \<or> (\<exists>s' x. m s = (s', Inr x) \<and> f x s' = (t, Inl e))"
  by (auto simp: sx_bind_def split: prod.splits sum.splits)

subsection \<open>Runs of a machine and its invariants\<close>

fun run_ops :: "('op \<Rightarrow> 's \<Rightarrow> 's) \<Rightarrow> 'op list \<Rightarrow> 's \<Rightarrow> 's" where
  "run_ops apply_op [] s = s"
| "run_ops apply_op (p # ps) s = run_ops apply_op ps (apply_op p s)"

lemma run_ops_append: "run_ops f (ps @ qs) s = run_ops f qs (run_ops f ps s)"
  by (induction ps arbitrary: s) auto

inductive reaches :: "('op \<Rightarrow> 's \<Rightarrow> 's) \<Rightarrow> 's \<Rightarrow> 's \<Rightarrow> bool"
  for f :: "'op \<Rightarrow> 's \<Rightarrow> 's" where
  reaches_refl [intro]: "reaches f s s"
| reaches_step [intro]: "reaches f s t \<Longrightarrow> reaches f s (f p t)"

lemma reaches_run_ops: "reaches f s t \<longleftrightarrow> (\<exists>ps. t = run_ops f ps s)"
proof
  assume "reaches f s t"
  then show "\<exists>ps. t = run_ops f ps s"
  proof induction
    case reaches_refl
    then show ?case by (rule exI [of _ "[]"]) simp
  next
    case (reaches_step s t p)
    then obtain ps where "t = run_ops f ps s" by blast
    then have "f p t = run_ops f (ps @ [p]) s" by (simp add: run_ops_append)
    then show ?case by blast
  qed
next
  assume "\<exists>ps. t = run_ops f ps s"
  then obtain ps where "t = run_ops f ps s" by blast
  then show "reaches f s t"
    by (induction ps arbitrary: t rule: rev_induct) (auto simp: run_ops_append)
qed

text \<open>The interface of a component with an invariant: every operation keeps it. Interpreting
  it for a component is the proof obligation of its class invariant; the lemmas inside are
  then available for every run of the component.\<close>

locale invariant_machine =
  fixes apply_op :: "'op \<Rightarrow> 's \<Rightarrow> 's"
    and inv :: "'s \<Rightarrow> bool"
  assumes inv_apply: "inv s \<Longrightarrow> inv (apply_op p s)"
begin

lemma inv_run: "inv s \<Longrightarrow> inv (run_ops apply_op ps s)"
  by (induction ps arbitrary: s) (auto intro: inv_apply)

lemma inv_reaches: "reaches apply_op s t \<Longrightarrow> inv s \<Longrightarrow> inv t"
  by (induction rule: reaches.induct) (auto intro: inv_apply)

end

text \<open>Runs in which every operation is called within its contract: the invariant that needs the contract holds after them.\<close>

fun lawful_run :: "('op \<Rightarrow> 's \<Rightarrow> bool) \<Rightarrow> ('op \<Rightarrow> 's \<Rightarrow> 's) \<Rightarrow> 'op list \<Rightarrow> 's \<Rightarrow> bool" where
  "lawful_run guard apply_op [] s = True"
| "lawful_run guard apply_op (p # ps) s = (guard p s \<and> lawful_run guard apply_op ps (apply_op p s))"

locale guarded_machine =
  fixes apply_op :: "'op \<Rightarrow> 's \<Rightarrow> 's"
    and guard :: "'op \<Rightarrow> 's \<Rightarrow> bool"
    and inv :: "'s \<Rightarrow> bool"
  assumes inv_guarded: "inv s \<Longrightarrow> guard p s \<Longrightarrow> inv (apply_op p s)"
begin

lemma inv_lawful_run: "inv s \<Longrightarrow> lawful_run guard apply_op ps s \<Longrightarrow> inv (run_ops apply_op ps s)"
  by (induction ps arbitrary: s) (auto intro: inv_guarded)

end

text \<open>A component that implements an abstract specification: under the invariant, abstracting after a step is a
  step of the specification. Runs of the component are then runs of the specification.\<close>

locale functional_refinement = invariant_machine apply_op inv
  for apply_op :: "'op \<Rightarrow> 's \<Rightarrow> 's" and inv :: "'s \<Rightarrow> bool" +
  fixes spec_op :: "'op \<Rightarrow> 'a \<Rightarrow> 'a"
    and abs_state :: "'s \<Rightarrow> 'a"
  assumes simulates: "inv s \<Longrightarrow> abs_state (apply_op p s) = spec_op p (abs_state s)"
begin

lemma run_refines: "inv s \<Longrightarrow> abs_state (run_ops apply_op ps s) = run_ops spec_op ps (abs_state s)"
  by (induction ps arbitrary: s) (auto simp: simulates inv_apply)

lemma spec_invariant:
  "inv s \<Longrightarrow> (\<And>p l. good l \<Longrightarrow> good (spec_op p l)) \<Longrightarrow> good (abs_state s) \<Longrightarrow> good (abs_state (run_ops apply_op ps s))"
  by (induction ps arbitrary: s) (auto simp: simulates inv_apply)

end

subsection \<open>Bounded first-in-first-out buffers\<close>

text \<open>\<open>collections.deque(maxlen=n)\<close> and a queue that drops its oldest entry: appending keeps
  the newest \<open>n\<close> elements.\<close>

definition push_bounded :: "nat \<Rightarrow> 'a \<Rightarrow> 'a list \<Rightarrow> 'a list" where
  "push_bounded n x xs = drop (length xs + 1 - n) (xs @ [x])"

lemma length_push_bounded: "length (push_bounded n x xs) = min n (length xs + 1)"
  by (simp add: push_bounded_def)

lemma push_bounded_room: "length xs < n \<Longrightarrow> push_bounded n x xs = xs @ [x]"
  by (simp add: push_bounded_def)

lemma push_bounded_full:
  "0 < n \<Longrightarrow> length xs = n \<Longrightarrow> push_bounded n x xs = tl xs @ [x]"
  by (cases xs) (auto simp: push_bounded_def)

lemma set_push_bounded: "set (push_bounded n x xs) \<subseteq> insert x (set xs)"
  using set_drop_subset [of "length xs + 1 - n" "xs @ [x]"]
  by (auto simp: push_bounded_def)

lemma newest_push_bounded: "0 < n \<Longrightarrow> last (push_bounded n x xs) = x"
  by (simp add: push_bounded_def)

lemma suffix_push_bounded: "suffix (push_bounded n x xs) (xs @ [x])"
  unfolding push_bounded_def by (rule suffix_drop)

text \<open>A buffer of capacity \<open>cap\<close>, as its clients see it: what it holds is bounded, and is a
  suffix of everything that was ever put into it.\<close>

locale bounded_fifo =
  fixes contents :: "'b \<Rightarrow> 'a list"
    and cap :: "'b \<Rightarrow> nat"
    and put :: "'a \<Rightarrow> 'b \<Rightarrow> 'b"
  assumes cap_put: "cap (put x b) = cap b"
    and put_suffix: "length (contents b) \<le> cap b \<Longrightarrow> suffix (contents (put x b)) (contents b @ [x])"
    and put_bounded: "length (contents b) \<le> cap b \<Longrightarrow> length (contents (put x b)) \<le> cap b"
begin

lemma fold_put_suffix:
  "length (contents b) \<le> cap b \<Longrightarrow> suffix (contents (fold put xs b)) (contents b @ xs)"
proof (induction xs arbitrary: b)
  case Nil
  then show ?case by simp
next
  case (Cons x xs)
  have "suffix (contents (fold put xs (put x b))) (contents (put x b) @ xs)"
    using put_bounded [OF Cons.prems, of x] by (intro Cons.IH) (simp add: cap_put)
  moreover have "suffix (contents (put x b) @ xs) ((contents b @ [x]) @ xs)"
    using put_suffix [OF Cons.prems, of x] by (auto simp: suffix_def)
  ultimately show ?case
    by (auto intro: suffix_order.trans)
qed

lemma fold_put_cap: "cap (fold put xs b) = cap b"
  by (induction xs arbitrary: b) (auto simp: cap_put)

lemma fold_put_bounded:
  "length (contents b) \<le> cap b \<Longrightarrow> length (contents (fold put xs b)) \<le> cap b"
proof (induction xs arbitrary: b)
  case Nil
  then show ?case by simp
next
  case (Cons x xs)
  from put_bounded [OF Cons.prems, of x]
  have "length (contents (put x b)) \<le> cap (put x b)"
    by (simp add: cap_put)
  from Cons.IH [OF this] show ?case by (simp add: cap_put)
qed

end

subsection \<open>Python values\<close>

text \<open>The JSON-like values that decisions, events and audit payloads are made of. \<open>PFloat\<close>
  carries the float's \<open>repr\<close>, which identifies it.\<close>

datatype pyval =
    PNone
  | PBool bool
  | PInt int
  | PFloat string
  | PStr string
  | PList "pyval list"
  | PTuple "pyval list"
  | PDict "(string \<times> pyval) list"

type_synonym pydict = "(string \<times> pyval) list"

abbreviation dict_get :: "pydict \<Rightarrow> string \<Rightarrow> pyval option" where
  "dict_get d k \<equiv> map_of d k"

text \<open>\<open>d.get(k)\<close>: a missing key reads as \<open>None\<close>.\<close>

definition dget :: "pydict \<Rightarrow> string \<Rightarrow> pyval" where
  "dget d k = (case map_of d k of None \<Rightarrow> PNone | Some v \<Rightarrow> v)"

definition dget_default :: "pydict \<Rightarrow> string \<Rightarrow> pyval \<Rightarrow> pyval" where
  "dget_default d k v0 = (case map_of d k of None \<Rightarrow> v0 | Some v \<Rightarrow> v)"

definition dset :: "string \<Rightarrow> pyval \<Rightarrow> pydict \<Rightarrow> pydict" where
  "dset k v d = AList.update k v d"

definition ddel :: "string \<Rightarrow> pydict \<Rightarrow> pydict" where
  "ddel k d = filter (\<lambda>(k', _). k' \<noteq> k) d"

text \<open>\<open>bool(v)\<close>.\<close>

fun truthy :: "pyval \<Rightarrow> bool" where
  "truthy PNone = False"
| "truthy (PBool b) = b"
| "truthy (PInt i) = (i \<noteq> 0)"
| "truthy (PFloat r) = (r \<noteq> ''0.0'' \<and> r \<noteq> ''-0.0'')"
| "truthy (PStr s) = (s \<noteq> [])"
| "truthy (PList xs) = (xs \<noteq> [])"
| "truthy (PTuple xs) = (xs \<noteq> [])"
| "truthy (PDict d) = (d \<noteq> [])"

definition py_or :: "pyval \<Rightarrow> pyval \<Rightarrow> pyval" where
  "py_or a b = (if truthy a then a else b)"

fun is_dict :: "pyval \<Rightarrow> bool" where
  "is_dict (PDict d) = True"
| "is_dict _ = False"

fun as_dict :: "pyval \<Rightarrow> pydict" where
  "as_dict (PDict d) = d"
| "as_dict _ = []"

lemma map_of_dset: "map_of (dset k v d) = (map_of d)(k \<mapsto> v)"
  by (simp add: dset_def update_conv')

lemma map_of_ddel: "map_of (ddel k d) k' = (if k' = k then None else map_of d k')"
  by (induction d) (auto simp: ddel_def)

lemma dget_dset [simp]: "dget (dset k v d) k' = (if k' = k then v else dget d k')"
  by (simp add: dget_def map_of_dset)

lemma dget_ddel: "dget (ddel k d) k' = (if k' = k then PNone else dget d k')"
  by (simp add: dget_def map_of_ddel)

lemma ddel_absent: "k \<notin> fst ` set d \<Longrightarrow> ddel k d = d"
  by (induction d) (auto simp: ddel_def)

lemma ddel_dset_absent: "k \<notin> fst ` set d \<Longrightarrow> ddel k (dset k v d) = d"
  by (induction d) (auto simp: ddel_def dset_def)

lemma ddel_dset_same: "ddel k (dset k v d) = ddel k d"
  by (induction d) (auto simp: ddel_def dset_def)

subsection \<open>Python strings\<close>

definition char_code :: "char \<Rightarrow> nat" where
  "char_code c = of_char c"

definition lower_char :: "char \<Rightarrow> char" where
  "lower_char c = (if 65 \<le> char_code c \<and> char_code c \<le> 90 then char_of (char_code c + 32) else c)"

definition upper_char :: "char \<Rightarrow> char" where
  "upper_char c = (if 97 \<le> char_code c \<and> char_code c \<le> 122 then char_of (char_code c - 32) else c)"

definition py_lower :: "string \<Rightarrow> string" where
  "py_lower s = map lower_char s"

definition py_upper :: "string \<Rightarrow> string" where
  "py_upper s = map upper_char s"

text \<open>The 8-bit code points that \<open>str.strip()\<close> and \<open>str.split()\<close> treat as white space.\<close>

definition is_space :: "char \<Rightarrow> bool" where
  "is_space c = (let n = char_code c in
     (9 \<le> n \<and> n \<le> 13) \<or> (28 \<le> n \<and> n \<le> 32) \<or> n = 133 \<or> n = 160)"

definition strip_by :: "('a \<Rightarrow> bool) \<Rightarrow> 'a list \<Rightarrow> 'a list" where
  "strip_by P s = rev (dropWhile P (rev (dropWhile P s)))"

definition py_strip :: "string \<Rightarrow> string" where
  "py_strip s = strip_by is_space s"

definition py_rstrip_char :: "char \<Rightarrow> string \<Rightarrow> string" where
  "py_rstrip_char c s = rev (dropWhile (\<lambda>x. x = c) (rev s))"

definition py_startswith :: "string \<Rightarrow> string \<Rightarrow> bool" where
  "py_startswith s p = (take (length p) s = p)"

definition py_endswith :: "string \<Rightarrow> string \<Rightarrow> bool" where
  "py_endswith s p = (length p \<le> length s \<and> drop (length s - length p) s = p)"

fun py_contains :: "string \<Rightarrow> string \<Rightarrow> bool" where
  "py_contains [] p = (p = [])"
| "py_contains (c # s) p = (py_startswith (c # s) p \<or> py_contains s p)"

lemma set_dropWhileD_all: "x \<in> set (dropWhile P xs) \<Longrightarrow> x \<in> set xs"
  by (rule set_dropWhileD)

lemma set_strip_by: "set (strip_by P s) \<subseteq> set s"
  by (auto simp: strip_by_def dest!: set_dropWhileD_all)

lemma length_strip_by: "length (strip_by P s) \<le> length s"
  using length_dropWhile_le [of P s] length_dropWhile_le [of P "rev (dropWhile P s)"]
  by (simp add: strip_by_def)

lemma strip_by_sublist: "sublist (strip_by P s) s"
proof -
  have 1: "suffix (dropWhile P s) s"
    by (rule suffix_dropWhile)
  have "suffix (dropWhile P (rev (dropWhile P s))) (rev (dropWhile P s))"
    by (rule suffix_dropWhile)
  then have 2: "prefix (strip_by P s) (dropWhile P s)"
    by (simp add: strip_by_def suffix_to_prefix)
  from 1 2 show ?thesis
    by (meson prefix_imp_sublist sublist_order.order_trans suffix_imp_sublist)
qed

lemma py_startswith_iff: "py_startswith s p \<longleftrightarrow> prefix p s"
  by (metis append_eq_conv_conj prefix_def py_startswith_def append_take_drop_id)

lemma py_endswith_iff: "py_endswith s p \<longleftrightarrow> suffix p s"
  by (auto simp: py_endswith_def suffix_def)
     (metis append_take_drop_id)

lemma py_contains_iff: "py_contains s p \<longleftrightarrow> sublist p s"
  by (induction s) (auto simp: py_startswith_iff sublist_Cons_right)

text \<open>Decimal rendering of integers, as \<open>str(n)\<close> and \<open>json.dumps(n)\<close> give it.\<close>

definition digit_char :: "nat \<Rightarrow> char" where
  "digit_char n = char_of (48 + n)"

fun show_nat :: "nat \<Rightarrow> string" where
  "show_nat n = (if n < 10 then [digit_char n] else show_nat (n div 10) @ [digit_char (n mod 10)])"

declare show_nat.simps [simp del]

definition show_int :: "int \<Rightarrow> string" where
  "show_int i = (if i < 0 then CHR ''-'' # show_nat (nat (- i)) else show_nat (nat i))"

subsection \<open>\<open>str()\<close>, \<open>repr()\<close> and \<open>int()\<close> of values\<close>

definition hex_lower :: "nat \<Rightarrow> char" where
  "hex_lower n = (if n < 10 then char_of (48 + n) else char_of (87 + n))"

text \<open>\<open>repr\<close> of a string: single quotes unless it has one and no double quote.\<close>

definition repr_char :: "char \<Rightarrow> char \<Rightarrow> string" where
  "repr_char quote c = (let n = char_code c; bs = CHR 0x5C in
     if c = quote \<or> c = bs then [bs, c]
     else if n = 9 then [bs, CHR ''t''] else if n = 10 then [bs, CHR ''n'']
     else if n = 13 then [bs, CHR ''r'']
     else if n < 32 \<or> (127 \<le> n \<and> n \<le> 160) \<or> n = 173
       then [bs, CHR ''x'', hex_lower (n div 16), hex_lower (n mod 16)]
     else [c])"

definition repr_str :: "string \<Rightarrow> string" where
  "repr_str s =
     (let q = (if CHR 0x27 \<in> set s \<and> CHR 0x22 \<notin> set s then CHR 0x22 else CHR 0x27)
      in [q] @ concat (map (repr_char q) s) @ [q])"

definition join_sep :: "string \<Rightarrow> string list \<Rightarrow> string" where
  "join_sep sep xs = concat (case xs of [] \<Rightarrow> [] | y # ys \<Rightarrow> y # map (\<lambda>s. sep @ s) ys)"

fun py_repr :: "pyval \<Rightarrow> string" where
  "py_repr PNone = ''None''"
| "py_repr (PBool b) = (if b then ''True'' else ''False'')"
| "py_repr (PInt i) = show_int i"
| "py_repr (PFloat r) = r"
| "py_repr (PStr s) = repr_str s"
| "py_repr (PList xs) = ''['' @ join_sep '', '' (map py_repr xs) @ '']''"
| "py_repr (PTuple xs) =
     ''('' @ join_sep '', '' (map py_repr xs) @ (if length xs = 1 then '','' else []) @ '')''"
| "py_repr (PDict d) =
     ''{'' @ join_sep '', '' (map (\<lambda>kv. repr_str (fst kv) @ '': '' @ py_repr (snd kv)) d) @ ''}''"

fun py_str :: "pyval \<Rightarrow> string" where
  "py_str (PStr s) = s"
| "py_str v = py_repr v"

definition quoted :: "string \<Rightarrow> string" where
  "quoted s = [CHR 0x27] @ s @ [CHR 0x27]"

text \<open>The em dash of the sources' texts lies outside the modelled code points and is written as the code 0x97.\<close>

definition em_dash :: string where "em_dash = [CHR 0x97]"

datatype py_exn = ValueErr | TypeErr | AttributeErr | KeyErr | OSErr | RuntimeErr

fun dec_value :: "int \<Rightarrow> string \<Rightarrow> int option" where
  "dec_value n [] = Some n"
| "dec_value n (c # cs) =
     (if 48 \<le> char_code c \<and> char_code c \<le> 57
      then dec_value (10 * n + int (char_code c) - 48) cs else None)"

text \<open>\<open>int(s)\<close> of a decimal text, with surrounding white space and a sign (digit grouping by
  underscores is not modelled).\<close>

definition parse_int :: "string \<Rightarrow> int option" where
  "parse_int s0 =
     (let s = py_strip s0;
          neg = (s \<noteq> [] \<and> hd s = CHR ''-'');
          ds = (if s \<noteq> [] \<and> hd s \<in> {CHR ''-'', CHR ''+''} then tl s else s)
      in if ds = [] then None
         else map_option (\<lambda>n. if neg then - n else n) (dec_value 0 ds))"

text \<open>\<open>int(x)\<close> of a float, from its \<open>repr\<close>: truncation towards zero.\<close>

definition trunc_repr :: "string \<Rightarrow> int" where
  "trunc_repr r =
     (let neg = (r \<noteq> [] \<and> hd r = CHR ''-'');
          u = (if neg then tl r else r);
          m = takeWhile (\<lambda>c. c \<noteq> CHR ''e'') u;
          ex = (case parse_int (drop (length m + 1) u) of None \<Rightarrow> 0 | Some e \<Rightarrow> e);
          ip = takeWhile (\<lambda>c. c \<noteq> CHR ''.'') m;
          fp = drop (length ip + 1) m;
          v = (case dec_value 0 (ip @ fp) of None \<Rightarrow> 0 | Some n \<Rightarrow> n);
          k = ex - int (length fp);
          a = (if k \<ge> 0 then v * 10 ^ nat k else v div 10 ^ nat (- k))
      in if neg then - a else a)"

fun py_int :: "pyval \<Rightarrow> py_exn + int" where
  "py_int (PInt i) = Inr i"
| "py_int (PBool b) = Inr (if b then 1 else 0)"
| "py_int (PFloat r) = Inr (trunc_repr r)"
| "py_int (PStr s) = (case parse_int s of None \<Rightarrow> Inl ValueErr | Some i \<Rightarrow> Inr i)"
| "py_int _ = Inl TypeErr"

text \<open>Membership in a Python set or dictionary raises on an unhashable value.\<close>

fun hashable :: "pyval \<Rightarrow> bool" where
  "hashable (PList xs) = False"
| "hashable (PDict d) = False"
| "hashable (PTuple xs) = list_all hashable xs"
| "hashable v = True"

text \<open>The values a \<open>for\<close> loop over a value runs through; a value that is not iterable raises.\<close>

fun py_iter :: "pyval \<Rightarrow> py_exn + pyval list" where
  "py_iter (PList xs) = Inr xs"
| "py_iter (PTuple xs) = Inr xs"
| "py_iter (PDict d) = Inr (map (\<lambda>(k, _). PStr k) d)"
| "py_iter (PStr s) = Inr (map (\<lambda>c. PStr [c]) s)"
| "py_iter _ = Inl TypeErr"

text \<open>\<open>str.split()\<close>: maximal runs without white space.\<close>

fun split_words :: "string \<Rightarrow> string \<Rightarrow> string list" where
  "split_words w [] = (if w = [] then [] else [rev w])"
| "split_words w (c # s) =
     (if is_space c then (if w = [] then split_words [] s else rev w # split_words [] s)
      else split_words (c # w) s)"

definition py_words :: "string \<Rightarrow> string list" where
  "py_words s = split_words [] s"

text \<open>\<open>round(x)\<close> and \<open>round(x, n)\<close>: ties go to the even neighbour.\<close>

definition round_even :: "real \<Rightarrow> int" where
  "round_even y = (let f = \<lfloor>y\<rfloor>; d = y - of_int f in if d < 1/2 \<or> (d = 1/2 \<and> even f) then f else f + 1)"

definition py_round :: "nat \<Rightarrow> real \<Rightarrow> real" where
  "py_round n x = of_int (round_even (x * 10 ^ n)) / 10 ^ n"

end
