(* ===== verification/Json.thy ===== *)
theory Json
  imports Prelude "HOL-Library.Multiset" "HOL-Library.List_Lexorder" "HOL-Library.Char_ord"
begin

text \<open>
  \<open>canonical_json\<close> and \<open>canonical_hash\<close> of \<open>src/security.py\<close>, with the part of
  \<open>json.dumps\<close> they use: sorted keys, the separators \<open>,\<close> and \<open>:\<close>, ASCII escapes. The hash
  function (SHA-256 in hex) is a parameter \<open>H\<close>. The main lemma says that the canonical form
  loses nothing but the order of dictionary keys and the difference of tuples and lists: equal
  texts come from equal normal forms.
\<close>

subsection \<open>Decimal numbers\<close>

lemma digit_char_inj: "m < 10 \<Longrightarrow> n < 10 \<Longrightarrow> digit_char m = digit_char n \<Longrightarrow> m = n"
  by (auto simp: digit_char_def of_char_of dest!: arg_cong [where f = "of_char :: char \<Rightarrow> nat"])

definition digits :: "char set" where
  "digits = digit_char ` {0..<10}"

lemma digits_code: "c \<in> digits \<Longrightarrow> 48 \<le> (of_char c :: nat) \<and> (of_char c :: nat) \<le> 57"
  by (auto simp: digits_def digit_char_def)

lemma show_nat_digits: "set (show_nat n) \<subseteq> digits"
  by (induction n rule: show_nat.induct) (subst show_nat.simps, auto simp: digits_def)

lemma show_nat_nonempty [simp]: "show_nat n \<noteq> []" "[] \<noteq> show_nat n"
  by (subst show_nat.simps, simp)+

lemma show_nat_inj: "show_nat m = show_nat n \<Longrightarrow> m = n"
proof (induction m arbitrary: n rule: show_nat.induct)
  case (1 m)
  show ?case
  proof (cases "m < 10")
    case True
    with 1(2) show ?thesis
      by (cases "n < 10")
         (auto simp: show_nat.simps [of m] show_nat.simps [of n] dest: digit_char_inj)
  next
    case False
    show ?thesis
    proof (cases "n < 10")
      case True
      with False 1(2) show ?thesis
        by (auto simp: show_nat.simps [of m] show_nat.simps [of n])
    next
      case big: False
      from 1(2) False big have "show_nat (m div 10) = show_nat (n div 10)"
        and "digit_char (m mod 10) = digit_char (n mod 10)"
        by (auto simp: show_nat.simps [of m] show_nat.simps [of n])
      with 1(1) [OF False] have "m div 10 = n div 10" and "m mod 10 = n mod 10"
        by (auto intro: digit_char_inj)
      then show ?thesis by (metis div_mult_mod_eq)
    qed
  qed
qed

lemma minus_not_digit: "CHR ''-'' \<notin> digits"
  by (auto dest: digits_code)

lemma show_nat_not_minus: "show_nat n \<noteq> CHR ''-'' # xs"
proof
  assume "show_nat n = CHR ''-'' # xs"
  then have "CHR ''-'' \<in> set (show_nat n)" by simp
  with show_nat_digits [of n] minus_not_digit show False by blast
qed

lemma show_int_inj: "show_int i = show_int j \<Longrightarrow> i = j"
  using show_nat_not_minus
  by (auto simp: show_int_def split: if_splits dest!: show_nat_inj; metis)

lemma show_int_chars: "set (show_int i) \<subseteq> insert (CHR ''-'') digits"
  using show_nat_digits by (auto simp: show_int_def)

lemma show_int_nonempty [simp]: "show_int i \<noteq> []"
  by (simp add: show_int_def)

lemma show_int_head: "hd (show_int i) \<in> insert (CHR ''-'') digits"
  using show_int_chars [of i] hd_in_set [OF show_int_nonempty [of i]] by blast

subsection \<open>Strings\<close>

definition hex_digit :: "nat \<Rightarrow> char" where
  "hex_digit n = (if n < 10 then char_of (48 + n) else char_of (87 + n))"

text \<open>\<open>json.encoder\<close> with \<open>ensure_ascii\<close>: short escapes, otherwise \<open>\u00xx\<close> outside the
  printable ASCII range.\<close>

definition json_escape :: "char \<Rightarrow> string" where
  "json_escape c = (let n = (of_char c :: nat); bs = CHR 0x5C in
     if c = CHR 0x22 then [bs, CHR 0x22]
     else if c = bs then [bs, bs]
     else if n = 10 then [bs, CHR ''n'']
     else if n = 13 then [bs, CHR ''r'']
     else if n = 9 then [bs, CHR ''t'']
     else if n = 12 then [bs, CHR ''f'']
     else if n = 8 then [bs, CHR ''b'']
     else if n < 32 \<or> n > 126
       then [bs, CHR ''u'', CHR ''0'', CHR ''0'', hex_digit (n div 16), hex_digit (n mod 16)]
     else [c])"

definition json_string :: "string \<Rightarrow> string" where
  "json_string s = CHR 0x22 # concat (map json_escape s) @ [CHR 0x22]"

lemma hex_digit_inj: "m < 16 \<Longrightarrow> n < 16 \<Longrightarrow> hex_digit m = hex_digit n \<Longrightarrow> m = n"
  by (auto simp: hex_digit_def split: if_splits
      dest!: arg_cong [where f = "of_char :: char \<Rightarrow> nat"])

lemma char_nat_inj: "(of_char c :: nat) = of_char d \<Longrightarrow> c = d"
  by (metis char_of_char)

lemma nat_div_mod_16: "m div 16 = n div 16 \<Longrightarrow> m mod 16 = n mod 16 \<Longrightarrow> m = (n :: nat)"
  by (metis div_mult_mod_eq)

lemma hex_pair_inj:
  assumes "hex_digit (of_char c div 16) = hex_digit (of_char d div 16)"
    and "hex_digit (of_char c mod 16) = hex_digit (of_char d mod 16)"
  shows "c = d"
proof (rule char_nat_inj, rule nat_div_mod_16)
  have "(of_char c :: nat) div 16 < 16" "(of_char d :: nat) div 16 < 16"
    using nat_of_char_less_256 [of c] nat_of_char_less_256 [of d] by linarith+
  then show "(of_char c :: nat) div 16 = of_char d div 16"
    using assms(1) by (rule hex_digit_inj)
  show "(of_char c :: nat) mod 16 = of_char d mod 16"
    by (rule hex_digit_inj [OF _ _ assms(2)]) simp_all
qed

definition short_escape :: "char \<Rightarrow> char" where
  "short_escape k = (if k = CHR ''n'' then CHR 0x0A else if k = CHR ''r'' then CHR 0x0D
     else if k = CHR ''t'' then CHR 0x09 else if k = CHR ''f'' then CHR 0x0C
     else if k = CHR ''b'' then CHR 0x08 else k)"

lemma json_escape_cases:
  "json_escape c = [c] \<and> c \<noteq> CHR 0x5C \<or>
   (\<exists>k. k \<noteq> CHR ''u'' \<and> json_escape c = [CHR 0x5C, k] \<and> c = short_escape k) \<or>
   json_escape c = [CHR 0x5C, CHR ''u'', CHR ''0'', CHR ''0'',
     hex_digit (of_char c div 16), hex_digit (of_char c mod 16)]"
  unfolding json_escape_def Let_def short_escape_def
  by (auto intro: char_nat_inj)

lemma json_escape_inj:
  assumes "json_escape c @ x = json_escape d @ y"
  shows "c = d \<and> x = y"
  using json_escape_cases [of c] json_escape_cases [of d] assms
  by (elim disjE exE conjE) (auto dest: hex_pair_inj)

lemma json_escape_not_quote: "json_escape c @ x \<noteq> CHR 0x22 # y"
  by (auto simp: json_escape_def Let_def split: if_splits)

lemma json_escaped_inj:
  "concat (map json_escape s) @ CHR 0x22 # x = concat (map json_escape t) @ CHR 0x22 # y \<Longrightarrow>
     s = t \<and> x = y"
proof (induction s arbitrary: t)
  case Nil
  then show ?case
    by (cases t) (auto dest: sym simp: json_escape_not_quote)
next
  case (Cons c s)
  then show ?case
  proof (cases t)
    case Nil
    with Cons.prems show ?thesis by (simp add: json_escape_not_quote)
  next
    case (Cons d t')
    with Cons.prems have "json_escape c @ (concat (map json_escape s) @ CHR 0x22 # x) =
        json_escape d @ (concat (map json_escape t') @ CHR 0x22 # y)" by simp
    from json_escape_inj [OF this] Cons.IH [of t'] Cons show ?thesis by simp
  qed
qed

lemma json_string_inj: "json_string s @ x = json_string t @ y \<Longrightarrow> s = t \<and> x = y"
  by (simp add: json_string_def) (blast dest: json_escaped_inj)

subsection \<open>Values\<close>

definition comma_sep :: "string list \<Rightarrow> string" where
  "comma_sep xs = concat (case xs of [] \<Rightarrow> [] | y # ys \<Rightarrow> y # map (\<lambda>s. CHR '','' # s) ys)"

fun json_print :: "pyval \<Rightarrow> string" where
  "json_print PNone = ''null''"
| "json_print (PBool b) = (if b then ''true'' else ''false'')"
| "json_print (PInt i) = show_int i"
| "json_print (PFloat r) = r"
| "json_print (PStr s) = json_string s"
| "json_print (PList xs) = CHR ''['' # comma_sep (map json_print xs) @ '']''"
| "json_print (PTuple xs) = CHR ''['' # comma_sep (map json_print xs) @ '']''"
| "json_print (PDict d) =
     CHR ''{'' # comma_sep (map (\<lambda>kv. json_string (fst kv) @ CHR '':'' # json_print (snd kv)) d) @ ''}''"

text \<open>\<open>sort_keys=True\<close>, and tuples as lists.\<close>

fun jnorm :: "pyval \<Rightarrow> pyval" where
  "jnorm (PList xs) = PList (map jnorm xs)"
| "jnorm (PTuple xs) = PList (map jnorm xs)"
| "jnorm (PDict d) = PDict (sort_key fst (map (\<lambda>kv. (fst kv, jnorm (snd kv))) d))"
| "jnorm v = v"

definition canonical_json :: "pyval \<Rightarrow> string" where
  "canonical_json v = json_print (jnorm v)"

definition canonical_hash :: "(string \<Rightarrow> string) \<Rightarrow> pyval \<Rightarrow> string" where
  "canonical_hash H v = H (canonical_json v)"

text \<open>A float's \<open>repr\<close>: number characters only, with a point or an exponent, so that it is
  never the text of an integer. (NaN and the infinities are outside the model.)\<close>

definition float_repr :: "string \<Rightarrow> bool" where
  "float_repr r \<longleftrightarrow> r \<noteq> [] \<and> hd r \<in> insert (CHR ''-'') digits \<and>
     set r \<subseteq> digits \<union> {CHR ''-'', CHR ''+'', CHR ''.'', CHR ''e''} \<and>
     (CHR ''.'' \<in> set r \<or> CHR ''e'' \<in> set r)"

fun json_ok :: "pyval \<Rightarrow> bool" where
  "json_ok (PFloat r) = float_repr r"
| "json_ok (PList xs) = list_all json_ok xs"
| "json_ok (PTuple xs) = list_all json_ok xs"
| "json_ok (PDict d) = list_all (\<lambda>kv. json_ok (snd kv)) d"
| "json_ok v = True"

text \<open>Normalising twice is normalising once, and selecting keys commutes with it.\<close>

lemma sort_key_map_fst:
  "sort_key fst (map (\<lambda>kv. (fst kv, f (snd kv))) d) =
     map (\<lambda>kv. (fst kv, f (snd kv))) (sort_key fst (d :: (string \<times> 'a) list))"
proof (rule properties_for_sort_key)
  have *: "image_mset (\<lambda>kv. (fst kv, f (snd kv))) (mset (sort_key fst d)) =
      image_mset (\<lambda>kv. (fst kv, f (snd kv))) (mset d)" by simp
  then show "mset (map (\<lambda>kv. (fst kv, f (snd kv))) (sort_key fst d)) =
      mset (map (\<lambda>kv. (fst kv, f (snd kv))) d)" by (simp only: mset_map)
  show "filter (\<lambda>x. fst k = fst x) (map (\<lambda>kv. (fst kv, f (snd kv))) (sort_key fst d)) =
      filter (\<lambda>x. fst k = fst x) (map (\<lambda>kv. (fst kv, f (snd kv))) d)"
    for k :: "string \<times> 'b"
    using sort_key_stable [of fst "fst k" d]
    by (simp add: filter_map comp_def eq_commute [of "fst k"])
  show "sorted (map fst (map (\<lambda>kv. (fst kv, f (snd kv))) (sort_key fst d)))"
    by (simp add: comp_def)
qed

lemma sort_key_idem: "sort_key f (sort_key f xs) = sort_key f xs"
  by (rule sort_key_id_if_sorted) simp

lemma jnorm_idem [simp]: "jnorm (jnorm v) = jnorm v"
proof (induction v rule: jnorm.induct)
  case (3 d)
  have "map (\<lambda>kv. (fst kv, jnorm (snd kv))) (map (\<lambda>kv. (fst kv, jnorm (snd kv))) d) =
      map (\<lambda>kv. (fst kv, jnorm (snd kv))) d"
    using 3 by (auto simp: comp_def)
  then show ?case
    by (simp del: map_map add: sort_key_map_fst [of jnorm, symmetric] sort_key_idem)
qed auto

text \<open>The dictionary that reading back a written dictionary gives.\<close>

definition dnorm :: "pydict \<Rightarrow> pydict" where
  "dnorm d = sort_key fst (map (\<lambda>kv. (fst kv, jnorm (snd kv))) d)"

lemma jnorm_PDict: "jnorm (PDict d) = PDict (dnorm d)"
  by (simp add: dnorm_def)

lemma canonical_json_dnorm [simp]: "canonical_json (PDict (dnorm d)) = canonical_json (PDict d)"
  by (metis canonical_json_def jnorm_PDict jnorm_idem)

lemma filter_dnorm:
  "filter (\<lambda>kv. P (fst kv)) (dnorm d) = dnorm (filter (\<lambda>kv. P (fst kv)) d)"
  by (simp add: dnorm_def filter_sort filter_map comp_def)

lemma map_of_dnorm:
  assumes "distinct (map fst d)"
  shows "map_of (dnorm d) k = map_option jnorm (map_of d k)"
proof -
  have "map_of (dnorm d) = map_of (map (\<lambda>kv. (fst kv, jnorm (snd kv))) d)"
    unfolding dnorm_def
    by (subst map_of_inject_set) (use assms in \<open>auto simp: distinct_map comp_def inj_on_def\<close>)
  moreover have "map_of (map (\<lambda>kv. (fst kv, jnorm (snd kv))) d) k = map_option jnorm (map_of d k)"
    by (induction d) auto
  ultimately show ?thesis by simp
qed

subsection \<open>The canonical form determines the normal form\<close>

definition delims :: "char set" where
  "delims = {CHR '','', CHR '']'', CHR ''}''}"

definition delimited :: "string \<Rightarrow> bool" where
  "delimited r \<longleftrightarrow> r = [] \<or> hd r \<in> delims"

lemma delimited_Cons [simp]: "delimited (c # r) \<longleftrightarrow> c \<in> delims"
  by (simp add: delimited_def)

text \<open>Words that contain no delimiter are read back by reading up to the first delimiter.\<close>

lemma word_inj:
  assumes "a @ r = b @ s" and "set a \<inter> delims = {}" and "set b \<inter> delims = {}"
    and "delimited r" and "delimited s"
  shows "a = b \<and> r = s"
proof -
  have tw: "takeWhile (\<lambda>c. c \<notin> delims) (x @ q) = x"
    if "set x \<inter> delims = {}" "delimited q" for x q :: string
    using that by (cases q) (auto simp: takeWhile_append2 takeWhile_append dest: takeWhile_eq_all_conv [THEN iffD2])
  from tw [OF assms(2,4)] tw [OF assms(3,5)] assms(1) have "a = b" by simp
  with assms(1) show ?thesis by simp
qed

text \<open>Values without tuples, with well-formed floats: the normal forms.\<close>

fun jwf :: "pyval \<Rightarrow> bool" where
  "jwf (PFloat r) = float_repr r"
| "jwf (PList xs) = list_all jwf xs"
| "jwf (PTuple xs) = False"
| "jwf (PDict d) = list_all (\<lambda>kv. jwf (snd kv)) d"
| "jwf v = True"

lemma jwf_jnorm: "json_ok v \<Longrightarrow> jwf (jnorm v)"
  by (induction v rule: jnorm.induct) (auto simp: list_all_iff)

fun is_word :: "pyval \<Rightarrow> bool" where
  "is_word PNone = True"
| "is_word (PBool b) = True"
| "is_word (PInt i) = True"
| "is_word (PFloat r) = True"
| "is_word _ = False"

lemma digits_delims: "c \<in> digits \<Longrightarrow> c \<notin> delims"
  by (auto simp: delims_def dest: digits_code)

lemma word_chars: "jwf v \<Longrightarrow> is_word v \<Longrightarrow> set (json_print v) \<inter> delims = {}"
proof (cases v)
  case (PInt i)
  then show ?thesis
    using show_int_chars [of i] digits_delims by (fastforce simp: delims_def)
next
  case (PFloat r)
  moreover assume "jwf v"
  ultimately have "set r \<subseteq> digits \<union> {CHR ''-'', CHR ''+'', CHR ''.'', CHR ''e''}"
    by (simp add: float_repr_def)
  with PFloat show ?thesis using digits_delims by (fastforce simp: delims_def)
qed (auto simp: delims_def)

definition first_char :: "pyval \<Rightarrow> char" where
  "first_char v = hd (json_print v)"

lemma json_print_nonempty: "jwf v \<Longrightarrow> json_print v \<noteq> []"
  by (cases v) (auto simp: json_string_def float_repr_def)

lemma number_head: "x \<in> insert (CHR ''-'') digits \<Longrightarrow>
   x \<noteq> CHR 0x22 \<and> x \<noteq> CHR ''['' \<and> x \<noteq> CHR ''{'' \<and> x \<noteq> CHR ''n'' \<and> x \<noteq> CHR ''t'' \<and>
   x \<noteq> CHR ''f'' \<and> x \<noteq> CHR '']'' \<and> x \<noteq> CHR ''}'' \<and> x \<noteq> CHR '',''"
  by (auto dest: digits_code)

lemma word_first:
  assumes "jwf v" and "is_word v"
  shows "first_char v \<notin> {CHR 0x22, CHR ''['', CHR ''{'', CHR '']'', CHR ''}'', CHR '',''}"
proof (cases v)
  case (PInt i)
  from number_head [OF show_int_head] PInt show ?thesis by (simp add: first_char_def)
next
  case (PFloat r)
  with assms have "hd r \<in> insert (CHR ''-'') digits" by (simp add: float_repr_def)
  from number_head [OF this] PFloat show ?thesis by (simp add: first_char_def)
qed (use assms in \<open>auto simp: first_char_def\<close>)

fun is_num :: "pyval \<Rightarrow> bool" where
  "is_num (PInt i) = True"
| "is_num (PFloat r) = True"
| "is_num _ = False"

lemma num_head: "jwf u \<Longrightarrow> is_num u \<Longrightarrow> hd (json_print u) \<in> insert (CHR ''-'') digits"
  using show_int_head by (cases u) (auto simp: float_repr_def)

lemma keyword_cases: "is_word u \<Longrightarrow> \<not> is_num u \<Longrightarrow> u = PNone \<or> u = PBool True \<or> u = PBool False"
  by (cases u) auto

lemma int_not_float: "float_repr r \<Longrightarrow> show_int i \<noteq> r"
proof -
  assume r: "float_repr r"
  have "CHR ''.'' \<notin> set (show_int i)" and "CHR ''e'' \<notin> set (show_int i)"
    using show_int_chars [of i] by (auto dest!: subsetD [of "set (show_int i)"] digits_code)
  with r show ?thesis by (auto simp: float_repr_def)
qed

lemma num_print_inj:
  assumes "jwf v" "jwf w" "is_num v" "is_num w" "json_print v = json_print w"
  shows "v = w"
proof (cases v)
  case v: (PInt i)
  with assms show ?thesis by (cases w) (auto dest: show_int_inj int_not_float)
next
  case v: (PFloat r)
  show ?thesis
  proof (cases w)
    case (PInt j)
    with assms v int_not_float [of r j] show ?thesis by simp
  qed (use assms v in auto)
qed (use assms in auto)

lemma keyword_not_number:
  assumes "is_word v" "\<not> is_num v" "jwf w" "is_num w"
  shows "json_print v \<noteq> json_print w"
proof
  assume eq: "json_print v = json_print w"
  from keyword_cases [OF assms(1,2)]
  have "hd (json_print v) \<in> {CHR ''n'', CHR ''t'', CHR ''f''}" by auto
  with number_head [OF num_head [OF assms(3,4)]] show False by (simp add: eq)
qed

lemma word_print_inj:
  assumes "jwf v" and "jwf w" and "is_word v" and "is_word w" and "json_print v = json_print w"
  shows "v = w"
proof (cases "is_num v")
  case v: True
  with keyword_not_number [of w v] assms have "is_num w" by metis
  with num_print_inj v assms show ?thesis by blast
next
  case v: False
  with keyword_not_number [of v w] assms have "\<not> is_num w" by metis
  with keyword_cases [OF assms(3) v] keyword_cases [of w] assms show ?thesis by auto
qed

lemma closing_not_first:
  assumes "jwf v"
  shows "first_char v \<notin> {CHR '']'', CHR ''}'', CHR '',''}"
  using word_first [OF assms] assms
  by (cases v) (auto simp: first_char_def json_string_def)

text \<open>The kind of a value shows in its first character.\<close>

lemma first_kind:
  assumes "jwf v" and "jwf w" and "first_char v = first_char w"
  shows "is_word v \<and> is_word w \<or> (\<exists>s t. v = PStr s \<and> w = PStr t) \<or>
         (\<exists>xs ys. v = PList xs \<and> w = PList ys) \<or> (\<exists>d e. v = PDict d \<and> w = PDict e)"
  using assms word_first [of v] word_first [of w]
  by (cases v; cases w) (auto simp: first_char_def json_string_def)

lemma first_append: "jwf v \<Longrightarrow> jwf w \<Longrightarrow> json_print v @ r = json_print w @ s \<Longrightarrow> first_char v = first_char w"
  by (metis hd_append2 json_print_nonempty first_char_def)

lemma comma_sep_Cons:
  "comma_sep (x # xs) = x @ concat (map (\<lambda>s. CHR '','' # s) xs)"
  by (simp add: comma_sep_def)

text \<open>Reading back a comma-separated sequence whose items can be read back.\<close>

definition reads_back :: "('a \<Rightarrow> string) \<Rightarrow> 'a set \<Rightarrow> bool" where
  "reads_back f A \<longleftrightarrow> (\<forall>x\<in>A. \<forall>y\<in>A. \<forall>r s. delimited r \<longrightarrow> delimited s \<longrightarrow>
      f x @ r = f y @ s \<longrightarrow> x = y \<and> r = s)"

lemma reads_backD:
  "reads_back f A \<Longrightarrow> x \<in> A \<Longrightarrow> y \<in> A \<Longrightarrow> delimited r \<Longrightarrow> delimited s \<Longrightarrow>
     f x @ r = f y @ s \<Longrightarrow> x = y \<and> r = s"
  by (auto simp: reads_back_def)

lemma tail_reads_back:
  assumes "c \<in> {CHR '']'', CHR ''}''}"
    and step: "\<And>x y r s. x \<in> set xs \<Longrightarrow> y \<in> set ys \<Longrightarrow> delimited r \<Longrightarrow> delimited s \<Longrightarrow>
        f x @ r = f y @ s \<Longrightarrow> x = y \<and> r = s"
    and "concat (map (\<lambda>s. CHR '','' # s) (map f xs)) @ c # r =
         concat (map (\<lambda>s. CHR '','' # s) (map f ys)) @ c # s"
  shows "xs = ys \<and> r = s"
  using assms(2,3)
proof (induction xs arbitrary: ys)
  case Nil
  with assms(1) show ?case by (cases ys) auto
next
  case (Cons x xs)
  show ?case
  proof (cases ys)
    case Nil
    with Cons.prems(2) assms(1) show ?thesis by auto
  next
    case ys: (Cons y zs)
    let ?t = "\<lambda>zs. concat (map (\<lambda>s. CHR '','' # s) (map f zs)) @ [c]"
    have d: "delimited (?t zs' @ q)" for zs' q
      using assms(1) by (cases zs') (auto simp: delims_def)
    from Cons.prems(2) ys have "f x @ (?t xs @ r) = f y @ (?t zs @ s)" by simp
    with Cons.prems(1) [of x y "?t xs @ r" "?t zs @ s"] d ys
    have "x = y" and "?t xs @ r = ?t zs @ s" by auto
    moreover from this(2) have "xs = zs \<and> r = s"
      by (intro Cons.IH [of zs]) (use Cons.prems(1) ys in auto)
    ultimately show ?thesis using ys by simp
  qed
qed

lemma comma_sep_not_close:
  "f x \<noteq> [] \<Longrightarrow> hd (f x) \<noteq> c \<Longrightarrow> comma_sep (map f (x # xs)) @ q \<noteq> c # r"
  by (cases "f x") (auto simp: comma_sep_Cons)

lemma comma_sep_Nil [simp]: "comma_sep [] = []"
  by (simp add: comma_sep_def)

lemma comma_sep_reads_back:
  assumes c: "c \<in> {CHR '']'', CHR ''}''}"
    and step: "\<And>x y r s. x \<in> set xs \<Longrightarrow> y \<in> set ys \<Longrightarrow> delimited r \<Longrightarrow> delimited s \<Longrightarrow>
        f x @ r = f y @ s \<Longrightarrow> x = y \<and> r = s"
    and ne: "\<And>x. x \<in> set xs \<union> set ys \<Longrightarrow> f x \<noteq> [] \<and> hd (f x) \<noteq> c"
    and eq: "comma_sep (map f xs) @ c # r = comma_sep (map f ys) @ c # s"
  shows "xs = ys \<and> r = s"
proof (cases xs)
  case Nil
  show ?thesis
  proof (cases ys)
    case ys: (Cons y ys')
    with eq Nil have "comma_sep (map f (y # ys')) @ c # s = c # r" by simp
    with comma_sep_not_close [of f y c] ne [of y] ys show ?thesis by simp
  qed (use eq Nil in auto)
next
  case xs: (Cons x xs')
  show ?thesis
  proof (cases ys)
    case Nil
    with eq xs have "comma_sep (map f (x # xs')) @ c # r = c # s" by simp
    with comma_sep_not_close [of f x c] ne [of x] xs show ?thesis by simp
  next
    case ys: (Cons y ys')
    let ?t = "\<lambda>zs. concat (map (\<lambda>s. CHR '','' # s) (map f zs)) @ [c]"
    have d: "delimited (?t zs' @ q)" for zs' q
      using c by (cases zs') (auto simp: delims_def)
    from eq xs ys have "f x @ (?t xs' @ r) = f y @ (?t ys' @ s)"
      by (simp add: comma_sep_Cons)
    with step [of x y "?t xs' @ r" "?t ys' @ s"] d xs ys
    have "x = y" and t: "?t xs' @ r = ?t ys' @ s" by auto
    from t have "xs' = ys' \<and> r = s"
      by (intro tail_reads_back [OF c, of xs' ys' f]) (use step xs ys in auto)
    with \<open>x = y\<close> xs ys show ?thesis by simp
  qed
qed

lemma word_reads_back:
  assumes "is_word v" and "jwf v" and "jwf w" and "delimited r" and "delimited s"
    and eq: "json_print v @ r = json_print w @ s"
  shows "v = w \<and> r = s"
proof -
  from first_kind [OF assms(2,3) first_append [OF assms(2,3) eq]] assms(1)
  have w: "is_word w" by auto
  from word_inj [OF eq word_chars word_chars] assms w
  have "json_print v = json_print w \<and> r = s" by simp
  with word_print_inj [OF assms(2,3,1) w] show ?thesis by simp
qed

lemma json_print_reads_back:
  assumes "jwf v" and "jwf w" and "delimited r" and "delimited s"
    and "json_print v @ r = json_print w @ s"
  shows "v = w \<and> r = s"
  using assms
proof (induction v arbitrary: w r s rule: json_print.induct)
  case (6 xs)
  from first_kind [OF 6(2,3) first_append [OF 6(2,3,6)]] obtain ys where w: "w = PList ys"
    by auto
  have "xs = ys \<and> r = s"
  proof (rule comma_sep_reads_back [of "CHR '']''" xs ys json_print])
    show "x = y \<and> p = q" if "x \<in> set xs" "y \<in> set ys" "delimited p" "delimited q"
      "json_print x @ p = json_print y @ q" for x y p q
      using 6(1) [OF that(1) _ _ that(3,4,5)] that 6(2,3) w by (simp add: list_all_iff)
    show "json_print x \<noteq> [] \<and> hd (json_print x) \<noteq> CHR '']''" if "x \<in> set xs \<union> set ys" for x
      using that 6(2,3) w closing_not_first [of x] json_print_nonempty [of x]
      by (auto simp: list_all_iff first_char_def)
  qed (use 6(6) w in auto)
  with w show ?case by simp
next
  case (8 d)
  let ?f = "\<lambda>kv. json_string (fst kv) @ CHR '':'' # json_print (snd kv)"
  from first_kind [OF 8(2,3) first_append [OF 8(2,3,6)]] obtain e where w: "w = PDict e"
    by auto
  have "d = e \<and> r = s"
  proof (rule comma_sep_reads_back [of "CHR ''}''" d e ?f])
    show "x = y \<and> p = q" if a: "x \<in> set d" "y \<in> set e" "delimited p" "delimited q"
      "?f x @ p = ?f y @ q" for x y p q
    proof -
      from a(5) have "json_string (fst x) @ (CHR '':'' # json_print (snd x) @ p) =
          json_string (fst y) @ (CHR '':'' # json_print (snd y) @ q)" by simp
      from json_string_inj [OF this]
      have "fst x = fst y" and eq: "json_print (snd x) @ p = json_print (snd y) @ q" by auto
      moreover have "snd x = snd y \<and> p = q"
        using 8(1) [OF a(1) _ _ a(3,4) eq] a(1,2) 8(2,3) w by (simp add: list_all_iff)
      ultimately show ?thesis by (simp add: prod_eq_iff)
    qed
  qed (use 8(6) w in \<open>auto simp: json_string_def\<close>)
  with w show ?case by simp
next
  case (5 t)
  from first_kind [OF 5(1,2) first_append [OF 5(1,2,5)]] obtain u where "w = PStr u"
    by auto
  moreover from this 5(5) have "t = u \<and> r = s" by (intro json_string_inj) simp
  ultimately show ?case by simp
next
  case (7 xs)
  then show ?case by simp
qed (rule word_reads_back; simp)+

lemma canonical_json_inj:
  assumes "json_ok a" and "json_ok b" and "canonical_json a = canonical_json b"
  shows "jnorm a = jnorm b"
  using json_print_reads_back [of "jnorm a" "jnorm b" "[]" "[]"] assms
  by (simp add: jwf_jnorm canonical_json_def delimited_def)

text \<open>Equal normal forms of dictionaries answer every lookup alike.\<close>

lemma map_of_sort_key:
  "distinct (map fst d) \<Longrightarrow> map_of (sort_key fst d) = map_of (d :: (string \<times> 'a) list)"
  by (subst map_of_inject_set) (auto simp: distinct_map)

lemma jnorm_dict_lookup:
  assumes "jnorm (PDict d) = jnorm (PDict e)" and "distinct (map fst d)" and "distinct (map fst e)"
  shows "map_option jnorm (map_of d k) = map_option jnorm (map_of e k)"
proof -
  have lk: "map_of (map (\<lambda>kv. (fst kv, jnorm (snd kv))) c) k = map_option jnorm (map_of c k)"
    for c :: pydict by (induction c) auto
  have sk: "map_of (sort_key fst (map (\<lambda>kv. (fst kv, jnorm (snd kv))) c)) =
      map_of (map (\<lambda>kv. (fst kv, jnorm (snd kv))) c)" if "distinct (map fst c)" for c :: pydict
    by (rule map_of_sort_key) (use that in \<open>simp add: comp_def\<close>)
  from assms(1) have "sort_key fst (map (\<lambda>kv. (fst kv, jnorm (snd kv))) d) =
      sort_key fst (map (\<lambda>kv. (fst kv, jnorm (snd kv))) e)" by simp
  then have "map_of (map (\<lambda>kv. (fst kv, jnorm (snd kv))) d) k =
      map_of (map (\<lambda>kv. (fst kv, jnorm (snd kv))) e) k"
    using sk [OF assms(2)] sk [OF assms(3)] by simp
  then show ?thesis by (simp only: lk)
qed

end
