(* ===== verification/Url.thy ===== *)
theory Url
  imports Prelude
begin

text \<open>
  The part of \<open>urllib.parse.urlparse\<close> that \<open>src/security.py\<close>, \<open>src/policy.py\<close> and
  \<open>src/execution_layer.py\<close> use: scheme, user information, host name and port of a URL,
  following \<open>urlsplit\<close> and the properties \<open>username\<close>, \<open>password\<close>, \<open>hostname\<close> and
  \<open>port\<close> of its result. \<open>None\<close> of \<open>urlparse\<close> is the \<open>ValueError\<close> it raises.
\<close>

subsection \<open>Partitioning\<close>

text \<open>\<open>s.partition(c)\<close>: text before, whether the separator occurs, text after.\<close>

definition partition_at :: "char \<Rightarrow> string \<Rightarrow> string \<times> bool \<times> string" where
  "partition_at c s = (takeWhile (\<lambda>x. x \<noteq> c) s, c \<in> set s, tl (dropWhile (\<lambda>x. x \<noteq> c) s))"

text \<open>\<open>s.rpartition(c)\<close>: without the separator, everything is the last part.\<close>

definition rpartition_at :: "char \<Rightarrow> string \<Rightarrow> string \<times> bool \<times> string" where
  "rpartition_at c s =
     (if c \<in> set s
      then (rev (tl (dropWhile (\<lambda>x. x \<noteq> c) (rev s))), True, rev (takeWhile (\<lambda>x. x \<noteq> c) (rev s)))
      else ([], False, s))"

lemma partition_at_join:
  "partition_at c s = (a, b, r) \<Longrightarrow> c \<notin> set a \<and> (if b then s = a @ c # r else s = a \<and> r = [])"
proof -
  assume p: "partition_at c s = (a, b, r)"
  have na: "c \<notin> set a" using p by (auto simp: partition_at_def dest: set_takeWhileD)
  show ?thesis
  proof (cases "c \<in> set s")
    case True
    then have "dropWhile (\<lambda>x. x \<noteq> c) s \<noteq> []" by (auto simp: dropWhile_eq_Nil_conv)
    moreover from this have "hd (dropWhile (\<lambda>x. x \<noteq> c) s) = c"
      using hd_dropWhile [of "\<lambda>x. x \<noteq> c" s] by simp
    ultimately have "dropWhile (\<lambda>x. x \<noteq> c) s = c # tl (dropWhile (\<lambda>x. x \<noteq> c) s)"
      by (metis list.collapse)
    then have "s = takeWhile (\<lambda>x. x \<noteq> c) s @ c # tl (dropWhile (\<lambda>x. x \<noteq> c) s)"
      by (metis takeWhile_dropWhile_id)
    with p na True show ?thesis by (auto simp: partition_at_def)
  next
    case False
    then have "takeWhile (\<lambda>x. x \<noteq> c) s = s" "dropWhile (\<lambda>x. x \<noteq> c) s = []"
      by (auto simp: takeWhile_eq_all_conv dropWhile_eq_Nil_conv)
    with p na False show ?thesis by (auto simp: partition_at_def)
  qed
qed

subsection \<open>Splitting a URL\<close>

record url =
  u_scheme :: string
  u_netloc :: string

definition is_alpha :: "char \<Rightarrow> bool" where
  "is_alpha c = (let n = char_code c in (65 \<le> n \<and> n \<le> 90) \<or> (97 \<le> n \<and> n \<le> 122))"

definition is_digit :: "char \<Rightarrow> bool" where
  "is_digit c = (48 \<le> char_code c \<and> char_code c \<le> 57)"

definition scheme_char :: "char \<Rightarrow> bool" where
  "scheme_char c = (is_alpha c \<or> is_digit c \<or> c \<in> {CHR ''+'', CHR ''-'', CHR ''.''})"

text \<open>Leading control characters and spaces go, tabs and line breaks go everywhere.\<close>

definition clean_url :: "string \<Rightarrow> string" where
  "clean_url s = filter (\<lambda>c. char_code c \<notin> {9, 10, 13}) (dropWhile (\<lambda>c. char_code c \<le> 32) s)"

definition urlparse :: "string \<Rightarrow> url option" where
  "urlparse s0 =
     (let s = clean_url s0;
          (pre, colon, post) = partition_at (CHR '':'') s;
          has_scheme = (colon \<and> pre \<noteq> [] \<and> is_alpha (hd pre) \<and> list_all scheme_char pre);
          scheme = (if has_scheme then py_lower pre else []);
          rest = (if has_scheme then post else s);
          netloc = (if py_startswith rest ''//''
                    then takeWhile (\<lambda>c. c \<notin> {CHR ''/'', CHR ''?'', CHR ''#''}) (drop 2 rest)
                    else [])
      in if (CHR ''['' \<in> set netloc) \<noteq> (CHR '']'' \<in> set netloc) then None
         else Some \<lparr>u_scheme = scheme, u_netloc = netloc\<rparr>)"

definition url_userinfo :: "url \<Rightarrow> string option \<times> string option" where
  "url_userinfo u =
     (case rpartition_at (CHR ''@'') (u_netloc u) of
        (userinfo, have_info, _) \<Rightarrow>
          if have_info
          then (case partition_at (CHR '':'') userinfo of
                  (name, have_password, pw) \<Rightarrow> (Some name, if have_password then Some pw else None))
          else (None, None))"

definition url_hostinfo :: "url \<Rightarrow> string \<times> string option" where
  "url_hostinfo u =
     (let hostinfo = snd (snd (rpartition_at (CHR ''@'') (u_netloc u)));
          (_, have_open_br, bracketed) = partition_at (CHR ''['') hostinfo;
          (host, port) =
            (if have_open_br
             then (let (h, _, p) = partition_at (CHR '']'') bracketed
                   in (h, snd (snd (partition_at (CHR '':'') p))))
             else (let (h, _, p) = partition_at (CHR '':'') hostinfo in (h, p)))
      in (host, if port = [] then None else Some port))"

definition url_hostname :: "url \<Rightarrow> string option" where
  "url_hostname u =
     (let host = fst (url_hostinfo u)
      in if host = [] then None
         else let (name, percent, zone) = partition_at (CHR ''%'') host
              in Some (py_lower name @ (if percent then CHR ''%'' # zone else [])))"

datatype port_result = NoPort | Port nat | BadPort

fun digits_value :: "nat \<Rightarrow> string \<Rightarrow> nat" where
  "digits_value n [] = n"
| "digits_value n (c # cs) = digits_value (10 * n + (char_code c - 48)) cs"

definition url_port :: "url \<Rightarrow> port_result" where
  "url_port u =
     (case snd (url_hostinfo u) of
        None \<Rightarrow> NoPort
      | Some p \<Rightarrow> (if list_all is_digit p \<and> digits_value 0 p \<le> 65535
                    then Port (digits_value 0 p) else BadPort))"

text \<open>A Python string option is true when it is there and not empty.\<close>

definition opt_truthy :: "string option \<Rightarrow> bool" where
  "opt_truthy x = (case x of None \<Rightarrow> False | Some s \<Rightarrow> s \<noteq> [])"

end
