(* ===== verification/Security.thy ===== *)
theory Security
  imports Json Url
begin

text \<open>
  \<open>src/security.py\<close>: redaction, text sanitisation, secrets, URL allowlisting, the token-bucket
  rate limiter, the circuit breaker and bounded retries.
\<close>

subsection \<open>Redaction\<close>

definition redacted :: string where
  "redacted = ''***REDACTED***''"

text \<open>\<open>_SECRET_KEY_PATTERN.search\<close>, case-insensitively.\<close>

definition secret_key_words :: "string list" where
  "secret_key_words = [''apikey'', ''api-key'', ''api_key'', ''authorization'', ''token'',
                       ''secret'', ''password'', ''credential'']"

definition secret_key :: "string \<Rightarrow> bool" where
  "secret_key key = list_ex (py_contains (py_lower key)) secret_key_words"

text \<open>\<open>_SECRET_IN_TEXT_PATTERN\<close>, matched at the start of a string. No label is a prefix of
  another, white space is no separator and no secret starts with white space, so the greedy
  choices below are the only ones under which the pattern can match.\<close>

definition secret_labels :: "string list" where
  "secret_labels = [''api-key'', ''api_key'', ''apikey'', ''access_token'', ''token'',
                    ''password'', ''authorization'']"

definition secret_schemes :: "string list" where
  "secret_schemes = [''bearer'', ''basic'', ''token'']"

definition secret_char :: "char \<Rightarrow> bool" where
  "secret_char c = (\<not> is_space c \<and> c \<notin> {CHR ''&'', CHR '','', CHR 0x22, CHR 0x27})"

fun match_word :: "string list \<Rightarrow> string \<Rightarrow> (string \<times> string) option" where
  "match_word [] s = None"
| "match_word (w # ws) s =
     (if py_startswith (py_lower s) w then Some (take (length w) s, drop (length w) s)
      else match_word ws s)"

text \<open>\<open>(?:(?P<scheme>bearer|basic|token)\s+)?(?P<secret>[^\s&,"']+)\<close>: the scheme that is kept,
  and the text after the secret.\<close>

definition match_credential :: "string \<Rightarrow> (string option \<times> string) option" where
  "match_credential s =
     (let plain = (if s \<noteq> [] \<and> secret_char (hd s)
                   then Some (None, dropWhile secret_char s) else None)
      in case match_word secret_schemes s of
           None \<Rightarrow> plain
         | Some (scheme, rest) \<Rightarrow>
             (let after = dropWhile is_space rest
              in if rest \<noteq> [] \<and> is_space (hd rest) \<and> after \<noteq> [] \<and> secret_char (hd after)
                 then Some (Some scheme, dropWhile secret_char after)
                 else plain))"

definition match_secret :: "string \<Rightarrow> (string \<times> string) option" where
  "match_secret s =
     (case match_word secret_labels s of
        None \<Rightarrow> None
      | Some (label, rest) \<Rightarrow>
          (let ws1 = takeWhile is_space rest; r1 = dropWhile is_space rest
           in if r1 \<noteq> [] \<and> hd r1 \<in> {CHR ''='', CHR '':''}
              then (let ws2 = takeWhile is_space (tl r1); r2 = dropWhile is_space (tl r1)
                    in case match_credential r2 of
                         None \<Rightarrow> None
                       | Some (scheme, rest') \<Rightarrow>
                           Some (label @ ws1 @ [hd r1] @ ws2 @
                                 (case scheme of None \<Rightarrow> [] | Some t \<Rightarrow> t @ '' '') @ redacted,
                                 rest'))
              else None))"

lemma match_word_length: "match_word ws s = Some (a, r) \<Longrightarrow> length r \<le> length s"
  by (induction ws) (auto split: if_splits)

lemma length_dropWhile2: "length (dropWhile P (dropWhile Q s)) \<le> length s"
  using length_dropWhile_le [of P "dropWhile Q s"] length_dropWhile_le [of Q s] by linarith

lemma match_credential_length: "match_credential s = Some (a, r) \<Longrightarrow> length r \<le> length s"
proof (cases "match_word secret_schemes s")
  case None
  moreover assume "match_credential s = Some (a, r)"
  ultimately show ?thesis
    by (auto simp: match_credential_def length_dropWhile_le split: if_splits)
next
  case (Some q)
  moreover obtain w b where "q = (w, b)" by fastforce
  ultimately have m: "match_word secret_schemes s = Some (w, b)" by simp
  have "length (dropWhile secret_char (dropWhile is_space b)) \<le> length s"
    using match_word_length [OF m] length_dropWhile2 [of secret_char is_space b] by linarith
  moreover assume "match_credential s = Some (a, r)"
  ultimately show ?thesis
    by (auto simp: match_credential_def Let_def m length_dropWhile_le split: if_splits)
qed

lemma match_secret_length: "match_secret s = Some (a, r) \<Longrightarrow> length r < length s"
proof -
  assume m: "match_secret s = Some (a, r)"
  then obtain label rest r1 where l: "match_word secret_labels s = Some (label, rest)"
    and r1: "r1 = dropWhile is_space rest" "r1 \<noteq> []"
    and c: "\<exists>q. match_credential (dropWhile is_space (tl r1)) = Some (q, r)"
    by (auto simp: match_secret_def Let_def split: option.splits if_splits)
  from c have "length r \<le> length (tl r1)"
    using match_credential_length length_dropWhile_le order.trans by metis
  also have "\<dots> < length r1" using r1(2) by simp
  also have "\<dots> \<le> length rest" using r1(1) by (simp add: length_dropWhile_le)
  also have "\<dots> \<le> length s" using match_word_length [OF l] .
  finally show ?thesis .
qed

text \<open>\<open>_SECRET_IN_TEXT_PATTERN.sub(_redact_secret_match, value)\<close>.\<close>

function redact_text :: "string \<Rightarrow> string" where
  "redact_text s =
     (case match_secret s of
        Some (out, rest) \<Rightarrow> out @ redact_text rest
      | None \<Rightarrow> (case s of [] \<Rightarrow> [] | c # cs \<Rightarrow> c # redact_text cs))"
  by pat_completeness auto
termination
  by (relation "measure length") (auto dest: match_secret_length)

declare redact_text.simps [simp del]

fun redact :: "pyval \<Rightarrow> pyval" where
  "redact (PDict d) =
     PDict (map (\<lambda>kv. (fst kv, if secret_key (fst kv) then PStr redacted else redact (snd kv))) d)"
| "redact (PList xs) = PList (map redact xs)"
| "redact (PTuple xs) = PTuple (map redact xs)"
| "redact (PStr s) = PStr (redact_text s)"
| "redact v = v"

text \<open>Every entry under a secret-looking key, at any depth, is the mask.\<close>

fun masked :: "pyval \<Rightarrow> bool" where
  "masked (PDict d) =
     list_all (\<lambda>kv. if secret_key (fst kv) then snd kv = PStr redacted else masked (snd kv)) d"
| "masked (PList xs) = list_all masked xs"
| "masked (PTuple xs) = list_all masked xs"
| "masked v = True"

text \<open>The shape of a value: what is left when scalars under keys and in lists are forgotten.\<close>

fun paths :: "pyval \<Rightarrow> string list list" where
  "paths (PDict d) = concat (map (\<lambda>kv. if secret_key (fst kv) then [[fst kv]]
       else map ((#) (fst kv)) (paths (snd kv))) d)"
| "paths (PList xs) = concat (map paths xs)"
| "paths (PTuple xs) = concat (map paths xs)"
| "paths v = [[]]"

text \<open>Redaction masks every secret-looking key at every depth and loses nothing else of the
  structure: in \<open>redact v\<close> each value under a key that matches the secret pattern is the mask,
  and the key paths of the value are those of \<open>v\<close>.\<close>

theorem redact_masks_all_secret_keys:
  "masked (redact v) \<and> paths (redact v) = paths v"
proof (induction v rule: redact.induct)
  case (1 d)
  then show ?case
    by (auto simp: list_all_iff comp_def intro!: arg_cong [where f = concat])
next
  case (2 xs)
  then show ?case
    by (auto simp: list_all_iff comp_def intro!: arg_cong [where f = concat])
next
  case (3 xs)
  then show ?case
    by (auto simp: list_all_iff comp_def intro!: arg_cong [where f = concat])
qed auto

subsection \<open>Text sanitisation\<close>

text \<open>Python text is a sequence of code points; the patterns of \<open>sanitize_text\<close> reach beyond the
  8-bit range, so the function is defined on code points and restricted to \<open>string\<close>
  afterwards.\<close>

definition control_point :: "nat \<Rightarrow> bool" where
  "control_point n = (n < 32 \<or> n = 127)"

definition invisible_point :: "nat \<Rightarrow> bool" where
  "invisible_point n = (n = 0xAD \<or> (0x200B \<le> n \<and> n \<le> 0x200F) \<or> (0x202A \<le> n \<and> n \<le> 0x202E)
     \<or> (0x2060 \<le> n \<and> n \<le> 0x2064) \<or> (0x2066 \<le> n \<and> n \<le> 0x2069) \<or> n = 0xFEFF)"

text \<open>What \<open>str.strip()\<close> strips.\<close>

definition space_point :: "nat \<Rightarrow> bool" where
  "space_point n = ((9 \<le> n \<and> n \<le> 13) \<or> (28 \<le> n \<and> n \<le> 32) \<or> n = 0x85 \<or> n = 0xA0 \<or> n = 0x1680
     \<or> (0x2000 \<le> n \<and> n \<le> 0x200A) \<or> n = 0x2028 \<or> n = 0x2029 \<or> n = 0x202F \<or> n = 0x205F
     \<or> n = 0x3000)"

fun collapse_spaces :: "nat list \<Rightarrow> nat list" where
  "collapse_spaces (a # b # xs) =
     (if a = 32 \<and> b = 32 then collapse_spaces (b # xs) else a # collapse_spaces (b # xs))"
| "collapse_spaces xs = xs"

definition sanitize_points :: "nat list \<Rightarrow> int \<Rightarrow> nat list" where
  "sanitize_points text max_length =
     (let cleaned = map (\<lambda>n. if control_point n then 32 else n) text;
          cleaned = filter (\<lambda>n. \<not> invisible_point n) cleaned;
          cleaned = collapse_spaces cleaned
      in take (nat (max 0 max_length)) (strip_by space_point cleaned))"

definition sanitize_text :: "string \<Rightarrow> int \<Rightarrow> string" where
  "sanitize_text text max_length = map char_of (sanitize_points (map of_char text) max_length)"

lemma set_collapse_spaces: "set (collapse_spaces xs) \<subseteq> set xs"
  by (induction xs rule: collapse_spaces.induct) auto

lemma collapse_spaces_hd: "xs \<noteq> [] \<Longrightarrow> collapse_spaces xs \<noteq> [] \<and> hd (collapse_spaces xs) = hd xs"
  by (induction xs rule: collapse_spaces.induct) auto

definition single_spaced :: "nat list \<Rightarrow> bool" where
  "single_spaced xs = successively (\<lambda>a b. \<not> (a = 32 \<and> b = 32)) xs"

lemma single_spaced_collapse: "single_spaced (collapse_spaces xs)"
proof (induction xs rule: collapse_spaces.induct)
  case (1 a b xs)
  have "hd (collapse_spaces (b # xs)) = b" "collapse_spaces (b # xs) \<noteq> []"
    using collapse_spaces_hd [of "b # xs"] by auto
  with 1 show ?case
    by (cases "a = 32 \<and> b = 32") (auto simp: single_spaced_def successively_Cons)
qed (auto simp: single_spaced_def)

lemma single_spaced_sublist: "sublist xs ys \<Longrightarrow> single_spaced ys \<Longrightarrow> single_spaced xs"
  by (auto simp: sublist_def single_spaced_def successively_append_iff)

lemma sanitize_points_sublist:
  "sublist (sanitize_points text k)
     (collapse_spaces (filter (\<lambda>n. \<not> invisible_point n)
        (map (\<lambda>n. if control_point n then 32 else n) text)))"
proof -
  let ?c = "collapse_spaces (filter (\<lambda>n. \<not> invisible_point n)
     (map (\<lambda>n. if control_point n then 32 else n) text))"
  have "sublist (take (nat (max 0 k)) (strip_by space_point ?c)) (strip_by space_point ?c)"
    by (rule sublist_take)
  from sublist_order.order_trans [OF this strip_by_sublist] show ?thesis
    by (simp add: sanitize_points_def Let_def)
qed

text \<open>Sanitised text cannot inject or spoof. Whatever the input, the result of
  \<open>sanitize_text\<close> contains no control character and no invisible or bidirectional format
  character, never two spaces in a row, and is no longer than the cap.\<close>

theorem sanitize_text_safe:
  "(\<forall>n\<in>set (sanitize_points text k). \<not> control_point n \<and> \<not> invisible_point n) \<and>
   single_spaced (sanitize_points text k) \<and>
   int (length (sanitize_points text k)) \<le> max 0 k"
proof -
  let ?c = "collapse_spaces (filter (\<lambda>n. \<not> invisible_point n)
     (map (\<lambda>n. if control_point n then 32 else n) text))"
  have sub: "sublist (sanitize_points text k) ?c" by (rule sanitize_points_sublist)
  have "set (sanitize_points text k) \<subseteq> set ?c"
    by (rule set_mono_sublist [OF sub])
  also have "\<dots> \<subseteq> {n. \<not> control_point n \<and> \<not> invisible_point n}"
    using set_collapse_spaces
    by (fastforce simp: control_point_def invisible_point_def split: if_splits)
  finally have 1: "\<forall>n\<in>set (sanitize_points text k). \<not> control_point n \<and> \<not> invisible_point n"
    by blast
  moreover have "single_spaced (sanitize_points text k)"
    using single_spaced_sublist [OF sub single_spaced_collapse] .
  moreover have "int (length (sanitize_points text k)) \<le> max 0 k"
    by (simp add: sanitize_points_def Let_def)
  ultimately show ?thesis by blast
qed

text \<open>A bounded quantifier reads as a hypothesis: a text that sanitisation leaves non-empty.\<close>

theorem sanitize_text_safe_witness:
  "sanitize_points [65, 10, 0x202E, 32, 66] 10 = [65, 32, 66] \<and>
   list_all (\<lambda>n. \<not> control_point n \<and> \<not> invisible_point n) [65, 32, 66::nat]"
proof -
  have "sanitize_points [65, 10, 0x202E, 32, 66] 10 = [65, 32, 66]"
    by (simp add: sanitize_points_def control_point_def invisible_point_def strip_by_def
        space_point_def)
  with sanitize_text_safe [of "[65, 10, 0x202E, 32, 66]" 10] show ?thesis by simp
qed

lemma sanitize_text_length: "int (length (sanitize_text s k)) \<le> max 0 k"
  by (simp add: sanitize_text_def sanitize_points_def Let_def)

text \<open>Printable text without spaces, within the cap, is left alone.\<close>

definition plain_char :: "char \<Rightarrow> bool" where
  "plain_char c = (33 \<le> char_code c \<and> char_code c \<le> 126)"

lemma collapse_spaces_id: "32 \<notin> set xs \<Longrightarrow> collapse_spaces xs = xs"
  by (induction xs rule: collapse_spaces.induct) auto

lemma strip_by_id: "\<forall>x\<in>set xs. \<not> P x \<Longrightarrow> strip_by P xs = xs"
proof -
  assume a: "\<forall>x\<in>set xs. \<not> P x"
  have "dropWhile P ys = ys" if "\<forall>x\<in>set ys. \<not> P x" for ys using that by (cases ys) auto
  from this [of xs] this [of "rev xs"] a show ?thesis by (simp add: strip_by_def)
qed

lemma sanitize_text_plain:
  assumes "list_all plain_char s" and "int (length s) \<le> k"
  shows "sanitize_text s k = s"
proof -
  let ?ns = "map of_char s :: nat list"
  have p: "33 \<le> n \<and> n \<le> 126" if "n \<in> set ?ns" for n
    using that assms(1) by (auto simp: list_all_iff plain_char_def char_code_def)
  have "map (\<lambda>n. if control_point n then 32 else n) ?ns = ?ns"
    by (rule map_idI) (use p in \<open>fastforce simp: control_point_def\<close>)
  moreover have "filter (\<lambda>n. \<not> invisible_point n) ?ns = ?ns"
    by (rule filter_True) (use p in \<open>fastforce simp: invisible_point_def\<close>)
  moreover have "collapse_spaces ?ns = ?ns"
    by (rule collapse_spaces_id) (use p in fastforce)
  moreover have "strip_by space_point ?ns = ?ns"
    by (rule strip_by_id) (use p in \<open>fastforce simp: space_point_def\<close>)
  ultimately have "sanitize_points ?ns k = ?ns"
    using assms(2) by (simp only: sanitize_points_def Let_def) simp
  then show ?thesis by (simp add: sanitize_text_def comp_def)
qed

subsection \<open>Secrets\<close>

record secret_resolver =
  sr_overrides :: "(string \<times> string) list"
  sr_env_prefix :: string

definition sr_set :: "string \<Rightarrow> string \<Rightarrow> secret_resolver \<Rightarrow> secret_resolver" where
  "sr_set name value r = r\<lparr>sr_overrides := AList.update name value (sr_overrides r)\<rparr>"

text \<open>\<open>_ENV_NAME_PATTERN\<close>: a letter or underscore, then at most 63 word characters. Python's
  \<open>$\<close> also matches before a final line break.\<close>

definition env_word_char :: "char \<Rightarrow> bool" where
  "env_word_char c = (is_alpha c \<or> is_digit c \<or> c = CHR ''_'')"

definition env_name :: "string \<Rightarrow> bool" where
  "env_name s =
     (let body = (if s \<noteq> [] \<and> last s = CHR 0x0A then butlast s else s)
      in body \<noteq> [] \<and> (is_alpha (hd body) \<or> hd body = CHR ''_'') \<and> list_all env_word_char body
         \<and> length body \<le> 64)"

text \<open>\<open>env\<close> is \<open>os.environ\<close>.\<close>

definition sr_get :: "(string \<rightharpoonup> string) \<Rightarrow> secret_resolver \<Rightarrow> string \<Rightarrow> string option \<Rightarrow> string option"
where
  "sr_get env r name dflt =
     (let override = map_of (sr_overrides r) name;
          env_value = env (sr_env_prefix r @ py_upper name);
          bare = env (py_upper name)
      in if opt_truthy override then override
         else if opt_truthy env_value then env_value
         else if env_name name then (if opt_truthy bare then bare else dflt)
         else dflt)"

datatype key_error = KeyError string

definition sr_require :: "(string \<rightharpoonup> string) \<Rightarrow> secret_resolver \<Rightarrow> string \<Rightarrow> key_error + string" where
  "sr_require env r name =
     (case sr_get env r name None of
        Some v \<Rightarrow> (if v = [] then Inl (KeyError name) else Inr v)
      | None \<Rightarrow> Inl (KeyError name))"

text \<open>A caller-chosen name cannot probe the environment. If the name is not shaped like an
  environment variable, the answer of \<open>get\<close> depends on no environment variable but the prefixed
  one.\<close>

theorem sr_get_no_probing:
  assumes "\<not> env_name name"
    and "env1 (sr_env_prefix r @ py_upper name) = env2 (sr_env_prefix r @ py_upper name)"
  shows "sr_get env1 r name d = sr_get env2 r name d"
  using assms by (simp add: sr_get_def Let_def)

theorem sr_get_no_probing_witness:
  "sr_get [''PATH'' \<mapsto> ''/bin''] \<lparr>sr_overrides = [], sr_env_prefix = ''SHUGOCORE_''\<rparr> ''../PATH'' None =
   sr_get Map.empty \<lparr>sr_overrides = [], sr_env_prefix = ''SHUGOCORE_''\<rparr> ''../PATH'' None"
  by (rule sr_get_no_probing)
     (simp_all add: env_name_def is_alpha_def char_code_def)

subsection \<open>URL allowlisting\<close>

definition url_verdict_ok :: "bool \<times> string" where
  "url_verdict_ok = (True, [])"

fun host_allowed :: "string \<Rightarrow> string list \<Rightarrow> bool" where
  "host_allowed host [] = False"
| "host_allowed host (e # es) =
     (let entry = py_lower e in
      if py_startswith entry ''*.''
      then (if host = drop 2 entry \<or> py_endswith host (''.'' @ drop 2 entry) then True
            else host_allowed host es)
      else (if host = entry then True else host_allowed host es))"

definition validate_url :: "string \<Rightarrow> string list \<Rightarrow> string list \<Rightarrow> bool \<times> string" where
  "validate_url url allowed_hosts allowed_schemes =
     (case urlparse url of
        None \<Rightarrow> (False, ''unparseable URL'')
      | Some parsed \<Rightarrow>
          if u_scheme parsed \<notin> set allowed_schemes
          then (False, ''URL scheme '' @ [CHR 0x27] @
                  (if u_scheme parsed = [] then ''none'' else u_scheme parsed) @ [CHR 0x27] @
                  '' is not allowed'')
          else case url_hostname parsed of
                 None \<Rightarrow> (False, ''URL has no host'')
               | Some host \<Rightarrow>
                   (if opt_truthy (fst (url_userinfo parsed)) \<or> opt_truthy (snd (url_userinfo parsed))
                    then (False, ''credentials embedded in URL are not allowed'')
                    else if host_allowed (py_lower host) allowed_hosts then (True, [])
                    else (False, ''host '' @ [CHR 0x27] @ py_lower host @ [CHR 0x27] @
                            '' is not in the allowlist'')))"

text \<open>What an allowlist entry means: an exact host, or a domain and everything below it.\<close>

definition covers :: "string \<Rightarrow> string \<Rightarrow> bool" where
  "covers entry host \<longleftrightarrow>
     (if prefix ''*.'' (py_lower entry)
      then host = drop 2 (py_lower entry) \<or> suffix (CHR ''.'' # drop 2 (py_lower entry)) host
      else host = py_lower entry)"

lemma host_allowed_iff: "host_allowed host es \<longleftrightarrow> (\<exists>e\<in>set es. covers e host)"
proof (induction es)
  case (Cons e es)
  have "host_allowed host (e # es) \<longleftrightarrow> covers e host \<or> host_allowed host es"
    by (simp add: Let_def covers_def py_startswith_iff py_endswith_iff)
  with Cons show ?case by simp
qed simp

text \<open>The URL gate is exact. A URL passes if and only if it parses, its scheme is one of the
  allowed ones, it names a host, it carries no credentials, and an allowlist entry covers the
  host: the host itself, or a domain \<open>*.d\<close> with the host being \<open>d\<close> or ending in \<open>.d\<close>.\<close>

theorem validate_url_exact:
  "fst (validate_url url hosts schemes) \<longleftrightarrow>
     (\<exists>parsed host. urlparse url = Some parsed \<and> u_scheme parsed \<in> set schemes \<and>
        url_hostname parsed = Some host \<and>
        \<not> opt_truthy (fst (url_userinfo parsed)) \<and> \<not> opt_truthy (snd (url_userinfo parsed)) \<and>
        (\<exists>e\<in>set hosts. covers e (py_lower host)))"
  by (auto simp: validate_url_def host_allowed_iff split: option.splits)

text \<open>The classic bypasses, evaluated.\<close>

lemma validate_url_examples:
  "fst (validate_url ''https://api.duckduckgo.com/?q=x'' [''api.duckduckgo.com''] [''https''])"
  "\<not> fst (validate_url ''https://api.duckduckgo.com@evil.org/'' [''api.duckduckgo.com''] [''https''])"
  "\<not> fst (validate_url ''https://evilexample.com/'' [''*.example.com''] [''https''])"
  "fst (validate_url ''https://a.example.com:443/'' [''*.example.com''] [''https''])"
  by code_simp+

end
