(* ===== verification/Policy.thy ===== *)
theory Policy
  imports Security
begin

text \<open>
  \<open>src/policy.py\<close>: the action classes, the postures for models and the microphone, the
  capability registry, the approval broker and the consent registry.
\<close>

subsection \<open>Action classes\<close>

definition SIDE_EFFECTING_ACTION_TYPES :: "string list" where
  "SIDE_EFFECTING_ACTION_TYPES = [''api_call'', ''database_update'', ''hardware_interaction'']"

definition EXTERNAL_READ_ACTION_TYPES :: "string list" where
  "EXTERNAL_READ_ACTION_TYPES = [''news_api'', ''search_api'']"

definition OBSERVATION_ACTION_TYPES :: "string list" where
  "OBSERVATION_ACTION_TYPES = [''record_observation'']"

definition SPEECH_OUTPUT_ACTION_TYPES :: "string list" where
  "SPEECH_OUTPUT_ACTION_TYPES = [''speak'']"

definition ASK_USER_ACTION_TYPES :: "string list" where
  "ASK_USER_ACTION_TYPES = [''ask_user'']"

definition ROBOTICS_ACTION_TYPES :: "string list" where
  "ROBOTICS_ACTION_TYPES = [''robot_navigate'', ''robot_manipulate'', ''robot_gripper'', ''robot_look'']"

definition ROBOTICS_SAFETY_ACTION_TYPES :: "string list" where
  "ROBOTICS_SAFETY_ACTION_TYPES = [''robot_stop'']"

definition ROBOTICS_READ_ACTION_TYPES :: "string list" where
  "ROBOTICS_READ_ACTION_TYPES = [''robot_query_state'', ''robot_scan'']"

definition MOBILE_ACTION_TYPES :: "string list" where
  "MOBILE_ACTION_TYPES = [''mobile_request_compute'']"

definition MOBILE_READ_ACTION_TYPES :: "string list" where
  "MOBILE_READ_ACTION_TYPES = [''mobile_list_nodes'', ''mobile_node_status'']"

definition NETWORK_ACTION_TYPES :: "string list" where
  "NETWORK_ACTION_TYPES = [''network_send'', ''network_query'', ''network_sync'']"

definition NETWORK_READ_ACTION_TYPES :: "string list" where
  "NETWORK_READ_ACTION_TYPES = [''network_list_agents'', ''network_status'']"

definition FLEET_ACTION_TYPES :: "string list" where
  "FLEET_ACTION_TYPES = [''fleet_deploy'', ''fleet_dev_task'']"

definition FLEET_READ_ACTION_TYPES :: "string list" where
  "FLEET_READ_ACTION_TYPES = [''fleet_status'']"

definition KNOWN_ACTION_TYPES :: "string list" where
  "KNOWN_ACTION_TYPES =
     SIDE_EFFECTING_ACTION_TYPES @ EXTERNAL_READ_ACTION_TYPES @ ROBOTICS_ACTION_TYPES @
     ROBOTICS_SAFETY_ACTION_TYPES @ ROBOTICS_READ_ACTION_TYPES @ MOBILE_ACTION_TYPES @
     MOBILE_READ_ACTION_TYPES @ NETWORK_ACTION_TYPES @ NETWORK_READ_ACTION_TYPES @
     OBSERVATION_ACTION_TYPES @ SPEECH_OUTPUT_ACTION_TYPES @ ASK_USER_ACTION_TYPES @
     FLEET_ACTION_TYPES @ FLEET_READ_ACTION_TYPES @ [''multi_step_process'']"

lemmas action_class_defs =
  SIDE_EFFECTING_ACTION_TYPES_def EXTERNAL_READ_ACTION_TYPES_def OBSERVATION_ACTION_TYPES_def
  SPEECH_OUTPUT_ACTION_TYPES_def ASK_USER_ACTION_TYPES_def ROBOTICS_ACTION_TYPES_def
  ROBOTICS_SAFETY_ACTION_TYPES_def ROBOTICS_READ_ACTION_TYPES_def MOBILE_ACTION_TYPES_def
  MOBILE_READ_ACTION_TYPES_def NETWORK_ACTION_TYPES_def NETWORK_READ_ACTION_TYPES_def
  FLEET_ACTION_TYPES_def FLEET_READ_ACTION_TYPES_def KNOWN_ACTION_TYPES_def

definition MIC_CONSENT_ACTION :: string where
  "MIC_CONSENT_ACTION = ''listen_microphone''"

definition SOUND_MODES :: "string list" where
  "SOUND_MODES = [''sound'', ''speech'', ''off'']"

subsection \<open>Consent registry\<close>

record consent_entry =
  ce_action_type :: string
  ce_granted_by :: string
  ce_scope :: string
  ce_note :: string
  ce_granted_at :: real
  ce_expires_at :: "real option"

type_synonym consents = "(string \<times> consent_entry list) list"

text \<open>\<open>if ttl_seconds\<close>: both \<open>None\<close> and 0 mean "no expiry".\<close>

definition consent_entry_of ::
  "real \<Rightarrow> string \<Rightarrow> string \<Rightarrow> string \<Rightarrow> string \<Rightarrow> real option \<Rightarrow> consent_entry" where
  "consent_entry_of now action_type granted_by scope note ttl_seconds =
     \<lparr>ce_action_type = sanitize_text action_type 64, ce_granted_by = sanitize_text granted_by 120,
      ce_scope = sanitize_text scope 120, ce_note = sanitize_text note 300, ce_granted_at = now,
      ce_expires_at = (case ttl_seconds of None \<Rightarrow> None
                       | Some ttl \<Rightarrow> (if ttl = 0 then None else Some (now + ttl)))\<rparr>"

definition consent_entries :: "consents \<Rightarrow> string \<Rightarrow> consent_entry list" where
  "consent_entries c action_type =
     (case map_of c action_type of None \<Rightarrow> [] | Some es \<Rightarrow> es)"

definition consent_grant ::
  "real \<Rightarrow> string \<Rightarrow> string \<Rightarrow> string \<Rightarrow> string \<Rightarrow> real option \<Rightarrow> consents \<Rightarrow> consents \<times> consent_entry"
where
  "consent_grant now action_type granted_by scope note ttl_seconds c =
     (let entry = consent_entry_of now action_type granted_by scope note ttl_seconds;
          key = ce_action_type entry
      in (AList.update key (consent_entries c key @ [entry]) c, entry))"

definition consent_revoke :: "string \<Rightarrow> consents \<Rightarrow> consents \<times> int" where
  "consent_revoke action_type c =
     (AList.delete action_type c, int (length (consent_entries c action_type)))"

definition entry_live :: "real \<Rightarrow> consent_entry \<Rightarrow> bool" where
  "entry_live now e = (case ce_expires_at e of None \<Rightarrow> True | Some t \<Rightarrow> t > now)"

definition has_grant :: "real \<Rightarrow> string \<Rightarrow> consents \<Rightarrow> bool" where
  "has_grant now action_type c = list_ex (entry_live now) (consent_entries c action_type)"

definition has_grant_for_attended_action ::
  "real \<Rightarrow> string \<Rightarrow> string option \<Rightarrow> consents \<Rightarrow> bool \<times> string option" where
  "has_grant_for_attended_action now action_type attention_state c =
     (case attention_state of
        None \<Rightarrow> (has_grant now action_type c, None)
      | Some a \<Rightarrow>
          if a \<notin> {''attending'', ''unknown''}
          then (False, Some (''human attention is '' @ [CHR 0x27] @ a @ [CHR 0x27] @ '' (need '' @
                  [CHR 0x27] @ ''attending'' @ [CHR 0x27] @ '' or '' @
                  [CHR 0x27] @ ''unknown'' @ [CHR 0x27] @ '')''))
          else if \<not> has_grant now action_type c
          then (False, Some (''no external consent grant for '' @ [CHR 0x27] @ action_type @ [CHR 0x27]))
          else (True, None))"

definition grants_snapshot :: "consents \<Rightarrow> (string \<times> consent_entry list) list" where
  "grants_snapshot c = c"

lemma consent_entries_grant:
  "consent_entries (fst (consent_grant now a by sc note ttl c)) k =
     consent_entries c k @ (if k = sanitize_text a 64
       then [consent_entry_of now a by sc note ttl] else [])"
  by (auto simp: consent_grant_def consent_entries_def Let_def update_conv' consent_entry_of_def)

lemma consent_entries_revoke:
  "consent_entries (fst (consent_revoke a c)) k = (if k = a then [] else consent_entries c k)"
  by (auto simp: consent_revoke_def consent_entries_def delete_conv')

text \<open>What the gates of the engine rely on: a source of consent that can be granted, revoked and
  asked, in which one action's consent never leaks into another's.\<close>

locale consent_source =
  fixes granted :: "real \<Rightarrow> string \<Rightarrow> 'c \<Rightarrow> bool"
    and grant_forever :: "string \<Rightarrow> 'c \<Rightarrow> 'c"
    and revoke :: "string \<Rightarrow> 'c \<Rightarrow> 'c"
    and key_of :: "string \<Rightarrow> string"
  assumes granted_grant:
      "granted now a (grant_forever b c) \<longleftrightarrow> a = key_of b \<or> granted now a c"
    and granted_revoke: "granted now a (revoke b c) \<longleftrightarrow> a \<noteq> b \<and> granted now a c"
begin

lemma revoke_after_grants:
  "\<not> granted now a (revoke a (fold grant_forever bs c))"
  by (simp add: granted_revoke)

lemma fold_grant:
  "granted now a (fold grant_forever bs c) \<longleftrightarrow> a \<in> key_of ` set bs \<or> granted now a c"
  by (induction bs arbitrary: c) (auto simp: granted_grant)

lemma revoke_frame:
  "a \<noteq> b \<Longrightarrow> granted now a (revoke b c) = granted now a c"
  by (simp add: granted_revoke)

end

interpretation consent: consent_source has_grant
  "\<lambda>a c. fst (consent_grant 0 a ''operator'' ''*'' [] None c)"
  "\<lambda>a c. fst (consent_revoke a c)" "\<lambda>a. sanitize_text a 64"
  by unfold_locales
     (auto simp: has_grant_def consent_entries_grant consent_entries_revoke entry_live_def
       consent_entry_of_def)

text \<open>A consent grant with a time to live counts for its own action type until it expires and
  not a moment longer, and for no other type; every other answer of the registry is unchanged.\<close>

theorem consent_ttl_exact:
  assumes "ttl \<noteq> 0"
  shows "has_grant now k (fst (consent_grant t a who sc note (Some ttl) c)) \<longleftrightarrow>
           has_grant now k c \<or> (k = sanitize_text a 64 \<and> now < t + ttl)"
  using assms
  by (auto simp: has_grant_def consent_entries_grant entry_live_def consent_entry_of_def)

theorem consent_ttl_exact_witness:
  "\<not> has_grant 70 ''api_call'' (fst (consent_grant 10 ''api_call'' ''op'' ''*'' [] (Some 60) []))"
  by (subst consent_ttl_exact) (auto simp: has_grant_def consent_entries_def)

text \<open>A time to live of zero seconds makes a grant permanent: \<open>grant\<close> tests the truth of
  \<open>ttl_seconds\<close>, so 0 is treated as "no expiry" and the grant counts at every later time.\<close>

theorem consent_ttl_zero_never_expires:
  "has_grant now (sanitize_text a 64) (fst (consent_grant t a who sc note (Some 0) c))"
  by (auto simp: has_grant_def consent_entries_grant entry_live_def consent_entry_of_def)

text \<open>Revocation is complete and local. After \<open>revoke\<close> no grant of the action type counts at
  any time, however many were recorded, and the answers for every other type are unchanged.\<close>

theorem consent_revoke_complete:
  "has_grant now k (fst (consent_revoke a c)) \<longleftrightarrow> k \<noteq> a \<and> has_grant now k c"
  by (rule consent.granted_revoke)

subsection \<open>Postures\<close>

text \<open>\<open>s.split(sep, 1)[-1]\<close> and \<open>s.split(sep, 1)[0]\<close>.\<close>

fun after_sep :: "string \<Rightarrow> string \<Rightarrow> string" where
  "after_sep sep [] = []"
| "after_sep sep (c # s) =
     (if py_startswith (c # s) sep then drop (length sep) (c # s) else after_sep sep s)"

definition split_last :: "string \<Rightarrow> string \<Rightarrow> string" where
  "split_last sep s = (if py_contains s sep then after_sep sep s else s)"

definition split_first :: "char \<Rightarrow> string \<Rightarrow> string" where
  "split_first c s = takeWhile (\<lambda>x. x \<noteq> c) s"

definition hive_host :: "string \<Rightarrow> string" where
  "hive_host hive =
     py_lower (py_strip (split_first (CHR '':'') (split_first (CHR ''/'') (split_last ''//'' hive))))"

definition model_posture_decision :: "string \<Rightarrow> string \<Rightarrow> bool \<Rightarrow> int \<Rightarrow> bool \<times> string" where
  "model_posture_decision hive_url node_role local_model hive_peers =
     (if \<not> local_model then (False, ''configured without a local model'')
      else let hive = py_strip hive_url in
        if hive \<noteq> [] \<and> hive_host hive \<notin> {[], ''127.0.0.1'', ''localhost'', ''::1''}
        then (False, ''a desktop hive is configured: the hive holds the model'')
        else if py_lower (py_strip node_role) = ''follower''
        then (False, ''follower posture: this node provides sensors and memory, not inference'')
        else if hive_peers > 0
        then (False, ''a hive peer is live on the mesh: the hive holds the model'')
        else (True, ''standalone node with a local model configured''))"

subsection \<open>Capability registry\<close>

record cap_config =
  cfg_api_hosts :: "string list option"
  cfg_api_call_methods :: "string list option"
  cfg_news_api_methods :: "string list option"
  cfg_search_api_methods :: "string list option"
  cfg_sql_statements :: "string list option"
  cfg_hardware_commands :: "string list option"
  cfg_max_response_bytes :: "int option"
  cfg_robot_hosts :: "string list option"
  cfg_max_linear_velocity :: "real option"
  cfg_max_angular_velocity :: "real option"
  cfg_max_acceleration :: "real option"
  cfg_workspace_bounds :: "(string \<times> (real \<times> real)) list option"
  cfg_joint_limits :: "(string \<times> (real \<times> real)) list option"
  cfg_max_payload :: "real option"
  cfg_watchdog_timeout :: "real option"
  cfg_mobile_devices_allowlist :: "string list option"
  cfg_mobile_max_publish_hz :: "real option"
  cfg_mobile_sensor_topics :: "string list option"
  cfg_mobile_compute_timeout :: "real option"
  cfg_local_model_ports :: "nat list option"
  cfg_sound_enabled :: "bool option"
  cfg_sound_listen_mode :: "string option"
  cfg_sound_mode_pinned :: "bool option"
  cfg_sound_max_windows_per_minute :: "int option"

record capabilities =
  api_hosts :: "string list"
  api_call_methods :: "string list"
  news_api_methods :: "string list"
  search_api_methods :: "string list"
  sql_statements :: "string list"
  hardware_commands :: "string list"
  max_response_bytes :: int
  robot_hosts :: "string list"
  max_linear_velocity :: real
  max_angular_velocity :: real
  max_acceleration :: real
  workspace_bounds :: "(string \<times> (real \<times> real)) list"
  joint_limits :: "(string \<times> (real \<times> real)) list"
  max_payload :: real
  watchdog_timeout :: real
  mobile_devices_allowlist :: "string list"
  mobile_max_publish_hz :: real
  mobile_sensor_topics :: "string list"
  mobile_compute_timeout :: real
  local_model_ports :: "nat list"
  sound_enabled :: bool
  sound_listen_mode :: string
  sound_mode_pinned :: bool
  sound_max_windows_per_minute :: int

definition cfg :: "'a option \<Rightarrow> 'a \<Rightarrow> 'a" where
  "cfg x d = (case x of None \<Rightarrow> d | Some v \<Rightarrow> v)"

definition new_capabilities :: "cap_config \<Rightarrow> capabilities" where
  "new_capabilities c =
     \<lparr>api_hosts = cfg (cfg_api_hosts c) [''api.duckduckgo.com'', ''newsapi.org''],
      api_call_methods = cfg (cfg_api_call_methods c) [''GET''],
      news_api_methods = cfg (cfg_news_api_methods c) [''GET''],
      search_api_methods = cfg (cfg_search_api_methods c) [''GET''],
      sql_statements = cfg (cfg_sql_statements c) [''SELECT''],
      hardware_commands = cfg (cfg_hardware_commands c) [],
      max_response_bytes = max 1024 (cfg (cfg_max_response_bytes c) 262144),
      robot_hosts = cfg (cfg_robot_hosts c) [''localhost'', ''127.0.0.1''],
      max_linear_velocity = max 0.01 (cfg (cfg_max_linear_velocity c) 1),
      max_angular_velocity = max 0.01 (cfg (cfg_max_angular_velocity c) 1),
      max_acceleration = max 0.01 (cfg (cfg_max_acceleration c) 0.5),
      workspace_bounds = cfg (cfg_workspace_bounds c)
        [(''x'', (- 2, 2)), (''y'', (- 2, 2)), (''z'', (0, 2))],
      joint_limits = cfg (cfg_joint_limits c) [],
      max_payload = max 0 (cfg (cfg_max_payload c) 5),
      watchdog_timeout = max 0.1 (cfg (cfg_watchdog_timeout c) 5),
      mobile_devices_allowlist = cfg (cfg_mobile_devices_allowlist c) [],
      mobile_max_publish_hz = max 0.1 (cfg (cfg_mobile_max_publish_hz c) 30),
      mobile_sensor_topics = cfg (cfg_mobile_sensor_topics c)
        [''camera'', ''imu'', ''gps'', ''battery'', ''heartbeat'', ''microphone'',
         ''compute_result'', ''teleop''],
      mobile_compute_timeout = max 0.5 (cfg (cfg_mobile_compute_timeout c) 30),
      local_model_ports = cfg (cfg_local_model_ports c) [11434, 8080, 8081, 1234, 5000, 8000],
      sound_enabled = cfg (cfg_sound_enabled c) False,
      sound_listen_mode = (let m = py_lower (cfg (cfg_sound_listen_mode c) ''sound'')
                           in if m \<in> set SOUND_MODES then m else ''sound''),
      sound_mode_pinned = cfg (cfg_sound_mode_pinned c) False,
      sound_max_windows_per_minute = max 1 (cfg (cfg_sound_max_windows_per_minute c) 60)\<rparr>"

text \<open>Python's rendering of a list of plain strings inside an f-string.\<close>

definition repr_strings :: "string list \<Rightarrow> string" where
  "repr_strings xs =
     ''['' @ concat (case xs of [] \<Rightarrow> []
        | y # ys \<Rightarrow> ([CHR 0x27] @ y @ [CHR 0x27]) # map (\<lambda>s. '', '' @ [CHR 0x27] @ s @ [CHR 0x27]) ys) @
     '']''"

definition strip_slashes :: "string \<Rightarrow> string" where
  "strip_slashes s = strip_by (\<lambda>c. c = CHR ''/'') s"

definition validate_mobile_topic :: "capabilities \<Rightarrow> string \<Rightarrow> string \<Rightarrow> bool \<times> string" where
  "validate_mobile_topic caps device_id topic_tail =
     (let device = py_strip device_id; tail = strip_slashes topic_tail in
      if device = [] \<or> tail = [] then (False, ''empty mobile topic component'')
      else if device \<notin> set (mobile_devices_allowlist caps)
      then (False, ''device '' @ [CHR 0x27] @ device @ [CHR 0x27] @
              '' is not in the operator pairing allowlist'')
      else if tail \<notin> set (mobile_sensor_topics caps)
      then (False, ''topic '' @ [CHR 0x27] @ tail @ [CHR 0x27] @
              '' is outside the mobile contract (allowed: '' @
              repr_strings (mobile_sensor_topics caps) @ '')'')
      else (True, []))"

text \<open>Reading \<open>parsed.port\<close> raises \<open>ValueError\<close> on a port that is no number or out of range,
  and \<open>urlparse\<close> itself raises on unbalanced brackets; neither is caught here.\<close>

datatype value_error = ValueError

definition validate_model_endpoint :: "capabilities \<Rightarrow> string \<Rightarrow> value_error + (bool \<times> string)" where
  "validate_model_endpoint caps url =
     (case urlparse url of
        None \<Rightarrow> Inl ValueError
      | Some parsed \<Rightarrow>
          if u_scheme parsed \<notin> {''http'', ''https''}
          then Inr (False, ''scheme '' @ [CHR 0x27] @ u_scheme parsed @ [CHR 0x27] @
                      '' is not allowed for model endpoints'')
          else if opt_truthy (fst (url_userinfo parsed)) \<or> opt_truthy (snd (url_userinfo parsed))
          then Inr (False, ''credentials in model endpoint URLs are not allowed'')
          else let host = py_lower (case url_hostname parsed of None \<Rightarrow> [] | Some h \<Rightarrow> h) in
            if host \<notin> {''127.0.0.1'', ''localhost'', ''::1''}
            then Inr (False, ''model endpoint host '' @ [CHR 0x27] @ host @ [CHR 0x27] @
                        '' is not loopback (on-device inference must stay local)'')
            else case url_port parsed of
                   BadPort \<Rightarrow> Inl ValueError
                 | NoPort \<Rightarrow> Inr (True, [])
                 | Port p \<Rightarrow>
                     (if p \<notin> set (local_model_ports caps)
                      then Inr (False, ''port '' @ show_nat p @ '' is not in the local model port allowlist'')
                      else Inr (True, [])))"

definition validate_api_call :: "capabilities \<Rightarrow> string \<Rightarrow> string \<Rightarrow> bool \<times> string" where
  "validate_api_call caps url method =
     (let (ok, reason) = validate_url url (api_hosts caps) [''https''] in
      if \<not> ok then (False, reason)
      else if py_upper method \<notin> set (api_call_methods caps)
      then (False, ''HTTP method '' @ [CHR 0x27] @ method @ [CHR 0x27] @ '' is not allowed (allowed: '' @
              repr_strings (api_call_methods caps) @ '')'')
      else (True, []))"

text \<open>\<open>cleaned.split(None, 1)[0]\<close> of a stripped, non-empty text.\<close>

definition first_word :: "string \<Rightarrow> string" where
  "first_word s = takeWhile (\<lambda>c. \<not> is_space c) s"

definition validate_sql :: "capabilities \<Rightarrow> string \<Rightarrow> bool \<times> string" where
  "validate_sql caps statement =
     (let cleaned = py_strip statement in
      if cleaned = [] then (False, ''empty SQL statement'')
      else if CHR '';'' \<in> set (py_rstrip_char (CHR '';'') cleaned)
      then (False, ''multiple SQL statements are not allowed'')
      else let word = py_rstrip_char (CHR '';'') (py_upper (first_word cleaned)) in
        if word \<notin> set (map py_upper (sql_statements caps))
        then (False, ''SQL statement type '' @ [CHR 0x27] @ word @ [CHR 0x27] @
                '' is not allowed (allowed: '' @ repr_strings (sql_statements caps) @ '')'')
        else (True, []))"

definition validate_hardware :: "capabilities \<Rightarrow> string \<Rightarrow> bool \<times> string" where
  "validate_hardware caps command =
     (let cleaned = py_strip command in
      if cleaned \<notin> set (hardware_commands caps)
      then (False, ''hardware command '' @ [CHR 0x27] @ sanitize_text cleaned 80 @ [CHR 0x27] @
              '' is not in the operator-configured allowlist'')
      else (True, []))"

definition sound_listen_decision ::
  "capabilities option \<Rightarrow> consents option \<Rightarrow> real \<Rightarrow> string \<Rightarrow> string \<times> string" where
  "sound_listen_decision caps consent now node_role =
     (let raw = (case caps of None \<Rightarrow> ''sound'' | Some c \<Rightarrow> sound_listen_mode c);
          mode = py_lower (if raw = [] then ''sound'' else raw)
      in if mode \<notin> set SOUND_MODES
         then (''speech'', ''unknown configured sound mode '' @ [CHR 0x27] @ mode @ [CHR 0x27])
         else if mode = ''off'' then (''off'', ''operator configured acoustic perception off'')
         else case caps of
           None \<Rightarrow> (''speech'', ''sound perception is not enabled in configuration for this node'')
         | Some c \<Rightarrow>
             if \<not> sound_enabled c
             then (''speech'', ''sound perception is not enabled in configuration for this node'')
             else case consent of
               None \<Rightarrow> (''speech'', ''no consent registry, so no grant for '' @ [CHR 0x27] @
                          MIC_CONSENT_ACTION @ [CHR 0x27])
             | Some r \<Rightarrow>
                 if \<not> has_grant now MIC_CONSENT_ACTION r
                 then (''speech'', ''no external consent grant for '' @ [CHR 0x27] @
                         MIC_CONSENT_ACTION @ [CHR 0x27])
                 else if sound_mode_pinned c
                 then (mode, ''operator pinned listen_mode='' @ mode @ '' for this node'')
                 else if py_lower (py_strip node_role) = ''follower''
                 then (''sound'', ''follower posture (sensor provider): acoustic sensor duty, '' @
                         ''consent on record'')
                 else (''speech'', ''standalone posture: the microphone stays with speech recognition''))"

subsection \<open>What the allowlists let through\<close>

text \<open>Evaluating the URL parser on a literal.\<close>

lemmas url_eval =
  urlparse_def clean_url_def partition_at_def rpartition_at_def is_alpha_def is_digit_def
  scheme_char_def py_startswith_def py_lower_def lower_char_def char_code_def url_userinfo_def
  url_hostinfo_def url_hostname_def url_port_def opt_truthy_def Let_def

lemma rstrip_char_split:
  "\<exists>n. s = py_rstrip_char c s @ replicate n c"
proof -
  have "rev s = takeWhile (\<lambda>x. x = c) (rev s) @ dropWhile (\<lambda>x. x = c) (rev s)" by simp
  then have "s = rev (dropWhile (\<lambda>x. x = c) (rev s)) @ rev (takeWhile (\<lambda>x. x = c) (rev s))"
    by (metis rev_append rev_rev_ident)
  moreover have "takeWhile (\<lambda>x. x = c) (rev s) = replicate (length (takeWhile (\<lambda>x. x = c) (rev s))) c"
    by (rule replicate_eqI) (auto dest: set_takeWhileD)
  ultimately show ?thesis unfolding py_rstrip_char_def by (metis rev_replicate)
qed

lemma rstrip_char_replicate:
  "c \<notin> set body \<Longrightarrow> py_rstrip_char c (body @ replicate n c) = body"
proof -
  assume b: "c \<notin> set body"
  have d: "dropWhile (\<lambda>x. x = c) (rev body) = rev body"
    using b by (cases "rev body") (auto dest: arg_cong [where f = set])
  have "dropWhile (\<lambda>x. x = c) (replicate n c @ rev body) = rev body"
    by (induction n) (simp_all add: d)
  then show ?thesis by (simp add: py_rstrip_char_def)
qed

lemma upper_char_semicolon: "upper_char c = CHR '';'' \<longleftrightarrow> c = CHR '';''"
proof -
  have "upper_char c \<noteq> CHR '';''" if "97 \<le> char_code c" "char_code c \<le> 122"
  proof
    assume "upper_char c = CHR '';''"
    then have "(of_char (char_of (char_code c - 32) :: char) :: nat) = of_char (CHR '';'')"
      using that by (simp add: upper_char_def)
    with that show False by simp
  qed
  then show ?thesis by (auto simp: upper_char_def char_code_def)
qed

lemma py_upper_semicolon: "CHR '';'' \<in> set (py_upper s) \<longleftrightarrow> CHR '';'' \<in> set s"
  by (induction s) (auto simp: py_upper_def upper_char_semicolon eq_commute [of "CHR '';''"])

lemma first_word_semicolons:
  assumes "CHR '';'' \<notin> set body"
  shows "py_rstrip_char (CHR '';'') (py_upper (first_word (body @ replicate n (CHR '';'')))) =
           py_upper (first_word body)"
proof (cases "\<exists>x\<in>set body. is_space x")
  case True
  then have fw: "first_word (body @ replicate n (CHR '';'')) = first_word body"
    by (auto simp: first_word_def takeWhile_append1)
  have "set (first_word body) \<subseteq> set body"
    unfolding first_word_def by (blast dest: set_takeWhileD)
  with assms have "CHR '';'' \<notin> set (py_upper (first_word body))"
    by (simp only: py_upper_semicolon) blast
  with rstrip_char_replicate [of "CHR '';''" "py_upper (first_word body)" 0] show ?thesis
    by (simp add: fw)
next
  case False
  then have fb: "first_word body = body" by (simp add: first_word_def takeWhile_eq_all_conv)
  have sp: "\<not> is_space (CHR '';'')" by (simp add: is_space_def char_code_def)
  then have "takeWhile (\<lambda>c. \<not> is_space c) (replicate n (CHR '';'')) = replicate n (CHR '';'')"
    by (simp add: takeWhile_eq_all_conv)
  with False have "first_word (body @ replicate n (CHR '';'')) = body @ replicate n (CHR '';'')"
    by (simp add: first_word_def takeWhile_append2)
  moreover have "py_upper (body @ replicate n (CHR '';'')) = py_upper body @ replicate n (CHR '';'')"
    by (simp add: py_upper_def upper_char_def char_code_def)
  moreover have "CHR '';'' \<notin> set (py_upper body)"
    using assms by (simp add: py_upper_semicolon)
  ultimately show ?thesis by (simp add: rstrip_char_replicate fb)
qed

text \<open>The SQL gate admits exactly single statements of an allowlisted type: the stripped text
  is a body without any semicolon followed by nothing but semicolons, and the body's first word
  is, up to case, one of the configured statement types.\<close>

theorem validate_sql_single_allowlisted:
  "fst (validate_sql caps statement) \<longleftrightarrow>
     py_strip statement \<noteq> [] \<and>
     (\<exists>body n. py_strip statement = body @ replicate n (CHR '';'') \<and> CHR '';'' \<notin> set body \<and>
        py_upper (first_word body) \<in> py_upper ` set (sql_statements caps))"
  (is "?L \<longleftrightarrow> ?R")
proof
  let ?s = "py_strip statement"
  assume L: ?L
  obtain n where n: "?s = py_rstrip_char (CHR '';'') ?s @ replicate n (CHR '';'')"
    using rstrip_char_split by blast
  have "CHR '';'' \<notin> set (py_rstrip_char (CHR '';'') ?s)" "?s \<noteq> []"
    using L by (auto simp: validate_sql_def Let_def split: if_splits)
  moreover from this(1) have "py_rstrip_char (CHR '';'') (py_upper (first_word ?s)) =
      py_upper (first_word (py_rstrip_char (CHR '';'') ?s))"
    by (subst n) (rule first_word_semicolons)
  moreover have "py_rstrip_char (CHR '';'') (py_upper (first_word ?s)) \<in> py_upper ` set (sql_statements caps)"
    using L by (auto simp: validate_sql_def Let_def split: if_splits)
  ultimately show ?R using n by metis
next
  assume ?R
  then obtain body n where s: "py_strip statement = body @ replicate n (CHR '';'')"
    "CHR '';'' \<notin> set body" "py_upper (first_word body) \<in> py_upper ` set (sql_statements caps)"
    "py_strip statement \<noteq> []" by blast
  then show ?L
    by (auto simp: validate_sql_def Let_def rstrip_char_replicate first_word_semicolons)
qed

text \<open>The microphone is handed to sound perception only with an operator's say. If the
  decision is \<open>sound\<close>, then a registry is present, perception is enabled there, a live consent
  grant for listening is on record, and either the operator pinned the mode or the node is a
  follower.\<close>

theorem sound_requires_consent:
  assumes "fst (sound_listen_decision caps consent now role) = ''sound''"
  shows "\<exists>c r. caps = Some c \<and> consent = Some r \<and> sound_enabled c \<and>
           has_grant now MIC_CONSENT_ACTION r \<and>
           (sound_mode_pinned c \<or> py_lower (py_strip role) = ''follower'')"
  using assms
  by (auto simp: sound_listen_decision_def Let_def split: option.splits if_splits)

definition default_cap_config :: cap_config where
  "default_cap_config =
     \<lparr>cfg_api_hosts = None, cfg_api_call_methods = None, cfg_news_api_methods = None,
      cfg_search_api_methods = None, cfg_sql_statements = None, cfg_hardware_commands = None,
      cfg_max_response_bytes = None, cfg_robot_hosts = None, cfg_max_linear_velocity = None,
      cfg_max_angular_velocity = None, cfg_max_acceleration = None, cfg_workspace_bounds = None,
      cfg_joint_limits = None, cfg_max_payload = None, cfg_watchdog_timeout = None,
      cfg_mobile_devices_allowlist = None, cfg_mobile_max_publish_hz = None,
      cfg_mobile_sensor_topics = None, cfg_mobile_compute_timeout = None,
      cfg_local_model_ports = None, cfg_sound_enabled = None, cfg_sound_listen_mode = None,
      cfg_sound_mode_pinned = None, cfg_sound_max_windows_per_minute = None\<rparr>"

theorem sound_requires_consent_witness:
  "\<exists>c r. Some (new_capabilities (default_cap_config\<lparr>cfg_sound_enabled := Some True\<rparr>)) = Some c \<and>
     Some (fst (consent_grant 0 MIC_CONSENT_ACTION ''op'' ''*'' [] None [])) = Some r \<and>
     sound_enabled c \<and> has_grant 5 MIC_CONSENT_ACTION r \<and>
     (sound_mode_pinned c \<or> py_lower (py_strip ''follower'') = ''follower'')"
proof (rule sound_requires_consent)
  have "sanitize_text MIC_CONSENT_ACTION 64 = MIC_CONSENT_ACTION"
    by (rule sanitize_text_plain) (simp_all add: MIC_CONSENT_ACTION_def plain_char_def char_code_def)
  then have "has_grant 5 MIC_CONSENT_ACTION
      (fst (consent_grant 0 MIC_CONSENT_ACTION ''op'' ''*'' [] None []))"
    by (simp add: consent.granted_grant has_grant_def consent_entries_grant entry_live_def
        consent_entry_of_def)
  moreover have "py_lower ''sound'' = ''sound''" "py_lower (py_strip ''follower'') = ''follower''"
    by code_simp+
  ultimately show "fst (sound_listen_decision
      (Some (new_capabilities (default_cap_config\<lparr>cfg_sound_enabled := Some True\<rparr>)))
      (Some (fst (consent_grant 0 MIC_CONSENT_ACTION ''op'' ''*'' [] None []))) 5 ''follower'') =
      ''sound''"
    by (simp add: sound_listen_decision_def new_capabilities_def default_cap_config_def cfg_def
        SOUND_MODES_def Let_def)
qed

text \<open>On-device inference stays on the device. An endpoint that passes is http or https, carries
  no credentials, names a loopback host, and its port, if it has one, is on the allowlist.\<close>

theorem model_endpoint_is_loopback:
  assumes "validate_model_endpoint caps url = Inr (True, reason)"
  shows "\<exists>parsed host. urlparse url = Some parsed \<and> u_scheme parsed \<in> {''http'', ''https''} \<and>
           url_hostname parsed = Some host \<and> py_lower host \<in> {''127.0.0.1'', ''localhost'', ''::1''} \<and>
           \<not> opt_truthy (fst (url_userinfo parsed)) \<and> \<not> opt_truthy (snd (url_userinfo parsed)) \<and>
           (url_port parsed = NoPort \<or> (\<exists>p\<in>set (local_model_ports caps). url_port parsed = Port p))"
proof -
  have "py_lower [] = []" by (simp add: py_lower_def)
  with assms show ?thesis
    by (auto simp: validate_model_endpoint_def Let_def split: option.splits if_splits port_result.splits)
qed

theorem model_endpoint_is_loopback_witness:
  "\<exists>parsed host. urlparse ''http://127.0.0.1:8080/v1'' = Some parsed \<and>
     u_scheme parsed \<in> {''http'', ''https''} \<and>
     url_hostname parsed = Some host \<and> py_lower host \<in> {''127.0.0.1'', ''localhost'', ''::1''} \<and>
     \<not> opt_truthy (fst (url_userinfo parsed)) \<and> \<not> opt_truthy (snd (url_userinfo parsed)) \<and>
     (url_port parsed = NoPort \<or> (\<exists>p\<in>set (local_model_ports (new_capabilities default_cap_config)).
        url_port parsed = Port p))"
proof (rule model_endpoint_is_loopback)
  show "validate_model_endpoint (new_capabilities default_cap_config) ''http://127.0.0.1:8080/v1'' =
      Inr (True, [])"
    by (simp add: url_eval validate_model_endpoint_def new_capabilities_def default_cap_config_def
        cfg_def)
qed

subsection \<open>Approval broker\<close>

text \<open>
  A request waits on an event while other threads (the operator channel's worker, the console's
  \<open>approve\<close> and \<open>deny\<close>) may resolve it. \<open>_pending\<close> maps request ids to \<open>approved\<close>, with
  \<open>None\<close> while it is unresolved; the event is set in the same locked section that sets
  \<open>approved\<close>, so it is set exactly when \<open>approved\<close> is not \<open>None\<close>. Request ids are fresh (uuid4).
\<close>

record broker =
  ab_operator :: bool
  ab_pending :: "(string \<times> bool option) list"

definition new_broker :: broker where
  "new_broker = \<lparr>ab_operator = False, ab_pending = []\<rparr>"

definition attach_operator :: "broker \<Rightarrow> broker" where
  "attach_operator b = b\<lparr>ab_operator := True\<rparr>"

text \<open>\<open>_resolve\<close>: the first resolution wins.\<close>

definition ab_resolve :: "string \<Rightarrow> bool \<Rightarrow> broker \<Rightarrow> broker \<times> bool" where
  "ab_resolve rid approved b =
     (case map_of (ab_pending b) rid of
        Some None \<Rightarrow> (b\<lparr>ab_pending := AList.update rid (Some approved) (ab_pending b)\<rparr>, True)
      | _ \<Rightarrow> (b, False))"

definition ab_approve :: "string \<Rightarrow> broker \<Rightarrow> broker \<times> bool" where
  "ab_approve rid b = ab_resolve rid True b"

definition ab_deny :: "string \<Rightarrow> broker \<Rightarrow> broker \<times> bool" where
  "ab_deny rid b = ab_resolve rid False b"

text \<open>The second locked section of \<open>_ask_operator\<close>; an operator callback that raises
  (\<open>None\<close>) counts as a refusal.\<close>

definition ab_ask_operator :: "string \<Rightarrow> bool option \<Rightarrow> broker \<Rightarrow> broker" where
  "ab_ask_operator rid answer b =
     (let result = (case answer of None \<Rightarrow> False | Some r \<Rightarrow> r)
      in case map_of (ab_pending b) rid of
           Some None \<Rightarrow> b\<lparr>ab_pending := AList.update rid (Some result) (ab_pending b)\<rparr>
         | _ \<Rightarrow> b)"

definition ab_list_pending :: "broker \<Rightarrow> string list" where
  "ab_list_pending b = map fst (filter (\<lambda>(_, a). a = None) (ab_pending b))"

datatype ab_event =
    Answered string "bool option"
  | Approved string
  | Denied string

fun ab_apply :: "ab_event \<Rightarrow> broker \<Rightarrow> broker" where
  "ab_apply (Answered rid a) b = ab_ask_operator rid a b"
| "ab_apply (Approved rid) b = fst (ab_approve rid b)"
| "ab_apply (Denied rid) b = fst (ab_deny rid b)"

datatype approval_result = NoChannel | TimedOut | OperatorApproved | OperatorDenied

fun approval_approved :: "approval_result \<Rightarrow> bool" where
  "approval_approved OperatorApproved = True"
| "approval_approved _ = False"

fun approval_reason :: "approval_result \<Rightarrow> string" where
  "approval_reason NoChannel = ''no approval channel attached (fail-closed)''"
| "approval_reason TimedOut = ''approval timed out (default deny)''"
| "approval_reason OperatorApproved = ''operator approved''"
| "approval_reason OperatorDenied = ''operator denied''"

text \<open>\<open>request_approval\<close>: \<open>during\<close> is what the other threads do while the requester waits for
  at most the time to live, in the order in which they get the lock.\<close>

definition request_approval :: "string \<Rightarrow> ab_event list \<Rightarrow> broker \<Rightarrow> broker \<times> approval_result" where
  "request_approval rid during b =
     (if \<not> ab_operator b then (b, NoChannel)
      else let b1 = b\<lparr>ab_pending := AList.update rid None (ab_pending b)\<rparr>;
               b2 = run_ops ab_apply during b1;
               record = map_of (ab_pending b2) rid;
               b3 = b2\<lparr>ab_pending := AList.delete rid (ab_pending b2)\<rparr>
           in case record of
                Some (Some True) \<Rightarrow> (b3, OperatorApproved)
              | Some (Some False) \<Rightarrow> (b3, OperatorDenied)
              | _ \<Rightarrow> (b3, TimedOut))"

text \<open>The verdict an event carries for a request.\<close>

fun verdict_for :: "string \<Rightarrow> ab_event \<Rightarrow> bool option" where
  "verdict_for rid (Answered r a) =
     (if r = rid then Some (case a of None \<Rightarrow> False | Some x \<Rightarrow> x) else None)"
| "verdict_for rid (Approved r) = (if r = rid then Some True else None)"
| "verdict_for rid (Denied r) = (if r = rid then Some False else None)"

definition first_verdict :: "string \<Rightarrow> ab_event list \<Rightarrow> bool option" where
  "first_verdict rid es = (case List.map_filter (verdict_for rid) es of [] \<Rightarrow> None | v # _ \<Rightarrow> Some v)"

lemma ab_apply_pending:
  "map_of (ab_pending (ab_apply e b)) rid =
     (case (map_of (ab_pending b) rid, verdict_for rid e) of
        (Some None, Some v) \<Rightarrow> Some (Some v)
      | (p, _) \<Rightarrow> p)"
  by (cases e)
     (auto simp: ab_ask_operator_def ab_approve_def ab_deny_def ab_resolve_def Let_def update_conv'
       split: option.splits)

lemma ab_apply_operator [frame_simps]: "ab_operator (ab_apply e b) = ab_operator b"
  by (cases e)
     (auto simp: ab_ask_operator_def ab_approve_def ab_deny_def ab_resolve_def Let_def
       split: option.splits)

lemma ab_run_pending:
  "map_of (ab_pending b) rid = Some p \<Longrightarrow>
   map_of (ab_pending (run_ops ab_apply es b)) rid =
     Some (case p of Some v \<Rightarrow> Some v | None \<Rightarrow> first_verdict rid es)"
proof (induction es arbitrary: b p)
  case Nil
  then show ?case by (auto simp: first_verdict_def map_filter_def split: option.splits)
next
  case (Cons e es)
  have "map_of (ab_pending (ab_apply e b)) rid =
      Some (case p of Some v \<Rightarrow> Some v | None \<Rightarrow> verdict_for rid e)"
    using Cons.prems by (auto simp: ab_apply_pending split: option.splits)
  from Cons.IH [OF this] show ?case
    by (auto simp: first_verdict_def map_filter_def split: option.splits)
qed

lemma request_approval_result:
  "ab_operator b \<Longrightarrow> snd (request_approval rid during b) =
     (case first_verdict rid during of
        Some True \<Rightarrow> OperatorApproved | Some False \<Rightarrow> OperatorDenied | None \<Rightarrow> TimedOut)"
  using ab_run_pending [of "b\<lparr>ab_pending := AList.update rid None (ab_pending b)\<rparr>" rid None during]
  by (auto simp: request_approval_def Let_def update_conv' split: option.splits bool.splits)

lemma request_approval_approved:
  "approval_approved (snd (request_approval rid during b)) \<longleftrightarrow>
     ab_operator b \<and> first_verdict rid during = Some True"
proof (cases "ab_operator b")
  case True
  then show ?thesis
    by (simp add: request_approval_result split: option.splits bool.splits)
next
  case False
  then show ?thesis by (simp add: request_approval_def)
qed

lemma request_approval_operator [frame_simps]:
  "ab_operator (fst (request_approval rid during b)) = ab_operator b"
proof -
  have "ab_operator (run_ops ab_apply es c) = ab_operator c" for es c
    by (induction es arbitrary: c) (simp_all add: frame_simps)
  then show ?thesis
    by (simp add: request_approval_def Let_def split: option.splits bool.splits)
qed

text \<open>C24: approval is fail-closed and the first resolution wins. A request is approved exactly when
  an operator channel is attached and, among everything the other threads do before the time to
  live runs out, the first event that resolves this request is an approval: no channel, silence,
  an operator callback that raises, or a denial that comes first all deny, and a later verdict
  never overrides an earlier one.\<close>

theorem approval_fail_closed:
  "approval_approved (snd (request_approval rid during b)) \<longleftrightarrow>
     ab_operator b \<and> first_verdict rid during = Some True"
  by (rule request_approval_approved)

end
