(* ===== verification/Audit_Sinks.thy ===== *)
theory Audit_Sinks
  imports Url Json
begin

text \<open>
  The log sinks of \<open>src/audit.py\<close>: the bounded queue with its counters, the flush loop with its
  bounded retries, the HTTPS and file transports, and \<open>sinks_from_env\<close>. The transport itself
  (\<open>requests.post\<close>, the file system) is a parameter. \<open>sink_step\<close> is the interleaving of
  several submitting threads with the flush thread at the granularity of the queue's own
  operations, which are atomic.
\<close>

subsection \<open>The queueing base class\<close>

record audit_sink =
  sk_name :: string
  sk_queue :: "pydict list"
  sk_cap :: nat
  sk_batch_max :: nat
  sk_max_retries :: nat
  sk_submitted :: nat
  sk_delivered :: nat
  sk_failed :: nat
  sk_dropped :: nat

definition LOG_SINK_QUEUE_CAP :: int where "LOG_SINK_QUEUE_CAP = 1024"
definition LOG_SINK_BATCH_MAX :: int where "LOG_SINK_BATCH_MAX = 50"
definition LOG_SINK_MAX_RETRIES :: int where "LOG_SINK_MAX_RETRIES = 3"

definition new_sink :: "string \<Rightarrow> int \<Rightarrow> int \<Rightarrow> int \<Rightarrow> audit_sink" where
  "new_sink name queue_cap batch_max max_retries =
     \<lparr>sk_name = name, sk_queue = [], sk_cap = nat (max 1 queue_cap),
      sk_batch_max = nat (max 1 batch_max), sk_max_retries = nat (max 0 max_retries),
      sk_submitted = 0, sk_delivered = 0, sk_failed = 0, sk_dropped = 0\<rparr>"

text \<open>\<open>submit\<close> when no other thread runs in between: \<open>put_nowait\<close>, and on \<open>queue.Full\<close> the oldest
  entry makes room.\<close>

definition sink_submit :: "pydict \<Rightarrow> audit_sink \<Rightarrow> audit_sink \<times> bool" where
  "sink_submit entry s0 =
     (let s = s0\<lparr>sk_submitted := sk_submitted s0 + 1\<rparr> in
      if length (sk_queue s) < sk_cap s then (s\<lparr>sk_queue := sk_queue s @ [entry]\<rparr>, True)
      else let s' = s\<lparr>sk_dropped := sk_dropped s + 1\<rparr> in
        case sk_queue s' of
          [] \<Rightarrow> (s', False)
        | _ # q \<Rightarrow> if length q < sk_cap s' then (s'\<lparr>sk_queue := q @ [entry]\<rparr>, True)
                    else (s'\<lparr>sk_queue := q\<rparr>, False))"

definition sink_stats :: "audit_sink \<Rightarrow> (string \<times> nat) list" where
  "sink_stats s = [(''submitted'', sk_submitted s), (''delivered'', sk_delivered s),
     (''failed'', sk_failed s), (''dropped'', sk_dropped s), (''pending'', length (sk_queue s))]"

text \<open>The retry loop of \<open>_flush_once\<close>: \<open>deliver n\<close> is the outcome of attempt \<open>n\<close>, an exception
  counting as a failure; \<open>fuel\<close> is the number of attempts left.\<close>

fun deliver_attempts :: "(nat \<Rightarrow> bool) \<Rightarrow> nat \<Rightarrow> nat \<Rightarrow> bool" where
  "deliver_attempts deliver attempt 0 = False"
| "deliver_attempts deliver attempt (Suc left) =
     (if deliver attempt then True else deliver_attempts deliver (attempt + 1) left)"

definition sink_flush_once :: "(pydict list \<Rightarrow> nat \<Rightarrow> bool) \<Rightarrow> audit_sink \<Rightarrow> audit_sink" where
  "sink_flush_once deliver s =
     (let batch = take (sk_batch_max s) (sk_queue s);
          s' = s\<lparr>sk_queue := drop (sk_batch_max s) (sk_queue s)\<rparr>
      in if batch = [] then s'
         else if deliver_attempts (deliver batch) 0 (sk_max_retries s + 1)
         then s'\<lparr>sk_delivered := sk_delivered s' + length batch\<rparr>
         else s'\<lparr>sk_failed := sk_failed s' + length batch\<rparr>)"

lemma deliver_attempts_iff:
  "deliver_attempts d a n \<longleftrightarrow> (\<exists>i<n. d (a + i))"
proof (induction n arbitrary: a)
  case (Suc n)
  then show ?case by (auto simp: less_Suc_eq_0_disj)
qed simp

subsection \<open>The transports\<close>

definition https_sink_url :: "string \<Rightarrow> string + unit" where
  "https_sink_url url =
     (case urlparse url of
        None \<Rightarrow> Inl ''Invalid IPv6 URL''
      | Some parsed \<Rightarrow>
          if u_scheme parsed \<noteq> ''https''
          then Inl (''HTTPSAuditSink requires https:// scheme, got '' @ repr_str (u_scheme parsed))
          else if u_netloc parsed = [] then Inl ''HTTPSAuditSink requires a host in the URL''
          else Inr ())"

text \<open>Headers as a dictionary in insertion order: the caller's extra headers cannot replace the
  two protected ones.\<close>

definition https_headers :: "string option \<Rightarrow> (string \<times> string) list \<Rightarrow> (string \<times> string) list" where
  "https_headers auth_token extra =
     fold (\<lambda>(k, v) h. if py_lower k \<in> {''authorization'', ''content-type''} then h
                      else AList.update k v h) extra
       ([(''Content-Type'', ''application/json'')] @
        (case auth_token of None \<Rightarrow> [] | Some t \<Rightarrow>
           if t = [] then [] else [(''Authorization'', ''Bearer '' @ t)]))"

text \<open>\<open>post headers body\<close> is the status code, or \<open>None\<close> for an exception of the transport;
  \<open>dumps\<close> is \<open>json.dumps(e, sort_keys=True, default=str)\<close>.\<close>

definition https_deliver :: "((string \<times> string) list \<Rightarrow> string \<Rightarrow> int option) \<Rightarrow> (pydict \<Rightarrow> string) \<Rightarrow>
    string option \<Rightarrow> (string \<times> string) list \<Rightarrow> pydict list \<Rightarrow> bool" where
  "https_deliver post dumps auth_token extra batch =
     (case post (https_headers auth_token extra) (join_sep [CHR 0x0A] (map dumps batch)) of
        None \<Rightarrow> False
      | Some status \<Rightarrow> 200 \<le> status \<and> status < 300)"

datatype sink_kind = HTTPSAuditSink string "string option" bool | FileAuditSink string

definition sinks_from_env :: "(string \<Rightarrow> string option) \<Rightarrow> sink_kind list" where
  "sinks_from_env env =
     (let get = (\<lambda>k d. case env k of None \<Rightarrow> d | Some v \<Rightarrow> v);
          https_url = py_strip (get ''SHUGOCORE_AUDIT_HTTPS_URL'' []);
          verify_tls = (py_lower (get ''SHUGOCORE_AUDIT_HTTPS_VERIFY_TLS'' ''true'') \<noteq> ''false'');
          token = (case env ''SHUGOCORE_AUDIT_HTTPS_TOKEN'' of
                     None \<Rightarrow> None | Some t \<Rightarrow> if t = [] then None else Some t);
          file_path = py_strip (get ''SHUGOCORE_AUDIT_FILE_PATH'' [])
      in (if https_url \<noteq> [] \<and> https_sink_url https_url = Inr ()
          then [HTTPSAuditSink https_url token verify_tls] else []) @
         (if file_path \<noteq> [] then [FileAuditSink file_path] else []))"

lemma https_headers_protected:
  "map_of (https_headers (Some t) extra) ''Content-Type'' = Some ''application/json''"
  "t \<noteq> [] \<Longrightarrow> map_of (https_headers (Some t) extra) ''Authorization'' = Some (''Bearer '' @ t)"
proof -
  have lower: "py_lower ''Content-Type'' = ''content-type''" "py_lower ''Authorization'' = ''authorization''"
    by code_simp+
  have keep: "map_of (fold (\<lambda>(k, v) h. if py_lower k \<in> {''authorization'', ''content-type''} then h
      else AList.update k v h) extra h) k = map_of h k"
    if "py_lower k \<in> {''authorization'', ''content-type''}" for k h
    using that
  proof (induction extra arbitrary: h)
    case (Cons kv extra)
    then show ?case by (auto simp: update_conv' split: prod.splits)
  qed simp
  show "map_of (https_headers (Some t) extra) ''Content-Type'' = Some ''application/json''"
    using keep [of "''Content-Type''"] by (simp add: https_headers_def lower)
  show "t \<noteq> [] \<Longrightarrow> map_of (https_headers (Some t) extra) ''Authorization'' = Some (''Bearer '' @ t)"
    using keep [of "''Authorization''"] by (simp add: https_headers_def lower)
qed

subsection \<open>The queue as a bounded buffer\<close>

interpretation sinkq: bounded_fifo sk_queue sk_cap "\<lambda>e s. fst (sink_submit e s)"
proof
  fix e :: pydict and s :: audit_sink
  show "sk_cap (fst (sink_submit e s)) = sk_cap s"
    by (auto simp: sink_submit_def Let_def split: list.splits)
  show "suffix (sk_queue (fst (sink_submit e s))) (sk_queue s @ [e])"
    if "length (sk_queue s) \<le> sk_cap s"
    using that by (auto simp: sink_submit_def Let_def suffix_def split: list.splits)
  show "length (sk_queue (fst (sink_submit e s))) \<le> sk_cap s" if "length (sk_queue s) \<le> sk_cap s"
    using that by (auto simp: sink_submit_def Let_def split: list.splits)
qed

lemma sink_keeps_newest:
  "length (sk_queue s) \<le> sk_cap s \<Longrightarrow>
     suffix (sk_queue (fold (\<lambda>e s. fst (sink_submit e s)) es s)) (sk_queue s @ es)"
  by (rule sinkq.fold_put_suffix)

subsection \<open>Interleaved submitters and the flush thread\<close>

text \<open>Where a submitting thread stands: outside \<open>submit\<close>; counted as submitted, before its first
  \<open>put_nowait\<close>; after \<open>queue.Full\<close> (the drop is counted, the oldest entry not yet taken);
  after \<open>get_nowait\<close>, before the second \<open>put_nowait\<close>. The flush thread is collecting a batch
  or at an attempt to deliver it.\<close>

datatype submitter = SIdle | SCounted pydict | SFull pydict | STaken pydict

datatype flusher = FCollect "pydict list" | FDeliver "pydict list" nat

record sink_sys =
  ss_sink :: audit_sink
  ss_subs :: "submitter list"
  ss_flusher :: flusher

inductive sink_step :: "sink_sys \<Rightarrow> sink_sys \<Rightarrow> bool" where
  st_submit: "\<lbrakk>i < length (ss_subs t); ss_subs t ! i = SIdle\<rbrakk> \<Longrightarrow>
    sink_step t (t\<lparr>ss_subs := (ss_subs t)[i := SCounted e],
      ss_sink := (ss_sink t)\<lparr>sk_submitted := sk_submitted (ss_sink t) + 1\<rparr>\<rparr>)"
| st_put: "\<lbrakk>i < length (ss_subs t); ss_subs t ! i = SCounted e \<or> ss_subs t ! i = STaken e;
    length (sk_queue (ss_sink t)) < sk_cap (ss_sink t)\<rbrakk> \<Longrightarrow>
    sink_step t (t\<lparr>ss_subs := (ss_subs t)[i := SIdle],
      ss_sink := (ss_sink t)\<lparr>sk_queue := sk_queue (ss_sink t) @ [e]\<rparr>\<rparr>)"
| st_full: "\<lbrakk>i < length (ss_subs t); ss_subs t ! i = SCounted e;
    sk_cap (ss_sink t) \<le> length (sk_queue (ss_sink t))\<rbrakk> \<Longrightarrow>
    sink_step t (t\<lparr>ss_subs := (ss_subs t)[i := SFull e],
      ss_sink := (ss_sink t)\<lparr>sk_dropped := sk_dropped (ss_sink t) + 1\<rparr>\<rparr>)"
| st_empty: "\<lbrakk>i < length (ss_subs t); ss_subs t ! i = SFull e; sk_queue (ss_sink t) = []\<rbrakk> \<Longrightarrow>
    sink_step t (t\<lparr>ss_subs := (ss_subs t)[i := SIdle]\<rparr>)"
| st_take: "\<lbrakk>i < length (ss_subs t); ss_subs t ! i = SFull e; sk_queue (ss_sink t) = x # q\<rbrakk> \<Longrightarrow>
    sink_step t (t\<lparr>ss_subs := (ss_subs t)[i := STaken e],
      ss_sink := (ss_sink t)\<lparr>sk_queue := q\<rparr>\<rparr>)"
| st_full_again: "\<lbrakk>i < length (ss_subs t); ss_subs t ! i = STaken e;
    sk_cap (ss_sink t) \<le> length (sk_queue (ss_sink t))\<rbrakk> \<Longrightarrow>
    sink_step t (t\<lparr>ss_subs := (ss_subs t)[i := SIdle]\<rparr>)"
| st_collect: "\<lbrakk>ss_flusher t = FCollect b; length b < sk_batch_max (ss_sink t);
    sk_queue (ss_sink t) = x # q\<rbrakk> \<Longrightarrow>
    sink_step t (t\<lparr>ss_flusher := FCollect (b @ [x]), ss_sink := (ss_sink t)\<lparr>sk_queue := q\<rparr>\<rparr>)"
| st_collected: "\<lbrakk>ss_flusher t = FCollect b; b \<noteq> [];
    sk_batch_max (ss_sink t) \<le> length b \<or> sk_queue (ss_sink t) = []\<rbrakk> \<Longrightarrow>
    sink_step t (t\<lparr>ss_flusher := FDeliver b 0\<rparr>)"
| st_delivered: "ss_flusher t = FDeliver b a \<Longrightarrow>
    sink_step t (t\<lparr>ss_flusher := FCollect [],
      ss_sink := (ss_sink t)\<lparr>sk_delivered := sk_delivered (ss_sink t) + length b\<rparr>\<rparr>)"
| st_retry: "\<lbrakk>ss_flusher t = FDeliver b a; a < sk_max_retries (ss_sink t)\<rbrakk> \<Longrightarrow>
    sink_step t (t\<lparr>ss_flusher := FDeliver b (a + 1)\<rparr>)"
| st_failed: "\<lbrakk>ss_flusher t = FDeliver b a; sk_max_retries (ss_sink t) \<le> a\<rbrakk> \<Longrightarrow>
    sink_step t (t\<lparr>ss_flusher := FCollect [],
      ss_sink := (ss_sink t)\<lparr>sk_failed := sk_failed (ss_sink t) + length b\<rparr>\<rparr>)"

inductive_cases sink_stepE: "sink_step t u"

fun in_hand :: "submitter \<Rightarrow> nat" where
  "in_hand (SCounted e) = 1"
| "in_hand (STaken e) = 1"
| "in_hand _ = 0"

fun in_batch :: "flusher \<Rightarrow> nat" where
  "in_batch (FCollect b) = length b"
| "in_batch (FDeliver b a) = length b"

text \<open>Entries the counters account for, with those a thread holds.\<close>

definition accounted :: "sink_sys \<Rightarrow> nat" where
  "accounted t = sk_delivered (ss_sink t) + sk_failed (ss_sink t) + sk_dropped (ss_sink t) +
     length (sk_queue (ss_sink t)) + in_batch (ss_flusher t) + sum_list (map in_hand (ss_subs t))"

definition start_sys :: "nat \<Rightarrow> audit_sink \<Rightarrow> sink_sys" where
  "start_sys n s = \<lparr>ss_sink = s, ss_subs = replicate n SIdle, ss_flusher = FCollect []\<rparr>"

lemma hand_update:
  "i < length xs \<Longrightarrow>
     sum_list (map in_hand (xs[i := y])) + in_hand (xs ! i) = sum_list (map in_hand xs) + in_hand y"
proof (induction xs arbitrary: i)
  case (Cons x xs)
  then show ?case by (cases i) (auto simp: add.assoc)
qed simp

definition sink_sys_inv :: "sink_sys \<Rightarrow> bool" where
  "sink_sys_inv t \<longleftrightarrow> length (sk_queue (ss_sink t)) \<le> sk_cap (ss_sink t) \<and> 0 < sk_cap (ss_sink t) \<and>
     accounted t \<le> sk_submitted (ss_sink t) \<and>
     (length (ss_subs t) = 1 \<longrightarrow>
        accounted t = sk_submitted (ss_sink t) \<and>
        (\<forall>e. ss_subs t ! 0 = STaken e \<longrightarrow> length (sk_queue (ss_sink t)) < sk_cap (ss_sink t)))"

lemma sink_step_length: "sink_step t u \<Longrightarrow> length (ss_subs u) = length (ss_subs t)"
  by (auto elim: sink_stepE)

lemma sink_step_inv: "sink_step t u \<Longrightarrow> sink_sys_inv t \<Longrightarrow> sink_sys_inv u"
proof (induction rule: sink_step.induct)
  case (st_submit i t e)
  then show ?case using hand_update [of i "ss_subs t" "SCounted e"]
    by (auto simp: sink_sys_inv_def accounted_def)
next
  case (st_put i t e)
  then show ?case using hand_update [of i "ss_subs t" SIdle]
    by (auto simp: sink_sys_inv_def accounted_def)
next
  case (st_full i t e)
  then show ?case using hand_update [of i "ss_subs t" "SFull e"]
    by (auto simp: sink_sys_inv_def accounted_def)
next
  case (st_empty i t e)
  then show ?case using hand_update [of i "ss_subs t" SIdle]
    by (auto simp: sink_sys_inv_def accounted_def)
next
  case (st_take i t e x q)
  then show ?case using hand_update [of i "ss_subs t" "STaken e"]
    by (auto simp: sink_sys_inv_def accounted_def)
next
  case (st_full_again i t e)
  then show ?case using hand_update [of i "ss_subs t" SIdle]
    by (auto simp: sink_sys_inv_def accounted_def)
next
  case (st_collect t b x q)
  then show ?case by (auto simp: sink_sys_inv_def accounted_def)
qed (auto simp: sink_sys_inv_def accounted_def)

lemma sink_sys_reach:
  assumes "sink_step\<^sup>*\<^sup>* t u" and "sink_sys_inv t"
  shows "sink_sys_inv u \<and> length (ss_subs u) = length (ss_subs t)"
  using assms by (induction rule: rtranclp_induct) (auto dest: sink_step_length intro: sink_step_inv)

lemma start_sys_inv: "sink_sys_inv (start_sys n (new_sink name cap bm mr))"
  by (simp add: sink_sys_inv_def start_sys_def new_sink_def accounted_def sum_list_replicate)

text \<open>C34: With one submitting thread, in every interleaving with the flush thread and whatever the
  transport does, the sink's queue stays within its capacity and no entry is lost without
  being counted: submitted equals delivered plus failed plus dropped plus pending plus what the two
  threads hold.\<close>

theorem sink_conserves_entries:
  assumes "sink_step\<^sup>*\<^sup>* (start_sys 1 (new_sink name cap batch_max max_retries)) t"
  shows "length (sk_queue (ss_sink t)) \<le> sk_cap (ss_sink t) \<and>
    sk_submitted (ss_sink t) = accounted t"
  using sink_sys_reach [OF assms start_sys_inv]
  by (auto simp: sink_sys_inv_def start_sys_def)

abbreviation sys_at :: "pydict list \<Rightarrow> nat \<Rightarrow> nat \<Rightarrow> submitter list \<Rightarrow> sink_sys" where
  "sys_at q submitted dropped subs \<equiv>
     \<lparr>ss_sink = (new_sink ''file'' 1 50 3)\<lparr>sk_queue := q, sk_submitted := submitted,
        sk_dropped := dropped\<rparr>, ss_subs = subs, ss_flusher = FCollect []\<rparr>"

theorem sink_conserves_entries_witness:
  "\<exists>t. sink_step\<^sup>*\<^sup>* (start_sys 1 (new_sink ''file'' 1 50 3)) t \<and> sk_queue (ss_sink t) = [[]] \<and>
     length (sk_queue (ss_sink t)) \<le> sk_cap (ss_sink t) \<and> sk_submitted (ss_sink t) = accounted t"
proof -
  have start: "start_sys 1 (new_sink ''file'' 1 50 3) = sys_at [] 0 0 [SIdle]"
    by (simp add: start_sys_def new_sink_def)
  have 1: "sink_step (sys_at [] 0 0 [SIdle]) (sys_at [] 1 0 [SCounted []])"
    using st_submit [of 0 "sys_at [] 0 0 [SIdle]" "[]"]
    by (simp add: new_sink_def)
  have 2: "sink_step (sys_at [] 1 0 [SCounted []]) (sys_at [[]] 1 0 [SIdle])"
    using st_put [of 0 "sys_at [] 1 0 [SCounted []]" "[]"] by (simp add: new_sink_def)
  from 1 2 have reach: "sink_step\<^sup>*\<^sup>* (start_sys 1 (new_sink ''file'' 1 50 3)) (sys_at [[]] 1 0 [SIdle])"
    unfolding start by (meson r_into_rtranclp rtranclp_trans)
  with sink_conserves_entries [OF reach] show ?thesis
    by (intro exI [of _ "sys_at [[]] 1 0 [SIdle]"]) simp
qed

text \<open>With two submitting threads the accounting breaks: there is an interleaving in which the
  second \<open>put_nowait\<close> of a thread finds the queue full again, and its entry is lost without
  any counter recording it, although the comment in \<open>submit\<close> names the counted drop as the only
  place where a sink loses an entry.\<close>

theorem sink_loses_uncounted_entry:
  "\<exists>t. sink_step\<^sup>*\<^sup>* (start_sys 2 (new_sink ''file'' 1 50 3)) t \<and> ss_subs t = [SIdle, SIdle] \<and>
     accounted t < sk_submitted (ss_sink t)"
proof -
  have start: "start_sys 2 (new_sink ''file'' 1 50 3) = sys_at [] 0 0 [SIdle, SIdle]"
    by (simp add: start_sys_def new_sink_def numeral_2_eq_2)
  have 1: "sink_step (sys_at [] 0 0 [SIdle, SIdle]) (sys_at [] 1 0 [SCounted [], SIdle])"
    using st_submit [of 0 "sys_at [] 0 0 [SIdle, SIdle]" "[]"]
    by (simp add: new_sink_def)
  have 2: "sink_step (sys_at [] 1 0 [SCounted [], SIdle]) (sys_at [[]] 1 0 [SIdle, SIdle])"
    using st_put [of 0 "sys_at [] 1 0 [SCounted [], SIdle]" "[]"] by (simp add: new_sink_def)
  have 3: "sink_step (sys_at [[]] 1 0 [SIdle, SIdle]) (sys_at [[]] 2 0 [SCounted [], SIdle])"
    using st_submit [of 0 "sys_at [[]] 1 0 [SIdle, SIdle]" "[]"] by (simp add: numeral_2_eq_2 new_sink_def)
  have 4: "sink_step (sys_at [[]] 2 0 [SCounted [], SIdle]) (sys_at [[]] 2 1 [SFull [], SIdle])"
    using st_full [of 0 "sys_at [[]] 2 0 [SCounted [], SIdle]" "[]"] by (simp add: new_sink_def)
  have 5: "sink_step (sys_at [[]] 2 1 [SFull [], SIdle]) (sys_at [] 2 1 [STaken [], SIdle])"
    using st_take [of 0 "sys_at [[]] 2 1 [SFull [], SIdle]" "[]" "[]" "[]"]
    by (simp add: new_sink_def)
  have 6: "sink_step (sys_at [] 2 1 [STaken [], SIdle]) (sys_at [] 3 1 [STaken [], SCounted []])"
    using st_submit [of 1 "sys_at [] 2 1 [STaken [], SIdle]" "[]"]
    by (simp add: new_sink_def)
  have 7: "sink_step (sys_at [] 3 1 [STaken [], SCounted []]) (sys_at [[]] 3 1 [STaken [], SIdle])"
    using st_put [of 1 "sys_at [] 3 1 [STaken [], SCounted []]" "[]"] by (simp add: new_sink_def)
  have 8: "sink_step (sys_at [[]] 3 1 [STaken [], SIdle]) (sys_at [[]] 3 1 [SIdle, SIdle])"
    using st_full_again [of 0 "sys_at [[]] 3 1 [STaken [], SIdle]" "[]"] by (simp add: new_sink_def)
  from 1 2 3 4 5 6 7 8
  have "sink_step\<^sup>*\<^sup>* (sys_at [] 0 0 [SIdle, SIdle]) (sys_at [[]] 3 1 [SIdle, SIdle])"
    by (meson r_into_rtranclp rtranclp_trans)
  then show ?thesis unfolding start
    by (intro exI [of _ "sys_at [[]] 3 1 [SIdle, SIdle]"]) (simp add: accounted_def new_sink_def)
qed

end
