(* ===== verification/Audit_Chain.thy ===== *)
theory Audit_Chain
  imports Policy Audit_Sinks
begin

text \<open>
  \<open>src/audit.py\<close>: the hash-chained audit log, which mirrors its entries to the sinks of
  \<open>Audit_Sinks\<close>, and its verifier. SHA-256 in hex is the parameter \<open>H\<close>, HMAC-SHA256 the
  parameter \<open>HM\<close> (key, message). A file
  is the list of its lines as the reader sees them: blank, not JSON, or the JSON value of the
  line. Writing \<open>json.dumps(entry, sort_keys=True)\<close> and reading it back gives the entry with its
  keys sorted (\<open>jnorm\<close>).
\<close>

subsection \<open>Entries\<close>

definition GENESIS_HASH :: string where
  "GENESIS_HASH = replicate 64 (CHR ''0'')"

datatype audit_line = BlankLine | MalformedLine | JsonLine pyval

type_synonym audit_file = "audit_line list"

definition entry_hmac :: "(string \<Rightarrow> string \<Rightarrow> string) \<Rightarrow> string \<Rightarrow> pydict \<Rightarrow> string" where
  "entry_hmac HM key body = HM key (canonical_json (PDict body))"

definition entry_hash_input :: "string \<Rightarrow> pydict \<Rightarrow> string" where
  "entry_hash_input prev body = prev @ canonical_json (PDict body)"

text \<open>\<open>{k: v for k, v in entry.items() if k not in ("hash", "hmac")}\<close>.\<close>

definition entry_body :: "pydict \<Rightarrow> pydict" where
  "entry_body entry = filter (\<lambda>kv. fst kv \<noteq> ''hash'' \<and> fst kv \<noteq> ''hmac'') entry"

definition make_body :: "int \<Rightarrow> string \<Rightarrow> string \<Rightarrow> pydict \<Rightarrow> string \<Rightarrow> pydict" where
  "make_body seq timestamp event_type payload tail =
     [(''seq'', PInt seq), (''timestamp'', PStr timestamp),
      (''type'', PStr (sanitize_text event_type 64)), (''payload'', PDict payload),
      (''prev_hash'', PStr tail)]"

record audit_chain =
  ac_hmac_key :: "string option"
  ac_seq :: int
  ac_tail :: string
  ac_file :: "audit_file option"
  ac_sinks :: "audit_sink list"

definition make_entry :: "(string \<Rightarrow> string) \<Rightarrow> (string \<Rightarrow> string \<Rightarrow> string) \<Rightarrow> string \<Rightarrow> string \<Rightarrow> pydict \<Rightarrow>
    audit_chain \<Rightarrow> pydict" where
  "make_entry H HM timestamp event_type payload ac =
     (let body = make_body (ac_seq ac + 1) timestamp event_type payload (ac_tail ac);
          entry = body @ [(''hash'', PStr (H (entry_hash_input (ac_tail ac) body)))]
      in case ac_hmac_key ac of
           None \<Rightarrow> entry
         | Some key \<Rightarrow> entry @ [(''hmac'', PStr (entry_hmac HM key entry))])"

subsection \<open>Opening and appending\<close>

text \<open>\<open>_load_existing\<close>: \<open>ValueError\<close> and \<open>AttributeError\<close> of a line are logged and the line is
  skipped; a \<open>TypeError\<close> of \<open>int()\<close> is not caught. The sequence number is assigned before the
  tail hash is read, which cannot fail.\<close>

fun load_lines :: "audit_file \<Rightarrow> int \<Rightarrow> string \<Rightarrow> py_exn + (int \<times> string)" where
  "load_lines [] seq tail = Inr (seq, tail)"
| "load_lines (JsonLine (PDict entry) # ls) seq tail =
     (case py_int (dget_default entry ''seq'' (PInt (seq + 1))) of
        Inr n \<Rightarrow> load_lines ls n (py_str (dget_default entry ''hash'' (PStr tail)))
      | Inl ValueErr \<Rightarrow> load_lines ls seq tail
      | Inl e \<Rightarrow> Inl e)"
| "load_lines (_ # ls) seq tail = load_lines ls seq tail"

definition norm_key :: "string option \<Rightarrow> string option" where
  "norm_key key = (if key = Some [] then None else key)"

definition new_chain :: "string option \<Rightarrow> int \<Rightarrow> string \<Rightarrow> audit_file option \<Rightarrow> audit_sink list \<Rightarrow>
    audit_chain" where
  "new_chain key seq tail file sinks =
     \<lparr>ac_hmac_key = norm_key key, ac_seq = seq, ac_tail = tail, ac_file = file, ac_sinks = sinks\<rparr>"

definition open_chain :: "string option \<Rightarrow> audit_sink list \<Rightarrow> audit_file option \<Rightarrow>
    py_exn + audit_chain" where
  "open_chain key sinks file =
     (case file of
        None \<Rightarrow> Inr (new_chain key 0 GENESIS_HASH None sinks)
      | Some ls \<Rightarrow>
          (case load_lines ls 0 GENESIS_HASH of
             Inl e \<Rightarrow> Inl e
           | Inr (seq, tail) \<Rightarrow> Inr (new_chain key seq tail (Some ls) sinks)))"

definition add_sink :: "audit_sink \<Rightarrow> audit_chain \<Rightarrow> audit_chain" where
  "add_sink sink ac = ac\<lparr>ac_sinks := ac_sinks ac @ [sink]\<rparr>"

definition chain_append :: "(string \<Rightarrow> string) \<Rightarrow> (string \<Rightarrow> string \<Rightarrow> string) \<Rightarrow> string \<Rightarrow> string \<Rightarrow> pydict \<Rightarrow>
    audit_chain \<Rightarrow> audit_chain" where
  "chain_append H HM timestamp event_type payload ac =
     (let entry = make_entry H HM timestamp event_type payload ac;
          ls = (case ac_file ac of None \<Rightarrow> [] | Some ls \<Rightarrow> ls)
      in ac\<lparr>ac_file := Some (ls @ [JsonLine (jnorm (PDict entry))]),
            ac_seq := ac_seq ac + 1, ac_tail := py_str (dget entry ''hash''),
            ac_sinks := map (\<lambda>s. fst (sink_submit entry s)) (ac_sinks ac)\<rparr>)"

subsection \<open>Verification\<close>

definition line_error :: "nat \<Rightarrow> string \<Rightarrow> string" where
  "line_error n msg = ''line '' @ show_nat n @ '': '' @ msg"

definition hmac_errors :: "(string \<Rightarrow> string \<Rightarrow> string) \<Rightarrow> string option \<Rightarrow> nat \<Rightarrow> pydict \<Rightarrow> string list" where
  "hmac_errors HM key n entry =
     (case key of
        None \<Rightarrow> []
      | Some k \<Rightarrow>
          if k = [] then []
          else let stored = dget_default entry ''hmac'' (PStr []) in
            if \<not> truthy stored
            then [line_error n ''missing HMAC (unsigned entry in a key-protected chain)'']
            else if PStr (entry_hmac HM k (ddel ''hmac'' entry)) \<noteq> stored
            then [line_error n ''HMAC mismatch (unauthorized modification?)''] else [])"

definition link_errors :: "(string \<Rightarrow> string) \<Rightarrow> nat \<Rightarrow> pydict \<Rightarrow> string \<Rightarrow> int \<Rightarrow> int \<Rightarrow> string list" where
  "link_errors H n entry expected_prev expected_seq seq =
     (let body = entry_body entry;
          recomputed = H (entry_hash_input (py_str (dget body ''prev_hash'')) body)
      in (if dget body ''prev_hash'' \<noteq> PStr expected_prev
          then [line_error n ''broken chain linkage''] else []) @
         (if seq \<noteq> expected_seq
          then [line_error n (''sequence gap (expected '' @ show_int expected_seq @ '')'')] else []) @
         (if py_str (dget_default entry ''hash'' (PStr [])) \<noteq> recomputed
          then [line_error n ''entry hash mismatch (tampered?)''] else []))"

text \<open>The verifier's loop: line number, expected previous hash, expected sequence number, and the
  number of entries checked. A JSON line that is no object raises \<open>AttributeError\<close>, a sequence
  number that is no number raises what \<open>int()\<close> raises; neither is caught.\<close>

fun verify_lines :: "(string \<Rightarrow> string) \<Rightarrow> (string \<Rightarrow> string \<Rightarrow> string) \<Rightarrow> string option \<Rightarrow> audit_file \<Rightarrow>
    nat \<Rightarrow> string \<Rightarrow> int \<Rightarrow> int \<Rightarrow> py_exn + (string list \<times> int)" where
  "verify_lines H HM key [] n prev seq checked = Inr ([], checked)"
| "verify_lines H HM key (BlankLine # ls) n prev seq checked =
     verify_lines H HM key ls (Suc n) prev seq checked"
| "verify_lines H HM key (MalformedLine # ls) n prev seq checked =
     (case verify_lines H HM key ls (Suc n) prev seq checked of
        Inl e \<Rightarrow> Inl e
      | Inr (errs, c) \<Rightarrow> Inr (line_error n ''malformed JSON'' # errs, c))"
| "verify_lines H HM key (JsonLine v # ls) n prev seq checked =
     (case v of
        PDict entry \<Rightarrow>
          (case py_int (dget_default (entry_body entry) ''seq'' (PInt (- 1))) of
             Inl e \<Rightarrow> Inl e
           | Inr s \<Rightarrow>
               (case verify_lines H HM key ls (Suc n)
                       (py_str (dget_default entry ''hash'' (PStr []))) (seq + 1) (checked + 1) of
                  Inl e \<Rightarrow> Inl e
                | Inr (errs, c) \<Rightarrow>
                    Inr (link_errors H n entry prev seq s @ hmac_errors HM key n entry @ errs, c)))
      | _ \<Rightarrow> Inl AttributeErr)"

definition verify_audit_file :: "(string \<Rightarrow> string) \<Rightarrow> (string \<Rightarrow> string \<Rightarrow> string) \<Rightarrow> audit_file option \<Rightarrow>
    string option \<Rightarrow> py_exn + (bool \<times> string list \<times> int)" where
  "verify_audit_file H HM file key =
     (case file of
        None \<Rightarrow> Inr (False, [''audit file not found''], 0)
      | Some ls \<Rightarrow>
          (case verify_lines H HM key ls 1 GENESIS_HASH 1 0 of
             Inl e \<Rightarrow> Inl e
           | Inr (errs, c) \<Rightarrow> Inr (errs = [], errs, c)))"

definition chain_verify :: "(string \<Rightarrow> string) \<Rightarrow> (string \<Rightarrow> string \<Rightarrow> string) \<Rightarrow> string option \<Rightarrow>
    audit_chain \<Rightarrow> py_exn + (bool \<times> string list \<times> int)" where
  "chain_verify H HM key ac = verify_audit_file H HM (ac_file ac) key"

text \<open>The exit code of \<open>shugocore-verify-audit\<close>: \<open>fs\<close> gives the file at a path.\<close>

definition cli_main :: "(string \<Rightarrow> string) \<Rightarrow> (string \<Rightarrow> string \<Rightarrow> string) \<Rightarrow>
    (string \<Rightarrow> audit_file option) \<Rightarrow> string list \<Rightarrow> py_exn + int" where
  "cli_main H HM fs args =
     (if length args \<notin> {2, 4} then Inr 2
      else if args ! 0 \<noteq> ''verify'' then Inr 2
      else if length args = 4 \<and> args ! 2 \<noteq> ''--hmac-key'' then Inr 2
      else case verify_audit_file H HM (fs (args ! 1))
                  (if length args = 4 then Some (args ! 3) else None) of
             Inl e \<Rightarrow> Inl e
           | Inr (ok, errs, checked) \<Rightarrow> Inr (if ok then 0 else 1))"

subsection \<open>The chain predicate\<close>

text \<open>What a clean verification means, entry by entry.\<close>

definition entry_ok :: "(string \<Rightarrow> string) \<Rightarrow> (string \<Rightarrow> string \<Rightarrow> string) \<Rightarrow> string option \<Rightarrow> string \<Rightarrow> int \<Rightarrow>
    pydict \<Rightarrow> bool" where
  "entry_ok H HM key prev seq entry \<longleftrightarrow>
     dget (entry_body entry) ''prev_hash'' = PStr prev \<and>
     py_int (dget_default (entry_body entry) ''seq'' (PInt (- 1))) = Inr seq \<and>
     py_str (dget_default entry ''hash'' (PStr [])) = H (entry_hash_input prev (entry_body entry)) \<and>
     hmac_errors HM key 0 entry = []"

fun entries_ok :: "(string \<Rightarrow> string) \<Rightarrow> (string \<Rightarrow> string \<Rightarrow> string) \<Rightarrow> string option \<Rightarrow> string \<Rightarrow> int \<Rightarrow>
    pydict list \<Rightarrow> bool" where
  "entries_ok H HM key prev seq [] = True"
| "entries_ok H HM key prev seq (e # es) =
     (entry_ok H HM key prev seq e \<and>
      entries_ok H HM key (H (entry_hash_input prev (entry_body e))) (seq + 1) es)"

lemma hmac_errors_nil: "hmac_errors HM key n e = [] \<longleftrightarrow> hmac_errors HM key 0 e = []"
  by (auto simp: hmac_errors_def Let_def split: option.splits)

lemma link_errors_nil:
  "link_errors H n e prev seq s = [] \<longleftrightarrow>
     dget (entry_body e) ''prev_hash'' = PStr prev \<and> s = seq \<and>
     py_str (dget_default e ''hash'' (PStr [])) = H (entry_hash_input prev (entry_body e))"
  by (auto simp: link_errors_def Let_def)

abbreviation json_lines :: "pydict list \<Rightarrow> audit_file" where
  "json_lines es \<equiv> map (\<lambda>e. JsonLine (PDict e)) es"

lemma verify_lines_clean:
  "(\<exists>c. verify_lines H HM key (json_lines es) n prev seq k = Inr ([], c)) \<longleftrightarrow>
     entries_ok H HM key prev seq es"
proof (induction es arbitrary: n prev seq k)
  case Nil
  then show ?case by simp
next
  case (Cons e es)
  let ?h = "py_str (dget_default e ''hash'' (PStr []))"
  show ?case
  proof (cases "py_int (dget_default (entry_body e) ''seq'' (PInt (- 1)))")
    case (Inl a)
    then show ?thesis by (simp add: entry_ok_def)
  next
    case (Inr s)
    have "(\<exists>c. verify_lines H HM key (json_lines (e # es)) n prev seq k = Inr ([], c)) \<longleftrightarrow>
        link_errors H n e prev seq s = [] \<and> hmac_errors HM key n e = [] \<and>
        (\<exists>c. verify_lines H HM key (json_lines es) (Suc n) ?h (seq + 1) (k + 1) = Inr ([], c))"
      by (auto simp: Inr split: sum.splits)
    also have "\<dots> \<longleftrightarrow> entries_ok H HM key prev seq (e # es)"
      by (auto simp: Cons.IH link_errors_nil hmac_errors_nil [of HM key n] entry_ok_def Inr)
    finally show ?thesis .
  qed
qed

lemma verify_lines_count:
  "verify_lines H HM key (json_lines es) n prev seq k = Inr (errs, c) \<Longrightarrow> c = k + int (length es)"
proof (induction es arbitrary: n prev seq k errs c)
  case Nil
  then show ?case by simp
next
  case (Cons e es)
  from Cons.prems obtain errs' where
    "verify_lines H HM key (json_lines es) (Suc n) (py_str (dget_default e ''hash'' (PStr [])))
       (seq + 1) (k + 1) = Inr (errs', c)"
    by (auto split: sum.splits prod.splits)
  from Cons.IH [OF this] show ?case by simp
qed

lemma verify_clean_iff:
  "verify_audit_file H HM (Some (json_lines es)) key = Inr (True, [], int (length es)) \<longleftrightarrow>
     entries_ok H HM key GENESIS_HASH 1 es"
  using verify_lines_clean [of H HM key es 1 GENESIS_HASH 1 0] verify_lines_count
  by (fastforce simp: verify_audit_file_def split: sum.splits)

lemma entries_ok_append:
  "entries_ok H HM key prev seq (xs @ ys) \<longleftrightarrow>
     entries_ok H HM key prev seq xs \<and>
     entries_ok H HM key
       (fold (\<lambda>e p. H (entry_hash_input p (entry_body e))) xs prev) (seq + int (length xs)) ys"
  by (induction xs arbitrary: prev seq) (auto simp: algebra_simps)

subsection \<open>Appending keeps the chain\<close>

definition tail_hash :: "(string \<Rightarrow> string) \<Rightarrow> pydict list \<Rightarrow> string" where
  "tail_hash H es = fold (\<lambda>e p. H (entry_hash_input p (entry_body e))) es GENESIS_HASH"

text \<open>The state of a chain agrees with its file: the file verifies, and sequence number and tail
  are those of its last entry.\<close>

definition chain_good :: "(string \<Rightarrow> string) \<Rightarrow> (string \<Rightarrow> string \<Rightarrow> string) \<Rightarrow> pydict list \<Rightarrow>
    audit_chain \<Rightarrow> bool" where
  "chain_good H HM es ac \<longleftrightarrow>
     ac_file ac = (if es = [] then None else Some (json_lines es)) \<and>
     ac_hmac_key ac \<noteq> Some [] \<and>
     entries_ok H HM (ac_hmac_key ac) GENESIS_HASH 1 es \<and>
     ac_seq ac = int (length es) \<and> ac_tail ac = tail_hash H es"

lemma entry_body_dnorm: "entry_body (dnorm d) = dnorm (entry_body d)"
  unfolding entry_body_def by (rule filter_dnorm)

lemma ddel_dnorm: "ddel k (dnorm d) = dnorm (ddel k d)"
  using filter_dnorm [of "\<lambda>k'. k' \<noteq> k" d] by (simp add: ddel_def split_def)

lemma entry_body_make [simp]:
  "entry_body (make_entry H HM ts ty p ac) = make_body (ac_seq ac + 1) ts ty p (ac_tail ac)"
  by (simp add: make_entry_def make_body_def entry_body_def Let_def split: option.splits)

lemma make_entry_distinct: "distinct (map fst (make_entry H HM ts ty p ac))"
  by (simp add: make_entry_def make_body_def Let_def split: option.splits)

lemma make_entry_hash:
  "map_of (make_entry H HM ts ty p ac) ''hash'' =
     Some (PStr (H (entry_hash_input (ac_tail ac) (make_body (ac_seq ac + 1) ts ty p (ac_tail ac)))))"
  by (simp add: make_entry_def make_body_def Let_def split: option.splits)

lemma hmac_errors_made:
  assumes "ac_hmac_key ac \<noteq> Some []" and "\<And>k x. HM k x \<noteq> []"
  shows "hmac_errors HM (ac_hmac_key ac) 0 (dnorm (make_entry H HM ts ty p ac)) = []"
proof (cases "ac_hmac_key ac")
  case (Some key)
  let ?b = "make_body (ac_seq ac + 1) ts ty p (ac_tail ac)"
  let ?e = "?b @ [(''hash'', PStr (H (entry_hash_input (ac_tail ac) ?b)))]"
  from Some have made: "make_entry H HM ts ty p ac = ?e @ [(''hmac'', PStr (entry_hmac HM key ?e))]"
    by (simp add: make_entry_def Let_def)
  have "map_of (dnorm (make_entry H HM ts ty p ac)) ''hmac'' = Some (PStr (entry_hmac HM key ?e))"
    by (simp add: map_of_dnorm [OF make_entry_distinct]) (simp add: made make_body_def)
  moreover have "ddel ''hmac'' (make_entry H HM ts ty p ac) = ?e"
    by (simp add: made) (simp add: ddel_def make_body_def)
  ultimately show ?thesis
    using assms by (simp add: hmac_errors_def Some dget_default_def ddel_dnorm entry_hmac_def)
qed (simp add: hmac_errors_def)

lemma made_entry_ok:
  assumes "ac_hmac_key ac \<noteq> Some []" and "\<And>k x. HM k x \<noteq> []"
  shows "entry_ok H HM (ac_hmac_key ac) (ac_tail ac) (ac_seq ac + 1)
    (dnorm (make_entry H HM ts ty p ac))"
proof -
  let ?b = "make_body (ac_seq ac + 1) ts ty p (ac_tail ac)"
  have d: "distinct (map fst ?b)" by (simp add: make_body_def)
  have "map_of (dnorm ?b) ''prev_hash'' = Some (PStr (ac_tail ac))"
    and "map_of (dnorm ?b) ''seq'' = Some (PInt (ac_seq ac + 1))"
    by (simp_all add: map_of_dnorm [OF d]) (simp_all add: make_body_def)
  then show ?thesis
    using hmac_errors_made [of ac HM H ts ty p, OF assms]
    by (simp add: entry_ok_def entry_body_dnorm dget_def dget_default_def entry_hash_input_def
        map_of_dnorm [OF make_entry_distinct] make_entry_hash)
qed

lemma chain_append_good:
  assumes "chain_good H HM es ac" and "\<And>k x. HM k x \<noteq> []"
  shows "chain_good H HM (es @ [dnorm (make_entry H HM ts ty p ac)])
    (chain_append H HM ts ty p ac)"
proof -
  let ?e = "dnorm (make_entry H HM ts ty p ac)"
  from assms(1) have key: "ac_hmac_key ac \<noteq> Some []" and seq: "ac_seq ac = int (length es)"
    and tail: "ac_tail ac = tail_hash H es" by (auto simp: chain_good_def)
  have "entry_ok H HM (ac_hmac_key ac) (tail_hash H es) (int (length es) + 1) ?e"
    using made_entry_ok [of ac HM H ts ty p, OF key assms(2)] by (simp add: seq tail)
  then have "entries_ok H HM (ac_hmac_key ac) GENESIS_HASH 1 (es @ [?e])"
    using assms(1)
    by (simp add: entries_ok_append chain_good_def tail_hash_def add.commute)
  then show ?thesis
    using assms(1)
    by (auto simp: chain_good_def chain_append_def Let_def jnorm_PDict dget_def make_entry_hash
        tail_hash_def entry_body_dnorm entry_hash_input_def simp del: jnorm.simps)
qed

lemma appends_good:
  assumes "chain_good H HM es ac" and "\<And>k x. HM k x \<noteq> []"
  shows "\<exists>es'. length es' = length es + length evs \<and>
    chain_good H HM es' (fold (\<lambda>(ts, ty, p). chain_append H HM ts ty p) evs ac)"
  using assms(1)
proof (induction evs arbitrary: es ac)
  case Nil
  then show ?case by auto
next
  case (Cons ev evs)
  obtain ts ty p where ev: "ev = (ts, ty, p)" by (cases ev)
  from Cons.IH [OF chain_append_good [OF Cons.prems assms(2), of ts ty p]]
  show ?case by (auto simp: ev)
qed

lemma new_chain_good: "chain_good H HM [] (new_chain key 0 GENESIS_HASH None sinks)"
  by (simp add: chain_good_def new_chain_def norm_key_def tail_hash_def)

lemma hmac_errors_norm_key [simp]: "hmac_errors HM (norm_key key) = hmac_errors HM key"
  by (simp add: fun_eq_iff hmac_errors_def norm_key_def)

lemma entries_ok_norm_key [simp]: "entries_ok H HM (norm_key key) prev seq es = entries_ok H HM key prev seq es"
  by (induction es arbitrary: prev seq) (simp_all add: entry_ok_def)

lemma verify_lines_norm_key [simp]:
  "verify_lines H HM (norm_key key) ls n prev seq k = verify_lines H HM key ls n prev seq k"
  by (induction H HM key ls n prev seq k rule: verify_lines.induct)
     (simp_all split: pyval.splits sum.splits)

lemma open_chain_norm_key [simp]: "open_chain (norm_key key) sinks file = open_chain key sinks file"
proof -
  have "norm_key (norm_key key) = norm_key key" by (simp add: norm_key_def)
  then show ?thesis by (simp only: open_chain_def new_chain_def)
qed

lemma load_lines_ok:
  assumes "entries_ok H HM key prev (seq + 1) es" and "\<And>x. H x \<noteq> []" and "0 \<le> seq"
  shows "load_lines (json_lines es) seq prev =
    Inr (seq + int (length es), fold (\<lambda>e p. H (entry_hash_input p (entry_body e))) es prev)"
  using assms(1,3)
proof (induction es arbitrary: seq prev)
  case (Cons e es)
  let ?h = "H (entry_hash_input prev (entry_body e))"
  from Cons.prems have ok: "entry_ok H HM key prev (seq + 1) e" by simp
  then have "py_int (dget_default (entry_body e) ''seq'' (PInt (- 1))) = Inr (seq + 1)"
    and hash: "py_str (dget_default e ''hash'' (PStr [])) = ?h"
    by (auto simp: entry_ok_def)
  moreover have "map_of (entry_body e) ''seq'' = map_of e ''seq''"
    by (induction e) (auto simp: entry_body_def)
  ultimately have "py_int (dget_default e ''seq'' (PInt (seq + 1))) = Inr (seq + 1)"
    using Cons.prems(2) by (auto simp: dget_default_def split: option.splits)
  moreover have "py_str (dget_default e ''hash'' (PStr prev)) = ?h"
    using hash assms(2) [of "entry_hash_input prev (entry_body e)"]
    by (auto simp: dget_default_def split: option.splits)
  ultimately show ?case using Cons.IH [of ?h "seq + 1"] Cons.prems by simp
qed simp

lemma chain_goodD_verify:
  "chain_good H HM es ac \<Longrightarrow> es \<noteq> [] \<Longrightarrow>
     chain_verify H HM (ac_hmac_key ac) ac = Inr (True, [], int (length es))"
  by (simp add: chain_good_def chain_verify_def verify_clean_iff)

lemma chain_goodD_open:
  assumes "chain_good H HM es ac" and "es \<noteq> []" and "\<And>x. H x \<noteq> []"
  shows "open_chain (ac_hmac_key ac) (ac_sinks ac) (ac_file ac) = Inr ac"
  using assms load_lines_ok [of H HM "ac_hmac_key ac" GENESIS_HASH 0 es]
  by (simp add: chain_good_def open_chain_def new_chain_def norm_key_def tail_hash_def)

lemma key_appends:
  "ac_hmac_key (fold (\<lambda>(ts, ty, p). chain_append H HM ts ty p) evs ac) = ac_hmac_key ac"
  by (induction evs arbitrary: ac) (auto simp: chain_append_def Let_def)

text \<open>Every log that the agent writes verifies. Whatever events are appended to a fresh chain,
  signed or not, the verifier given the same key reports success, no error and the number
  of events; and opening the written file again restores exactly the sequence number and the
  tail hash of the running chain, so that a restarted agent continues it.\<close>

theorem audit_appends_verify:
  assumes hash: "\<And>x. length (H x) = 64" and mac: "\<And>k x. length (HM k x) = 64"
    and "evs \<noteq> []"
    and ac: "ac = fold (\<lambda>(ts, ty, p). chain_append H HM ts ty p) evs
              (new_chain key 0 GENESIS_HASH None sinks)"
  shows "chain_verify H HM key ac = Inr (True, [], int (length evs)) \<and>
    open_chain key (ac_sinks ac) (ac_file ac) = Inr ac"
proof -
  have H: "H x \<noteq> []" and HM: "HM k x \<noteq> []" for k x
    using hash [of x] mac [of k x] by auto
  have "chain_good H HM [] (new_chain key 0 GENESIS_HASH None sinks)" by (rule new_chain_good)
  from appends_good [OF this HM, where evs = evs] ac
  obtain es where es: "chain_good H HM es ac" "length es = length evs" by auto
  with assms(3) have ne: "es \<noteq> []" by auto
  have key: "ac_hmac_key ac = norm_key key" by (simp add: ac key_appends new_chain_def)
  have "chain_verify H HM key ac = chain_verify H HM (norm_key key) ac"
    by (simp add: chain_verify_def verify_audit_file_def split: option.split)
  with chain_goodD_verify [OF es(1) ne] key es(2)
  have "chain_verify H HM key ac = Inr (True, [], int (length evs))" by simp
  moreover from chain_goodD_open [OF es(1) ne H] key
  have "open_chain key (ac_sinks ac) (ac_file ac) = Inr ac"
    by simp
  ultimately show ?thesis by simp
qed

theorem audit_appends_verify_witness:
  "let H = (\<lambda>x. replicate 64 (CHR ''a'')); HM = (\<lambda>k x. replicate 64 (CHR ''b''));
       ac = chain_append H HM ''t'' ''decision'' [] (new_chain (Some ''k'') 0 GENESIS_HASH None [])
   in chain_verify H HM (Some ''k'') ac = Inr (True, [], 1)"
  using audit_appends_verify [of "\<lambda>x. replicate 64 (CHR ''a'')" "\<lambda>k x. replicate 64 (CHR ''b'')"
      "[(''t'', ''decision'', [])]" _ "Some ''k''" "[]"]
  by (simp add: Let_def)

subsection \<open>Tamper evidence\<close>

text \<open>The texts the verifier hashes for a list of entries.\<close>

definition hashed_inputs :: "pydict list \<Rightarrow> string set" where
  "hashed_inputs es =
     (\<lambda>e. entry_hash_input (py_str (dget (entry_body e) ''prev_hash'')) (entry_body e)) ` set es"

definition verified :: "(string \<Rightarrow> string) \<Rightarrow> (string \<Rightarrow> string \<Rightarrow> string) \<Rightarrow> string option \<Rightarrow> pydict list \<Rightarrow> bool" where
  "verified H HM key es \<longleftrightarrow>
     verify_audit_file H HM (Some (json_lines es)) key = Inr (True, [], int (length es))"

lemma verified_iff: "verified H HM key es \<longleftrightarrow> entries_ok H HM key GENESIS_HASH 1 es"
  by (simp add: verified_def verify_clean_iff)

lemma tail_hash_snoc: "tail_hash H (es @ [e]) = H (entry_hash_input (tail_hash H es) (entry_body e))"
  by (simp add: tail_hash_def)

lemma length_tail_hash: "(\<And>x. length (H x) = 64) \<Longrightarrow> length (tail_hash H es) = 64"
  by (cases es rule: rev_exhaust) (simp_all add: tail_hash_def GENESIS_HASH_def)

lemma entries_ok_snoc:
  "entries_ok H HM key GENESIS_HASH 1 (es @ [e]) \<longleftrightarrow>
     entries_ok H HM key GENESIS_HASH 1 es \<and>
     entry_ok H HM key (tail_hash H es) (1 + int (length es)) e"
  by (simp add: entries_ok_append tail_hash_def)

lemma hashed_inputs_snoc:
  "entry_ok H HM key prev seq e \<Longrightarrow>
     hashed_inputs (es @ [e]) = insert (entry_hash_input prev (entry_body e)) (hashed_inputs es)"
  by (simp add: hashed_inputs_def entry_ok_def)

lemma same_tail_same_bodies:
  assumes "entries_ok H HM key GENESIS_HASH 1 es" and "entries_ok H HM' key' GENESIS_HASH 1 fs"
    and "length es = length fs" and "tail_hash H es = tail_hash H fs"
    and "\<And>x. length (H x) = 64" and "inj_on H (hashed_inputs es \<union> hashed_inputs fs)"
    and "list_all (\<lambda>e. json_ok (PDict (entry_body e))) es"
    and "list_all (\<lambda>e. json_ok (PDict (entry_body e))) fs"
  shows "map (\<lambda>e. jnorm (PDict (entry_body e))) es = map (\<lambda>e. jnorm (PDict (entry_body e))) fs"
  using assms(1,2,3,4,6,7,8)
proof (induction es arbitrary: fs rule: rev_induct)
  case Nil
  then show ?case by simp
next
  case (snoc e es gs)
  then obtain f fs where gs: "gs = fs @ [f]" by (cases gs rule: rev_exhaust) auto
  note 2 = snoc [unfolded gs]
  let ?i = "entry_hash_input (tail_hash H es) (entry_body e)"
  let ?j = "entry_hash_input (tail_hash H fs) (entry_body f)"
  from 2(2,3) have oke: "entry_ok H HM key (tail_hash H es) (1 + int (length es)) e"
    and okf: "entry_ok H HM' key' (tail_hash H fs) (1 + int (length fs)) f"
    by (simp_all add: entries_ok_snoc)
  from 2(6) have inj: "inj_on H (insert ?i (insert ?j (hashed_inputs es \<union> hashed_inputs fs)))"
    by (simp add: hashed_inputs_snoc [OF oke] hashed_inputs_snoc [OF okf] insert_commute)
  from 2(5) have "H ?i = H ?j" by (simp add: tail_hash_snoc)
  with inj have "?i = ?j" by (auto dest: inj_onD)
  with length_tail_hash [OF assms(5)]
  have tail: "tail_hash H es = tail_hash H fs"
    and "canonical_json (PDict (entry_body e)) = canonical_json (PDict (entry_body f))"
    by (simp_all add: entry_hash_input_def append_eq_append_conv)
  then have "jnorm (PDict (entry_body e)) = jnorm (PDict (entry_body f))"
    using 2(7,8) by (intro canonical_json_inj) simp_all
  moreover have "map (\<lambda>e. jnorm (PDict (entry_body e))) es = map (\<lambda>e. jnorm (PDict (entry_body e))) fs"
    using 2(2-4) 2(7,8) inj
    by (intro 2(1) tail) (auto simp: entries_ok_snoc intro: inj_on_subset)
  ultimately show ?case by (simp add: gs)
qed

lemma verified_last_hash:
  assumes "entries_ok H HM key GENESIS_HASH 1 es" and "es \<noteq> []"
  shows "tail_hash H es = py_str (dget_default (last es) ''hash'' (PStr []))"
  using assms
  by (cases es rule: rev_exhaust) (auto simp: entries_ok_snoc entry_ok_def tail_hash_snoc)

text \<open>C23: Tamper evidence. If two logs of the same length both verify and end in the same stored
  hash, then their entries have the same contents, entry by entry (up to the order of
  keys), as long as SHA-256 has no collision among the texts hashed for the two. So a log whose
  last hash is known admits no modification of any entry.\<close>

theorem audit_tamper_evident:
  assumes "verified H HM key es" and "verified H HM key fs"
    and "length es = length fs" and "es \<noteq> []"
    and "dget_default (last es) ''hash'' (PStr []) = dget_default (last fs) ''hash'' (PStr [])"
    and "\<And>x. length (H x) = 64" and "inj_on H (hashed_inputs es \<union> hashed_inputs fs)"
    and "list_all (\<lambda>e. json_ok (PDict (entry_body e))) (es @ fs)"
  shows "map (\<lambda>e. jnorm (PDict (entry_body e))) es = map (\<lambda>e. jnorm (PDict (entry_body e))) fs"
proof -
  from assms(1,2) have ok: "entries_ok H HM key GENESIS_HASH 1 es" "entries_ok H HM key GENESIS_HASH 1 fs"
    by (simp_all add: verified_iff)
  from assms(3,4) have "fs \<noteq> []" by auto
  with verified_last_hash [OF ok(1) assms(4)] verified_last_hash [OF ok(2)] assms(5)
  have "tail_hash H es = tail_hash H fs" by simp
  with same_tail_same_bodies [OF ok assms(3)] assms(6,7,8) show ?thesis by simp
qed

definition sample_body :: pydict where
  "sample_body = [(''prev_hash'', PStr GENESIS_HASH), (''seq'', PInt 1)]"

definition flat_hash :: "string \<Rightarrow> string" where
  "flat_hash x = replicate 64 (CHR ''a'')"

lemma sample_verified:
  "verified flat_hash HM None [sample_body @ [(''hash'', PStr (flat_hash []))]]"
  "verified flat_hash HM None [(''hash'', PStr (flat_hash [])) # rev sample_body]"
  by (simp_all add: verified_iff entry_ok_def sample_body_def flat_hash_def dget_def
      dget_default_def entry_body_def hmac_errors_def)

theorem audit_tamper_evident_witness:
  "let e = sample_body @ [(''hash'', PStr (flat_hash []))];
       f = (''hash'', PStr (flat_hash [])) # rev sample_body
   in map (\<lambda>e. jnorm (PDict (entry_body e))) [e] = map (\<lambda>e. jnorm (PDict (entry_body e))) [f]"
  unfolding Let_def
proof (rule audit_tamper_evident [OF sample_verified])
  show "inj_on flat_hash (hashed_inputs [sample_body @ [(''hash'', PStr (flat_hash []))]] \<union>
      hashed_inputs [(''hash'', PStr (flat_hash [])) # rev sample_body])"
    by (simp add: hashed_inputs_def entry_body_def sample_body_def dget_def entry_hash_input_def
        canonical_json_def)
qed (simp_all add: sample_body_def flat_hash_def dget_default_def entry_body_def)

lemma entries_ok_seq_clash:
  "entries_ok H HM key prev seq (e # es) \<Longrightarrow> \<not> entries_ok H HM key prev' (seq + 1) (e # es')"
  by (simp add: entry_ok_def)

text \<open>Deleting entries. Taking any entry out of a verified log is found by the verifier, by
  the sequence numbers alone, unless it is the last one: every prefix of a verified log verifies,
  so that cutting off the newest entries is not found.\<close>

theorem audit_deletion:
  assumes "verified H HM key (xs @ e # ys)"
  shows "(verified H HM key (xs @ ys) \<longleftrightarrow> ys = []) \<and> verified H HM key xs"
proof -
  have xs: "entries_ok H HM key GENESIS_HASH 1 xs" using assms
    by (simp add: verified_iff entries_ok_append)
  have "\<not> verified H HM key (xs @ y # zs)" if "ys = y # zs" for y zs
    using assms that entries_ok_seq_clash [of H HM key _ "1 + int (length xs)" y zs]
    by (auto simp: verified_iff entries_ok_append entry_ok_def)
  with xs show ?thesis by (cases ys) (auto simp: verified_iff)
qed

theorem audit_deletion_witness:
  "verified flat_hash (\<lambda>k x. []) None []"
  using audit_deletion [of flat_hash "\<lambda>k x. []" None "[]" "sample_body @ [(''hash'', PStr (flat_hash []))]" "[]"]
    sample_verified(1) [of "\<lambda>k x. []"]
  by simp

text \<open>With a key, an entry without a signature is reported as an error, although the
  documentation of the verifier says that such entries are skipped.\<close>

theorem unsigned_entry_rejected:
  assumes "key \<noteq> []" and "map_of e ''hmac'' = None"
  shows "\<not> verified H HM (Some key) (xs @ e # ys)"
  using assms
  by (auto simp: verified_iff entries_ok_append entry_ok_def hmac_errors_def dget_default_def)

theorem unsigned_entry_rejected_witness:
  "\<not> verified flat_hash (\<lambda>k x. []) (Some ''k'') ([] @ [sample_body @ [(''hash'', PStr (flat_hash []))]])"
  by (rule unsigned_entry_rejected) (simp_all add: sample_body_def)

end
