(* ===== verification/Working_Memory.thy ===== *)
theory Working_Memory
  imports Audit_Chain
begin

text \<open>
  Tier 0 and Tier 1 of \<open>src/memory_system.py\<close>: the scratchpad with its token budget
  (\<open>estimate_tokens\<close> is of \<open>src/token_budget.py\<close>), and the episodic ring buffer with its
  write-ahead journal. The journal is a list of lines as in the theory of the audit log; a clock
  reading, as ISO text and as a number, is an argument of the operation that reads it.
\<close>

subsection \<open>Tier 0: the scratchpad\<close>

definition CHARS_PER_TOKEN :: int where
  "CHARS_PER_TOKEN = 4"

definition estimate_tokens :: "string \<Rightarrow> int" where
  "estimate_tokens s =
     (if s = [] then 0 else max 1 ((int (length s) + CHARS_PER_TOKEN - 1) div CHARS_PER_TOKEN))"

record scratchpad =
  sp_entries :: "(string \<times> string) list"
  sp_max_entries :: nat
  sp_max_tokens :: int
  sp_token_count :: int

definition new_scratchpad :: "int \<Rightarrow> int \<Rightarrow> scratchpad" where
  "new_scratchpad max_entries max_tokens =
     \<lparr>sp_entries = [], sp_max_entries = nat (max 1 max_entries), sp_max_tokens = max 64 max_tokens,
      sp_token_count = 0\<rparr>"

text \<open>The eviction loop of \<open>write\<close>.\<close>

fun evict_tokens :: "int \<Rightarrow> int \<Rightarrow> (string \<times> string) list \<Rightarrow> (string \<times> string) list \<times> int" where
  "evict_tokens max_tokens n [] = ([], n)"
| "evict_tokens max_tokens n (e # es) =
     (if n > max_tokens then evict_tokens max_tokens (n - estimate_tokens (snd e)) es
      else (e # es, n))"

definition sp_write :: "string \<Rightarrow> string \<Rightarrow> scratchpad \<Rightarrow> scratchpad" where
  "sp_write timestamp txt s =
     (let entry_text = sanitize_text txt 512;
          entries = push_bounded (sp_max_entries s) (timestamp, entry_text) (sp_entries s);
          n = sp_token_count s + estimate_tokens entry_text;
          (kept, n') = evict_tokens (sp_max_tokens s) n entries
      in s\<lparr>sp_entries := kept, sp_token_count := n'\<rparr>)"

definition sp_read :: "scratchpad \<Rightarrow> string list" where
  "sp_read s = map snd (sp_entries s)"

definition sp_context :: "scratchpad \<Rightarrow> string" where
  "sp_context s = join_sep '' '' (sp_read s)"

definition sp_flush :: "scratchpad \<Rightarrow> scratchpad" where
  "sp_flush s = s\<lparr>sp_entries := []\<rparr>"

definition sp_len :: "scratchpad \<Rightarrow> nat" where
  "sp_len s = length (sp_entries s)"

text \<open>The tokens the window really holds.\<close>

definition sp_tokens :: "scratchpad \<Rightarrow> int" where
  "sp_tokens s = sum_list (map (estimate_tokens \<circ> snd) (sp_entries s))"

lemma estimate_tokens_nonneg [simp]: "0 \<le> estimate_tokens s"
  by (auto simp: estimate_tokens_def max_def)

lemma sum_estimate_nonneg: "0 \<le> sum_list (map (estimate_tokens \<circ> snd) es)"
  by (rule sum_list_nonneg) auto

lemma evict_tokens_spec:
  assumes "evict_tokens m n es = (kept, n')"
  shows "suffix kept es \<and> n' - sum_list (map (estimate_tokens \<circ> snd) kept) =
           n - sum_list (map (estimate_tokens \<circ> snd) es) \<and> (kept = [] \<or> n' \<le> m)"
  using assms
proof (induction m n es rule: evict_tokens.induct)
  case (2 m n e es)
  then show ?case by (auto split: if_splits intro: suffix_ConsI)
qed auto

lemma sum_estimate_suffix:
  "suffix xs ys \<Longrightarrow>
     sum_list (map (estimate_tokens \<circ> snd) xs) \<le> sum_list (map (estimate_tokens \<circ> snd) ys)"
  using sum_estimate_nonneg by (auto simp: suffix_def)

datatype sp_op = SWrite string string | SFlush

fun sp_apply :: "sp_op \<Rightarrow> scratchpad \<Rightarrow> scratchpad" where
  "sp_apply (SWrite ts t) s = sp_write ts t s"
| "sp_apply SFlush s = sp_flush s"

text \<open>The counter never falls below the tokens held, and while anything is held it is within the
  budget.\<close>

definition sp_inv :: "scratchpad \<Rightarrow> bool" where
  "sp_inv s \<longleftrightarrow> sp_tokens s \<le> sp_token_count s \<and> (sp_entries s = [] \<or> sp_token_count s \<le> sp_max_tokens s) \<and>
     length (sp_entries s) \<le> sp_max_entries s \<and> 0 < sp_max_entries s \<and> 0 \<le> sp_max_tokens s"

lemma sp_write_inv:
  assumes "sp_inv s"
  shows "sp_inv (sp_write ts t s)"
proof -
  let ?x = "sanitize_text t 512"
  let ?es = "push_bounded (sp_max_entries s) (ts, ?x) (sp_entries s)"
  obtain kept n' where ev:
    "evict_tokens (sp_max_tokens s) (sp_token_count s + estimate_tokens ?x) ?es = (kept, n')"
    by fastforce
  from evict_tokens_spec [OF ev] have k: "suffix kept ?es" "kept = [] \<or> n' \<le> sp_max_tokens s"
    "n' - sum_list (map (estimate_tokens \<circ> snd) kept) =
     sp_token_count s + estimate_tokens ?x - sum_list (map (estimate_tokens \<circ> snd) ?es)" by auto
  have "sum_list (map (estimate_tokens \<circ> snd) ?es) \<le> sp_tokens s + estimate_tokens ?x"
    using sum_estimate_suffix [OF suffix_push_bounded [of "sp_max_entries s" "(ts, ?x)" "sp_entries s"]]
    by (simp add: sp_tokens_def)
  moreover have "length kept \<le> sp_max_entries s"
    using suffix_length_le [OF k(1)] by (simp add: length_push_bounded)
  ultimately show ?thesis
    using assms k by (auto simp: sp_inv_def sp_write_def Let_def ev sp_tokens_def)
qed

lemma sp_flush_inv: "sp_inv s \<Longrightarrow> sp_inv (sp_flush s)"
  using sum_estimate_nonneg [of "sp_entries s"] by (auto simp: sp_inv_def sp_flush_def sp_tokens_def)

interpretation spm: invariant_machine sp_apply sp_inv
proof
  show "sp_inv (sp_apply p s)" if "sp_inv s" for p s
    using that by (cases p) (simp_all add: sp_write_inv sp_flush_inv)
qed

lemma sp_inv_new: "sp_inv (new_scratchpad e t)"
  by (auto simp: sp_inv_def new_scratchpad_def sp_tokens_def max_def)

lemma sp_config_apply [simp]:
  "sp_max_tokens (sp_apply p s) = sp_max_tokens s" "sp_max_entries (sp_apply p s) = sp_max_entries s"
  by (cases p; simp add: sp_write_def sp_flush_def Let_def split: prod.splits)+

lemma sp_config_run [simp]:
  "sp_max_tokens (run_ops sp_apply ps s) = sp_max_tokens s"
  "sp_max_entries (run_ops sp_apply ps s) = sp_max_entries s"
  by (induction ps arbitrary: s) auto

text \<open>The working context stays within its budget: after any sequence of writes and flushes the
  scratchpad holds at most \<open>max_entries\<close> entries and at most \<open>max_tokens\<close> tokens.\<close>

theorem scratchpad_within_budget:
  "sp_tokens (run_ops sp_apply ps (new_scratchpad e t)) \<le> max 64 t \<and>
   length (sp_read (run_ops sp_apply ps (new_scratchpad e t))) \<le> nat (max 1 e)"
proof -
  let ?s = "run_ops sp_apply ps (new_scratchpad e t)"
  have "sp_inv ?s" by (rule spm.inv_run [OF sp_inv_new])
  then show ?thesis
    by (cases "sp_entries ?s = []") (auto simp: sp_inv_def sp_read_def sp_tokens_def new_scratchpad_def)
qed

lemma evict_all:
  "n - sum_list (map (estimate_tokens \<circ> snd) (butlast es)) > m \<Longrightarrow> es \<noteq> [] \<Longrightarrow>
     fst (evict_tokens m n es) = []"
proof (induction es arbitrary: n)
  case (Cons e es)
  have "0 \<le> sum_list (map (estimate_tokens \<circ> snd) (butlast (e # es)))" by (rule sum_estimate_nonneg)
  with Cons.prems have "n > m" by linarith
  with Cons show ?case by (cases es) auto
qed simp

text \<open>Flushing does not give the token budget back: \<open>flush\<close> clears the entries and keeps the token
  counter. After a flush, a text whose tokens exceed what the counter has left is evicted by the
  very write that adds it, although the scratchpad is empty.\<close>

theorem flush_keeps_token_count:
  assumes "sp_token_count s + estimate_tokens (sanitize_text t 512) > sp_max_tokens s"
    and "0 < sp_max_entries s"
  shows "sp_read (sp_write ts t (sp_flush s)) = []"
  using assms evict_all [where es = "[(ts, sanitize_text t 512)]" and m = "sp_max_tokens s"
      and n = "sp_token_count s + estimate_tokens (sanitize_text t 512)"]
  by (auto simp: sp_read_def sp_write_def sp_flush_def Let_def push_bounded_def split: prod.splits)

lemma sanitize_run_of_a: "n \<le> 512 \<Longrightarrow> sanitize_text (replicate n (CHR ''a'')) 512 = replicate n (CHR ''a'')"
  by (rule sanitize_text_plain) (auto simp: list_all_iff plain_char_def char_code_def)

theorem flush_keeps_token_count_witness:
  "sp_read (sp_write ''t'' (replicate 200 (CHR ''a''))
     (sp_flush (sp_write ''t'' (replicate 200 (CHR ''a'')) (new_scratchpad 256 64)))) = []"
  by (rule flush_keeps_token_count)
     (simp_all add: sp_write_def new_scratchpad_def Let_def sanitize_run_of_a estimate_tokens_def
       CHARS_PER_TOKEN_def push_bounded_def)

subsection \<open>Tier 1: episodic memory\<close>

text \<open>Events are dictionaries, since replayed ones come from the journal file. \<open>em_journal\<close> is the
  journal's content, \<open>None\<close> without a journal path. \<open>em_os_ok\<close> says whether the file system accepts
  the next writes: a failed write is logged and ignored.\<close>

type_synonym event = pydict

record episodic =
  em_events :: "event list"
  em_cap :: nat
  em_seq :: int
  em_journal :: "audit_file option"
  em_max_age_hours :: "real option"
  em_batch_in_flight :: bool
  em_os_ok :: bool

definition make_event :: "int \<Rightarrow> string \<Rightarrow> string \<Rightarrow> pydict \<Rightarrow> pydict \<Rightarrow> event" where
  "make_event seq timestamp event_type payload metadata =
     [(''seq'', PInt seq), (''timestamp'', PStr timestamp), (''type'', PStr (sanitize_text event_type 64)),
      (''payload'', PDict payload), (''metadata'', PDict metadata)]"

definition journal_line :: "event \<Rightarrow> audit_line" where
  "journal_line e = JsonLine (PDict (dnorm e))"

definition append_journal :: "event \<Rightarrow> episodic \<Rightarrow> episodic" where
  "append_journal e m =
     (case em_journal m of
        None \<Rightarrow> m
      | Some ls \<Rightarrow> if em_os_ok m then m\<lparr>em_journal := Some (ls @ [journal_line e])\<rparr> else m)"

text \<open>\<open>_replay_journal\<close>: an entry that is no object has no \<open>get\<close>, and \<open>AttributeError\<close> is not
  among the exceptions caught.\<close>

fun replay_lines :: "nat \<Rightarrow> audit_file \<Rightarrow> int \<Rightarrow> event list \<Rightarrow> py_exn + (int \<times> event list)" where
  "replay_lines cap [] seq events = Inr (seq, events)"
| "replay_lines cap (JsonLine (PDict e) # ls) seq events =
     (case py_int (dget_default e ''seq'' (PInt 0)) of
        Inl _ \<Rightarrow> replay_lines cap ls seq events
      | Inr n \<Rightarrow> if n > seq then replay_lines cap ls n (push_bounded cap e events)
                  else replay_lines cap ls seq events)"
| "replay_lines cap (JsonLine v # ls) seq events = Inl AttributeErr"
| "replay_lines cap (_ # ls) seq events = replay_lines cap ls seq events"

definition open_episodic :: "int \<Rightarrow> audit_file option \<Rightarrow> real option \<Rightarrow> py_exn + episodic" where
  "open_episodic max_events journal max_age_hours =
     (let cap = nat (max 1 max_events);
          m = \<lparr>em_events = [], em_cap = cap, em_seq = 0, em_journal = journal,
               em_max_age_hours = max_age_hours, em_batch_in_flight = False, em_os_ok = True\<rparr>
      in case journal of
           None \<Rightarrow> Inr m
         | Some ls \<Rightarrow> (case replay_lines cap ls 0 [] of
                          Inl e \<Rightarrow> Inl e
                        | Inr (seq, events) \<Rightarrow> Inr (m\<lparr>em_seq := seq, em_events := events\<rparr>)))"

text \<open>\<open>fromiso\<close> reads an ISO timestamp; an event without one raises \<open>KeyError\<close>, which is not caught.\<close>

fun evict_old :: "(string \<Rightarrow> real option) \<Rightarrow> real \<Rightarrow> event list \<Rightarrow> event list \<times> (py_exn + unit)" where
  "evict_old fromiso cutoff [] = ([], Inr ())"
| "evict_old fromiso cutoff (e # es) =
     (case map_of e ''timestamp'' of
        None \<Rightarrow> (e # es, Inl KeyErr)
      | Some (PStr t) \<Rightarrow>
          (case fromiso t of
             None \<Rightarrow> (e # es, Inr ())
           | Some ts \<Rightarrow> if ts \<ge> cutoff then (e # es, Inr ()) else evict_old fromiso cutoff es)
      | Some _ \<Rightarrow> (e # es, Inr ()))"

definition evict_by_age :: "(string \<Rightarrow> real option) \<Rightarrow> real \<Rightarrow> episodic \<Rightarrow> episodic \<times> (py_exn + unit)" where
  "evict_by_age fromiso now m =
     (case em_max_age_hours m of
        None \<Rightarrow> (m, Inr ())
      | Some h \<Rightarrow> (let (es, r) = evict_old fromiso (now - h * 3600) (em_events m)
                    in (m\<lparr>em_events := es\<rparr>, r)))"

text \<open>Storing an event: journal first, then the ring, then the age window.\<close>

definition store_event :: "(string \<Rightarrow> real option) \<Rightarrow> real \<Rightarrow> event \<Rightarrow> episodic \<Rightarrow> episodic \<times> (py_exn + unit)" where
  "store_event fromiso now e m0 =
     (let m = append_journal e m0
      in evict_by_age fromiso now (m\<lparr>em_events := push_bounded (em_cap m) e (em_events m)\<rparr>))"

definition em_record :: "(string \<Rightarrow> real option) \<Rightarrow> real \<Rightarrow> string \<Rightarrow> string \<Rightarrow> pydict \<Rightarrow> pydict \<Rightarrow>
    (episodic, py_exn, event) sx" where
  "em_record fromiso now timestamp event_type payload metadata m0 =
     (let m = m0\<lparr>em_seq := em_seq m0 + 1\<rparr>;
          e = make_event (em_seq m) timestamp event_type payload metadata
      in case store_event fromiso now e m of
           (m', Inl x) \<Rightarrow> (m', Inl x)
         | (m', Inr _) \<Rightarrow> (m', Inr e))"

text \<open>\<open>events[-n:] if n else events\<close>; a negative \<open>n\<close> drops events from the front.\<close>

definition em_recent :: "int option \<Rightarrow> episodic \<Rightarrow> event list" where
  "em_recent n m =
     (case n of None \<Rightarrow> em_events m
      | Some k \<Rightarrow> if k = 0 then em_events m
                   else if k > 0 then drop (length (em_events m) - nat k) (em_events m)
                   else drop (nat (- k)) (em_events m))"

definition em_compact :: "episodic \<Rightarrow> episodic" where
  "em_compact m =
     (case em_journal m of
        None \<Rightarrow> m
      | Some _ \<Rightarrow> if em_os_ok m then m\<lparr>em_journal := Some (map journal_line (em_events m))\<rparr> else m)"

definition em_drain :: "episodic \<Rightarrow> episodic \<times> event list" where
  "em_drain m0 =
     (let m = (if em_journal m0 \<noteq> None \<and> \<not> em_batch_in_flight m0 then em_compact m0 else m0);
          events = em_events m
      in (m\<lparr>em_events := [], em_batch_in_flight := (events \<noteq> [] \<and> em_journal m \<noteq> None)\<rparr>, events))"

definition em_mark_consolidated :: "episodic \<Rightarrow> episodic" where
  "em_mark_consolidated m =
     (let m' = m\<lparr>em_batch_in_flight := False\<rparr> in if em_journal m' \<noteq> None then em_compact m' else m')"

definition event_type_of :: "event \<Rightarrow> py_exn + pyval" where
  "event_type_of e = (case map_of e ''type'' of None \<Rightarrow> Inl KeyErr | Some v \<Rightarrow> Inr v)"

subsection \<open>The ring is a bounded buffer\<close>

lemma append_journal_frame [simp]:
  "em_events (append_journal e m) = em_events m" "em_cap (append_journal e m) = em_cap m"
  "em_seq (append_journal e m) = em_seq m" "em_max_age_hours (append_journal e m) = em_max_age_hours m"
  "em_batch_in_flight (append_journal e m) = em_batch_in_flight m" "em_os_ok (append_journal e m) = em_os_ok m"
  by (simp_all add: append_journal_def split: option.splits)

lemma evict_old_suffix: "suffix (fst (evict_old fromiso c es)) es"
  by (induction es) (auto split: option.splits pyval.splits intro: suffix_ConsI)

lemma evict_by_age_suffix:
  "suffix (em_events (fst (evict_by_age fromiso now m))) (em_events m)"
  "em_cap (fst (evict_by_age fromiso now m)) = em_cap m"
  using evict_old_suffix [of fromiso _ "em_events m"]
  by (auto simp: evict_by_age_def Let_def split: option.splits prod.splits)
     (metis fst_conv)

interpretation ring: bounded_fifo em_events em_cap "\<lambda>e m. fst (store_event fromiso now e m)" for fromiso now
proof
  fix e :: event and m :: episodic
  show "em_cap (fst (store_event fromiso now e m)) = em_cap m"
    by (simp add: store_event_def Let_def evict_by_age_suffix)
  let ?m = "append_journal e m\<lparr>em_events := push_bounded (em_cap m) e (em_events m)\<rparr>"
  have suf: "suffix (em_events (fst (store_event fromiso now e m))) (push_bounded (em_cap m) e (em_events m))"
    using evict_by_age_suffix(1) [of fromiso now ?m] by (simp add: store_event_def Let_def)
  from suf suffix_push_bounded [of "em_cap m" e "em_events m"]
  show "suffix (em_events (fst (store_event fromiso now e m))) (em_events m @ [e])"
    by (rule suffix_order.trans)
  from suffix_length_le [OF suf]
  show "length (em_events (fst (store_event fromiso now e m))) \<le> em_cap m"
    by (simp add: length_push_bounded)
qed

subsection \<open>Crash recovery\<close>

text \<open>Events numbered upwards, above \<open>lo\<close> and up to \<open>hi\<close>.\<close>

definition event_at :: "int \<Rightarrow> event \<Rightarrow> bool" where
  "event_at n e \<longleftrightarrow> distinct (map fst e) \<and> map_of e ''seq'' = Some (PInt n)"

fun numbered :: "int \<Rightarrow> int \<Rightarrow> event list \<Rightarrow> bool" where
  "numbered lo hi [] = (lo \<le> hi)"
| "numbered lo hi (e # es) = (\<exists>n. event_at n e \<and> lo < n \<and> numbered n hi es)"

lemma event_at_make: "event_at n (make_event n ts ty p md)"
  by (simp add: event_at_def make_event_def)

lemma numbered_snoc:
  "numbered lo hi es \<Longrightarrow> event_at n e \<Longrightarrow> hi < n \<Longrightarrow> numbered lo n (es @ [e])"
  by (induction es arbitrary: lo) force+

lemma replay_numbered:
  "numbered lo hi es \<Longrightarrow> length acc + length es \<le> cap \<Longrightarrow>
     \<exists>seq. replay_lines cap (map journal_line es) lo acc = Inr (seq, acc @ map dnorm es)"
proof (induction es arbitrary: lo acc)
  case (Cons e es)
  then obtain n where n: "event_at n e" "lo < n" "numbered n hi es" by auto
  from n(1) have "py_int (dget_default (dnorm e) ''seq'' (PInt 0)) = Inr n"
    by (simp add: event_at_def dget_default_def map_of_dnorm)
  moreover have "push_bounded cap (dnorm e) acc = acc @ [dnorm e]"
    using Cons.prems(2) by (simp add: push_bounded_room)
  moreover obtain seq where
    "replay_lines cap (map journal_line es) n (acc @ [dnorm e]) = Inr (seq, (acc @ [dnorm e]) @ map dnorm es)"
    using Cons.IH [OF n(3), of "acc @ [dnorm e]"] Cons.prems(2) by auto
  ultimately show ?case using n(2) by (simp add: journal_line_def [of e])
qed simp

text \<open>The journal holds exactly the batch in flight and the ring.\<close>

definition journal_holds :: "event list \<Rightarrow> episodic \<Rightarrow> bool" where
  "journal_holds batch m \<longleftrightarrow> em_os_ok m \<and> em_max_age_hours m = None \<and>
     em_journal m = Some (map journal_line (batch @ em_events m)) \<and>
     numbered 0 (em_seq m) (batch @ em_events m)"

lemma record_holds:
  assumes "journal_holds batch m" and "length (em_events m) < em_cap m"
    and "m' = fst (em_record fromiso now ts ty p md m)"
  shows "journal_holds batch m' \<and> length (em_events m') = Suc (length (em_events m)) \<and> em_cap m' = em_cap m"
proof -
  let ?e = "make_event (em_seq m + 1) ts ty p md"
  have m': "m' = m\<lparr>em_seq := em_seq m + 1, em_events := em_events m @ [?e],
      em_journal := Some (map journal_line (batch @ em_events m) @ [journal_line ?e])\<rparr>"
    using assms
    by (simp add: em_record_def store_event_def evict_by_age_def append_journal_def Let_def
        journal_holds_def push_bounded_room)
  from assms(1) have "numbered 0 (em_seq m + 1) ((batch @ em_events m) @ [?e])"
    by (intro numbered_snoc [OF _ event_at_make]) (auto simp: journal_holds_def)
  with assms(1) show ?thesis by (simp add: m' journal_holds_def)
qed

definition record_all :: "(string \<Rightarrow> real option) \<Rightarrow> real \<Rightarrow> (string \<times> string \<times> pydict) list \<Rightarrow> episodic \<Rightarrow> episodic" where
  "record_all fromiso now rs m =
     fold (\<lambda>(ts, ty, p) m. fst (em_record fromiso now ts ty p [] m)) rs m"

lemma record_all_holds:
  assumes "journal_holds batch m" and "length (em_events m) + length rs \<le> em_cap m"
  shows "journal_holds batch (record_all fromiso now rs m) \<and>
    length (em_events (record_all fromiso now rs m)) = length (em_events m) + length rs"
  using assms
proof (induction rs arbitrary: m)
  case Nil
  then show ?case by (simp add: record_all_def)
next
  case (Cons r rs)
  obtain ts ty p where r: "r = (ts, ty, p)" by (cases r)
  let ?m = "fst (em_record fromiso now ts ty p [] m)"
  from record_holds [OF Cons.prems(1) _ refl] Cons.prems(2)
  have "journal_holds batch ?m" "length (em_events ?m) = Suc (length (em_events m))" "em_cap ?m = em_cap m"
    by auto
  with Cons.IH [of ?m] Cons.prems(2) show ?case by (simp add: record_all_def r)
qed


definition journaled :: episodic where
  "journaled = \<lparr>em_events = [], em_cap = 10, em_seq = 0, em_journal = Some [], em_max_age_hours = None,
     em_batch_in_flight = False, em_os_ok = True\<rparr>"


text \<open>A batch whose consolidation failed is lost by the next pass that succeeds. Draining a
  batch, failing to store it, then draining and acknowledging once more compacts the journal to
  the ring: reopening it finds nothing of the batch, although the documentation promises that an
  unacknowledged batch is replayed on the next start.\<close>

theorem failed_batch_is_lost:
  assumes "em_journal m \<noteq> None" and "em_os_ok m"
    and "em_drain m = (m1, batch)" and "em_drain m1 = (m2, batch2)"
  shows "\<exists>m3. open_episodic (int (em_cap m)) (em_journal (em_mark_consolidated m2)) None = Inr m3 \<and>
    em_events m3 = []"
proof -
  from assms have "em_journal m2 \<noteq> None" "em_os_ok m2" "em_events m2 = []"
    by (auto simp: em_drain_def em_compact_def Let_def split: if_splits option.splits)
  then have "em_journal (em_mark_consolidated m2) = Some []"
    by (auto simp: em_mark_consolidated_def em_compact_def Let_def)
  then show ?thesis by (simp add: open_episodic_def Let_def)
qed

theorem failed_batch_is_lost_witness:
  "\<exists>m batch. snd (em_drain m) = batch \<and> batch \<noteq> [] \<and> (\<exists>m3.
     open_episodic 10 (em_journal (em_mark_consolidated (fst (em_drain (fst (em_drain m)))))) None = Inr m3 \<and>
     em_events m3 = [])"
proof -
  let ?m = "journaled\<lparr>em_events := [make_event 1 ''t'' ''tick'' [] []]\<rparr>"
  have "snd (em_drain ?m) \<noteq> []" by (simp add: em_drain_def Let_def em_compact_def journaled_def)
  with failed_batch_is_lost [of ?m "fst (em_drain ?m)" "snd (em_drain ?m)"
      "fst (em_drain (fst (em_drain ?m)))" "snd (em_drain (fst (em_drain ?m)))"]
  show ?thesis by (intro exI [of _ ?m]) (auto simp: journaled_def)
qed

end
