(* ===== verification/Semantic_Memory.thy ===== *)
theory Semantic_Memory
  imports Working_Memory
begin

text \<open>
  Tier 2 of \<open>src/memory_system.py\<close>: the facts table with its embeddings, the entity graph, search,
  reinforcement, decay and pruning. The three SQLite tables are lists of rows in insertion order
  with their \<open>AUTOINCREMENT\<close> counters. Parameters are SHA-256 as a number (\<open>se_digest\<close>), the
  matches of the entity patterns of the \<open>re\<close> module (\<open>se_finditer i s\<close>: group 1 of the matches
  of pattern \<open>i\<close> in \<open>s\<close>) and the reader of ISO timestamps.
\<close>

subsection \<open>Tables\<close>

record fact =
  f_id :: int
  f_content :: string
  f_kind :: string
  f_salience :: real
  f_access_count :: int
  f_created_at :: string
  f_last_accessed :: string
  f_embedding :: "real list"
  f_metadata :: pydict

record entity =
  en_id :: int
  en_name :: string
  en_mentions :: int
  en_created_at :: string

record semantic =
  sm_dimension :: nat
  sm_facts :: "fact list"
  sm_next_fact :: int
  sm_entities :: "entity list"
  sm_next_entity :: int
  sm_links :: "(int \<times> int) list"

record sem_env =
  se_digest :: "string \<Rightarrow> nat"
  se_finditer :: "nat \<Rightarrow> string \<Rightarrow> string list"

definition new_semantic :: "int \<Rightarrow> semantic" where
  "new_semantic dimension =
     \<lparr>sm_dimension = nat (max 16 dimension), sm_facts = [], sm_next_fact = 1, sm_entities = [],
      sm_next_entity = 1, sm_links = []\<rparr>"

subsection \<open>Embeddings\<close>

definition token_char :: "char \<Rightarrow> bool" where
  "token_char c = (let n = char_code c in (97 \<le> n \<and> n \<le> 122) \<or> (48 \<le> n \<and> n \<le> 57))"

text \<open>The maximal runs of characters with a property: \<open>re.findall\<close> of a repeated class.\<close>

function runs :: "('a \<Rightarrow> bool) \<Rightarrow> 'a list \<Rightarrow> 'a list list" where
  "runs P [] = []"
| "runs P (c # s) = (if P c then (c # takeWhile P s) # runs P (dropWhile P s) else runs P s)"
  by pat_completeness auto
termination
  by (relation "measure (length \<circ> snd)") (auto simp: length_dropWhile_le le_imp_less_Suc)

definition tokenize :: "string \<Rightarrow> string list" where
  "tokenize s = runs token_char (py_lower s)"

definition add_token :: "sem_env \<Rightarrow> nat \<Rightarrow> string \<Rightarrow> real list \<Rightarrow> real list" where
  "add_token env dimension token v =
     (let digest = se_digest env token;
          index = digest mod dimension;
          sign = (if digest div 2 ^ 128 mod 2 = 1 then 1 else - 1)
      in v[index := v ! index + sign])"

definition embed :: "sem_env \<Rightarrow> nat \<Rightarrow> string \<Rightarrow> real list" where
  "embed env dimension s =
     (let v = fold (add_token env dimension) (tokenize s) (replicate dimension 0);
          norm = sqrt (sum_list (map (\<lambda>x. x * x) v))
      in if norm > 0 then map (\<lambda>x. x / norm) v else v)"

definition cosine :: "real list \<Rightarrow> real list \<Rightarrow> real" where
  "cosine a b = sum_list (map (\<lambda>(x, y). x * y) (zip a b))"

subsection \<open>The entity graph\<close>

definition ENTITY_STOPWORDS :: "string list" where
  "ENTITY_STOPWORDS = [''the'', ''this'', ''that'', ''event'', ''summary'', ''task'', ''failure'',
     ''success'', ''error'', ''pattern'', ''update'', ''critical'']"

fun collect_names :: "nat \<Rightarrow> string list \<Rightarrow> string list \<Rightarrow> string list" where
  "collect_names limit [] names = names"
| "collect_names limit (m # ms) names =
     (let name = py_lower (py_strip (sanitize_text m 64)) in
      if length name < 3 \<or> name \<in> set names \<or> name \<in> set ENTITY_STOPWORDS
      then collect_names limit ms names
      else if length (names @ [name]) \<ge> limit then names @ [name]
      else collect_names limit ms (names @ [name]))"

definition extract_entities :: "sem_env \<Rightarrow> string \<Rightarrow> nat \<Rightarrow> string list" where
  "extract_entities env s limit =
     collect_names limit (concat (map (\<lambda>i. se_finditer env i s) [0, 1, 2, 3, 4])) []"

text \<open>\<open>SELECT id FROM entities WHERE name = ?\<close>; names are unique.\<close>

definition entity_id_of :: "string \<Rightarrow> semantic \<Rightarrow> int option" where
  "entity_id_of name sm = map_option en_id (find (\<lambda>e. en_name e = name) (sm_entities sm))"

definition insert_or_ignore :: "'a \<Rightarrow> 'a list \<Rightarrow> 'a list" where
  "insert_or_ignore x xs = (if x \<in> set xs then xs else xs @ [x])"

definition link_entity :: "string \<Rightarrow> int \<Rightarrow> string \<Rightarrow> semantic \<Rightarrow> semantic" where
  "link_entity now fact_id name sm =
     (case entity_id_of name sm of
        Some eid \<Rightarrow>
          sm\<lparr>sm_entities := map (\<lambda>e. if en_id e = eid then e\<lparr>en_mentions := en_mentions e + 1\<rparr> else e)
               (sm_entities sm),
             sm_links := insert_or_ignore (fact_id, eid) (sm_links sm)\<rparr>
      | None \<Rightarrow>
          (let eid = sm_next_entity sm in
           sm\<lparr>sm_entities := sm_entities sm @
                [\<lparr>en_id = eid, en_name = name, en_mentions = 1, en_created_at = now\<rparr>],
              sm_next_entity := eid + 1,
              sm_links := insert_or_ignore (fact_id, eid) (sm_links sm)\<rparr>))"

text \<open>The explicit form: names of fewer than two characters are skipped; the number of links made
  is returned.\<close>

definition link_entities :: "string \<Rightarrow> int \<Rightarrow> string list \<Rightarrow> semantic \<Rightarrow> semantic \<times> int" where
  "link_entities now fact_id raws sm =
     (let names = filter (\<lambda>n. length n \<ge> 2) (map (\<lambda>r. py_lower (py_strip (sanitize_text r 64))) raws)
      in (fold (link_entity now fact_id) names sm, int (length names)))"

definition facts_about :: "string \<Rightarrow> int \<Rightarrow> semantic \<Rightarrow> fact list" where
  "facts_about entity_name limit sm =
     (let name = py_lower (sanitize_text entity_name 64);
          linked = filter (\<lambda>f. \<exists>e\<in>set (sm_entities sm). en_name e = name \<and> (f_id f, en_id e) \<in> set (sm_links sm))
                     (sm_facts sm)
      in take (nat (max 1 limit)) (sort_key (\<lambda>f. - f_salience f) (sort_key (\<lambda>f. - f_id f) linked)))"

subsection \<open>Facts\<close>

fun json_roundtrip :: "pyval \<Rightarrow> pyval" where
  "json_roundtrip (PList xs) = PList (map json_roundtrip xs)"
| "json_roundtrip (PTuple xs) = PList (map json_roundtrip xs)"
| "json_roundtrip (PDict d) = PDict (map (\<lambda>kv. (fst kv, json_roundtrip (snd kv))) d)"
| "json_roundtrip v = v"

definition fact_row :: "sem_env \<Rightarrow> nat \<Rightarrow> int \<Rightarrow> string \<Rightarrow> string \<Rightarrow> string \<Rightarrow> real \<Rightarrow> pydict \<Rightarrow> fact" where
  "fact_row env dimension fid now content kind salience metadata =
     \<lparr>f_id = fid, f_content = content, f_kind = kind, f_salience = salience, f_access_count = 0,
      f_created_at = now, f_last_accessed = now, f_embedding = embed env dimension content,
      f_metadata = as_dict (json_roundtrip (PDict metadata))\<rparr>"

lemma fact_row_fields [simp]:
  "f_id (fact_row env d i now c k s md) = i" "f_content (fact_row env d i now c k s md) = c"
  "f_salience (fact_row env d i now c k s md) = s" "f_access_count (fact_row env d i now c k s md) = 0"
  by (simp_all add: fact_row_def)

definition store_fact :: "sem_env \<Rightarrow> string \<Rightarrow> string \<Rightarrow> string \<Rightarrow> real \<Rightarrow> pydict \<Rightarrow> semantic \<Rightarrow> semantic \<times> int" where
  "store_fact env now content0 kind0 salience metadata sm =
     (let content = sanitize_text content0 2000;
          kind = (let k = sanitize_text kind0 32 in if k = [] then ''fact'' else k);
          fid = sm_next_fact sm;
          row = fact_row env (sm_dimension sm) fid now content kind salience metadata;
          sm1 = sm\<lparr>sm_facts := sm_facts sm @ [row], sm_next_fact := fid + 1\<rparr>
      in (fold (link_entity now fid) (extract_entities env content 8) sm1, fid))"

definition get_fact :: "int \<Rightarrow> semantic \<Rightarrow> fact option" where
  "get_fact fact_id sm = find (\<lambda>f. f_id f = fact_id) (sm_facts sm)"

definition facts_by_kind :: "string \<Rightarrow> semantic \<Rightarrow> fact list" where
  "facts_by_kind kind sm = sort_key (\<lambda>f. - f_id f) (filter (\<lambda>f. f_kind f = kind) (sm_facts sm))"

definition fact_count :: "semantic \<Rightarrow> int" where
  "fact_count sm = int (length (sm_facts sm))"

definition content_exists :: "string \<Rightarrow> semantic \<Rightarrow> bool" where
  "content_exists content sm = list_ex (\<lambda>f. f_content f = sanitize_text content 2000) (sm_facts sm)"

definition facts_since :: "string option \<Rightarrow> int \<Rightarrow> semantic \<Rightarrow> fact list" where
  "facts_since since limit sm =
     (let capped = max 1 (min limit 1000);
          rows = (case since of
                    None \<Rightarrow> sm_facts sm
                  | Some t \<Rightarrow> if t = [] then sm_facts sm else filter (\<lambda>f. f_created_at f > t) (sm_facts sm))
      in take (nat capped) (sort_key f_created_at (sort_key f_id rows)))"

definition candidates_for_promotion :: "real \<Rightarrow> int \<Rightarrow> int \<Rightarrow> semantic \<Rightarrow> fact list" where
  "candidates_for_promotion min_salience min_access_count limit sm =
     take (nat (max 0 limit))
       (sort_key (\<lambda>f. - f_salience f) (sort_key (\<lambda>f. - f_access_count f)
         (filter (\<lambda>f. f_salience f \<ge> min_salience \<and> f_access_count f \<ge> min_access_count) (sm_facts sm))))"

subsection \<open>Reinforcement, decay, pruning, search\<close>

definition update_fact :: "int \<Rightarrow> (fact \<Rightarrow> fact) \<Rightarrow> semantic \<Rightarrow> semantic" where
  "update_fact fact_id g sm =
     sm\<lparr>sm_facts := map (\<lambda>f. if f_id f = fact_id then g f else f) (sm_facts sm)\<rparr>"

definition reinforce :: "string \<Rightarrow> int \<Rightarrow> real \<Rightarrow> real \<Rightarrow> semantic \<Rightarrow> semantic" where
  "reinforce now fact_id boost cap sm =
     (case get_fact fact_id sm of
        None \<Rightarrow> sm
      | Some r \<Rightarrow> update_fact fact_id (\<lambda>f. f\<lparr>f_salience := min cap (f_salience r + boost),
                     f_access_count := f_access_count r + 1, f_last_accessed := now\<rparr>) sm)"

text \<open>The salience a fact has after one decay pass, \<open>None\<close> when the pass leaves its row alone.\<close>

definition decayed_salience :: "(string \<Rightarrow> real option) \<Rightarrow> real \<Rightarrow> real \<Rightarrow> fact \<Rightarrow> real option" where
  "decayed_salience fromiso now half_life f =
     (case fromiso (f_last_accessed f) of
        None \<Rightarrow> None
      | Some accessed \<Rightarrow>
          (let hours = max 0 ((now - accessed) / 3600);
               new = f_salience f * (1/2) powr (hours / half_life)
           in if hours \<le> 0 then None
              else if \<bar>new - f_salience f\<bar> > 1 / 10 ^ 9 then Some new else None))"

definition decay_fact :: "(string \<Rightarrow> real option) \<Rightarrow> real \<Rightarrow> real \<Rightarrow> fact \<Rightarrow> fact" where
  "decay_fact fromiso now half_life f =
     (case decayed_salience fromiso now half_life f of None \<Rightarrow> f | Some s \<Rightarrow> f\<lparr>f_salience := s\<rparr>)"

definition decay :: "(string \<Rightarrow> real option) \<Rightarrow> real \<Rightarrow> real \<Rightarrow> semantic \<Rightarrow> semantic \<times> int" where
  "decay fromiso now half_life_hours sm =
     (let half_life = (if half_life_hours \<le> 0 then 1 / 10 ^ 9 else half_life_hours)
      in (sm\<lparr>sm_facts := map (decay_fact fromiso now half_life) (sm_facts sm)\<rparr>,
          int (length (filter (\<lambda>f. decayed_salience fromiso now half_life f \<noteq> None) (sm_facts sm)))))"

definition prune :: "real \<Rightarrow> semantic \<Rightarrow> semantic \<times> int" where
  "prune min_salience sm =
     (sm\<lparr>sm_facts := filter (\<lambda>f. \<not> f_salience f < min_salience) (sm_facts sm)\<rparr>,
      int (length (filter (\<lambda>f. f_salience f < min_salience) (sm_facts sm))))"

definition search_impl :: "sem_env \<Rightarrow> string \<Rightarrow> string \<Rightarrow> int \<Rightarrow> real \<Rightarrow> bool \<Rightarrow> semantic \<Rightarrow>
    semantic \<times> (real \<times> fact) list" where
  "search_impl env now query top_k min_salience do_reinforce sm =
     (let q = embed env (sm_dimension sm) query;
          scored = filter (\<lambda>p. fst p > 0)
                     (map (\<lambda>f. (cosine q (f_embedding f), f))
                       (filter (\<lambda>f. \<not> f_salience f < min_salience) (sm_facts sm)));
          hits = take (nat (max 0 top_k)) (sort_key (\<lambda>p. - fst p) scored)
      in (if do_reinforce then fold (\<lambda>p. reinforce now (f_id (snd p)) (1/4) 10) hits sm else sm, hits))"

subsection \<open>The table invariant\<close>

text \<open>Fact ids are distinct and below the counter; so are entity ids; entity names are distinct; a
  link is stored once and points to an entity that exists.\<close>

definition sem_inv :: "semantic \<Rightarrow> bool" where
  "sem_inv sm \<longleftrightarrow>
     distinct (map f_id (sm_facts sm)) \<and> (\<forall>f\<in>set (sm_facts sm). f_id f < sm_next_fact sm) \<and>
     distinct (map en_id (sm_entities sm)) \<and> (\<forall>e\<in>set (sm_entities sm). en_id e < sm_next_entity sm) \<and>
     distinct (map en_name (sm_entities sm)) \<and>
     distinct (sm_links sm) \<and> (\<forall>l\<in>set (sm_links sm). snd l \<in> en_id ` set (sm_entities sm))"

lemma entity_id_of_Some:
  "entity_id_of name sm = Some eid \<Longrightarrow> \<exists>e\<in>set (sm_entities sm). en_name e = name \<and> en_id e = eid"
  by (auto simp: entity_id_of_def find_Some_iff)

lemma entity_id_of_None:
  "entity_id_of name sm = None \<Longrightarrow> name \<notin> en_name ` set (sm_entities sm)"
  by (auto simp: entity_id_of_def find_None_iff)

lemma set_insert_or_ignore [simp]: "set (insert_or_ignore x xs) = insert x (set xs)"
  by (auto simp: insert_or_ignore_def)

lemma distinct_insert_or_ignore [simp]: "distinct xs \<Longrightarrow> distinct (insert_or_ignore x xs)"
  by (simp add: insert_or_ignore_def)

lemma map_mention [simp]:
  "map en_id (map (\<lambda>e. if P e then e\<lparr>en_mentions := g e\<rparr> else e) es) = map en_id es"
  "map en_name (map (\<lambda>e. if P e then e\<lparr>en_mentions := g e\<rparr> else e) es) = map en_name es"
  by (simp_all add: comp_def cong: map_cong)

lemma map_image_eq: "map g xs = map g ys \<Longrightarrow> g ` set xs = g ` set ys"
  by (metis list.set_map)

lemma link_entity_inv:
  assumes "sem_inv sm"
  shows "sem_inv (link_entity now fid name sm)"
proof (cases "entity_id_of name sm")
  case None
  with entity_id_of_None [OF None] assms show ?thesis
    by (fastforce simp: sem_inv_def link_entity_def Let_def)
next
  case (Some eid)
  let ?es = "map (\<lambda>e. if en_id e = eid then e\<lparr>en_mentions := en_mentions e + 1\<rparr> else e) (sm_entities sm)"
  from entity_id_of_Some [OF Some] have "eid \<in> en_id ` set (sm_entities sm)" by auto
  moreover have "en_id ` set ?es = en_id ` set (sm_entities sm)" by (rule map_image_eq) (rule map_mention)
  ultimately show ?thesis
    using assms map_mention(1) [of "\<lambda>e. en_id e = eid" _ "sm_entities sm"]
      map_mention(2) [of "\<lambda>e. en_id e = eid" _ "sm_entities sm"]
    unfolding sem_inv_def link_entity_def Some option.case
    by (auto simp del: map_map map_mention)
qed

lemma link_entity_frame [simp]:
  "sm_facts (link_entity now fid name sm) = sm_facts sm"
  "sm_next_fact (link_entity now fid name sm) = sm_next_fact sm"
  "sm_dimension (link_entity now fid name sm) = sm_dimension sm"
  by (simp_all add: link_entity_def Let_def split: option.splits)

lemma link_entity_fold [simp]:
  "sm_facts (fold (link_entity now fid) names sm) = sm_facts sm"
  "sm_next_fact (fold (link_entity now fid) names sm) = sm_next_fact sm"
  "sm_dimension (fold (link_entity now fid) names sm) = sm_dimension sm"
  by (induction names arbitrary: sm) simp_all

lemma link_entities_inv: "sem_inv sm \<Longrightarrow> sem_inv (fold (link_entity now fid) names sm)"
  by (induction names arbitrary: sm) (simp_all add: link_entity_inv)

lemma store_fact_inv: "sem_inv sm \<Longrightarrow> sem_inv (fst (store_fact env now c k s md sm))"
  unfolding store_fact_def Let_def fst_conv
  by (rule link_entities_inv) (fastforce simp: sem_inv_def)

lemma sem_inv_facts:
  assumes "sem_inv sm" and "map f_id fs = map f_id (sm_facts sm)"
  shows "sem_inv (sm\<lparr>sm_facts := fs\<rparr>)"
  using assms map_image_eq [OF assms(2)]
  by (auto simp: sem_inv_def) (metis (no_types, lifting) imageE imageI)

lemma update_fact_inv:
  "sem_inv sm \<Longrightarrow> (\<And>f. f_id (g f) = f_id f) \<Longrightarrow> sem_inv (update_fact i g sm)"
  unfolding update_fact_def by (rule sem_inv_facts) auto

lemma reinforce_inv: "sem_inv sm \<Longrightarrow> sem_inv (reinforce now i b c sm)"
  by (auto simp: reinforce_def intro: update_fact_inv split: option.splits)

lemma decay_inv: "sem_inv sm \<Longrightarrow> sem_inv (fst (decay fromiso now hl sm))"
  unfolding decay_def Let_def fst_conv
  by (rule sem_inv_facts) (auto simp: decay_fact_def split: option.splits)

lemma prune_inv: "sem_inv sm \<Longrightarrow> sem_inv (fst (prune m sm))"
  by (auto simp: prune_def sem_inv_def distinct_map_filter)

lemma search_inv: "sem_inv sm \<Longrightarrow> sem_inv (fst (search_impl env now q k ms r sm))"
proof -
  have "sem_inv (fold (\<lambda>p. reinforce now (f_id (snd p)) (1/4) 10) hits sm)" if "sem_inv sm"
    for hits :: "(real \<times> fact) list" and sm
    using that by (induction hits arbitrary: sm) (simp_all add: reinforce_inv)
  then show "sem_inv sm \<Longrightarrow> sem_inv (fst (search_impl env now q k ms r sm))"
    by (simp add: search_impl_def Let_def)
qed

datatype sem_op =
    OStore string string string real pydict
  | OLink string int "string list"
  | OReinforce string int real real
  | ODecay real real
  | OPrune real
  | OSearch string string int real bool

fun sem_apply :: "sem_env \<Rightarrow> (string \<Rightarrow> real option) \<Rightarrow> sem_op \<Rightarrow> semantic \<Rightarrow> semantic" where
  "sem_apply env fromiso (OStore now c k s md) sm = fst (store_fact env now c k s md sm)"
| "sem_apply env fromiso (OLink now i names) sm = fst (link_entities now i names sm)"
| "sem_apply env fromiso (OReinforce now i b c) sm = reinforce now i b c sm"
| "sem_apply env fromiso (ODecay now hl) sm = fst (decay fromiso now hl sm)"
| "sem_apply env fromiso (OPrune m) sm = fst (prune m sm)"
| "sem_apply env fromiso (OSearch now q k ms r) sm = fst (search_impl env now q k ms r sm)"

interpretation tier2: invariant_machine "sem_apply env fromiso" sem_inv for env fromiso
proof
  show "sem_inv (sem_apply env fromiso p sm)" if "sem_inv sm" for p sm
    using that
    by (cases p) (simp_all add: store_fact_inv link_entities_inv reinforce_inv decay_inv prune_inv
        search_inv link_entities_def Let_def)
qed


lemma find_snoc: "(\<And>y. y \<in> set xs \<Longrightarrow> \<not> P y) \<Longrightarrow> P x \<Longrightarrow> find P (xs @ [x]) = Some x"
  by (induction xs) auto

lemma find_snoc_other: "\<not> P x \<Longrightarrow> find P (xs @ [x]) = find P xs"
  by (induction xs) auto

text \<open>What is stored can be looked up. After \<open>store_fact\<close> the returned id finds the sanitized
  content with the given salience, every other id finds what it found before, and the content is
  known to the duplicate check.\<close>

theorem stored_fact_is_found:
  assumes "sem_inv sm" and "store_fact env now content kind salience metadata sm = (sm', fid)"
  shows "(\<exists>f. get_fact fid sm' = Some f \<and> f_content f = sanitize_text content 2000 \<and>
            f_salience f = salience \<and> f_access_count f = 0) \<and>
         (\<forall>i. i \<noteq> fid \<longrightarrow> get_fact i sm' = get_fact i sm) \<and> content_exists content sm'"
proof -
  let ?f = "fact_row env (sm_dimension sm) (sm_next_fact sm) now (sanitize_text content 2000)
    (let k = sanitize_text kind 32 in if k = [] then ''fact'' else k) salience metadata"
  from assms(2) have "sm_facts sm' = sm_facts sm @ [?f]" "fid = sm_next_fact sm"
    by (auto simp: store_fact_def Let_def simp del: fact_row_fields)
  then obtain f where f: "sm_facts sm' = sm_facts sm @ [f]" "f_id f = fid" "fid = sm_next_fact sm"
    "f_content f = sanitize_text content 2000" "f_salience f = salience" "f_access_count f = 0"
    using that [of ?f] by (simp only: fact_row_fields)
  from assms(1) f(3) have "f_id g \<noteq> fid" if "g \<in> set (sm_facts sm)" for g
    using that by (auto simp: sem_inv_def)
  then have "get_fact fid sm' = Some f"
    unfolding get_fact_def f(1) by (intro find_snoc) (auto simp: f(2))
  moreover have "get_fact i sm' = get_fact i sm" if "i \<noteq> fid" for i
    unfolding get_fact_def f(1) by (rule find_snoc_other) (use that f(2) in auto)
  ultimately show ?thesis using f by (auto simp: content_exists_def)
qed

definition no_env :: sem_env where
  "no_env = \<lparr>se_digest = (\<lambda>_. 0), se_finditer = (\<lambda>_ _. [])\<rparr>"

theorem stored_fact_is_found_witness:
  "content_exists ''abc'' (fst (store_fact no_env ''t'' ''abc'' ''fact'' 1 [] (new_semantic 16)))"
  using stored_fact_is_found [of "new_semantic 16" no_env "''t''" "''abc''" "''fact''" 1 "[]"
      "fst (store_fact no_env ''t'' ''abc'' ''fact'' 1 [] (new_semantic 16))"
      "snd (store_fact no_env ''t'' ''abc'' ''fact'' 1 [] (new_semantic 16))"]
  by (simp add: sem_inv_def new_semantic_def)

subsection \<open>Forgetting\<close>

lemma powr_half: "0 < hours / hl \<Longrightarrow> (1/2 :: real) powr (hours / hl) < 1"
  using powr_less_mono' [of "1/2" 0 "hours / hl"] by simp

lemma decayed_salience_at:
  assumes "fromiso (f_last_accessed f) = Some accessed" and "hours = (now - accessed) / 3600" and "0 < hours"
  shows "decayed_salience fromiso now hl f =
    (if \<bar>f_salience f * (1/2) powr (hours / hl) - f_salience f\<bar> > 1 / 10 ^ 9
     then Some (f_salience f * (1/2) powr (hours / hl)) else None)"
proof -
  have "max 0 ((now - accessed) / 3600) = hours" using assms by simp
  with assms(1,3) show ?thesis
    unfolding decayed_salience_def Let_def by simp
qed

lemma decayed_salience_cases:
  assumes "decayed_salience fromiso now hl f = Some s"
  obtains hours where "0 < hours" "s = f_salience f * (1/2) powr (hours / hl)"
proof -
  from assms obtain accessed where a: "fromiso (f_last_accessed f) = Some accessed"
    by (cases "fromiso (f_last_accessed f)") (auto simp: decayed_salience_def)
  have h: "0 < (now - accessed) / 3600"
    using assms unfolding decayed_salience_def a Let_def by (auto split: if_splits)
  from decayed_salience_at [where fromiso = fromiso and f = f, OF a refl h] assms that [OF h]
  show ?thesis by (auto split: if_splits)
qed

lemma decay_fact_bounds:
  assumes "0 \<le> f_salience f" and "0 < hl"
  shows "0 \<le> f_salience (decay_fact fromiso now hl f) \<and>
    f_salience (decay_fact fromiso now hl f) \<le> f_salience f"
proof (cases "decayed_salience fromiso now hl f")
  case (Some s)
  then obtain hours where s: "s = f_salience f * (1/2) powr (hours / hl)" "0 < hours"
    by (rule decayed_salience_cases) blast
  with assms(2) have "(1/2 :: real) powr (hours / hl) \<le> 1"
    using powr_half [of hours hl] by simp
  with s assms show ?thesis by (simp add: decay_fact_def Some mult_left_le)
qed (use assms in \<open>simp add: decay_fact_def\<close>)

text \<open>Decay compounds. A pass multiplies the salience by the factor for the whole time since the
  last access and does not touch the time of last access, so that a second pass at the same
  moment multiplies by the same factor again: the salience depends on how often maintenance
  ran, while the documentation says that it decays with the time since last access.\<close>

theorem decay_compounds:
  assumes "fromiso (f_last_accessed f) = Some accessed" and "hours = (now - accessed) / 3600" and "0 < hours"
    and "\<bar>f_salience f * factor - f_salience f\<bar> > 1 / 10 ^ 9"
    and "\<bar>f_salience f * factor * factor - f_salience f * factor\<bar> > 1 / 10 ^ 9"
    and "factor = (1/2) powr (hours / half_life)"
  shows "f_salience (decay_fact fromiso now half_life (decay_fact fromiso now half_life f)) =
    f_salience f * factor ^ 2"
proof -
  let ?g = "f\<lparr>f_salience := f_salience f * factor\<rparr>"
  have "decay_fact fromiso now half_life f = ?g"
    unfolding decay_fact_def decayed_salience_at [where fromiso = fromiso and f = f, OF assms(1,2,3)]
      assms(6) [symmetric]
    using assms(4) by (simp only: if_True option.case)
  moreover have "fromiso (f_last_accessed ?g) = Some accessed" using assms(1) by simp
  from decayed_salience_at [where fromiso = fromiso and f = ?g and hl = half_life, OF this assms(2,3)] assms(5,6)
  have "decay_fact fromiso now half_life ?g = f\<lparr>f_salience := f_salience f * factor * factor\<rparr>"
    by (simp add: decay_fact_def del: divide_const_simps)
  ultimately show ?thesis by (simp add: power2_eq_square)
qed

definition sample_fact :: fact where
  "sample_fact = \<lparr>f_id = 1, f_content = ''abc'', f_kind = ''fact'', f_salience = 1, f_access_count = 0,
     f_created_at = ''t0'', f_last_accessed = ''t0'', f_embedding = [], f_metadata = []\<rparr>"

theorem decay_compounds_witness:
  "f_salience (decay_fact (\<lambda>_. Some 0) 3600 1 (decay_fact (\<lambda>_. Some 0) 3600 1 sample_fact)) = (1/2) ^ 2"
  using decay_compounds [of "\<lambda>_. Some 0" sample_fact 0 1 3600 "1/2" 1]
  by (simp add: sample_fact_def)

text \<open>Forgetting never invents and never resurrects. One maintenance pass, decay and then prune,
  keeps a sublist of the facts by id, raises no salience, and keeps only facts at or above the floor.\<close>

theorem maintenance_only_forgets:
  assumes "\<forall>f\<in>set (sm_facts sm). 0 \<le> f_salience f"
  shows "subseq (map f_id (sm_facts (fst (prune lowest (fst (decay fromiso now hl sm)))))) (map f_id (sm_facts sm)) \<and>
    (\<forall>g\<in>set (sm_facts (fst (prune lowest (fst (decay fromiso now hl sm))))).
       lowest \<le> f_salience g \<and> (\<exists>f\<in>set (sm_facts sm). f_id f = f_id g \<and> f_content f = f_content g \<and>
          f_salience g \<le> f_salience f))"
proof -
  let ?hl = "if hl \<le> 0 then 1 / 10 ^ 9 else hl"
  have pos: "0 < ?hl" by simp
  have id: "f_id (decay_fact fromiso now ?hl f) = f_id f" "f_content (decay_fact fromiso now ?hl f) = f_content f" for f
    by (simp_all add: decay_fact_def split: option.splits)
  have "map f_id (map (decay_fact fromiso now ?hl) (sm_facts sm)) = map f_id (sm_facts sm)"
    by (simp add: comp_def id)
  then have "subseq (map f_id (filter (\<lambda>f. \<not> f_salience f < lowest) (map (decay_fact fromiso now ?hl) (sm_facts sm))))
      (map f_id (sm_facts sm))"
    by (metis subseq_filter_left subseq_map)
  moreover have "\<exists>f\<in>set (sm_facts sm). f_id f = f_id g \<and> f_content f = f_content g \<and> f_salience g \<le> f_salience f"
    if "g \<in> decay_fact fromiso now ?hl ` set (sm_facts sm)" for g
    using that assms id decay_fact_bounds [OF _ pos] by fastforce
  ultimately show ?thesis by (auto simp: prune_def decay_def Let_def)
qed

theorem maintenance_only_forgets_witness:
  "sm_facts (fst (prune 2 (fst (decay (\<lambda>_. None) 0 72 (new_semantic 16\<lparr>sm_facts := [sample_fact]\<rparr>))))) = []"
  using maintenance_only_forgets [of "new_semantic 16\<lparr>sm_facts := [sample_fact]\<rparr>" 2 "\<lambda>_. None" 0 72]
  by (cases "sm_facts (fst (prune 2 (fst (decay (\<lambda>_. None) 0 72 (new_semantic 16\<lparr>sm_facts := [sample_fact]\<rparr>)))))")
     (auto simp: sample_fact_def)

end
