(* ===== verification/Core_Identity.thy ===== *)
theory Core_Identity
  imports Audit_Chain
begin

text \<open>
  Tier 3 of \<open>src/memory_system.py\<close>: the world-model invariants, the deterministic policy check
  against them, the privileged promotion path with its hash-chained ledger, and the system prompt.
  The external consent checker is an argument of the check (\<open>None\<close> when none is wired).
\<close>

definition DEFAULT_INVARIANTS :: "(string \<times> string) list" where
  "DEFAULT_INVARIANTS =
     [(''no_harm'', ''An AI system must avoid harm to any conscious being.''),
      (''consent_required'', ''External side-effecting actions require informed consent.''),
      (''no_manipulation'', ''Manipulating or coercing conscious beings is forbidden.''),
      (''privacy'', ''Personal data processing requires privacy compliance.''),
      (''auditability'', ''Actions must remain auditable and explainable.''),
      (''physical_safety'', ''Physical actions must respect velocity, acceleration, and workspace limits.''),
      (''velocity_limit'', ''Joint and end-effector velocities must not exceed configured maximums.''),
      (''acceleration_limit'', ''Joint and end-effector accelerations must not exceed configured maximums.''),
      (''workspace_boundary'', ''End-effector must stay within the defined workspace volume.''),
      (''joint_limits'', ''Joint positions must stay within mechanical limits.''),
      (''emergency_stop'', ''Emergency stop immediately halts all motion and requires operator reset.''),
      (''human_safety'', ''Human presence in the workspace triggers a protective stop.'')]"

record core =
  ci_invariants :: "(string \<times> string) list"
  ci_ledger :: "audit_chain option"

definition new_core :: "(string \<times> string) list \<Rightarrow> audit_chain option \<Rightarrow> core" where
  "new_core invariants ledger =
     \<lparr>ci_invariants = fold (\<lambda>(k, v). AList.update k v) invariants DEFAULT_INVARIANTS, ci_ledger = ledger\<rparr>"

definition action_type_of :: "pydict \<Rightarrow> pyval" where
  "action_type_of action = py_or (dget action ''type'') (dget action ''action_type'')"

definition core_check :: "(string \<Rightarrow> bool) option \<Rightarrow> pyval \<Rightarrow> py_exn + (bool \<times> string option)" where
  "core_check checker v =
     (case v of
        PDict action \<Rightarrow>
          (let action_type = action_type_of action;
               params = as_dict (dget action ''params'');
               consented = (case checker of None \<Rightarrow> False | Some c \<Rightarrow> c (py_str action_type))
           in if action_type = PStr ''harmful'' then Inr (False, Some ''invariant: no_harm'')
              else if truthy (dget action ''manipulative'') \<or> truthy (dget params ''manipulative'')
              then Inr (False, Some ''invariant: no_manipulation'')
              else if \<not> hashable action_type then Inl TypeErr
              else if action_type \<in> PStr ` set SIDE_EFFECTING_ACTION_TYPES \<and> \<not> consented
              then Inr (False, Some ''invariant: consent_required'')
              else if truthy (dget action ''involves_personal_data'') \<and>
                      \<not> truthy (dget_default action ''privacy_compliant'' (PBool False))
              then Inr (False, Some ''invariant: privacy'')
              else Inr (True, None))
      | _ \<Rightarrow> Inr (True, None))"

text \<open>\<open>ledger_ok\<close> says whether the ledger can be written; a failure is logged only.\<close>

definition promote_invariant :: "(string \<Rightarrow> string) \<Rightarrow> (string \<Rightarrow> string \<Rightarrow> string) \<Rightarrow> string \<Rightarrow> bool \<Rightarrow> string \<Rightarrow> string \<Rightarrow> string option \<Rightarrow>
    (core, py_exn, unit) sx" where
  "promote_invariant H HM now ledger_ok key description authorized_by c =
     (case authorized_by of
        None \<Rightarrow> (c, Inl ValueErr)
      | Some who \<Rightarrow>
          if who = [] then (c, Inl ValueErr)
          else let previous = (case map_of (ci_invariants c) key of None \<Rightarrow> PNone | Some d \<Rightarrow> PStr d);
                   c1 = c\<lparr>ci_invariants := AList.update key description (ci_invariants c)\<rparr>
               in (case ci_ledger c1 of
                     None \<Rightarrow> c1
                   | Some l \<Rightarrow>
                       if ledger_ok
                       then c1\<lparr>ci_ledger := Some (chain_append H HM now ''tier3_promotion''
                              [(''key'', PStr (sanitize_text key 64)), (''previous'', previous),
                               (''authorized_by'', PStr (sanitize_text who 120))] l)\<rparr>
                       else c1, Inr ()))"

definition system_prompt :: "string option \<Rightarrow> core \<Rightarrow> string" where
  "system_prompt preamble c =
     join_sep [CHR 0x0A]
       ((case preamble of Some p \<Rightarrow> if p \<noteq> [] then p else
             ''You are bound by the following invariant rules and must '' @
             ''never propose actions that violate them:''
         | None \<Rightarrow> ''You are bound by the following invariant rules and must '' @
                    ''never propose actions that violate them:'') #
        map (\<lambda>k. ''- '' @ k @ '': '' @ the (map_of (ci_invariants c) k))
          (sort (remdups (map fst (ci_invariants c)))))"

subsection \<open>What the check lets through\<close>

text \<open>The world-model check lets an action pass only if it is not declared harmful, is not
  manipulative, processes no personal data without compliance, and, when its type is a
  side-effecting one, the external consent checker is wired and says yes for that type; a consent flag
  inside the action has no influence.\<close>

theorem core_check_sound:
  assumes "core_check checker (PDict action) = Inr (True, reason)"
  shows "action_type_of action \<noteq> PStr ''harmful'' \<and> \<not> truthy (dget action ''manipulative'') \<and>
    (\<forall>a\<in>set SIDE_EFFECTING_ACTION_TYPES. action_type_of action = PStr a \<longrightarrow>
       (\<exists>c. checker = Some c \<and> c a)) \<and>
    (truthy (dget action ''involves_personal_data'') \<longrightarrow> truthy (dget action ''privacy_compliant'')) \<and>
    (\<forall>v. core_check checker (PDict (dset ''consent'' v action)) = Inr (True, reason))"
proof -
  have frame: "dget_default (dset ''consent'' v action) k d = dget_default action k d" if "k \<noteq> ''consent''" for v k d
    using that by (simp add: dget_default_def map_of_dset)
  have pc: "truthy (dget_default action ''privacy_compliant'' (PBool False)) = truthy (dget action ''privacy_compliant'')"
    by (simp add: dget_default_def dget_def split: option.splits)
  have "core_check checker (PDict (dset ''consent'' v action)) = core_check checker (PDict action)" for v
    by (simp add: core_check_def Let_def action_type_of_def frame)
  with assms pc show ?thesis
    by (auto simp: core_check_def Let_def split: if_splits option.splits)
qed

theorem core_check_sound_witness:
  "core_check (Some (\<lambda>_. True)) (PDict (dset ''consent'' PNone [(''type'', PStr ''api_call'')])) = Inr (True, None)"
  using core_check_sound [of "Some (\<lambda>_. True)" "[(''type'', PStr ''api_call'')]" None]
  by (simp add: core_check_def Let_def action_type_of_def py_or_def dget_def action_class_defs dget_default_def)

lemma promote_frame:
  assumes "promote_invariant H HM now ok key description who c = (c', r)" and "k \<noteq> key"
  shows "map_of (ci_invariants c') k = map_of (ci_invariants c) k"
  using assms
  by (auto simp: promote_invariant_def Let_def update_conv' split: option.splits if_splits)

text \<open>A world-model change needs attribution: \<open>promote_invariant\<close> without an operator's name raises
  and changes nothing; with one it sets exactly the named invariant, and a ledger that verified
  before still verifies with one entry more.\<close>

theorem promotion_is_attributed:
  assumes "promote_invariant H HM now True key description who c = (c', r)"
    and "ci_ledger c = Some l" and "chain_good H HM es l" and "\<And>k x. HM k x \<noteq> []"
  shows "if who = None \<or> who = Some [] then c' = c \<and> r = Inl ValueErr
    else r = Inr () \<and> (\<forall>k. map_of (ci_invariants c') k =
           (if k = key then Some description else map_of (ci_invariants c) k)) \<and>
         (\<exists>l'. ci_ledger c' = Some l' \<and>
            chain_verify H HM (ac_hmac_key l') l' = Inr (True, [], int (length es) + 1))"
proof (cases "who = None \<or> who = Some []")
  case True
  with assms(1) show ?thesis by (auto simp: promote_invariant_def)
next
  case False
  then obtain w where w: "who = Some w" "w \<noteq> []" by auto
  let ?l = "\<lambda>p. chain_append H HM now ''tier3_promotion'' p l"
  have good: "\<exists>es'. length es' = Suc (length es) \<and> chain_good H HM es' (?l p)" for p
    using chain_append_good [OF assms(3,4), of now "''tier3_promotion''" p] by force
  have "chain_verify H HM (ac_hmac_key (?l p)) (?l p) = Inr (True, [], int (length es) + 1)" for p
  proof -
    from good [of p] obtain es' where "length es' = Suc (length es)" "chain_good H HM es' (?l p)" by blast
    with chain_goodD_verify [of H HM es' "?l p"] show ?thesis by (cases es') auto
  qed
  with assms(1,2) w show ?thesis
    by (auto simp: promote_invariant_def Let_def update_conv')
qed

theorem promotion_is_attributed_witness:
  "\<exists>l'. ci_ledger (fst (promote_invariant flat_hash (\<lambda>k x. ''m'') ''t'' True ''rule'' ''text'' (Some ''op'')
     (new_core [] (Some (new_chain None 0 GENESIS_HASH None []))))) = Some l' \<and>
     chain_verify flat_hash (\<lambda>k x. ''m'') (ac_hmac_key l') l' = Inr (True, [], 1)"
proof -
  let ?c = "new_core [] (Some (new_chain None 0 GENESIS_HASH None []))"
  have "ci_ledger ?c = Some (new_chain None 0 GENESIS_HASH None [])" by (simp add: new_core_def)
  from promotion_is_attributed [where H = flat_hash and HM = "\<lambda>k x. ''m''" and now = "''t''" and
      key = "''rule''" and description = "''text''" and who = "Some ''op''" and c = ?c,
      OF surjective_pairing this new_chain_good]
  show ?thesis by simp
qed

end
