(* ===== verification/Memory_Manager.thy ===== *)
theory Memory_Manager
  imports Semantic_Memory Core_Identity
begin

text \<open>
  \<open>MemoryManager\<close> and \<open>DreamConsolidation\<close> of \<open>src/memory_system.py\<close>: the four tiers of one agent, the
  memory policies, the write gates, consolidation, the maintenance worker, the sharing of facts
  with peers, and the dream pass that writes insights into the world model. The database and
  the ledger are writable or not for the duration of a call (\<open>me_db_ok\<close>, \<open>me_ledger_ok\<close>); Python's
  \<open>float()\<close> and \<open>repr()\<close> of floats are the parameters \<open>me_float\<close> and \<open>me_repr\<close>.
\<close>

subsection \<open>State\<close>

datatype mem_policy = SharedRW | SharedRead | Isolated

record mem_env =
  me_sem :: sem_env
  me_fromiso :: "string \<Rightarrow> real option"
  me_now :: real
  me_now_iso :: string
  me_db_ok :: bool
  me_ledger_ok :: bool
  me_H :: "string \<Rightarrow> string"
  me_HM :: "string \<Rightarrow> string \<Rightarrow> string"
  me_float :: "pyval \<Rightarrow> real option"
  me_repr :: "real \<Rightarrow> string"

record memory =
  mm_agent_id :: string
  mm_policy :: mem_policy
  mm_tier0 :: scratchpad
  mm_tier1 :: episodic
  mm_tier2 :: semantic
  mm_tier3 :: core
  mm_owns_tier2 :: bool
  mm_owns_tier3 :: bool
  mm_consolidation_interval :: real
  mm_consolidation_threshold :: int
  mm_failure_promotion_threshold :: int
  mm_pattern_promotion_threshold :: int
  mm_decay_half_life_hours :: real
  mm_prune_min_salience :: real
  mm_maintenance_failure_threshold :: int
  mm_worker_failures :: nat
  mm_worker_interval :: real
  mm_maintenance_passes :: nat
  dc_every :: int
  dc_max_add :: int
  dc_tick_count :: int
  dc_last_dream_at :: int

type_synonym 'a mem = "(memory, py_exn, 'a) sx"

definition parse_policy :: "string \<Rightarrow> py_exn + mem_policy" where
  "parse_policy p =
     (let q = py_lower (if p = [] then ''shared_rw'' else p) in
      if q = ''shared_rw'' then Inr SharedRW
      else if q = ''shared_read'' then Inr SharedRead
      else if q = ''isolated'' then Inr Isolated
      else Inl ValueErr)"

definition read_only_tier2 :: "memory \<Rightarrow> bool" where
  "read_only_tier2 m = (mm_policy m = SharedRead)"

text \<open>The constructor with the defaults of its numeric arguments: an isolated agent ignores the
  instances it is lent.\<close>

definition new_memory :: "string \<Rightarrow> string \<Rightarrow> semantic option \<Rightarrow> core option \<Rightarrow> episodic \<Rightarrow> py_exn + memory" where
  "new_memory agent_id policy lent2 lent3 tier1 =
     (case parse_policy policy of
        Inl e \<Rightarrow> Inl e
      | Inr pol \<Rightarrow>
          (let fresh2 = new_semantic 256; fresh3 = new_core [] None;
               use_lent = (pol \<noteq> Isolated)
           in Inr \<lparr>mm_agent_id = agent_id, mm_policy = pol,
                mm_tier0 = new_scratchpad 256 4096, mm_tier1 = tier1,
                mm_tier2 = (case lent2 of Some t \<Rightarrow> if use_lent then t else fresh2 | None \<Rightarrow> fresh2),
                mm_tier3 = (case lent3 of Some t \<Rightarrow> if use_lent then t else fresh3 | None \<Rightarrow> fresh3),
                mm_owns_tier2 = (lent2 = None \<or> \<not> use_lent), mm_owns_tier3 = (lent3 = None \<or> \<not> use_lent),
                mm_consolidation_interval = 10, mm_consolidation_threshold = 25,
                mm_failure_promotion_threshold = 3, mm_pattern_promotion_threshold = 5,
                mm_decay_half_life_hours = 72, mm_prune_min_salience = 1/20,
                mm_maintenance_failure_threshold = 3, mm_worker_failures = 0, mm_worker_interval = 10,
                mm_maintenance_passes = 0, dc_every = 8, dc_max_add = 1, dc_tick_count = 0,
                dc_last_dream_at = 0\<rparr>))"

subsection \<open>Write gates\<close>

definition write_gates :: "string \<Rightarrow> string list" where
  "write_gates tier =
     (if tier = ''tier0'' then [''scratchpad'']
      else if tier = ''tier1'' then [''episodic'']
      else if tier = ''tier2'' then [''consolidation'', ''maintenance'', ''shugonet'']
      else if tier = ''tier3'' then [''dream'', ''promote_invariant'']
      else [])"

definition check_write_permission :: "string \<Rightarrow> string \<Rightarrow> memory \<Rightarrow> bool" where
  "check_write_permission tier writer m =
     (if writer \<in> set (write_gates tier) \<and> tier = ''tier2'' \<and> writer = ''consolidation''
      then \<not> read_only_tier2 m else writer \<in> set (write_gates tier))"

datatype mem_error = PermissionError | MemExn py_exn

definition enforce_write :: "string \<Rightarrow> string \<Rightarrow> memory \<Rightarrow> mem_error + unit" where
  "enforce_write tier writer m =
     (if check_write_permission tier writer m then Inr () else Inl PermissionError)"

subsection \<open>The loop's own operations\<close>

definition note_step :: "string \<Rightarrow> string \<Rightarrow> memory \<Rightarrow> memory" where
  "note_step timestamp txt m = m\<lparr>mm_tier0 := sp_write timestamp txt (mm_tier0 m)\<rparr>"

definition resolve_step :: "memory \<Rightarrow> memory" where
  "resolve_step m = m\<lparr>mm_tier0 := sp_flush (mm_tier0 m)\<rparr>"

definition record_event :: "mem_env \<Rightarrow> string \<Rightarrow> pydict \<Rightarrow> pydict \<Rightarrow> event mem" where
  "record_event env event_type payload metadata m =
     (case em_record (me_fromiso env) (me_now env) (me_now_iso env) event_type payload metadata (mm_tier1 m) of
        (t1, r) \<Rightarrow> (m\<lparr>mm_tier1 := t1\<rparr>, r))"

definition check_policy :: "(string \<Rightarrow> bool) option \<Rightarrow> pyval \<Rightarrow> memory \<Rightarrow> py_exn + (bool \<times> string option)" where
  "check_policy checker action m = core_check checker action"

text \<open>Graph facts not already found by similarity, entity by entity.\<close>

fun graph_hits :: "int \<Rightarrow> semantic \<Rightarrow> string list \<Rightarrow> int list \<Rightarrow> fact list" where
  "graph_hits top_k sm [] seen = []"
| "graph_hits top_k sm (e # es) seen =
     (let new = filter (\<lambda>f. f_id f \<notin> set seen) (facts_about e top_k sm)
      in new @ graph_hits top_k sm es (seen @ map f_id new))"

definition retrieve_context :: "mem_env \<Rightarrow> string \<Rightarrow> int \<Rightarrow> bool \<Rightarrow> memory \<Rightarrow>
    memory \<times> (real \<times> fact) list \<times> fact list \<times> event list" where
  "retrieve_context env query top_k include_episodic m =
     (let (sm, hits) = search_impl (me_sem env) (me_now_iso env) query top_k 0 True (mm_tier2 m);
          graph = graph_hits top_k sm (take 3 (extract_entities (me_sem env) query 8)) (map (f_id \<circ> snd) hits);
          episodic = (if include_episodic then em_recent (Some 10) (mm_tier1 m) else [])
      in (m\<lparr>mm_tier2 := sm\<rparr>, hits, graph, episodic))"

subsection \<open>Sharing facts\<close>

definition shareable_fact :: "mem_env \<Rightarrow> fact \<Rightarrow> pydict" where
  "shareable_fact env f =
     [(''content'', PStr (f_content f)), (''kind'', PStr (f_kind f)),
      (''salience'', PFloat (me_repr env (f_salience f))), (''created_at'', PStr (f_created_at f)),
      (''metadata'', PDict (f_metadata f))]"

definition export_shared_facts :: "mem_env \<Rightarrow> string option \<Rightarrow> int \<Rightarrow> memory \<Rightarrow> pydict list" where
  "export_shared_facts env since limit m = map (shareable_fact env) (facts_since since limit (mm_tier2 m))"

text \<open>\<open>dict(v)\<close>, of a dictionary or of a list of pairs with string keys; anything else raises.\<close>

fun dict_pairs :: "pyval list \<Rightarrow> py_exn + pydict" where
  "dict_pairs [] = Inr []"
| "dict_pairs (PList [PStr k, v] # xs) = (case dict_pairs xs of Inl e \<Rightarrow> Inl e | Inr d \<Rightarrow> Inr ((k, v) # d))"
| "dict_pairs (PTuple [PStr k, v] # xs) = (case dict_pairs xs of Inl e \<Rightarrow> Inl e | Inr d \<Rightarrow> Inr ((k, v) # d))"
| "dict_pairs _ = Inl ValueErr"

definition py_dict :: "pyval \<Rightarrow> py_exn + pydict" where
  "py_dict v = (case v of PDict d \<Rightarrow> Inr d
     | PList xs \<Rightarrow> map_sum id (\<lambda>ps. fold (\<lambda>(k, w). dset k w) ps []) (dict_pairs xs)
     | PTuple xs \<Rightarrow> map_sum id (\<lambda>ps. fold (\<lambda>(k, w). dset k w) ps []) (dict_pairs xs)
     | PStr s \<Rightarrow> Inl ValueErr | _ \<Rightarrow> Inl TypeErr)"

definition shared_content :: "pydict \<Rightarrow> string" where
  "shared_content fd =
     sanitize_text (py_str (py_or (py_or (dget fd ''content'') (dget fd ''fact'')) (PStr []))) 2000"

record import_counts =
  ic_imported :: nat
  ic_skipped :: nat
  ic_duplicates :: nat

definition import_one :: "mem_env \<Rightarrow> string \<Rightarrow> pyval \<Rightarrow> import_counts \<Rightarrow> (semantic, py_exn, import_counts) sx" where
  "import_one env origin v n sm =
     (case v of
        PDict fd \<Rightarrow>
          (let content = shared_content fd in
           if content = [] then (sm, Inr (n\<lparr>ic_skipped := ic_skipped n + 1\<rparr>))
           else if content_exists content sm then (sm, Inr (n\<lparr>ic_duplicates := ic_duplicates n + 1\<rparr>))
           else case py_dict (py_or (dget fd ''metadata'') (PDict [])) of
                  Inl e \<Rightarrow> (sm, Inl e)
                | Inr md \<Rightarrow>
                    (let metadata = dset ''shared_at'' (PStr (me_now_iso env)) (dset ''shared_from'' (PStr origin) md);
                         salience = (case me_float env (dget_default fd ''salience'' (PFloat ''0.8'')) of
                                       None \<Rightarrow> 4/5 | Some x \<Rightarrow> max 0 (min 10 x));
                         kind = (let k = sanitize_text (py_str (py_or (dget fd ''kind'') (PStr ''fact''))) 32
                                 in if k = [] then ''fact'' else k)
                     in if me_db_ok env
                        then (fst (store_fact (me_sem env) (me_now_iso env) content kind salience metadata sm),
                              Inr (n\<lparr>ic_imported := ic_imported n + 1\<rparr>))
                        else (sm, Inl OSErr)))
      | _ \<Rightarrow> (sm, Inr (n\<lparr>ic_skipped := ic_skipped n + 1\<rparr>)))"

fun import_loop :: "mem_env \<Rightarrow> string \<Rightarrow> pyval list \<Rightarrow> import_counts \<Rightarrow> (semantic, py_exn, import_counts) sx" where
  "import_loop env origin [] n = sx_return n"
| "import_loop env origin (v # vs) n = sx_bind (import_one env origin v n) (import_loop env origin vs)"

definition import_shared_facts :: "mem_env \<Rightarrow> pyval list \<Rightarrow> string \<Rightarrow> memory \<Rightarrow>
    memory \<times> (mem_error + import_counts)" where
  "import_shared_facts env facts source m =
     (case enforce_write ''tier2'' ''shugonet'' m of
        Inl e \<Rightarrow> (m, Inl e)
      | Inr _ \<Rightarrow>
          (let origin = (let o1 = sanitize_text source 64 in if o1 = [] then ''unknown'' else o1)
           in case import_loop env origin facts \<lparr>ic_imported = 0, ic_skipped = 0, ic_duplicates = 0\<rparr> (mm_tier2 m) of
                (sm, Inl e) \<Rightarrow> (m\<lparr>mm_tier2 := sm\<rparr>, Inl (MemExn e))
              | (sm, Inr n) \<Rightarrow> (m\<lparr>mm_tier2 := sm\<rparr>, Inr n)))"

subsection \<open>Consolidation\<close>

definition quoted_type :: "pyval \<Rightarrow> string" where
  "quoted_type ty = [CHR 0x27] @ py_str ty @ [CHR 0x27]"

definition FAILURE_STATUSES :: "string list" where
  "FAILURE_STATUSES = [''error'', ''failure'', ''failed'']"

fun group_events :: "event list \<Rightarrow> (pyval \<times> event list) list \<Rightarrow> py_exn + (pyval \<times> event list) list" where
  "group_events [] g = Inr g"
| "group_events (e # es) g =
     (case map_of e ''type'' of
        None \<Rightarrow> Inl KeyErr
      | Some ty \<Rightarrow> if \<not> hashable ty then Inl TypeErr
                    else group_events es (AList.update ty
                           ((case map_of g ty of None \<Rightarrow> [] | Some xs \<Rightarrow> xs) @ [e]) g))"

definition is_failure :: "event \<Rightarrow> py_exn + bool" where
  "is_failure e =
     (case py_or (dget e ''payload'') (PDict []) of
        PDict p \<Rightarrow> Inr (py_lower (py_str (dget_default p ''status'' (PStr []))) \<in> set FAILURE_STATUSES)
      | _ \<Rightarrow> Inl AttributeErr)"

fun count_failures :: "event list \<Rightarrow> py_exn + nat" where
  "count_failures [] = Inr 0"
| "count_failures (e # es) =
     (case is_failure e of
        Inl x \<Rightarrow> Inl x
      | Inr b \<Rightarrow> (case count_failures es of Inl x \<Rightarrow> Inl x | Inr n \<Rightarrow> Inr (if b then n + 1 else n)))"

record consolidation_stats =
  cs_events_processed :: nat
  cs_facts_stored :: nat
  cs_promoted :: nat
  cs_pruned :: int

text \<open>The fact a group of events becomes: a critical failure mode, a recurring pattern, or a summary.
  The last component says whether it counts as promoted.\<close>

definition group_fact :: "memory \<Rightarrow> pyval \<Rightarrow> event list \<Rightarrow> nat \<Rightarrow> string \<times> string \<times> real \<times> pydict \<times> bool" where
  "group_fact m ty grp failures =
     (let last_payload = take 200 (py_str (dget_default (last grp) ''payload'' (PDict [])));
          name = quoted_type ty
      in if int failures \<ge> mm_failure_promotion_threshold m
         then (''Critical failure mode '' @ name @ '' observed '' @ show_nat failures @ '' times; last: '' @ last_payload,
               ''procedural_insight'', 5/2, [(''event_type'', ty), (''failures'', PInt (int failures))], True)
         else if int (length grp) \<ge> mm_pattern_promotion_threshold m
         then (''Recurring pattern '' @ name @ '' observed '' @ show_nat (length grp) @ '' times in recent execution.'',
               ''pattern'', 3/2, [(''event_type'', ty), (''occurrences'', PInt (int (length grp)))], False)
         else (''Event summary '' @ name @ '' x'' @ show_nat (length grp) @ ''; last: '' @ last_payload,
               ''summary'', 1, [(''event_type'', ty), (''occurrences'', PInt (int (length grp)))], False))"

fun store_groups :: "mem_env \<Rightarrow> (pyval \<times> event list) list \<Rightarrow> nat \<Rightarrow> nat \<Rightarrow> (nat \<times> nat) mem" where
  "store_groups env [] stored promoted m = (m, Inr (stored, promoted))"
| "store_groups env ((ty, grp) # gs) stored promoted m =
     (case count_failures grp of
        Inl x \<Rightarrow> (m, Inl x)
      | Inr failures \<Rightarrow>
          if \<not> me_db_ok env then (m, Inl OSErr)
          else let (content, kind, salience, metadata, prom) = group_fact m ty grp failures;
                   sm = fst (store_fact (me_sem env) (me_now_iso env) content kind salience metadata (mm_tier2 m))
               in store_groups env gs (stored + 1) (if prom then promoted + 1 else promoted) (m\<lparr>mm_tier2 := sm\<rparr>))"

definition decay_and_prune :: "mem_env \<Rightarrow> int mem" where
  "decay_and_prune env m =
     (if \<not> me_db_ok env then (m, Inl OSErr)
      else let sm1 = fst (decay (me_fromiso env) (me_now env) (mm_decay_half_life_hours m) (mm_tier2 m));
               (sm2, pruned) = prune (mm_prune_min_salience m) sm1
           in (m\<lparr>mm_tier2 := sm2\<rparr>, Inr pruned))"

definition consolidate_impl :: "mem_env \<Rightarrow> event list \<Rightarrow> consolidation_stats mem" where
  "consolidate_impl env events m =
     (if events = [] then
        if read_only_tier2 m
        then (m, Inr \<lparr>cs_events_processed = 0, cs_facts_stored = 0, cs_promoted = 0, cs_pruned = 0\<rparr>)
        else sx_bind (decay_and_prune env) (\<lambda>pruned. sx_return
               \<lparr>cs_events_processed = 0, cs_facts_stored = 0, cs_promoted = 0, cs_pruned = pruned\<rparr>) m
      else if read_only_tier2 m
      then (m, Inr \<lparr>cs_events_processed = length events, cs_facts_stored = 0, cs_promoted = 0, cs_pruned = 0\<rparr>)
      else case group_events events [] of
             Inl x \<Rightarrow> (m, Inl x)
           | Inr gs \<Rightarrow>
               sx_bind (store_groups env gs 0 0) (\<lambda>(stored, promoted).
                 sx_bind (decay_and_prune env) (\<lambda>pruned. sx_return
                   \<lparr>cs_events_processed = length events, cs_facts_stored = stored, cs_promoted = promoted,
                    cs_pruned = pruned\<rparr>)) m)"

definition consolidate_now :: "mem_env \<Rightarrow> consolidation_stats mem" where
  "consolidate_now env m =
     (let (t1, events) = em_drain (mm_tier1 m) in
      case consolidate_impl env events (m\<lparr>mm_tier1 := t1\<rparr>) of
        (m', Inl x) \<Rightarrow> (m', Inl x)
      | (m', Inr stats) \<Rightarrow> (m'\<lparr>mm_tier1 := em_mark_consolidated (mm_tier1 m')\<rparr>, Inr stats))"

subsection \<open>The maintenance worker\<close>

definition maintenance_pass :: "mem_env \<Rightarrow> unit mem" where
  "maintenance_pass env m0 =
     sx_bind (if int (length (em_events (mm_tier1 m0))) \<ge> mm_consolidation_threshold m0
              then sx_bind (consolidate_now env) (\<lambda>_. sx_return ())
              else sx_bind (decay_and_prune env) (\<lambda>_. sx_return ()))
       (\<lambda>_ m. (m\<lparr>mm_maintenance_passes := mm_maintenance_passes m + 1\<rparr>, Inr ())) m0"

text \<open>One iteration of \<open>_worker_loop\<close> after its wait; the result says whether the failure is reported to the
  fallback controller as \<open>maintenance_worker_failure\<close>.\<close>

definition worker_iteration :: "mem_env \<Rightarrow> memory \<Rightarrow> memory \<times> bool" where
  "worker_iteration env m =
     (case maintenance_pass env m of
        (m', Inr _) \<Rightarrow>
          (m'\<lparr>mm_worker_failures := 0, mm_worker_interval := mm_consolidation_interval m'\<rparr>, False)
      | (m', Inl _) \<Rightarrow>
          (let failures = mm_worker_failures m' + 1 in
           (m'\<lparr>mm_worker_failures := failures,
               mm_worker_interval := min 60 (mm_consolidation_interval m' * 2 ^ failures)\<rparr>,
            int failures \<ge> mm_maintenance_failure_threshold m')))"

subsection \<open>Dreams\<close>

text \<open>Counting by event type, in order of first occurrence.\<close>

definition bump :: "pyval \<Rightarrow> (pyval \<times> nat) list \<Rightarrow> (pyval \<times> nat) list" where
  "bump k g = AList.update k ((case map_of g k of None \<Rightarrow> 0 | Some n \<Rightarrow> n) + 1) g"

fun tally :: "event list \<Rightarrow> (pyval \<times> nat) list \<Rightarrow> (pyval \<times> nat) list \<Rightarrow>
    py_exn + ((pyval \<times> nat) list \<times> (pyval \<times> nat) list)" where
  "tally [] fails succs = Inr (fails, succs)"
| "tally (e # es) fails succs =
     (case dget_default e ''payload'' (PDict []) of
        PDict p \<Rightarrow>
          (let ty = dget_default e ''type'' (PStr []);
               status = py_lower (py_str (dget_default p ''status'' (PStr [])))
           in if status \<in> set FAILURE_STATUSES
              then if hashable ty then tally es (bump ty fails) succs else Inl TypeErr
              else if status = ''success''
              then if hashable ty then tally es fails (bump ty succs) else Inl TypeErr
              else tally es fails succs)
      | _ \<Rightarrow> Inl AttributeErr)"

definition extract_insights :: "event list \<Rightarrow> py_exn + string list" where
  "extract_insights events =
     (case tally events [] [] of
        Inl x \<Rightarrow> Inl x
      | Inr (fails, succs) \<Rightarrow>
          Inr (map (\<lambda>(ty, n). ''Recurring failure in '' @ quoted_type ty @ '' ('' @ show_nat n @ '' times) '' @
                       em_dash @ '' review approach'') (filter (\<lambda>(_, n). n \<ge> 2) fails) @
               map (\<lambda>(ty, n). ''Consistent success with '' @ quoted_type ty @ '' ('' @ show_nat n @ '' times) '' @
                       em_dash @ '' reliable strategy'') (filter (\<lambda>(_, n). n \<ge> 3) succs)))"

definition dream_key :: "mem_env \<Rightarrow> nat \<Rightarrow> string" where
  "dream_key env n = ''dream_insight_'' @ take 10 (me_now_iso env) @ ''_'' @ show_nat n"

fun add_insights :: "mem_env \<Rightarrow> string list \<Rightarrow> string list \<Rightarrow> core \<Rightarrow> core \<times> string list" where
  "add_insights env [] added c = (c, added)"
| "add_insights env (i # is) added c =
     (case promote_invariant (me_H env) (me_HM env) (me_now_iso env) (me_ledger_ok env)
             (dream_key env (length added)) (take 160 i) (Some ''dream_consolidation'') c of
        (c', Inr _) \<Rightarrow> add_insights env is (added @ [take 160 i]) c'
      | (c', Inl _) \<Rightarrow> add_insights env is added c')"

record dream_result =
  dr_dreamed :: bool
  dr_events :: nat
  dr_insights :: nat
  dr_added :: "string list"

definition dream :: "mem_env \<Rightarrow> dream_result mem" where
  "dream env m =
     (let events = em_recent (Some 50) (mm_tier1 m) in
      if events = [] then (m, Inr \<lparr>dr_dreamed = False, dr_events = 0, dr_insights = 0, dr_added = []\<rparr>)
      else case extract_insights events of
             Inl x \<Rightarrow> (m, Inl x)
           | Inr insights \<Rightarrow>
               (let (c, added) = add_insights env (take (nat (dc_max_add m)) insights) [] (mm_tier3 m)
                in (m\<lparr>mm_tier3 := c\<rparr>, Inr \<lparr>dr_dreamed = True, dr_events = length events,
                      dr_insights = length insights, dr_added = added\<rparr>)))"

definition tick_dream :: "mem_env \<Rightarrow> dream_result option mem" where
  "tick_dream env m0 =
     (let m = m0\<lparr>dc_tick_count := dc_tick_count m0 + 1\<rparr> in
      if dc_tick_count m - dc_last_dream_at m < dc_every m then (m, Inr None)
      else sx_bind (dream env) (\<lambda>r. sx_return (Some r)) (m\<lparr>dc_last_dream_at := dc_tick_count m\<rparr>))"

subsection \<open>Privileged promotion\<close>

definition promote_to_core :: "mem_env \<Rightarrow> string \<Rightarrow> string \<Rightarrow> string option \<Rightarrow> unit mem" where
  "promote_to_core env key description authorized_by m =
     (case promote_invariant (me_H env) (me_HM env) (me_now_iso env) (me_ledger_ok env) key description
             authorized_by (mm_tier3 m) of
        (c, r) \<Rightarrow> (m\<lparr>mm_tier3 := c\<rparr>, r))"

definition review_promotion_candidates :: "real \<Rightarrow> int \<Rightarrow> int \<Rightarrow> memory \<Rightarrow> fact list" where
  "review_promotion_candidates min_salience min_access_count limit m =
     candidates_for_promotion min_salience min_access_count limit (mm_tier2 m)"

subsection \<open>Importing is idempotent\<close>

text \<open>A peer's fact that importing would not store.\<close>

definition known :: "semantic \<Rightarrow> pyval \<Rightarrow> bool" where
  "known sm v \<longleftrightarrow> (case v of PDict fd \<Rightarrow> shared_content fd = [] \<or> content_exists (shared_content fd) sm | _ \<Rightarrow> True)"

lemma store_fact_facts:
  "\<exists>f. sm_facts (fst (store_fact env now c k s md sm)) = sm_facts sm @ [f] \<and> f_content f = sanitize_text c 2000"
  by (rule exI [of _ "fact_row env (sm_dimension sm) (sm_next_fact sm) now (sanitize_text c 2000)
        (let k = sanitize_text k 32 in if k = [] then ''fact'' else k) s md"])
     (simp add: store_fact_def Let_def)

lemma import_one_cases:
  assumes "import_one env origin v n sm = (sm', Inr n')"
  obtains "known sm v" "sm' = sm" "ic_imported n' = ic_imported n"
  | f where "sm_facts sm' = sm_facts sm @ [f]" "f_content f \<notin> f_content ` set (sm_facts sm)" "known sm' v"
proof (cases "known sm v")
  case True
  with assms that(1) show ?thesis
    by (auto simp: import_one_def known_def Let_def split: pyval.splits if_splits sum.splits)
next
  case False
  then obtain fd where v: "v = PDict fd" "shared_content fd \<noteq> []" "\<not> content_exists (shared_content fd) sm"
    by (cases v) (auto simp: known_def)
  with assms obtain k s md where sm': "sm' = fst (store_fact (me_sem env) (me_now_iso env) (shared_content fd) k s md sm)"
    by (auto simp: import_one_def Let_def split: sum.splits if_splits)
  from store_fact_facts [of "me_sem env" "me_now_iso env" "shared_content fd" k s md sm] sm'
  obtain f where f: "sm_facts sm' = sm_facts sm @ [f]" "f_content f = sanitize_text (shared_content fd) 2000"
    by auto
  show ?thesis
  proof (rule that(2) [OF f(1)])
    show "f_content f \<notin> f_content ` set (sm_facts sm)"
      using v(3) f(2) by (auto simp: content_exists_def list_ex_iff)
    show "known sm' v" using v f by (simp add: known_def content_exists_def)
  qed
qed

lemma known_append: "known sm v \<Longrightarrow> sm_facts sm' = sm_facts sm @ fs \<Longrightarrow> known sm' v"
  by (auto simp: known_def content_exists_def split: pyval.splits)

lemma import_loop_spec:
  assumes "import_loop env origin vs n sm = (sm', Inr n')"
  shows "(\<exists>fs. sm_facts sm' = sm_facts sm @ fs) \<and> (\<forall>v\<in>set vs. known sm' v) \<and>
    (distinct (map f_content (sm_facts sm)) \<longrightarrow> distinct (map f_content (sm_facts sm')))"
  using assms
proof (induction vs arbitrary: n sm)
  case Nil
  then show ?case by (simp add: sx_return_def)
next
  case (Cons v vs)
  from Cons.prems obtain sm1 n1 where one: "import_one env origin v n sm = (sm1, Inr n1)"
    and rest: "import_loop env origin vs n1 sm1 = (sm', Inr n')"
    by (auto simp: sx_bind_Inr_iff)
  note ih = Cons.IH [OF rest]
  from one show ?case
  proof (cases rule: import_one_cases)
    case 1
    with ih show ?thesis by (auto intro: known_append)
  next
    case (2 f)
    with ih show ?thesis by (auto intro: known_append)
  qed
qed

lemma import_one_known:
  "known sm v \<Longrightarrow> \<exists>n'. import_one env origin v n sm = (sm, Inr n') \<and> ic_imported n' = ic_imported n"
  by (auto simp: import_one_def known_def Let_def split: pyval.splits)

lemma import_loop_known:
  "\<forall>v\<in>set vs. known sm v \<Longrightarrow>
     \<exists>n'. import_loop env origin vs n sm = (sm, Inr n') \<and> ic_imported n' = ic_imported n"
proof (induction vs arbitrary: n)
  case (Cons v vs)
  from import_one_known [of sm v env origin n] Cons.prems
  obtain n1 where "import_one env origin v n sm = (sm, Inr n1)" "ic_imported n1 = ic_imported n" by auto
  with Cons.IH [of n1] Cons.prems show ?case by (auto simp: sx_bind_def)
qed (simp add: sx_return_def)

lemma shugonet_allowed [simp]: "enforce_write ''tier2'' ''shugonet'' m = Inr ()"
  by (simp add: enforce_write_def check_write_permission_def write_gates_def)

text \<open>Importing peer facts is idempotent. Once an import has succeeded, importing the same facts
  again, at any later time and under any name of the source, stores nothing and changes nothing; and an
  import never stores the same content twice, even when the peer sends it twice.\<close>

theorem import_idempotent:
  assumes "import_shared_facts env facts source m = (m', Inr n)"
  shows "(\<exists>k. import_shared_facts env' facts source' m' = (m', Inr k) \<and> ic_imported k = 0) \<and>
    (distinct (map f_content (sm_facts (mm_tier2 m))) \<longrightarrow> distinct (map f_content (sm_facts (mm_tier2 m'))))"
proof -
  let ?n0 = "\<lparr>ic_imported = 0, ic_skipped = 0, ic_duplicates = 0\<rparr>"
  let ?o = "\<lambda>s. let o1 = sanitize_text s 64 in if o1 = [] then ''unknown'' else o1"
  from assms obtain sm where sm: "import_loop env (?o source) facts ?n0 (mm_tier2 m) = (sm, Inr n)"
    and m': "m' = m\<lparr>mm_tier2 := sm\<rparr>"
    by (auto simp: import_shared_facts_def Let_def split: prod.splits sum.splits if_splits)
  note spec = import_loop_spec [OF sm]
  from import_loop_known [of facts sm env' "?o source'" ?n0] spec obtain k where
    k: "import_loop env' (?o source') facts ?n0 sm = (sm, Inr k)" "ic_imported k = 0" by auto
  have "import_shared_facts env' facts source' m' = (m', Inr k)"
    using k(1) by (simp add: import_shared_facts_def m')
  with k(2) spec m' show ?thesis by auto
qed

definition calm_env :: mem_env where
  "calm_env = \<lparr>me_sem = no_env, me_fromiso = (\<lambda>_. None), me_now = 0, me_now_iso = ''2026-01-01T00:00:00'',
     me_db_ok = True, me_ledger_ok = True, me_H = flat_hash, me_HM = (\<lambda>k x. ''m''),
     me_float = (\<lambda>_. None), me_repr = (\<lambda>_. ''1.0'')\<rparr>"

definition sample_memory :: "mem_policy \<Rightarrow> memory" where
  "sample_memory pol = projr (new_memory ''a'' ''shared_rw'' None None journaled)\<lparr>mm_policy := pol\<rparr>"

theorem import_idempotent_witness:
  "\<exists>k. import_shared_facts calm_env [PNone] ''peer'' (sample_memory SharedRW) = (sample_memory SharedRW, Inr k) \<and>
     ic_imported k = 0"
  using import_idempotent [of calm_env "[PNone]" "''peer''" "sample_memory SharedRW" "sample_memory SharedRW"
      "\<lparr>ic_imported = 0, ic_skipped = 1, ic_duplicates = 0\<rparr>" calm_env "''peer''"]
  by (simp add: import_shared_facts_def Let_def import_one_def sx_bind_def sx_return_def)

subsection \<open>Policies\<close>

lemma shared_read_impl:
  "mm_policy m = SharedRead \<Longrightarrow> mm_tier2 (fst (consolidate_impl env events m)) = mm_tier2 m"
  by (simp add: consolidate_impl_def read_only_tier2_def)

text \<open>An agent with the \<open>shared_read\<close> policy never writes the shared Tier 2 by consolidation: \<open>consolidate_now\<close>
  leaves the store exactly as it was, whatever the events are.\<close>

theorem shared_read_consolidation_is_pure:
  assumes "mm_policy m = SharedRead"
  shows "mm_tier2 (fst (consolidate_now env m)) = mm_tier2 m"
proof -
  obtain t1 events where d: "em_drain (mm_tier1 m) = (t1, events)" by fastforce
  from shared_read_impl [of "m\<lparr>mm_tier1 := t1\<rparr>" env events] assms
  show ?thesis by (auto simp: consolidate_now_def d split: prod.splits sum.splits)
qed

theorem shared_read_consolidation_is_pure_witness:
  "mm_tier2 (fst (consolidate_now calm_env (sample_memory SharedRead))) = mm_tier2 (sample_memory SharedRead)"
  by (rule shared_read_consolidation_is_pure) (simp add: sample_memory_def)

text \<open>The same agent's idle maintenance pass does write it: with few events pending, a maintenance
  pass decays and prunes the shared store, and can delete every fact in it, although the policy is
  documented as one whose worker never writes Tier 2.\<close>

theorem shared_read_idle_pass_deletes:
  "\<exists>m. mm_policy m = SharedRead \<and> sm_facts (mm_tier2 m) \<noteq> [] \<and>
     sm_facts (mm_tier2 (fst (maintenance_pass calm_env m))) = []"
proof -
  let ?m = "sample_memory SharedRead\<lparr>mm_tier2 := new_semantic 16\<lparr>sm_facts := [sample_fact\<lparr>f_salience := 0\<rparr>]\<rparr>\<rparr>"
  have "sm_facts (mm_tier2 (fst (maintenance_pass calm_env ?m))) = []"
    by (simp add: maintenance_pass_def decay_and_prune_def decay_def prune_def decay_fact_def decayed_salience_def
        sx_bind_def sx_return_def calm_env_def sample_memory_def new_memory_def parse_policy_def py_lower_def
        lower_char_def char_code_def journaled_def sample_fact_def Let_def)
  then show ?thesis by (intro exI [of _ ?m]) (simp add: sample_memory_def)
qed

subsection \<open>The world model changes only on the privileged paths\<close>

lemma store_groups_tier3: "mm_tier3 (fst (store_groups env gs s p m)) = mm_tier3 m"
  by (induction env gs s p m rule: store_groups.induct) (auto simp: Let_def split: sum.splits prod.splits)

lemma decay_and_prune_tier3: "mm_tier3 (fst (decay_and_prune env m)) = mm_tier3 m"
  by (simp add: decay_and_prune_def Let_def split: prod.splits)

lemma sx_bind_frame:
  assumes "\<And>s. fld (fst (f s)) = fld s" and "\<And>x s. fld (fst (g x s)) = fld s"
  shows "fld (fst (sx_bind f g s)) = fld s"
proof (cases "f s")
  case (Pair s' r)
  with assms(1) [of s] assms(2) [of _ s'] show ?thesis by (cases r) (auto simp: sx_bind_def)
qed

lemma consolidate_impl_tier3: "mm_tier3 (fst (consolidate_impl env es m)) = mm_tier3 m"
  by (auto simp: consolidate_impl_def sx_return_def split: sum.splits
      intro!: sx_bind_frame [where fld = mm_tier3] decay_and_prune_tier3 store_groups_tier3)

lemma consolidate_now_tier3: "mm_tier3 (fst (consolidate_now env m)) = mm_tier3 m"
proof -
  obtain t1 events where d: "em_drain (mm_tier1 m) = (t1, events)" by fastforce
  from consolidate_impl_tier3 [of env events "m\<lparr>mm_tier1 := t1\<rparr>"]
  show ?thesis by (auto simp: consolidate_now_def d split: prod.splits sum.splits)
qed

lemma maintenance_pass_tier3: "mm_tier3 (fst (maintenance_pass env m)) = mm_tier3 m"
  unfolding maintenance_pass_def
  by (rule sx_bind_frame [where fld = mm_tier3])
     (auto simp: sx_return_def intro!: sx_bind_frame [where fld = mm_tier3] decay_and_prune_tier3 consolidate_now_tier3)

datatype loop_op =
    LNote string string
  | LResolve
  | LRecord mem_env string pydict pydict
  | LRetrieve mem_env string int bool
  | LImport mem_env "pyval list" string
  | LConsolidate mem_env
  | LWorker mem_env

fun loop_apply :: "loop_op \<Rightarrow> memory \<Rightarrow> memory" where
  "loop_apply (LNote ts t) m = note_step ts t m"
| "loop_apply LResolve m = resolve_step m"
| "loop_apply (LRecord env ty p md) m = fst (record_event env ty p md m)"
| "loop_apply (LRetrieve env q k e) m = fst (retrieve_context env q k e m)"
| "loop_apply (LImport env fs s) m = fst (import_shared_facts env fs s m)"
| "loop_apply (LConsolidate env) m = fst (consolidate_now env m)"
| "loop_apply (LWorker env) m = fst (worker_iteration env m)"

lemma loop_apply_tier3: "mm_tier3 (loop_apply p m) = mm_tier3 m"
proof (cases p)
  case (LWorker env)
  with maintenance_pass_tier3 [of env m] show ?thesis
    by (auto simp: worker_iteration_def Let_def split: prod.splits sum.splits)
qed (auto simp: note_step_def resolve_step_def record_event_def retrieve_context_def import_shared_facts_def
      Let_def consolidate_now_tier3 split: prod.splits sum.splits)

interpretation world: invariant_machine loop_apply "\<lambda>m. mm_tier3 m = c" for c
  by unfold_locales (simp add: loop_apply_tier3)


lemma add_insights_frame:
  assumes "add_insights env is added c = (c', added')" and "\<And>n. k \<noteq> dream_key env n"
  shows "map_of (ci_invariants c') k = map_of (ci_invariants c) k"
  using assms(1)
proof (induction "is" arbitrary: added c)
  case (Cons i "is")
  from Cons.prems Cons.IH promote_frame [OF _ assms(2)] show ?case
    by (auto split: prod.splits sum.splits)
qed simp

lemma add_insights_added:
  "add_insights env is added c = (c', added') \<Longrightarrow>
     length added' \<le> length added + length is \<and> (\<forall>a\<in>set added'. a \<in> set added \<or> length a \<le> 160)"
  by (induction "is" arbitrary: added c) (fastforce split: prod.splits sum.splits)+

text \<open>A dream is clamped. It adds at most \<open>max_sentence_add\<close> insights of at most 160 characters, changes
  no invariant outside the keys \<open>dream_insight_*\<close>, so no operator rule and no built-in invariant, and
  touches no other tier.\<close>

theorem dream_is_clamped:
  assumes "dream env m = (m', Inr r)" and "0 \<le> dc_max_add m"
  shows "int (length (dr_added r)) \<le> dc_max_add m \<and> (\<forall>a\<in>set (dr_added r). length a \<le> 160) \<and>
    (\<forall>k. \<not> prefix ''dream_insight_'' k \<longrightarrow>
       map_of (ci_invariants (mm_tier3 m')) k = map_of (ci_invariants (mm_tier3 m)) k) \<and>
    mm_tier0 m' = mm_tier0 m \<and> mm_tier1 m' = mm_tier1 m \<and> mm_tier2 m' = mm_tier2 m"
proof (cases "em_recent (Some 50) (mm_tier1 m) = []")
  case True
  with assms show ?thesis by (auto simp: dream_def)
next
  case False
  with assms(1) obtain insights c added where
    ins: "add_insights env (take (nat (dc_max_add m)) insights) [] (mm_tier3 m) = (c, added)"
    and m': "m' = m\<lparr>mm_tier3 := c\<rparr>" and r: "dr_added r = added"
    by (auto simp: dream_def Let_def split: sum.splits prod.splits)
  have "map_of (ci_invariants c) k = map_of (ci_invariants (mm_tier3 m)) k" if "\<not> prefix ''dream_insight_'' k" for k
    by (rule add_insights_frame [OF ins]) (use that in \<open>auto simp: dream_key_def\<close>)
  with add_insights_added [OF ins] assms(2) m' r show ?thesis by auto
qed

theorem dream_is_clamped_witness:
  "map_of (ci_invariants (mm_tier3 (fst (dream calm_env (sample_memory SharedRW))))) ''no_harm'' =
   map_of (ci_invariants (mm_tier3 (sample_memory SharedRW))) ''no_harm''"
proof -
  have "dream calm_env (sample_memory SharedRW) =
      (sample_memory SharedRW, Inr \<lparr>dr_dreamed = False, dr_events = 0, dr_insights = 0, dr_added = []\<rparr>)"
    by (simp add: dream_def sample_memory_def new_memory_def parse_policy_def py_lower_def lower_char_def
        char_code_def em_recent_def journaled_def Let_def)
  from dream_is_clamped [OF this] show ?thesis
    by (simp add: dream_def sample_memory_def new_memory_def parse_policy_def py_lower_def lower_char_def
        char_code_def em_recent_def journaled_def Let_def)
qed

end
