(* ===== verification/Resilience.thy ===== *)
theory Resilience
  imports Prelude
begin

text \<open>
  The time-dependent guards of \<open>src/security.py\<close>: the per-key token bucket
  (\<open>RateLimiter\<close>), the \<open>CircuitBreaker\<close> and \<open>retry_with_backoff\<close>. Clock readings are
  arguments; the readings of one lock-protected section are one instant. \<open>rl_acquire\<close> runs the
  waiting loop on a clock that a sleep advances by at least the time asked for (\<open>late i\<close> is how
  much later the thread wakes up in round \<open>i\<close>).
\<close>

subsection \<open>Token bucket\<close>

record rate_limiter =
  rl_rate :: real
  rl_capacity :: int
  rl_buckets :: "(string \<times> (real \<times> real)) list"

definition new_rate_limiter :: "real \<Rightarrow> int \<Rightarrow> rate_limiter" where
  "new_rate_limiter calls_per_minute burst =
     \<lparr>rl_rate = max 0.01 calls_per_minute / 60, rl_capacity = max 1 burst, rl_buckets = []\<rparr>"

text \<open>The tokens available to a key at an instant.\<close>

definition rl_tokens :: "real \<Rightarrow> string \<Rightarrow> rate_limiter \<Rightarrow> real" where
  "rl_tokens now key rl =
     (case map_of (rl_buckets rl) key of
        None \<Rightarrow> min (real_of_int (rl_capacity rl)) (real_of_int (rl_capacity rl) + (now - now) * rl_rate rl)
      | Some (tokens, stamp) \<Rightarrow> min (real_of_int (rl_capacity rl)) (tokens + (now - stamp) * rl_rate rl))"

text \<open>One pass through the locked section: take a token, or report how long to wait.\<close>

definition rl_try :: "real \<Rightarrow> string \<Rightarrow> rate_limiter \<Rightarrow> rate_limiter \<times> real option" where
  "rl_try now key rl =
     (let tokens = rl_tokens now key rl
      in if tokens \<ge> 1
         then (rl\<lparr>rl_buckets := AList.update key (tokens - 1, now) (rl_buckets rl)\<rparr>, None)
         else (rl, Some ((1 - tokens) / rl_rate rl)))"

fun rl_loop :: "nat \<Rightarrow> (nat \<Rightarrow> real) \<Rightarrow> nat \<Rightarrow> real \<Rightarrow> real \<Rightarrow> string \<Rightarrow> rate_limiter \<Rightarrow>
    (rate_limiter \<times> bool) option" where
  "rl_loop 0 late i now deadline key rl = None"
| "rl_loop (Suc fuel) late i now deadline key rl =
     (case rl_try now key rl of
        (rl', None) \<Rightarrow> Some (rl', True)
      | (rl', Some wait_needed) \<Rightarrow>
          (let remaining = deadline - now
           in if remaining \<le> 0 then Some (rl', False)
              else rl_loop fuel late (Suc i)
                     (now + min (min wait_needed remaining) (1/2) + late i) deadline key rl'))"

definition rl_acquire :: "nat \<Rightarrow> (nat \<Rightarrow> real) \<Rightarrow> real \<Rightarrow> string \<Rightarrow> real \<Rightarrow> rate_limiter \<Rightarrow>
    (rate_limiter \<times> bool) option" where
  "rl_acquire fuel late now key timeout rl =
     rl_loop fuel late 0 now (now + max 0 timeout) key rl"

definition rl_ok :: "rate_limiter \<Rightarrow> bool" where
  "rl_ok rl \<longleftrightarrow> 0 < rl_rate rl \<and> 1 \<le> rl_capacity rl"

lemma rl_ok_new: "rl_ok (new_rate_limiter c b)"
  by (simp add: rl_ok_def new_rate_limiter_def)

lemma rl_try_ok: "rl_ok rl \<Longrightarrow> rl_ok (fst (rl_try now key rl))"
  by (simp add: rl_ok_def rl_try_def Let_def)

text \<open>Enough fuel. While the loop waits, it sleeps half a second, or until the deadline, or for
  the time the missing fraction of a token needs; after the stamp kind of sleep the next pass
  takes the token. So two passes more than the half seconds in the timeout suffice.\<close>

lemma rl_try_after_wait:
  assumes "rl_ok rl" and "rl_try now key rl = (rl', Some w)" and "t \<ge> now + w"
  shows "\<exists>rl''. rl_try t key rl' = (rl'', None)"
proof -
  from assms(2) have rl': "rl' = rl" and w: "w = (1 - rl_tokens now key rl) / rl_rate rl"
    and lt: "rl_tokens now key rl < 1"
    by (auto simp: rl_try_def Let_def split: if_splits)
  from assms(1) have r: "0 < rl_rate rl" and c: "1 \<le> rl_capacity rl" by (auto simp: rl_ok_def)
  from lt c obtain tok stamp where b: "map_of (rl_buckets rl) key = Some (tok, stamp)"
    by (auto simp: rl_tokens_def split: option.splits)
  with lt c have tk: "rl_tokens now key rl = tok + (now - stamp) * rl_rate rl"
    by (auto simp: rl_tokens_def min_def split: if_splits)
  have "(t - now) * rl_rate rl \<ge> w * rl_rate rl"
    using assms(3) r by (intro mult_right_mono) auto
  moreover have "w * rl_rate rl = 1 - rl_tokens now key rl"
    using w r by (simp add: field_simps)
  ultimately have "tok + (t - stamp) * rl_rate rl \<ge> 1"
    using tk by (simp add: algebra_simps)
  with b c have "rl_tokens t key rl' \<ge> 1" by (simp add: rl_tokens_def rl')
  then show ?thesis by (simp add: rl_try_def)
qed

lemma rl_loop_done: "rl_try now key rl = (rl', None) \<Longrightarrow> rl_loop (Suc fuel) late i now dl key rl \<noteq> None"
  by simp

lemma rl_loop_late: "dl \<le> now \<Longrightarrow> rl_loop (Suc fuel) late i now dl key rl \<noteq> None"
  by (auto split: prod.splits option.splits)

lemma rl_loop_enough:
  assumes "rl_ok rl" and "\<And>j. 0 \<le> late j" and "dl - now \<le> real n / 2"
  shows "rl_loop (Suc (Suc n)) late i now dl key rl \<noteq> None"
  using assms(1,3)
proof (induction n arbitrary: i now)
  case 0
  then have "dl \<le> now" by simp
  then show ?case by (rule rl_loop_late)
next
  case (Suc n)
  obtain rl' o' where tr: "rl_try now key rl = (rl', o')" by fastforce
  show ?case
  proof (cases o')
    case None
    with tr show ?thesis by simp
  next
    case (Some w)
    from tr Some have rl': "rl' = rl" by (auto simp: rl_try_def Let_def split: if_splits)
    let ?s = "min (min w (dl - now)) (1/2)"
    let ?t = "now + ?s + late i"
    have "rl_loop (Suc (Suc n)) late (Suc i) ?t dl key rl' \<noteq> None" if pos: "0 < dl - now"
    proof -
      consider "?s = 1/2" | "?s = dl - now" | "?s = w" by linarith
      then show ?thesis
      proof cases
        case 1
        with Suc.prems(2) assms(2) [of i] have "dl - ?t \<le> real n / 2" by simp
        with Suc.IH [OF Suc.prems(1)] rl' show ?thesis by blast
      next
        case 2
        with assms(2) [of i] have "dl \<le> ?t" by simp
        then show ?thesis by (rule rl_loop_late)
      next
        case 3
        with assms(2) [of i] have "?t \<ge> now + w" by simp
        from rl_try_after_wait [OF Suc.prems(1) _ this] tr Some
        obtain rl'' where "rl_try ?t key rl' = (rl'', None)" by blast
        then show ?thesis by (rule rl_loop_done)
      qed
    qed
    moreover have "rl_loop (Suc (Suc (Suc n))) late i now dl key rl =
        (if dl - now \<le> 0 then Some (rl', False)
         else rl_loop (Suc (Suc n)) late (Suc i) ?t dl key rl')"
      by (subst rl_loop.simps) (simp add: tr Some Let_def)
    ultimately show ?thesis by (cases "dl - now \<le> 0") (simp_all del: rl_loop.simps)
  qed
qed



text \<open>The successes of a sequence of attempts on one key, at given times.\<close>

fun rl_grants :: "string \<Rightarrow> real list \<Rightarrow> rate_limiter \<Rightarrow> nat" where
  "rl_grants key [] rl = 0"
| "rl_grants key (t # ts) rl =
     (case rl_try t key rl of (rl', None) \<Rightarrow> Suc (rl_grants key ts rl')
      | (rl', Some _) \<Rightarrow> rl_grants key ts rl')"

lemma rl_grants_bucket:
  assumes "rl_ok rl" and "map_of (rl_buckets rl) key = Some (tok, stamp)" and "0 \<le> tok"
    and "\<forall>t\<in>set ts. t \<le> T" and "stamp \<le> T"
  shows "real (rl_grants key ts rl) \<le> tok + (T - stamp) * rl_rate rl"
  using assms
proof (induction ts arbitrary: rl tok stamp)
  case Nil
  then show ?case by (simp add: rl_ok_def)
next
  case (Cons t ts)
  let ?tk = "rl_tokens t key rl"
  have le: "?tk \<le> tok + (t - stamp) * rl_rate rl"
    using Cons.prems(2) by (simp add: rl_tokens_def)
  show ?case
  proof (cases "?tk \<ge> 1")
    case False
    with Cons show ?thesis by (simp add: rl_try_def Let_def)
  next
    case True
    let ?rl = "rl\<lparr>rl_buckets := AList.update key (?tk - 1, t) (rl_buckets rl)\<rparr>"
    have tr: "rl_try t key rl = (?rl, None)" using True by (simp add: rl_try_def)
    have "real (rl_grants key ts ?rl) \<le> (?tk - 1) + (T - t) * rl_rate ?rl"
      by (rule Cons.IH) (use Cons.prems True in \<open>auto simp: rl_ok_def update_conv'\<close>)
    with le tr show ?thesis by (simp add: algebra_simps)
  qed
qed



subsection \<open>Circuit breaker\<close>

record breaker =
  failure_threshold :: int
  reset_timeout :: real
  b_failures :: int
  opened_at :: "real option"

definition new_breaker :: "int \<Rightarrow> real \<Rightarrow> breaker" where
  "new_breaker threshold timeout =
     \<lparr>failure_threshold = max 1 threshold, reset_timeout = max 0 timeout, b_failures = 0,
      opened_at = None\<rparr>"

definition breaker_allow :: "real \<Rightarrow> breaker \<Rightarrow> breaker \<times> bool" where
  "breaker_allow now b =
     (case opened_at b of
        None \<Rightarrow> (b, True)
      | Some t \<Rightarrow>
          if now - t \<ge> reset_timeout b
          then (b\<lparr>opened_at := None, b_failures := failure_threshold b - 1\<rparr>, True)
          else (b, False))"

definition breaker_is_open :: "real \<Rightarrow> breaker \<Rightarrow> bool" where
  "breaker_is_open now b =
     (case opened_at b of None \<Rightarrow> False | Some t \<Rightarrow> now - t < reset_timeout b)"

definition record_success :: "breaker \<Rightarrow> breaker" where
  "record_success b = b\<lparr>b_failures := 0, opened_at := None\<rparr>"

definition record_failure :: "real \<Rightarrow> breaker \<Rightarrow> breaker" where
  "record_failure now b =
     (let b' = b\<lparr>b_failures := b_failures b + 1\<rparr>
      in if b_failures b' \<ge> failure_threshold b' then b'\<lparr>opened_at := Some now\<rparr> else b')"

lemmas breaker_op_defs [op_defs] =
  breaker_allow_def record_success_def record_failure_def Let_def

datatype breaker_op = BAllow real | BSuccess | BFailure real

fun breaker_apply :: "breaker_op \<Rightarrow> breaker \<Rightarrow> breaker" where
  "breaker_apply (BAllow now) b = fst (breaker_allow now b)"
| "breaker_apply BSuccess b = record_success b"
| "breaker_apply (BFailure now) b = record_failure now b"

text \<open>The breaker is open exactly when the failures counted since the last success reach the
  threshold.\<close>

definition breaker_inv :: "breaker \<Rightarrow> bool" where
  "breaker_inv b \<longleftrightarrow> 1 \<le> failure_threshold b \<and> 0 \<le> reset_timeout b \<and> 0 \<le> b_failures b \<and>
     (opened_at b \<noteq> None \<longleftrightarrow> b_failures b \<ge> failure_threshold b)"

lemma breaker_inv_apply: "breaker_inv b \<Longrightarrow> breaker_inv (breaker_apply p b)"
  by (cases p) (auto simp: breaker_inv_def breaker_op_defs split: option.splits)

lemma breaker_inv_new: "breaker_inv (new_breaker n t)"
  by (simp add: breaker_inv_def new_breaker_def)

interpretation brk: invariant_machine breaker_apply breaker_inv
  by unfold_locales (rule breaker_inv_apply)

lemma failures_run:
  assumes "breaker_inv b" and "opened_at b = None"
  shows "let b' = run_ops breaker_apply (map BFailure ts) b
         in b_failures b' = b_failures b + int (length ts) \<and>
            failure_threshold b' = failure_threshold b \<and> reset_timeout b' = reset_timeout b \<and>
            (b_failures b' \<ge> failure_threshold b \<and> ts \<noteq> [] \<longrightarrow> opened_at b' = Some (last ts))"
proof (induction ts rule: rev_induct)
  case Nil
  then show ?case by simp
next
  case (snoc t ts)
  then show ?case
    by (auto simp: run_ops_append breaker_op_defs)
qed

text \<open>The breaker opens after exactly \<open>failure_threshold\<close> consecutive failures and then
  refuses every call until the reset timeout has passed: from a closed breaker with no failure
  counted, \<open>n\<close> failures leave it answering \<open>allow\<close> at a later time \<open>now\<close> inside the timeout if
  and only if \<open>n\<close> is below the threshold.\<close>

theorem breaker_opens_at_threshold:
  assumes "breaker_inv b" and "b_failures b = 0" and "ts \<noteq> []"
    and "now < last ts + reset_timeout b"
  shows "snd (breaker_allow now (run_ops breaker_apply (map BFailure ts) b)) \<longleftrightarrow>
         int (length ts) < failure_threshold b"
proof -
  let ?b = "run_ops breaker_apply (map BFailure ts) b"
  from assms(1,2) have o: "opened_at b = None" by (auto simp: breaker_inv_def)
  from failures_run [OF assms(1) o, of ts] assms(2)
  have f: "b_failures ?b = int (length ts)" "failure_threshold ?b = failure_threshold b"
      "reset_timeout ?b = reset_timeout b"
      "int (length ts) \<ge> failure_threshold b \<longrightarrow> opened_at ?b = Some (last ts)"
    using assms(3) by (auto simp: Let_def)
  have inv: "breaker_inv ?b" by (rule brk.inv_run) (rule assms(1))
  show ?thesis
  proof (cases "int (length ts) < failure_threshold b")
    case True
    with inv f have "opened_at ?b = None" by (auto simp: breaker_inv_def)
    with True show ?thesis by (simp add: breaker_allow_def)
  next
    case False
    with f have "opened_at ?b = Some (last ts)" by simp
    with False f assms(4) show ?thesis by (simp add: breaker_allow_def)
  qed
qed

theorem breaker_opens_at_threshold_witness:
  "\<not> snd (breaker_allow 10 (run_ops breaker_apply (map BFailure [1, 2, 3, 4, 5]) (new_breaker 5 60)))"
proof -
  have "(10::real) < last [1, 2, 3, 4, 5] + reset_timeout (new_breaker 5 60)"
    "b_failures (new_breaker 5 60) = 0" "failure_threshold (new_breaker 5 60) = 5"
    by (simp_all add: new_breaker_def)
  with breaker_opens_at_threshold [OF breaker_inv_new, of 5 60 "[1, 2, 3, 4, 5]" 10]
  show ?thesis by (simp del: list.map)
qed

text \<open>The half-open state lets more than one attempt through. After the reset timeout, the
  first \<open>allow\<close> clears \<open>_opened_at\<close>, so every further \<open>allow\<close> also answers yes until a failure
  is recorded. (The comment in the code says that one attempt is allowed.)\<close>

theorem half_open_admits_every_attempt:
  assumes "opened_at b = Some t" and "now \<ge> t + reset_timeout b"
  shows "snd (breaker_allow now' (run_ops breaker_apply (map BAllow (now # ts)) b))"
proof -
  have "opened_at (run_ops breaker_apply (map BAllow us) c) = None" if "opened_at c = None" for us c
    using that by (induction us arbitrary: c) (auto simp: breaker_op_defs)
  with assms show ?thesis by (auto simp: breaker_op_defs)
qed

theorem half_open_admits_every_attempt_witness:
  "snd (breaker_allow 63 (run_ops breaker_apply (map BAllow (61 # [62]))
     (\<lparr>failure_threshold = 5, reset_timeout = 60, b_failures = 5, opened_at = Some 1\<rparr>)))"
  by (rule half_open_admits_every_attempt [where t = 1]) simp_all

subsection \<open>Bounded retries\<close>

text \<open>\<open>fn i\<close> is what the call returns or raises on attempt \<open>i\<close>; \<open>retry_on\<close> says which
  exceptions are retried. The result carries the delays that were slept.\<close>

fun retry_from :: "(nat \<Rightarrow> 'e + 'a) \<Rightarrow> ('e \<Rightarrow> bool) \<Rightarrow> int \<Rightarrow> real \<Rightarrow> real \<Rightarrow> nat \<Rightarrow> nat \<Rightarrow> 'e option \<Rightarrow>
    real list \<times> ('e option + 'a)" where
  "retry_from fn retry_on attempts base_delay max_delay 0 attempt last_error = ([], Inl last_error)"
| "retry_from fn retry_on attempts base_delay max_delay (Suc k) attempt last_error =
     (case fn attempt of
        Inr v \<Rightarrow> ([], Inr v)
      | Inl exc \<Rightarrow>
          if \<not> retry_on exc then ([], Inl (Some exc))
          else if int attempt = attempts - 1 then ([], Inl (Some exc))
          else (let delay = min max_delay (base_delay * 2 ^ attempt);
                    (ds, r) = retry_from fn retry_on attempts base_delay max_delay k (Suc attempt) (Some exc)
                in (delay # ds, r)))"

definition retry_with_backoff ::
  "(nat \<Rightarrow> 'e + 'a) \<Rightarrow> ('e \<Rightarrow> bool) \<Rightarrow> int \<Rightarrow> real \<Rightarrow> real \<Rightarrow> real list \<times> ('e option + 'a)" where
  "retry_with_backoff fn retry_on attempts base_delay max_delay =
     retry_from fn retry_on attempts base_delay max_delay (nat (max 1 attempts)) 0 None"

lemma retry_from_success:
  assumes "fn n = Inr v" and "\<forall>i. a \<le> i \<and> i < n \<longrightarrow> (\<exists>e. fn i = Inl e \<and> retry_on e)"
    and "a \<le> n" and "n < a + k" and "int (a + k) \<le> attempts"
  shows "retry_from fn retry_on attempts b m k a le =
           (map (\<lambda>i. min m (b * 2 ^ i)) [a..<n], Inr v)"
  using assms(2-5)
proof (induction k arbitrary: a le)
  case 0
  then show ?case by simp
next
  case (Suc k)
  show ?case
  proof (cases "a = n")
    case True
    with assms(1) show ?thesis by simp
  next
    case False
    with Suc.prems obtain e where e: "fn a = Inl e" "retry_on e" by force
    have ih: "retry_from fn retry_on attempts b m k (Suc a) (Some e) =
        (map (\<lambda>i. min m (b * 2 ^ i)) [Suc a..<n], Inr v)"
      by (rule Suc.IH) (use Suc.prems False in auto)
    have "int a \<noteq> attempts - 1" using Suc.prems False by simp
    with e ih False Suc.prems show ?thesis by (simp add: Let_def upt_conv_Cons)
  qed
qed

lemma retry_from_delays:
  "\<forall>d\<in>set (fst (retry_from fn retry_on attempts b m k a le)). d \<le> m"
  by (induction k arbitrary: a le)
     (auto simp: Let_def split: sum.splits prod.splits, (metis fst_conv)+)

lemma retry_from_length:
  "length (fst (retry_from fn retry_on attempts b m k a le)) \<le> k"
  by (induction k arbitrary: a le)
     (auto simp: Let_def split: sum.splits prod.splits, (metis fst_conv)+)

text \<open>Retries are bounded and do not lose a success. If the call first succeeds on attempt
  \<open>n\<close>, below the allowed number of attempts, after failures that are all retried, the result is
  that success, after exactly \<open>n\<close> sleeps whose lengths double from \<open>base_delay\<close> and are capped by
  \<open>max_delay\<close>.\<close>

theorem retry_returns_first_success:
  assumes "fn n = Inr v" and "\<forall>i<n. \<exists>e. fn i = Inl e \<and> retry_on e" and "int n < attempts"
  shows "retry_with_backoff fn retry_on attempts b m =
           (map (\<lambda>i. min m (b * 2 ^ i)) [0..<n], Inr v)"
  unfolding retry_with_backoff_def
  by (rule retry_from_success) (use assms in auto)

theorem retry_returns_first_success_witness:
  "retry_with_backoff (\<lambda>i. if i < 2 then Inl ''timeout'' else Inr (7::nat)) (\<lambda>_. True) 3 (1/2) 4 =
     (map (\<lambda>i. min 4 (1/2 * 2 ^ i)) [0..<2], Inr 7)"
  by (rule retry_returns_first_success) auto

end
