(* ===== verification/Execution.thy ===== *)
theory Execution
  imports Audit_Chain Resilience
begin

text \<open>
  \<open>src/execution_layer.py\<close>: the executor. Its state holds the capability registry, the secret
  resolver, the rate limiter, the circuit breaker of each host, the installed handlers and
  the audit chain; \<open>el_trace\<close> records the effects on the outside world, an HTTP request sent or a
  handler called, in order. What a call meets outside the program (the clock, the wake-up times
  of the rate limiter's sleeps, the HTTP peer, \<open>json.loads\<close>, the process environment) is the
  argument \<open>env\<close>; handlers are functions from a decision to a result or the name of an exception.
\<close>

subsection \<open>State and environment\<close>

type_synonym exn_name = string
type_synonym handler = "pydict \<Rightarrow> exn_name + pydict"

datatype exec_effect =
    HttpRequest string string pyval pyval
  | HandlerCall string pydict

text \<open>A response: status, body chunks as they arrive, and the decoder of the declared encoding
  (\<open>None\<close>: Python does not know the encoding). Otherwise the request raises an exception, of the
  \<open>requests\<close> family or another.\<close>

datatype http_outcome =
    HttpResponse int "string list" "string \<Rightarrow> string option"
  | HttpRequestException exn_name
  | HttpOtherException exn_name

record exec_env =
  xe_environ :: "string \<rightharpoonup> string"
  xe_now :: real
  xe_done :: real
  xe_late :: "nat \<Rightarrow> real"
  xe_http :: "string \<Rightarrow> string \<Rightarrow> pyval \<Rightarrow> pyval \<Rightarrow> http_outcome"
  xe_json_loads :: "string \<Rightarrow> pyval option"
  xe_timestamp :: string
  xe_audit_writable :: bool

record exec_layer =
  el_secrets :: secret_resolver
  el_caps :: capabilities
  el_limiter :: rate_limiter
  el_breakers :: "(string \<times> breaker) list"
  el_handlers :: "(string \<times> handler) list"
  el_audit :: "audit_chain option"
  el_trace :: "exec_effect list"

type_synonym 'a exec = "(exec_layer, exn_name, 'a) sx"

definition new_exec_layer :: "secret_resolver \<Rightarrow> capabilities \<Rightarrow> rate_limiter \<Rightarrow> audit_chain option \<Rightarrow>
    exec_layer" where
  "new_exec_layer secrets caps limiter audit =
     \<lparr>el_secrets = secrets, el_caps = caps, el_limiter = limiter, el_breakers = [],
      el_handlers = [], el_audit = audit, el_trace = []\<rparr>"

subsection \<open>Handlers\<close>

definition handler_types :: "string list" where
  "handler_types =
     SIDE_EFFECTING_ACTION_TYPES @ ROBOTICS_ACTION_TYPES @ ROBOTICS_SAFETY_ACTION_TYPES @
     ROBOTICS_READ_ACTION_TYPES @ MOBILE_ACTION_TYPES @ MOBILE_READ_ACTION_TYPES @
     NETWORK_ACTION_TYPES @ NETWORK_READ_ACTION_TYPES @ FLEET_ACTION_TYPES @
     FLEET_READ_ACTION_TYPES @ OBSERVATION_ACTION_TYPES @ SPEECH_OUTPUT_ACTION_TYPES @
     ASK_USER_ACTION_TYPES"

definition register_handler :: "string \<Rightarrow> handler \<Rightarrow> unit exec" where
  "register_handler action_type handler s =
     (if action_type \<notin> set handler_types then (s, Inl ''ValueError'')
      else (s\<lparr>el_handlers := AList.update action_type handler (el_handlers s)\<rparr>, Inr ()))"

text \<open>\<open>handler(decision)\<close>.\<close>

definition call_handler :: "string \<Rightarrow> handler \<Rightarrow> pydict \<Rightarrow> pydict exec" where
  "call_handler action_type handler decision s =
     (s\<lparr>el_trace := el_trace s @ [HandlerCall action_type decision]\<rparr>, handler decision)"

definition result_refused :: "string \<Rightarrow> pydict" where
  "result_refused reason = [(''status'', PStr ''refused''), (''reason'', PStr reason)]"

definition result_error :: "string \<Rightarrow> pydict" where
  "result_error message = [(''status'', PStr ''error''), (''message'', PStr message)]"

definition result_not_implemented :: "string \<Rightarrow> pydict" where
  "result_not_implemented reason = [(''status'', PStr ''not_implemented''), (''reason'', PStr reason)]"

text \<open>The handler of a built-in type, or the answer that the action is not simulated.\<close>

definition handler_or_not_implemented :: "string \<Rightarrow> string \<Rightarrow> pydict \<Rightarrow> pydict exec" where
  "handler_or_not_implemented action_type what decision s =
     (case map_of (el_handlers s) action_type of
        None \<Rightarrow> (s, Inr (result_not_implemented
                   (''no '' @ what @ '' registered for '' @ quoted action_type @
                    ''; actions are never simulated'')))
      | Some handler \<Rightarrow> call_handler action_type handler decision s)"

subsection \<open>Guarded egress\<close>

text \<open>Reading stops at the first chunk that reaches the cap.\<close>

fun read_chunks :: "int \<Rightarrow> int \<Rightarrow> string list \<Rightarrow> string \<times> int" where
  "read_chunks max_bytes n [] = ([], n)"
| "read_chunks max_bytes n (c # cs) =
     (let n1 = n + int (length c) in
      if n1 \<ge> max_bytes then (c, n1)
      else let (body, n2) = read_chunks max_bytes n1 cs in (c @ body, n2))"

definition set_breaker :: "string \<Rightarrow> breaker \<Rightarrow> exec_layer \<Rightarrow> exec_layer" where
  "set_breaker host b s = s\<lparr>el_breakers := AList.update host b (el_breakers s)\<rparr>"

definition do_request :: "exec_env \<Rightarrow> string \<Rightarrow> string \<Rightarrow> string \<Rightarrow> breaker \<Rightarrow> pyval \<Rightarrow> pyval \<Rightarrow>
    pydict exec" where
  "do_request env method url host b params json_body s0 =
     (let s = s0\<lparr>el_trace := el_trace s0 @ [HttpRequest method url params json_body]\<rparr>;
          max_bytes = max_response_bytes (el_caps s)
      in case xe_http env method url params json_body of
           HttpRequestException e \<Rightarrow>
             (set_breaker host (record_failure (xe_done env) b) s,
              Inr (result_error (''network error: '' @ e)))
         | HttpOtherException e \<Rightarrow> (s, Inl e)
         | HttpResponse http_status chunks decode \<Rightarrow>
             (let (content, nread) = read_chunks max_bytes 0 chunks in
              case decode (take (nat max_bytes) content) of
                None \<Rightarrow> (s, Inl ''LookupError'')
              | Some body_text \<Rightarrow>
                  let status_ok = (http_status < 400 \<and> http_status \<noteq> 429);
                      b' = (if status_ok then record_success b else record_failure (xe_done env) b)
                  in (set_breaker host b' s,
                      Inr [(''status'', PStr (if status_ok then ''success'' else ''error'')),
                           (''http_status'', PInt http_status),
                           (''data'', PStr (take 4000 body_text)),
                           (''truncated'', PBool (nread > max_bytes))])))"

definition url_host_or_unknown :: "string \<Rightarrow> string" where
  "url_host_or_unknown url =
     (case urlparse url of None \<Rightarrow> ''unknown'' | Some u \<Rightarrow>
        (case url_hostname u of None \<Rightarrow> ''unknown'' | Some h \<Rightarrow> if h = [] then ''unknown'' else h))"

text \<open>The circuit breaker of the host is created on first use. The rate limiter's wait with its
  five-second timeout ends within twelve passes (lemma \<open>guarded_fuel\<close>), so the case that the
  passes run out is never taken.\<close>

definition guarded_request :: "exec_env \<Rightarrow> string \<Rightarrow> string \<Rightarrow> pyval \<Rightarrow> pyval \<Rightarrow> pydict exec" where
  "guarded_request env method url params json_body s =
     (let (ok, reason) = validate_api_call (el_caps s) url method in
      if \<not> ok then (s, Inr (result_refused reason))
      else let host = url_host_or_unknown url;
               b0 = (case map_of (el_breakers s) host of None \<Rightarrow> new_breaker 5 60 | Some b \<Rightarrow> b);
               (b, allowed) = breaker_allow (xe_now env) b0;
               s1 = set_breaker host b s
        in if \<not> allowed
           then (s1, Inr (result_refused (''circuit open for host '' @ quoted host)))
           else case rl_acquire 12 (xe_late env) (xe_now env) host 5 (el_limiter s1) of
                  Some (rl, True) \<Rightarrow>
                    do_request env method url host b params json_body (s1\<lparr>el_limiter := rl\<rparr>)
                | Some (rl, False) \<Rightarrow>
                    (s1\<lparr>el_limiter := rl\<rparr>,
                     Inr (result_refused (''rate limit exceeded for host '' @ quoted host)))
                | None \<Rightarrow> (s1, Inl ''RuntimeError''))"

definition breakers_open_count :: "real \<Rightarrow> exec_layer \<Rightarrow> int" where
  "breakers_open_count now s = int (length (filter (breaker_is_open now \<circ> snd) (el_breakers s)))"

subsection \<open>The actions\<close>

text \<open>\<open>decision.get("params") or {}\<close>, whose \<open>.get\<close> raises on a value that is no dictionary.\<close>

definition get_params :: "pydict \<Rightarrow> pydict exec" where
  "get_params decision =
     (let p = py_or (dget decision ''params'') (PDict []) in
      case p of PDict d \<Rightarrow> sx_return d | _ \<Rightarrow> sx_raise ''AttributeError'')"

definition str_or_empty :: "pyval \<Rightarrow> string" where
  "str_or_empty v = py_str (py_or v (PStr []))"

definition execute_api_call :: "exec_env \<Rightarrow> pydict \<Rightarrow> pydict exec" where
  "execute_api_call env decision =
     sx_bind (get_params decision) (\<lambda>params.
       let url = py_or (dget params ''url'') (dget decision ''api_endpoint'') in
       if \<not> truthy url then sx_return (result_error ''API endpoint not provided'')
       else let method = py_upper (py_str (py_or (dget params ''method'') (PStr ''GET'')));
                body = (if method \<in> {''POST'', ''PUT'', ''PATCH''} then dget params ''payload'' else PNone)
            in guarded_request env method (py_str url) (dget params ''query'') body)"

definition execute_news_api :: "exec_env \<Rightarrow> pydict \<Rightarrow> pydict exec" where
  "execute_news_api env decision =
     sx_bind (get_params decision) (\<lambda>params.
       let query = py_or (dget params ''query'') (dget decision ''query'') in
       if \<not> truthy query then sx_return (result_error ''Query not provided'')
       else (\<lambda>s. case sr_get (xe_environ env) (el_secrets s) ''news_api_key'' None of
           None \<Rightarrow> (s, Inr (result_error ''news API key not configured (set SHUGOCORE_NEWS_API_KEY)''))
         | Some api_key \<Rightarrow>
             if api_key = []
             then (s, Inr (result_error ''news API key not configured (set SHUGOCORE_NEWS_API_KEY)''))
             else guarded_request env ''GET'' ''https://newsapi.org/v2/everything''
                    (PDict [(''q'', query), (''apiKey'', PStr api_key),
                            (''language'', dget_default params ''language'' (PStr ''en''))]) PNone s))"

text \<open>Iterating over the related topics: iterating over a number, a boolean or \<open>None\<close> raises,
  strings and dictionaries yield strings, which are skipped.\<close>

definition topic_items :: "pyval \<Rightarrow> pyval list option" where
  "topic_items v = (case v of
      PList xs \<Rightarrow> Some xs | PTuple xs \<Rightarrow> Some xs | PStr s \<Rightarrow> Some [] | PDict d \<Rightarrow> Some [] | _ \<Rightarrow> None)"

definition search_results :: "pyval list \<Rightarrow> pyval list" where
  "search_results topics =
     map (\<lambda>item. PDict [(''title'', dget (as_dict item) ''Text''), (''url'', dget (as_dict item) ''FirstURL'')])
       (filter (\<lambda>item. is_dict item \<and> truthy (dget (as_dict item) ''Text'')) topics)"

definition add_results :: "exec_env \<Rightarrow> pydict \<Rightarrow> pydict exec" where
  "add_results env result =
     (if dget result ''status'' \<noteq> PStr ''success'' then sx_return result
      else case xe_json_loads env (py_str (dget_default result ''data'' (PStr ''{}''))) of
             Some (PDict d) \<Rightarrow>
               (case topic_items (dget_default d ''RelatedTopics'' (PList [])) of
                  None \<Rightarrow> sx_raise ''TypeError''
                | Some topics \<Rightarrow> sx_return (dset ''results'' (PList (search_results topics)) result))
           | _ \<Rightarrow> sx_return (dset ''results'' (PList []) result))"

definition execute_search_api :: "exec_env \<Rightarrow> pydict \<Rightarrow> pydict exec" where
  "execute_search_api env decision =
     sx_bind (get_params decision) (\<lambda>params.
       let query = py_or (dget params ''query'') (dget decision ''query'') in
       if \<not> truthy query then sx_return (result_error ''Query not provided'')
       else sx_bind (guarded_request env ''GET'' ''https://api.duckduckgo.com/''
                (PDict [(''q'', query), (''format'', PStr ''json''), (''no_html'', PStr ''1'')]) PNone)
              (add_results env))"

definition execute_database_update :: "pydict \<Rightarrow> pydict exec" where
  "execute_database_update decision =
     sx_bind (get_params decision) (\<lambda>params s.
       let statement = py_or (dget params ''statement'') (dget decision ''update_query'') in
       if \<not> truthy statement then (s, Inr (result_error ''database statement not provided''))
       else let (ok, reason) = validate_sql (el_caps s) (str_or_empty statement) in
         if \<not> ok then (s, Inr (result_refused reason))
         else handler_or_not_implemented ''database_update'' ''executor'' decision s)"

definition execute_hardware_interaction :: "pydict \<Rightarrow> pydict exec" where
  "execute_hardware_interaction decision =
     sx_bind (get_params decision) (\<lambda>params s.
       let command = py_or (dget params ''command'') (dget decision ''command'');
           (ok, reason) = validate_hardware (el_caps s) (str_or_empty command)
       in if \<not> ok then (s, Inr (result_refused reason))
          else handler_or_not_implemented ''hardware_interaction'' ''executor'' decision s)"

subsection \<open>Dispatch and execution\<close>

text \<open>The body of the \<open>try\<close> of \<open>_dispatch\<close>. A truthy action type that is no string is looked up
  under its \<open>str()\<close>.\<close>

definition dispatch_body :: "exec_env \<Rightarrow> pydict \<Rightarrow> pydict exec" where
  "dispatch_body env decision s =
     (let action_type = dget decision ''action_type'' in
      if action_type = PStr ''api_call'' then execute_api_call env decision s
      else if action_type = PStr ''news_api'' then execute_news_api env decision s
      else if action_type = PStr ''search_api'' then execute_search_api env decision s
      else if action_type = PStr ''database_update'' then execute_database_update decision s
      else if action_type = PStr ''hardware_interaction'' then execute_hardware_interaction decision s
      else if action_type = PStr ''multi_step_process''
      then (s, Inr (result_refused (''multi_step_process must be expanded and '' @
                                    ''individually gated by the decision engine'')))
      else if action_type = PStr ''record_observation''
      then handler_or_not_implemented ''record_observation'' ''handler'' decision s
      else if action_type = PStr ''speak''
      then handler_or_not_implemented ''speak'' ''speech provider'' decision s
      else if action_type = PStr ''ask_user''
      then handler_or_not_implemented ''ask_user'' ''speech provider'' decision s
      else case (if truthy action_type then map_of (el_handlers s) (py_str action_type) else None) of
             Some plugin \<Rightarrow> call_handler (py_str action_type) plugin decision s
           | None \<Rightarrow> (s, Inr (result_error ''Unknown action type'')))"

definition dispatch :: "exec_env \<Rightarrow> pydict \<Rightarrow> exec_layer \<Rightarrow> exec_layer \<times> pydict" where
  "dispatch env decision s =
     (case dispatch_body env decision s of
        (s', Inr r) \<Rightarrow> (s', r)
      | (s', Inl e) \<Rightarrow> (s', result_error e))"

definition exec_audit :: "(string \<Rightarrow> string) \<Rightarrow> (string \<Rightarrow> string \<Rightarrow> string) \<Rightarrow> exec_env \<Rightarrow> string \<Rightarrow> pydict \<Rightarrow>
    exec_layer \<Rightarrow> exec_layer" where
  "exec_audit H HM env event_type payload s =
     (case el_audit s of
        None \<Rightarrow> s
      | Some ac \<Rightarrow>
          if xe_audit_writable env
          then s\<lparr>el_audit := Some (chain_append H HM (xe_timestamp env) event_type payload ac)\<rparr>
          else s)"

datatype gate = Refuse string | Pass

text \<open>The three checks of \<open>execute\<close>.\<close>

definition check_verdict :: "(string \<Rightarrow> string) \<Rightarrow> pydict \<Rightarrow> gate" where
  "check_verdict H decision =
     (case dget decision ''_policy'' of
        PDict verdict \<Rightarrow>
          if dget verdict ''verdict'' \<noteq> PStr ''allow''
          then Refuse (''policy verdict is not '' @ quoted ''allow'')
          else if PStr (canonical_hash H (PDict (ddel ''_policy'' decision))) \<noteq> dget verdict ''decision_hash''
          then Refuse ''policy verdict does not match decision content''
          else Pass
      | _ \<Rightarrow> Refuse ''missing policy verdict (fail-closed)'')"

definition execute :: "(string \<Rightarrow> string) \<Rightarrow> (string \<Rightarrow> string \<Rightarrow> string) \<Rightarrow> exec_env \<Rightarrow> pydict \<Rightarrow>
    exec_layer \<Rightarrow> exec_layer \<times> pydict" where
  "execute H HM env decision s =
     (let clean = ddel ''_policy'' decision;
          (s1, result) = (case check_verdict H decision of
                            Refuse reason \<Rightarrow> (s, result_refused reason)
                          | Pass \<Rightarrow> dispatch env clean s);
          message = py_or (py_or (dget result ''reason'') (dget result ''message'')) (PStr [])
      in (exec_audit H HM env ''execution''
            [(''action_type'', dget clean ''action_type''), (''status'', dget result ''status''),
             (''reason'', PStr (sanitize_text (py_str message) 120))] s1,
          result))"

definition http_get_json :: "exec_env \<Rightarrow> string \<Rightarrow> pyval \<Rightarrow> pydict exec" where
  "http_get_json env url params = guarded_request env ''GET'' url params PNone"

subsection \<open>What an execution can do\<close>

text \<open>The statement and the command the two validated actions act on.\<close>

definition params_of :: "pydict \<Rightarrow> pydict" where
  "params_of decision = as_dict (py_or (dget decision ''params'') (PDict []))"

definition sql_of :: "pydict \<Rightarrow> string" where
  "sql_of decision =
     str_or_empty (py_or (dget (params_of decision) ''statement'') (dget decision ''update_query''))"

definition command_of :: "pydict \<Rightarrow> string" where
  "command_of decision =
     str_or_empty (py_or (dget (params_of decision) ''command'') (dget decision ''command''))"

text \<open>The two fixed endpoints of the external reads.\<close>

definition read_endpoints :: "string list" where
  "read_endpoints = [''https://newsapi.org/v2/everything'', ''https://api.duckduckgo.com/'']"

text \<open>An effect that a decision justifies in a state: a request to an allowlisted host, of an
  \<open>api_call\<close> or to the fixed endpoint of an external read, or a call of the handler
  installed for the decision's own action type, with that very decision, after the SQL or hardware
  allowlist where these apply.\<close>

fun effect_ok :: "pydict \<Rightarrow> exec_layer \<Rightarrow> exec_effect \<Rightarrow> bool" where
  "effect_ok decision s (HttpRequest m url p b) =
     (fst (validate_api_call (el_caps s) url m) \<and>
      (dget decision ''action_type'' = PStr ''api_call'' \<or> m = ''GET'' \<and> url \<in> set read_endpoints))"
| "effect_ok decision s (HandlerCall a d) =
     (d = decision \<and> a = py_str (dget decision ''action_type'') \<and> map_of (el_handlers s) a \<noteq> None \<and>
      (dget decision ''action_type'' = PStr ''database_update'' \<longrightarrow>
         fst (validate_sql (el_caps s) (sql_of decision))) \<and>
      (dget decision ''action_type'' = PStr ''hardware_interaction'' \<longrightarrow>
         fst (validate_hardware (el_caps s) (command_of decision))))"

text \<open>An operation has at most one effect, a justified one, and reports success only with one.\<close>

definition justified :: "pydict \<Rightarrow> exec_layer \<Rightarrow> exec_layer \<times> (exn_name + pydict) \<Rightarrow> bool" where
  "justified decision s r \<longleftrightarrow>
     (\<exists>efs. el_trace (fst r) = el_trace s @ efs \<and> length efs \<le> 1 \<and>
        list_all (effect_ok decision s) efs \<and>
        (\<forall>d. snd r = Inr d \<and> dget d ''status'' = PStr ''success'' \<longrightarrow> efs \<noteq> []))"

lemma justified_quiet:
  "el_trace s' = el_trace s \<Longrightarrow> (\<And>d. r = Inr d \<Longrightarrow> dget d ''status'' \<noteq> PStr ''success'') \<Longrightarrow>
     justified decision s (s', r)"
  by (auto simp: justified_def)

lemma justified_effect:
  "el_trace s' = el_trace s @ [e] \<Longrightarrow> effect_ok decision s e \<Longrightarrow> justified decision s (s', r)"
  by (auto simp: justified_def)

lemma result_status [simp]:
  "dget (result_refused r) ''status'' = PStr ''refused''"
  "dget (result_error r) ''status'' = PStr ''error''"
  "dget (result_not_implemented r) ''status'' = PStr ''not_implemented''"
  by (simp_all add: result_refused_def result_error_def result_not_implemented_def dget_def)

lemma justified_results [simp]:
  "justified decision s (s, Inr (result_refused m))"
  "justified decision s (s, Inr (result_error m))"
  "justified decision s (s, Inr (result_not_implemented m))"
  by (auto simp: justified_def)

lemma set_breaker_frame [simp]:
  "el_trace (set_breaker h b s) = el_trace s" "el_caps (set_breaker h b s) = el_caps s"
  "el_handlers (set_breaker h b s) = el_handlers s" "el_limiter (set_breaker h b s) = el_limiter s"
  "el_audit (set_breaker h b s) = el_audit s"
  by (simp_all add: set_breaker_def)

lemma do_request_trace:
  "el_trace (fst (do_request env m url host b p body s)) = el_trace s @ [HttpRequest m url p body]"
  by (auto simp: do_request_def Let_def split: http_outcome.splits prod.splits option.splits)

lemma guarded_request_justified:
  assumes "dget decision ''action_type'' = PStr ''api_call'' \<or> m = ''GET'' \<and> url \<in> set read_endpoints"
  shows "justified decision s (guarded_request env m url p body s)"
proof (cases "fst (validate_api_call (el_caps s) url m)")
  case False
  then show ?thesis
    by (auto simp: guarded_request_def split: prod.splits intro!: justified_quiet)
next
  case True
  let ?host = "url_host_or_unknown url"
  let ?b0 = "case map_of (el_breakers s) ?host of None \<Rightarrow> new_breaker 5 60 | Some b \<Rightarrow> b"
  obtain b allowed where ba: "breaker_allow (xe_now env) ?b0 = (b, allowed)" by fastforce
  obtain reason where v: "validate_api_call (el_caps s) url m = (True, reason)"
    using True by (cases "validate_api_call (el_caps s) url m") auto
  have step: "justified decision s (do_request env m url ?host b p body (set_breaker ?host b s\<lparr>el_limiter := rl\<rparr>))"
    for rl
    using do_request_trace [of env m url ?host b p body "set_breaker ?host b s\<lparr>el_limiter := rl\<rparr>"] v assms
    by (cases "do_request env m url ?host b p body (set_breaker ?host b s\<lparr>el_limiter := rl\<rparr>)")
       (auto intro: justified_effect)
  show ?thesis
    by (auto simp: guarded_request_def Let_def v ba step split: option.splits prod.splits bool.splits
        intro!: justified_quiet)
qed

lemma handler_justified:
  assumes "a = py_str (dget decision ''action_type'')"
    and "dget decision ''action_type'' = PStr ''database_update'' \<Longrightarrow>
           fst (validate_sql (el_caps s) (sql_of decision))"
    and "dget decision ''action_type'' = PStr ''hardware_interaction'' \<Longrightarrow>
           fst (validate_hardware (el_caps s) (command_of decision))"
  shows "justified decision s (handler_or_not_implemented a what decision s)"
proof (cases "map_of (el_handlers s) a")
  case None
  then show ?thesis by (simp add: handler_or_not_implemented_def)
next
  case (Some h)
  with assms show ?thesis
    by (auto simp: handler_or_not_implemented_def call_handler_def intro!: justified_effect)
qed

lemma get_params_cases:
  "get_params decision = sx_return (params_of decision) \<or> get_params decision = sx_raise ''AttributeError''"
  by (cases "py_or (dget decision ''params'') (PDict [])")
     (simp_all add: get_params_def params_of_def)

lemma justified_bind_params:
  "(justified decision s (f (params_of decision) s)) \<Longrightarrow>
     justified decision s (sx_bind (get_params decision) f s)"
  using get_params_cases [of decision]
  by (auto simp: sx_raise_def intro!: justified_quiet)

lemma justified_add_results:
  assumes "justified decision s (m s)"
  shows "justified decision s (sx_bind m (add_results env) s)"
proof (cases "m s")
  case (Pair s' r)
  show ?thesis
  proof (cases r)
    case (Inl e)
    with Pair assms show ?thesis by (simp add: sx_bind_def)
  next
    case (Inr d)
    have "fst (add_results env d s') = s'"
      by (simp add: add_results_def sx_return_def sx_raise_def split: option.splits pyval.splits)
    moreover have "dget e ''status'' = dget d ''status''" if "snd (add_results env d s') = Inr e" for e
      using that by (auto simp: add_results_def sx_return_def sx_raise_def
          split: option.splits pyval.splits if_splits)
    ultimately show ?thesis
      using assms Pair Inr by (auto simp: justified_def sx_bind_def)
  qed
qed

lemma api_call_justified:
  "dget decision ''action_type'' = PStr ''api_call'' \<Longrightarrow> justified decision s (execute_api_call env decision s)"
  unfolding execute_api_call_def
  by (rule justified_bind_params)
     (simp add: Let_def sx_return_def guarded_request_justified)

lemma news_api_justified: "justified decision s (execute_news_api env decision s)"
  unfolding execute_news_api_def
  by (rule justified_bind_params)
     (simp add: Let_def sx_return_def guarded_request_justified read_endpoints_def split: option.splits)

lemma search_api_justified: "justified decision s (execute_search_api env decision s)"
  unfolding execute_search_api_def
  by (rule justified_bind_params)
     (simp add: Let_def sx_return_def guarded_request_justified justified_add_results read_endpoints_def)

lemma database_update_justified:
  "dget decision ''action_type'' = PStr ''database_update'' \<Longrightarrow>
     justified decision s (execute_database_update decision s)"
  unfolding execute_database_update_def
  by (rule justified_bind_params)
     (auto simp: Let_def sql_of_def intro!: handler_justified split: prod.splits)

lemma hardware_justified:
  "dget decision ''action_type'' = PStr ''hardware_interaction'' \<Longrightarrow>
     justified decision s (execute_hardware_interaction decision s)"
  unfolding execute_hardware_interaction_def
  by (rule justified_bind_params)
     (auto simp: Let_def command_of_def intro!: handler_justified split: prod.splits)

lemma dispatch_body_justified: "justified decision s (dispatch_body env decision s)"
  unfolding dispatch_body_def Let_def
  by (auto simp: call_handler_def api_call_justified news_api_justified search_api_justified
      database_update_justified hardware_justified split: option.splits
      intro!: justified_effect handler_justified)

lemma dispatch_justified:
  "justified decision s (map_prod id Inr (dispatch env decision s))"
  using dispatch_body_justified [of decision s env]
  by (auto simp: dispatch_def justified_def split: prod.splits sum.splits)

lemma exec_audit_frame [simp]:
  "el_trace (exec_audit H HM env ty p s) = el_trace s" "el_caps (exec_audit H HM env ty p s) = el_caps s"
  "el_handlers (exec_audit H HM env ty p s) = el_handlers s"
  by (simp_all add: exec_audit_def split: option.splits)

lemma execute_result: "snd (execute H HM env decision s) =
    (case check_verdict H decision of Refuse reason \<Rightarrow> result_refused reason
     | Pass \<Rightarrow> snd (dispatch env (ddel ''_policy'' decision) s))"
  by (simp add: execute_def Let_def split: gate.splits prod.splits)

lemma execute_trace: "el_trace (fst (execute H HM env decision s)) =
    (case check_verdict H decision of Refuse reason \<Rightarrow> el_trace s
     | Pass \<Rightarrow> el_trace (fst (dispatch env (ddel ''_policy'' decision) s)))"
  by (simp add: execute_def Let_def split: gate.splits prod.splits)

text \<open>C3: The executor is fail-closed. Whatever decision reaches \<open>execute\<close>, in whatever state: unless
  the decision carries a policy verdict \<open>allow\<close> whose hash is the hash of the decision's own
  content, no request is sent and no handler is called; with one there is at most one effect, which
  is a request to an allowlisted host with an allowed method, of an \<open>api_call\<close> or to the fixed
  endpoint of an external read, or the call of the handler installed for the decision's action
  type, after the SQL and hardware allowlists.\<close>

theorem execute_fail_closed:
  assumes "execute H HM env decision s = (s', result)"
  shows "\<exists>efs. el_trace s' = el_trace s @ efs \<and> length efs \<le> 1 \<and>
    (efs \<noteq> [] \<longrightarrow> (\<exists>verdict. dget decision ''_policy'' = PDict verdict \<and>
        dget verdict ''verdict'' = PStr ''allow'' \<and>
        dget verdict ''decision_hash'' = PStr (canonical_hash H (PDict (ddel ''_policy'' decision))))) \<and>
    (\<forall>e \<in> set efs. effect_ok (ddel ''_policy'' decision) s e)"
proof (cases "check_verdict H decision")
  case (Refuse reason)
  then have "el_trace s' = el_trace s"
    using execute_trace [of H HM env decision s] assms by simp
  then show ?thesis by auto
next
  case Pass
  from dispatch_justified [of "ddel ''_policy'' decision" s env]
  obtain efs where "el_trace s' = el_trace s @ efs" "length efs \<le> 1"
    "\<forall>e \<in> set efs. effect_ok (ddel ''_policy'' decision) s e"
    using execute_trace [of H HM env decision s] assms Pass
    by (auto simp: justified_def list_all_iff)
  moreover from Pass obtain verdict where "dget decision ''_policy'' = PDict verdict"
    "dget verdict ''verdict'' = PStr ''allow''"
    "dget verdict ''decision_hash'' = PStr (canonical_hash H (PDict (ddel ''_policy'' decision)))"
    by (auto simp: check_verdict_def split: pyval.splits if_splits)
  ultimately show ?thesis by blast
qed

text \<open>Success is never simulated: a result with status \<open>success\<close> that \<open>execute\<close> returns goes with
  a request sent or a handler called in that very call.\<close>

theorem success_needs_effect:
  assumes "execute H HM env decision s = (s', result)" and "dget result ''status'' = PStr ''success''"
  shows "el_trace s' \<noteq> el_trace s"
proof (cases "check_verdict H decision")
  case (Refuse reason)
  then show ?thesis using execute_result [of H HM env decision s] assms by simp
next
  case Pass
  then show ?thesis
    using execute_result [of H HM env decision s] execute_trace [of H HM env decision s] assms
      dispatch_justified [of "ddel ''_policy'' decision" s env]
    by (auto simp: justified_def)
qed

text \<open>A verdict cannot be moved to another decision. If a verdict was issued for a decision
  \<open>issued\<close> and an execution of \<open>decision\<close> with it has any effect, then the two have the same
  normal form (the same keys and values), as long as SHA-256 does not collide on the two canonical
  texts.\<close>

theorem verdict_bound_to_content:
  assumes "execute H HM env (dset ''_policy'' (PDict verdict) decision) s = (s', result)"
    and "el_trace s' \<noteq> el_trace s"
    and "dget verdict ''decision_hash'' = PStr (canonical_hash H (PDict issued))"
    and "inj_on H {canonical_json (PDict issued), canonical_json (PDict (ddel ''_policy'' decision))}"
    and "json_ok (PDict issued)" and "json_ok (PDict (ddel ''_policy'' decision))"
  shows "jnorm (PDict (ddel ''_policy'' decision)) = jnorm (PDict issued)"
proof -
  let ?d = "dset ''_policy'' (PDict verdict) decision"
  have "check_verdict H ?d = Pass"
    using execute_trace [of H HM env ?d s] assms(1,2) by (cases "check_verdict H ?d") auto
  then have "canonical_hash H (PDict (ddel ''_policy'' decision)) = canonical_hash H (PDict issued)"
    using assms(3) by (auto simp: check_verdict_def ddel_dset_same split: if_splits)
  with assms(4) have "canonical_json (PDict (ddel ''_policy'' decision)) = canonical_json (PDict issued)"
    by (auto simp: canonical_hash_def dest: inj_onD)
  then show ?thesis by (rule canonical_json_inj [OF assms(6,5)])
qed

lemma guarded_fuel:
  assumes "rl_ok (el_limiter s)" and "\<And>j. 0 \<le> xe_late env j"
  shows "rl_acquire 12 (xe_late env) (xe_now env) host 5 (el_limiter s) \<noteq> None"
  using rl_loop_enough [OF assms, where dl = "xe_now env + 5" and now = "xe_now env" and n = 10]
  by (simp add: rl_acquire_def eval_nat_numeral del: rl_loop.simps)

subsection \<open>Instances\<close>

definition quiet_env :: exec_env where
  "quiet_env = \<lparr>xe_environ = Map.empty, xe_now = 0, xe_done = 0, xe_late = (\<lambda>_. 0),
     xe_http = (\<lambda>m u p b. HttpRequestException ''ConnectionError''), xe_json_loads = (\<lambda>_. None),
     xe_timestamp = ''t'', xe_audit_writable = True\<rparr>"

definition speak_decision :: pydict where
  "speak_decision = [(''action_type'', PStr ''speak'')]"

definition speak_layer :: exec_layer where
  "speak_layer = (new_exec_layer \<lparr>sr_overrides = [], sr_env_prefix = ''SHUGOCORE_''\<rparr>
     (new_capabilities default_cap_config) (new_rate_limiter 60 10) None)
     \<lparr>el_handlers := [(''speak'', \<lambda>d. Inr [(''status'', PStr ''success'')])]\<rparr>"

definition allow_verdict :: "(string \<Rightarrow> string) \<Rightarrow> pydict \<Rightarrow> pydict" where
  "allow_verdict H d = [(''verdict'', PStr ''allow''), (''decision_hash'', PStr (canonical_hash H (PDict d)))]"

lemma speak_executed:
  "execute flat_hash HM quiet_env (dset ''_policy'' (PDict (allow_verdict flat_hash speak_decision)) speak_decision)
     speak_layer =
   (speak_layer\<lparr>el_trace := [HandlerCall ''speak'' speak_decision]\<rparr>, [(''status'', PStr ''success'')])"
  by (simp add: execute_def check_verdict_def allow_verdict_def speak_decision_def dset_def ddel_def
      dget_def canonical_hash_def flat_hash_def dispatch_def dispatch_body_def Let_def
      handler_or_not_implemented_def call_handler_def speak_layer_def new_exec_layer_def
      exec_audit_def py_or_def)

theorem execute_fail_closed_witness:
  "\<exists>efs. [HandlerCall ''speak'' speak_decision] = el_trace speak_layer @ efs \<and> length efs \<le> 1"
  using execute_fail_closed [OF speak_executed]
  by (auto simp: speak_layer_def new_exec_layer_def)

theorem success_needs_effect_witness: "[HandlerCall ''speak'' speak_decision] \<noteq> el_trace speak_layer"
  using success_needs_effect [OF speak_executed] by (simp add: dget_def)

theorem verdict_bound_to_content_witness:
  "jnorm (PDict (ddel ''_policy'' speak_decision)) = jnorm (PDict speak_decision)"
  by (rule verdict_bound_to_content [OF speak_executed])
     (simp_all add: speak_layer_def new_exec_layer_def allow_verdict_def speak_decision_def ddel_def dget_def)

end
