(* ===== verification/Proposals.thy ===== *)
theory Proposals
  imports Memory_Manager Execution
begin

text \<open>
  The proposal side of \<open>src/decision_engine.py\<close>: the action vocabulary of the engine, the extraction
  of a structured proposal from a model's text, and the choice of a decision from the proposals with
  its failure counters and backoff. Python's \<open>json.loads\<close>, \<open>float()\<close> and the \<open>repr\<close> of a float
  are parameters; what the models answer is an argument.
\<close>

subsection \<open>Vocabulary\<close>

text \<open>Which optional modules could be imported: robotics, mobile, network, fleet.\<close>

record features =
  has_robotics :: bool
  has_mobile :: bool
  has_shugonet :: bool
  has_fleet :: bool

definition engine_known_types :: "features \<Rightarrow> string list" where
  "engine_known_types ft =
     [''api_call'', ''database_update'', ''hardware_interaction'', ''news_api'', ''search_api'',
      ''multi_step_process'', ''record_observation''] @ SPEECH_OUTPUT_ACTION_TYPES @ ASK_USER_ACTION_TYPES @
     (if has_robotics ft then ROBOTICS_ACTION_TYPES @ ROBOTICS_SAFETY_ACTION_TYPES @ ROBOTICS_READ_ACTION_TYPES
      else []) @
     (if has_mobile ft then MOBILE_ACTION_TYPES @ MOBILE_READ_ACTION_TYPES else []) @
     (if has_shugonet ft then NETWORK_ACTION_TYPES @ NETWORK_READ_ACTION_TYPES else []) @
     (if has_fleet ft then FLEET_ACTION_TYPES @ FLEET_READ_ACTION_TYPES else [])"

definition consent_gated_types :: "features \<Rightarrow> string list" where
  "consent_gated_types ft =
     SIDE_EFFECTING_ACTION_TYPES @
     (if has_robotics ft then ROBOTICS_ACTION_TYPES else []) @
     (if has_mobile ft then MOBILE_ACTION_TYPES else []) @
     (if has_shugonet ft then NETWORK_ACTION_TYPES else []) @
     (if has_fleet ft then FLEET_ACTION_TYPES else [])"

lemma consent_gated_known: "set (consent_gated_types ft) \<subseteq> set (engine_known_types ft)"
  by (auto simp: consent_gated_types_def engine_known_types_def action_class_defs)

text \<open>Observation, speech, reads and the emergency stop are never held up by the consent gate.\<close>

lemma consent_free:
  "set (OBSERVATION_ACTION_TYPES @ SPEECH_OUTPUT_ACTION_TYPES @ ASK_USER_ACTION_TYPES @
     ROBOTICS_SAFETY_ACTION_TYPES @ ROBOTICS_READ_ACTION_TYPES @ MOBILE_READ_ACTION_TYPES @
     NETWORK_READ_ACTION_TYPES @ FLEET_READ_ACTION_TYPES) \<inter> set (consent_gated_types ft) = {}"
  by (auto simp: consent_gated_types_def action_class_defs)

subsection \<open>Candidate JSON texts\<close>

definition open_brace :: char where "open_brace = CHR ''{''"
definition close_brace :: char where "close_brace = CHR ''}''"

text \<open>The greedy match of \<open>\{.*\}\<close>: from the first opening to the last closing brace.\<close>

definition greedy_blob :: "string \<Rightarrow> string option" where
  "greedy_blob s =
     (let from_open = dropWhile (\<lambda>c. c \<noteq> open_brace) s;
          blob = rev (dropWhile (\<lambda>c. c \<noteq> close_brace) (rev from_open))
      in if blob = [] then None else Some blob)"

text \<open>The balanced region at the head of a text, with the nesting depth reached before it.\<close>

fun balanced_from :: "nat \<Rightarrow> string \<Rightarrow> string option" where
  "balanced_from depth [] = None"
| "balanced_from depth (c # s) =
     (if c = open_brace then map_option ((#) c) (balanced_from (depth + 1) s)
      else if c = close_brace
      then if depth = 1 then Some [c] else map_option ((#) c) (balanced_from (depth - 1) s)
      else map_option ((#) c) (balanced_from depth s))"

fun balanced_blobs :: "string \<Rightarrow> string list" where
  "balanced_blobs [] = []"
| "balanced_blobs (c # s) =
     (if c = open_brace
      then (case balanced_from 0 (c # s) of None \<Rightarrow> [] | Some b \<Rightarrow> [b]) else []) @ balanced_blobs s"

definition brace_net :: "string \<Rightarrow> int" where
  "brace_net s = int (length (filter (\<lambda>c. c = open_brace) s)) - int (length (filter (\<lambda>c. c = close_brace) s))"

definition repaired_blob :: "string \<Rightarrow> string option" where
  "repaired_blob s =
     (let stripped = dropWhile is_space s in
      if py_startswith stripped [open_brace] \<and> py_contains (take 96 stripped) ''action_type'' \<and> brace_net stripped > 0
      then Some (stripped @ replicate (nat (brace_net stripped)) close_brace) else None)"

text \<open>Prefixes shortened by eight characters at a time, the longest that reads as an object.\<close>

function prefix_blob :: "(string \<Rightarrow> pyval option) \<Rightarrow> string \<Rightarrow> nat \<Rightarrow> string option" where
  "prefix_blob json_loads s n =
     (if n = 0 then None
      else if (case json_loads (take n s) of Some (PDict d) \<Rightarrow> True | _ \<Rightarrow> False) then Some (take n s)
      else prefix_blob json_loads s (n - 8))"
  by pat_completeness auto
termination by (relation "measure (\<lambda>(j, s, n). n)") auto

declare prefix_blob.simps [simp del]

definition opt_list :: "'a option \<Rightarrow> 'a list" where
  "opt_list x = (case x of None \<Rightarrow> [] | Some v \<Rightarrow> [v])"

definition proposal_json_candidates :: "(string \<Rightarrow> pyval option) \<Rightarrow> string \<Rightarrow> string list" where
  "proposal_json_candidates json_loads s =
     opt_list (greedy_blob s) @ balanced_blobs s @ opt_list (repaired_blob s) @
     opt_list (prefix_blob json_loads s (length s))"

subsection \<open>Parsing a proposal\<close>

record proposal =
  pr_action_type :: pyval
  pr_params :: pydict
  pr_confidence :: real

definition finish_proposal :: "(pyval \<Rightarrow> real option) \<Rightarrow> pydict \<Rightarrow> pyval \<Rightarrow> proposal" where
  "finish_proposal to_float data action_type =
     \<lparr>pr_action_type = action_type, pr_params = as_dict (dget data ''params''),
      pr_confidence = (case to_float (dget_default data ''confidence'' (PFloat ''0.0'')) of
                         None \<Rightarrow> 0 | Some x \<Rightarrow> max 0 (min 1 x))\<rparr>"

text \<open>A string \<open>null\<close>, in any case, counts as JSON null.\<close>

definition null_action :: "pyval \<Rightarrow> bool" where
  "null_action v = (case v of PNone \<Rightarrow> True | PStr s \<Rightarrow> py_lower s = ''null'' | _ \<Rightarrow> False)"

definition with_utterance :: "pydict \<Rightarrow> proposal \<Rightarrow> proposal" where
  "with_utterance data p =
     (case dget data ''text'' of
        PStr t \<Rightarrow>
          if pr_action_type p = PStr ''speak'' \<and> \<not> truthy (dget (pr_params p) ''utterance'') \<and> py_strip t \<noteq> []
          then p\<lparr>pr_params := dset ''utterance'' (PStr t) (pr_params p)\<rparr> else p
      | _ \<Rightarrow> p)"

text \<open>The loop over the candidates: the first null stub, and the valid proposals so far. An action type of
  unknown name ends the search with no proposal; membership of an unhashable one raises.\<close>

fun scan_candidates :: "features \<Rightarrow> (string \<Rightarrow> pyval option) \<Rightarrow> (pyval \<Rightarrow> real option) \<Rightarrow> string list \<Rightarrow>
    proposal option \<Rightarrow> proposal list \<Rightarrow> py_exn + proposal option" where
  "scan_candidates ft json_loads to_float [] stub valid =
     Inr (case sort_key (\<lambda>p. - pr_confidence p) valid of [] \<Rightarrow> stub | p # _ \<Rightarrow> Some p)"
| "scan_candidates ft json_loads to_float (blob # blobs) stub valid =
     (case json_loads blob of
        Some (PDict data) \<Rightarrow>
          (let action_type = dget data ''action_type'' in
           if null_action action_type
           then scan_candidates ft json_loads to_float blobs
                  (case stub of None \<Rightarrow> Some (finish_proposal to_float data PNone) | Some p \<Rightarrow> Some p) valid
           else if \<not> hashable action_type then Inl TypeErr
           else if action_type \<notin> PStr ` set (engine_known_types ft) then Inr None
           else scan_candidates ft json_loads to_float blobs stub
                  (valid @ [with_utterance data (finish_proposal to_float data action_type)]))
      | _ \<Rightarrow> scan_candidates ft json_loads to_float blobs stub valid)"

definition parse_proposal :: "features \<Rightarrow> (string \<Rightarrow> pyval option) \<Rightarrow> (pyval \<Rightarrow> real option) \<Rightarrow> string \<Rightarrow>
    py_exn + proposal option" where
  "parse_proposal ft json_loads to_float s =
     (if py_strip s = [] then Inr None
      else scan_candidates ft json_loads to_float (proposal_json_candidates json_loads s) None [])"

subsection \<open>What a parsed proposal is\<close>

definition proposal_ok :: "features \<Rightarrow> proposal \<Rightarrow> bool" where
  "proposal_ok ft p \<longleftrightarrow> (pr_action_type p = PNone \<or> pr_action_type p \<in> PStr ` set (engine_known_types ft)) \<and>
     0 \<le> pr_confidence p \<and> pr_confidence p \<le> 1"

lemma finish_ok:
  "a = PNone \<or> a \<in> PStr ` set (engine_known_types ft) \<Longrightarrow> proposal_ok ft (finish_proposal to_float data a)"
  by (auto simp: proposal_ok_def finish_proposal_def split: option.splits)

lemma with_utterance_ok: "proposal_ok ft p \<Longrightarrow> proposal_ok ft (with_utterance data p)"
  by (auto simp: proposal_ok_def with_utterance_def split: pyval.splits)

lemma scan_ok:
  assumes "scan_candidates ft jl tf blobs stub valid = Inr (Some p)"
    and "\<And>q. stub = Some q \<Longrightarrow> proposal_ok ft q" and "\<forall>q\<in>set valid. proposal_ok ft q"
  shows "proposal_ok ft p"
  using assms
proof (induction blobs arbitrary: stub valid)
  case Nil
  show ?case
  proof (cases "sort_key (\<lambda>p. - pr_confidence p) valid")
    case Nil
    with "Nil.prems" show ?thesis by simp
  next
    case (Cons q qs)
    from arg_cong [OF Cons, of set] have "q \<in> set valid" by auto
    with Nil Cons show ?thesis by simp
  qed
next
  case (Cons blob blobs)
  show ?case
  proof (cases "\<exists>data. jl blob = Some (PDict data)")
    case False
    then have "scan_candidates ft jl tf (blob # blobs) stub valid = scan_candidates ft jl tf blobs stub valid"
      by (auto split: option.splits pyval.splits)
    with Cons show ?thesis by simp
  next
    case True
    then obtain data where d: "jl blob = Some (PDict data)" by blast
    let ?a = "dget data ''action_type''"
    show ?thesis
    proof (cases "null_action ?a")
      case True
      show ?thesis
        by (rule Cons.IH [where stub = "case stub of None \<Rightarrow> Some (finish_proposal tf data PNone) | Some p \<Rightarrow> Some p"])
           (use Cons.prems d True finish_ok in \<open>auto split: option.splits\<close>)
    next
      case False
      with Cons.prems(1) d have a: "?a \<in> PStr ` set (engine_known_types ft)"
        and rest: "scan_candidates ft jl tf blobs stub
           (valid @ [with_utterance data (finish_proposal tf data ?a)]) = Inr (Some p)"
        by (auto simp: Let_def split: if_splits)
      have "proposal_ok ft (with_utterance data (finish_proposal tf data ?a))"
        using a by (intro with_utterance_ok finish_ok) blast
      with Cons.IH [OF rest Cons.prems(2)] Cons.prems(3) show ?thesis by auto
    qed
  qed
qed

text \<open>C39: Whatever text a model emits, a proposal that is read from it names an action type of the
  engine's vocabulary, or none, and has a confidence between 0 and 1.\<close>

theorem parsed_proposal_ok:
  assumes "parse_proposal ft json_loads to_float s = Inr (Some p)"
  shows "(pr_action_type p = PNone \<or> pr_action_type p \<in> PStr ` set (engine_known_types ft)) \<and>
    0 \<le> pr_confidence p \<and> pr_confidence p \<le> 1"
  using scan_ok [of ft json_loads to_float "proposal_json_candidates json_loads s" None "[]" p] assms
  by (auto simp: parse_proposal_def proposal_ok_def split: if_splits)

definition echo_loads :: "pyval \<Rightarrow> string \<Rightarrow> pyval option" where
  "echo_loads a s = Some (PDict [(''action_type'', a)])"

lemma candidates_of_braces:
  "proposal_json_candidates (echo_loads a) ''{}'' = [''{}'', ''{}'', ''{}'']"
  by (simp add: proposal_json_candidates_def opt_list_def greedy_blob_def open_brace_def close_brace_def
      repaired_blob_def py_startswith_def brace_net_def is_space_def char_code_def Let_def prefix_blob.simps
      echo_loads_def)

definition all_features :: features where
  "all_features = \<lparr>has_robotics = True, has_mobile = True, has_shugonet = True, has_fleet = True\<rparr>"

lemma parse_speak:
  "parse_proposal ft (echo_loads (PStr ''speak'')) (\<lambda>_. None) ''{}'' =
     Inr (Some (finish_proposal (\<lambda>_. None) [(''action_type'', PStr ''speak'')] (PStr ''speak'')))"
  by (simp add: parse_proposal_def candidates_of_braces py_strip_def strip_by_def is_space_def char_code_def
      Let_def echo_loads_def null_action_def py_lower_def lower_char_def engine_known_types_def
      action_class_defs with_utterance_def dget_def image_iff)

theorem parsed_proposal_ok_witness:
  "\<exists>p. parse_proposal all_features (echo_loads (PStr ''speak'')) (\<lambda>_. None) ''{}'' = Inr (Some p) \<and>
     pr_confidence p \<le> 1"
  using parsed_proposal_ok [OF parse_speak] parse_speak by blast

text \<open>A proposal whose action type is a list or an object makes the parser raise instead of
  rejecting the proposal: membership in the vocabulary is asked of an unhashable value, and the
  exception is caught nowhere on the decision path, so that the cycle ends as a task failure.\<close>

theorem unhashable_action_type_raises:
  "parse_proposal ft (echo_loads (PList [PStr ''speak''])) to_float ''{}'' = Inl TypeErr"
  by (simp add: parse_proposal_def candidates_of_braces py_strip_def strip_by_def is_space_def char_code_def
      Let_def echo_loads_def null_action_def dget_def)

subsection \<open>Choosing a decision\<close>

text \<open>A selected model and what happened when it was asked: its name is acceptable or not, its
  weight times its performance, and its answer (\<open>None\<close>: the call raised).\<close>

record model_call =
  mc_id :: string
  mc_valid :: bool
  mc_score :: real
  mc_output :: "string option"

record asked_models =
  am_outputs :: "(string \<times> string) list"
  am_proposals :: "(string \<times> proposal \<times> real) list"
  am_asked :: nat
  am_answered :: nat

fun ask_models :: "features \<Rightarrow> (string \<Rightarrow> pyval option) \<Rightarrow> (pyval \<Rightarrow> real option) \<Rightarrow> model_call list \<Rightarrow>
    asked_models \<Rightarrow> py_exn + asked_models" where
  "ask_models ft json_loads to_float [] acc = Inr acc"
| "ask_models ft json_loads to_float (c # cs) acc =
     (if \<not> mc_valid c then ask_models ft json_loads to_float cs acc
      else let out = (case mc_output c of None \<Rightarrow> [] | Some s \<Rightarrow> s);
               acc1 = acc\<lparr>am_asked := am_asked acc + 1,
                         am_answered := am_answered acc + (if mc_output c = None then 0 else 1),
                         am_outputs := AList.update (mc_id c) out (am_outputs acc)\<rparr>
           in case parse_proposal ft json_loads to_float out of
                Inl e \<Rightarrow> Inl e
              | Inr None \<Rightarrow> ask_models ft json_loads to_float cs acc1
              | Inr (Some p) \<Rightarrow> ask_models ft json_loads to_float cs
                  (acc1\<lparr>am_proposals := am_proposals acc1 @ [(mc_id c, p, mc_score c)]\<rparr>))"

record proposer =
  pp_model_failures :: nat
  pp_backend_failures :: nat
  pp_ready_at :: real
  pp_decision_seq :: nat

definition PROPOSAL_BACKOFF_BASE_SECS :: real where "PROPOSAL_BACKOFF_BASE_SECS = 30"
definition PROPOSAL_BACKOFF_MAX_SECS :: real where "PROPOSAL_BACKOFF_MAX_SECS = 600"

text \<open>The rule-based decision, always \<open>record_observation\<close>.\<close>

definition fallback_decision :: "string \<Rightarrow> string \<Rightarrow> nat \<Rightarrow> (string \<times> pyval) list \<Rightarrow> pydict" where
  "fallback_decision txt reason failures extra =
     [(''action_type'', PStr ''record_observation''),
      (''params'', PDict ([(''text'', PStr txt), (''reason'', PStr reason), (''failures'', PInt (int failures))] @ extra)),
      (''confidence'', PFloat ''0.1''), (''proposal_source'', PStr ''rule_fallback'')]"

definition no_action_decision :: "pyval \<Rightarrow> (string \<times> pyval) list \<Rightarrow> pydict" where
  "no_action_decision source extra =
     [(''action_type'', PNone), (''params'', PDict []), (''confidence'', PFloat ''0.0''),
      (''proposal_source'', source)] @ extra"

text \<open>The part of \<open>make_decision\<close> that turns the answers into a decision. \<open>rp\<close> and \<open>rp1\<close> give the
  \<open>repr\<close> of a float and of a float rounded to one digit; \<open>now\<close> and \<open>later\<close> are its two clock
  readings.\<close>

definition choose_decision :: "(real \<Rightarrow> string) \<Rightarrow> (real \<Rightarrow> string) \<Rightarrow> real \<Rightarrow> real \<Rightarrow> asked_models \<Rightarrow> proposer \<Rightarrow>
    proposer \<times> pydict" where
  "choose_decision rp rp1 now later am pp =
     (case sort_key (\<lambda>(i, p, score). - (pr_confidence p * score))
             (filter (\<lambda>(i, p, score). pr_action_type p \<noteq> PNone) (am_proposals am)) of
        (source, best, _) # _ \<Rightarrow>
          (pp\<lparr>pp_decision_seq := pp_decision_seq pp + 1, pp_model_failures := 0, pp_backend_failures := 0,
              pp_ready_at := 0\<rparr>,
           [(''action_type'', pr_action_type best), (''params'', PDict (pr_params best)),
            (''confidence'', PFloat (rp (pr_confidence best))), (''proposal_source'', PStr source),
            (''decision_id'', PStr (''dec-'' @ show_nat (pp_decision_seq pp)))])
      | [] \<Rightarrow>
          if now < pp_ready_at pp
          then (pp, fallback_decision ''routine observation (proposer backoff)'' ''proposer_backoff''
                      (pp_model_failures pp) [(''retry_in_secs'', PFloat (rp1 (pp_ready_at pp - now)))])
          else if am_asked am \<noteq> 0 \<and> am_answered am = 0
          then let n = pp_backend_failures pp + 1; pp' = pp\<lparr>pp_backend_failures := n\<rparr> in
            if n \<ge> 3
            then (pp', fallback_decision ''routine observation (backend unavailable)'' ''backend_unavailable'' n [])
            else (pp', no_action_decision PNone [(''reason'', PStr ''backend_unavailable'')])
          else let n = pp_model_failures pp + 1; pp' = pp\<lparr>pp_model_failures := n\<rparr> in
            if n \<ge> 3
            then (pp'\<lparr>pp_ready_at := later + min (PROPOSAL_BACKOFF_BASE_SECS * 2 ^ (n - 3)) PROPOSAL_BACKOFF_MAX_SECS\<rparr>,
                  fallback_decision ''routine observation (rule-based fallback)'' ''model_fallback'' n [])
            else (pp', no_action_decision (if am_proposals am = [] then PNone else PStr ''null_proposal'') []))"

text \<open>The models are not asked at all while a backoff is being waited out.\<close>

definition decide :: "features \<Rightarrow> (string \<Rightarrow> pyval option) \<Rightarrow> (pyval \<Rightarrow> real option) \<Rightarrow> (real \<Rightarrow> string) \<Rightarrow>
    (real \<Rightarrow> string) \<Rightarrow> real \<Rightarrow> real \<Rightarrow> model_call list \<Rightarrow> (proposer, py_exn, pydict) sx" where
  "decide ft json_loads to_float rp rp1 now later calls pp =
     (case ask_models ft json_loads to_float (if now < pp_ready_at pp then [] else calls)
             \<lparr>am_outputs = [], am_proposals = [], am_asked = 0, am_answered = 0\<rparr> of
        Inl e \<Rightarrow> (pp, Inl e)
      | Inr am \<Rightarrow>
          (let (pp', d) = choose_decision rp rp1 now later am pp
           in (pp', Inr (d @ [(''model_outputs'', PDict (map (\<lambda>(k, v). (k, PStr v)) (am_outputs am))),
                (''aggregated_output'', (if am_proposals am = [] then PInt 0
                    else PFloat (rp (sum_list (map (\<lambda>(_, _, s). s) (am_proposals am))))))]))))"

subsection \<open>The chosen decision\<close>

lemma ask_models_ok:
  assumes "ask_models ft jl tf cs acc = Inr am" and "\<forall>(i, p, s)\<in>set (am_proposals acc). proposal_ok ft p"
  shows "\<forall>(i, p, s)\<in>set (am_proposals am). proposal_ok ft p"
  using assms
proof (induction cs arbitrary: acc)
  case (Cons c cs)
  let ?out = "case mc_output c of None \<Rightarrow> [] | Some s \<Rightarrow> s"
  have "proposal_ok ft p" if "parse_proposal ft jl tf ?out = Inr (Some p)" for p
    using that scan_ok [of ft jl tf "proposal_json_candidates jl ?out" None "[]" p]
    by (simp add: parse_proposal_def split: if_splits)
  note ok = this
  let ?acc = "acc\<lparr>am_asked := am_asked acc + 1, am_answered := am_answered acc + (if mc_output c = None then 0 else 1),
      am_outputs := AList.update (mc_id c) ?out (am_outputs acc)\<rparr>"
  show ?case
  proof (cases "mc_valid c")
    case False
    with Cons show ?thesis by simp
  next
    case valid: True
    show ?thesis
    proof (cases "parse_proposal ft jl tf ?out")
      case (Inl e)
      with Cons.prems(1) valid show ?thesis by (simp add: Let_def)
    next
      case (Inr r)
      show ?thesis
      proof (cases r)
        case None
        with Inr Cons.prems(1) valid have "ask_models ft jl tf cs ?acc = Inr am" by (simp add: Let_def)
        from Cons.IH [OF this] Cons.prems(2) show ?thesis by simp
      next
        case (Some p)
        with Inr Cons.prems(1) valid
        have "ask_models ft jl tf cs (?acc\<lparr>am_proposals := am_proposals ?acc @ [(mc_id c, p, mc_score c)]\<rparr>) = Inr am"
          by (simp add: Let_def)
        from Cons.IH [OF this] Cons.prems(2) ok [of p] Inr Some show ?thesis by auto
      qed
    qed
  qed
qed simp

lemma choose_action_type:
  assumes "choose_decision rp rp1 now later am pp = (pp', d)"
    and "\<forall>(i, p, s)\<in>set (am_proposals am). proposal_ok ft p"
  shows "dget d ''action_type'' = PNone \<or> dget d ''action_type'' \<in> PStr ` set (engine_known_types ft)"
proof -
  let ?ex = "filter (\<lambda>(i, p, score). pr_action_type p \<noteq> PNone) (am_proposals am)"
  show ?thesis
  proof (cases "sort_key (\<lambda>(i, p, score). - (pr_confidence p * score)) ?ex")
    case Nil
    with assms(1) show ?thesis
      by (auto simp: choose_decision_def Let_def fallback_decision_def no_action_decision_def dget_def
          engine_known_types_def split: if_splits)
  next
    case (Cons x xs)
    obtain i p s where x: "x = (i, p, s)" by (cases x)
    from arg_cong [OF Cons, of set] x have "(i, p, s) \<in> set (am_proposals am)" by auto
    with assms(2) have "proposal_ok ft p" by auto
    moreover from assms(1) Cons x have "dget d ''action_type'' = pr_action_type p"
      by (auto simp: choose_decision_def dget_def)
    ultimately show ?thesis by (auto simp: proposal_ok_def)
  qed
qed

lemma choose_progress:
  assumes "choose_decision rp rp1 now later am pp = (pp', d)"
  shows "(dget d ''action_type'' = PNone \<longrightarrow> pp_model_failures pp' \<le> 2 \<or> pp_backend_failures pp' \<le> 2) \<and>
    (pp_ready_at pp' \<noteq> pp_ready_at pp \<longrightarrow> pp_ready_at pp' = 0 \<or>
       later < pp_ready_at pp' \<and> pp_ready_at pp' \<le> later + 600)"
proof -
  have pos: "0 < min (PROPOSAL_BACKOFF_BASE_SECS * 2 ^ k) PROPOSAL_BACKOFF_MAX_SECS" for k :: nat
    by (simp add: PROPOSAL_BACKOFF_BASE_SECS_def PROPOSAL_BACKOFF_MAX_SECS_def)
  let ?l = "sort_key (\<lambda>(i, p, score). - (pr_confidence p * score))
      (filter (\<lambda>(i, p, score). pr_action_type p \<noteq> PNone) (am_proposals am))"
  show ?thesis
  proof (cases ?l)
    case Nil
    with assms pos show ?thesis
      by (auto simp: choose_decision_def Let_def fallback_decision_def no_action_decision_def dget_def
          PROPOSAL_BACKOFF_MAX_SECS_def split: if_splits)
  next
    case (Cons x xs)
    obtain i p s where x: "x = (i, p, s)" by (cases x)
    have "x \<in> set ?l" by (simp only: Cons list.set_intros)
    with x have "pr_action_type p \<noteq> PNone" by simp
    with assms Cons x show ?thesis by (auto simp: choose_decision_def dget_def)
  qed
qed

text \<open>Every decision names an action of the engine's vocabulary or none; the loop cannot stay idle, since a
  decision without an action is made only while fewer than three failures of its kind were
  counted; and a proposer that keeps failing is left alone for a positive time of at most ten
  minutes.\<close>

theorem decision_in_vocabulary:
  assumes "decide ft json_loads to_float rp rp1 now later calls pp = (pp', Inr d)"
  shows "(dget d ''action_type'' = PNone \<or> dget d ''action_type'' \<in> PStr ` set (engine_known_types ft)) \<and>
    (dget d ''action_type'' = PNone \<longrightarrow> pp_model_failures pp' \<le> 2 \<or> pp_backend_failures pp' \<le> 2) \<and>
    (pp_ready_at pp' \<noteq> pp_ready_at pp \<longrightarrow> pp_ready_at pp' = 0 \<or>
       later < pp_ready_at pp' \<and> pp_ready_at pp' \<le> later + 600)"
proof -
  from assms obtain am d0 tl where am: "ask_models ft json_loads to_float (if now < pp_ready_at pp then [] else calls)
      \<lparr>am_outputs = [], am_proposals = [], am_asked = 0, am_answered = 0\<rparr> = Inr am"
    and c: "choose_decision rp rp1 now later am pp = (pp', d0)"
    and d: "d = d0 @ [(''model_outputs'', fst tl), (''aggregated_output'', snd tl)]"
    by (auto simp: decide_def Let_def split: sum.splits prod.splits)
  have "\<exists>v. map_of d0 ''action_type'' = Some v"
    using c by (auto simp: choose_decision_def Let_def fallback_decision_def no_action_decision_def
        split: list.splits if_splits)
  then have "dget d ''action_type'' = dget d0 ''action_type''" by (auto simp: d dget_def)
  with choose_action_type [OF c] choose_progress [OF c] ask_models_ok [OF am] show ?thesis by auto
qed

definition fresh_proposer :: proposer where
  "fresh_proposer = \<lparr>pp_model_failures = 0, pp_backend_failures = 0, pp_ready_at = 0, pp_decision_seq = 0\<rparr>"

theorem decision_in_vocabulary_witness:
  "\<exists>pp' d. decide all_features (\<lambda>_. None) (\<lambda>_. None) (\<lambda>_. ''0.0'') (\<lambda>_. ''0.0'') 1 1 []
       (fresh_proposer\<lparr>pp_model_failures := 2\<rparr>) = (pp', Inr d) \<and> pp_ready_at pp' \<le> 601"
proof -
  obtain pp' d where r: "decide all_features (\<lambda>_. None) (\<lambda>_. None) (\<lambda>_. ''0.0'') (\<lambda>_. ''0.0'') 1 1 []
       (fresh_proposer\<lparr>pp_model_failures := 2\<rparr>) = (pp', Inr d)"
    by (simp add: decide_def choose_decision_def Let_def fresh_proposer_def)
  from decision_in_vocabulary [OF r] r show ?thesis
    by (auto simp: fresh_proposer_def)
qed

end
