(* ===== verification/Governor.thy ===== *)
theory Governor
  imports Prelude
begin

text \<open>
  \<open>src/state_machine.py\<close>: the execution governor. \<open>agent_state\<close> is \<open>AgentState\<close>,
  \<open>allowed\<close> the transition matrix \<open>_ALLOWED\<close>, the record \<open>governor\<close> the fields of
  \<open>ExecutionGovernor\<close>, and there is one definition per method. A method that raises
  \<open>GovernorError\<close> returns \<open>Inl\<close> of the error next to the state it leaves behind; a method
  that writes to the audit chain returns the events it appends. The lock makes every method
  atomic, so an execution of several threads is a sequence of method calls.
\<close>

subsection \<open>States and the transition matrix\<close>

datatype agent_state =
    IDLE | OBSERVING | GATING | DECIDING | EXECUTING | EVALUATING | CONSOLIDATING
  | PLANNING | PHYSICAL_EXECUTING | EMERGENCY_STOP | PAUSED | SAFE_STATE | HALTED

fun state_value :: "agent_state \<Rightarrow> string" where
  "state_value IDLE = ''idle''"
| "state_value OBSERVING = ''observing''"
| "state_value GATING = ''gating''"
| "state_value DECIDING = ''deciding''"
| "state_value EXECUTING = ''executing''"
| "state_value EVALUATING = ''evaluating''"
| "state_value CONSOLIDATING = ''consolidating''"
| "state_value PLANNING = ''planning''"
| "state_value PHYSICAL_EXECUTING = ''physical_executing''"
| "state_value EMERGENCY_STOP = ''emergency_stop''"
| "state_value PAUSED = ''paused''"
| "state_value SAFE_STATE = ''safe_state''"
| "state_value HALTED = ''halted''"

fun allowed :: "agent_state \<Rightarrow> agent_state list" where
  "allowed IDLE = [OBSERVING]"
| "allowed OBSERVING = [GATING, IDLE]"
| "allowed GATING = [DECIDING, IDLE]"
| "allowed DECIDING = [EXECUTING, PLANNING, IDLE]"
| "allowed PLANNING = [PHYSICAL_EXECUTING, IDLE, EMERGENCY_STOP]"
| "allowed PHYSICAL_EXECUTING = [EVALUATING, IDLE, EMERGENCY_STOP]"
| "allowed EXECUTING = [EVALUATING, IDLE, EMERGENCY_STOP]"
| "allowed EVALUATING = [IDLE]"
| "allowed CONSOLIDATING = [IDLE]"
| "allowed EMERGENCY_STOP = [IDLE]"
| "allowed SAFE_STATE = [OBSERVING]"
| "allowed PAUSED = []"
| "allowed HALTED = []"

subsection \<open>The governor and its methods\<close>

datatype governor_error =
    ExecutionPaused
  | ExecutionHalted
  | Reentrant agent_state
  | IllegalTransition agent_state agent_state
  | BudgetExhausted int int
  | DeadlineExceeded
  | ResumeUnattributed
  | CannotResume agent_state

text \<open>The message each \<open>raise GovernorError(...)\<close> carries; \<open>_governor_trigger_kind\<close> of the
  decision engine reads it.\<close>

fun governor_message :: "governor_error \<Rightarrow> string" where
  "governor_message ExecutionPaused = ''execution is paused by the fallback controller''"
| "governor_message ExecutionHalted = ''execution is halted; process restart required''"
| "governor_message (Reentrant s) =
     ''re-entrant execution blocked (state='' @ state_value s @ '')''"
| "governor_message (IllegalTransition s t) =
     ''illegal transition '' @ state_value s @ '' -> '' @ state_value t"
| "governor_message (BudgetExhausted u b) =
     ''step budget exhausted ('' @ show_int u @ '' > '' @ show_int b @ '')''"
| "governor_message DeadlineExceeded = ''task deadline exceeded''"
| "governor_message ResumeUnattributed =
     ''resume requires operator attribution ('' @ [CHR 0x27] @ ''resumed_by'' @ [CHR 0x27] @ '')''"
| "governor_message (CannotResume s) = ''cannot resume from state='' @ state_value s"

record governor =
  step_budget :: int
  task_deadline_seconds :: real
  stall_seconds :: real
  g_state :: agent_state
  g_latched :: "agent_state option"
  task_started_at :: "real option"
  steps_used :: int
  last_progress_at :: "real option"
  current_task :: "string option"

type_synonym audit_event = "string \<times> pydict"

definition new_governor :: "int \<Rightarrow> real \<Rightarrow> real \<Rightarrow> governor" where
  "new_governor budget deadline stall =
     \<lparr>step_budget = max 1 budget, task_deadline_seconds = max 0 deadline,
      stall_seconds = max 0 stall, g_state = IDLE, g_latched = None, task_started_at = None,
      steps_used = 0, last_progress_at = None, current_task = None\<rparr>"

definition gov_mode :: "governor \<Rightarrow> agent_state" where
  "gov_mode g = (case g_latched g of Some m \<Rightarrow> m | None \<Rightarrow> g_state g)"

definition seconds_since_progress :: "real \<Rightarrow> governor \<Rightarrow> real option" where
  "seconds_since_progress now g =
     (case last_progress_at g of None \<Rightarrow> None | Some t \<Rightarrow> Some (now - t))"

definition begin_task :: "real \<Rightarrow> string option \<Rightarrow> (governor, governor_error, unit) sx" where
  "begin_task now task_ref g =
     (if g_state g = PAUSED then (g, Inl ExecutionPaused)
      else if g_state g = HALTED then (g, Inl ExecutionHalted)
      else if g_state g \<noteq> IDLE \<and> g_state g \<noteq> SAFE_STATE then (g, Inl (Reentrant (g_state g)))
      else (g\<lparr>g_state := OBSERVING, task_started_at := Some now, steps_used := 0,
              last_progress_at := Some now, current_task := task_ref\<rparr>, Inr ()))"

definition deadline_passed :: "real \<Rightarrow> governor \<Rightarrow> bool" where
  "deadline_passed now g =
     (case task_started_at g of
        None \<Rightarrow> False
      | Some t \<Rightarrow> task_deadline_seconds g \<noteq> 0 \<and> now - t > task_deadline_seconds g)"

definition gov_step :: "real \<Rightarrow> agent_state \<Rightarrow> (governor, governor_error, unit) sx" where
  "gov_step now next_state g =
     (if deadline_passed now g then (g, Inl DeadlineExceeded)
      else if next_state \<notin> set (allowed (g_state g))
        then (g, Inl (IllegalTransition (g_state g) next_state))
      else (g\<lparr>g_state := next_state, last_progress_at := Some now\<rparr>, Inr ()))"

definition consume_step :: "real \<Rightarrow> int \<Rightarrow> (governor, governor_error, unit) sx" where
  "consume_step now count g =
     (if deadline_passed now g then (g, Inl DeadlineExceeded)
      else if task_started_at g = None then (g, Inr ())
      else let g' = g\<lparr>steps_used := steps_used g + max 1 count\<rparr>
           in if steps_used g' > step_budget g'
              then (g', Inl (BudgetExhausted (steps_used g') (step_budget g')))
              else (g', Inr ()))"

definition end_task :: "real \<Rightarrow> governor \<Rightarrow> governor" where
  "end_task now g =
     g\<lparr>g_state := (case g_latched g of Some m \<Rightarrow> m | None \<Rightarrow> IDLE), task_started_at := None,
       steps_used := 0, current_task := None, last_progress_at := Some now\<rparr>"

definition latch :: "agent_state \<Rightarrow> string \<Rightarrow> governor \<Rightarrow> governor \<times> audit_event list" where
  "latch m reason g =
     (if g_state g = HALTED then (g, [])
      else ((if task_started_at g = None then g\<lparr>g_latched := Some m, g_state := m\<rparr>
             else g\<lparr>g_latched := Some m\<rparr>),
            [(''governor_latch'',
              [(''state'', PStr (state_value m)), (''reason'', PStr (take 160 reason))])]))"

definition gov_pause :: "string \<Rightarrow> governor \<Rightarrow> governor \<times> audit_event list" where
  "gov_pause reason = latch PAUSED reason"

definition gov_safe_state :: "string \<Rightarrow> governor \<Rightarrow> governor \<times> audit_event list" where
  "gov_safe_state reason = latch SAFE_STATE reason"

definition gov_halt :: "string \<Rightarrow> governor \<Rightarrow> governor \<times> audit_event list" where
  "gov_halt reason = latch HALTED reason"

definition gov_resume :: "real \<Rightarrow> string \<Rightarrow> (governor, governor_error, audit_event list) sx" where
  "gov_resume now resumed_by g =
     (if resumed_by = [] then (g, Inl ResumeUnattributed)
      else if g_state g \<noteq> PAUSED \<and> g_state g \<noteq> SAFE_STATE then (g, Inl (CannotResume (g_state g)))
      else (g\<lparr>g_latched := None, g_state := IDLE, last_progress_at := Some now\<rparr>,
            Inr [(''governor_resume'', [(''resumed_by'', PStr (take 120 resumed_by))])]))"

lemmas gov_op_defs [op_defs] =
  begin_task_def gov_step_def consume_step_def end_task_def latch_def
  gov_pause_def gov_safe_state_def gov_halt_def gov_resume_def

subsection \<open>Any sequence of calls\<close>

text \<open>A thread of the program can call any method in any state, at any clock reading; what the
  call raises is its caller's business, what it leaves behind is the governor's.\<close>

datatype gov_op =
    OpBegin real "string option"
  | OpStep real agent_state
  | OpConsume real int
  | OpEnd real
  | OpPause string
  | OpSafe string
  | OpHalt string
  | OpResume real string

fun gov_apply :: "gov_op \<Rightarrow> governor \<Rightarrow> governor" where
  "gov_apply (OpBegin now r) g = fst (begin_task now r g)"
| "gov_apply (OpStep now s) g = fst (gov_step now s g)"
| "gov_apply (OpConsume now n) g = fst (consume_step now n g)"
| "gov_apply (OpEnd now) g = end_task now g"
| "gov_apply (OpPause r) g = fst (gov_pause r g)"
| "gov_apply (OpSafe r) g = fst (gov_safe_state r g)"
| "gov_apply (OpHalt r) g = fst (gov_halt r g)"
| "gov_apply (OpResume now by) g = fst (gov_resume now by g)"

definition latch_modes :: "agent_state set" where
  "latch_modes = {PAUSED, SAFE_STATE, HALTED}"

text \<open>The class invariant: only the three safe modes are ever latched; the governor shows one of
  them only while it is latched and no task is in flight; the counters are in range.\<close>

definition gov_inv :: "governor \<Rightarrow> bool" where
  "gov_inv g \<longleftrightarrow>
     (\<forall>m. g_latched g = Some m \<longrightarrow> m \<in> latch_modes) \<and>
     (g_state g \<in> latch_modes \<longrightarrow> g_latched g = Some (g_state g) \<and> task_started_at g = None) \<and>
     0 \<le> steps_used g \<and> 1 \<le> step_budget g \<and> 0 \<le> task_deadline_seconds g"

lemma allowed_not_latch_mode: "t \<in> set (allowed s) \<Longrightarrow> t \<notin> latch_modes"
  by (cases s) (auto simp: latch_modes_def)

lemma gov_inv_new: "gov_inv (new_governor b d s)"
  by (simp add: gov_inv_def new_governor_def latch_modes_def)

lemma gov_inv_apply: "gov_inv g \<Longrightarrow> gov_inv (gov_apply p g)"
proof (cases p)
  case (OpStep now s)
  then show "gov_inv g \<Longrightarrow> ?thesis"
    by (auto simp: gov_inv_def gov_op_defs dest: allowed_not_latch_mode)
qed (auto simp: gov_inv_def gov_op_defs latch_modes_def Let_def split: option.splits)

interpretation gov: invariant_machine gov_apply gov_inv
  by unfold_locales (rule gov_inv_apply)

subsection \<open>Consequences for every run\<close>

text \<open>C13: whatever sequence of method calls the threads of the program make on a fresh
  governor, its class invariant holds: only PAUSED, SAFE_STATE and HALTED are ever latched, the
  state shows one of them only while it is the latched one and no task is in flight, and the
  step counter and limits stay in range.\<close>

theorem governor_invariant:
  "gov_inv (run_ops gov_apply ps (new_governor budget deadline stall))"
  by (rule gov.inv_run) (rule gov_inv_new)

lemma halted_apply:
  "gov_inv g \<and> g_state g = HALTED \<Longrightarrow> gov_inv (gov_apply p g) \<and> g_state (gov_apply p g) = HALTED"
  using gov_inv_apply [of g p]
  by (cases p) (auto simp: gov_op_defs Let_def gov_inv_def latch_modes_def)

interpretation halted: invariant_machine gov_apply "\<lambda>g. gov_inv g \<and> g_state g = HALTED"
  by unfold_locales (rule halted_apply)

text \<open>C22: HALTED is terminal. Once the governor's state is HALTED, no sequence of method calls
  (operator resume included) leaves it, and every attempt to begin a task raises.\<close>

theorem halted_terminal:
  assumes "gov_inv g" and "g_state g = HALTED"
  shows "g_state (run_ops gov_apply ps g) = HALTED \<and>
         begin_task now r (run_ops gov_apply ps g) =
           (run_ops gov_apply ps g, Inl ExecutionHalted)"
  using halted.inv_run [of g ps] assms by (simp add: begin_task_def)

theorem halted_terminal_witness:
  "g_state (run_ops gov_apply [OpResume 5 ''operator'', OpEnd 6]
      (gov_apply (OpHalt ''audit'') (new_governor 50 120 120))) = HALTED"
proof -
  let ?g = "gov_apply (OpHalt ''audit'') (new_governor 50 120 120)"
  have "gov_inv ?g" by (rule gov_inv_apply) (rule gov_inv_new)
  moreover have "g_state ?g = HALTED" by (simp add: gov_op_defs new_governor_def)
  ultimately show ?thesis using halted_terminal by blast
qed

text \<open>A halt that arrives while a task is in flight is only latched, and a later pause
  replaces the latch: after the task ends, an operator resume brings the governor back to IDLE
  although HALT was requested. (The class comment says that HALT is terminal until the process
  restarts.)\<close>

theorem halt_in_flight_is_overridden:
  assumes "gov_inv g" and "task_started_at g \<noteq> None" and "who \<noteq> []"
  shows "gov_mode (run_ops gov_apply [OpHalt r] g) = HALTED \<and>
         g_state (run_ops gov_apply [OpHalt r, OpPause r', OpEnd t, OpResume t' who] g) = IDLE"
  using assms by (auto simp: gov_op_defs gov_mode_def gov_inv_def latch_modes_def)

theorem halt_in_flight_is_overridden_witness:
  "g_state (run_ops gov_apply [OpHalt ''collision'', OpPause ''late'', OpEnd 3, OpResume 4 ''op'']
      (gov_apply (OpBegin 1 None) (new_governor 50 120 120))) = IDLE"
proof -
  let ?g = "gov_apply (OpBegin 1 None) (new_governor 50 120 120)"
  have "gov_inv ?g" by (rule gov_inv_apply) (rule gov_inv_new)
  moreover have "task_started_at ?g \<noteq> None" by (simp add: gov_op_defs new_governor_def)
  ultimately show ?thesis using halt_in_flight_is_overridden [of ?g "''op''"] by simp
qed

subsection \<open>One task at a time\<close>

definition busy :: "governor \<Rightarrow> bool" where
  "busy g \<longleftrightarrow> task_started_at g \<noteq> None \<and> g_state g \<noteq> IDLE \<and> g_state g \<notin> latch_modes"

fun keeps_task :: "gov_op \<Rightarrow> bool" where
  "keeps_task (OpEnd now) = False"
| "keeps_task (OpStep now s) = (s \<noteq> IDLE)"
| "keeps_task _ = True"

lemma busy_apply: "busy g \<Longrightarrow> keeps_task p \<Longrightarrow> busy (gov_apply p g)"
proof (cases p)
  case (OpStep now s)
  then show "busy g \<Longrightarrow> keeps_task p \<Longrightarrow> ?thesis"
    by (auto simp: busy_def gov_op_defs dest: allowed_not_latch_mode)
qed (auto simp: busy_def gov_op_defs latch_modes_def Let_def)

lemma busy_run: "busy g \<Longrightarrow> list_all keeps_task ps \<Longrightarrow> busy (run_ops gov_apply ps g)"
  by (induction ps arbitrary: g) (auto intro: busy_apply)

lemma begin_task_busy: "begin_task now r g = (g', Inr ()) \<Longrightarrow> busy g'"
  by (auto simp: begin_task_def busy_def latch_modes_def split: if_splits)

text \<open>Re-entrancy is refused. Between a successful \<open>begin_task\<close> and the moment the task
  ends or steps back to IDLE, whatever else happens (transitions, charges, latches, resumes,
  further attempts), a second \<open>begin_task\<close> raises and changes nothing.\<close>

theorem reentrancy_refused:
  assumes "begin_task now r g = (g', Inr ())" and "list_all keeps_task ps"
  shows "begin_task now' r' (run_ops gov_apply ps g') =
           (run_ops gov_apply ps g', Inl (Reentrant (g_state (run_ops gov_apply ps g'))))"
  using busy_run [OF begin_task_busy [OF assms(1)] assms(2)]
  by (auto simp: busy_def begin_task_def latch_modes_def)

theorem reentrancy_refused_witness:
  "begin_task 3 None (run_ops gov_apply [OpStep 2 GATING, OpPause ''p'']
      (fst (begin_task 1 None (new_governor 50 120 120)))) =
   (run_ops gov_apply [OpStep 2 GATING, OpPause ''p'']
      (fst (begin_task 1 None (new_governor 50 120 120))), Inl (Reentrant GATING))"
proof -
  let ?g = "new_governor 50 120 120"
  have b: "begin_task 1 None ?g = (fst (begin_task 1 None ?g), Inr ())"
    by (simp add: begin_task_def new_governor_def)
  have "g_state (run_ops gov_apply [OpStep 2 GATING, OpPause ''p'']
      (fst (begin_task 1 None ?g))) = GATING"
    by (simp add: gov_op_defs new_governor_def deadline_passed_def)
  with reentrancy_refused [OF b, of "[OpStep 2 GATING, OpPause ''p'']" 3 None] show ?thesis
    by simp
qed

subsection \<open>The step budget\<close>

fun same_task :: "gov_op \<Rightarrow> bool" where
  "same_task (OpBegin now r) = False"
| "same_task (OpEnd now) = False"
| "same_task _ = True"

text \<open>How many of the calls in a run are charges that the governor accepted.\<close>

fun accepted_charges :: "gov_op list \<Rightarrow> governor \<Rightarrow> nat" where
  "accepted_charges [] g = 0"
| "accepted_charges (p # ps) g =
     (case p of OpConsume now n \<Rightarrow> (if snd (consume_step now n g) = Inr () then 1 else 0)
      | _ \<Rightarrow> 0) + accepted_charges ps (gov_apply p g)"

lemma same_task_apply:
  "same_task p \<Longrightarrow> task_started_at (gov_apply p g) = task_started_at g \<and>
     step_budget (gov_apply p g) = step_budget g \<and> steps_used g \<le> steps_used (gov_apply p g)"
  by (cases p) (auto simp: gov_op_defs Let_def)

lemma accepted_charges_bound:
  assumes "task_started_at g \<noteq> None" and "list_all same_task ps" and "steps_used g \<le> step_budget g"
  shows "steps_used g + int (accepted_charges ps g) \<le> step_budget g"
  using assms
proof (induction ps arbitrary: g)
  case Nil
  then show ?case by simp
next
  case (Cons p ps)
  note st = same_task_apply [of p g]
  show ?case
  proof (cases "steps_used (gov_apply p g) \<le> step_budget g")
    case True
    with Cons st have IH:
      "steps_used (gov_apply p g) + int (accepted_charges ps (gov_apply p g)) \<le> step_budget g"
      by fastforce
    with st Cons.prems show ?thesis
      by (cases p) (auto simp: gov_op_defs Let_def split: if_splits)
  next
    case False
    have none: "accepted_charges qs h = 0"
      if "task_started_at h \<noteq> None" "list_all same_task qs" "step_budget h < steps_used h"
      for qs h using that
    proof (induction qs arbitrary: h)
      case Nil
      then show ?case by simp
    next
      case (Cons q qs)
      with same_task_apply [of q h] have "accepted_charges qs (gov_apply q h) = 0" by simp
      with Cons.prems show ?case
        by (cases q) (auto simp: gov_op_defs Let_def)
    qed
    have "accepted_charges ps (gov_apply p g) = 0"
      by (rule none) (use False st Cons.prems in auto)
    with False Cons.prems show ?thesis
      by (cases p) (auto simp: gov_op_defs Let_def split: if_splits)
  qed
qed

text \<open>The per-task step budget is a hard bound. Over any run of calls that belongs to one
  task, the governor accepts at most \<open>step_budget\<close> charges, however large each charge is and
  whatever else happens in between.\<close>

theorem step_budget_bounds_charges:
  assumes "begin_task now r g = (g', Inr ())" and "gov_inv g" and "list_all same_task ps"
  shows "int (accepted_charges ps g') \<le> step_budget g"
proof -
  from assms(1,2) have "task_started_at g' \<noteq> None" "steps_used g' = 0"
    "step_budget g' = step_budget g" "0 \<le> step_budget g"
    by (auto simp: begin_task_def gov_inv_def split: if_splits)
  with accepted_charges_bound [of g' ps] assms(3) show ?thesis by simp
qed

theorem step_budget_bounds_charges_witness:
  "int (accepted_charges [OpConsume 2 1, OpConsume 3 1, OpConsume 4 1]
      (fst (begin_task 1 None (new_governor 2 120 120)))) \<le> 2"
proof -
  let ?g = "new_governor 2 120 120"
  have b: "begin_task 1 None ?g = (fst (begin_task 1 None ?g), Inr ())"
    by (simp add: begin_task_def new_governor_def)
  have "step_budget ?g = 2" by (simp add: new_governor_def)
  with step_budget_bounds_charges [OF b gov_inv_new,
      of "[OpConsume 2 1, OpConsume 3 1, OpConsume 4 1]"]
  show ?thesis by (simp del: accepted_charges.simps)
qed

subsection \<open>Latched modes\<close>

fun no_latch_op :: "gov_op \<Rightarrow> bool" where
  "no_latch_op (OpPause r) = False"
| "no_latch_op (OpSafe r) = False"
| "no_latch_op (OpHalt r) = False"
| "no_latch_op (OpResume now who) = False"
| "no_latch_op _ = True"

lemma no_latch_op_apply: "no_latch_op p \<Longrightarrow> g_latched (gov_apply p g) = g_latched g"
  by (cases p) (auto simp: gov_op_defs Let_def)

lemma no_latch_op_run:
  "list_all no_latch_op ps \<Longrightarrow> g_latched (run_ops gov_apply ps g) = g_latched g"
  by (induction ps arbitrary: g) (auto simp: no_latch_op_apply)

text \<open>A latched mode outlives the tasks. As long as nobody latches another mode or resumes,
  the effective mode stays the latched one through any number of tasks, and every
  \<open>end_task\<close> puts the governor's state back to it.\<close>

theorem latched_mode_persists:
  assumes "g_latched g = Some m" and "list_all no_latch_op ps"
  shows "gov_mode (run_ops gov_apply ps g) = m \<and>
         g_state (end_task now (run_ops gov_apply ps g)) = m"
  using no_latch_op_run [OF assms(2), of g] assms(1)
  by (simp add: gov_mode_def end_task_def)

theorem latched_mode_persists_witness:
  "gov_mode (run_ops gov_apply [OpBegin 1 None, OpStep 2 GATING, OpEnd 3]
      (gov_apply (OpSafe ''stall'') (new_governor 50 120 120))) = SAFE_STATE"
proof -
  have "g_latched (gov_apply (OpSafe ''stall'') (new_governor 50 120 120)) = Some SAFE_STATE"
    by (simp add: gov_op_defs new_governor_def)
  from latched_mode_persists [OF this, of "[OpBegin 1 None, OpStep 2 GATING, OpEnd 3]"]
  show ?thesis by simp
qed

end
