(* ===== verification/Fallbacks.thy ===== *)
theory Fallbacks
  imports Governor
begin

text \<open>
  \<open>src/fallbacks.py\<close>: the deterministic fallback controller. The record \<open>fallback\<close> holds
  the fields of \<open>FallbackController\<close>; \<open>fb_world\<close> puts it next to the governor it drives and
  the events both append to the audit chain, in order. Collaborators that may be absent are
  optional arguments of \<open>fb_evaluate\<close>: the number of open circuit breakers (0 without an
  execution layer) and the Tier 1 backlog.
\<close>

subsection \<open>Configuration tables\<close>

definition default_severities :: "(string \<times> string) list" where
  "default_severities =
    [(''circuit_breakers_open'', ''pause''),
     (''episodic_backlog'', ''pause''),
     (''maintenance_worker_failure'', ''pause''),
     (''task_stalled'', ''safe_state''),
     (''step_budget_exhausted'', ''safe_state''),
     (''task_deadline_exceeded'', ''safe_state''),
     (''invariant_violations'', ''safe_state''),
     (''memory_failure'', ''halt''),
     (''audit_failure'', ''halt''),
     (''collision_detected'', ''halt''),
     (''joint_limit_approached'', ''safe_state''),
     (''velocity_exceeded'', ''safe_state''),
     (''acceleration_exceeded'', ''safe_state''),
     (''workspace_boundary_violated'', ''safe_state''),
     (''emergency_stop_activated'', ''halt''),
     (''human_presence_detected'', ''safe_state''),
     (''planning_failure'', ''pause''),
     (''ros2_connection_lost'', ''safe_state''),
     (''gazebo_connection_lost'', ''pause''),
     (''mobile_node_lost'', ''pause''),
     (''mobile_sensor_anomaly'', ''pause''),
     (''android_lifecycle_paused'', ''pause''),
     (''device_power_low'', ''pause''),
     (''device_thermal_high'', ''pause''),
     (''accelerator_failure'', ''pause''),
     (''network_transport_exhausted'', ''pause''),
     (''network_peer_lost'', ''pause''),
     (''memory_sync_conflict_storm'', ''safe_state''),
     (''audit_chain_broken'', ''halt'')]"

definition immediate_kinds :: "string list" where
  "immediate_kinds = [''step_budget_exhausted'', ''task_deadline_exceeded'',
                      ''memory_failure'', ''audit_failure'']"

record thresholds =
  th_breakers_open :: int
  th_episodic_backlog :: int
  th_invariant_violations :: int
  th_maintenance_failures :: int
  th_stall_seconds :: real

definition default_thresholds :: thresholds where
  "default_thresholds =
     \<lparr>th_breakers_open = 2, th_episodic_backlog = 200, th_invariant_violations = 10,
      th_maintenance_failures = 3, th_stall_seconds = 120\<rparr>"

text \<open>\<open>_THRESHOLDED\<close> with the threshold each kind reads.\<close>

definition threshold_for :: "thresholds \<Rightarrow> string \<Rightarrow> int option" where
  "threshold_for th kind =
     (if kind = ''invariant_violations'' then Some (th_invariant_violations th)
      else if kind = ''maintenance_worker_failure'' then Some (th_maintenance_failures th)
      else None)"

subsection \<open>The controller\<close>

datatype fb_mode = Normal | Paused | SafeMode | Halted

fun fb_mode_value :: "fb_mode \<Rightarrow> string" where
  "fb_mode_value Normal = ''normal''"
| "fb_mode_value Paused = ''paused''"
| "fb_mode_value SafeMode = ''safe_state''"
| "fb_mode_value Halted = ''halted''"

record fallback =
  fb_thresholds :: thresholds
  fb_severities :: "(string \<times> string) list"
  fb_mode :: fb_mode
  fb_violations :: "(string \<times> int) list"
  fb_last_detail :: "(string \<times> string) list"

definition new_fallback :: "thresholds \<Rightarrow> (string \<times> string) list \<Rightarrow> fallback" where
  "new_fallback th sev =
     \<lparr>fb_thresholds = th, fb_severities = AList.updates (map fst sev) (map snd sev) default_severities,
      fb_mode = Normal, fb_violations = [], fb_last_detail = []\<rparr>"

record fb_world =
  w_fb :: fallback
  w_gov :: governor
  w_log :: "audit_event list"

datatype fb_error = FallbackHalt string | FbGovernorError governor_error

datatype severity = SevHalt | SevSafe | SevPause

text \<open>\<open>str(self.severities.get(kind, "pause")).lower()\<close> and the three branches it selects.\<close>

definition severity_name :: "fallback \<Rightarrow> string \<Rightarrow> string" where
  "severity_name f kind =
     py_lower (case map_of (fb_severities f) kind of None \<Rightarrow> ''pause'' | Some s \<Rightarrow> s)"

definition severity_of :: "fallback \<Rightarrow> string \<Rightarrow> severity" where
  "severity_of f kind =
     (if severity_name f kind = ''halt'' then SevHalt
      else if severity_name f kind = ''safe_state'' then SevSafe else SevPause)"

text \<open>The part of \<open>_fire\<close> that talks to the governor, over whatever implements its three
  latching methods.\<close>

fun engage :: "(string \<Rightarrow> 'g \<Rightarrow> 'r) \<Rightarrow> (string \<Rightarrow> 'g \<Rightarrow> 'r) \<Rightarrow> (string \<Rightarrow> 'g \<Rightarrow> 'r) \<Rightarrow>
    severity \<Rightarrow> string \<Rightarrow> 'g \<Rightarrow> 'r" where
  "engage halt safe pause SevHalt reason g = halt reason g"
| "engage halt safe pause SevSafe reason g = safe reason g"
| "engage halt safe pause SevPause reason g = pause reason g"

fun mode_of_severity :: "severity \<Rightarrow> fb_mode" where
  "mode_of_severity SevHalt = Halted"
| "mode_of_severity SevSafe = SafeMode"
| "mode_of_severity SevPause = Paused"

definition fb_fire :: "string \<Rightarrow> string \<Rightarrow> (fb_world, fb_error, unit) sx" where
  "fb_fire kind detail w =
     (let f = w_fb w; sev = severity_of f kind;
          reason = kind @ '': '' @ take 150 detail;
          trigger = (''fallback_trigger'',
                     [(''trigger'', PStr kind), (''severity'', PStr (severity_name f kind)),
                      (''detail'', PStr (take 200 detail))]);
          (g', evs) = engage gov_halt gov_safe_state gov_pause sev reason (w_gov w);
          w' = w\<lparr>w_fb := f\<lparr>fb_mode := mode_of_severity sev\<rparr>, w_gov := g',
                 w_log := w_log w @ [trigger] @ evs\<rparr>
      in if sev = SevHalt
         then (w'\<lparr>w_log := w_log w' @ [(''fallback_halt'', [(''reason'', PStr reason)])]\<rparr>,
               Inl (FallbackHalt reason))
         else (w', Inr ()))"

fun fb_fire_all :: "(string \<times> string) list \<Rightarrow> (fb_world, fb_error, unit) sx" where
  "fb_fire_all [] = sx_return ()"
| "fb_fire_all ((kind, detail) # ts) = sx_bind (fb_fire kind detail) (\<lambda>_. fb_fire_all ts)"

text \<open>The triggers that \<open>evaluate\<close> collects, in its order. The details carry the numbers the
  code formats into them; the stall duration's formatting (\<open>:.1f\<close>) is a parameter.\<close>

definition fb_triggers ::
  "(real \<Rightarrow> string) \<Rightarrow> real \<Rightarrow> int \<Rightarrow> int option \<Rightarrow> fb_world \<Rightarrow> (string \<times> string) list" where
  "fb_triggers fmt now breakers backlog w =
     (let th = fb_thresholds (w_fb w) in
      (if breakers \<ge> th_breakers_open th
       then [(''circuit_breakers_open'', show_int breakers @ '' open circuit(s)'')] else []) @
      (case backlog of None \<Rightarrow> []
       | Some n \<Rightarrow> (if n \<ge> th_episodic_backlog th
                    then [(''episodic_backlog'', show_int n @ '' unconsumed Tier 1 events'')]
                    else [])) @
      (case seconds_since_progress now (w_gov w) of None \<Rightarrow> []
       | Some stalled \<Rightarrow> (if stalled > th_stall_seconds th
                          then [(''task_stalled'', ''no progress for '' @ fmt stalled @ ''s'')]
                          else [])))"

definition fb_evaluate ::
  "(real \<Rightarrow> string) \<Rightarrow> real \<Rightarrow> int \<Rightarrow> int option \<Rightarrow> (fb_world, fb_error, unit) sx" where
  "fb_evaluate fmt now breakers backlog w =
     (if fb_mode (w_fb w) \<noteq> Normal then (w, Inr ())
      else fb_fire_all (fb_triggers fmt now breakers backlog w) w)"

definition violation_count :: "fallback \<Rightarrow> string \<Rightarrow> int" where
  "violation_count f kind = (case map_of (fb_violations f) kind of None \<Rightarrow> 0 | Some n \<Rightarrow> n)"

definition count_violation :: "string \<Rightarrow> string \<Rightarrow> fallback \<Rightarrow> fallback" where
  "count_violation kind detail f =
     f\<lparr>fb_violations := AList.update kind (violation_count f kind + 1) (fb_violations f),
       fb_last_detail := AList.update kind (take 200 detail) (fb_last_detail f)\<rparr>"

definition report_violation :: "string \<Rightarrow> string \<Rightarrow> (fb_world, fb_error, unit) sx" where
  "report_violation kind detail w =
     (let w' = w\<lparr>w_fb := count_violation kind detail (w_fb w)\<rparr>;
          count = violation_count (w_fb w') kind
      in case threshold_for (fb_thresholds (w_fb w')) kind of
           Some threshold \<Rightarrow> (if count \<ge> threshold then fb_fire kind detail w' else (w', Inr ()))
         | None \<Rightarrow> (if kind \<in> set immediate_kinds then fb_fire kind detail w'
                    else fb_fire kind detail w'))"

definition fb_resume :: "real \<Rightarrow> string \<Rightarrow> (fb_world, fb_error, unit) sx" where
  "fb_resume now who w =
     (case gov_resume now who (w_gov w) of
        (g', Inl e) \<Rightarrow> (w\<lparr>w_gov := g'\<rparr>, Inl (FbGovernorError e))
      | (g', Inr evs) \<Rightarrow>
          (w\<lparr>w_gov := g',
             w_fb := (w_fb w)\<lparr>fb_violations := [], fb_last_detail := [], fb_mode := Normal\<rparr>,
             w_log := w_log w @ evs @
               [(''fallback_resume'', [(''resumed_by'', PStr (take 120 who))])]\<rparr>, Inr ()))"

definition fb_status :: "fb_world \<Rightarrow> pydict" where
  "fb_status w =
     [(''mode'', PStr (fb_mode_value (fb_mode (w_fb w)))),
      (''governor_state'', PStr (state_value (g_state (w_gov w)))),
      (''violations'', PDict (map (\<lambda>(k, n). (k, PInt n)) (fb_violations (w_fb w))))]"

lemmas fb_op_defs [op_defs] =
  fb_fire_def fb_evaluate_def report_violation_def fb_resume_def

subsection \<open>The controller's contract with the governor\<close>

text \<open>What the controller relies on: an engaged governor latches the mode it was asked for,
  unless it is already dead (HALTED), in which case it stays as it is.\<close>

locale latching_governor =
  fixes halt safe pause :: "string \<Rightarrow> 'g \<Rightarrow> 'g \<times> 'ev list"
    and latched :: "'g \<Rightarrow> agent_state option"
    and dead :: "'g \<Rightarrow> bool"
  assumes latched_halt: "\<not> dead g \<Longrightarrow> latched (fst (halt r g)) = Some HALTED"
    and latched_safe: "\<not> dead g \<Longrightarrow> latched (fst (safe r g)) = Some SAFE_STATE"
    and latched_pause: "\<not> dead g \<Longrightarrow> latched (fst (pause r g)) = Some PAUSED"
    and dead_halt: "dead g \<Longrightarrow> halt r g = (g, [])"
    and dead_safe: "dead g \<Longrightarrow> safe r g = (g, [])"
    and dead_pause: "dead g \<Longrightarrow> pause r g = (g, [])"
begin

lemma engage_latches:
  "\<not> dead g \<Longrightarrow> latched (fst (engage halt safe pause sev r g)) =
     Some (case sev of SevHalt \<Rightarrow> HALTED | SevSafe \<Rightarrow> SAFE_STATE | SevPause \<Rightarrow> PAUSED)"
  by (cases sev) (auto simp: latched_halt latched_safe latched_pause)

lemma engage_dead: "dead g \<Longrightarrow> engage halt safe pause sev r g = (g, [])"
  by (cases sev) (auto simp: dead_halt dead_safe dead_pause)

end

interpretation lg: latching_governor gov_halt gov_safe_state gov_pause g_latched
  "\<lambda>g. g_state g = HALTED"
  by unfold_locales (auto simp: gov_op_defs)

fun gov_state_of :: "fb_mode \<Rightarrow> agent_state option" where
  "gov_state_of Normal = None"
| "gov_state_of Paused = Some PAUSED"
| "gov_state_of SafeMode = Some SAFE_STATE"
| "gov_state_of Halted = Some HALTED"

text \<open>The agreement between the controller's mode and the governor's latch.\<close>

definition fb_agrees :: "fb_world \<Rightarrow> bool" where
  "fb_agrees w \<longleftrightarrow> gov_inv (w_gov w) \<and>
     (g_latched (w_gov w) = gov_state_of (fb_mode (w_fb w)) \<or>
      g_state (w_gov w) = HALTED \<and> fb_mode (w_fb w) \<noteq> Normal)"

lemma engage_gov_inv:
  "gov_inv g \<Longrightarrow> gov_inv (fst (engage gov_halt gov_safe_state gov_pause sev r g))"
  using gov_inv_apply [of g "OpHalt r"] gov_inv_apply [of g "OpSafe r"]
    gov_inv_apply [of g "OpPause r"] by (cases sev) auto

lemma fb_fire_fields:
  "fb_mode (w_fb (fst (fb_fire kind detail w))) = mode_of_severity (severity_of (w_fb w) kind) \<and>
   w_gov (fst (fb_fire kind detail w)) =
     fst (engage gov_halt gov_safe_state gov_pause (severity_of (w_fb w) kind)
            (kind @ '': '' @ take 150 detail) (w_gov w))"
  by (auto simp: fb_fire_def Let_def split: prod.splits)

lemma fb_fire_raises_iff:
  "(\<exists>e. snd (fb_fire kind detail w) = Inl e) \<longleftrightarrow> severity_of (w_fb w) kind = SevHalt"
  by (auto simp: fb_fire_def Let_def split: prod.splits)

lemma fb_fire_agrees: "fb_agrees w \<Longrightarrow> fb_agrees (fst (fb_fire kind detail w))"
proof -
  assume a: "fb_agrees w"
  let ?sev = "severity_of (w_fb w) kind"
  let ?r = "kind @ '': '' @ take 150 detail"
  have inv: "gov_inv (fst (engage gov_halt gov_safe_state gov_pause ?sev ?r (w_gov w)))"
    using a by (auto simp: fb_agrees_def intro: engage_gov_inv)
  show ?thesis
  proof (cases "g_state (w_gov w) = HALTED")
    case True
    from lg.engage_dead [where g = "w_gov w" and sev = ?sev and r = ?r, OF True] inv True
    show ?thesis
      by (cases ?sev) (auto simp: fb_agrees_def fb_fire_fields)
  next
    case False
    from lg.engage_latches [where g = "w_gov w" and sev = ?sev and r = ?r, OF False] inv
    show ?thesis
      by (cases ?sev) (auto simp: fb_agrees_def fb_fire_fields)
  qed
qed

lemma fb_fire_all_agrees: "fb_agrees w \<Longrightarrow> fb_agrees (fst (fb_fire_all ts w))"
proof (induction ts arbitrary: w rule: fb_fire_all.induct)
  case 1
  then show ?case by (simp add: sx_return_def)
next
  case (2 kind detail ts)
  from fb_fire_agrees [OF 2(2), of kind detail] 2(1) show ?case
    by (auto simp: sx_bind_def split: prod.splits sum.splits)
qed

subsection \<open>Any interleaving with the task lifecycle\<close>

datatype fb_op =
    FEvaluate "real \<Rightarrow> string" real int "int option"
  | FReport string string
  | FResume real string
  | FTask gov_op

text \<open>The engine calls the controller between and inside tasks; the governor's own latching
  methods are called by nobody else.\<close>

fun fb_apply :: "fb_op \<Rightarrow> fb_world \<Rightarrow> fb_world" where
  "fb_apply (FEvaluate fmt now b n) w = fst (fb_evaluate fmt now b n w)"
| "fb_apply (FReport kind detail) w = fst (report_violation kind detail w)"
| "fb_apply (FResume now who) w = fst (fb_resume now who w)"
| "fb_apply (FTask p) w = (if no_latch_op p then w\<lparr>w_gov := gov_apply p (w_gov w)\<rparr> else w)"

lemma fb_resume_agrees: "fb_agrees w \<Longrightarrow> fb_agrees (fst (fb_resume now who w))"
  using gov_inv_apply [of "w_gov w" "OpResume now who"]
  by (auto simp: fb_agrees_def fb_resume_def gov_resume_def gov_inv_def latch_modes_def)

lemma fb_task_agrees:
  "fb_agrees w \<Longrightarrow> no_latch_op p \<Longrightarrow> fb_agrees (w\<lparr>w_gov := gov_apply p (w_gov w)\<rparr>)"
  using gov_inv_apply [of "w_gov w" p] no_latch_op_apply [of p "w_gov w"]
    halted_apply [of "w_gov w" p]
  by (auto simp: fb_agrees_def)

lemma fb_apply_agrees: "fb_agrees w \<Longrightarrow> fb_agrees (fb_apply p w)"
proof (cases p)
  case (FReport kind detail)
  let ?w = "w\<lparr>w_fb := count_violation kind detail (w_fb w)\<rparr>"
  assume "fb_agrees w"
  then have "fb_agrees ?w" by (simp add: fb_agrees_def count_violation_def)
  with fb_fire_agrees [of ?w kind detail] FReport show ?thesis
    by (auto simp: report_violation_def Let_def split: option.splits)
qed (auto simp: fb_evaluate_def fb_fire_all_agrees fb_resume_agrees fb_task_agrees)

interpretation fbm: invariant_machine fb_apply fb_agrees
  by unfold_locales (rule fb_apply_agrees)

definition new_fb_world :: "fallback \<Rightarrow> governor \<Rightarrow> fb_world" where
  "new_fb_world f g = \<lparr>w_fb = f, w_gov = g, w_log = []\<rparr>"

lemma new_fb_world_agrees: "fb_agrees (new_fb_world (new_fallback th sev) (new_governor b d s))"
  using gov_inv_new [of b d s]
  by (simp add: fb_agrees_def new_fb_world_def new_fallback_def new_governor_def)

text \<open>The controller never claims a safety it did not obtain, and never forgets one. In every
  run of evaluations, reports, resumes and tasks from a fresh start, the controller is out of
  normal mode exactly when the governor has a mode latched.\<close>

theorem fallback_mode_matches_governor:
  "let w = run_ops fb_apply ps (new_fb_world (new_fallback th sev) (new_governor b d s))
   in (fb_mode (w_fb w) \<noteq> Normal) = (g_latched (w_gov w) \<noteq> None)"
proof -
  let ?w = "run_ops fb_apply ps (new_fb_world (new_fallback th sev) (new_governor b d s))"
  have "fb_agrees ?w" by (rule fbm.inv_run) (rule new_fb_world_agrees)
  then have "(fb_mode (w_fb ?w) \<noteq> Normal) = (g_latched (w_gov ?w) \<noteq> None)"
    by (cases "fb_mode (w_fb ?w)") (auto simp: fb_agrees_def gov_inv_def latch_modes_def)
  then show ?thesis by simp
qed

subsection \<open>Escalation\<close>

text \<open>The default severities, evaluated.\<close>

lemmas severity_eval =
  severity_of_def severity_name_def new_fallback_def default_severities_def
  py_lower_def lower_char_def char_code_def

lemma count_violation_count [simp]:
  "violation_count (count_violation kind d f) kind' =
     violation_count f kind' + (if kind' = kind then 1 else 0)"
  by (simp add: violation_count_def count_violation_def update_conv')

lemma severity_of_cong [simp]:
  "severity_of (count_violation kind d f) = severity_of f"
  "severity_of (f\<lparr>fb_mode := m\<rparr>) = severity_of f"
  by (simp_all add: fun_eq_iff severity_of_def severity_name_def count_violation_def)

lemma fb_fire_keeps [frame_simps]:
  "violation_count (w_fb (fst (fb_fire kind d w))) = violation_count (w_fb w)"
  "fb_thresholds (w_fb (fst (fb_fire kind d w))) = fb_thresholds (w_fb w)"
  "severity_of (w_fb (fst (fb_fire kind d w))) = severity_of (w_fb w)"
  by (auto simp: fb_fire_def Let_def violation_count_def fun_eq_iff split: prod.splits)

lemma report_violation_keeps [frame_simps]:
  "violation_count (w_fb (fst (report_violation kind d w))) kind = violation_count (w_fb w) kind + 1"
  "fb_thresholds (w_fb (fst (report_violation kind d w))) = fb_thresholds (w_fb w)"
  "severity_of (w_fb (fst (report_violation kind d w))) = severity_of (w_fb w)"
  by (auto simp: report_violation_def Let_def frame_simps count_violation_def [of _ _ "w_fb w"]
           split: option.splits)
     (simp_all add: violation_count_def update_conv' severity_of_def severity_name_def fun_eq_iff)

lemma report_violation_mode:
  "fb_mode (w_fb (fst (report_violation kind d w))) =
     (case threshold_for (fb_thresholds (w_fb w)) kind of
        Some n \<Rightarrow> (if violation_count (w_fb w) kind + 1 \<ge> n
                    then mode_of_severity (severity_of (w_fb w) kind) else fb_mode (w_fb w))
      | None \<Rightarrow> mode_of_severity (severity_of (w_fb w) kind))"
  by (auto simp: report_violation_def Let_def fb_fire_fields split: option.splits)
     (auto simp: count_violation_def)

lemma repeated_reports:
  fixes d :: string
  assumes "threshold_for (fb_thresholds (w_fb w)) kind = Some n" and "fb_mode (w_fb w) = Normal"
    and "violation_count (w_fb w) kind = 0" and "1 \<le> n"
  defines "w' k \<equiv> run_ops fb_apply (replicate k (FReport kind d)) w"
  shows "fb_mode (w_fb (w' k)) =
           (if int k < n then Normal else mode_of_severity (severity_of (w_fb w) kind)) \<and>
         violation_count (w_fb (w' k)) kind = int k \<and>
         fb_thresholds (w_fb (w' k)) = fb_thresholds (w_fb w) \<and>
         severity_of (w_fb (w' k)) = severity_of (w_fb w)"
proof (induction k)
  case 0
  with assms show ?case by (simp add: w'_def)
next
  case (Suc k)
  have "w' (Suc k) = fst (report_violation kind d (w' k))"
    by (simp add: w'_def run_ops_append replicate_append_same [symmetric])
  with Suc assms(1,4) show ?case
    by (auto simp: report_violation_mode frame_simps)
qed

text \<open>Threshold escalation is exact. From a fresh start, \<open>k\<close> reports of an invariant
  violation leave the controller in normal mode while \<open>k\<close> is below the configured threshold,
  and put it into SAFE_STATE from the threshold on.\<close>

theorem invariant_violations_escalate_at_threshold:
  assumes "1 \<le> th_invariant_violations th"
  shows "fb_mode (w_fb (run_ops fb_apply (replicate k (FReport ''invariant_violations'' d))
           (new_fb_world (new_fallback th []) g))) =
         (if int k < th_invariant_violations th then Normal else SafeMode)"
proof -
  let ?w = "new_fb_world (new_fallback th []) g"
  have "threshold_for (fb_thresholds (w_fb ?w)) ''invariant_violations'' =
          Some (th_invariant_violations th)"
    by (simp add: threshold_for_def new_fb_world_def new_fallback_def)
  moreover have "fb_mode (w_fb ?w) = Normal" "violation_count (w_fb ?w) ''invariant_violations'' = 0"
    by (simp_all add: new_fb_world_def new_fallback_def violation_count_def)
  moreover have "severity_of (w_fb ?w) ''invariant_violations'' = SevSafe"
    by (simp add: new_fb_world_def severity_eval)
  ultimately show ?thesis
    using repeated_reports [of ?w "''invariant_violations''" "th_invariant_violations th" k d] assms
    by simp
qed

theorem invariant_violations_escalate_at_threshold_witness:
  "fb_mode (w_fb (run_ops fb_apply (replicate 9 (FReport ''invariant_violations'' ''x''))
     (new_fb_world (new_fallback default_thresholds []) (new_governor 50 120 120)))) = Normal \<and>
   fb_mode (w_fb (run_ops fb_apply (replicate 10 (FReport ''invariant_violations'' ''x''))
     (new_fb_world (new_fallback default_thresholds []) (new_governor 50 120 120)))) = SafeMode"
  by (subst (1 2) invariant_violations_escalate_at_threshold)
     (simp_all add: default_thresholds_def)

subsection \<open>What an evaluation does to an idle agent\<close>

lemma fb_fire_safe:
  assumes "severity_of (w_fb w) kind = SevSafe" and "g_state (w_gov w) \<noteq> HALTED"
    and "task_started_at (w_gov w) = None"
  shows "snd (fb_fire kind d w) = Inr () \<and> fb_mode (w_fb (fst (fb_fire kind d w))) = SafeMode \<and>
         g_state (w_gov (fst (fb_fire kind d w))) = SAFE_STATE"
  using assms by (auto simp: fb_fire_def Let_def gov_op_defs)

lemma fb_evaluate_single:
  "fb_mode (w_fb w) = Normal \<Longrightarrow> fb_triggers fmt now b n w = [(kind, d)] \<Longrightarrow>
     fb_evaluate fmt now b n w = fb_fire kind d w"
  by (simp add: fb_evaluate_def sx_return_def [abs_def] sx_bind_def split: prod.splits sum.splits)

text \<open>Idle time counts as a stall. If no task has been in flight for longer than the stall
  threshold, the evaluation at the top of the next task latches SAFE_STATE, although nothing
  stalled: \<open>end_task\<close> leaves \<open>_last_progress_at\<close> set and the stall check does not ask whether a
  task is running.\<close>

theorem idle_agent_is_declared_stalled:
  assumes "w_fb w = new_fallback default_thresholds []"
    and "task_started_at (w_gov w) = None" and "g_state (w_gov w) = IDLE"
    and "last_progress_at (w_gov w) = Some t" and "now > t + 120"
  shows "snd (fb_evaluate fmt now 0 None w) = Inr () \<and>
         g_state (w_gov (fst (fb_evaluate fmt now 0 None w))) = SAFE_STATE"
proof -
  have trig: "fb_triggers fmt now 0 None w =
      [(''task_stalled'', ''no progress for '' @ fmt (now - t) @ ''s'')]"
    using assms by (simp add: fb_triggers_def new_fallback_def default_thresholds_def
        seconds_since_progress_def)
  have "fb_mode (w_fb w) = Normal" using assms(1) by (simp add: new_fallback_def)
  note ev = fb_evaluate_single [OF this trig]
  have "severity_of (w_fb w) ''task_stalled'' = SevSafe"
    using assms(1) by (simp add: severity_eval)
  from fb_fire_safe [OF this] assms show ?thesis by (simp add: ev)
qed

theorem idle_agent_is_declared_stalled_witness:
  "g_state (w_gov (fst (fb_evaluate (\<lambda>_. ''t'') 200 0 None
     (new_fb_world (new_fallback default_thresholds [])
        (end_task 10 (new_governor 50 120 120)))))) = SAFE_STATE"
  using idle_agent_is_declared_stalled
    [of "new_fb_world (new_fallback default_thresholds []) (end_task 10 (new_governor 50 120 120))"
        10 200 "\<lambda>_. ''t''"]
  by (simp add: new_fb_world_def end_task_def new_governor_def)

lemma report_violation_dead:
  assumes "g_state (w_gov w) = HALTED"
  shows "w_gov (fst (report_violation kind d w)) = w_gov w"
proof -
  have "w_gov (fst (fb_fire kind d v)) = w_gov v" if "g_state (w_gov v) = HALTED" for v
    using lg.engage_dead [where g = "w_gov v", OF that] by (simp add: fb_fire_fields)
  with assms show ?thesis
    by (simp add: report_violation_def Let_def split: option.splits)
qed

text \<open>A dead governor is reported as something else. After a halt, a violation of pause
  severity leaves the governor HALTED (its \<open>_latch\<close> returns silently) but sets the
  controller's mode to \<open>paused\<close>, which \<open>status()\<close> then reports.\<close>

theorem halted_governor_reported_as_paused:
  assumes "g_state (w_gov w) = HALTED" and "severity_of (w_fb w) kind = SevPause"
    and "threshold_for (fb_thresholds (w_fb w)) kind = None"
  shows "dget (fb_status (fst (report_violation kind d w))) ''mode'' = PStr ''paused'' \<and>
         dget (fb_status (fst (report_violation kind d w))) ''governor_state'' = PStr ''halted''"
  using assms report_violation_mode [of kind d w] report_violation_dead [of w kind d]
  by (simp add: fb_status_def dget_def)

theorem halted_governor_reported_as_paused_witness:
  "dget (fb_status (fst (report_violation ''network_peer_lost'' ''p''
     (new_fb_world (new_fallback default_thresholds [])
        (fst (gov_halt ''x'' (new_governor 50 120 120))))))) ''mode'' = PStr ''paused''"
  using halted_governor_reported_as_paused
    [of "new_fb_world (new_fallback default_thresholds [])
           (fst (gov_halt ''x'' (new_governor 50 120 120)))" "''network_peer_lost''" "''p''"]
  by (simp add: new_fb_world_def gov_op_defs new_governor_def severity_eval threshold_for_def)

end
