(* ===== verification/Decision.thy ===== *)
theory Decision
  imports Proposals Fallbacks
begin

text \<open>
  The gated path of \<open>src/decision_engine.py\<close>: task policy, decision, action gate, execution and the
  governor's interlocks around them, as methods on the engine's state. \<open>en_world\<close> is the governor with
  the fallback controller, \<open>en_exec\<close> the executor, whose audit chain the engine shares. An exception is
  a value: a governor interlock, a deterministic halt, or the name of any other exception.
  \<open>task_env\<close> is what one call meets: clock readings (\<open>tx_clock\<close> by pipeline stage, \<open>tx_time\<close> for the
  consent registry), the environments of memory and of each dispatch, what the operator answers to
  each approval request, the models' answers, and the personality layer, which may rewrite the
  decision arbitrarily before the gate.
\<close>

subsection \<open>State\<close>

record engine =
  en_features :: features
  en_world :: fb_world
  en_memory :: memory
  en_exec :: exec_layer
  en_consents :: consents
  en_broker :: broker
  en_proposer :: proposer
  en_models :: "pydict list"
  en_checker_wired :: bool
  en_context_limit :: int
  en_trail :: "string list"

record task_env =
  tx_clock :: "nat \<Rightarrow> real"
  tx_time :: "nat \<Rightarrow> real"
  tx_mem :: mem_env
  tx_exec :: "nat \<Rightarrow> exec_env"
  tx_approval :: "nat \<Rightarrow> string \<times> ab_event list"
  tx_calls :: "model_call list"
  tx_conv_model :: string
  tx_conv_output :: string
  tx_call_errors :: "(string \<times> string) list"
  tx_json_loads :: "string \<Rightarrow> pyval option"
  tx_repr1 :: "real \<Rightarrow> string"
  tx_fmt :: "real \<Rightarrow> string"
  tx_personality :: "bool \<Rightarrow> pydict \<Rightarrow> pydict"
  tx_dir_writable :: bool

datatype eng_exn = XGov governor_error | XHalt string | XExn string

type_synonym 'a eng = "(engine, eng_exn, 'a) sx"

fun exn_class :: "py_exn \<Rightarrow> string" where
  "exn_class ValueErr = ''ValueError''"
| "exn_class TypeErr = ''TypeError''"
| "exn_class AttributeErr = ''AttributeError''"
| "exn_class KeyErr = ''KeyError''"
| "exn_class OSErr = ''OperationalError''"
| "exn_class RuntimeErr = ''RuntimeError''"

subsection \<open>Access to the components\<close>

definition safe_audit :: "task_env \<Rightarrow> string \<Rightarrow> pydict \<Rightarrow> engine \<Rightarrow> engine" where
  "safe_audit env event_type payload e =
     e\<lparr>en_exec := exec_audit (me_H (tx_mem env)) (me_HM (tx_mem env)) (tx_exec env 0) event_type payload (en_exec e)\<rparr>"

text \<open>The events of governor and fallback controller go to the same chain.\<close>

definition flush_log :: "task_env \<Rightarrow> engine \<Rightarrow> engine" where
  "flush_log env e =
     fold (\<lambda>(ty, p). safe_audit env ty p) (w_log (en_world e)) (e\<lparr>en_world := (en_world e)\<lparr>w_log := []\<rparr>\<rparr>)"

fun fb_exn :: "fb_error \<Rightarrow> eng_exn" where
  "fb_exn (FallbackHalt r) = XHalt r"
| "fb_exn (FbGovernorError g) = XGov g"

definition in_world :: "task_env \<Rightarrow> (fb_world, fb_error, unit) sx \<Rightarrow> unit eng" where
  "in_world env f e =
     (case f (en_world e) of (w, r) \<Rightarrow> (flush_log env (e\<lparr>en_world := w\<rparr>), map_sum fb_exn id r))"

definition in_governor :: "(governor, governor_error, unit) sx \<Rightarrow> unit eng" where
  "in_governor f e =
     (case f (w_gov (en_world e)) of
        (g, r) \<Rightarrow> (e\<lparr>en_world := (en_world e)\<lparr>w_gov := g\<rparr>\<rparr>, map_sum XGov id r))"

definition remember :: "task_env \<Rightarrow> string \<Rightarrow> pydict \<Rightarrow> unit eng" where
  "remember env event_type payload e =
     (case record_event (tx_mem env) event_type payload [] (en_memory e) of
        (m, r) \<Rightarrow> (e\<lparr>en_memory := m\<rparr>, map_sum (XExn \<circ> exn_class) (\<lambda>_. ()) r))"

definition forget_step :: "engine \<Rightarrow> engine" where
  "forget_step e = e\<lparr>en_memory := resolve_step (en_memory e)\<rparr>"

definition note_trail :: "string \<Rightarrow> unit eng" where
  "note_trail s e = (e\<lparr>en_trail := en_trail e @ [s]\<rparr>, Inr ())"

definition trail_value :: "engine \<Rightarrow> pyval" where
  "trail_value e = PList (map PStr (en_trail e @ [''RECORD'']))"

definition task_type_text :: "pydict \<Rightarrow> string" where
  "task_type_text task = sanitize_text (py_str (dget_default task ''type'' (PStr ''unknown''))) 64"

subsection \<open>Task policy\<close>

definition consent_checker :: "real \<Rightarrow> engine \<Rightarrow> (string \<Rightarrow> bool) option" where
  "consent_checker now e = (if en_checker_wired e then Some (\<lambda>a. has_grant now a (en_consents e)) else None)"

definition backend_type :: "pydict \<Rightarrow> pyval" where
  "backend_type model =
     (case dget_default model ''backend'' (PDict []) of
        PDict b \<Rightarrow> dget_default b ''type'' (PStr ''ollama'')
      | PStr s \<Rightarrow> PStr s
      | _ \<Rightarrow> PStr ''ollama'')"

definition can_explain :: "engine \<Rightarrow> bool" where
  "can_explain e =
     (el_audit (en_exec e) \<noteq> None \<and>
      list_ex (\<lambda>m. backend_type m \<notin> {PStr ''stub'', PStr ''static''}) (en_models e))"

definition sensitive_patterns :: "string list" where
  "sensitive_patterns =
     [''all women are'', ''all men are'', ''gender stereotype'', ''race is'', ''racial superiority'',
      ''ethnic cleansing'', ''all asians'', ''all blacks'', ''all whites'', ''all hispanics'', ''all muslims'',
      ''all christians'', ''religious inferior'', ''old people are'', ''disabled people are'', ''ageist'']"

definition loaded_words :: "string list" where
  "loaded_words =
     [''inferior'', ''superior race'', ''master race'', ''subhuman'', ''should be eradicated'',
      ''should be eliminated'']"

definition task_content :: "pydict \<Rightarrow> string" where
  "task_content task = py_str (dget_default task ''content'' (dget_default task ''prompt'' (PStr [])))"

definition detect_bias :: "pydict \<Rightarrow> bool" where
  "detect_bias task =
     (let c = py_lower (task_content task)
      in list_ex (py_contains c) sensitive_patterns \<or> list_ex (py_contains c) loaded_words)"

definition can_audit :: "task_env \<Rightarrow> engine \<Rightarrow> bool" where
  "can_audit env e =
     (case el_audit (en_exec e) of
        None \<Rightarrow> False
      | Some ac \<Rightarrow>
          (case chain_verify (me_H (tx_mem env)) (me_HM (tx_mem env)) None ac of
             Inl _ \<Rightarrow> False
           | Inr (ok, errors, _) \<Rightarrow>
               if ok then True
               else if errors = [''audit file not found''] then tx_dir_writable env else False))"

definition is_privacy_compliant :: "task_env \<Rightarrow> pydict \<Rightarrow> engine \<Rightarrow> bool" where
  "is_privacy_compliant env task e =
     (can_audit env e \<and> \<not> list_ex (\<lambda>s. match_secret s \<noteq> None) (suffixes (task_content task)))"

definition safe_state_reason :: string where
  "safe_state_reason = ''execution is in SAFE_STATE (read-only); side-effecting action blocked''"

definition no_consent_reason :: "string \<Rightarrow> string" where
  "no_consent_reason a = ''no external consent grant for side-effecting action '' @ quoted a"

definition flag :: "string \<Rightarrow> pydict \<Rightarrow> bool" where
  "flag k task = truthy (dget task k)"

definition evaluate_policy :: "task_env \<Rightarrow> pydict \<Rightarrow> engine \<Rightarrow> py_exn + (bool \<times> string option)" where
  "evaluate_policy env task e =
     (case core_check (consent_checker (tx_time env 0) e) (PDict task) of
        Inl x \<Rightarrow> Inl x
      | Inr (False, reason) \<Rightarrow> Inr (False, reason)
      | Inr (True, _) \<Rightarrow>
          (let task_type = dget task ''type'' in
           if task_type = PStr ''harmful'' then Inr (False, Some ''invariant: no_harm'')
           else if \<not> hashable task_type then Inl TypeErr
           else if task_type \<in> PStr ` set (consent_gated_types (en_features e)) \<and>
                   gov_mode (w_gov (en_world e)) = SAFE_STATE
           then Inr (False, Some safe_state_reason)
           else if task_type \<in> PStr ` set (consent_gated_types (en_features e)) \<and>
                   \<not> has_grant (tx_time env 1) (py_str task_type) (en_consents e)
           then Inr (False, Some (no_consent_reason (py_str task_type)))
           else if flag ''manipulative'' task then Inr (False, Some ''invariant: no_manipulation'')
           else if flag ''requires_explanation'' task \<and> \<not> can_explain e
           then Inr (False, Some ''cannot provide required explanation'')
           else if detect_bias task then Inr (False, Some ''bias detected'')
           else if flag ''involves_personal_data'' task \<and> \<not> is_privacy_compliant env task e
           then Inr (False, Some ''privacy compliance required'')
           else if flag ''requires_audit'' task \<and> \<not> can_audit env e
           then Inr (False, Some ''cannot provide required audit trail'')
           else Inr (True, None)))"

subsection \<open>Decisions\<close>

definition memory_snippets :: "int \<Rightarrow> fact list \<Rightarrow> string list" where
  "memory_snippets budget facts =
     (let go = (\<lambda>f (acc, used, stopped).
                  let snippet = sanitize_text (f_content f) 300; n = estimate_tokens snippet in
                  if stopped \<or> used + n > budget then (acc, used, True) else (acc @ [snippet], used + n, False))
      in fst (fold go facts ([], 0, False)))"

definition make_tool_decision :: "task_env \<Rightarrow> pydict \<Rightarrow> pydict eng" where
  "make_tool_decision env task =
     sx_bind (remember env ''decision_requested''
         [(''task_type'', PStr (task_type_text task)),
          (''content'', PStr (sanitize_text (py_str (dget_default task ''content'' (PStr []))) 200))])
       (\<lambda>_ e. case decide (en_features e) (tx_json_loads env) (me_float (tx_mem env)) (me_repr (tx_mem env))
                     (tx_repr1 env) (tx_clock env 10) (tx_clock env 11) (tx_calls env) (en_proposer e) of
           (pp, Inl x) \<Rightarrow> (e\<lparr>en_proposer := pp\<rparr>, Inl (XExn (exn_class x)))
         | (pp, Inr d) \<Rightarrow>
             (let (m, hits, graph, _) = retrieve_context (tx_mem env)
                      (py_str (dget_default task ''content'' (PStr []))) 5 True (en_memory e);
                  snippets = memory_snippets (en_context_limit e) (map snd hits @ graph)
              in (e\<lparr>en_proposer := pp, en_memory := m\<rparr>,
                  Inr (tx_personality env True (d @ [(''memory_context'', PList (map PStr snippets))])))))"

definition speak_decision_of :: "pyval \<Rightarrow> string \<Rightarrow> string \<Rightarrow> pydict" where
  "speak_decision_of txt confidence source =
     [(''action_type'', PStr ''speak''), (''params'', PDict [(''text'', txt)]), (''confidence'', PFloat confidence),
      (''proposal_source'', PStr source)]"

text \<open>\<open>text[:400]\<close>: strings and lists can be sliced, other truthy values raise.\<close>

definition slice400 :: "pyval \<Rightarrow> py_exn + pyval" where
  "slice400 v = (case v of PStr s \<Rightarrow> Inr (PStr (take 400 s)) | PList xs \<Rightarrow> Inr (PList (take 400 xs))
     | PTuple xs \<Rightarrow> Inr (PTuple (take 400 xs)) | _ \<Rightarrow> Inl TypeErr)"

definition apostrophe :: string where "apostrophe = [CHR 0x27]"

definition conversation_decision :: "task_env \<Rightarrow> features \<Rightarrow> pydict \<Rightarrow> py_exn + pydict" where
  "conversation_decision env ft task =
     (let out = tx_conv_output env; rp = me_repr (tx_mem env) in
      if \<not> truthy (dget_default task ''prompt'' (PStr []))
      then Inr (speak_decision_of (PStr (''I'' @ apostrophe @ ''m here '' @ em_dash @ '' what did you want to talk about?''))
                  ''0.3'' ''conversation_fallback'')
      else if out = []
      then Inr (speak_decision_of (PStr (''I didn'' @ apostrophe @ ''t catch that '' @ em_dash @ '' could you say it again?''))
                  ''0.2'' ''conversation_empty'')
      else case parse_proposal ft (tx_json_loads env) (me_float (tx_mem env)) out of
             Inl x \<Rightarrow> Inl x
           | Inr None \<Rightarrow>
               (let t = take 300 (py_strip out) in
                if t \<noteq> [] then Inr (speak_decision_of (PStr t) ''0.5'' ''conversation_raw'')
                else Inr (speak_decision_of (PStr (''Tell me more '' @ em_dash @ '' I'' @ apostrophe @ ''m listening.''))
                            ''0.2'' ''conversation_unparseable''))
           | Inr (Some p) \<Rightarrow>
               if pr_action_type p \<in> {PStr ''speak'', PStr ''ask_user''}
               then Inr [(''action_type'', pr_action_type p), (''params'', PDict (pr_params p)),
                         (''confidence'', PFloat (rp (pr_confidence p))), (''proposal_source'', PStr (tx_conv_model env))]
               else let t = dget (pr_params p) ''text'' in
                 if truthy t
                 then map_sum id (\<lambda>t'. speak_decision_of t' (rp (pr_confidence p)) ''conversation_rerouted'') (slice400 t)
                 else Inr (speak_decision_of (PStr (''I'' @ apostrophe @ ''m not sure how to respond to that.''))
                             (rp (pr_confidence p)) ''conversation_rerouted''))"

definition make_decision :: "task_env \<Rightarrow> pydict \<Rightarrow> pydict eng" where
  "make_decision env task =
     (if dget task ''type'' = PStr ''conversation''
      then (\<lambda>e. case conversation_decision env (en_features e) task of
                  Inl x \<Rightarrow> (e, Inl (XExn (exn_class x)))
                | Inr d \<Rightarrow> (e, Inr (tx_personality env False d)))
      else make_tool_decision env task)"

subsection \<open>The action gate\<close>

definition record_block :: "task_env \<Rightarrow> string \<Rightarrow> pydict \<Rightarrow> string \<Rightarrow> unit eng" where
  "record_block env kind obj reason =
     sx_bind (remember env ''policy_block''
         [(''kind'', PStr kind), (''reason'', PStr (sanitize_text reason 120)),
          (''content'', PStr (sanitize_text (py_str (redact (PDict obj))) 200))])
       (\<lambda>_ e. (safe_audit env ''policy_block''
                 [(''kind'', PStr kind), (''reason'', PStr (sanitize_text reason 120))] (forget_step e), Inr ()))"

text \<open>The consent check of the gate: with an attention state the attended form, otherwise the plain one.\<close>

definition consent_verdict :: "real \<Rightarrow> string \<Rightarrow> pyval \<Rightarrow> engine \<Rightarrow> bool \<times> string option" where
  "consent_verdict now a attention e =
     (if attention \<noteq> PNone
      then has_grant_for_attended_action now a (Some (py_str attention)) (en_consents e)
      else if has_grant now a (en_consents e) then (True, None)
      else (False, Some (no_consent_reason a)))"

definition ask_approval :: "task_env \<Rightarrow> nat \<Rightarrow> string \<Rightarrow> (bool \<times> string option) eng" where
  "ask_approval env n a e =
     (let (rid, during) = tx_approval env n;
          (b, verdict) = request_approval rid during (en_broker e);
          e1 = e\<lparr>en_broker := b\<rparr>
      in if approval_approved verdict
         then (safe_audit env ''approval_granted'' [(''action_type'', PStr a)] e1, Inr (True, None))
         else (safe_audit env ''approval_denied''
                 [(''action_type'', PStr a), (''reason'', PStr (approval_reason verdict))] e1,
               Inr (False, Some (''approval denied: '' @ approval_reason verdict))))"

definition gate_decision :: "task_env \<Rightarrow> nat \<Rightarrow> pyval \<Rightarrow> pydict \<Rightarrow> (bool \<times> string option) eng" where
  "gate_decision env n attention decision e =
     (case core_check (consent_checker (tx_time env (2 * n + 2)) e) (PDict decision) of
        Inl x \<Rightarrow> (e, Inl (XExn (exn_class x)))
      | Inr (False, reason) \<Rightarrow> (e, Inr (False, reason))
      | Inr (True, _) \<Rightarrow>
          (let action_type = dget decision ''action_type''; a = py_str action_type in
           if \<not> hashable action_type then (e, Inl (XExn ''TypeError''))
           else if action_type \<notin> PStr ` set (consent_gated_types (en_features e)) then (e, Inr (True, None))
           else if gov_mode (w_gov (en_world e)) = SAFE_STATE then (e, Inr (False, Some safe_state_reason))
           else case consent_verdict (tx_time env (2 * n + 3)) a attention e of
                  (False, reason) \<Rightarrow> (e, Inr (False, reason))
                | (True, _) \<Rightarrow> ask_approval env n a e))"

subsection \<open>Gated execution\<close>

definition observation_note :: "pydict \<Rightarrow> py_exn + string" where
  "observation_note decision =
     (case py_or (dget decision ''params'') (PDict []) of
        PDict p \<Rightarrow> Inr (sanitize_text (py_str (py_or (py_or (dget p ''text'') (dget p ''reason'')) (PStr ''observation''))) 200)
      | _ \<Rightarrow> Inl AttributeErr)"

text \<open>\<open>_record_observation_action\<close>, the handler the engine installs, bound to the memory it writes.\<close>

definition observation_handler :: "task_env \<Rightarrow> memory \<Rightarrow> handler" where
  "observation_handler env m decision =
     (case observation_note decision of
        Inl x \<Rightarrow> Inl (exn_class x)
      | Inr note \<Rightarrow>
          (case snd (record_event (tx_mem env) ''observation_recorded'' [(''text'', PStr note)] [] m) of
             Inl x \<Rightarrow> Inl (exn_class x)
           | Inr _ \<Rightarrow> Inr [(''status'', PStr ''success''), (''recorded'', PBool True), (''text'', PStr note)]))"

definition after_observation :: "task_env \<Rightarrow> exec_effect list \<Rightarrow> memory \<Rightarrow> memory" where
  "after_observation env efs m =
     fold (\<lambda>ef m. case ef of
             HandlerCall a d \<Rightarrow>
               if a = ''record_observation''
               then (case observation_note d of
                       Inl _ \<Rightarrow> m
                     | Inr note \<Rightarrow> fst (record_event (tx_mem env) ''observation_recorded'' [(''text'', PStr note)] [] m))
               else m
           | _ \<Rightarrow> m) efs m"

definition with_decision_meta :: "pydict \<Rightarrow> pydict \<Rightarrow> pydict" where
  "with_decision_meta result decision =
     (let put = (\<lambda>k d. if map_of d k = None then d @ [(k, dget decision k)] else d)
      in put ''action_type'' (put ''proposal_source'' result))"

definition policy_payload :: "task_env \<Rightarrow> nat \<Rightarrow> pydict \<Rightarrow> pydict" where
  "policy_payload env seq decision =
     (let trace = (''execution_id'', PStr (''exe-'' @ show_nat seq)) #
                  (case dget decision ''decision_id'' of PNone \<Rightarrow> [] | v \<Rightarrow> [(''decision_id'', v)]);
          payload = dset ''_trace'' (PDict trace) decision
      in dset ''_policy'' (PDict [(''verdict'', PStr ''allow''),
           (''decision_hash'', PStr (canonical_hash (me_H (tx_mem env)) (PDict payload)))]) payload)"

definition execute_gated :: "task_env \<Rightarrow> nat \<Rightarrow> pydict \<Rightarrow> pydict eng" where
  "execute_gated env n decision e =
     (let seq = pp_decision_seq (en_proposer e) + 1;
          x0 = (en_exec e)\<lparr>el_handlers := AList.update ''record_observation''
                  (observation_handler env (en_memory e)) (el_handlers (en_exec e))\<rparr>;
          (x1, result) = execute (me_H (tx_mem env)) (me_HM (tx_mem env)) (tx_exec env n)
                           (policy_payload env seq decision) x0;
          efs = drop (length (el_trace x0)) (el_trace x1)
      in (e\<lparr>en_proposer := (en_proposer e)\<lparr>pp_decision_seq := seq\<rparr>, en_exec := x1,
            en_memory := after_observation env efs (en_memory e)\<rparr>,
          Inr (with_decision_meta result decision)))"

subsection \<open>Multi-step decisions\<close>

definition step_items :: "pyval \<Rightarrow> pyval list option" where
  "step_items v = (case v of PList xs \<Rightarrow> Some xs | PTuple xs \<Rightarrow> Some xs
     | PStr s \<Rightarrow> Some (map (\<lambda>c. PStr [c]) s) | PDict d \<Rightarrow> Some (map (PStr \<circ> fst) d) | _ \<Rightarrow> None)"

definition sub_decision :: "pydict \<Rightarrow> nat \<Rightarrow> pydict \<Rightarrow> pydict" where
  "sub_decision decision index step =
     [(''action_type'', dget step ''action_type''), (''params'', py_or (dget step ''params'') (PDict [])),
      (''confidence'', dget_default decision ''confidence'' (PFloat ''0.0'')),
      (''model_outputs'', dget_default decision ''model_outputs'' (PDict [])), (''step_index'', PInt (int index))]"

definition or_gated :: "string option \<Rightarrow> string" where
  "or_gated reason = (case reason of None \<Rightarrow> ''gated'' | Some r \<Rightarrow> if r = [] then ''gated'' else r)"

text \<open>One step: gated on its own, without the task's attention state, and charged to the step budget.\<close>

definition execute_step :: "task_env \<Rightarrow> pydict \<Rightarrow> nat \<Rightarrow> pyval \<Rightarrow> pydict eng" where
  "execute_step env decision index v =
     (case v of
        PDict step \<Rightarrow>
          (let sd = sub_decision decision index step in
           sx_bind (gate_decision env index PNone sd) (\<lambda>(allowed, reason).
             if \<not> allowed
             then sx_bind (record_block env ''step'' sd (or_gated reason))
                    (\<lambda>_. sx_return (result_refused (or_gated reason)))
             else sx_bind (in_governor (consume_step (tx_clock env (20 + index)) 1))
                    (\<lambda>_. execute_gated env index sd)))
      | _ \<Rightarrow> sx_return (result_refused ''invalid step''))"

fun execute_steps :: "task_env \<Rightarrow> pydict \<Rightarrow> nat \<Rightarrow> pyval list \<Rightarrow> pydict list eng" where
  "execute_steps env decision index [] = sx_return []"
| "execute_steps env decision index (v # vs) =
     sx_bind (execute_step env decision index v) (\<lambda>r.
       sx_bind (execute_steps env decision (index + 1) vs) (\<lambda>rs. sx_return (r # rs)))"

definition execute_multi_step :: "task_env \<Rightarrow> pydict \<Rightarrow> pydict eng" where
  "execute_multi_step env decision =
     (case py_or (dget decision ''params'') (PDict []) of
        PDict params \<Rightarrow>
          (let steps = dget params ''steps'' in
           if \<not> truthy steps
           then sx_bind (record_block env ''decision'' decision ''multi-step with no steps'')
                  (\<lambda>_. sx_return (result_refused ''no steps provided''))
           else case step_items steps of
                  None \<Rightarrow> sx_raise (XExn ''TypeError'')
                | Some items \<Rightarrow>
                    sx_bind (execute_steps env decision 0 items) (\<lambda>results. sx_return
                      [(''status'', PStr (if list_all (\<lambda>r. py_str (dget r ''status'') = ''success'') results
                                          then ''success'' else ''error'')),
                       (''steps_results'', PList (map PDict results))]))
      | _ \<Rightarrow> sx_raise (XExn ''AttributeError''))"

subsection \<open>The pipeline\<close>

definition governed_step :: "task_env \<Rightarrow> nat \<Rightarrow> agent_state \<Rightarrow> unit eng" where
  "governed_step env i st = in_governor (gov_step (tx_clock env i) st)"

definition resolve :: "unit eng" where
  "resolve e = (forget_step e, Inr ())"

definition or_policy :: "string \<Rightarrow> string option \<Rightarrow> string" where
  "or_policy d reason = (case reason of None \<Rightarrow> d | Some r \<Rightarrow> if r = [] then d else r)"

definition finish_with :: "(engine \<Rightarrow> pydict) \<Rightarrow> pydict eng" where
  "finish_with f e = (e, Inr (f e))"

text \<open>A refused task.\<close>

definition policy_refusal :: "task_env \<Rightarrow> pydict \<Rightarrow> string option \<Rightarrow> pydict eng" where
  "policy_refusal env task reason =
     sx_bind (record_block env ''task'' task (or_policy ''policy check failed'' reason)) (\<lambda>_.
     sx_bind (in_world env (report_violation ''invariant_violations'' (or_policy ''policy'' reason))) (\<lambda>_.
     sx_bind (governed_step env 4 IDLE) (\<lambda>_.
     finish_with (\<lambda>e. [(''status'', PStr ''refused''), (''outcome'', PStr ''policy_block''),
       (''reason'', PStr (or_policy ''policy check failed'' reason)), (''stages'', trail_value e)]))))"

definition no_viable_action :: "task_env \<Rightarrow> pydict \<Rightarrow> pydict \<Rightarrow> pydict eng" where
  "no_viable_action env task decision =
     (let classes = sort (remdups (map (takeWhile (\<lambda>c. c \<noteq> CHR '':'') \<circ> snd) (tx_call_errors env)));
          detail = ''no viable action proposed by the model ensemble'' @
            (if classes \<noteq> [] then ''; call_errors='' @ join_sep '','' classes else []) @
            (if dget decision ''proposal_source'' = PStr ''null_proposal''
             then ''; model returned a well-formed null proposal'' else [])
      in sx_bind (remember env ''no_viable_action''
             [(''task_type'', PStr (task_type_text task)), (''detail'', PStr (sanitize_text detail 200))]) (\<lambda>_.
         sx_bind (governed_step env 4 IDLE) (\<lambda>_.
         sx_bind resolve (\<lambda>_.
         finish_with (\<lambda>e. with_decision_meta
           [(''status'', PStr ''error''), (''outcome'', PStr ''no_viable_action''),
            (''message'', PStr ''no viable action proposed by the model ensemble''),
            (''call_errors'', PDict (map (\<lambda>(k, v). (take 64 k, PStr (take 80 v))) (tx_call_errors env))),
            (''stages'', trail_value e)] decision)))))"

definition status_text :: "pydict \<Rightarrow> string" where
  "status_text result = py_str (dget_default result ''status'' (PStr ''unknown''))"

definition run_multi_step :: "task_env \<Rightarrow> pydict \<Rightarrow> pydict \<Rightarrow> pydict eng" where
  "run_multi_step env task decision =
     sx_bind (note_trail ''EXECUTE'') (\<lambda>_.
     sx_bind (governed_step env 4 EXECUTING) (\<lambda>_.
     sx_bind (execute_multi_step env decision) (\<lambda>result.
     sx_bind (note_trail ''EVALUATE'') (\<lambda>_.
     sx_bind (governed_step env 6 EVALUATING) (\<lambda>_.
     sx_bind (remember env ''tool_execution''
         [(''task_type'', PStr (task_type_text task)), (''action_type'', PStr ''multi_step_process''),
          (''status'', PStr (status_text result)),
          (''detail'', PStr (sanitize_text (py_repr (PList (case dget_default result ''steps_results'' (PList []) of
              PList rs \<Rightarrow> map (\<lambda>r. PStr (status_text (as_dict r))) rs | _ \<Rightarrow> []))) 200))]) (\<lambda>_.
     sx_bind resolve (\<lambda>_.
     finish_with (\<lambda>e.
       let ran = truthy (dget result ''steps_results'') in
       result @ [(''executed'', PBool ran), (''result_status'', PStr (status_text result)),
         (''outcome'', PStr (if \<not> ran then ''policy_block''
            else if py_str (dget result ''status'') = ''success'' then ''success'' else ''task_failure'')),
         (''stages'', trail_value e)]))))))))"

definition run_single :: "task_env \<Rightarrow> pydict \<Rightarrow> pydict \<Rightarrow> pydict eng" where
  "run_single env task decision =
     sx_bind (note_trail ''EXECUTE'') (\<lambda>_.
     sx_bind (governed_step env 4 EXECUTING) (\<lambda>_.
     sx_bind (in_governor (consume_step (tx_clock env 5) 1)) (\<lambda>_.
     sx_bind (execute_gated env 0 decision) (\<lambda>result.
     sx_bind (note_trail ''EVALUATE'') (\<lambda>_.
     sx_bind (governed_step env 6 EVALUATING) (\<lambda>_.
     sx_bind (remember env ''tool_execution''
         [(''task_type'', PStr (task_type_text task)), (''action_type'', dget decision ''action_type''),
          (''status'', PStr (status_text result)),
          (''detail'', PStr (sanitize_text (py_str (PDict result)) 200))]) (\<lambda>_.
     sx_bind resolve (\<lambda>_.
     finish_with (\<lambda>e. dset ''stages'' (trail_value e) (dset ''result_status'' (PStr (status_text result))
       (dset ''executed'' (PBool True) (dset ''outcome'' (PStr ''success'') result))))))))))))"

definition decision_refusal :: "task_env \<Rightarrow> pydict \<Rightarrow> string option \<Rightarrow> pydict eng" where
  "decision_refusal env decision reason =
     sx_bind (record_block env ''decision'' decision (or_gated reason)) (\<lambda>_.
     sx_bind (governed_step env 4 IDLE) (\<lambda>_.
     sx_bind resolve (\<lambda>_.
     finish_with (\<lambda>e. with_decision_meta
       [(''status'', PStr ''refused''), (''outcome'', PStr ''policy_block''),
        (''reason'', PStr (or_gated reason)), (''stages'', trail_value e)] decision))))"

text \<open>\<open>task.get("context", {}).get("attention_state")\<close>.\<close>

definition attention_of :: "pydict \<Rightarrow> pyval eng" where
  "attention_of task =
     (case dget_default task ''context'' (PDict []) of
        PDict c \<Rightarrow> sx_return (dget c ''attention_state'')
      | _ \<Rightarrow> sx_raise (XExn ''AttributeError''))"

definition run_decision :: "task_env \<Rightarrow> pydict \<Rightarrow> pydict \<Rightarrow> pydict eng" where
  "run_decision env task decision =
     (if \<not> truthy (dget decision ''action_type'') then no_viable_action env task decision
      else if dget decision ''action_type'' = PStr ''multi_step_process'' then run_multi_step env task decision
      else sx_bind (attention_of task) (\<lambda>attention.
           sx_bind (gate_decision env 0 attention decision) (\<lambda>(allowed, reason).
             if allowed then run_single env task decision else decision_refusal env decision reason)))"

definition policy_of :: "task_env \<Rightarrow> pydict \<Rightarrow> (bool \<times> string option) eng" where
  "policy_of env task e = (e, map_sum (XExn \<circ> exn_class) id (evaluate_policy env task e))"

definition run_gated_task :: "task_env \<Rightarrow> pydict \<Rightarrow> pydict eng" where
  "run_gated_task env task =
     sx_bind (note_trail ''GATE'') (\<lambda>_.
     sx_bind (governed_step env 2 GATING) (\<lambda>_.
     sx_bind (policy_of env task) (\<lambda>(allowed, reason).
       if \<not> allowed then policy_refusal env task reason
       else sx_bind (note_trail ''DECIDE'') (\<lambda>_.
            sx_bind (governed_step env 3 DECIDING) (\<lambda>_.
            sx_bind (make_decision env task) (run_decision env task))))))"

subsection \<open>Executing a task\<close>

definition governor_trigger_kind :: "governor_error \<Rightarrow> string" where
  "governor_trigger_kind g =
     (let message = py_lower (governor_message g) in
      if py_contains message ''step budget'' then ''step_budget_exhausted''
      else if py_contains message ''deadline'' then ''task_deadline_exceeded''
      else ''runaway_loop'')"

definition evaluate_fallbacks :: "task_env \<Rightarrow> unit eng" where
  "evaluate_fallbacks env e =
     in_world env (fb_evaluate (tx_fmt env) (tx_clock env 0) (breakers_open_count (tx_clock env 0) (en_exec e))
       (Some (int (length (em_events (mm_tier1 (en_memory e))))))) e"

definition end_governed :: "task_env \<Rightarrow> engine \<Rightarrow> engine" where
  "end_governed env e =
     e\<lparr>en_world := (en_world e)\<lparr>w_gov := end_task (tx_clock env 7) (w_gov (en_world e))\<rparr>\<rparr>"

definition refusal_result :: "string \<Rightarrow> (string \<times> pyval) list \<Rightarrow> pyval \<Rightarrow> pydict" where
  "refusal_result message extra stages =
     [(''status'', PStr ''refused''), (''outcome'', PStr ''governor_block''),
      (''reason'', PStr (sanitize_text message 160))] @ extra @ [(''stages'', stages)]"

text \<open>The body of the \<open>try\<close>: evaluate the fallbacks, begin the task, run it, and end it whatever happens.\<close>

definition task_body :: "task_env \<Rightarrow> pydict \<Rightarrow> pydict eng" where
  "task_body env task =
     sx_bind (evaluate_fallbacks env) (\<lambda>_ e.
       case begin_task (tx_clock env 1) (Some (py_str (dget_default task ''type'' (PStr ''unknown''))))
              (w_gov (en_world e)) of
         (g, Inl err) \<Rightarrow>
           sx_bind (remember env ''governor_block'' [(''kind'', PStr ''begin_task''), (''detail'', PStr ''GovernorError'')])
             (\<lambda>_. sx_return (refusal_result (governor_message err) [] (PList [PStr ''GATE'', PStr ''RECORD''])))
             (e\<lparr>en_world := (en_world e)\<lparr>w_gov := g\<rparr>\<rparr>)
       | (g, Inr _) \<Rightarrow>
           (case run_gated_task env task (e\<lparr>en_world := (en_world e)\<lparr>w_gov := g\<rparr>, en_trail := []\<rparr>) of
              (e', r) \<Rightarrow> (end_governed env e', r)))"

fun handle_exn :: "task_env \<Rightarrow> pydict \<Rightarrow> eng_exn \<Rightarrow> pydict eng" where
  "handle_exn env task (XHalt reason) =
     sx_bind (remember env ''fallback_halt'' [(''detail'', PStr ''FallbackHalt'')])
       (\<lambda>_. finish_with (\<lambda>e. refusal_result reason [(''terminal'', PBool True)] (trail_value e)))"
| "handle_exn env task (XGov g) =
     sx_bind (in_world env (report_violation (governor_trigger_kind g) (governor_message g))) (\<lambda>_.
     sx_bind (remember env ''governor_block''
         [(''kind'', PStr (governor_trigger_kind g)), (''detail'', PStr ''GovernorError'')])
       (\<lambda>_. finish_with (\<lambda>e. refusal_result (governor_message g) [] (trail_value e))))"
| "handle_exn env task (XExn name) =
     sx_bind (remember env ''task_failure''
         [(''task_type'', PStr (task_type_text task)), (''error'', PStr name)]) (\<lambda>_.
     sx_bind resolve (\<lambda>_.
     finish_with (\<lambda>e. [(''status'', PStr ''error''), (''outcome'', PStr ''task_failure''), (''message'', PStr name),
       (''stages'', trail_value e)])))"

definition execute_task :: "task_env \<Rightarrow> pydict \<Rightarrow> pydict eng" where
  "execute_task env task e =
     (case task_body env task e of
        (e', Inr r) \<Rightarrow> (e', Inr r)
      | (e', Inl x) \<Rightarrow> handle_exn env task x e')"

end
