(* ===== verification/Decision_Safety.thy ===== *)
theory Decision_Safety
  imports Decision
begin

text \<open>
  What the gated path of the decision engine guarantees: which effects a task can have, and that the
  governor is released after it. Judgements on engine operations carry the proofs through the
  pipeline: \<open>silent\<close> (no effect, and the authorities are untouched), \<open>lawful\<close> (every new effect is
  authorized, and the authorities are untouched) and \<open>vetted\<close> (every new effect is authorized). The
  authorities are the feature set, the consent registry, the operator channel and the latched mode.
\<close>

subsection \<open>Effects and authority\<close>

text \<open>The action an effect belongs to; requests to the fixed read endpoints belong to none.\<close>

fun effect_action :: "exec_effect \<Rightarrow> pyval" where
  "effect_action (HttpRequest m url p b) = (if url \<in> set read_endpoints then PNone else PStr ''api_call'')"
| "effect_action (HandlerCall a d) = dget d ''action_type''"

definition gated_effect :: "features \<Rightarrow> exec_effect \<Rightarrow> bool" where
  "gated_effect ft eff \<longleftrightarrow> effect_action eff \<in> PStr ` set (consent_gated_types ft)"

text \<open>Consent and approval on the record for a consent-gated action: a live grant in the registry and an
  operator's approval of the request made for it.\<close>

definition cleared :: "task_env \<Rightarrow> consents \<Rightarrow> bool \<Rightarrow> string \<Rightarrow> bool" where
  "cleared env c operator a \<longleftrightarrow> operator \<and>
     (\<exists>n. has_grant (tx_time env (2 * n + 3)) a c \<and>
        first_verdict (fst (tx_approval env n)) (snd (tx_approval env n)) = Some True)"

abbreviation latched_of :: "engine \<Rightarrow> agent_state option" where
  "latched_of e \<equiv> g_latched (w_gov (en_world e))"

definition authorized :: "task_env \<Rightarrow> engine \<Rightarrow> exec_effect \<Rightarrow> bool" where
  "authorized env e eff \<longleftrightarrow>
     (\<forall>a\<in>set (consent_gated_types (en_features e)). effect_action eff = PStr a \<longrightarrow>
        latched_of e \<noteq> Some SAFE_STATE \<and> cleared env (en_consents e) (ab_operator (en_broker e)) a)"

definition same_authority :: "engine \<Rightarrow> engine \<Rightarrow> bool" where
  "same_authority e e' \<longleftrightarrow> en_features e' = en_features e \<and> en_consents e' = en_consents e \<and>
     ab_operator (en_broker e') = ab_operator (en_broker e) \<and> latched_of e' = latched_of e"

abbreviation trace_of :: "engine \<Rightarrow> exec_effect list" where
  "trace_of e \<equiv> el_trace (en_exec e)"

definition emits :: "(engine \<Rightarrow> exec_effect \<Rightarrow> bool) \<Rightarrow> 'a eng \<Rightarrow> bool" where
  "emits ok m \<longleftrightarrow> (\<forall>e. same_authority e (fst (m e)) \<and>
     (\<exists>efs. trace_of (fst (m e)) = trace_of e @ efs \<and> list_all (ok e) efs))"

abbreviation lawful :: "task_env \<Rightarrow> 'a eng \<Rightarrow> bool" where
  "lawful env \<equiv> emits (authorized env)"

definition of_action :: "pyval \<Rightarrow> engine \<Rightarrow> exec_effect \<Rightarrow> bool" where
  "of_action a e eff \<longleftrightarrow> effect_action eff \<in> {PNone, a}"

definition vetted :: "task_env \<Rightarrow> 'a eng \<Rightarrow> bool" where
  "vetted env m \<longleftrightarrow>
     (\<forall>e. \<exists>efs. trace_of (fst (m e)) = trace_of e @ efs \<and> list_all (authorized env e) efs)"

definition mute :: "'a eng \<Rightarrow> bool" where
  "mute m \<longleftrightarrow> (\<forall>e. trace_of (fst (m e)) = trace_of e)"

definition silent :: "'a eng \<Rightarrow> bool" where
  "silent m \<longleftrightarrow> (\<forall>e. same_authority e (fst (m e)) \<and> trace_of (fst (m e)) = trace_of e)"

lemma same_authority_refl [simp]: "same_authority e e"
  by (simp add: same_authority_def)

lemma same_authority_trans: "same_authority a b \<Longrightarrow> same_authority b c \<Longrightarrow> same_authority a c"
  by (simp add: same_authority_def)

lemma authorized_cong: "same_authority e e' \<Longrightarrow> authorized env e' = authorized env e"
  by (auto simp: authorized_def same_authority_def fun_eq_iff)

lemma silent_emits: "silent m \<Longrightarrow> emits ok m"
  by (auto simp: silent_def emits_def)

lemma silentI:
  "(\<And>e. same_authority e (fst (m e))) \<Longrightarrow> (\<And>e. trace_of (fst (m e)) = trace_of e) \<Longrightarrow> silent m"
  by (simp add: silent_def)

lemma silentD: "silent m \<Longrightarrow> m e = (e', r) \<Longrightarrow> same_authority e e' \<and> trace_of e' = trace_of e"
  by (metis fst_conv silent_def)

lemma silent_bind:
  assumes "silent m" and "\<And>x. silent (f x)"
  shows "silent (sx_bind m f)"
  unfolding silent_def
proof
  fix e :: engine
  obtain e1 r where m: "m e = (e1, r)" by fastforce
  note 1 = silentD [OF assms(1) m]
  show "same_authority e (fst (sx_bind m f e)) \<and> trace_of (fst (sx_bind m f e)) = trace_of e"
  proof (cases r)
    case (Inr x)
    obtain e2 r2 where "f x e1 = (e2, r2)" by fastforce
    with silentD [OF assms(2) this] 1 m Inr show ?thesis
      by (auto simp: sx_bind_def intro: same_authority_trans)
  qed (use 1 m in \<open>simp add: sx_bind_def\<close>)
qed

lemma emitsD:
  "emits ok m \<Longrightarrow> m e = (e', r) \<Longrightarrow> same_authority e e' \<and>
     (\<exists>efs. trace_of e' = trace_of e @ efs \<and> list_all (ok e) efs)"
  by (metis fst_conv emits_def)

text \<open>A condition on effects that depends on the state only through the authorities is kept by
  sequencing.\<close>

locale effect_condition =
  fixes ok :: "engine \<Rightarrow> exec_effect \<Rightarrow> bool"
  assumes cong: "same_authority e e' \<Longrightarrow> ok e' = ok e"
begin

lemma bind:
  assumes "emits ok m" and "\<And>x. emits ok (f x)"
  shows "emits ok (sx_bind m f)"
  unfolding emits_def
proof
  fix e :: engine
  obtain e1 r where m: "m e = (e1, r)" by fastforce
  note 1 = emitsD [OF assms(1) m]
  show "same_authority e (fst (sx_bind m f e)) \<and>
     (\<exists>efs. trace_of (fst (sx_bind m f e)) = trace_of e @ efs \<and> list_all (ok e) efs)"
  proof (cases r)
    case (Inr x)
    obtain e2 r2 where f: "f x e1 = (e2, r2)" by fastforce
    from emitsD [OF assms(2) f] 1 m Inr f show ?thesis
      by (auto simp: sx_bind_def cong intro: same_authority_trans)
  qed (use 1 m in \<open>simp add: sx_bind_def\<close>)
qed

lemma bind_silent: "silent m \<Longrightarrow> (\<And>x. emits ok (f x)) \<Longrightarrow> emits ok (sx_bind m f)"
  by (rule bind [OF silent_emits])

lemma bind_then_silent: "emits ok m \<Longrightarrow> (\<And>x. silent (f x)) \<Longrightarrow> emits ok (sx_bind m f)"
  by (rule bind) (auto intro: silent_emits)

end

interpretation authorized: effect_condition "authorized env" for env
  by unfold_locales (rule authorized_cong)

interpretation of_action: effect_condition "of_action a" for a
  by unfold_locales (simp add: of_action_def fun_eq_iff)

lemma lawful_vetted: "lawful env m \<Longrightarrow> vetted env m"
  by (auto simp: emits_def vetted_def)

lemma mute_vetted: "mute m \<Longrightarrow> vetted env m"
  by (auto simp: mute_def vetted_def)

lemma silent_mute: "silent m \<Longrightarrow> mute m"
  by (auto simp: mute_def silent_def)

lemma mute_bind: "mute m \<Longrightarrow> (\<And>x. mute (f x)) \<Longrightarrow> mute (sx_bind m f)"
  by (auto simp: mute_def sx_bind_def split: prod.splits sum.splits) (metis fst_conv)+

lemma vetted_bind:
  assumes "silent m" and "\<And>x. vetted env (f x)"
  shows "vetted env (sx_bind m f)"
  unfolding vetted_def
proof
  fix e
  obtain e1 r where m: "m e = (e1, r)" by fastforce
  note 1 = silentD [OF assms(1) m]
  show "\<exists>efs. trace_of (fst (sx_bind m f e)) = trace_of e @ efs \<and> list_all (authorized env e) efs"
  proof (cases r)
    case (Inr x)
    from assms(2) [of x] obtain efs
      where "trace_of (fst (f x e1)) = trace_of e1 @ efs" "list_all (authorized env e1) efs"
      unfolding vetted_def by blast
    with 1 m Inr show ?thesis by (auto simp: sx_bind_def authorized_cong)
  qed (use 1 m in \<open>simp add: sx_bind_def\<close>)
qed

subsection \<open>The quiet operations\<close>

lemma safe_audit_frame [simp]:
  "trace_of (safe_audit env ty p e) = trace_of e" "same_authority e (safe_audit env ty p e)"
  "el_handlers (en_exec (safe_audit env ty p e)) = el_handlers (en_exec e)"
  "en_world (safe_audit env ty p e) = en_world e"
  by (simp_all add: safe_audit_def same_authority_def)

lemma fold_audit_frame:
  "trace_of (fold (\<lambda>(ty, p). safe_audit env ty p) evs e) = trace_of e \<and>
   same_authority e (fold (\<lambda>(ty, p). safe_audit env ty p) evs e) \<and>
   en_world (fold (\<lambda>(ty, p). safe_audit env ty p) evs e) = en_world e"
proof (induction evs arbitrary: e)
  case (Cons ev evs)
  obtain ty p where ev: "ev = (ty, p)" by (cases ev)
  from Cons.IH [of "safe_audit env ty p e"] show ?case
    by (auto simp: ev intro: same_authority_trans [OF safe_audit_frame(2)])
qed simp

lemma flush_log_frame [simp]:
  "trace_of (flush_log env e) = trace_of e" "same_authority e (flush_log env e)"
  "w_gov (en_world (flush_log env e)) = w_gov (en_world e)" "w_fb (en_world (flush_log env e)) = w_fb (en_world e)"
  using fold_audit_frame [of env "w_log (en_world e)" "e\<lparr>en_world := (en_world e)\<lparr>w_log := []\<rparr>\<rparr>"]
  by (auto simp: flush_log_def same_authority_def)

lemma mute_in_world: "mute (in_world env f)"
  by (auto simp: mute_def in_world_def split: prod.splits)

lemma silent_in_governor:
  "(\<And>g. g_latched (fst (f g)) = g_latched g) \<Longrightarrow> silent (in_governor f)"
  by (rule silentI) (auto simp: in_governor_def same_authority_def split: prod.splits, metis fst_conv)

lemma silent_consume: "silent (in_governor (consume_step now n))"
  by (rule silent_in_governor) (simp add: consume_step_def Let_def)

lemma silent_remember: "silent (remember env ty p)"
  by (rule silentI) (auto simp: remember_def same_authority_def split: prod.splits)

lemma silent_return: "silent (sx_return x)" "silent (sx_raise y)" "silent (finish_with g)" "silent resolve"
  "silent (note_trail s)" "silent (attention_of task)" "silent (policy_of env task)"
  by (auto simp: silent_def sx_return_def sx_raise_def finish_with_def resolve_def forget_step_def note_trail_def
      attention_of_def policy_of_def same_authority_def split: pyval.splits)

lemma silent_record_block: "silent (record_block env k obj r)"
  unfolding record_block_def
  by (rule silent_bind [OF silent_remember])
     (auto intro!: silentI same_authority_trans [OF _ safe_audit_frame(2)] simp: forget_step_def,
      simp add: same_authority_def)

lemma silent_governed_step: "silent (governed_step env i st)"
  unfolding governed_step_def by (rule silent_in_governor) (simp add: gov_step_def)

lemmas silent_intros =
  silent_bind silent_consume silent_remember silent_return silent_record_block silent_governed_step

lemma silent_make_decision: "silent (make_decision env task)"
proof -
  have "silent (make_tool_decision env task)"
    unfolding make_tool_decision_def
    by (rule silent_bind [OF silent_remember])
       (auto simp: silent_def same_authority_def Let_def split: prod.splits sum.splits)
  then show ?thesis
    by (auto simp: make_decision_def silent_def split: sum.splits)
qed

lemma silent_gate: "silent (gate_decision env n att d)"
proof (rule silentI)
  fix e :: engine
  have ask: "same_authority e (fst (ask_approval env n a e)) \<and> trace_of (fst (ask_approval env n a e)) = trace_of e" for a
  proof -
    obtain rid during where tx: "tx_approval env n = (rid, during)" by fastforce
    obtain b v where rq: "request_approval rid during (en_broker e) = (b, v)" by fastforce
    have "same_authority e (e\<lparr>en_broker := b\<rparr>)"
      using request_approval_operator [of rid during "en_broker e"] by (simp add: same_authority_def rq)
    from same_authority_trans [OF this safe_audit_frame(2)] show ?thesis
      by (simp add: ask_approval_def tx rq Let_def)
  qed
  show "same_authority e (fst (gate_decision env n att d e))"
    using ask by (auto simp: gate_decision_def Let_def split: sum.splits prod.splits bool.splits)
  show "trace_of (fst (gate_decision env n att d e)) = trace_of e"
    using ask by (auto simp: gate_decision_def Let_def split: sum.splits prod.splits bool.splits)
qed

subsection \<open>The gate and the executor\<close>

lemma consent_verdict_grant: "fst (consent_verdict now a att e) \<Longrightarrow> has_grant now a (en_consents e)"
  by (simp add: consent_verdict_def has_grant_for_attended_action_def split: if_splits)

lemma ask_approval_granted:
  assumes "ask_approval env n a e = (e1, Inr (True, r))"
  shows "ab_operator (en_broker e)"
    and "first_verdict (fst (tx_approval env n)) (snd (tx_approval env n)) = Some True"
proof -
  have "approval_approved (snd (request_approval (fst (tx_approval env n)) (snd (tx_approval env n)) (en_broker e)))"
    using assms by (auto simp: ask_approval_def Let_def split: prod.splits if_splits)
  then show "ab_operator (en_broker e)"
    and "first_verdict (fst (tx_approval env n)) (snd (tx_approval env n)) = Some True"
    by (simp_all add: request_approval_approved)
qed

text \<open>Passing the gate clears the decision's action.\<close>

lemma gate_allows:
  assumes gate: "gate_decision env n att d e = (e1, Inr (True, r))"
    and a: "dget d ''action_type'' = PStr a" "a \<in> set (consent_gated_types (en_features e))"
  shows "gov_mode (w_gov (en_world e)) \<noteq> SAFE_STATE"
    and "cleared env (en_consents e) (ab_operator (en_broker e)) a"
proof -
  obtain reason where core:
    "core_check (consent_checker (tx_time env (2 * n + 2)) e) (PDict d) = Inr (True, reason)"
    using gate by (auto simp: gate_decision_def split: sum.splits bool.splits)
  note gate' = gate [unfolded gate_decision_def core Let_def a(1)]
  show mode: "gov_mode (w_gov (en_world e)) \<noteq> SAFE_STATE"
    using gate' a(2) by (auto simp: split: if_splits)
  obtain reason' where "consent_verdict (tx_time env (2 * n + 3)) a att e = (True, reason')"
    and ask: "ask_approval env n a e = (e1, Inr (True, r))"
    using gate' a(2) mode by (auto split: prod.splits bool.splits)
  then have "has_grant (tx_time env (2 * n + 3)) a (en_consents e)"
    by (intro consent_verdict_grant [where att = att]) simp
  with ask_approval_granted [OF ask] show "cleared env (en_consents e) (ab_operator (en_broker e)) a"
    unfolding cleared_def by blast
qed

lemma gate_authorizes:
  assumes "gate_decision env n att d e = (e1, Inr (True, r))" and "effect_action eff \<in> {PNone, dget d ''action_type''}"
  shows "authorized env e eff"
proof -
  have "latched_of e \<noteq> Some SAFE_STATE" if "gov_mode (w_gov (en_world e)) \<noteq> SAFE_STATE"
    using that by (auto simp: gov_mode_def)
  with gate_allows [OF assms(1)] assms(2) show ?thesis
    by (auto simp: authorized_def)
qed

lemma effect_ok_action:
  "effect_ok d s eff \<Longrightarrow> effect_action eff \<in> {PNone, dget d ''action_type''}"
  by (cases eff) auto

lemma policy_payload_action: "dget (policy_payload env seq d) ''action_type'' = dget d ''action_type''"
  by (simp add: policy_payload_def Let_def)

lemma execute_effects:
  "\<exists>efs. el_trace (fst (execute H HM env d s)) = el_trace s @ efs \<and> length efs \<le> 1 \<and>
     (\<forall>eff\<in>set efs. effect_action eff \<in> {PNone, dget d ''action_type''})"
proof (cases "check_verdict H d")
  case Pass
  obtain efs where "el_trace (fst (dispatch env (ddel ''_policy'' d) s)) = el_trace s @ efs" "length efs \<le> 1"
    and "list_all (effect_ok (ddel ''_policy'' d) s) efs"
    using dispatch_justified [of "ddel ''_policy'' d" s env] by (auto simp: justified_def)
  with Pass show ?thesis
    by (auto simp: execute_trace list_all_iff dget_ddel dest!: effect_ok_action)
qed (simp add: execute_trace)

lemma execute_gated_emits: "emits (of_action (dget d ''action_type'')) (execute_gated env n d)"
  unfolding emits_def
proof
  fix e :: engine
  let ?x0 = "(en_exec e)\<lparr>el_handlers := AList.update ''record_observation''
      (observation_handler env (en_memory e)) (el_handlers (en_exec e))\<rparr>"
  let ?d = "policy_payload env (pp_decision_seq (en_proposer e) + 1) d"
  from execute_effects [of "me_H (tx_mem env)" "me_HM (tx_mem env)" "tx_exec env n" ?d ?x0]
  show "same_authority e (fst (execute_gated env n d e)) \<and>
    (\<exists>efs. trace_of (fst (execute_gated env n d e)) = trace_of e @ efs \<and>
       list_all (of_action (dget d ''action_type'') e) efs)"
    by (auto simp: execute_gated_def Let_def same_authority_def policy_payload_action of_action_def list_all_iff
        split: prod.splits)
qed

text \<open>A gate followed by what has only effects of the action it let through.\<close>

lemma lawful_gated:
  assumes run: "\<And>r. emits (of_action (dget d ''action_type'')) (f (True, r))" and deny: "\<And>r. silent (f (False, r))"
  shows "lawful env (sx_bind (gate_decision env n att d) f)"
  unfolding emits_def
proof
  fix e :: engine
  obtain e1 res where g: "gate_decision env n att d e = (e1, res)" by fastforce
  note quiet = silentD [OF silent_gate g]
  show "same_authority e (fst (sx_bind (gate_decision env n att d) f e)) \<and>
    (\<exists>efs. trace_of (fst (sx_bind (gate_decision env n att d) f e)) = trace_of e @ efs \<and>
       list_all (authorized env e) efs)"
  proof (cases res)
    case (Inr p)
    obtain ok r where p: "p = (ok, r)" by fastforce
    obtain e2 r2 where f: "f p e1 = (e2, r2)" by fastforce
    show ?thesis
    proof (cases ok)
      case True
      with emitsD [OF run [of r], of e1 e2 r2] f p quiet obtain efs
        where "same_authority e e2" "trace_of e2 = trace_of e @ efs" "list_all (of_action (dget d ''action_type'') e1) efs"
        by (auto intro: same_authority_trans)
      moreover have "list_all (authorized env e) efs"
        using calculation(3) gate_authorizes [of env n att d e e1 r] g Inr p True
        by (auto simp: list_all_iff of_action_def)
      ultimately show ?thesis by (auto simp: sx_bind_def g Inr f)
    next
      case False
      with silentD [OF deny [of r], of e1 e2 r2] f p quiet have "same_authority e e2" "trace_of e2 = trace_of e"
        by (auto intro: same_authority_trans)
      then show ?thesis by (simp add: sx_bind_def g Inr f)
    qed
  qed (use quiet in \<open>simp add: sx_bind_def g\<close>)
qed

subsection \<open>The pipeline\<close>

lemma execute_step_lawful: "lawful env (execute_step env d index v)"
proof (cases "\<exists>step. v = PDict step")
  case True
  then obtain step where v: "v = PDict step" by blast
  let ?sd = "sub_decision d index step"
  show ?thesis
    unfolding execute_step_def v pyval.case Let_def
    by (rule lawful_gated)
       (simp_all add: of_action.bind_silent [OF silent_consume execute_gated_emits] silent_intros)
next
  case False
  then have "execute_step env d index v = sx_return (result_refused ''invalid step'')"
    by (auto simp: execute_step_def split: pyval.splits)
  then show ?thesis by (simp add: silent_emits silent_return)
qed

lemma execute_steps_lawful: "lawful env (execute_steps env d index vs)"
proof (induction vs arbitrary: index)
  case (Cons v vs)
  show ?case
    unfolding execute_steps.simps
    by (intro authorized.bind execute_step_lawful authorized.bind_then_silent [OF Cons.IH] silent_intros)
qed (simp add: silent_emits silent_return)

lemma execute_multi_step_lawful: "lawful env (execute_multi_step env d)"
proof (cases "py_or (dget d ''params'') (PDict [])")
  case (PDict params)
  note steps = authorized.bind_then_silent [OF execute_steps_lawful silent_return(1)]
  show ?thesis
    unfolding execute_multi_step_def PDict pyval.case Let_def
    by (auto intro: steps silent_emits silent_intros split: option.splits)
qed (simp_all add: execute_multi_step_def silent_emits silent_return)

lemma run_multi_step_lawful: "lawful env (run_multi_step env task d)"
  unfolding run_multi_step_def
  by (intro authorized.bind_silent authorized.bind_then_silent [OF execute_multi_step_lawful] silent_intros)

lemma run_single_emits: "emits (of_action (dget d ''action_type'')) (run_single env task d)"
  unfolding run_single_def
  by (intro of_action.bind_silent of_action.bind_then_silent [OF execute_gated_emits] silent_intros)

lemma run_decision_lawful: "lawful env (run_decision env task d)"
proof -
  have single: "lawful env (sx_bind (gate_decision env 0 att d) (\<lambda>(allowed, reason).
      if allowed then run_single env task d else decision_refusal env d reason))" for att
    by (rule lawful_gated) (simp_all add: run_single_emits decision_refusal_def silent_intros)
  have none: "silent (no_viable_action env task d)"
    unfolding no_viable_action_def Let_def by (intro silent_intros)
  show ?thesis
    using authorized.bind_silent [OF silent_return(6) single]
    by (simp add: run_decision_def run_multi_step_lawful silent_emits [OF none])
qed

lemma run_gated_task_vetted: "vetted env (run_gated_task env task)"
proof -
  have refusal: "vetted env (policy_refusal env task reason)" for reason
    unfolding policy_refusal_def
    by (rule mute_vetted) (intro mute_bind mute_in_world silent_mute silent_intros)
  have decide: "vetted env (sx_bind (note_trail ''DECIDE'') (\<lambda>_. sx_bind (governed_step env 3 DECIDING)
      (\<lambda>_. sx_bind (make_decision env task) (run_decision env task))))"
    by (intro vetted_bind silent_intros silent_make_decision lawful_vetted run_decision_lawful)
  show ?thesis
    unfolding run_gated_task_def
    by (intro vetted_bind silent_intros) (simp add: refusal decide split: prod.splits)
qed

lemma handle_exn_mute: "mute (handle_exn env task x)"
proof (cases x)
  case (XGov g)
  show ?thesis
    unfolding XGov handle_exn.simps
    by (intro mute_bind [OF mute_in_world] silent_mute silent_intros)
next
  case (XHalt r)
  show ?thesis
    unfolding XHalt handle_exn.simps by (intro silent_mute silent_intros)
next
  case (XExn n)
  show ?thesis
    unfolding XExn handle_exn.simps by (intro silent_mute silent_intros)
qed

lemma evaluate_fallbacks_frame:
  "trace_of (fst (evaluate_fallbacks env e)) = trace_of e"
  "en_features (fst (evaluate_fallbacks env e)) = en_features e"
  "en_consents (fst (evaluate_fallbacks env e)) = en_consents e"
  "ab_operator (en_broker (fst (evaluate_fallbacks env e))) = ab_operator (en_broker e)"
proof -
  have "same_authority (e\<lparr>en_world := w\<rparr>) (flush_log env (e\<lparr>en_world := w\<rparr>))" for w
    by simp
  then show "en_features (fst (evaluate_fallbacks env e)) = en_features e"
    "en_consents (fst (evaluate_fallbacks env e)) = en_consents e"
    "ab_operator (en_broker (fst (evaluate_fallbacks env e))) = ab_operator (en_broker e)"
    "trace_of (fst (evaluate_fallbacks env e)) = trace_of e"
    by (simp_all add: evaluate_fallbacks_def in_world_def same_authority_def split: prod.splits)
qed

lemma begin_task_latched: "begin_task now r g = (g', res) \<Longrightarrow> g_latched g' = g_latched g"
  by (auto simp: begin_task_def split: if_splits)

lemma task_body_effects:
  "\<exists>efs. trace_of (fst (task_body env task e)) = trace_of e @ efs \<and>
     list_all (authorized env (fst (evaluate_fallbacks env e))) efs"
proof -
  obtain e1 r1 where ev: "evaluate_fallbacks env e = (e1, r1)" by fastforce
  then have t1: "trace_of e1 = trace_of e" using evaluate_fallbacks_frame(1) [of env e] by simp
  let ?ref = "Some (py_str (dget_default task ''type'' (PStr ''unknown'')))"
  obtain g r2 where bt: "begin_task (tx_clock env 1) ?ref (w_gov (en_world e1)) = (g, r2)" by fastforce
  show ?thesis
  proof (cases "r1 = Inr () \<and> r2 = Inr ()")
    case True
    let ?e2 = "e1\<lparr>en_world := (en_world e1)\<lparr>w_gov := g\<rparr>, en_trail := []\<rparr>"
    have "same_authority e1 ?e2"
      using begin_task_latched [OF bt] by (simp add: same_authority_def)
    note authorized_cong [OF this, of env]
    moreover obtain efs where "trace_of (fst (run_gated_task env task ?e2)) = trace_of ?e2 @ efs"
      "list_all (authorized env ?e2) efs"
      using run_gated_task_vetted [of env task] unfolding vetted_def by blast
    ultimately show ?thesis
      using True t1
      by (auto simp: task_body_def sx_bind_def ev bt end_governed_def simp del: One_nat_def split: prod.splits)
  next
    case False
    have "trace_of (fst (remember env ty p e')) = trace_of e'" for ty p e'
      using silent_remember by (simp add: silent_def)
    then have quiet: "trace_of (fst (sx_bind (remember env ty p) (\<lambda>_. sx_return x) e')) = trace_of e'"
      for ty p e' and x :: pydict
      by (auto simp: sx_bind_def sx_return_def split: prod.splits sum.splits) (metis fst_conv)+
    from False t1 show ?thesis
      by (auto simp: task_body_def sx_bind_def [of "evaluate_fallbacks env"] ev bt quiet
          simp del: One_nat_def split: sum.splits)
  qed
qed

lemma execute_task_effects:
  "\<exists>efs. trace_of (fst (execute_task env task e)) = trace_of e @ efs \<and>
     list_all (authorized env (fst (evaluate_fallbacks env e))) efs"
proof -
  obtain e' r where b: "task_body env task e = (e', r)" by fastforce
  from handle_exn_mute have "trace_of (fst (handle_exn env task x e')) = trace_of e'" for x
    by (simp add: mute_def)
  with task_body_effects [of env task e] b show ?thesis
    by (auto simp: execute_task_def split: sum.splits)
qed

subsection \<open>Properties\<close>



subsection \<open>Release of the governor\<close>

text \<open>A governor between tasks.\<close>

definition latch_ok :: "agent_state option \<Rightarrow> bool" where
  "latch_ok m \<longleftrightarrow> m \<in> {None, Some PAUSED, Some SAFE_STATE, Some HALTED}"

definition resting :: "governor \<Rightarrow> bool" where
  "resting g \<longleftrightarrow> latch_ok (g_latched g) \<and> g_state g = (case g_latched g of Some m \<Rightarrow> m | None \<Rightarrow> IDLE) \<and>
     task_started_at g = None \<and> steps_used g = 0 \<and> current_task g = None"

lemma fb_fire_gov:
  "resting (w_gov w) \<Longrightarrow> resting (w_gov (fst (fb_fire k d w)))"
  "latch_ok (g_latched (w_gov w)) \<Longrightarrow> latch_ok (g_latched (w_gov (fst (fb_fire k d w))))"
  by (cases "severity_of (w_fb w) k";
      auto simp: fb_fire_def Let_def gov_halt_def gov_safe_state_def gov_pause_def latch_def resting_def latch_ok_def)+

lemma report_violation_gov:
  "resting (w_gov w) \<Longrightarrow> resting (w_gov (fst (report_violation k d w)))"
  "latch_ok (g_latched (w_gov w)) \<Longrightarrow> latch_ok (g_latched (w_gov (fst (report_violation k d w))))"
  by (simp_all add: report_violation_def Let_def fb_fire_gov split: option.splits)

lemma fb_fire_all_gov: "resting (w_gov w) \<Longrightarrow> resting (w_gov (fst (fb_fire_all ts w)))"
proof (induction ts arbitrary: w)
  case (Cons t ts)
  obtain k d where t: "t = (k, d)" by fastforce
  from fb_fire_gov(1) [OF Cons.prems, of k d] Cons.IH show ?case
    by (auto simp: t sx_bind_def split: prod.splits sum.splits)
qed (simp add: sx_return_def)

lemma evaluate_fallbacks_resting:
  "resting (w_gov (en_world e)) \<Longrightarrow> resting (w_gov (en_world (fst (evaluate_fallbacks env e))))"
  by (auto simp: evaluate_fallbacks_def in_world_def fb_evaluate_def split: prod.splits if_splits)
     (metis fb_fire_all_gov fst_conv)

definition keeps_latch :: "'a eng \<Rightarrow> bool" where
  "keeps_latch m \<longleftrightarrow> (\<forall>e. latch_ok (latched_of e) \<longrightarrow> latch_ok (latched_of (fst (m e))))"

lemma emits_keeps_latch: "emits ok m \<Longrightarrow> keeps_latch m"
  by (auto simp: emits_def keeps_latch_def same_authority_def)

lemma keeps_latch_bind: "keeps_latch m \<Longrightarrow> (\<And>x. keeps_latch (f x)) \<Longrightarrow> keeps_latch (sx_bind m f)"
  by (auto simp: keeps_latch_def sx_bind_def split: prod.splits sum.splits)

lemma report_violation_keeps_latch: "keeps_latch (in_world env (report_violation k d))"
  using report_violation_gov(2) by (auto simp: keeps_latch_def in_world_def split: prod.splits) (metis fst_conv)

lemma run_gated_task_keeps_latch: "keeps_latch (run_gated_task env task)"
proof -
  note quiet = emits_keeps_latch [OF silent_emits [where ok = "authorized env"]]
  have refusal: "keeps_latch (policy_refusal env task reason)" for reason
    unfolding policy_refusal_def
    by (intro keeps_latch_bind report_violation_keeps_latch; (rule quiet)?; intro silent_intros)
  have decide: "keeps_latch (sx_bind (make_decision env task) (run_decision env task))"
    by (rule keeps_latch_bind [OF quiet [OF silent_make_decision] emits_keeps_latch [OF run_decision_lawful]])
  note steps = quiet [OF silent_return(5)] quiet [OF silent_return(7)] quiet [OF silent_governed_step]
  show ?thesis
    unfolding run_gated_task_def
    by (intro keeps_latch_bind steps) (auto simp: refusal intro!: keeps_latch_bind steps decide)
qed

lemma end_governed_resting:
  "latch_ok (latched_of e) \<Longrightarrow> resting (w_gov (en_world (end_governed env e)))"
  by (simp add: end_governed_def end_task_def resting_def)

lemma remember_world: "en_world (fst (remember env ty p e)) = en_world e"
  by (simp add: remember_def split: prod.splits)

lemma begin_task_cases:
  "begin_task now r g = (g', Inl x) \<Longrightarrow> g' = g"
  by (auto simp: begin_task_def split: if_splits)

lemma task_body_resting:
  assumes "resting (w_gov (en_world e))"
  shows "resting (w_gov (en_world (fst (task_body env task e))))"
proof -
  obtain e1 r1 where ev: "evaluate_fallbacks env e = (e1, r1)" by fastforce
  with evaluate_fallbacks_resting [OF assms, of env] have rest: "resting (w_gov (en_world e1))" by simp
  let ?ref = "Some (py_str (dget_default task ''type'' (PStr ''unknown'')))"
  obtain g r2 where bt: "begin_task (tx_clock env 1) ?ref (w_gov (en_world e1)) = (g, r2)" by fastforce
  have latch: "latch_ok (g_latched g)" using rest begin_task_latched [OF bt] by (simp add: resting_def)
  consider "\<exists>x. r1 = Inl x" | x where "r1 = Inr ()" "r2 = Inl x" | "r1 = Inr ()" "r2 = Inr ()"
    by (cases r1; cases r2) auto
  then show ?thesis
  proof cases
    case 1
    with rest ev show ?thesis by (auto simp: task_body_def sx_bind_def)
  next
    case 2
    with bt rest have "g = w_gov (en_world e1)" by (metis begin_task_cases)
    with 2 rest show ?thesis
      using remember_world [of env]
      by (auto simp: task_body_def sx_bind_def ev bt sx_return_def simp del: One_nat_def split: prod.splits sum.splits)
         (metis (no_types, lifting) fst_conv)+
  next
    case 3
    let ?e2 = "e1\<lparr>en_world := (en_world e1)\<lparr>w_gov := g\<rparr>, en_trail := []\<rparr>"
    have "latch_ok (latched_of (fst (run_gated_task env task ?e2)))"
      using run_gated_task_keeps_latch [of env task] latch by (simp add: keeps_latch_def)
    from end_governed_resting [OF this, of env] 3 show ?thesis
      by (auto simp: task_body_def sx_bind_def ev bt simp del: One_nat_def split: prod.splits)
  qed
qed

lemma handle_exn_resting:
  assumes "resting (w_gov (en_world e))"
  shows "resting (w_gov (en_world (fst (handle_exn env task x e))))"
proof -
  have quiet: "w_gov (en_world (fst (sx_bind (remember env ty p) f e'))) = w_gov (en_world e')"
    if "\<And>e u. w_gov (en_world (fst (f u e))) = w_gov (en_world e)" for ty p e' and f :: "unit \<Rightarrow> pydict eng"
    using that remember_world [of env ty p e'] by (auto simp: sx_bind_def split: prod.splits sum.splits)
  have last: "w_gov (en_world (fst (finish_with h e'))) = w_gov (en_world e')"
    "w_gov (en_world (fst (sx_bind resolve (\<lambda>_. finish_with h) e'))) = w_gov (en_world e')" for h e'
    by (simp_all add: finish_with_def resolve_def forget_step_def sx_bind_def)
  show ?thesis
  proof (cases x)
    case (XGov g)
    obtain w r where rv: "report_violation (governor_trigger_kind g) (governor_message g) (en_world e) = (w, r)"
      by fastforce
    with report_violation_gov(1) [OF assms, of "governor_trigger_kind g" "governor_message g"]
    have "resting (w_gov w)" by simp
    with XGov show ?thesis
      by (auto simp: sx_bind_def [of "in_world env f" for f] in_world_def rv quiet last split: sum.splits)
  qed (simp_all add: assms quiet last)
qed

text \<open>C12: a task always lets go of the governor. From a governor at rest, \<open>execute_task\<close> comes back to a
  governor at rest, on success, refusal, exception, exhausted budget, missed deadline and halt alike:
  its state is IDLE or the latched mode, no task is in flight and the step counter is cleared. So
  the next task is never refused as a reentrant one.\<close>

theorem task_always_released:
  assumes "resting (w_gov (en_world e))"
  shows "resting (w_gov (en_world (fst (execute_task env task e)))) \<and>
    snd (begin_task now r (w_gov (en_world (fst (execute_task env task e))))) \<noteq> Inl (Reentrant s)"
proof -
  obtain e' res where b: "task_body env task e = (e', res)" by fastforce
  with task_body_resting [OF assms, of env task] have "resting (w_gov (en_world e'))" by simp
  with b have "resting (w_gov (en_world (fst (execute_task env task e))))"
    by (auto simp: execute_task_def handle_exn_resting split: sum.splits)
  moreover from this have
    "snd (begin_task now r (w_gov (en_world (fst (execute_task env task e))))) \<noteq> Inl (Reentrant s)"
    by (auto simp: resting_def latch_ok_def begin_task_def)
  ultimately show ?thesis ..
qed

subsection \<open>Attention\<close>

lemma gate_inattentive:
  assumes "dget d ''action_type'' = PStr a" "a \<in> set (consent_gated_types (en_features e))"
    and "s \<notin> {''attending'', ''unknown''}"
  shows "snd (gate_decision env n (PStr s) d e) \<noteq> Inr (True, r)"
  using assms
  by (auto simp: gate_decision_def Let_def consent_verdict_def has_grant_for_attended_action_def
      split: sum.splits prod.splits bool.splits)

text \<open>A single consent-gated action is not executed behind a human's back: when the task reports an
  attention state other than \<open>attending\<close> or \<open>unknown\<close>, running the decision has no effect,
  whatever consents and approvals there are.\<close>

theorem inattentive_action_not_executed:
  assumes "dget_default task ''context'' (PDict []) = PDict c" and "dget c ''attention_state'' = PStr s"
    and "s \<notin> {''attending'', ''unknown''}"
    and "dget d ''action_type'' = PStr a" and "a \<in> set (consent_gated_types (en_features e))"
  shows "el_trace (en_exec (fst (run_decision env task d e))) = el_trace (en_exec e)"
proof -
  have a: "a \<noteq> []" "a \<noteq> ''multi_step_process''"
    using assms(5) by (auto simp: consent_gated_types_def action_class_defs split: if_splits)
  have "silent (decision_refusal env d reason)" for reason
    unfolding decision_refusal_def by (intro silent_intros)
  then have quiet: "trace_of (fst (decision_refusal env d reason e')) = trace_of e'" for reason e'
    by (simp add: silent_def)
  obtain e1 res where g: "gate_decision env 0 (PStr s) d e = (e1, res)" by fastforce
  with silentD [OF silent_gate g] have "trace_of e1 = trace_of e" by simp
  moreover have "\<nexists>r. res = Inr (True, r)"
    using gate_inattentive [OF assms(4,5,3), of env 0] g by auto
  ultimately show ?thesis
    using a assms(4)
    by (cases res) (auto simp: run_decision_def attention_of_def assms(1,2) sx_bind_def sx_return_def g quiet)
qed

text \<open>The steps of a multi-step decision are gated without that check: whatever context, and so
  whatever attention state, the task carries, running a multi-step decision is the same.\<close>

theorem multi_step_ignores_attention:
  assumes "dget d ''action_type'' = PStr ''multi_step_process''"
  shows "run_decision env (dset ''context'' c task) d = run_decision env task d"
proof -
  have "task_type_text (dset ''context'' c task) = task_type_text task"
    by (simp add: task_type_text_def dget_default_def map_of_dset)
  with assms show ?thesis
    by (simp add: run_decision_def run_multi_step_def)
qed

subsection \<open>A task that is carried out\<close>

text \<open>An engine with robotics, a standing consent for \<open>robot_look\<close>, an attached operator who approves
  the first request, and a decision for that action.\<close>

definition look_decision :: pydict where
  "look_decision = [(''action_type'', PStr ''robot_look'')]"

definition look_env :: task_env where
  "look_env = \<lparr>tx_clock = (\<lambda>_. 0), tx_time = (\<lambda>_. 0), tx_mem = calm_env, tx_exec = (\<lambda>_. quiet_env),
     tx_approval = (\<lambda>_. (''r1'', [Approved ''r1''])), tx_calls = [], tx_conv_model = [], tx_conv_output = [],
     tx_call_errors = [], tx_json_loads = (\<lambda>_. None), tx_repr1 = (\<lambda>_. ''0''), tx_fmt = (\<lambda>_. ''0''),
     tx_personality = (\<lambda>_ _. look_decision), tx_dir_writable = True\<rparr>"

definition look_engine :: "agent_state option \<Rightarrow> engine" where
  "look_engine m =
     \<lparr>en_features = \<lparr>has_robotics = True, has_mobile = False, has_shugonet = False, has_fleet = False\<rparr>,
      en_world = \<lparr>w_fb = (new_fallback default_thresholds [])\<lparr>fb_mode := (if m = None then Normal else SafeMode)\<rparr>,
        w_gov = (new_governor 50 300 0)\<lparr>g_latched := m, g_state := (case m of None \<Rightarrow> IDLE | Some s \<Rightarrow> s)\<rparr>,
        w_log = []\<rparr>,
      en_memory = sample_memory SharedRW,
      en_exec = speak_layer\<lparr>el_handlers := [(''robot_look'', \<lambda>d. Inr [(''status'', PStr ''success'')])]\<rparr>,
      en_consents = [(''robot_look'', [\<lparr>ce_action_type = ''robot_look'', ce_granted_by = ''op'', ce_scope = [], ce_note = [],
        ce_granted_at = 0, ce_expires_at = None\<rparr>])],
      en_broker = attach_operator new_broker, en_proposer = fresh_proposer, en_models = [], en_checker_wired = True,
      en_context_limit = 100, en_trail = []\<rparr>"

definition look_task :: pydict where
  "look_task = [(''type'', PStr ''conversation'')]"


lemma sx_bind_ok: "m s = (s', Inr x) \<Longrightarrow> sx_bind m f s = f x s'"
  by (simp add: sx_bind_def)

lemma silent_tail:
  assumes "\<And>x. silent (f x)"
  shows "trace_of (fst (sx_bind m f e)) = trace_of (fst (m e))"
  using assms by (auto simp: sx_bind_def silent_def split: prod.splits sum.splits)

lemmas look_defs = look_env_def look_engine_def look_decision_def new_governor_def new_fallback_def
  default_thresholds_def attach_operator_def new_broker_def fresh_proposer_def speak_layer_def new_exec_layer_def
  calm_env_def quiet_env_def

lemma look_gate:
  assumes "en_features e = en_features (look_engine None)" "en_consents e = en_consents (look_engine None)"
    "en_broker e = en_broker (look_engine None)" "latched_of e = None" "g_state (w_gov (en_world e)) = DECIDING"
    "el_audit (en_exec e) = None"
  shows "\<exists>b. gate_decision look_env 0 PNone look_decision e = (e\<lparr>en_broker := b\<rparr>, Inr (True, None))"
  using assms
  by (simp add: gate_decision_def core_check_def action_type_of_def dget_def Let_def py_or_def
    dget_default_def gov_mode_def consent_verdict_def ask_approval_def look_defs request_approval_def
    has_grant_def consent_entries_def entry_live_def consent_gated_types_def action_class_defs consent_checker_def
    ab_resolve_def ab_approve_def safe_audit_def exec_audit_def)
     blast

lemma sample_memory_events: "em_events (mm_tier1 (sample_memory p)) = []"
  by (simp add: sample_memory_def new_memory_def parse_policy_def py_lower_def lower_char_def char_code_def
      journaled_def Let_def)

lemma look_start:
  "evaluate_fallbacks look_env (look_engine None) = (look_engine None, Inr ())"
  by (simp add: evaluate_fallbacks_def in_world_def look_defs fb_evaluate_def fb_triggers_def Let_def
    seconds_since_progress_def breakers_open_count_def flush_log_def sample_memory_events sx_return_def)

lemma execute_gated_trace:
  "trace_of (fst (execute_gated env n d e)) =
     el_trace (fst (execute (me_H (tx_mem env)) (me_HM (tx_mem env)) (tx_exec env n)
       (policy_payload env (pp_decision_seq (en_proposer e) + 1) d)
       ((en_exec e)\<lparr>el_handlers := AList.update ''record_observation'' (observation_handler env (en_memory e))
          (el_handlers (en_exec e))\<rparr>)))"
  by (auto simp: execute_gated_def Let_def split: prod.splits)

definition look_payload :: pydict where
  "look_payload = ddel ''_policy'' (policy_payload look_env 1 look_decision)"

lemma look_executed:
  assumes "en_exec e = en_exec (look_engine None)" "pp_decision_seq (en_proposer e) = 0"
  shows "trace_of (fst (execute_gated look_env 0 look_decision e)) = [HandlerCall ''robot_look'' look_payload]"
proof -
  let ?p = "policy_payload look_env 1 look_decision"
  have check: "check_verdict flat_hash ?p = Pass"
    by (simp add: check_verdict_def policy_payload_def dget_def look_defs dset_def ddel_def Let_def)
  have at: "dget ?p ''action_type'' = PStr ''robot_look''"
    by (simp add: policy_payload_action) (simp add: look_decision_def dget_def)
  have x: "el_handlers (en_exec e) = [(''robot_look'', \<lambda>d. Inr [(''status'', PStr ''success'')])]" "trace_of e = []"
    using assms by (simp_all add: look_defs)
  have env: "me_H (tx_mem look_env) = flat_hash" by (simp add: look_defs)
  show ?thesis
    using check at
    by (simp add: execute_gated_trace assms(2) env look_payload_def execute_trace dispatch_def dispatch_body_def
        dget_ddel call_handler_def x update_conv')
qed

lemma execute_task_trace: "trace_of (fst (execute_task env task e)) = trace_of (fst (task_body env task e))"
  using handle_exn_mute by (auto simp: execute_task_def mute_def split: prod.splits sum.splits)

lemma look_run:
  assumes "en_exec e = en_exec (look_engine None)" "en_proposer e = fresh_proposer"
    "en_features e = en_features (look_engine None)" "en_consents e = en_consents (look_engine None)"
    "en_broker e = en_broker (look_engine None)"
    "w_gov (en_world e) = (new_governor 50 300 0)\<lparr>g_state := DECIDING, task_started_at := Some 0,
       last_progress_at := Some 0, current_task := c\<rparr>"
  shows "trace_of (fst (run_decision look_env look_task look_decision e)) = [HandlerCall ''robot_look'' look_payload]"
proof -
  obtain b where g: "gate_decision look_env 0 PNone look_decision e = (e\<lparr>en_broker := b\<rparr>, Inr (True, None))"
    using look_gate [of e] assms by (auto simp: look_defs)
  have tail: "trace_of (fst (sx_bind (execute_gated look_env 0 look_decision) (\<lambda>result.
     sx_bind (note_trail ''EVALUATE'') (\<lambda>_. sx_bind (governed_step look_env 6 EVALUATING) (\<lambda>_.
       sx_bind (remember look_env ''tool_execution'' (p result)) (\<lambda>_. sx_bind resolve (\<lambda>_. finish_with (h result))))))
     e')) = trace_of (fst (execute_gated look_env 0 look_decision e'))" for p h e'
    by (rule silent_tail) (intro silent_intros)
  have single: "run_decision look_env look_task look_decision e = run_single look_env look_task look_decision (e\<lparr>en_broker := b\<rparr>)"
    using g by (simp add: run_decision_def attention_of_def look_task_def dget_default_def sx_bind_def sx_return_def
        look_decision_def dget_def)
  have "trace_of (fst (run_single look_env look_task look_decision (e\<lparr>en_broker := b\<rparr>))) = trace_of (fst (execute_gated look_env 0 look_decision (e\<lparr>en_broker := b,
     en_trail := en_trail e @ [''EXECUTE''], en_world := (en_world e)\<lparr>w_gov := (w_gov (en_world e))
       \<lparr>g_state := EXECUTING, steps_used := 1\<rparr>\<rparr>\<rparr>)))" (is "_ = trace_of (fst (execute_gated _ _ _ ?e3))")
  proof -
    let ?e1 = "e\<lparr>en_broker := b, en_trail := en_trail e @ [''EXECUTE'']\<rparr>"
    let ?e2 = "?e1\<lparr>en_world := (en_world e)\<lparr>w_gov := (w_gov (en_world e))\<lparr>g_state := EXECUTING\<rparr>\<rparr>\<rparr>"
    have n: "note_trail ''EXECUTE'' (e\<lparr>en_broker := b\<rparr>) = (?e1, Inr ())" by (simp add: note_trail_def)
    have s: "governed_step look_env 4 EXECUTING ?e1 = (?e2, Inr ())"
      using assms(6) by (simp add: governed_step_def in_governor_def gov_step_def deadline_passed_def look_defs)
    have c: "in_governor (consume_step (tx_clock look_env 5) 1) ?e2 = (?e3, Inr ())"
      using assms(6) by (simp add: in_governor_def consume_step_def deadline_passed_def look_defs Let_def)
    show ?thesis
      unfolding run_single_def by (simp only: sx_bind_ok [where m = "note_trail x" for x, OF n] sx_bind_ok [where m = "governed_step x y z" for x y z, OF s] sx_bind_ok [where m = "in_governor x" for x, OF c] tail)
  qed
  with single look_executed assms show ?thesis by (simp add: fresh_proposer_def)
qed

lemma look_trace:
  "trace_of (fst (execute_task look_env look_task (look_engine None))) = [HandlerCall ''robot_look'' look_payload]"
proof -
  let ?at = "\<lambda>st tr. (look_engine None)\<lparr>en_world := (en_world (look_engine None))
     \<lparr>w_gov := (new_governor 50 300 0)\<lparr>g_state := st, task_started_at := Some 0, last_progress_at := Some 0,
        current_task := Some ''conversation''\<rparr>\<rparr>, en_trail := tr\<rparr>"
  have ty: "py_str (dget_default look_task ''type'' (PStr ''unknown'')) = ''conversation''"
    by (simp add: look_task_def dget_default_def)
  have steps: "governed_step look_env i GATING (?at OBSERVING tr) = (?at GATING tr, Inr ())"
    "governed_step look_env i DECIDING (?at GATING tr) = (?at DECIDING tr, Inr ())" for i tr
    by (simp_all add: governed_step_def in_governor_def gov_step_def deadline_passed_def look_defs)
  have trail: "note_trail s (?at st tr) = (?at st (tr @ [s]), Inr ())" for s st tr
    by (simp add: note_trail_def)
  have policy: "policy_of look_env look_task (?at GATING tr) = (?at GATING tr, Inr (True, None))" for tr
    by (simp add: policy_of_def evaluate_policy_def core_check_def action_type_of_def look_task_def look_defs dget_def
        dget_default_def py_or_def Let_def consent_gated_types_def action_class_defs flag_def detect_bias_def
        task_content_def sensitive_patterns_def loaded_words_def py_lower_def)
  have decide: "make_decision look_env look_task (?at DECIDING tr) = (?at DECIDING tr, Inr look_decision)" for tr
    by (simp add: make_decision_def look_task_def dget_def dget_default_def conversation_decision_def Let_def look_defs)
  have run: "trace_of (fst (run_decision look_env look_task look_decision (?at DECIDING tr))) =
      [HandlerCall ''robot_look'' look_payload]" for tr
    by (rule look_run) (simp_all add: look_defs)
  have "trace_of (fst (run_gated_task look_env look_task (?at OBSERVING []))) = [HandlerCall ''robot_look'' look_payload]"
    unfolding run_gated_task_def
    by (simp add: sx_bind_ok [where m = "note_trail x" for x, OF trail] sx_bind_ok [where m = "governed_step x y z" for x y z, OF steps(1)] sx_bind_ok [where m = "governed_step x y z" for x y z, OF steps(2)] sx_bind_ok [where m = "policy_of x y" for x y, OF policy]
        sx_bind_ok [where m = "make_decision x y" for x y, OF decide] run)
  moreover have "begin_task (tx_clock look_env 1) (Some ''conversation'') (w_gov (en_world (look_engine None))) =
      (w_gov (en_world (?at OBSERVING [])), Inr ())"
    by (simp add: begin_task_def look_defs)
  ultimately show ?thesis
    by (auto simp: execute_task_trace task_body_def sx_bind_ok [where m = "evaluate_fallbacks x" for x, OF look_start] ty end_governed_def
        simp del: One_nat_def split: prod.splits)
qed



theorem task_always_released_witness:
  "resting (w_gov (en_world (fst (execute_task look_env look_task (look_engine None)))))"
  using task_always_released [of "look_engine None" look_env look_task 0 None IDLE]
  by (simp add: look_defs resting_def latch_ok_def)

theorem inattentive_action_not_executed_witness:
  "el_trace (en_exec (fst (run_decision look_env [(''context'', PDict [(''attention_state'', PStr ''away'')])] look_decision
     (look_engine None)))) = el_trace (en_exec (look_engine None))"
  by (rule inattentive_action_not_executed [where a = "''robot_look''" and s = "''away''" and
        c = "[(''attention_state'', PStr ''away'')]"])
     (simp_all add: dget_default_def dget_def look_defs consent_gated_types_def action_class_defs)

theorem multi_step_ignores_attention_witness:
  "run_decision look_env (dset ''context'' (PDict [(''attention_state'', PStr ''away'')]) [])
     [(''action_type'', PStr ''multi_step_process'')] =
   run_decision look_env [] [(''action_type'', PStr ''multi_step_process'')]"
  by (rule multi_step_ignores_attention) (simp add: dget_def)

end
