(* ===== verification/Models.thy ===== *)
theory Models
  imports Prelude
begin

text \<open>
  The table of models and their learned performance: \<open>src/model_manager.py\<close> and
  \<open>src/reinforcement_learning.py\<close>. A model is the dictionary the configuration gives; performance
  scores are reals, kept per model id. \<open>to_float\<close> is \<open>float()\<close> of a value.
\<close>

definition MODEL_PERFORMANCE_CAP :: real where "MODEL_PERFORMANCE_CAP = 100"

record model_manager =
  mg_models :: "pydict list"
  mg_performance :: "(pyval \<times> real) list"

fun init_performance :: "pydict list \<Rightarrow> (pyval \<times> real) list \<Rightarrow> py_exn + (pyval \<times> real) list" where
  "init_performance [] acc = Inr acc"
| "init_performance (m # ms) acc =
     (case map_of m ''id'' of
        None \<Rightarrow> Inl KeyErr
      | Some i \<Rightarrow> if hashable i then init_performance ms (AList.update i 1 acc) else Inl TypeErr)"

definition new_model_manager :: "pydict list \<Rightarrow> py_exn + model_manager" where
  "new_model_manager models =
     map_sum id (\<lambda>perf. \<lparr>mg_models = models, mg_performance = perf\<rparr>) (init_performance models [])"

text \<open>The models of the task's type, or all of them; a model or a task without a type raises.\<close>

fun models_of_type :: "pydict \<Rightarrow> pydict list \<Rightarrow> py_exn + pydict list" where
  "models_of_type task [] = Inr []"
| "models_of_type task (m # ms) =
     (case (map_of m ''type'', map_of task ''type'') of
        (Some a, Some b) \<Rightarrow> map_sum id (\<lambda>rest. if a = b then m # rest else rest) (models_of_type task ms)
      | _ \<Rightarrow> Inl KeyErr)"

definition select_models :: "pydict \<Rightarrow> model_manager \<Rightarrow> py_exn + pydict list" where
  "select_models task mg =
     map_sum id (\<lambda>sel. if sel = [] then mg_models mg else sel) (models_of_type task (mg_models mg))"

definition list_models :: "model_manager \<Rightarrow> pydict list" where
  "list_models mg = mg_models mg"

definition get_model_performance :: "pyval \<Rightarrow> model_manager \<Rightarrow> real" where
  "get_model_performance i mg = (case map_of (mg_performance mg) i of None \<Rightarrow> 1 | Some p \<Rightarrow> p)"

definition update_model_performance :: "pyval \<Rightarrow> bool \<Rightarrow> model_manager \<Rightarrow> model_manager" where
  "update_model_performance i success mg =
     (case map_of (mg_performance mg) i of
        None \<Rightarrow> mg
      | Some p \<Rightarrow> mg\<lparr>mg_performance := AList.update i
          (min (p * (if success then 11/10 else 9/10)) MODEL_PERFORMANCE_CAP) (mg_performance mg)\<rparr>)"

definition set_model_performance :: "pyval \<Rightarrow> real \<Rightarrow> model_manager \<Rightarrow> model_manager" where
  "set_model_performance i performance mg =
     (case map_of (mg_performance mg) i of
        None \<Rightarrow> mg
      | Some _ \<Rightarrow> mg\<lparr>mg_performance := AList.update i (min (max 0 performance) MODEL_PERFORMANCE_CAP)
                    (mg_performance mg)\<rparr>)"

text \<open>The model is appended before its id is read.\<close>

definition mg_add_model :: "pydict \<Rightarrow> (model_manager, py_exn, unit) sx" where
  "mg_add_model m mg =
     (let mg1 = mg\<lparr>mg_models := mg_models mg @ [m]\<rparr> in
      case map_of m ''id'' of
        None \<Rightarrow> (mg1, Inl KeyErr)
      | Some i \<Rightarrow> if hashable i then (mg1\<lparr>mg_performance := AList.update i 1 (mg_performance mg1)\<rparr>, Inr ())
                  else (mg1, Inl TypeErr))"

fun set_performances :: "(pyval \<Rightarrow> (py_exn + real)) \<Rightarrow> pydict \<Rightarrow> (model_manager, py_exn, unit) sx" where
  "set_performances to_float [] mg = (mg, Inr ())"
| "set_performances to_float ((i, v) # rest) mg =
     (case to_float v of
        Inl e \<Rightarrow> (mg, Inl e)
      | Inr p \<Rightarrow> set_performances to_float rest (set_model_performance (PStr i) p mg))"

fun add_models :: "pyval list \<Rightarrow> (model_manager, py_exn, unit) sx" where
  "add_models [] mg = (mg, Inr ())"
| "add_models (v # vs) mg =
     (if is_dict v \<and> map_of (as_dict v) ''id'' \<noteq> None
      then sx_bind (mg_add_model (as_dict v)) (\<lambda>_. add_models vs) mg else add_models vs mg)"

definition update_models :: "(pyval \<Rightarrow> (py_exn + real)) \<Rightarrow> pyval \<Rightarrow> (model_manager, py_exn, unit) sx" where
  "update_models to_float environment mg =
     (case environment of
        PDict d \<Rightarrow>
          (case dget_default d ''model_performances'' (PDict []) of
             PDict ps \<Rightarrow>
               sx_bind (set_performances to_float ps) (\<lambda>_ mg'.
                 case py_iter (dget_default d ''new_models'' (PList [])) of
                   Inl x \<Rightarrow> (mg', Inl x)
                 | Inr vs \<Rightarrow> add_models vs mg') mg
           | _ \<Rightarrow> (mg, Inl AttributeErr))
      | _ \<Rightarrow> (mg, Inr ()))"

subsection \<open>Reinforcement\<close>

definition task_succeeded :: "pyval \<Rightarrow> bool" where
  "task_succeeded result =
     (case result of
        PDict r \<Rightarrow> (if dget r ''success'' \<noteq> PNone then truthy (dget r ''success'')
                    else dget r ''status'' = PStr ''success'')
      | _ \<Rightarrow> False)"

fun reinforce_models :: "real \<Rightarrow> bool \<Rightarrow> pyval list \<Rightarrow> (model_manager, py_exn, unit) sx" where
  "reinforce_models rate success [] mg = (mg, Inr ())"
| "reinforce_models rate success (i # is) mg =
     (if hashable i
      then reinforce_models rate success is
             (set_model_performance i (get_model_performance i mg * (if success then 1 + rate else 1 - rate)) mg)
      else (mg, Inl TypeErr))"

definition rl_update :: "real \<Rightarrow> pydict \<Rightarrow> pyval \<Rightarrow> (model_manager, py_exn, unit) sx" where
  "rl_update rate decision result mg =
     (case py_iter (dget_default decision ''model_outputs'' (PDict [])) of
        Inl x \<Rightarrow> (mg, Inl x)
      | Inr is \<Rightarrow> reinforce_models rate (task_succeeded result) is mg)"

definition evaluate_performance :: "pyval \<Rightarrow> real" where
  "evaluate_performance result =
     (case result of
        PDict r \<Rightarrow>
          if dget r ''status'' = PStr ''success'' \<or> dget r ''success'' = PBool True then 1
          else if dget r ''status'' = PStr ''error'' \<or> map_of r ''error'' \<noteq> None then 0 else 1/2
      | _ \<Rightarrow> 1/2)"

subsection \<open>Scores stay in range\<close>

definition scores_ok :: "model_manager \<Rightarrow> bool" where
  "scores_ok mg \<longleftrightarrow> (\<forall>(i, p)\<in>set (mg_performance mg). 0 \<le> p \<and> p \<le> MODEL_PERFORMANCE_CAP)"

datatype model_op =
    Learn pyval bool
  | SetScore pyval real
  | AddModel pydict
  | UpdateModels "pyval \<Rightarrow> (py_exn + real)" pyval
  | Reinforce real pydict pyval

fun model_apply :: "model_op \<Rightarrow> model_manager \<Rightarrow> model_manager" where
  "model_apply (Learn i b) mg = update_model_performance i b mg"
| "model_apply (SetScore i p) mg = set_model_performance i p mg"
| "model_apply (AddModel m) mg = fst (mg_add_model m mg)"
| "model_apply (UpdateModels to_float v) mg = fst (update_models to_float v mg)"
| "model_apply (Reinforce rate d r) mg = fst (rl_update rate d r mg)"

lemma scores_update:
  "scores_ok mg \<Longrightarrow> 0 \<le> p \<Longrightarrow> p \<le> MODEL_PERFORMANCE_CAP \<Longrightarrow>
     scores_ok (mg\<lparr>mg_performance := AList.update i p (mg_performance mg)\<rparr>)"
proof -
  have "set (AList.update i p al) \<subseteq> insert (i, p) (set al)" for al :: "(pyval \<times> real) list"
    by (induction al) auto
  then show "scores_ok mg \<Longrightarrow> 0 \<le> p \<Longrightarrow> p \<le> MODEL_PERFORMANCE_CAP \<Longrightarrow> ?thesis"
    by (fastforce simp: scores_ok_def)
qed

lemma set_score_ok: "scores_ok mg \<Longrightarrow> scores_ok (set_model_performance i p mg)"
  by (auto simp: set_model_performance_def MODEL_PERFORMANCE_CAP_def split: option.splits intro!: scores_update)

lemma learn_ok: "scores_ok mg \<Longrightarrow> scores_ok (update_model_performance i b mg)"
proof (cases "map_of (mg_performance mg) i")
  case (Some p)
  assume ok: "scores_ok mg"
  from Some have "(i, p) \<in> set (mg_performance mg)" by (rule map_of_SomeD)
  with ok have "0 \<le> p" "p \<le> MODEL_PERFORMANCE_CAP" by (auto simp: scores_ok_def)
  with ok Some show ?thesis
    by (auto simp: update_model_performance_def Let_def MODEL_PERFORMANCE_CAP_def intro!: scores_update)
qed (simp add: update_model_performance_def)

lemma add_model_ok: "scores_ok mg \<Longrightarrow> scores_ok (fst (mg_add_model m mg))"
  using scores_update [of "mg\<lparr>mg_models := mg_models mg @ [m]\<rparr>" 1]
  by (auto simp: mg_add_model_def Let_def MODEL_PERFORMANCE_CAP_def scores_ok_def split: option.splits)

lemma update_models_ok: "scores_ok mg \<Longrightarrow> scores_ok (fst (update_models to_float v mg))"
proof -
  have perf: "scores_ok mg \<Longrightarrow> scores_ok (fst (set_performances to_float ps mg))" for ps mg
    by (induction to_float ps mg rule: set_performances.induct) (auto simp: set_score_ok split: sum.splits)
  have adds: "scores_ok mg \<Longrightarrow> scores_ok (fst (add_models vs mg))" for vs mg
  proof (induction vs arbitrary: mg)
    case (Cons v vs)
    obtain mg' r where mg': "mg_add_model (as_dict v) mg = (mg', r)" by (cases "mg_add_model (as_dict v) mg") auto
    with add_model_ok [OF Cons.prems, of "as_dict v"] have "scores_ok mg'" by simp
    with Cons mg' show ?case by (simp add: sx_bind_def split: sum.split)
  qed simp
  assume ok: "scores_ok mg"
  have "scores_ok mg'" if "set_performances to_float ps mg = (mg', r)" for ps mg' r
    using perf [OF ok, of ps] that by simp
  then show ?thesis
    using ok adds by (auto simp: update_models_def sx_bind_def split: pyval.splits prod.splits sum.splits)
qed

lemma model_apply_ok: "scores_ok mg \<Longrightarrow> scores_ok (model_apply p mg)"
proof (cases p)
  case (Reinforce rate d r)
  assume ok: "scores_ok mg"
  have "scores_ok (fst (reinforce_models rate b is mg))" for b "is"
    using ok by (induction "is" arbitrary: mg) (auto simp: set_score_ok)
  with Reinforce ok show ?thesis by (simp add: rl_update_def split: sum.split)
qed (simp_all add: learn_ok set_score_ok add_model_ok update_models_ok)

interpretation scores: invariant_machine model_apply scores_ok
  by unfold_locales (rule model_apply_ok)

lemma init_performance_ok: "init_performance ms acc = Inr perf \<Longrightarrow> \<forall>(i, p)\<in>set acc. p = 1 \<Longrightarrow> \<forall>(i, p)\<in>set perf. p = 1"
proof (induction ms acc rule: init_performance.induct)
  case (2 m ms acc)
  then obtain i where i: "map_of m ''id'' = Some i" "hashable i" by (auto split: option.splits if_splits)
  have "set (AList.update i 1 al) \<subseteq> insert (i, 1) (set al)" for al :: "(pyval \<times> real) list"
    by (induction al) auto
  with 2 i show ?case by fastforce
qed auto

text \<open>Learned scores cannot run away. From the start, whatever the outcomes, explicit settings, environment
  updates and learning rates, every model's performance score stays between 0 and the cap of 100.\<close>

theorem performance_scores_bounded:
  assumes "new_model_manager models = Inr mg"
  shows "0 \<le> get_model_performance i (run_ops model_apply ps mg) \<and> get_model_performance i (run_ops model_apply ps mg) \<le> 100"
proof -
  have "scores_ok mg"
    using assms init_performance_ok [of models "[]"]
    by (fastforce simp: new_model_manager_def scores_ok_def MODEL_PERFORMANCE_CAP_def map_sum_def split: sum.splits)
  from scores.inv_run [OF this, of ps] show ?thesis
    by (auto simp: get_model_performance_def scores_ok_def MODEL_PERFORMANCE_CAP_def split: option.splits dest!: map_of_SomeD)
qed

theorem performance_scores_bounded_witness:
  "get_model_performance (PStr ''m'') (run_ops model_apply (replicate 60 (Learn (PStr ''m'') True))
     \<lparr>mg_models = [[(''id'', PStr ''m'')]], mg_performance = [(PStr ''m'', 1)]\<rparr>) \<le> 100"
  using performance_scores_bounded [of "[[(''id'', PStr ''m'')]]"] by (simp add: new_model_manager_def)

end
