(* ===== verification/Autonomy.thy ===== *)
theory Autonomy
  imports Decision_Safety Models
begin

text \<open>
  The autonomous loop, \<open>src/autonomy.py\<close>, over the engine's gated path: one autonomous task with its
  episodic record, a learning cycle over a list of tasks, evaluation of results and adaptation to
  environment data. The environments of the tasks of a cycle, the clock readings and the outcome of the
  vector store's update are arguments.
\<close>

subsection \<open>Operations\<close>

record cycle_env =
  cy_start :: task_env
  cy_task :: "nat \<Rightarrow> task_env"
  cy_after :: "nat \<Rightarrow> task_env"
  cy_note :: "nat \<Rightarrow> string"
  cy_now :: "nat \<Rightarrow> string"
  cy_mem :: mem_env

definition generate_task :: "string \<Rightarrow> string \<Rightarrow> pyval \<Rightarrow> pydict" where
  "generate_task now task_type content =
     [(''type'', PStr task_type), (''content'', content), (''timestamp'', PStr now)]"

fun exn_type_name :: "eng_exn \<Rightarrow> string" where
  "exn_type_name (XHalt _) = ''FallbackHalt''"
| "exn_type_name (XGov _) = ''GovernorError''"
| "exn_type_name (XExn n) = n"

definition note_task :: "string \<Rightarrow> pydict \<Rightarrow> engine \<Rightarrow> engine" where
  "note_task ts task e = e\<lparr>en_memory := note_step ts
     (''autonomous task: '' @ py_str (dget_default task ''type'' (PStr ''unknown''))) (en_memory e)\<rparr>"

definition run_and_record :: "task_env \<Rightarrow> task_env \<Rightarrow> pydict \<Rightarrow> pydict eng" where
  "run_and_record env after task =
     sx_bind (execute_task env task) (\<lambda>result.
     sx_bind (remember after ''task_result''
       [(''task_type'', dget_default task ''type'' (PStr ''unknown'')),
        (''status'', PStr (py_str (dget_default result ''status'' (PStr ''unknown''))))]) (\<lambda>_.
     sx_bind resolve (\<lambda>_. sx_return result)))"

definition execute_autonomous_task :: "string \<Rightarrow> task_env \<Rightarrow> task_env \<Rightarrow> pydict \<Rightarrow> pydict eng" where
  "execute_autonomous_task ts env after task e =
     (case run_and_record env after task (note_task ts task e) of
        (e', Inr result) \<Rightarrow> (e', Inr result)
      | (e', Inl x) \<Rightarrow>
          sx_bind (remember after ''task_failure''
            [(''task_type'', dget_default task ''type'' (PStr ''unknown'')), (''error'', PStr (exn_type_name x))]) (\<lambda>_.
          sx_bind resolve (\<lambda>_.
          sx_return [(''status'', PStr ''error''), (''message'', PStr (exn_type_name x))])) e')"

text \<open>The loop runs over a snapshot of the list; feedback goes to the list itself, which is the second component
  of the state. A task without a type raises after it was executed, outside the handler.\<close>

definition feedback_of :: "string \<Rightarrow> pydict \<Rightarrow> pydict list" where
  "feedback_of now result =
     (case map_of result ''feedback'' of None \<Rightarrow> [] | Some c \<Rightarrow> [generate_task now ''feedback'' c])"

fun cycle_tasks :: "cycle_env \<Rightarrow> int \<Rightarrow> nat \<Rightarrow> pydict list \<Rightarrow> (engine \<times> pydict list, eng_exn, unit) sx" where
  "cycle_tasks cy max_iterations k [] s = (s, Inr ())"
| "cycle_tasks cy max_iterations k (t # ts) (e, tasks) =
     (if int k \<ge> max_iterations then ((e, tasks), Inr ())
      else case execute_autonomous_task (cy_note cy k) (cy_task cy k) (cy_after cy k) t e of
             (e', Inl x) \<Rightarrow> ((e', tasks), Inl x)
           | (e', Inr result) \<Rightarrow>
               if map_of t ''type'' = None then ((e', tasks), Inl (XExn ''KeyError''))
               else cycle_tasks cy max_iterations (k + 1) ts (e', tasks @ feedback_of (cy_now cy k) result))"

definition autonomous_learning_cycle :: "cycle_env \<Rightarrow> int \<Rightarrow> pydict list \<Rightarrow> engine \<Rightarrow> (engine \<times> pydict list) \<times> (eng_exn + unit)" where
  "autonomous_learning_cycle cy max_iterations tasks e =
     (case remember (cy_start cy) ''cycle_started'' [(''planned_tasks'', PInt (int (length tasks)))] e of
        (e0, Inl x) \<Rightarrow> ((e0, tasks), Inl x)
      | (e0, Inr _) \<Rightarrow>
          (case cycle_tasks cy max_iterations 0 tasks (e0, tasks) of
             (s, Inl x) \<Rightarrow> (s, Inl x)
           | ((e1, tasks'), Inr _) \<Rightarrow>
               ((e1\<lparr>en_memory := fst (consolidate_now (cy_mem cy) (en_memory e1))\<rparr>, tasks'), Inr ())))"

text \<open>A missing type raises in the body, and again in the handler's message.\<close>

definition evaluate_task_performance :: "pydict \<Rightarrow> pyval \<Rightarrow> py_exn + real" where
  "evaluate_task_performance task result =
     (case map_of task ''type'' of None \<Rightarrow> Inl KeyErr | Some _ \<Rightarrow> Inr (evaluate_performance result))"

text \<open>\<open>vdb_ok\<close>: the vector store's update returned. Whatever raises is logged, and the rest is skipped.\<close>

definition adapt_to_environment ::
  "bool \<Rightarrow> (pyval \<Rightarrow> (py_exn + real)) \<Rightarrow> sem_env \<Rightarrow> string \<Rightarrow> pyval \<Rightarrow> model_manager \<times> memory \<Rightarrow> model_manager \<times> memory" where
  "adapt_to_environment vdb_ok to_float senv now data =
     (\<lambda>(mg, m).
       if \<not> vdb_ok then (mg, m)
       else case update_models to_float data mg of
              (mg', Inl _) \<Rightarrow> (mg', m)
            | (mg', Inr _) \<Rightarrow>
                (mg', m\<lparr>mm_tier2 := fst (store_fact senv now (''Environment update: '' @ take 300 (py_str data))
                   ''environment'' (12/10) [(''source'', PStr ''adapt_to_environment'')] (mm_tier2 m))\<rparr>))"

subsection \<open>What a task leaves alone\<close>

text \<open>The grants, the operator channel and the configuration: what authority rests on.\<close>

definition standing :: "engine \<Rightarrow> features \<times> consents \<times> bool" where
  "standing e = (en_features e, en_consents e, ab_operator (en_broker e))"

definition keeps_standing :: "'a eng \<Rightarrow> bool" where
  "keeps_standing m \<longleftrightarrow> (\<forall>e. standing (fst (m e)) = standing e)"

lemma emits_keeps_standing: "emits ok m \<Longrightarrow> keeps_standing m"
  by (auto simp: emits_def keeps_standing_def same_authority_def standing_def)

lemma silent_keeps_standing: "silent m \<Longrightarrow> keeps_standing m"
  by (auto simp: silent_def keeps_standing_def same_authority_def standing_def)

lemma keeps_standing_bind: "keeps_standing m \<Longrightarrow> (\<And>x. keeps_standing (f x)) \<Longrightarrow> keeps_standing (sx_bind m f)"
  by (auto simp: keeps_standing_def sx_bind_def split: prod.splits sum.splits) (metis fst_conv)+

lemma in_world_keeps_standing: "keeps_standing (in_world env f)"
proof -
  have "same_authority (e\<lparr>en_world := w\<rparr>) (flush_log env (e\<lparr>en_world := w\<rparr>))" for e w
    by simp
  then show ?thesis
    by (simp add: keeps_standing_def in_world_def standing_def same_authority_def split: prod.split)
qed

lemma run_gated_task_keeps_standing: "keeps_standing (run_gated_task env task)"
proof -
  have refusal: "keeps_standing (policy_refusal env task reason)" for reason
    unfolding policy_refusal_def
    by (intro keeps_standing_bind in_world_keeps_standing; (rule silent_keeps_standing)?; intro silent_intros)
  have decide: "keeps_standing (sx_bind (make_decision env task) (run_decision env task))"
    by (rule keeps_standing_bind [OF silent_keeps_standing [OF silent_make_decision] emits_keeps_standing [OF run_decision_lawful]])
  note steps = silent_keeps_standing [OF silent_return(5)] silent_keeps_standing [OF silent_return(7)]
    silent_keeps_standing [OF silent_governed_step]
  show ?thesis
    unfolding run_gated_task_def
    by (intro keeps_standing_bind steps) (auto simp: refusal intro!: keeps_standing_bind steps decide)
qed

lemma handle_exn_keeps_standing: "keeps_standing (handle_exn env task x)"
proof (cases x)
  case (XGov g)
  show ?thesis unfolding XGov handle_exn.simps
    by (intro keeps_standing_bind [OF in_world_keeps_standing] silent_keeps_standing silent_intros)
next
  case (XHalt r)
  show ?thesis unfolding XHalt handle_exn.simps by (intro silent_keeps_standing silent_intros)
next
  case (XExn n)
  show ?thesis unfolding XExn handle_exn.simps by (intro silent_keeps_standing silent_intros)
qed

lemma task_body_keeps_standing: "keeps_standing (task_body env task)"
proof -
  let ?ref = "Some (py_str (dget_default task ''type'' (PStr ''unknown'')))"
  have "standing (fst (task_body env task e)) = standing e" for e
  proof -
    obtain e1 r1 where ev: "evaluate_fallbacks env e = (e1, r1)" by fastforce
    then have s1: "standing e1 = standing e"
      using evaluate_fallbacks_frame [of env e] by (simp add: standing_def)
    obtain g r2 where bt: "begin_task (tx_clock env 1) ?ref (w_gov (en_world e1)) = (g, r2)" by fastforce
    let ?e2 = "e1\<lparr>en_world := (en_world e1)\<lparr>w_gov := g\<rparr>\<rparr>"
    have "keeps_standing (sx_bind (remember env ty p) (\<lambda>_. sx_return x))" for ty p and x :: pydict
      by (intro silent_keeps_standing silent_intros)
    then have refused: "standing (fst (sx_bind (remember env ty p) (\<lambda>_. sx_return x) ?e2)) = standing e1"
      for ty p and x :: pydict
      by (simp add: keeps_standing_def standing_def)
    have "standing (fst (run_gated_task env task (?e2\<lparr>en_trail := []\<rparr>))) = standing e1"
      using run_gated_task_keeps_standing [of env task] by (simp add: keeps_standing_def standing_def)
    with refused s1 show ?thesis
      by (cases r1; cases r2)
         (auto simp: task_body_def sx_bind_def [of "evaluate_fallbacks env"] ev bt end_governed_def standing_def
            simp del: One_nat_def split: prod.splits)
  qed
  then show ?thesis by (simp add: keeps_standing_def)
qed

text \<open>A task cannot grant itself anything.\<close>

lemma execute_task_standing: "standing (fst (execute_task env task e)) = standing e"
proof -
  obtain e' r where b: "task_body env task e = (e', r)" by fastforce
  with task_body_keeps_standing [of env task] have "standing e' = standing e"
    by (simp add: keeps_standing_def) (metis fst_conv)
  with b handle_exn_keeps_standing [of env task] show ?thesis
    by (auto simp: execute_task_def keeps_standing_def split: sum.splits)
qed

subsection \<open>Effects of a cycle\<close>

text \<open>Effects of consent-gated actions carry a grant of the standing registry and an approval of one of the given
  task environments.\<close>

definition sanctioned :: "(nat \<Rightarrow> task_env) \<Rightarrow> nat set \<Rightarrow> features \<times> consents \<times> bool \<Rightarrow> exec_effect \<Rightarrow> bool" where
  "sanctioned envs K = (\<lambda>(ft, c, operator) eff.
     \<forall>a\<in>set (consent_gated_types ft). effect_action eff = PStr a \<longrightarrow> (\<exists>k\<in>K. cleared (envs k) c operator a))"

lemma sanctioned_mono: "sanctioned envs K st eff \<Longrightarrow> K \<subseteq> L \<Longrightarrow> sanctioned envs L st eff"
  by (cases st) (auto simp: sanctioned_def)

lemma autonomous_task_effects:
  "standing (fst (execute_autonomous_task ts env after task e)) = standing e \<and>
   (\<exists>efs. trace_of (fst (execute_autonomous_task ts env after task e)) = trace_of e @ efs \<and>
      list_all (sanctioned (\<lambda>_. env) {0} (standing e)) efs)"
proof -
  let ?e0 = "note_task ts task e"
  have e0: "standing ?e0 = standing e" "trace_of ?e0 = trace_of e"
    by (simp_all add: note_task_def standing_def)
  obtain e1 r1 where ex: "execute_task env task ?e0 = (e1, r1)" by fastforce
  obtain efs where efs: "trace_of e1 = trace_of e @ efs" "list_all (sanctioned (\<lambda>_. env) {0} (standing e)) efs"
    using execute_task_effects [of env task ?e0] ex e0 evaluate_fallbacks_frame [of env ?e0]
    by (auto simp: list_all_iff authorized_def sanctioned_def standing_def)
  have s1: "standing e1 = standing e" using execute_task_standing [of env task ?e0] ex e0 by simp
  have quiet: "silent (sx_bind (remember after ty p) (\<lambda>_. sx_bind resolve (\<lambda>_. sx_return x)))" for ty p and x :: pydict
    by (intro silent_intros)
  have tail: "standing (fst (sx_bind (remember after ty p) (\<lambda>_. sx_bind resolve (\<lambda>_. sx_return x)) e')) = standing e'"
    "trace_of (fst (sx_bind (remember after ty p) (\<lambda>_. sx_bind resolve (\<lambda>_. sx_return x)) e')) = trace_of e'"
    for ty p e' and x :: pydict
    using quiet [of ty p x] by (auto simp: silent_def same_authority_def standing_def)
  obtain e2 r2 where rr: "run_and_record env after task ?e0 = (e2, r2)" by fastforce
  have "standing e2 = standing e \<and> trace_of e2 = trace_of e @ efs"
    using rr s1 efs(1) tail
    by (auto simp: run_and_record_def sx_bind_def [of "execute_task env task"] ex split: sum.splits)
       (metis fst_conv)+
  with rr tail efs(2) show ?thesis
    by (auto simp: execute_autonomous_task_def split: sum.splits)
qed

lemma cycle_tasks_effects:
  "standing (fst (fst (cycle_tasks cy m k ts (e, tasks)))) = standing e \<and>
   (\<exists>efs. trace_of (fst (fst (cycle_tasks cy m k ts (e, tasks)))) = trace_of e @ efs \<and>
      list_all (sanctioned (cy_task cy) {i. k \<le> i \<and> int i < m \<and> i < k + length ts} (standing e)) efs)"
proof (induction ts arbitrary: k e tasks)
  case Nil
  show ?case by simp
next
  case (Cons t ts)
  show ?case
  proof (cases "int k \<ge> m")
    case True
    then show ?thesis by simp
  next
    case False
    let ?K = "{i. k \<le> i \<and> int i < m \<and> i < k + length (t # ts)}"
    obtain e1 r1 where ex: "execute_autonomous_task (cy_note cy k) (cy_task cy k) (cy_after cy k) t e = (e1, r1)" by fastforce
    from autonomous_task_effects [of "cy_note cy k" "cy_task cy k" "cy_after cy k" t e] ex
    obtain efs where s1: "standing e1 = standing e" and t1: "trace_of e1 = trace_of e @ efs"
      and efs: "list_all (sanctioned (\<lambda>_. cy_task cy k) {0} (standing e)) efs" by auto
    from efs False have efs': "list_all (sanctioned (cy_task cy) ?K (standing e)) efs"
      by (cases "standing e") (auto simp: list_all_iff sanctioned_def)
    obtain rest where later: "standing (fst (fst (cycle_tasks cy m (k + 1) ts (e1, tasks')))) = standing e"
      "trace_of (fst (fst (cycle_tasks cy m (k + 1) ts (e1, tasks')))) = trace_of e @ efs @ rest tasks'"
      "list_all (sanctioned (cy_task cy) {i. k + 1 \<le> i \<and> int i < m \<and> i < k + 1 + length ts} (standing e)) (rest tasks')"
      for tasks'
      using Cons.IH [of "k + 1" e1] s1 t1 by (simp add: append_assoc) metis
    have "list_all (sanctioned (cy_task cy) ?K (standing e)) (rest tasks')" for tasks'
      using later(3) [of tasks'] by (auto simp: list_all_iff elim!: sanctioned_mono)
    with False ex s1 t1 efs' later(1,2) show ?thesis
      by (auto split: sum.split)
  qed
qed

lemma autonomous_cycle_effects:
  "\<exists>efs. trace_of (fst (fst (autonomous_learning_cycle cy m tasks e))) = trace_of e @ efs \<and>
     list_all (sanctioned (cy_task cy) {k. int k < m \<and> k < length tasks} (standing e)) efs"
proof -
  obtain e0 r0 where start: "remember (cy_start cy) ''cycle_started'' [(''planned_tasks'', PInt (int (length tasks)))] e = (e0, r0)"
    by fastforce
  with silent_remember [of "cy_start cy" "''cycle_started''" "[(''planned_tasks'', PInt (int (length tasks)))]"]
  have "standing e0 = standing e" "trace_of e0 = trace_of e"
    by (auto simp: silent_def same_authority_def standing_def dest!: spec [of _ e])
  with cycle_tasks_effects [of cy m 0 tasks e0 tasks]
  obtain efs where "trace_of (fst (fst (cycle_tasks cy m 0 tasks (e0, tasks)))) = trace_of e @ efs"
    and "list_all (sanctioned (cy_task cy) {k. int k < m \<and> k < length tasks} (standing e)) efs"
    by auto
  with start \<open>trace_of e0 = trace_of e\<close> show ?thesis
    by (auto simp: autonomous_learning_cycle_def split: sum.splits prod.splits)
qed

text \<open>An autonomous cycle never acts beyond what was granted before it began. Over any list of tasks, with failures
  and refusals on the way, each effect of a consent-gated action was let through by a grant that the registry held
  at the start and by an operator's approval of a request of one of the tasks within the iteration bound; nothing
  the cycle does can widen the grants, attach an operator or change the configuration.\<close>

theorem cycle_effects_authorized:
  "\<exists>efs. el_trace (en_exec (fst (fst (autonomous_learning_cycle cy max_iterations tasks e)))) = el_trace (en_exec e) @ efs \<and>
     (\<forall>eff\<in>set efs. \<forall>a\<in>set (consent_gated_types (en_features e)). effect_action eff = PStr a \<longrightarrow>
        ab_operator (en_broker e) \<and>
        (\<exists>k n. int k < max_iterations \<and> k < length tasks \<and> has_grant (tx_time (cy_task cy k) (2 * n + 3)) a (en_consents e) \<and>
           first_verdict (fst (tx_approval (cy_task cy k) n)) (snd (tx_approval (cy_task cy k) n)) = Some True))"
proof -
  obtain efs where "trace_of (fst (fst (autonomous_learning_cycle cy max_iterations tasks e))) = trace_of e @ efs"
    "list_all (sanctioned (cy_task cy) {k. int k < max_iterations \<and> k < length tasks} (standing e)) efs"
    using autonomous_cycle_effects by blast
  then show ?thesis
    by (intro exI [of _ efs]) (auto simp: list_all_iff sanctioned_def standing_def cleared_def)
qed

definition look_cycle :: cycle_env where
  "look_cycle = \<lparr>cy_start = look_env, cy_task = (\<lambda>_. look_env), cy_after = (\<lambda>_. look_env), cy_note = (\<lambda>_. []),
     cy_now = (\<lambda>_. []), cy_mem = tx_mem look_env\<rparr>"

theorem cycle_effects_authorized_witness:
  "\<exists>efs. el_trace (en_exec (fst (fst (autonomous_learning_cycle look_cycle 50 [look_task, look_task] (look_engine None))))) = efs \<and>
     list_all (\<lambda>eff. effect_action eff \<noteq> PStr ''robot_look'' \<or>
        (\<exists>n. has_grant (tx_time look_env (2 * n + 3)) ''robot_look'' (en_consents (look_engine None)))) efs"
proof -
  have "trace_of (look_engine None) = []" "''robot_look'' \<in> set (consent_gated_types (en_features (look_engine None)))"
    by (simp_all add: look_defs consent_gated_types_def action_class_defs)
  with cycle_effects_authorized [of look_cycle 50 "[look_task, look_task]" "look_engine None"] show ?thesis
    by (fastforce simp: list_all_iff look_cycle_def)
qed

subsection \<open>Bounds of a cycle\<close>

lemma cycle_tasks_take: "cycle_tasks cy m k ts s = cycle_tasks cy m k (take (nat (m - int k)) ts) s"
proof (induction ts arbitrary: k s)
  case (Cons t ts)
  obtain e tasks where s: "s = (e, tasks)" by (cases s)
  show ?case
  proof (cases "int k \<ge> m")
    case False
    then have n: "nat (m - int k) = Suc (nat (m - int (k + 1)))" by linarith
    show ?thesis unfolding s n take_Suc_Cons cycle_tasks.simps
      using Cons.IH [of "k + 1"] by (auto split: sum.split prod.split)
  qed (simp add: s)
qed simp

lemma cycle_tasks_feedback:
  "\<exists>fb. snd (fst (cycle_tasks cy m k ts (e, tasks))) = tasks @ fb \<and>
     list_all (\<lambda>t. dget t ''type'' = PStr ''feedback'') fb \<and> length fb \<le> length ts"
proof (induction ts arbitrary: k e tasks)
  case (Cons t ts)
  have fb: "list_all (\<lambda>t. dget t ''type'' = PStr ''feedback'') (feedback_of now r)" "length (feedback_of now r) \<le> 1" for now r
    by (simp_all add: feedback_of_def generate_task_def dget_def split: option.split)
  obtain e1 r1 where ex: "execute_autonomous_task (cy_note cy k) (cy_task cy k) (cy_after cy k) t e = (e1, r1)" by fastforce
  have "\<exists>f. snd (fst (cycle_tasks cy m (k + 1) ts (e1, tasks @ feedback_of (cy_now cy k) r))) = tasks @ f \<and>
      list_all (\<lambda>t. dget t ''type'' = PStr ''feedback'') f \<and> length f \<le> Suc (length ts)" for r
  proof -
    obtain f where "snd (fst (cycle_tasks cy m (k + 1) ts (e1, tasks @ feedback_of (cy_now cy k) r))) =
        (tasks @ feedback_of (cy_now cy k) r) @ f" "list_all (\<lambda>t. dget t ''type'' = PStr ''feedback'') f" "length f \<le> length ts"
      using Cons.IH by blast
    with fb [of "cy_now cy k" r] show ?thesis
      by (intro exI [of _ "feedback_of (cy_now cy k) r @ f"]) simp
  qed
  with ex show ?case by (auto split: sum.split)
qed simp

text \<open>A cycle runs over a snapshot. Its work is determined by the first \<open>max_iterations\<close> tasks of the list it was
  given; feedback is appended to the list, at most one task for each task given, and none of it runs in the
  cycle that produced it (the docstring speaks of incorporating feedback dynamically).\<close>

theorem feedback_waits_for_next_cycle:
  "cycle_tasks cy max_iterations 0 tasks s = cycle_tasks cy max_iterations 0 (take (nat max_iterations) tasks) s \<and>
   (\<exists>fb. snd (fst (cycle_tasks cy max_iterations 0 tasks (e, tasks))) = tasks @ fb \<and>
      list_all (\<lambda>t. dget t ''type'' = PStr ''feedback'') fb \<and> length fb \<le> min (length tasks) (nat max_iterations))"
proof -
  have bound: "cycle_tasks cy max_iterations 0 tasks s = cycle_tasks cy max_iterations 0 (take (nat max_iterations) tasks) s" for s
    using cycle_tasks_take [of cy max_iterations 0 tasks s] by simp
  with cycle_tasks_feedback [of cy max_iterations 0 "take (nat max_iterations) tasks" e tasks] show ?thesis
    by simp
qed

text \<open>A task without a type ends the cycle: it is executed, and then the log message raises outside the handler,
  so the remaining tasks are not run and the cycle's events are not consolidated.\<close>

theorem untyped_task_ends_cycle:
  assumes "map_of t ''type'' = None"
  shows "cycle_tasks cy m k (t # ts) (e, tasks) = cycle_tasks cy m k [t] (e, tasks)"
    and "0 < max_iterations \<Longrightarrow> snd (cycle_tasks cy max_iterations 0 (t # ts) (e, tasks)) \<noteq> Inr ()"
  using assms by (auto split: prod.split sum.split)

end
