(* ===== verification/Task_Queue.thy ===== *)
theory Task_Queue
  imports Prelude
begin

text \<open>
  The bounded task queue, \<open>src/task_manager.py\<close>: \<open>TaskManager\<close> with one worker thread. The queue's own
  operations are atomic (\<open>queue.Queue\<close>), so a run of the program is a sequence of the steps below: a producer
  adds a task, the worker takes one or finds the queue empty, the worker completes the task it holds, the
  executor is attached, the manager is stopped. An executor and a callback are functions that may raise;
  what they do elsewhere is not part of the queue.
\<close>

subsection \<open>State and steps\<close>

type_synonym executor = "pydict \<Rightarrow> string + pyval"
type_synonym callback = "pyval \<Rightarrow> string + unit"

datatype outcome = Result pyval | Failed string

record task_manager =
  tq_maxsize :: nat
  tq_queue :: "(pydict \<times> callback option) list"
  tq_unfinished :: nat
  tq_executor :: "executor option"
  tq_stop :: bool
  tq_waiting :: bool
  tq_current :: "(pydict \<times> callback option) option"
  tq_done :: "(pydict \<times> outcome) list"
  tq_errors :: "string list"

definition new_task_manager :: "int \<Rightarrow> task_manager" where
  "new_task_manager max_queue_size =
     \<lparr>tq_maxsize = nat (max 1 max_queue_size), tq_queue = [], tq_unfinished = 0, tq_executor = None,
      tq_stop = False, tq_waiting = False, tq_current = None, tq_done = [], tq_errors = []\<rparr>"

definition set_executor :: "executor \<Rightarrow> task_manager \<Rightarrow> task_manager" where
  "set_executor ex q = q\<lparr>tq_executor := Some ex\<rparr>"

definition add_task :: "pydict \<Rightarrow> callback option \<Rightarrow> task_manager \<Rightarrow> task_manager \<times> bool" where
  "add_task task cb q =
     (if length (tq_queue q) < tq_maxsize q
      then (q\<lparr>tq_queue := tq_queue q @ [(task, cb)], tq_unfinished := tq_unfinished q + 1\<rparr>, True)
      else (q, False))"

definition refused_no_executor :: pyval where
  "refused_no_executor = PDict [(''status'', PStr ''refused''),
     (''reason'', PStr ''no executor configured for the task queue'')]"

definition tm_execute_task :: "pydict \<Rightarrow> task_manager \<Rightarrow> string + pyval" where
  "tm_execute_task task q =
     (case tq_executor q of None \<Rightarrow> Inr refused_no_executor | Some ex \<Rightarrow> ex task)"

text \<open>One pass of the worker loop in three steps, between which other threads may run: the test of the stop flag, the
  \<open>get\<close> that waits for a task (it times out on an empty queue, and the loop starts over), and the execution of the
  task it holds.\<close>

definition worker_check :: "task_manager \<Rightarrow> task_manager" where
  "worker_check q = (if tq_stop q \<or> tq_current q \<noteq> None then q else q\<lparr>tq_waiting := True\<rparr>)"

definition worker_get :: "task_manager \<Rightarrow> task_manager" where
  "worker_get q =
     (if \<not> tq_waiting q then q
      else case tq_queue q of
             [] \<Rightarrow> q\<lparr>tq_waiting := False\<rparr>
           | item # rest \<Rightarrow> q\<lparr>tq_waiting := False, tq_queue := rest, tq_current := Some item\<rparr>)"

definition worker_run :: "task_manager \<Rightarrow> task_manager" where
  "worker_run q =
     (case tq_current q of
        None \<Rightarrow> q
      | Some (task, cb) \<Rightarrow>
          (let q1 = q\<lparr>tq_current := None, tq_unfinished := tq_unfinished q - 1\<rparr> in
           case tm_execute_task task q of
             Inl e \<Rightarrow> q1\<lparr>tq_done := tq_done q @ [(task, Failed e)], tq_errors := tq_errors q @ [e]\<rparr>
           | Inr r \<Rightarrow>
               (let q2 = q1\<lparr>tq_done := tq_done q @ [(task, Result r)]\<rparr> in
                case cb of
                  None \<Rightarrow> q2
                | Some f \<Rightarrow> (case f r of Inl e \<Rightarrow> q2\<lparr>tq_errors := tq_errors q @ [e]\<rparr> | Inr _ \<Rightarrow> q2))))"

definition tm_stop :: "task_manager \<Rightarrow> task_manager" where
  "tm_stop q = q\<lparr>tq_stop := True\<rparr>"

datatype queue_step =
    AddTask pydict "callback option"
  | WorkerCheck
  | WorkerGet
  | WorkerRun
  | SetExecutor executor
  | StopManager

fun queue_apply :: "queue_step \<Rightarrow> task_manager \<Rightarrow> task_manager" where
  "queue_apply (AddTask t cb) q = fst (add_task t cb q)"
| "queue_apply WorkerCheck q = worker_check q"
| "queue_apply WorkerGet q = worker_get q"
| "queue_apply WorkerRun q = worker_run q"
| "queue_apply (SetExecutor ex) q = set_executor ex q"
| "queue_apply StopManager q = tm_stop q"

subsection \<open>Specification: a log of accepted tasks with two cursors\<close>

text \<open>What clients rely on: accepted tasks form a log; the worker starts them in that order, one at a time, and
  never again; a task is accepted exactly when fewer than the bound wait.\<close>

record job_log =
  jl_bound :: nat
  jl_accepted :: "pydict list"
  jl_started :: nat
  jl_finished :: nat
  jl_stopped :: bool
  jl_armed :: bool

fun spec_apply :: "queue_step \<Rightarrow> job_log \<Rightarrow> job_log" where
  "spec_apply (AddTask t cb) l =
     (if length (jl_accepted l) - jl_started l < jl_bound l then l\<lparr>jl_accepted := jl_accepted l @ [t]\<rparr> else l)"
| "spec_apply WorkerCheck l = (if jl_stopped l \<or> jl_finished l < jl_started l then l else l\<lparr>jl_armed := True\<rparr>)"
| "spec_apply WorkerGet l =
     (if jl_armed l
      then l\<lparr>jl_armed := False, jl_started := jl_started l + (if jl_started l < length (jl_accepted l) then 1 else 0)\<rparr>
      else l)"
| "spec_apply WorkerRun l =
     (if jl_finished l < jl_started l then l\<lparr>jl_finished := jl_finished l + 1\<rparr> else l)"
| "spec_apply (SetExecutor ex) l = l"
| "spec_apply StopManager l = l\<lparr>jl_stopped := True\<rparr>"

definition held :: "task_manager \<Rightarrow> pydict list" where
  "held q = (case tq_current q of None \<Rightarrow> [] | Some (t, _) \<Rightarrow> [t])"

definition queue_abs :: "task_manager \<Rightarrow> job_log" where
  "queue_abs q =
     \<lparr>jl_bound = tq_maxsize q, jl_accepted = map fst (tq_done q) @ held q @ map fst (tq_queue q),
      jl_started = length (tq_done q) + length (held q), jl_finished = length (tq_done q), jl_stopped = tq_stop q, jl_armed = tq_waiting q\<rparr>"

definition queue_inv :: "task_manager \<Rightarrow> bool" where
  "queue_inv q \<longleftrightarrow> 0 < tq_maxsize q \<and> length (tq_queue q) \<le> tq_maxsize q \<and>
     tq_unfinished q = length (held q) + length (tq_queue q) \<and> (tq_waiting q \<longrightarrow> tq_current q = None)"

lemmas queue_defs = add_task_def worker_check_def worker_get_def worker_run_def set_executor_def tm_stop_def held_def Let_def

lemma queue_apply_inv: "queue_inv q \<Longrightarrow> queue_inv (queue_apply p q)"
  by (cases p) (auto simp: queue_inv_def queue_defs split: option.splits list.splits sum.splits prod.splits)

lemma queue_apply_sim: "queue_inv q \<Longrightarrow> queue_abs (queue_apply p q) = spec_apply p (queue_abs q)"
  by (cases p) (auto simp: queue_inv_def queue_abs_def queue_defs split: option.splits list.splits sum.splits prod.splits)

interpretation tq: functional_refinement queue_apply queue_inv spec_apply queue_abs
  by unfold_locales (auto simp: queue_apply_inv queue_apply_sim)

text \<open>C11: the queue with its worker implements a log of accepted tasks with two cursors. Whatever the interleaving
  of producers, the worker, a change of executor, failing tasks, failing callbacks and a stop, the tasks completed, in hand and
  waiting are the accepted ones in the order of acceptance, one is in hand at most, and a task is accepted exactly
  when fewer than the bound wait.\<close>

theorem queue_refines_log:
  "queue_abs (run_ops queue_apply ps (new_task_manager n)) =
     run_ops spec_apply ps \<lparr>jl_bound = nat (max 1 n), jl_accepted = [], jl_started = 0, jl_finished = 0, jl_stopped = False,
       jl_armed = False\<rparr>"
proof -
  have "queue_inv (new_task_manager n)"
    by (simp add: queue_inv_def new_task_manager_def held_def)
  from tq.run_refines [OF this, of ps] show ?thesis
    by (simp add: queue_abs_def new_task_manager_def held_def)
qed

subsection \<open>The worker\<close>

fun outcome_of :: "string + pyval \<Rightarrow> outcome" where
  "outcome_of (Inl e) = Failed e"
| "outcome_of (Inr r) = Result r"

lemma worker_pass:
  assumes "\<not> tq_stop q" "tq_current q = None" "tq_queue q = (t, cb) # rest"
    and "q' = run_ops queue_apply [WorkerCheck, WorkerGet, WorkerRun] q"
  shows "tq_queue q' = rest" "tq_current q' = None" "\<not> tq_stop q'" "tq_executor q' = tq_executor q"
    "tq_done q' = tq_done q @ [(t, outcome_of (tm_execute_task t q))]"
proof -
  have "tm_execute_task t (q\<lparr>tq_waiting := False, tq_queue := rest, tq_current := Some (t, cb)\<rparr>) = tm_execute_task t q"
    by (simp add: tm_execute_task_def)
  with assms show "tq_queue q' = rest" "tq_current q' = None" "\<not> tq_stop q'" "tq_executor q' = tq_executor q"
    "tq_done q' = tq_done q @ [(t, outcome_of (tm_execute_task t q))]"
    by (simp_all add: worker_check_def worker_get_def worker_run_def Let_def split: sum.splits option.splits)
qed

text \<open>The worker survives and drains the queue. From a running manager whose worker is at the top of its loop, as
  many passes as there are waiting tasks empty the queue and execute every waiting task exactly once, in order, with
  the attached executor, whatever tasks or callbacks raise; without an executor each is refused.\<close>

theorem queue_drains:
  assumes "\<not> tq_stop q" "tq_current q = None"
  shows "let q' = run_ops queue_apply (concat (replicate (length (tq_queue q)) [WorkerCheck, WorkerGet, WorkerRun])) q in
     tq_queue q' = [] \<and> tq_current q' = None \<and>
     tq_done q' = tq_done q @ map (\<lambda>(t, _). (t, outcome_of (tm_execute_task t q))) (tq_queue q)"
  using assms
proof (induction "tq_queue q" arbitrary: q)
  case Nil
  then show ?case by simp
next
  case (Cons item rest)
  obtain t cb where item: "item = (t, cb)" by (cases item)
  define q1 where "q1 = run_ops queue_apply [WorkerCheck, WorkerGet, WorkerRun] q"
  have q: "tq_queue q = (t, cb) # rest" using Cons(2) item by simp
  note pass = worker_pass [OF Cons(3,4) q q1_def]
  have ex: "tm_execute_task u q1 = tm_execute_task u q" for u by (simp add: tm_execute_task_def pass)
  have "run_ops queue_apply (concat (replicate (length (tq_queue q)) [WorkerCheck, WorkerGet, WorkerRun])) q =
      run_ops queue_apply (concat (replicate (length (tq_queue q1)) [WorkerCheck, WorkerGet, WorkerRun])) q1"
    unfolding pass(1) by (simp add: q q1_def)
  with Cons(1) [of q1] show ?case
    by (simp add: Let_def q pass ex)
qed

definition two_waiting :: task_manager where
  "two_waiting = run_ops queue_apply [AddTask [(''n'', PInt 1)] None, AddTask [(''n'', PInt 2)] None,
     SetExecutor (\<lambda>t. if dget t ''n'' = PInt 1 then Inl ''ValueError'' else Inr (PStr ''ok''))] (new_task_manager 5)"

theorem queue_drains_witness:
  "tq_done (run_ops queue_apply [WorkerCheck, WorkerGet, WorkerRun, WorkerCheck, WorkerGet, WorkerRun] two_waiting) =
     [([(''n'', PInt 1)], Failed ''ValueError''), ([(''n'', PInt 2)], Result (PStr ''ok''))]"
proof -
  have q: "tq_queue two_waiting = [([(''n'', PInt 1)], None), ([(''n'', PInt 2)], None)]" "\<not> tq_stop two_waiting"
    "tq_current two_waiting = None" "tq_done two_waiting = []"
    "tm_execute_task [(''n'', PInt 1)] two_waiting = Inl ''ValueError''"
    "tm_execute_task [(''n'', PInt 2)] two_waiting = Inr (PStr ''ok'')"
    by (simp_all add: two_waiting_def new_task_manager_def queue_defs tm_execute_task_def dget_def)
  from queue_drains [OF q(2,3)] show ?thesis by (simp add: Let_def q numeral_2_eq_2 del: run_ops.simps)
qed

definition wound_down :: "nat \<Rightarrow> job_log \<Rightarrow> bool" where
  "wound_down n l \<longleftrightarrow> jl_stopped l \<and> jl_started l + (if jl_armed l then 1 else 0) \<le> n"

lemma wound_down_step: "wound_down n l \<Longrightarrow> wound_down n (spec_apply p l)"
  by (cases p) (auto simp: wound_down_def)

text \<open>Stopping is prompt. After \<open>stop\<close>, however the run goes on, at most one further task is started, and none
  unless the worker had already passed its test of the stop flag; what waits stays in the queue.\<close>

theorem stop_is_prompt:
  assumes "queue_inv q"
  shows "jl_started (queue_abs (run_ops queue_apply ps (tm_stop q))) \<le>
     jl_started (queue_abs q) + (if tq_waiting q then 1 else 0)"
proof -
  have inv: "queue_inv (tm_stop q)" using queue_apply_inv [OF assms, of StopManager] by simp
  have "wound_down (jl_started (queue_abs q) + (if tq_waiting q then 1 else 0)) (queue_abs (tm_stop q))"
    by (simp add: wound_down_def tm_stop_def queue_abs_def held_def)
  from tq.spec_invariant [OF inv wound_down_step this, of ps] show ?thesis
    by (auto simp: wound_down_def split: if_splits)
qed

theorem stop_is_prompt_witness:
  "jl_started (queue_abs (run_ops queue_apply [WorkerCheck, WorkerGet, WorkerRun] (tm_stop two_waiting))) \<le> 0"
proof -
  have "queue_inv two_waiting" "jl_started (queue_abs two_waiting) = 0" "\<not> tq_waiting two_waiting"
    by (simp_all add: two_waiting_def new_task_manager_def queue_inv_def queue_abs_def queue_defs)
  with stop_is_prompt [of two_waiting] show ?thesis by (metis (full_types) add.right_neutral)
qed

text \<open>The one further task is possible: a worker that waits in \<open>get\<close> takes a task added after the stop.\<close>

theorem stopped_manager_runs_late_task:
  "tq_done (run_ops queue_apply [WorkerCheck, StopManager, AddTask t None, WorkerGet, WorkerRun] (new_task_manager 1)) =
     [(t, Result refused_no_executor)]"
  by (simp add: new_task_manager_def queue_defs tm_execute_task_def)

end
