(* ===== verification/Attention_Layer.thy ===== *)
theory Attention_Layer
  imports Policy
begin

text \<open>
  The attention layer, \<open>src/attention_layer.py\<close>: perception signals with their time stamps, the state
  machine that fuses the fresh ones into an attention verdict, the attribution of speech, the intent
  buffer, and the gate that skips regenerating a decision for an unchanged observation. Times are
  seconds and windows milliseconds, as in the code; every reading of the clock is an argument.
  Confidences are the rational numbers the code writes. The verdict reaches the engine as the attention
  state of the task's context, where \<open>Policy.has_grant_for_attended_action\<close> reads it.
\<close>

subsection \<open>Wake words\<close>

definition WAKE_PREFIXES :: "string list" where
  "WAKE_PREFIXES = [''shugo'', ''hey shugo'', ''ok shugo'', ''okay shugo'']"

definition is_wake_word_call :: "string \<Rightarrow> bool" where
  "is_wake_word_call s =
     (let t = join_sep '' '' (py_words (py_lower (py_strip s))) in
      list_ex (\<lambda>p. t = p \<or> py_startswith t (p @ '' '') \<or> py_startswith t (p @ '','')) WAKE_PREFIXES)"

subsection \<open>State\<close>

datatype attention_state = UNKNOWN | ABSENT | ATTENDING | DIVERTED

fun attention_value :: "attention_state \<Rightarrow> string" where
  "attention_value UNKNOWN = ''unknown''"
| "attention_value ABSENT = ''absent''"
| "attention_value ATTENDING = ''attending''"
| "attention_value DIVERTED = ''diverted''"

datatype speech_source =
    SS_NONE
  | PERSON_PRESENT_SILENT
  | VERIFIED_PERSON
  | UNATTRIBUTED_AUDIO
  | INSTRUCTION_DIRECTED
  | PERSON_TALKING
  | PERSON_PRESENT_AMBIENT_NOISE
  | AMBIENT_NOISE

record heard =
  hd_transcript :: string
  hd_confidence :: real
  hd_ts :: real

record attention =
  at_face_window :: real
  at_speech_window :: real
  at_gaze_window :: real
  at_directed_window :: real
  at_stale_timeout :: real
  at_dedup_window :: real
  at_obs_hash :: "string option"
  at_obs_ts :: real
  at_face :: bool
  at_face_ts :: real
  at_gaze :: "bool option"
  at_gaze_ts :: real
  at_speech :: bool
  at_speech_ts :: real
  at_directed :: "bool option"
  at_directed_ts :: real
  at_tts :: bool
  at_voice :: bool
  at_voice_ts :: real
  at_transcript :: string
  at_is_call :: bool
  at_state :: attention_state
  at_changed_ts :: real
  at_confidence :: real
  at_buffer :: "heard list"

text \<open>The windows are configurable; the defaults are 8, 15, 5, 10 and 30 seconds.\<close>

definition new_attention :: "real \<Rightarrow> real \<Rightarrow> real \<Rightarrow> real \<Rightarrow> real \<Rightarrow> real \<Rightarrow> attention" where
  "new_attention face_window speech_window gaze_window directed_window stale_timeout now =
     \<lparr>at_face_window = face_window, at_speech_window = speech_window, at_gaze_window = gaze_window,
      at_directed_window = directed_window, at_stale_timeout = stale_timeout,
      at_dedup_window = 30, at_obs_hash = None, at_obs_ts = 0,
      at_face = False, at_face_ts = 0, at_gaze = None, at_gaze_ts = 0, at_speech = False, at_speech_ts = 0,
      at_directed = None, at_directed_ts = 0, at_tts = False, at_voice = False, at_voice_ts = 0,
      at_transcript = [], at_is_call = False, at_state = UNKNOWN, at_changed_ts = now,
      at_confidence = 0, at_buffer = []\<rparr>"

subsection \<open>Signals\<close>

definition stamp_face :: "real \<Rightarrow> int \<Rightarrow> bool option \<Rightarrow> attention \<Rightarrow> attention" where
  "stamp_face now face_count gaze a =
     (let a1 = a\<lparr>at_face := face_count > 0, at_face_ts := now\<rparr> in
      case gaze of None \<Rightarrow> a1 | Some g \<Rightarrow> a1\<lparr>at_gaze := Some g, at_gaze_ts := now\<rparr>)"

definition stamp_speech :: "real \<Rightarrow> string \<Rightarrow> bool option \<Rightarrow> attention \<Rightarrow> attention" where
  "stamp_speech now transcript directed a =
     (let a1 = a\<lparr>at_speech := transcript \<noteq> [], at_speech_ts := now, at_transcript := transcript,
                at_is_call := is_wake_word_call transcript\<rparr> in
      case directed of None \<Rightarrow> a1 | Some d \<Rightarrow> a1\<lparr>at_directed := Some d, at_directed_ts := now\<rparr>)"

definition stamp_voice :: "real \<Rightarrow> bool \<Rightarrow> attention \<Rightarrow> attention" where
  "stamp_voice now active a = a\<lparr>at_voice := active, at_voice_ts := now\<rparr>"

definition stamp_tts :: "bool \<Rightarrow> attention \<Rightarrow> attention" where
  "stamp_tts speaking a = a\<lparr>at_tts := speaking\<rparr>"

definition age_ms :: "real \<Rightarrow> real \<Rightarrow> real" where
  "age_ms now ts = (now - ts) * 1000"

definition face_fresh :: "real \<Rightarrow> attention \<Rightarrow> bool" where
  "face_fresh now a = (at_face a \<and> age_ms now (at_face_ts a) < at_face_window a)"

definition gaze_fresh :: "real \<Rightarrow> attention \<Rightarrow> bool" where
  "gaze_fresh now a = (at_gaze a \<noteq> None \<and> age_ms now (at_gaze_ts a) < at_gaze_window a)"

definition speech_fresh :: "real \<Rightarrow> attention \<Rightarrow> bool" where
  "speech_fresh now a = (at_speech a \<and> age_ms now (at_speech_ts a) < at_speech_window a)"

definition voice_fresh :: "real \<Rightarrow> attention \<Rightarrow> bool" where
  "voice_fresh now a = (at_voice a \<and> age_ms now (at_voice_ts a) < at_speech_window a)"

definition directed_fresh :: "real \<Rightarrow> attention \<Rightarrow> bool" where
  "directed_fresh now a = (at_directed a \<noteq> None \<and> age_ms now (at_directed_ts a) < at_directed_window a)"

definition any_fresh :: "real \<Rightarrow> attention \<Rightarrow> bool" where
  "any_fresh now a = (face_fresh now a \<or> speech_fresh now a \<or> gaze_fresh now a \<or>
     directed_fresh now a \<or> voice_fresh now a)"

definition gaze_now :: "real \<Rightarrow> attention \<Rightarrow> bool option" where
  "gaze_now now a = (if gaze_fresh now a then at_gaze a else None)"

definition directed_now :: "real \<Rightarrow> attention \<Rightarrow> bool option" where
  "directed_now now a = (if directed_fresh now a then at_directed a else None)"

subsection \<open>The state machine\<close>

definition transition_to :: "real \<Rightarrow> attention_state \<Rightarrow> attention \<Rightarrow> attention" where
  "transition_to now s a =
     (let a1 = a\<lparr>at_state := s, at_changed_ts := now\<rparr> in
      if s \<noteq> ATTENDING then a1\<lparr>at_buffer := []\<rparr> else a1)"

text \<open>The new state and confidence from the signals that are fresh.\<close>

definition fuse :: "real \<Rightarrow> attention \<Rightarrow> attention_state \<times> real" where
  "fuse now a =
     (if \<not> any_fresh now a then (if at_state a \<noteq> UNKNOWN then UNKNOWN else at_state a, 0)
      else if face_fresh now a
      then let gaze = gaze_now now a; directed = directed_now now a in
        if gaze = Some True \<or> directed = Some True
        then (ATTENDING, min 1 ((1 + (if gaze = Some True then 1 else 0) + (if directed = Some True then 1 else 0)) / 3))
        else if gaze = Some False \<and> speech_fresh now a then (DIVERTED, 4/10)
        else if at_state a = ATTENDING then (DIVERTED, 3/10)
        else (ATTENDING, 3/10)
      else if speech_fresh now a
      then if at_is_call a then (ATTENDING, 1/2)
           else (if at_state a = ATTENDING then DIVERTED else at_state a, 2/10)
      else (at_state a, 0))"

definition expire :: "real \<Rightarrow> real \<Rightarrow> attention \<Rightarrow> attention" where
  "expire now t1 a =
     (if \<not> any_fresh now a \<and> age_ms now (at_changed_ts a) > at_stale_timeout a then transition_to t1 UNKNOWN a else a)"

text \<open>\<open>now\<close> is the reading at the start, \<open>t1\<close> and \<open>t2\<close> those of the transitions.\<close>

definition evaluate :: "real \<Rightarrow> real \<Rightarrow> real \<Rightarrow> attention \<Rightarrow> attention \<times> (attention_state \<times> real)" where
  "evaluate now t1 t2 a =
     (let a1 = expire now t1 a;
          (s, conf) = fuse now a1;
          a2 = (if s \<noteq> at_state a1 then transition_to t2 s a1 else a1);
          a3 = a2\<lparr>at_confidence := conf\<rparr>
      in (a3, (at_state a3, conf)))"

subsection \<open>Attribution of speech\<close>

definition classify_speech :: "real \<Rightarrow> attention \<Rightarrow> speech_source \<times> real" where
  "classify_speech now a =
     (let visible = face_fresh now a;
          engaged = (gaze_now now a = Some True \<or> directed_now now a = Some True) in
      if speech_fresh now a
      then if at_is_call a then (INSTRUCTION_DIRECTED, if visible \<and> engaged then 95/100 else 85/100)
           else if visible \<and> engaged then (VERIFIED_PERSON, 9/10)
           else if visible
           then if gaze_now now a = Some False then (UNATTRIBUTED_AUDIO, 8/10) else (PERSON_TALKING, 7/10)
           else (UNATTRIBUTED_AUDIO, 6/10)
      else if voice_fresh now a
      then (if visible then PERSON_PRESENT_AMBIENT_NOISE else AMBIENT_NOISE, 7/10)
      else if visible then (PERSON_PRESENT_SILENT, 9/10)
      else (SS_NONE, 1))"

record speech_view =
  sv_source :: speech_source
  sv_confidence :: real
  sv_face_fresh :: bool
  sv_speech_fresh :: bool
  sv_voice_fresh :: bool
  sv_gaze :: "bool option"

definition speech_source_of :: "real \<Rightarrow> attention \<Rightarrow> speech_view" where
  "speech_source_of now a =
     (let (source, confidence) = classify_speech now a in
      \<lparr>sv_source = source, sv_confidence = py_round 2 confidence, sv_face_fresh = face_fresh now a,
       sv_speech_fresh = speech_fresh now a, sv_voice_fresh = voice_fresh now a, sv_gaze = gaze_now now a\<rparr>)"

subsection \<open>Intent\<close>

definition record_directed_speech :: "real \<Rightarrow> string \<Rightarrow> real \<Rightarrow> attention \<Rightarrow> attention" where
  "record_directed_speech now transcript confidence a =
     (if at_state a = ATTENDING
      then a\<lparr>at_buffer := at_buffer a @ [\<lparr>hd_transcript = transcript, hd_confidence = confidence, hd_ts = now\<rparr>]\<rparr>
      else a)"

record intent =
  in_subject :: "string option"
  in_verb :: "string option"
  in_window_s :: real

definition extract_intent :: "real \<Rightarrow> attention \<Rightarrow> intent" where
  "extract_intent now a =
     (if at_buffer a = [] then \<lparr>in_subject = None, in_verb = None, in_window_s = 0\<rparr>
      else let ws = py_words (py_lower (py_strip (hd_transcript (last (at_buffer a)))));
               window_s = py_round 1 (now - hd_ts (hd (at_buffer a)))
           in if length ws \<ge> 3
              then \<lparr>in_subject = Some (last ws),
                    in_verb = Some (if hd ws \<in> {''can'', ''please'', ''i'', ''shugo''} then ws ! 1 else hd ws),
                    in_window_s = window_s\<rparr>
              else \<lparr>in_subject = None, in_verb = None, in_window_s = window_s\<rparr>)"

subsection \<open>The skip gate\<close>

definition observation_slice :: "pyval \<Rightarrow> pyval" where
  "observation_slice observation =
     (let obs = as_dict observation; human = as_dict (dget obs ''human'');
          attention = as_dict (dget obs ''attention'')
      in PDict
        [(''speech_source'', PStr (py_str (dget_default human ''speech_source'' (PStr ''none'')))),
         (''face_count'', dget_default human ''face_count'' (PInt 0)),
         (''speech_recent'', PStr (take 200 (py_strip (py_str (dget_default human ''speech_recent'' (PStr [])))))),
         (''attention_state'', PStr (py_str (dget_default attention ''attention_state'' (PStr ''unknown'')))),
         (''scene_verdict'', PStr (take 64 (py_strip (py_str (dget_default obs ''scene_verdict'' (PStr [])))))),
         (''mesh_peer_count'', dget_default obs ''mesh_peer_count'' (PInt 0))])"

definition observation_hash :: "(string \<Rightarrow> string) \<Rightarrow> pyval \<Rightarrow> string" where
  "observation_hash H observation = take 32 (canonical_hash H (observation_slice observation))"

definition spoken :: "pyval \<Rightarrow> bool" where
  "spoken v = (case v of PStr s \<Rightarrow> py_strip s \<noteq> [] | _ \<Rightarrow> False)"

definition has_fresh_signals :: "pyval \<Rightarrow> bool" where
  "has_fresh_signals observation =
     (case observation of
        PDict obs \<Rightarrow>
          (case dget obs ''human'' of
             PDict human \<Rightarrow> spoken (dget_default human ''speech_recent'' (PStr [])) \<or>
               dget human ''speech_source'' \<in> {PStr ''instruction_directed'', PStr ''verified_person''}
           | _ \<Rightarrow> False)
          \<or> spoken (dget obs ''transcript'')
          \<or> (case dget obs ''events'' of PList es \<Rightarrow> es \<noteq> [] | _ \<Rightarrow> False)
      | _ \<Rightarrow> True)"

definition should_regenerate :: "(string \<Rightarrow> string) \<Rightarrow> real \<Rightarrow> pyval \<Rightarrow> real option \<Rightarrow> attention \<Rightarrow> bool \<times> string" where
  "should_regenerate H now observation window_s a =
     (let window = (case window_s of None \<Rightarrow> at_dedup_window a | Some w \<Rightarrow> max 0 w) in
      case at_obs_hash a of
        None \<Rightarrow> (True, ''first_observation'')
      | Some last_hash \<Rightarrow>
          if has_fresh_signals observation then (True, ''fresh_signals'')
          else if observation_hash H observation \<noteq> last_hash then (True, ''observation_changed'')
          else if now - at_obs_ts a \<ge> window then (True, ''dedup_window_elapsed'')
          else (False, ''observation_unchanged''))"

definition mark_regenerated :: "(string \<Rightarrow> string) \<Rightarrow> real \<Rightarrow> pyval \<Rightarrow> attention \<Rightarrow> attention" where
  "mark_regenerated H now observation a =
     a\<lparr>at_obs_hash := Some (observation_hash H observation), at_obs_ts := now\<rparr>"

record attention_snapshot =
  an_state :: string
  an_confidence :: real
  an_face :: bool
  an_gaze :: "bool option"
  an_directed :: "bool option"
  an_tts :: bool
  an_changed_ts :: real
  an_speech_count :: nat
  an_source :: speech_source
  an_source_conf :: real
  an_fresh :: "bool list"

definition snapshot :: "real \<Rightarrow> attention \<Rightarrow> attention_snapshot" where
  "snapshot now a =
     (let (source, conf) = classify_speech now a in
      \<lparr>an_state = attention_value (at_state a), an_confidence = py_round 2 (at_confidence a), an_face = at_face a,
       an_gaze = at_gaze a, an_directed = at_directed a, an_tts = at_tts a, an_changed_ts = at_changed_ts a,
       an_speech_count = length (at_buffer a), an_source = source, an_source_conf = py_round 2 conf,
       an_fresh = [voice_fresh now a, face_fresh now a, speech_fresh now a, gaze_fresh now a]\<rparr>)"

subsection \<open>Evaluation depends on the fresh signals only\<close>

lemmas fresh_defs = any_fresh_def face_fresh_def gaze_fresh_def speech_fresh_def voice_fresh_def directed_fresh_def
  gaze_now_def directed_now_def

lemma fresh_transition [simp]:
  "any_fresh now (transition_to t s a) = any_fresh now a"
  "face_fresh now (transition_to t s a) = face_fresh now a"
  "speech_fresh now (transition_to t s a) = speech_fresh now a"
  "gaze_now now (transition_to t s a) = gaze_now now a"
  "directed_now now (transition_to t s a) = directed_now now a"
  "at_is_call (transition_to t s a) = at_is_call a"
  "at_state (transition_to t s a) = s"
  by (simp_all add: transition_to_def Let_def fresh_defs)

lemma evaluate_state: "at_state (fst (evaluate now t1 t2 a)) = fst (fuse now a)"
  and evaluate_result: "snd (evaluate now t1 t2 a) = fuse now a"
  by (auto simp: evaluate_def expire_def Let_def fuse_def split: prod.split)

lemma transition_to_eq:
  "transition_to t s a = a\<lparr>at_state := s, at_changed_ts := t, at_buffer := (if s = ATTENDING then at_buffer a else [])\<rparr>"
  by (simp add: transition_to_def Let_def)

lemma evaluate_frame:
  obtains c b where "fst (evaluate now t1 t2 a) =
      a\<lparr>at_state := fst (fuse now a), at_changed_ts := c, at_buffer := b, at_confidence := snd (fuse now a)\<rparr>"
    and "at_state a = fst (fuse now a) \<and> b = at_buffer a \<or> b = [] \<or> fst (fuse now a) = ATTENDING"
proof -
  define a1 where "a1 = expire now t1 a"
  define s where "s = fst (fuse now a)"
  obtain c1 b1 where a1: "a1 = a\<lparr>at_state := at_state a1, at_changed_ts := c1, at_buffer := b1\<rparr>"
    and b1: "b1 = at_buffer a \<and> at_state a1 = at_state a \<or> b1 = []"
  proof (cases "a1 = a")
    case True
    then show thesis by (intro that [of "at_buffer a" "at_changed_ts a"]) simp_all
  next
    case False
    then have "a1 = a\<lparr>at_state := UNKNOWN, at_changed_ts := t1, at_buffer := []\<rparr>"
      by (simp add: a1_def expire_def transition_to_eq split: if_splits)
    then show thesis by (intro that [of "[]" t1]) simp_all
  qed
  have fuse: "fuse now a1 = fuse now a"
    by (auto simp: a1_def expire_def fuse_def Let_def)
  have ev: "fst (evaluate now t1 t2 a) = (if s \<noteq> at_state a1 then transition_to t2 s a1 else a1)\<lparr>at_confidence := snd (fuse now a)\<rparr>"
    by (simp add: evaluate_def Let_def fuse a1_def [symmetric] s_def split: prod.split)
  show thesis
  proof (cases "s = at_state a1")
    case True
    then have "fst (evaluate now t1 t2 a) =
        a\<lparr>at_state := s, at_changed_ts := c1, at_buffer := b1, at_confidence := snd (fuse now a)\<rparr>"
      by (subst ev, subst a1) simp
    with b1 True show ?thesis by (intro that) (auto simp: s_def)
  next
    case False
    then have "fst (evaluate now t1 t2 a) =
        a\<lparr>at_state := s, at_changed_ts := t2, at_buffer := (if s = ATTENDING then b1 else []), at_confidence := snd (fuse now a)\<rparr>"
      by (subst ev, subst a1) (simp add: transition_to_eq)
    then show ?thesis by (intro that) (auto simp: s_def split: if_splits)
  qed
qed

lemma evaluate_signals [simp]:
  "any_fresh n (fst (evaluate now t1 t2 a)) = any_fresh n a"
  "face_fresh n (fst (evaluate now t1 t2 a)) = face_fresh n a"
  "speech_fresh n (fst (evaluate now t1 t2 a)) = speech_fresh n a"
  "gaze_now n (fst (evaluate now t1 t2 a)) = gaze_now n a"
  "directed_now n (fst (evaluate now t1 t2 a)) = directed_now n a"
  by (rule evaluate_frame [of now t1 t2 a]; simp add: fresh_defs)+

subsection \<open>The verdict\<close>


subsection \<open>The invariant\<close>

text \<open>What was heard is kept during attention only, the flags of the last transcript describe it, and the
  confidence is a probability. The state ABSENT is never entered.\<close>

definition attention_inv :: "attention \<Rightarrow> bool" where
  "attention_inv a \<longleftrightarrow> at_state a \<noteq> ABSENT \<and> (at_state a \<noteq> ATTENDING \<longrightarrow> at_buffer a = []) \<and>
     at_is_call a = is_wake_word_call (at_transcript a) \<and> at_speech a = (at_transcript a \<noteq> []) \<and>
     0 \<le> at_confidence a \<and> at_confidence a \<le> 1"

datatype attention_op =
    Face real int "bool option"
  | Words real string "bool option"
  | Voice real bool
  | Tts bool
  | Evaluate real real real
  | Directed real string real
  | Regenerated "string \<Rightarrow> string" real pyval

fun attention_apply :: "attention_op \<Rightarrow> attention \<Rightarrow> attention" where
  "attention_apply (Face now n g) a = stamp_face now n g a"
| "attention_apply (Words now s d) a = stamp_speech now s d a"
| "attention_apply (Voice now b) a = stamp_voice now b a"
| "attention_apply (Tts b) a = stamp_tts b a"
| "attention_apply (Evaluate now t1 t2) a = fst (evaluate now t1 t2 a)"
| "attention_apply (Directed now s c) a = record_directed_speech now s c a"
| "attention_apply (Regenerated H now ob) a = mark_regenerated H now ob a"

lemma fuse_confidence: "0 \<le> snd (fuse now a) \<and> snd (fuse now a) \<le> 1"
  by (simp add: fuse_def Let_def)

lemma fuse_not_absent: "at_state a \<noteq> ABSENT \<Longrightarrow> fst (fuse now a) \<noteq> ABSENT"
  by (simp add: fuse_def Let_def)

lemma evaluate_inv: "attention_inv a \<Longrightarrow> attention_inv (fst (evaluate now t1 t2 a))"
  by (rule evaluate_frame [of now t1 t2 a])
     (use fuse_confidence [of now a] fuse_not_absent [of a now] in \<open>auto simp: attention_inv_def\<close>)

lemma attention_apply_inv: "attention_inv a \<Longrightarrow> attention_inv (attention_apply p a)"
proof (cases p)
  case (Evaluate now t1 t2)
  then show "attention_inv a \<Longrightarrow> ?thesis" by (simp add: evaluate_inv)
qed (simp_all add: attention_inv_def stamp_face_def stamp_voice_def stamp_tts_def stamp_speech_def
       record_directed_speech_def mark_regenerated_def Let_def split: option.splits)

interpretation att: invariant_machine attention_apply attention_inv
  by unfold_locales (rule attention_apply_inv)

lemma new_attention_inv: "attention_inv (new_attention w1 w2 w3 w4 w5 now)"
  by (simp add: attention_inv_def new_attention_def is_wake_word_call_def WAKE_PREFIXES_def py_words_def
      py_strip_def strip_by_def py_lower_def join_sep_def py_startswith_def)

text \<open>The attention machine keeps its invariant in every history: what was heard is buffered during attention
  only, the wake-word flag is that of the last transcript, the confidence is a probability, and the verdict is never
  ABSENT (so the fail-closed treatment that the module documents for ABSENT is not reachable through it).\<close>

theorem attention_invariant:
  "attention_inv (run_ops attention_apply ps (new_attention w1 w2 w3 w4 w5 now))"
  by (rule att.inv_run) (rule new_attention_inv)

text \<open>Stale signals decay. In every history, an evaluation at a time when no signal is fresh gives UNKNOWN with
  confidence 0, and forgets what was heard in an earlier window of attention.\<close>

theorem stale_signals_decay:
  assumes "a = run_ops attention_apply ps (new_attention w1 w2 w3 w4 w5 start)"
    and "\<not> any_fresh now a"
  shows "snd (evaluate now t1 t2 a) = (UNKNOWN, 0) \<and> at_buffer (fst (evaluate now t1 t2 a)) = []"
proof -
  have "attention_inv a" using assms(1) att.inv_run [OF new_attention_inv] by simp
  then have "attention_inv (fst (evaluate now t1 t2 a))" by (rule evaluate_inv)
  moreover from assms(2) have "snd (evaluate now t1 t2 a) = (UNKNOWN, 0)"
    by (simp add: evaluate_result fuse_def)
  ultimately show ?thesis
    by (auto simp: attention_inv_def evaluate_state evaluate_result)
qed

definition sees_face :: attention where
  "sees_face = run_ops attention_apply [Face 100 1 None] (new_attention 8000 15000 5000 10000 30000 100)"

lemma sees_face_simps:
  "at_state sees_face = UNKNOWN"
  "face_fresh now sees_face \<longleftrightarrow> (now - 100) * 1000 < 8000"
  "\<not> speech_fresh now sees_face" "\<not> voice_fresh now sees_face" "\<not> gaze_fresh now sees_face"
  "\<not> directed_fresh now sees_face" "gaze_now now sees_face = None" "directed_now now sees_face = None"
  by (simp_all add: sees_face_def stamp_face_def new_attention_def Let_def fresh_defs age_ms_def)

theorem stale_signals_decay_witness:
  "snd (evaluate 109 109 109 sees_face) = (UNKNOWN, 0) \<and> at_buffer (fst (evaluate 109 109 109 sees_face)) = []"
  by (rule stale_signals_decay [OF sees_face_def]) (simp add: any_fresh_def sees_face_simps)

text \<open>Evaluating is not idempotent. While a face is the only fresh evidence, the verdict alternates: an evaluation
  that leaves the state ATTENDING is followed by one that makes it DIVERTED, and conversely, although nothing was
  observed in between. The docstring says that evaluating is idempotent; consent for attended actions comes and goes
  with the parity of the number of evaluations.\<close>

theorem face_only_verdict_alternates:
  assumes "face_fresh now a" "face_fresh now' a"
    and "gaze_now now a = None" "directed_now now a = None" "gaze_now now' a = None" "directed_now now' a = None"
  shows "fst (snd (evaluate now' t3 t4 (fst (evaluate now t1 t2 a)))) =
           (if at_state a = ATTENDING then ATTENDING else DIVERTED)
       \<and> fst (snd (evaluate now t1 t2 a)) = (if at_state a = ATTENDING then DIVERTED else ATTENDING)"
proof -
  have "fst (fuse n b) = (if at_state b = ATTENDING then DIVERTED else ATTENDING)"
    if "face_fresh n b" "gaze_now n b = None" "directed_now n b = None" for n b
    using that by (auto simp: fuse_def any_fresh_def Let_def)
  with assms show ?thesis by (simp add: evaluate_result evaluate_state)
qed

theorem face_only_verdict_alternates_witness:
  "fst (snd (evaluate 101 101 101 sees_face)) = ATTENDING \<and>
   fst (snd (evaluate 102 102 102 (fst (evaluate 101 101 101 sees_face)))) = DIVERTED"
  using face_only_verdict_alternates [of 101 sees_face 102 102 102 101 101] by (simp add: sees_face_simps)

subsection \<open>Speech\<close>

text \<open>Energy is never speech. A classification that attributes speech to somebody (an instruction, a verified or
  probable talker, unattributed words) rests on a fresh transcript with words; an instruction rests on words that call
  the agent by name. And a verified person is attending: the next evaluation at that time says so.\<close>

theorem attributed_speech_has_words:
  assumes "a = run_ops attention_apply ps (new_attention w1 w2 w3 w4 w5 start)"
    and "fst (classify_speech now a) = src"
  shows "(src \<in> {INSTRUCTION_DIRECTED, VERIFIED_PERSON, PERSON_TALKING, UNATTRIBUTED_AUDIO} \<longrightarrow> at_transcript a \<noteq> [])
       \<and> (src = INSTRUCTION_DIRECTED \<longrightarrow> is_wake_word_call (at_transcript a))
       \<and> (src = VERIFIED_PERSON \<longrightarrow> fst (snd (evaluate now t1 t2 a)) = ATTENDING)"
proof -
  have inv: "attention_inv a" using assms(1) att.inv_run [OF new_attention_inv] by simp
  then have words: "speech_fresh now a \<longrightarrow> at_transcript a \<noteq> []" "at_is_call a = is_wake_word_call (at_transcript a)"
    by (auto simp: attention_inv_def speech_fresh_def)
  from assms(2) have "src = VERIFIED_PERSON \<longrightarrow> face_fresh now a \<and> (gaze_now now a = Some True \<or> directed_now now a = Some True)"
    and "src \<in> {INSTRUCTION_DIRECTED, VERIFIED_PERSON, PERSON_TALKING, UNATTRIBUTED_AUDIO} \<longrightarrow> speech_fresh now a"
    and "src = INSTRUCTION_DIRECTED \<longrightarrow> at_is_call a"
    by (auto simp: classify_speech_def Let_def split: if_splits)
  with words show ?thesis by (auto simp: evaluate_result fuse_def any_fresh_def Let_def)
qed

definition called :: attention where
  "called = run_ops attention_apply [Words 100 ''Hey Shugo, look'' None] (new_attention 8000 15000 5000 10000 30000 100)"

lemma called_is_call: "is_wake_word_call ''Hey Shugo, look''"
  by code_simp

theorem attributed_speech_has_words_witness:
  "fst (classify_speech 101 called) = INSTRUCTION_DIRECTED \<and> is_wake_word_call (at_transcript called)"
proof -
  have "fst (classify_speech 101 called) = INSTRUCTION_DIRECTED"
    by (simp add: called_def classify_speech_def Let_def fresh_defs age_ms_def stamp_speech_def new_attention_def called_is_call)
  with attributed_speech_has_words [OF called_def this] show ?thesis by simp
qed

text \<open>Voice energy alone prolongs attention: without a face and without words, any other fresh signal leaves the
  state as it is, so ATTENDING lasts as long as the microphone hears music.\<close>

lemma voice_energy_prolongs_attention:
  "at_state a = ATTENDING \<Longrightarrow> \<not> face_fresh now a \<Longrightarrow> \<not> speech_fresh now a \<Longrightarrow> voice_fresh now a \<Longrightarrow>
     fst (snd (evaluate now t1 t2 a)) = ATTENDING"
  by (simp add: evaluate_result fuse_def any_fresh_def)

text \<open>The two views of one scene differ: a visible person who looks away and calls the agent by name is an
  instruction for the classification and DIVERTED for the verdict; out of sight the same words give ATTENDING.\<close>

lemma call_while_looking_away:
  "face_fresh now a \<Longrightarrow> speech_fresh now a \<Longrightarrow> at_is_call a \<Longrightarrow> gaze_now now a = Some False \<Longrightarrow> directed_now now a = None \<Longrightarrow>
     fst (classify_speech now a) = INSTRUCTION_DIRECTED \<and> fst (snd (evaluate now t1 t2 a)) = DIVERTED"
  by (simp add: classify_speech_def evaluate_result fuse_def any_fresh_def Let_def)

subsection \<open>Consent under attention\<close>

text \<open>The verdict as the consent registry reads it. With the verdict of an evaluation as the attention state,
  an attended action is granted exactly when a live grant exists and the human is not known to look elsewhere; a
  verdict DIVERTED refuses it whatever was granted.\<close>

theorem attended_grant_follows_verdict:
  assumes "at_state a \<noteq> ABSENT"
  shows "fst (has_grant_for_attended_action t action (Some (attention_value (fst (snd (evaluate now t1 t2 a))))) c) \<longleftrightarrow>
     has_grant t action c \<and> fst (snd (evaluate now t1 t2 a)) \<noteq> DIVERTED"
proof -
  from assms have "fst (snd (evaluate now t1 t2 a)) \<noteq> ABSENT"
    by (simp add: evaluate_result fuse_not_absent)
  then show ?thesis
    by (cases "fst (snd (evaluate now t1 t2 a))") (auto simp: has_grant_for_attended_action_def)
qed

theorem attended_grant_follows_verdict_witness:
  "\<not> fst (has_grant_for_attended_action 0 ''speak''
      (Some (attention_value (fst (snd (evaluate 102 102 102 (fst (evaluate 101 101 101 sees_face)))))))
      (fst (consent_grant 0 ''speak'' ''operator'' [] [] None [])))"
proof -
  have s: "at_state (fst (evaluate 101 101 101 sees_face)) = ATTENDING"
    by (simp add: evaluate_state fuse_def any_fresh_def Let_def sees_face_simps)
  then have d: "fst (snd (evaluate 102 102 102 (fst (evaluate 101 101 101 sees_face)))) = DIVERTED"
    by (simp add: evaluate_result fuse_def any_fresh_def Let_def sees_face_simps)
  have "at_state (fst (evaluate 101 101 101 sees_face)) \<noteq> ABSENT" by (simp add: s)
  from attended_grant_follows_verdict [OF this, where now = 102 and ?t1.0 = 102 and ?t2.0 = 102] d
  show ?thesis by blast
qed

subsection \<open>Skipping a regeneration\<close>

lemma should_regenerate_False:
  "\<not> fst (should_regenerate H now ob w a) \<longleftrightarrow>
     at_obs_hash a = Some (observation_hash H ob) \<and> \<not> has_fresh_signals ob \<and>
     now - at_obs_ts a < (case w of None \<Rightarrow> at_dedup_window a | Some x \<Rightarrow> max 0 x)"
  by (auto simp: should_regenerate_def Let_def split: option.split if_splits)

definition keeps_mark :: "attention_op \<Rightarrow> bool" where
  "keeps_mark p = (case p of Regenerated _ _ _ \<Rightarrow> False | _ \<Rightarrow> True)"

lemma attention_apply_mark:
  "keeps_mark p \<Longrightarrow> at_obs_hash (attention_apply p a) = at_obs_hash a \<and> at_obs_ts (attention_apply p a) = at_obs_ts a"
proof (cases p)
  case (Evaluate now t1 t2)
  then show ?thesis by (auto intro: evaluate_frame [of now t1 t2 a])
qed (auto simp: keeps_mark_def stamp_face_def stamp_voice_def stamp_tts_def stamp_speech_def
       record_directed_speech_def Let_def split: option.splits)

lemma run_keeps_mark:
  "list_all keeps_mark ps \<Longrightarrow> at_obs_hash (run_ops attention_apply ps a) = at_obs_hash a \<and>
     at_obs_ts (run_ops attention_apply ps a) = at_obs_ts a"
  by (induction ps arbitrary: a) (auto simp: attention_apply_mark)

text \<open>A decision is reused only for the observation it was made for. If regenerating is skipped some time after an
  observation was marked, with any signals and evaluations in between, then the present observation has the fingerprint
  of the marked one, carries no new speech or event, and the window since the mark has not elapsed.\<close>

theorem skipped_only_when_unchanged:
  assumes "a = run_ops attention_apply ps (mark_regenerated H t ob0 b)" "list_all keeps_mark ps"
    and "\<not> fst (should_regenerate H now ob w a)"
  shows "observation_hash H ob = observation_hash H ob0 \<and> \<not> has_fresh_signals ob \<and>
     now - t < (case w of None \<Rightarrow> at_dedup_window a | Some x \<Rightarrow> max 0 x)"
proof -
  have "at_obs_hash a = Some (observation_hash H ob0)" "at_obs_ts a = t"
    using run_keeps_mark [OF assms(2), of "mark_regenerated H t ob0 b"] assms(1) by (simp_all add: mark_regenerated_def)
  with assms(3) show ?thesis by (simp add: should_regenerate_False)
qed

theorem skipped_only_when_unchanged_witness:
  "\<not> fst (should_regenerate id 110 (PDict []) None (mark_regenerated id 100 (PDict []) sees_face)) \<and>
   (110::real) - 100 < 30"
proof -
  have skip: "\<not> fst (should_regenerate id 110 (PDict []) None (mark_regenerated id 100 (PDict []) sees_face))"
    by (simp add: should_regenerate_False mark_regenerated_def has_fresh_signals_def dget_def spoken_def
        sees_face_def stamp_face_def new_attention_def Let_def)
  have run: "mark_regenerated id 100 (PDict []) sees_face = run_ops attention_apply [] (mark_regenerated id 100 (PDict []) sees_face)"
    by simp
  from skipped_only_when_unchanged [OF run _ skip] skip show ?thesis
    by (simp add: mark_regenerated_def sees_face_def stamp_face_def new_attention_def Let_def)
qed

end
