(* ===== verification/Mesh_Election.thy ===== *)
theory Mesh_Election
  imports Governor Json "HOL-Library.Product_Lexorder"
begin

text \<open>
  The election of \<open>src/mesh_election.py\<close>: a node's table of heartbeat advertisements and the rule by
  which every node computes the holder of the primary lease. The table is an association list in
  the insertion order of the dictionary; clock readings are arguments; \<open>me_log\<close> collects the events
  handed to the audit chain. A heartbeat comes from the network, so its fields are arbitrary Python
  values.
\<close>

subsection \<open>Data\<close>

record mesh_node =
  mn_id :: string
  mn_priority :: int
  mn_thermal :: int
  mn_mem :: "int option"
  mn_rpc :: string
  mn_paired :: bool
  mn_primary :: string
  mn_role :: string
  mn_caps :: pydict
  mn_seq :: pyval
  mn_last_seen :: real

record election =
  me_node_id :: string
  me_priority :: int
  me_node_role :: string
  me_lease_s :: real
  me_timeout_s :: real
  me_audited :: bool
  me_nodes :: "(string \<times> mesh_node) list"
  me_primary :: "string option"
  me_lease_since :: real
  me_seq :: int
  me_seen :: "(string \<times> string \<times> string) list"
  me_log :: "audit_event list"

definition LEASE_S :: real where "LEASE_S = 10"
definition HEARTBEAT_TIMEOUT_S :: real where "HEARTBEAT_TIMEOUT_S = 30"
definition THERMAL_REFUSE_STATUS :: int where "THERMAL_REFUSE_STATUS = 3"

definition role_of :: "string \<Rightarrow> string" where
  "role_of r = (if py_lower (py_strip r) = ''follower'' then ''follower'' else ''primary-capable'')"

definition new_election :: "string \<Rightarrow> int \<Rightarrow> real \<Rightarrow> real \<Rightarrow> bool \<Rightarrow> string \<Rightarrow> election" where
  "new_election node_id priority lease_s timeout_s audited role =
     \<lparr>me_node_id = (if py_strip node_id = [] then ''node-unknown'' else py_strip node_id),
      me_priority = priority, me_node_role = role_of role, me_lease_s = max 1 lease_s,
      me_timeout_s = max 1 timeout_s, me_audited = audited, me_nodes = [], me_primary = None,
      me_lease_since = 0, me_seq = 0, me_seen = [], me_log = []\<rparr>"

definition mesh_audit :: "string \<Rightarrow> pydict \<Rightarrow> election \<Rightarrow> election" where
  "mesh_audit event_type payload el =
     (if me_audited el then el\<lparr>me_log := me_log el @ [(event_type, payload)]\<rparr> else el)"

subsection \<open>Heartbeats\<close>

text \<open>\<open>int(v)\<close>. The code catches \<open>TypeError\<close> and \<open>ValueError\<close>; the \<open>OverflowError\<close> of an infinite float
  escapes it.\<close>

datatype int_result = IntOk int | IntRefused | IntOverflow

definition to_int :: "pyval \<Rightarrow> int_result" where
  "to_int v =
     (if v \<in> {PFloat ''inf'', PFloat ''-inf''} then IntOverflow
      else if v = PFloat ''nan'' then IntRefused
      else case py_int v of Inl _ \<Rightarrow> IntRefused | Inr i \<Rightarrow> IntOk i)"

fun int_or :: "int \<Rightarrow> int_result \<Rightarrow> int option" where
  "int_or d (IntOk i) = Some i"
| "int_or d IntRefused = Some d"
| "int_or d IntOverflow = None"

text \<open>The record made of a heartbeat; \<open>None\<close> when a conversion overflows.\<close>

definition heartbeat_entry :: "real \<Rightarrow> string \<Rightarrow> pydict \<Rightarrow> mesh_node option" where
  "heartbeat_entry ts node_id payload =
     (case (int_or 100 (to_int (dget_default payload ''priority'' (PInt 100))),
            int_or 0 (to_int (dget_default payload ''thermal_status'' (PInt 0))),
            (case map_of payload ''mem_available_bytes'' of
               None \<Rightarrow> Some None
             | Some v \<Rightarrow> map_option Some (int_or 0 (to_int v)))) of
        (Some priority, Some thermal, Some mem) \<Rightarrow>
          Some \<lparr>mn_id = node_id, mn_priority = priority, mn_thermal = thermal, mn_mem = mem,
            mn_rpc = take 256 (py_str (py_or (dget_default payload ''rpc_endpoint'' (PStr [])) (PStr []))),
            mn_paired = truthy (dget_default payload ''paired'' (PBool True)),
            mn_primary = take 64 (py_str (py_or (dget_default payload ''primary'' (PStr [])) (PStr []))),
            mn_role = role_of (py_str (py_or (dget_default payload ''role'' (PStr [])) (PStr []))),
            mn_caps = as_dict (dget payload ''caps''),
            mn_seq = dget_default payload ''seq'' (PInt 0), mn_last_seen = ts\<rparr>
      | _ \<Rightarrow> None)"

text \<open>What to do with a heartbeat of a known peer: renew the lease only (the same advertisement again),
  or rewrite the record (a newer one, an older one after a restart, or an unreadable sequence).\<close>

datatype seq_verdict = SeqSame | SeqReplace | SeqOverflow

definition compare_seq :: "pyval \<Rightarrow> pyval \<Rightarrow> seq_verdict" where
  "compare_seq new old =
     (case to_int new of
        IntOverflow \<Rightarrow> SeqOverflow
      | IntRefused \<Rightarrow> SeqReplace
      | IntOk seq \<Rightarrow>
          (case to_int old of
             IntOverflow \<Rightarrow> SeqOverflow
           | IntRefused \<Rightarrow> SeqReplace
           | IntOk prev_seq \<Rightarrow> (if seq = prev_seq then SeqSame else SeqReplace)))"

text \<open>\<open>Inl\<close>: the escaping \<open>OverflowError\<close>.\<close>

definition observe_heartbeat :: "real \<Rightarrow> pyval \<Rightarrow> (election, unit, bool) sx" where
  "observe_heartbeat ts v el =
     (case v of
        PDict payload \<Rightarrow>
          (let node_id = py_strip (py_str (dget_default payload ''node_id'' (PStr []))) in
           if node_id = [] then (el, Inr False)
           else case heartbeat_entry ts node_id payload of
                  None \<Rightarrow> (el, Inl ())
                | Some entry \<Rightarrow>
                    (case map_of (me_nodes el) node_id of
                       None \<Rightarrow> (el\<lparr>me_nodes := AList.update node_id entry (me_nodes el)\<rparr>, Inr True)
                     | Some prev \<Rightarrow>
                         (case compare_seq (mn_seq entry) (mn_seq prev) of
                            SeqOverflow \<Rightarrow> (el, Inl ())
                          | SeqSame \<Rightarrow>
                              (el\<lparr>me_nodes := AList.update node_id (prev\<lparr>mn_last_seen := ts\<rparr>) (me_nodes el)\<rparr>, Inr True)
                          | SeqReplace \<Rightarrow>
                              (el\<lparr>me_nodes := AList.update node_id entry (me_nodes el)\<rparr>, Inr True))))
      | _ \<Rightarrow> (el, Inr False))"

text \<open>The node's own heartbeat, which it also observes itself.\<close>

definition local_heartbeat :: "real \<Rightarrow> int \<Rightarrow> int \<Rightarrow> string \<Rightarrow> bool \<Rightarrow> pydict \<Rightarrow> (election, unit, pydict) sx" where
  "local_heartbeat ts thermal mem rpc paired caps el =
     (let el1 = el\<lparr>me_seq := me_seq el + 1\<rparr>;
          payload =
            [(''node_id'', PStr (me_node_id el)), (''priority'', PInt (me_priority el)),
             (''thermal_status'', PInt thermal), (''mem_available_bytes'', PInt mem),
             (''rpc_endpoint'', PStr rpc), (''paired'', PBool paired),
             (''primary'', PStr (case me_primary el of None \<Rightarrow> [] | Some p \<Rightarrow> p)),
             (''role'', PStr (me_node_role el)), (''caps'', PDict caps), (''seq'', PInt (me_seq el1))]
      in case observe_heartbeat ts (PDict payload) el1 of
           (el2, Inl e) \<Rightarrow> (el2, Inl e)
         | (el2, Inr _) \<Rightarrow> (el2, Inr payload))"

definition drop_node :: "string \<Rightarrow> election \<Rightarrow> election" where
  "drop_node node_id el = el\<lparr>me_nodes := AList.delete node_id (me_nodes el)\<rparr>"

subsection \<open>Candidates\<close>

definition mesh_eligible :: "mesh_node \<Rightarrow> string option" where
  "mesh_eligible e =
     (if \<not> mn_paired e then Some ''unpaired''
      else if mn_thermal e \<ge> THERMAL_REFUSE_STATUS then Some ''thermal-critical''
      else case mn_mem e of
             None \<Rightarrow> None
           | Some m \<Rightarrow> (if m \<le> 0 then Some ''no-headroom'' else None))"

definition eligible_reasons :: "election \<Rightarrow> (string \<times> string) list" where
  "eligible_reasons el =
     List.map_filter (\<lambda>(nid, e). map_option (Pair nid) (mesh_eligible e)) (me_nodes el)"

definition mesh_rank :: "mesh_node \<Rightarrow> int \<times> int \<times> string" where
  "mesh_rank e = ((if mn_role e = ''follower'' then 1 else 0), mn_priority e, mn_id e)"

definition mesh_live :: "real \<Rightarrow> election \<Rightarrow> mesh_node \<Rightarrow> bool" where
  "mesh_live now el e \<longleftrightarrow> now - mn_last_seen e \<le> me_timeout_s el \<and> mesh_eligible e = None"

definition live_candidates :: "real \<Rightarrow> election \<Rightarrow> mesh_node list" where
  "live_candidates now el = sort_key mesh_rank (filter (mesh_live now el) (map snd (me_nodes el)))"

subsection \<open>The election\<close>

definition disagrees :: "election \<Rightarrow> string \<Rightarrow> mesh_node \<Rightarrow> bool" where
  "disagrees el winner e \<longleftrightarrow> mn_primary e \<noteq> [] \<and> mn_id e \<noteq> me_node_id el \<and>
     \<not> (mn_primary e = me_node_id el \<and> winner = me_node_id el) \<and> mn_primary e \<noteq> winner"

fun note_disagreement :: "string \<Rightarrow> mesh_node list \<Rightarrow> election \<Rightarrow> election" where
  "note_disagreement winner [] el = el"
| "note_disagreement winner (e # es) el =
     (let key = (mn_id e, mn_primary e, winner) in
      note_disagreement winner es
        (if disagrees el winner e \<and> key \<notin> set (me_seen el)
         then mesh_audit ''mesh_lease_disagreement''
                [(''node_id'', PStr (me_node_id el)), (''peer'', PStr (mn_id e)),
                 (''peer_primary'', PStr (mn_primary e)), (''our_primary'', PStr winner)]
                (el\<lparr>me_seen := me_seen el @ [key]\<rparr>)
         else el))"

text \<open>The winner, with the incumbency rule: the holder of the lease keeps it if it is a live candidate that
  is not worse than the best one.\<close>

definition incumbent_keeps :: "string \<Rightarrow> mesh_node \<Rightarrow> mesh_node list \<Rightarrow> bool" where
  "incumbent_keeps holder best candidates =
     (holder \<noteq> [] \<and> holder \<noteq> mn_id best \<and>
      (case find (\<lambda>e. mn_id e = holder) candidates of
         None \<Rightarrow> False
       | Some incumbent \<Rightarrow> mesh_rank incumbent \<le> mesh_rank best))"

definition elect :: "mesh_node list \<Rightarrow> string option \<Rightarrow> string option" where
  "elect candidates holder =
     (case candidates of
        [] \<Rightarrow> None
      | best # _ \<Rightarrow>
          (case holder of
             None \<Rightarrow> Some (mn_id best)
           | Some h \<Rightarrow> (if incumbent_keeps h best candidates then Some h else Some (mn_id best))))"

record tick_result =
  tr_primary :: "string option"
  tr_is_primary :: bool
  tr_candidates :: "string list"
  tr_lease_since :: real
  tr_lease_s :: real

definition mesh_tick :: "real \<Rightarrow> election \<Rightarrow> election \<times> tick_result" where
  "mesh_tick ts el =
     (let candidates = live_candidates ts el;
          winner = elect candidates (me_primary el);
          el1 = (case winner of None \<Rightarrow> el | Some w \<Rightarrow> note_disagreement w candidates el);
          previous = me_primary el1;
          el2 = (if winner = previous then el1
                 else let el' = el1\<lparr>me_primary := winner, me_lease_since := ts\<rparr> in
                   if winner = Some (me_node_id el)
                   then mesh_audit ''mesh_primary_elected''
                          [(''node_id'', PStr (me_node_id el)), (''candidates'', PInt (int (length candidates)))] el'
                   else if previous = Some (me_node_id el)
                   then mesh_audit ''mesh_follower_fallback''
                          [(''node_id'', PStr (me_node_id el)),
                           (''primary'', PStr (case winner of None \<Rightarrow> [] | Some w \<Rightarrow> w))] el'
                   else el')
      in (el2, \<lparr>tr_primary = winner, tr_is_primary = (winner = Some (me_node_id el)),
                tr_candidates = map mn_id candidates, tr_lease_since = me_lease_since el2,
                tr_lease_s = me_lease_s el\<rparr>))"

definition is_primary :: "election \<Rightarrow> bool" where
  "is_primary el = (me_primary el = Some (me_node_id el))"

definition mesh_role :: "election \<Rightarrow> string" where
  "mesh_role el = (case me_primary el of None \<Rightarrow> ''unknown''
     | Some p \<Rightarrow> if p = me_node_id el then ''primary'' else ''follower'')"

definition live_peers :: "real \<Rightarrow> election \<Rightarrow> mesh_node list" where
  "live_peers ts el =
     filter (\<lambda>e. mn_id e \<noteq> me_node_id el \<and> ts - mn_last_seen e \<le> me_timeout_s el) (map snd (me_nodes el))"

definition peers_role :: "real \<Rightarrow> election \<Rightarrow> (string \<times> string) list" where
  "peers_role ts el = map (\<lambda>e. (mn_id e, mn_role e)) (live_peers ts el)"

record mesh_status =
  ms_node_id :: string
  ms_priority :: int
  ms_primary :: "string option"
  ms_is_primary :: bool
  ms_node_role :: string
  ms_role :: string
  ms_nodes :: "(string \<times> mesh_node) list"
  ms_ineligible :: "(string \<times> string) list"
  ms_lease_s :: real
  ms_timeout_s :: real

definition mesh_status_of :: "election \<Rightarrow> mesh_status" where
  "mesh_status_of el =
     \<lparr>ms_node_id = me_node_id el, ms_priority = me_priority el, ms_primary = me_primary el,
      ms_is_primary = is_primary el, ms_node_role = me_node_role el, ms_role = mesh_role el,
      ms_nodes = me_nodes el, ms_ineligible = eligible_reasons el, ms_lease_s = me_lease_s el,
      ms_timeout_s = me_timeout_s el\<rparr>"

subsection \<open>The table\<close>

text \<open>Records are filed under their own, non-empty node id, once each.\<close>

definition election_inv :: "election \<Rightarrow> bool" where
  "election_inv el \<longleftrightarrow> distinct (map fst (me_nodes el)) \<and>
     (\<forall>(k, e)\<in>set (me_nodes el). mn_id e = k \<and> k \<noteq> [])"

datatype mesh_op =
    Hear real pyval
  | Speak real int int string bool pydict
  | Drop string
  | Tick real

fun mesh_apply :: "mesh_op \<Rightarrow> election \<Rightarrow> election" where
  "mesh_apply (Hear ts v) el = fst (observe_heartbeat ts v el)"
| "mesh_apply (Speak ts thermal mem rpc paired caps) el = fst (local_heartbeat ts thermal mem rpc paired caps el)"
| "mesh_apply (Drop node_id) el = drop_node node_id el"
| "mesh_apply (Tick ts) el = fst (mesh_tick ts el)"

lemma mesh_audit_frame [simp]:
  "me_nodes (mesh_audit t p el) = me_nodes el" "me_primary (mesh_audit t p el) = me_primary el"
  "me_node_id (mesh_audit t p el) = me_node_id el" "me_timeout_s (mesh_audit t p el) = me_timeout_s el"
  by (simp_all add: mesh_audit_def)

lemma note_disagreement_frame [simp]:
  "me_nodes (note_disagreement w es el) = me_nodes el" "me_primary (note_disagreement w es el) = me_primary el"
  "me_node_id (note_disagreement w es el) = me_node_id el"
  by (induction w es el rule: note_disagreement.induct) (simp_all add: Let_def)

lemma mesh_tick_nodes [simp]:
  "me_nodes (fst (mesh_tick ts el)) = me_nodes el" "me_node_id (fst (mesh_tick ts el)) = me_node_id el"
  by (simp_all add: mesh_tick_def Let_def split: option.splits)

lemma mesh_tick_primary: "me_primary (fst (mesh_tick ts el)) = elect (live_candidates ts el) (me_primary el)"
  by (simp add: mesh_tick_def Let_def split: option.splits)

lemma set_update_pair: "set (AList.update k v al) \<subseteq> insert (k, v) (set al)"
  by (induction al) auto

lemma update_inv:
  assumes "election_inv el" and "mn_id e = k" and "k \<noteq> []"
  shows "election_inv (el\<lparr>me_nodes := AList.update k e (me_nodes el)\<rparr>)"
  using assms set_update_pair [of k e "me_nodes el"] distinct_update [of "me_nodes el" k e]
  by (auto simp: election_inv_def)

lemma heartbeat_entry_fields:
  "heartbeat_entry ts node_id payload = Some e \<Longrightarrow> mn_id e = node_id \<and> mn_last_seen e = ts"
  by (auto simp: heartbeat_entry_def split: option.splits)

lemma known_node: "election_inv el \<Longrightarrow> map_of (me_nodes el) k = Some e \<Longrightarrow> mn_id e = k"
  by (auto simp: election_inv_def dest!: map_of_SomeD)

lemma observe_inv: "election_inv el \<Longrightarrow> election_inv (fst (observe_heartbeat ts v el))"
  using heartbeat_entry_fields known_node
  by (auto simp: observe_heartbeat_def Let_def split: pyval.splits option.splits seq_verdict.splits
      intro!: update_inv)

lemma mesh_apply_inv: "election_inv el \<Longrightarrow> election_inv (mesh_apply p el)"
proof (cases p)
  case (Speak ts th m rpc pd caps)
  assume inv: "election_inv el"
  then have "election_inv (el\<lparr>me_seq := me_seq el + 1\<rparr>)" by (simp add: election_inv_def)
  from observe_inv [OF this] Speak show ?thesis
    by (simp add: local_heartbeat_def Let_def split: prod.splits sum.splits) (metis fst_conv)
next
  case (Drop k)
  assume "election_inv el"
  then show ?thesis
    unfolding Drop using distinct_delete [of "me_nodes el" k] by (auto simp: drop_node_def election_inv_def AList.delete_eq)
qed (simp_all add: observe_inv, simp add: election_inv_def)

interpretation mesh: invariant_machine mesh_apply election_inv
  by unfold_locales (rule mesh_apply_inv)

lemma new_election_inv: "election_inv (new_election n p l t a r)"
  by (simp add: new_election_def election_inv_def)

lemma mesh_run_inv: "election_inv (run_ops mesh_apply ps (new_election n p l t a r))"
  by (rule mesh.inv_run [OF new_election_inv])

subsection \<open>The winner\<close>

lemma live_candidates_set: "set (live_candidates now el) = {e \<in> snd ` set (me_nodes el). mesh_live now el e}"
  by (auto simp: live_candidates_def)

lemma live_candidates_best:
  assumes "live_candidates now el = best # rest" and "e \<in> set (live_candidates now el)"
  shows "mesh_rank best \<le> mesh_rank e"
proof -
  have "sorted (map mesh_rank (live_candidates now el))" by (simp add: live_candidates_def)
  with assms show ?thesis by auto
qed

text \<open>Among candidates with distinct ids the incumbency rule never applies.\<close>

lemma elect_best:
  "elect (live_candidates now el) holder =
     (case live_candidates now el of [] \<Rightarrow> None | best # _ \<Rightarrow> Some (mn_id best))"
proof (cases "live_candidates now el")
  case (Cons best rest)
  have "\<not> incumbent_keeps h best (live_candidates now el)" for h
  proof
    assume keeps: "incumbent_keeps h best (live_candidates now el)"
    then obtain i where find: "find (\<lambda>e. mn_id e = h) (live_candidates now el) = Some i"
      and le: "mesh_rank i \<le> mesh_rank best" and "h \<noteq> mn_id best"
      by (auto simp: incumbent_keeps_def split: option.splits)
    from find have "i \<in> set (live_candidates now el)" "mn_id i = h"
      by (auto simp: find_Some_iff)
    with live_candidates_best [OF Cons] le have "mesh_rank i = mesh_rank best" by (simp add: antisym)
    with \<open>mn_id i = h\<close> \<open>h \<noteq> mn_id best\<close> show False by (simp add: mesh_rank_def)
  qed
  with Cons show ?thesis by (simp add: elect_def split: option.splits)
qed (simp add: elect_def)

lemma tick_winner:
  "me_primary (fst (mesh_tick now el)) =
     (case live_candidates now el of [] \<Rightarrow> None | best # _ \<Rightarrow> Some (mn_id best))"
  by (simp add: mesh_tick_primary elect_best)


text \<open>C26: the fleet converges. Two nodes whose tables hold live candidates with the same ranks elect the
  same primary at their next tick, whatever each of them heard and elected before; so two different
  nodes never both take the lease.\<close>

theorem nodes_agree_on_primary:
  assumes "mesh_rank ` set (live_candidates now a) = mesh_rank ` set (live_candidates now' b)"
  shows "me_primary (fst (mesh_tick now a)) = me_primary (fst (mesh_tick now' b)) \<and>
    (me_node_id a \<noteq> me_node_id b \<longrightarrow>
       \<not> (is_primary (fst (mesh_tick now a)) \<and> is_primary (fst (mesh_tick now' b))))"
proof -
  have "me_primary (fst (mesh_tick now a)) = me_primary (fst (mesh_tick now' b))"
  proof (cases "live_candidates now a")
    case Nil
    with assms show ?thesis by (simp add: tick_winner)
  next
    case (Cons best rest)
    with assms obtain best' rest' where Cons': "live_candidates now' b = best' # rest'"
      by (cases "live_candidates now' b") auto
    have "mesh_rank best \<in> mesh_rank ` set (live_candidates now' b)"
      "mesh_rank best' \<in> mesh_rank ` set (live_candidates now a)"
      using assms Cons Cons' by auto
    then have "mesh_rank best = mesh_rank best'"
      using live_candidates_best [OF Cons] live_candidates_best [OF Cons'] by (auto intro: antisym)
    with Cons Cons' show ?thesis by (simp add: tick_winner mesh_rank_def)
  qed
  then show ?thesis by (auto simp: is_primary_def)
qed

text \<open>Followers do not lead while a primary-capable node is up: if any live candidate is not a follower,
  the elected node is not one either, whatever the priorities are.\<close>

theorem follower_never_outranks:
  assumes "e \<in> snd ` set (me_nodes el)" and "mesh_live now el e" and "mn_role e \<noteq> ''follower''"
  shows "\<exists>w. w \<in> snd ` set (me_nodes el) \<and> mesh_live now el w \<and> mn_role w \<noteq> ''follower'' \<and>
    me_primary (fst (mesh_tick now el)) = Some (mn_id w)"
proof -
  have e: "e \<in> set (live_candidates now el)" using assms by (simp add: live_candidates_set)
  then obtain best rest where Cons: "live_candidates now el = best # rest"
    by (cases "live_candidates now el") auto
  from live_candidates_best [OF Cons e] assms(3) have "mn_role best \<noteq> ''follower''"
    by (auto simp: mesh_rank_def split: if_splits)
  moreover have "best \<in> set (live_candidates now el)" by (simp add: Cons)
  then have "best \<in> snd ` set (me_nodes el) \<and> mesh_live now el best" by (simp add: live_candidates_set)
  ultimately show ?thesis by (intro exI [of _ best]) (simp add: tick_winner Cons)
qed

text \<open>No live peer goes invisible. Whenever a heartbeat is accepted, in any state a node can reach,
  its sender is in the table with this moment as the time it was last heard, whether the sequence
  number is new, repeated, unreadable, or smaller because the peer restarted.\<close>

theorem accepted_heartbeat_renews:
  assumes "observe_heartbeat ts (PDict payload) (run_ops mesh_apply ps (new_election n p l t a r)) = (el', Inr True)"
  shows "\<exists>e. map_of (me_nodes el') (py_strip (py_str (dget_default payload ''node_id'' (PStr [])))) = Some e \<and>
    mn_id e = py_strip (py_str (dget_default payload ''node_id'' (PStr []))) \<and> mn_last_seen e = ts"
proof -
  let ?el = "run_ops mesh_apply ps (new_election n p l t a r)"
  have inv: "election_inv ?el" by (rule mesh_run_inv)
  show ?thesis
    using assms known_node [OF inv] heartbeat_entry_fields
    by (auto simp: observe_heartbeat_def Let_def update_conv' split: if_splits option.splits seq_verdict.splits)
qed

text \<open>A heartbeat whose priority is an infinite float raises out of \<open>observe_heartbeat\<close>: only
  \<open>TypeError\<close> and \<open>ValueError\<close> of the conversion are caught, and a JSON peer can send \<open>Infinity\<close>.\<close>

theorem infinite_priority_escapes:
  "observe_heartbeat ts (PDict [(''node_id'', PStr ''n''), (''priority'', PFloat ''inf'')]) el = (el, Inl ())"
  by (simp add: observe_heartbeat_def heartbeat_entry_def to_int_def dget_default_def Let_def py_strip_def
      strip_by_def is_space_def char_code_def)

definition bench_node :: "string \<Rightarrow> int \<Rightarrow> string \<Rightarrow> mesh_node" where
  "bench_node nid priority role = \<lparr>mn_id = nid, mn_priority = priority, mn_thermal = 0, mn_mem = Some 1, mn_rpc = [],
     mn_paired = True, mn_primary = [], mn_role = role, mn_caps = [], mn_seq = PInt 1, mn_last_seen = 0\<rparr>"

definition bench :: "string \<Rightarrow> string option \<Rightarrow> mesh_node list \<Rightarrow> election" where
  "bench nid holder es = (new_election nid 10 LEASE_S HEARTBEAT_TIMEOUT_S False ''primary-capable'')
     \<lparr>me_nodes := map (\<lambda>e. (mn_id e, e)) es, me_primary := holder\<rparr>"

lemmas bench_defs = bench_def bench_node_def new_election_def mesh_live_def mesh_eligible_def
  HEARTBEAT_TIMEOUT_S_def THERMAL_REFUSE_STATUS_def

text \<open>A desktop and a laptop of the same priority, each holding to itself.\<close>

theorem nodes_agree_on_primary_witness:
  "me_primary (fst (mesh_tick 5 (bench ''pc'' (Some ''pc'') [bench_node ''pc'' 10 [], bench_node ''mac'' 10 []]))) =
   me_primary (fst (mesh_tick 5 (bench ''mac'' (Some ''mac'') [bench_node ''mac'' 10 [], bench_node ''pc'' 10 []])))"
proof -
  let ?a = "bench ''pc'' (Some ''pc'') [bench_node ''pc'' 10 [], bench_node ''mac'' 10 []]"
  let ?b = "bench ''mac'' (Some ''mac'') [bench_node ''mac'' 10 [], bench_node ''pc'' 10 []]"
  have "mesh_rank ` set (live_candidates 5 ?a) = mesh_rank ` set (live_candidates 5 ?b)"
    unfolding live_candidates_set by (simp add: bench_defs) blast
  from nodes_agree_on_primary [OF this] show ?thesis by blast
qed

theorem follower_never_outranks_witness:
  "me_primary (fst (mesh_tick 5 (bench ''p'' None [bench_node ''p'' 1 ''follower'', bench_node ''pc'' 99 []]))) = Some ''pc''"
  using follower_never_outranks [of "bench_node ''pc'' 99 []"
      "bench ''p'' None [bench_node ''p'' 1 ''follower'', bench_node ''pc'' 99 []]" 5]
  by (auto simp: bench_defs split: if_splits)

theorem accepted_heartbeat_renews_witness:
  "\<exists>e. map_of (me_nodes (fst (observe_heartbeat 7 (PDict [(''node_id'', PStr ''n'')])
       (new_election ''m'' 10 10 30 False [])))) ''n'' = Some e \<and> mn_last_seen e = 7"
proof -
  let ?el = "new_election ''m'' 10 10 30 False []"
  have id: "py_strip ''n'' = ''n''" by code_simp
  have "snd (observe_heartbeat 7 (PDict [(''node_id'', PStr ''n'')]) ?el) = Inr True"
    by (simp add: observe_heartbeat_def heartbeat_entry_def to_int_def dget_default_def Let_def id new_election_def)
  then have "observe_heartbeat 7 (PDict [(''node_id'', PStr ''n'')]) (run_ops mesh_apply [] ?el) =
      (fst (observe_heartbeat 7 (PDict [(''node_id'', PStr ''n'')]) ?el), Inr True)"
    by (simp add: prod_eq_iff)
  from accepted_heartbeat_renews [OF this] show ?thesis by (auto simp: dget_default_def id)
qed

end
