(* ===== verification/Delegation.thy ===== *)
theory Delegation
  imports Prelude
begin

text \<open>
  The routing of inference to backends of \<open>src/delegation.py\<close>: registered endpoints with their health, and
  the choice of one for an action under the network policy. Reading the \<open>healthy\<close> property may reset an
  error counter, so the choice changes the registry; backends are objects, named here by their
  position. Each reading of the clock is an argument.
\<close>

subsection \<open>Backends\<close>

datatype backend_scope = LOCALHOST | LAN | INTERNET

datatype task_tier = LIGHT | STANDARD | HEAVY | SHARED

fun scope_value :: "backend_scope \<Rightarrow> string" where
  "scope_value LOCALHOST = ''localhost''"
| "scope_value LAN = ''lan''"
| "scope_value INTERNET = ''internet''"

definition default_tier_map :: "(string \<times> task_tier) list" where
  "default_tier_map =
     [(''record_observation'', LIGHT), (''probe_model'', LIGHT), (''consolidate'', LIGHT),
      (''speak'', STANDARD), (''ask_user'', STANDARD), (''speak_test'', STANDARD),
      (''multi_step_process'', HEAVY), (''search_api'', HEAVY), (''news_api'', HEAVY),
      (''hardware_interaction'', HEAVY)]"

definition tier_for_action_type :: "string option \<Rightarrow> task_tier" where
  "tier_for_action_type action_type =
     (case action_type of
        None \<Rightarrow> SHARED
      | Some a \<Rightarrow> if a = [] then SHARED
                  else case map_of default_tier_map a of None \<Rightarrow> SHARED | Some t \<Rightarrow> t)"

definition MAX_CONSECUTIVE_ERRORS :: int where "MAX_CONSECUTIVE_ERRORS = 3"
definition UNHEALTHY_COOLDOWN_S :: real where "UNHEALTHY_COOLDOWN_S = 30"

record backend =
  be_scope :: backend_scope
  be_url :: string
  be_type :: string
  be_tiers :: "task_tier list"
  be_latency_ms :: real
  be_errors :: int
  be_last_error :: real

definition new_backend :: "backend_scope \<Rightarrow> string \<Rightarrow> string \<Rightarrow> task_tier list \<Rightarrow> backend" where
  "new_backend scope base_url backend_type tiers =
     \<lparr>be_scope = scope, be_url = py_rstrip_char (CHR ''/'') base_url, be_type = backend_type, be_tiers = tiers,
      be_latency_ms = 0, be_errors = 0, be_last_error = 0\<rparr>"

definition be_record_success :: "real \<Rightarrow> backend \<Rightarrow> backend" where
  "be_record_success latency b = b\<lparr>be_latency_ms := latency, be_errors := 0\<rparr>"

definition be_record_error :: "real \<Rightarrow> backend \<Rightarrow> backend" where
  "be_record_error now b = b\<lparr>be_errors := be_errors b + 1, be_last_error := now\<rparr>"

definition be_healthy :: "real \<Rightarrow> backend \<Rightarrow> backend \<times> bool" where
  "be_healthy now b =
     (if be_errors b = 0 then (b, True)
      else if be_errors b \<ge> MAX_CONSECUTIVE_ERRORS
      then (if now - be_last_error b \<ge> UNHEALTHY_COOLDOWN_S then (b\<lparr>be_errors := 0\<rparr>, True) else (b, False))
      else (b, True))"

definition serves_tier :: "task_tier \<Rightarrow> backend \<Rightarrow> bool" where
  "serves_tier tier b = (be_tiers b = [] \<or> tier \<in> set (be_tiers b))"

subsection \<open>The registry\<close>

record delegation =
  dm_backends :: "backend list"
  dm_active_scope :: "backend_scope option"
  dm_active_url :: "string option"

definition new_delegation :: delegation where
  "new_delegation = \<lparr>dm_backends = [], dm_active_scope = None, dm_active_url = None\<rparr>"

fun refresh :: "backend \<Rightarrow> backend list \<Rightarrow> backend list" where
  "refresh entry [] = [entry]"
| "refresh entry (x # xs) =
     (if be_scope x = be_scope entry \<and> be_url x = be_url entry
      then entry\<lparr>be_errors := be_errors x, be_last_error := be_last_error x, be_latency_ms := be_latency_ms x\<rparr> # xs
      else x # refresh entry xs)"

definition dm_register :: "backend_scope \<Rightarrow> string \<Rightarrow> string \<Rightarrow> task_tier list \<Rightarrow> delegation \<Rightarrow> delegation" where
  "dm_register scope base_url backend_type tiers dm =
     dm\<lparr>dm_backends := refresh (new_backend scope base_url backend_type tiers) (dm_backends dm)\<rparr>"

definition is_backend :: "backend_scope \<Rightarrow> string \<Rightarrow> backend \<Rightarrow> bool" where
  "is_backend scope base_url b \<longleftrightarrow> be_scope b = scope \<and> be_url b = base_url"

fun remove_first :: "('a \<Rightarrow> bool) \<Rightarrow> 'a list \<Rightarrow> 'a list" where
  "remove_first P [] = []"
| "remove_first P (x # xs) = (if P x then xs else x # remove_first P xs)"

fun update_first :: "('a \<Rightarrow> bool) \<Rightarrow> ('a \<Rightarrow> 'a) \<Rightarrow> 'a list \<Rightarrow> 'a list" where
  "update_first P f [] = []"
| "update_first P f (x # xs) = (if P x then f x # xs else x # update_first P f xs)"

definition dm_unregister :: "backend_scope \<Rightarrow> string \<Rightarrow> delegation \<Rightarrow> delegation \<times> bool" where
  "dm_unregister scope base_url dm =
     (if list_ex (is_backend scope base_url) (dm_backends dm)
      then (let dm1 = dm\<lparr>dm_backends := remove_first (is_backend scope base_url) (dm_backends dm)\<rparr> in
            (if dm_active_scope dm = Some scope \<and> dm_active_url dm = Some base_url
             then dm1\<lparr>dm_active_scope := None, dm_active_url := None\<rparr> else dm1, True))
      else (dm, False))"

definition dm_record_success :: "backend_scope \<Rightarrow> string \<Rightarrow> real \<Rightarrow> delegation \<Rightarrow> delegation" where
  "dm_record_success scope base_url latency dm =
     dm\<lparr>dm_backends := update_first (is_backend scope base_url) (be_record_success latency) (dm_backends dm)\<rparr>"

definition dm_record_error :: "backend_scope \<Rightarrow> string \<Rightarrow> real \<Rightarrow> delegation \<Rightarrow> delegation" where
  "dm_record_error scope base_url now dm =
     dm\<lparr>dm_backends := update_first (is_backend scope base_url) (be_record_error now) (dm_backends dm)\<rparr>"

subsection \<open>Routing\<close>

fun scope_order :: "task_tier \<Rightarrow> backend_scope list" where
  "scope_order LIGHT = [LOCALHOST]"
| "scope_order STANDARD = [LOCALHOST, LAN]"
| "scope_order HEAVY = [LAN, INTERNET]"
| "scope_order SHARED = [LOCALHOST, LAN, INTERNET]"

text \<open>The positions of all backends: those of the preferred scopes in that order, then the others.\<close>

definition candidates_for_tier :: "task_tier \<Rightarrow> backend list \<Rightarrow> nat list" where
  "candidates_for_tier tier bs =
     concat (map (\<lambda>scope. filter (\<lambda>i. be_scope (bs ! i) = scope) [0..<length bs]) (scope_order tier)) @
     filter (\<lambda>i. be_scope (bs ! i) \<notin> set (scope_order tier)) [0..<length bs]"

definition policy_flag :: "pydict \<Rightarrow> string \<Rightarrow> bool \<Rightarrow> bool" where
  "policy_flag policy k d = truthy (dget_default policy k (PBool d))"

fun policy_allows :: "pydict \<Rightarrow> bool \<Rightarrow> backend_scope \<Rightarrow> bool" where
  "policy_allows policy consent LOCALHOST = policy_flag policy ''localhost'' True"
| "policy_allows policy consent LAN = policy_flag policy ''lan'' True"
| "policy_allows policy consent INTERNET = (policy_flag policy ''internet'' False \<and> consent)"

text \<open>The first of the given positions that passes \<open>ok\<close> and is healthy; checking the health of a backend may
  reset its counter.\<close>

fun pick_healthy :: "(nat \<Rightarrow> real) \<Rightarrow> (backend \<Rightarrow> bool) \<Rightarrow> nat list \<Rightarrow> backend list \<Rightarrow> backend list \<times> nat option" where
  "pick_healthy clock ok [] bs = (bs, None)"
| "pick_healthy clock ok (i # js) bs =
     (if \<not> ok (bs ! i) then pick_healthy clock ok js bs
      else let (b, h) = be_healthy (clock i) (bs ! i); bs' = bs[i := b] in
        if h then (bs', Some i) else pick_healthy clock ok js bs')"

definition activate :: "nat \<Rightarrow> backend list \<Rightarrow> delegation \<Rightarrow> delegation \<times> (string \<times> string) option" where
  "activate i bs dm =
     (dm\<lparr>dm_backends := bs, dm_active_scope := Some (be_scope (bs ! i)), dm_active_url := Some (be_url (bs ! i))\<rparr>,
      Some (be_url (bs ! i), scope_value (be_scope (bs ! i))))"

definition select_backend :: "(nat \<Rightarrow> real) \<Rightarrow> (nat \<Rightarrow> real) \<Rightarrow> string option \<Rightarrow> pydict \<Rightarrow> bool \<Rightarrow> delegation \<Rightarrow>
    delegation \<times> (string \<times> string) option" where
  "select_backend clock clock2 action_type policy consent dm =
     (let tier = tier_for_action_type action_type in
      case pick_healthy clock (\<lambda>b. policy_allows policy consent (be_scope b) \<and> serves_tier tier b)
             (candidates_for_tier tier (dm_backends dm)) (dm_backends dm) of
        (bs, Some i) \<Rightarrow> activate i bs dm
      | (bs, None) \<Rightarrow>
          (case pick_healthy clock2 (\<lambda>b. be_scope b = LOCALHOST) [0..<length bs] bs of
             (bs', Some i) \<Rightarrow> activate i bs' dm
           | (bs', None) \<Rightarrow> (dm\<lparr>dm_backends := bs'\<rparr>, None)))"

text \<open>The status snapshot reads the health of every backend too.\<close>

definition dm_status :: "(nat \<Rightarrow> real) \<Rightarrow> delegation \<Rightarrow>
    delegation \<times> (string option \<times> string option \<times> (backend \<times> bool) list)" where
  "dm_status clock dm =
     (let rs = map (\<lambda>(i, b). be_healthy (clock i) b) (enumerate 0 (dm_backends dm))
      in (dm\<lparr>dm_backends := map fst rs\<rparr>,
          (map_option scope_value (dm_active_scope dm), dm_active_url dm, rs)))"

subsection \<open>What routing keeps\<close>

text \<open>Backends that differ at most in their error counter.\<close>

definition same_backend :: "backend \<Rightarrow> backend \<Rightarrow> bool" where
  "same_backend a b \<longleftrightarrow> b = a\<lparr>be_errors := be_errors b\<rparr>"

lemma same_backend_fields:
  "same_backend a b \<Longrightarrow> be_scope b = be_scope a \<and> be_url b = be_url a \<and> be_tiers b = be_tiers a"
  unfolding same_backend_def by (metis backend.ext_inject backend.surjective backend.update_convs(6))

lemma same_backend_refl [simp]: "same_backend a a"
  by (simp add: same_backend_def)

lemma same_backend_trans: "same_backend a b \<Longrightarrow> same_backend b c \<Longrightarrow> same_backend a c"
  by (cases a; cases b; cases c) (simp add: same_backend_def)

lemma be_healthy_same: "same_backend b (fst (be_healthy now b))"
  by (simp add: be_healthy_def same_backend_def)

lemma pick_healthy_same:
  assumes "pick_healthy clock ok js bs = (bs', r)"
  shows "list_all2 same_backend bs bs'"
  using assms
proof (induction js arbitrary: bs)
  case Nil
  then show ?case by (simp add: list_all2_same)
next
  case (Cons j js)
  obtain b h where bh: "be_healthy (clock j) (bs ! j) = (b, h)" by fastforce
  have step: "list_all2 same_backend bs (bs[j := b])"
    using be_healthy_same [of "bs ! j" "clock j"] bh
    by (cases "j < length bs") (auto simp: list_all2_conv_all_nth nth_list_update)
  from Cons.prems consider "pick_healthy clock ok js bs = (bs', r)"
    | "bs' = bs[j := b]" | "pick_healthy clock ok js (bs[j := b]) = (bs', r)"
    by (auto simp: bh Let_def split: if_splits)
  then show ?case
  proof cases
    case 3
    from list_all2_trans [OF _ step Cons.IH [OF 3]] same_backend_trans show ?thesis by blast
  qed (use Cons.IH step in auto)
qed

lemma pick_healthy_ok:
  assumes "pick_healthy clock ok js bs = (bs', Some i)"
    and "\<And>a b. same_backend a b \<Longrightarrow> ok b = ok a" and "set js \<subseteq> {..<length bs}"
  shows "i \<in> set js \<and> ok (bs ! i)"
  using assms(1,3)
proof (induction js arbitrary: bs)
  case (Cons j js)
  obtain b h where bh: "be_healthy (clock j) (bs ! j) = (b, h)" by fastforce
  then have same: "same_backend (bs ! j) b" using be_healthy_same [of "bs ! j" "clock j"] by simp
  show ?case
  proof (cases "ok (bs ! j) \<and> \<not> h")
    case True
    with Cons.prems bh have "pick_healthy clock ok js (bs[j := b]) = (bs', Some i)" by simp
    from Cons.IH [OF this] Cons.prems(2) have "i \<in> set js" "ok (bs[j := b] ! i)" by auto
    moreover have "ok (bs[j := b] ! i) = ok (bs ! i)"
      using assms(2) [OF same] Cons.prems(2) by (cases "i = j") (auto simp: nth_list_update)
    ultimately show ?thesis by simp
  next
    case False
    with Cons.prems Cons.IH [of bs] bh show ?thesis by (auto split: if_splits)
  qed
qed simp

lemma candidates_bound: "set (candidates_for_tier tier bs) \<subseteq> {..<length bs}"
  by (auto simp: candidates_for_tier_def)

lemma candidates_complete: "set (candidates_for_tier tier bs) = {..<length bs}"
  by (auto simp: candidates_for_tier_def)

text \<open>The selected backend is a registered one; it passes policy and tier, or it is a local one.\<close>

lemma selected_cases:
  assumes "select_backend clock clock2 action policy consent dm = (dm', Some (url, scope))"
  shows "\<exists>b\<in>set (dm_backends dm). url = be_url b \<and> scope = scope_value (be_scope b) \<and>
    dm_active_scope dm' = Some (be_scope b) \<and> dm_active_url dm' = Some (be_url b) \<and>
    (policy_allows policy consent (be_scope b) \<and> serves_tier (tier_for_action_type action) b \<or> be_scope b = LOCALHOST)"
proof -
  let ?tier = "tier_for_action_type action"
  let ?ok = "\<lambda>b. policy_allows policy consent (be_scope b) \<and> serves_tier ?tier b"
  have okc: "?ok b = ?ok a" if "same_backend a b" for a b
    using same_backend_fields [OF that] by (simp add: serves_tier_def)
  obtain bs r where p1: "pick_healthy clock ?ok (candidates_for_tier ?tier (dm_backends dm)) (dm_backends dm) = (bs, r)"
    by fastforce
  note same1 = pick_healthy_same [OF p1]
  have result: ?thesis if "i < length (dm_backends dm)" "list_all2 same_backend (dm_backends dm) bs'"
    "activate i bs' dm = (dm', Some (url, scope))" "?ok (dm_backends dm ! i) \<or> be_scope (dm_backends dm ! i) = LOCALHOST"
    for i bs'
    using that same_backend_fields [of "dm_backends dm ! i" "bs' ! i"]
    by (intro bexI [of _ "dm_backends dm ! i"]) (auto simp: activate_def list_all2_conv_all_nth)
  show ?thesis
  proof (cases r)
    case (Some i)
    from pick_healthy_ok [OF p1 [unfolded Some] okc candidates_bound] candidates_bound
    have "i < length (dm_backends dm)" "?ok (dm_backends dm ! i)" by blast+
    with result [OF _ same1, of i] assms p1 Some show ?thesis
      by (simp add: select_backend_def Let_def)
  next
    case None
    obtain bs' r' where p2: "pick_healthy clock2 (\<lambda>b. be_scope b = LOCALHOST) [0..<length bs] bs = (bs', r')"
      by fastforce
    with assms p1 None obtain i where i: "r' = Some i" "activate i bs' dm = (dm', Some (url, scope))"
      by (cases r') (simp_all add: select_backend_def Let_def)
    from pick_healthy_ok [OF p2 [unfolded i]] same_backend_fields have "i < length bs" "be_scope (bs ! i) = LOCALHOST"
      by (auto simp: atLeast0LessThan)
    moreover have "list_all2 same_backend (dm_backends dm) bs'"
      using list_all2_trans [OF _ same1 pick_healthy_same [OF p2]] same_backend_trans by blast
    ultimately show ?thesis
      using result [of i bs'] i same1 same_backend_fields [of "dm_backends dm ! i" "bs ! i"]
      by (auto simp: list_all2_conv_all_nth)
  qed
qed

text \<open>Inference leaves the device only as policy and consent say. A selected backend is a registered one;
  if it is on the internet, the network policy allows the internet and the delegation consent is
  given, and if it is on the local network, the policy does not forbid that.\<close>

theorem delegation_respects_policy:
  assumes "select_backend clock clock2 action policy consent dm = (dm', Some (url, scope))"
  shows "\<exists>b\<in>set (dm_backends dm). url = be_url b \<and> scope = scope_value (be_scope b) \<and>
    (be_scope b = INTERNET \<longrightarrow> truthy (dget policy ''internet'') \<and> consent) \<and>
    (be_scope b = LAN \<longrightarrow> truthy (dget_default policy ''lan'' (PBool True)))"
  using selected_cases [OF assms]
  by (fastforce simp: policy_flag_def dget_default_def dget_def split: option.splits)

text \<open>The registry keeps one entry per scope and address.\<close>

abbreviation backend_key :: "backend \<Rightarrow> backend_scope \<times> string" where
  "backend_key b \<equiv> (be_scope b, be_url b)"

definition registry_inv :: "delegation \<Rightarrow> bool" where
  "registry_inv dm \<longleftrightarrow> distinct (map backend_key (dm_backends dm))"

datatype delegation_op =
    Register backend_scope string string "task_tier list"
  | Unregister backend_scope string
  | Succeeded backend_scope string real
  | Failed backend_scope string real
  | Select "nat \<Rightarrow> real" "nat \<Rightarrow> real" "string option" pydict bool
  | Status "nat \<Rightarrow> real"

fun dm_apply :: "delegation_op \<Rightarrow> delegation \<Rightarrow> delegation" where
  "dm_apply (Register s u t ts) dm = dm_register s u t ts dm"
| "dm_apply (Unregister s u) dm = fst (dm_unregister s u dm)"
| "dm_apply (Succeeded s u l) dm = dm_record_success s u l dm"
| "dm_apply (Failed s u now) dm = dm_record_error s u now dm"
| "dm_apply (Select c c2 a p ok) dm = fst (select_backend c c2 a p ok dm)"
| "dm_apply (Status c) dm = fst (dm_status c dm)"

lemma refresh_keys:
  "map backend_key (refresh e bs) =
     (if backend_key e \<in> backend_key ` set bs then map backend_key bs else map backend_key bs @ [backend_key e])"
  by (induction bs) auto

lemma remove_first_keys: "distinct (map f xs) \<Longrightarrow> distinct (map f (remove_first P xs))"
proof (induction xs)
  case (Cons x xs)
  have "set (remove_first P xs) \<subseteq> set xs" by (induction xs) auto
  with Cons show ?case by auto
qed simp

lemma update_first_keys: "(\<And>x. f (g x) = f x) \<Longrightarrow> map f (update_first P g xs) = map f xs"
  by (induction xs) auto

lemma same_backend_keys: "list_all2 same_backend bs bs' \<Longrightarrow> map backend_key bs' = map backend_key bs"
  by (induction rule: list_all2_induct) (auto dest: same_backend_fields)

lemma select_backends:
  "list_all2 same_backend (dm_backends dm) (dm_backends (fst (select_backend c c2 a p ok dm)))"
proof -
  let ?ok = "\<lambda>b. policy_allows p ok (be_scope b) \<and> serves_tier (tier_for_action_type a) b"
  obtain bs r where p1:
    "pick_healthy c ?ok (candidates_for_tier (tier_for_action_type a) (dm_backends dm)) (dm_backends dm) = (bs, r)"
    by fastforce
  obtain bs' r' where p2: "pick_healthy c2 (\<lambda>b. be_scope b = LOCALHOST) [0..<length bs] bs = (bs', r')" by fastforce
  note same = pick_healthy_same [OF p1] pick_healthy_same [OF p2]
  have "list_all2 same_backend (dm_backends dm) bs'"
    using list_all2_trans [OF _ same] same_backend_trans by blast
  with same(1) show ?thesis
    by (simp add: select_backend_def Let_def p1 p2 activate_def split: option.splits)
qed

lemma status_backends: "list_all2 same_backend (dm_backends dm) (dm_backends (fst (dm_status c dm)))"
  using be_healthy_same by (auto simp: dm_status_def Let_def list_all2_conv_all_nth nth_enumerate_eq)

lemma dm_apply_inv: "registry_inv dm \<Longrightarrow> registry_inv (dm_apply q dm)"
  using same_backend_keys [OF select_backends] same_backend_keys [OF status_backends]
  by (cases q)
     (auto simp: registry_inv_def dm_register_def refresh_keys dm_unregister_def Let_def dm_record_success_def
       dm_record_error_def be_record_success_def be_record_error_def update_first_keys remove_first_keys)

interpretation registry: invariant_machine dm_apply registry_inv
  by unfold_locales (rule dm_apply_inv)

text \<open>The registry holds each endpoint once: after any sequence of registrations, removals, reports,
  selections and status reads, no two backends have the same scope and address.\<close>

theorem registry_has_no_duplicates:
  "distinct (map (\<lambda>b. (be_scope b, be_url b)) (dm_backends (run_ops dm_apply ps new_delegation)))"
  using registry.inv_run [of new_delegation ps] by (simp add: registry_inv_def new_delegation_def)

subsection \<open>Where the routing surprises\<close>

definition one_backend :: "backend_scope \<Rightarrow> delegation" where
  "one_backend scope = dm_register scope ''http://h'' ''ollama'' [] new_delegation"

lemma one_backend_list: "dm_backends (one_backend scope) = [new_backend scope ''http://h'' ''ollama'' []]"
  by (simp add: one_backend_def dm_register_def new_delegation_def)

lemma url_kept: "py_rstrip_char (CHR ''/'') ''http://h'' = ''http://h''"
  by (simp add: py_rstrip_char_def)

lemmas select_eval = select_backend_def tier_for_action_type_def default_tier_map_def one_backend_list
  candidates_for_tier_def policy_flag_def dget_default_def serves_tier_def be_healthy_def activate_def new_backend_def url_kept

text \<open>The action types described as always local go to another scope when no local backend is
  registered.\<close>

theorem light_task_leaves_device:
  "snd (select_backend c c2 (Some ''record_observation'') [] False (one_backend LAN)) = Some (''http://h'', ''lan'')"
  by (simp add: select_eval)

text \<open>The local fallback is taken even when the policy forbids the local scope.\<close>

theorem local_fallback_ignores_policy:
  "snd (select_backend c c2 (Some ''speak'') [(''localhost'', PBool False)] False (one_backend LOCALHOST)) =
     Some (''http://h'', ''localhost'')"
  by (simp add: select_eval)

text \<open>An address is stored without its trailing slash, and is not found again under the spelling it was
  registered with.\<close>

theorem unregister_misses_trailing_slash:
  "snd (dm_unregister LAN ''http://h/'' (dm_register LAN ''http://h/'' ''ollama'' [] new_delegation)) = False"
  by (simp add: dm_unregister_def dm_register_def new_delegation_def new_backend_def is_backend_def py_rstrip_char_def)

theorem delegation_respects_policy_witness:
  "\<exists>b\<in>set (dm_backends (one_backend LAN)). be_url b = ''http://h'' \<and> be_scope b = LAN"
proof -
  have "select_backend (\<lambda>_. 0) (\<lambda>_. 0) (Some ''speak'') [] False (one_backend LAN) =
      (fst (select_backend (\<lambda>_. 0) (\<lambda>_. 0) (Some ''speak'') [] False (one_backend LAN)), Some (''http://h'', ''lan''))"
    by (simp add: select_eval)
  from delegation_respects_policy [OF this] show ?thesis by (simp add: one_backend_list new_backend_def url_kept)
qed

end
