(* ===== verification/Capability_Map.thy ===== *)
theory Capability_Map
  imports Policy "HOL-Library.Product_Lexorder"
begin

text \<open>
  Who offers what, \<open>src/capabilities.py\<close>: reading advertised capabilities, rewriting locators, and resolving
  a capability to a peer that answers. Whether a connection to a host and port succeeds is a
  parameter (\<open>reach\<close>), and so is the address of this host (\<open>here\<close>).
\<close>

subsection \<open>Advertisements\<close>

definition VOCABULARY :: "string list" where
  "VOCABULARY = [''reasoning'', ''persona'', ''perception'', ''capacity'']"

definition KNOWN :: "string list" where
  "KNOWN = [''capacity'', ''perception'', ''persona'', ''reasoning'']"

definition MAX_CAPS_PER_NODE :: nat where "MAX_CAPS_PER_NODE = 8"
definition MAX_LOCATOR_CHARS :: nat where "MAX_LOCATOR_CHARS = 160"

definition cap_items :: "pyval \<Rightarrow> (string \<times> pyval) list" where
  "cap_items caps = (case caps of PDict d \<Rightarrow> d | PList xs \<Rightarrow> map (\<lambda>x. (py_str x, PStr [])) xs
     | PTuple xs \<Rightarrow> map (\<lambda>x. (py_str x, PStr [])) xs | _ \<Rightarrow> [])"

definition cap_key :: "string \<Rightarrow> string" where
  "cap_key name = py_lower (py_strip name)"

fun add_caps :: "(string \<times> pyval) list \<Rightarrow> (string \<times> string) list \<Rightarrow> (string \<times> string) list" where
  "add_caps [] out = out"
| "add_caps ((name, locator) # items) out =
     (if cap_key name \<notin> set VOCABULARY \<or> cap_key name \<in> fst ` set out then add_caps items out
      else add_caps items
        (out @ [(cap_key name, take MAX_LOCATOR_CHARS (py_strip (py_str (py_or locator (PStr [])))))]))"

definition normalise :: "pyval \<Rightarrow> (string \<times> string) list" where
  "normalise caps = add_caps (take MAX_CAPS_PER_NODE (cap_items caps)) []"

definition claim :: "bool \<Rightarrow> string \<Rightarrow> bool \<Rightarrow> bool \<Rightarrow> (string \<times> string) list" where
  "claim reasoning persona perception capacity =
     (if reasoning then [(''reasoning'', [])] else []) @
     (if persona \<noteq> [] then [(''persona'', persona)] else []) @
     (if perception then [(''perception'', [])] else []) @
     (if capacity then [(''capacity'', [])] else [])"

subsection \<open>Locators\<close>

definition loopback_hosts :: "string list" where
  "loopback_hosts = [''127.0.0.1'', ''localhost'', ''::1'', ''0.0.0.0'']"

text \<open>The part of a text up to and including the first \<open>//\<close>, if there is one.\<close>

definition scheme_prefix :: "string \<Rightarrow> string" where
  "scheme_prefix s =
     (if py_contains s ''//'' then take (length s - length (after_sep ''//'' s)) s else [])"

definition advertised_locator :: "string \<Rightarrow> string \<Rightarrow> string \<Rightarrow> string" where
  "advertised_locator here url host =
     (let txt = py_strip url in
      if txt = [] then []
      else let (host_part, sep, rest) = partition_at (CHR '':'') (split_last ''//'' txt);
               tail = (if sep then CHR '':'' # rest else []) in
        if py_lower (py_strip host_part) \<in> set loopback_hosts
        then let reachable = (if py_strip host = [] then here else py_strip host) in
          (if reachable = [] then [] else scheme_prefix txt @ reachable @ tail)
        else scheme_prefix txt @ host_part @ tail)"

definition is_local_locator :: "string \<Rightarrow> bool" where
  "is_local_locator url =
     (py_lower (py_strip (fst (partition_at (CHR '':'') (split_last ''//'' (py_strip url))))) \<in> set ([] # loopback_hosts))"

definition address_of :: "string \<Rightarrow> string" where
  "address_of locator =
     (let txt = py_strip locator in
      if txt = [] then [] else split_first (CHR ''?'') (split_first (CHR ''/'') (split_last ''//'' txt)))"

definition resolve_addr :: "(string \<Rightarrow> int \<Rightarrow> bool) \<Rightarrow> string \<Rightarrow> bool" where
  "resolve_addr reach address =
     (let (host, _, port) = rpartition_at (CHR '':'') address in
      if host = [] \<or> port = [] \<or> \<not> list_all is_digit port then False
      else reach host (digits_value 0 port))"

subsection \<open>The map\<close>

record capability_map =
  cm_verify :: bool
  cm_hosts :: "(string \<times> string) list"
  cm_peers :: "pydict list"

definition new_capability_map :: "pyval list \<Rightarrow> bool \<Rightarrow> (string \<times> string) list \<Rightarrow> capability_map" where
  "new_capability_map peers verify hosts =
     \<lparr>cm_verify = verify, cm_hosts = hosts, cm_peers = map as_dict (filter is_dict peers)\<rparr>"

definition reachable_locator :: "capability_map \<Rightarrow> string \<Rightarrow> string \<Rightarrow> string \<times> bool" where
  "reachable_locator cm locator node =
     (let txt = py_strip locator;
          (host, _, tail) = partition_at (CHR '':'') (address_of txt) in
      if py_lower (py_strip host) \<notin> set loopback_hosts then (txt, False)
      else let (known_host, _, known_port) = rpartition_at (CHR '':'')
                 (address_of (case map_of (cm_hosts cm) node of None \<Rightarrow> [] | Some h \<Rightarrow> h)) in
        if known_host = [] then (txt, False)
        else let port0 = split_first (CHR ''/'') tail;
                 port = (if port0 = [] then known_port else port0);
                 path = (if CHR ''/'' \<in> set tail then CHR ''/'' # snd (snd (partition_at (CHR ''/'') tail)) else [])
             in (scheme_prefix txt @ known_host @ '':'' @ port @ path, True))"

record offer =
  of_node :: string
  of_locator :: string
  of_mem :: int
  of_role :: string
  of_substituted :: bool
  of_reachable :: bool

definition peer_name :: "pydict \<Rightarrow> string" where
  "peer_name peer = py_str (py_or (py_or (dget peer ''node_id'') (dget peer ''device_id'')) (PStr []))"

text \<open>What one peer offers; the headroom is converted when the offers are sorted, which raises if it is not
  a number.\<close>

definition offer_of :: "(string \<Rightarrow> int \<Rightarrow> bool) \<Rightarrow> capability_map \<Rightarrow> string \<Rightarrow> pydict \<Rightarrow> (py_exn + offer) option" where
  "offer_of reach cm name peer =
     (case map_of (normalise (dget peer ''caps'')) name of
        None \<Rightarrow> None
      | Some locator \<Rightarrow>
          (let node = peer_name peer;
               (loc, sub) = (if locator = [] then ([], False) else reachable_locator cm locator node);
               ok = (if locator = [] then True
                     else if cm_verify cm then resolve_addr reach (address_of loc) else True)
           in Some (case py_int (py_or (dget peer ''mem_available_bytes'') (PInt 0)) of
                      Inl e \<Rightarrow> Inl e
                    | Inr m \<Rightarrow> Inr \<lparr>of_node = node, of_locator = loc, of_mem = m,
                        of_role = py_str (py_or (dget peer ''role'') (PStr [])), of_substituted = sub, of_reachable = ok\<rparr>)))"

fun collect :: "(py_exn + 'a) list \<Rightarrow> py_exn + 'a list" where
  "collect [] = Inr []"
| "collect (Inl e # xs) = Inl e"
| "collect (Inr a # xs) = map_sum id ((#) a) (collect xs)"

definition offer_rank :: "offer \<Rightarrow> int \<times> int \<times> string" where
  "offer_rank o1 = ((if of_reachable o1 then 0 else 1), - of_mem o1, of_node o1)"

definition offers :: "(string \<Rightarrow> int \<Rightarrow> bool) \<Rightarrow> capability_map \<Rightarrow> string \<Rightarrow> py_exn + offer list" where
  "offers reach cm capability =
     map_sum id (sort_key offer_rank)
       (collect (List.map_filter (offer_of reach cm (cap_key capability)) (cm_peers cm)))"

record resolution =
  re_node :: "string option"
  re_locator :: "string option"
  re_reason :: string
  re_offered :: "offer list"

definition nobody :: "string \<Rightarrow> offer list \<Rightarrow> resolution" where
  "nobody reason offered = \<lparr>re_node = None, re_locator = None, re_reason = reason, re_offered = offered\<rparr>"

definition in_quotes :: "string \<Rightarrow> string" where
  "in_quotes s = [CHR 0x27] @ s @ [CHR 0x27]"

definition cap_resolve :: "(string \<Rightarrow> int \<Rightarrow> bool) \<Rightarrow> capability_map \<Rightarrow> string \<Rightarrow> py_exn + resolution" where
  "cap_resolve reach cm capability =
     (let name = cap_key capability in
      if name \<notin> set VOCABULARY then Inr (nobody (''unknown capability '' @ in_quotes name) [])
      else case offers reach cm name of
             Inl e \<Rightarrow> Inl e
           | Inr offered \<Rightarrow> Inr (
               if offered = []
               then (if cm_peers cm = [] then nobody (''no live peers to offer '' @ in_quotes name) []
                     else nobody (''no live peer advertises '' @ in_quotes name @ '' ('' @
                            show_nat (length (cm_peers cm)) @ '' live)'') [])
               else case filter of_reachable offered of
                      [] \<Rightarrow> nobody (''every peer advertising '' @ in_quotes name @ '' is unreachable ('' @
                              join_sep '', '' (map of_node offered) @ '')'') offered
                    | best # _ \<Rightarrow>
                        \<lparr>re_node = Some (of_node best), re_locator = Some (of_locator best),
                         re_reason = of_node best @ '' offers '' @ in_quotes name @
                           (if of_substituted best then '' (at the peer'' @ [CHR 0x27] @ ''s own address)'' else []) @
                           (if of_locator best \<noteq> [] then [] else '' (no locator needed)''),
                         re_offered = offered\<rparr>))"

text \<open>Resolving every known capability; a resolution that raises makes the summary raise.\<close>

definition cap_summary :: "(string \<Rightarrow> int \<Rightarrow> bool) \<Rightarrow> capability_map \<Rightarrow> py_exn + string" where
  "cap_summary reach cm =
     map_sum id (join_sep '','')
       (collect (map (\<lambda>name. map_sum id (\<lambda>r. name @ ''->'' @
          (case re_node r of None \<Rightarrow> ''none'' | Some n \<Rightarrow> if n = [] then ''none'' else n)) (cap_resolve reach cm name)) KNOWN))"

subsection \<open>Reading advertisements\<close>

definition caps_ok :: "(string \<times> string) list \<Rightarrow> bool" where
  "caps_ok out \<longleftrightarrow> fst ` set out \<subseteq> set VOCABULARY \<and> distinct (map fst out) \<and>
     list_all (\<lambda>(k, l). length l \<le> MAX_LOCATOR_CHARS) out"

lemma add_caps_ok: "caps_ok out \<Longrightarrow> caps_ok (add_caps items out)"
  by (induction items out rule: add_caps.induct) (auto simp: caps_ok_def)

text \<open>A peer's claims are bounded. Whatever value a peer sends as its capabilities, what is kept has
  only names of the vocabulary, each at most once, with locators of at most 160 characters.\<close>

theorem normalise_bounded:
  "fst ` set (normalise caps) \<subseteq> set VOCABULARY \<and> distinct (map fst (normalise caps)) \<and>
   length (normalise caps) \<le> 4 \<and> list_all (\<lambda>(k, l). length l \<le> 160) (normalise caps)"
proof -
  have ok: "caps_ok (normalise caps)"
    unfolding normalise_def by (rule add_caps_ok) (simp add: caps_ok_def)
  then have "length (normalise caps) = card (fst ` set (normalise caps))"
    by (metis caps_ok_def distinct_card length_map list.set_map)
  also have "\<dots> \<le> card (set VOCABULARY)"
    using ok by (intro card_mono) (auto simp: caps_ok_def)
  finally show ?thesis
    using ok card_length [of VOCABULARY] by (simp add: caps_ok_def MAX_LOCATOR_CHARS_def VOCABULARY_def)
qed

subsection \<open>Resolving\<close>

lemma collect_elem: "collect xs = Inr ys \<Longrightarrow> set ys = {a. Inr a \<in> set xs}"
proof (induction xs arbitrary: ys rule: collect.induct)
  case (3 a xs)
  then obtain zs where "collect xs = Inr zs" "ys = a # zs" by (cases "collect xs") auto
  with 3 show ?case by auto
qed auto

lemma offer_of_usable:
  "offer_of reach cm name peer = Some (Inr x) \<Longrightarrow> of_reachable x \<Longrightarrow>
     name \<in> fst ` set (normalise (dget peer ''caps'')) \<and> of_node x = peer_name peer \<and>
     (of_locator x = [] \<or> \<not> cm_verify cm \<or> resolve_addr reach (address_of (of_locator x)))"
  by (auto simp: offer_of_def Let_def split: option.splits sum.splits prod.splits if_splits
      dest!: map_of_SomeD intro: rev_image_eqI)

lemma offers_elem:
  assumes "offers reach cm name = Inr os"
  shows "set os = {x. \<exists>peer\<in>set (cm_peers cm). offer_of reach cm (cap_key name) peer = Some (Inr x)}"
proof -
  obtain ys where ys: "collect (List.map_filter (offer_of reach cm (cap_key name)) (cm_peers cm)) = Inr ys"
    and os: "os = sort_key offer_rank ys"
    using assms by (auto simp: offers_def map_sum_def split: sum.splits)
  have "set os = set ys" by (simp add: os)
  then show ?thesis by (auto simp: collect_elem [OF ys] List.map_filter_def image_iff)
qed

lemma offers_sorted: "offers reach cm name = Inr os \<Longrightarrow> sorted (map offer_rank os)"
  by (auto simp: offers_def map_sum_def split: sum.splits)

text \<open>Advertised is not usable. When a capability resolves to a node, that node is a peer that
  advertises it, and, unless no address is needed or verification is off, its address has just
  answered; and no peer that answers has more headroom.\<close>

theorem resolved_peer_answers:
  assumes "cap_resolve reach cm capability = Inr r" and "re_node r = Some n"
  shows "\<exists>best peer. best \<in> set (re_offered r) \<and> of_node best = n \<and> peer \<in> set (cm_peers cm) \<and> peer_name peer = n \<and>
    re_locator r = Some (of_locator best) \<and>
    (of_locator best = [] \<or> \<not> cm_verify cm \<or> resolve_addr reach (address_of (of_locator best))) \<and>
    list_all (\<lambda>x. of_reachable x \<longrightarrow> of_mem x \<le> of_mem best) (re_offered r)"
proof -
  let ?name = "cap_key capability"
  obtain os where os: "offers reach cm ?name = Inr os"
    using assms by (auto simp: cap_resolve_def Let_def nobody_def split: if_splits sum.splits)
  obtain best rest where f: "filter of_reachable os = best # rest"
    using assms os by (auto simp: cap_resolve_def Let_def nobody_def split: if_splits list.splits)
  have r: "re_offered r = os" "of_node best = n" "re_locator r = Some (of_locator best)"
    using assms os f by (auto simp: cap_resolve_def Let_def nobody_def split: if_splits)
  have mem: "best \<in> set os" "of_reachable best"
    using arg_cong [OF f, of set] by auto
  with offers_elem [OF os] obtain peer where peer: "peer \<in> set (cm_peers cm)"
    "offer_of reach cm (cap_key ?name) peer = Some (Inr best)" by auto
  have "sorted (map offer_rank (filter of_reachable os))"
    using offers_sorted [OF os] by (simp add: sorted_filter)
  then have "of_mem x \<le> of_mem best" if "x \<in> set os" "of_reachable x" for x
  proof -
    from that arg_cong [OF f, of set] have "x = best \<or> x \<in> set rest" by auto
    with \<open>sorted _\<close> f have "x = best \<or> offer_rank best \<le> offer_rank x" by auto
    with that mem show ?thesis by (auto simp: offer_rank_def)
  qed
  with offer_of_usable [OF peer(2) mem(2)] peer(1) mem r show ?thesis
    by (intro exI [of _ best] exI [of _ peer]) (auto simp: list_all_iff)
qed

text \<open>A locator whose host is replaced by the peer's address loses its path: the path is looked for in
  a text from which it was already cut off.\<close>

theorem substitution_drops_path:
  "reachable_locator (new_capability_map [] True [(''pc'', ''10.0.0.5:7070'')]) ''http://127.0.0.1:11434/v1'' ''pc'' =
     (''http://10.0.0.5:11434'', True)"
  by code_simp

definition one_peer :: pyval where
  "one_peer = PDict [(''node_id'', PStr ''cam''), (''caps'', PDict [(''perception'', PNone)])]"

theorem resolved_peer_answers_witness:
  "\<exists>r. cap_resolve (\<lambda>_ _. False) (new_capability_map [one_peer] True []) ''perception'' = Inr r \<and>
     re_node r = Some ''cam'' \<and> re_locator r = Some []"
proof -
  have r: "map_sum id (\<lambda>r. (re_node r, re_locator r))
      (cap_resolve (\<lambda>_ _. False) (new_capability_map [one_peer] True []) ''perception'') = Inr (Some ''cam'', Some [])"
    by code_simp
  then obtain r where "cap_resolve (\<lambda>_ _. False) (new_capability_map [one_peer] True []) ''perception'' = Inr r"
    "re_node r = Some ''cam''" "re_locator r = Some []"
    by (cases "cap_resolve (\<lambda>_ _. False) (new_capability_map [one_peer] True []) ''perception''") auto
  with resolved_peer_answers [OF this(1,2)] show ?thesis by blast
qed

end
