(* ===== verification/Response_Routing.thy ===== *)
theory Response_Routing
  imports Json "HOL-Library.Product_Lexorder"
begin

text \<open>
  Which device answers, \<open>src/response_routing.py\<close>: a proximity score per device from the perception facts it
  published, a deterministic ranking, and the choice of a mouth. Scores are in thousandths: every
  weight is a multiple of 0.05 and the code rounds to three digits, so this loses nothing. Parameters:
  \<open>num\<close> is the number a float's \<open>repr\<close> denotes (\<open>None\<close> for NaN), \<open>fmt\<close> and \<open>fmt0\<close> the formatting of
  scores and ages in reasons. Infinite floats are left out.
\<close>

subsection \<open>Facts\<close>

definition sum_bind :: "'e + 'a \<Rightarrow> ('a \<Rightarrow> 'e + 'b) \<Rightarrow> 'e + 'b" where
  "sum_bind m f = (case m of Inl e \<Rightarrow> Inl e | Inr x \<Rightarrow> f x)"

text \<open>\<open>isinstance(v, (int, float))\<close> with its value; comparisons with NaN are false.\<close>

fun numeric :: "(string \<Rightarrow> real option) \<Rightarrow> pyval \<Rightarrow> real option option" where
  "numeric num (PInt i) = Some (Some (of_int i))"
| "numeric num (PBool b) = Some (Some (if b then 1 else 0))"
| "numeric num (PFloat r) = Some (num r)"
| "numeric num _ = None"

definition bare_key :: "string \<Rightarrow> string" where
  "bare_key k = (if py_startswith k ''remote_'' then drop 7 k else k)"

definition facts_dict :: "pyval \<Rightarrow> py_exn + pydict" where
  "facts_dict v = (if \<not> truthy v then Inr [] else case v of PDict d \<Rightarrow> Inr d | _ \<Rightarrow> Inl AttributeErr)"

text \<open>\<open>int(faces) > 0\<close>; a NaN raises.\<close>

definition face_flag :: "(string \<Rightarrow> real option) \<Rightarrow> pyval \<Rightarrow> py_exn + bool" where
  "face_flag num v = (case numeric num v of Some (Some x) \<Rightarrow> Inr (x \<ge> 1) | _ \<Rightarrow> Inl ValueErr)"

definition normalise_facts :: "(string \<Rightarrow> real option) \<Rightarrow> pyval \<Rightarrow> py_exn + pydict" where
  "normalise_facts num facts =
     sum_bind (facts_dict facts) (\<lambda>d.
       let out = fold (\<lambda>(k, v). dset (bare_key k) v) d [] in
       if map_of out ''face_present'' = None \<and> numeric num (dget out ''face_count'') \<noteq> None
       then map_sum id (\<lambda>b. dset ''face_present'' (PBool b) out) (face_flag num (dget out ''face_count''))
       else Inr out)"

subsection \<open>The score\<close>

definition directed_sources :: "string list" where
  "directed_sources = [''instruction_directed'', ''verified_person'', ''person_talking'']"

definition ambient_sources :: "string list" where
  "ambient_sources = [''ambient_noise'', ''unattributed_audio'', ''unattributed_speech'', ''none'', []]"

definition text_of :: "pydict \<Rightarrow> string \<Rightarrow> string" where
  "text_of f k = py_lower (py_strip (py_str (py_or (dget f k) (PStr []))))"

definition flag_part :: "pydict \<Rightarrow> string \<Rightarrow> int \<Rightarrow> string \<Rightarrow> (int \<times> string) list" where
  "flag_part f k weight why = (if truthy (dget f k) then [(weight, why)] else [])"

definition speech_part :: "string \<Rightarrow> (int \<times> string) list" where
  "speech_part source =
     (if source \<in> set directed_sources then [(300, ''speech:'' @ source)]
      else if source \<noteq> [] \<and> source \<notin> set ambient_sources then [(200, ''speech:'' @ source)] else [])"

definition utterance_part :: "(string \<Rightarrow> real option) \<Rightarrow> pydict \<Rightarrow> (int \<times> string) list" where
  "utterance_part num f =
     (case numeric num (dget_default f ''utterance_age_s'' (dget f ''transcript_age_s'')) of
        Some (Some a) \<Rightarrow>
          (if a \<le> 5 then [(100, ''just-spoke'')] else if a \<le> 15 then [(50, ''spoke-recently'')] else [])
      | Some None \<Rightarrow> []
      | None \<Rightarrow> flag_part f ''speech_recent'' 100 ''speech-recent'')"

definition signals :: "(string \<Rightarrow> real option) \<Rightarrow> pydict \<Rightarrow> (int \<times> string) list" where
  "signals num f =
     flag_part f ''face_present'' 350 ''face'' @ flag_part f ''gaze_toward_camera'' 150 ''gaze'' @
     speech_part (text_of f ''speech_source'') @ flag_part f ''voice_active'' 100 ''voice'' @
     flag_part f ''presence_present'' 150 ''present'' @ flag_part f ''terminal_active'' 300 ''terminal-input'' @
     utterance_part num f"

definition attention_part :: "string \<Rightarrow> (int \<times> string) list" where
  "attention_part attention =
     (if attention = ''attending'' then [(100, ''attending'')]
      else if attention \<in> {''absent'', ''diverted''} then [(0, ''attention:'' @ attention)] else [])"

definition proximity_score :: "(string \<Rightarrow> real option) \<Rightarrow> (pyval \<Rightarrow> string) \<Rightarrow> pyval \<Rightarrow> pyval \<Rightarrow>
    py_exn + (int \<times> string list)" where
  "proximity_score num fmt0 facts age_s =
     sum_bind (normalise_facts num facts) (\<lambda>f.
       let attention = text_of f ''attention_state'';
           parts = signals num f @ attention_part attention;
           score = sum_list (map fst parts); why = map snd parts
       in if attention \<in> {''absent'', ''diverted''} \<and> \<not> truthy (dget f ''face_present'')
          then Inr (0, [''attention:'' @ attention])
          else case numeric num age_s of
                 Some (Some a) \<Rightarrow>
                   (if a \<ge> 45 then Inr (0, why @ [''stale('' @ fmt0 age_s @ ''s)''])
                    else if a > 15 then Inr (min 1000 (score div 2), why @ [''aged('' @ fmt0 age_s @ ''s)''])
                    else Inr (min 1000 score, why))
               | _ \<Rightarrow> Inr (min 1000 score, why))"

subsection \<open>Ranking and choice\<close>

record mouth =
  mo_device :: string
  mo_score :: int
  mo_why :: "string list"
  mo_can_speak :: bool
  mo_is_self :: bool
  mo_priority :: int

definition device_of :: "pydict \<Rightarrow> string" where
  "device_of c = py_strip (py_str (py_or (dget c ''device_id'') (PStr [])))"

definition mouth_of :: "(string \<Rightarrow> real option) \<Rightarrow> (pyval \<Rightarrow> string) \<Rightarrow> pydict \<Rightarrow> py_exn + mouth" where
  "mouth_of num fmt0 c =
     sum_bind (proximity_score num fmt0 (dget c ''facts'') (dget c ''age_s'')) (\<lambda>(score, why).
     sum_bind (py_int (dget_default c ''priority'' (PInt 500))) (\<lambda>priority. Inr
       \<lparr>mo_device = device_of c, mo_score = score, mo_why = why,
        mo_can_speak = truthy (dget_default c ''can_speak'' (PBool True)),
        mo_is_self = truthy (dget c ''is_self''), mo_priority = priority\<rparr>))"

fun score_all :: "(string \<Rightarrow> real option) \<Rightarrow> (pyval \<Rightarrow> string) \<Rightarrow> pyval list \<Rightarrow> py_exn + mouth list" where
  "score_all num fmt0 [] = Inr []"
| "score_all num fmt0 (PDict c # cs) =
     (if device_of c = [] then score_all num fmt0 cs
      else sum_bind (mouth_of num fmt0 c) (\<lambda>m. map_sum id ((#) m) (score_all num fmt0 cs)))"
| "score_all num fmt0 (v # cs) = score_all num fmt0 cs"

definition mouth_rank :: "mouth \<Rightarrow> int \<times> int \<times> int \<times> string" where
  "mouth_rank m = (- mo_score m, (if mo_can_speak m then 0 else 1), mo_priority m, mo_device m)"

definition rank_mouths :: "(string \<Rightarrow> real option) \<Rightarrow> (pyval \<Rightarrow> string) \<Rightarrow> pyval list \<Rightarrow> py_exn + mouth list" where
  "rank_mouths num fmt0 candidates = map_sum id (sort_key mouth_rank) (score_all num fmt0 candidates)"

definition DEFAULT_FLOOR :: int where "DEFAULT_FLOOR = 200"

definition sq :: "string \<Rightarrow> string" where
  "sq s = [CHR 0x27] @ s @ [CHR 0x27]"

definition forced_choice :: "string \<Rightarrow> mouth list \<Rightarrow> mouth option \<times> string" where
  "forced_choice wanted ranked =
     (case find (\<lambda>m. mo_device m = wanted) ranked of
        None \<Rightarrow> (None, ''operator forced '' @ sq wanted @ '' but it is not a known device'')
      | Some m \<Rightarrow>
          if \<not> mo_can_speak m
          then (None, ''operator forced '' @ sq wanted @ '' but that device reports no speech output'')
          else (Some m, ''operator forced '' @ sq wanted))"

definition nearest_choice :: "(int \<Rightarrow> string) \<Rightarrow> int \<Rightarrow> mouth list \<Rightarrow> mouth option \<times> string" where
  "nearest_choice fmt floor_score ranked =
     (case filter mo_can_speak ranked of
        [] \<Rightarrow> (None, ''no device reports speech output'')
      | best # _ \<Rightarrow>
          if mo_score best < floor_score
          then (None, ''nobody reports the operator present (best is '' @ mo_device best @ '' at '' @
                  fmt (mo_score best) @ '' < '' @ fmt floor_score @ '')'')
          else (Some best, mo_device best @ '' is closest to the operator (score '' @ fmt (mo_score best) @ '': '' @
                  (if mo_why best = [] then ''no signals'' else join_sep '', '' (mo_why best)) @ '')''))"

definition select_mouth :: "(string \<Rightarrow> real option) \<Rightarrow> (int \<Rightarrow> string) \<Rightarrow> (pyval \<Rightarrow> string) \<Rightarrow> pyval list \<Rightarrow> int \<Rightarrow>
    string \<Rightarrow> py_exn + (mouth option \<times> string)" where
  "select_mouth num fmt fmt0 candidates floor_score forced =
     map_sum id (\<lambda>ranked.
       if py_strip forced \<notin> {[], ''auto''} then forced_choice (py_strip forced) ranked
       else nearest_choice fmt floor_score ranked)
       (rank_mouths num fmt0 candidates)"

subsection \<open>What the choice guarantees\<close>

lemma sum_bind_Inr: "sum_bind m f = Inr y \<longleftrightarrow> (\<exists>x. m = Inr x \<and> f x = Inr y)"
  by (cases m) (auto simp: sum_bind_def)

lemma signals_nonneg: "list_all (\<lambda>p. 0 \<le> fst p) (signals num f @ attention_part a)"
  by (auto simp: signals_def attention_part_def flag_part_def speech_part_def utterance_part_def
      split: option.splits)

lemma sum_nonneg: "list_all (\<lambda>p. 0 \<le> fst p) ps \<Longrightarrow> 0 \<le> sum_list (map fst ps)" for ps :: "(int \<times> string) list"
  by (induction ps) auto

text \<open>Evidence is bounded, and old or absent evidence counts for nothing. A score is between 0 and 1000
  thousandths; it is 0 when the facts are 45 seconds old or older, and when the attention layer
  reports the human absent or diverted and no face is seen.\<close>

theorem proximity_score_discounts:
  assumes "proximity_score num fmt0 facts age_s = Inr (score, why)"
  shows "0 \<le> score \<and> score \<le> 1000 \<and>
    (\<forall>a. numeric num age_s = Some (Some a) \<and> 45 \<le> a \<longrightarrow> score = 0) \<and>
    (\<forall>f. normalise_facts num facts = Inr f \<and> text_of f ''attention_state'' \<in> {''absent'', ''diverted''} \<and>
       \<not> truthy (dget f ''face_present'') \<longrightarrow> score = 0)"
proof -
  obtain f where f: "normalise_facts num facts = Inr f"
    using assms by (auto simp: proximity_score_def sum_bind_Inr)
  let ?ps = "signals num f @ attention_part (text_of f ''attention_state'')"
  have "0 \<le> sum_list (map fst ?ps)" by (rule sum_nonneg [OF signals_nonneg])
  then show ?thesis
    using assms f
    by (auto simp: proximity_score_def sum_bind_def Let_def split: option.splits if_splits)
qed

lemma score_all_mouths:
  "score_all num fmt0 cs = Inr ms \<Longrightarrow>
     set ms = {m. \<exists>c. PDict c \<in> set cs \<and> device_of c \<noteq> [] \<and> mouth_of num fmt0 c = Inr m}"
proof (induction num fmt0 cs arbitrary: ms rule: score_all.induct)
  case (2 num fmt0 c cs)
  show ?case
  proof (cases "device_of c = []")
    case True
    with 2 show ?thesis by auto
  next
    case False
    with 2(3) obtain m ms' where "mouth_of num fmt0 c = Inr m" "score_all num fmt0 cs = Inr ms'" "ms = m # ms'"
      by (auto simp: sum_bind_Inr map_sum_def split: sum.splits)
    with 2(2) [OF False] False show ?thesis by auto
  qed
qed auto

text \<open>The device that answers can speak and is the closest one. A chosen device is one of the candidates
  and reports speech output; if the operator forced a device, it is that one, and otherwise its
  score reaches the floor and no other speaking device has a higher one. So the agent does not
  speak into an empty room.\<close>

theorem chosen_mouth_is_nearest:
  assumes "select_mouth num fmt fmt0 candidates floor_score forced = Inr (Some m, reason)"
  shows "\<exists>c ms. PDict c \<in> set candidates \<and> mouth_of num fmt0 c = Inr m \<and> mo_can_speak m \<and>
    rank_mouths num fmt0 candidates = Inr ms \<and>
    (if py_strip forced \<notin> {[], ''auto''} then mo_device m = py_strip forced
     else floor_score \<le> mo_score m \<and> list_all (\<lambda>x. mo_can_speak x \<longrightarrow> mo_score x \<le> mo_score m) ms)"
proof -
  obtain ms0 where ms0: "score_all num fmt0 candidates = Inr ms0"
    using assms by (auto simp: select_mouth_def rank_mouths_def map_sum_def split: sum.splits)
  let ?ms = "sort_key mouth_rank ms0"
  have ranked: "rank_mouths num fmt0 candidates = Inr ?ms" by (simp add: rank_mouths_def ms0)
  have cand: "\<exists>c. PDict c \<in> set candidates \<and> mouth_of num fmt0 c = Inr m" if "m \<in> set ?ms"
    using that score_all_mouths [OF ms0] by auto
  show ?thesis
  proof (cases "py_strip forced \<notin> {[], ''auto''}")
    case True
    with assms ranked have "forced_choice (py_strip forced) ?ms = (Some m, reason)"
      by (simp add: select_mouth_def)
    then have "find (\<lambda>x. mo_device x = py_strip forced) ?ms = Some m" "mo_can_speak m"
      by (auto simp: forced_choice_def split: option.splits if_splits)
    moreover from this have "m \<in> set ?ms" "mo_device m = py_strip forced"
      by (auto simp: find_Some_iff simp del: set_sort)
    ultimately show ?thesis using cand ranked True by auto
  next
    case False
    with assms ranked have "nearest_choice fmt floor_score ?ms = (Some m, reason)"
      by (auto simp: select_mouth_def)
    then obtain rest where f: "filter mo_can_speak ?ms = m # rest" and "floor_score \<le> mo_score m"
      by (auto simp: nearest_choice_def split: list.splits if_splits)
    have m: "m \<in> set ?ms" "mo_can_speak m" using arg_cong [OF f, of set] by auto
    have "sorted (map mouth_rank (filter mo_can_speak ?ms))" by (simp add: sorted_filter)
    with f have "x = m \<or> mouth_rank m \<le> mouth_rank x" if "x \<in> set ?ms" "mo_can_speak x" for x
    proof -
      from that have "x \<in> set (filter mo_can_speak ?ms)" by simp
      with \<open>sorted _\<close> show ?thesis unfolding f by auto
    qed
    then have "mo_score x \<le> mo_score m" if "x \<in> set ?ms" "mo_can_speak x" for x
      using that by (fastforce simp: mouth_rank_def)
    with cand m ranked False \<open>floor_score \<le> mo_score m\<close> show ?thesis by (auto simp: list_all_iff)
  qed
qed

definition typed_at :: pyval where
  "typed_at = PDict [(''device_id'', PStr ''pc''), (''facts'', PDict [(''terminal_active'', PBool True)])]"

theorem proximity_score_discounts_witness:
  "\<exists>why. proximity_score (\<lambda>_. None) (\<lambda>_. ''50'') (PDict [(''face_present'', PBool True)]) (PInt 50) = Inr (0, why)"
proof -
  obtain score why where p:
    "proximity_score (\<lambda>_. None) (\<lambda>_. ''50'') (PDict [(''face_present'', PBool True)]) (PInt 50) = Inr (score, why)"
    by (simp add: proximity_score_def normalise_facts_def facts_dict_def sum_bind_def bare_key_def py_startswith_def
        dset_def dget_def Let_def split: if_splits)
  from proximity_score_discounts [OF p] have "score = 0" by simp
  with p show ?thesis by blast
qed

theorem chosen_mouth_is_nearest_witness:
  "\<exists>m reason. select_mouth (\<lambda>_. None) (\<lambda>_. ''0.30'') (\<lambda>_. ''0'') [typed_at] DEFAULT_FLOOR [] = Inr (Some m, reason) \<and>
     mo_can_speak m \<and> DEFAULT_FLOOR \<le> mo_score m"
proof -
  have "map_sum id (\<lambda>p. map_option (\<lambda>m. (mo_device m, mo_score m)) (fst p))
      (select_mouth (\<lambda>_. None) (\<lambda>_. ''0.30'') (\<lambda>_. ''0'') [typed_at] DEFAULT_FLOOR []) = Inr (Some (''pc'', 300))"
    by code_simp
  then obtain m reason where s: "select_mouth (\<lambda>_. None) (\<lambda>_. ''0.30'') (\<lambda>_. ''0'') [typed_at] DEFAULT_FLOOR [] =
      Inr (Some m, reason)"
    by (auto simp: map_sum_def split: sum.splits)
  with chosen_mouth_is_nearest [OF s] show ?thesis
    by (intro exI [of _ m] exI [of _ reason]) (auto simp: py_strip_def strip_by_def)
qed

end
