(* ===== verification/Context_Budget.thy ===== *)
theory Context_Budget
  imports Working_Memory
begin

text \<open>
  The per-section token budgets, \<open>ContextBudget\<close> of \<open>src/token_budget.py\<close>. Shares are reals; the truncation
  marker of the source has thirteen characters, one of them an ellipsis outside the 8-bit range, for which
  the model writes code point 133: only the length of the marker matters.
\<close>

subsection \<open>Operations\<close>

definition ELLIPSIS :: string where
  "ELLIPSIS = '' '' @ [CHR 0x85] @ ''[truncated]''"

definition DEFAULT_ALLOCATIONS :: "(string \<times> real) list" where
  "DEFAULT_ALLOCATIONS = [(''scratchpad'', 30/100), (''memory_context'', 25/100), (''task'', 15/100),
     (''prompt'', 20/100), (''params'', 10/100)]"

record context_budget =
  cb_total :: int
  cb_limits :: "(string \<times> int) list"

definition share_limit :: "int \<Rightarrow> real \<Rightarrow> int" where
  "share_limit total_tokens value =
     (if value \<ge> 1 then \<lfloor>value\<rfloor> else max 1 (if value < 0 then \<lceil>of_int total_tokens * value\<rceil> else \<lfloor>of_int total_tokens * value\<rfloor>))"

definition new_context_budget :: "int \<Rightarrow> (string \<times> real) list \<Rightarrow> context_budget" where
  "new_context_budget total_tokens allocations =
     (let n = max 256 total_tokens;
          shares = fold (\<lambda>(k, v). AList.update k v) allocations DEFAULT_ALLOCATIONS
      in \<lparr>cb_total = n, cb_limits = map (\<lambda>(section, value). (section, share_limit n value)) shares\<rparr>)"

definition cb_limit :: "string \<Rightarrow> context_budget \<Rightarrow> int" where
  "cb_limit section cb = (case map_of (cb_limits cb) section of None \<Rightarrow> 0 | Some n \<Rightarrow> n)"

definition cb_set_limit :: "string \<Rightarrow> int \<Rightarrow> context_budget \<Rightarrow> context_budget" where
  "cb_set_limit section tokens cb = cb\<lparr>cb_limits := AList.update section (max 1 tokens) (cb_limits cb)\<rparr>"

definition cb_fits :: "string \<Rightarrow> string \<Rightarrow> context_budget \<Rightarrow> bool" where
  "cb_fits section s cb = (estimate_tokens s \<le> cb_limit section cb)"

definition cb_truncate :: "string \<Rightarrow> string \<Rightarrow> context_budget \<Rightarrow> string" where
  "cb_truncate section s cb =
     (let limit = cb_limit section cb in
      if limit \<le> 0 then []
      else if estimate_tokens s \<le> limit then s
      else take (nat (max (int (length ELLIPSIS) + 1) (limit * CHARS_PER_TOKEN - int (length ELLIPSIS)))) s @ ELLIPSIS)"

definition cb_usage :: "(string \<times> string) list \<Rightarrow> context_budget \<Rightarrow> (string \<times> int \<times> int) list" where
  "cb_usage texts cb = map (\<lambda>(section, s). (section, estimate_tokens s, cb_limit section cb)) texts"

subsection \<open>Budgets\<close>

lemma length_ELLIPSIS: "length ELLIPSIS = 13"
  by (simp add: ELLIPSIS_def)

lemma estimate_tokens_le: "0 \<le> n \<Longrightarrow> int (length s) \<le> 4 * n \<Longrightarrow> estimate_tokens s \<le> n"
  by (cases s) (auto simp: estimate_tokens_def CHARS_PER_TOKEN_def)

lemma estimate_tokens_gt: "estimate_tokens s > n \<Longrightarrow> 0 < n \<Longrightarrow> int (length s) > 4 * n"
  using estimate_tokens_le [of n s] by linarith

text \<open>Truncation keeps the budget. For a section with a limit of at least seven tokens (or none), the text that
  \<open>truncate\<close> returns fits the section, it is the text itself if that fits, and otherwise uses the budget fully:
  four characters per token, with the marker at the end.\<close>

theorem truncate_within_budget:
  assumes "cb_limit section cb \<le> 0 \<or> 7 \<le> cb_limit section cb"
  shows "estimate_tokens (cb_truncate section s cb) \<le> max 0 (cb_limit section cb) \<and>
     (0 < cb_limit section cb \<and> \<not> cb_fits section s cb \<longrightarrow>
        int (length (cb_truncate section s cb)) = 4 * cb_limit section cb \<and> suffix ELLIPSIS (cb_truncate section s cb))"
proof (cases "cb_limit section cb \<le> 0 \<or> cb_fits section s cb")
  case True
  then show ?thesis
    by (auto simp: cb_truncate_def cb_fits_def Let_def estimate_tokens_def [of "[]"])
next
  case False
  define n where "n = cb_limit section cb"
  from False assms have n: "7 \<le> n" "n < estimate_tokens s" by (auto simp: n_def cb_fits_def)
  from estimate_tokens_gt [OF n(2)] n(1) have "int (length s) > 4 * n" by simp
  with n have eq: "cb_truncate section s cb = take (nat (4 * n - 13)) s @ ELLIPSIS" "length (take (nat (4 * n - 13)) s) = nat (4 * n - 13)"
    by (simp_all add: cb_truncate_def Let_def n_def [symmetric] CHARS_PER_TOKEN_def length_ELLIPSIS max_def mult.commute)
  then have "int (length (cb_truncate section s cb)) = 4 * n" using n by (simp add: length_ELLIPSIS)
  with eq(1) n estimate_tokens_le [of n "cb_truncate section s cb"] show ?thesis
    by (simp add: n_def [symmetric] suffix_def)
qed

theorem truncate_within_budget_witness:
  "estimate_tokens (cb_truncate ''task'' (replicate 100 (CHR ''a'')) (cb_set_limit ''task'' 10 (new_context_budget 256 []))) \<le> 10"
proof -
  have "cb_limit ''task'' (cb_set_limit ''task'' 10 (new_context_budget 256 [])) = 10"
    by (simp add: cb_limit_def cb_set_limit_def update_conv')
  with truncate_within_budget [of "''task''" "cb_set_limit ''task'' 10 (new_context_budget 256 [])"] show ?thesis
    by simp
qed

text \<open>Below seven tokens the marker does not fit: a long text is cut to 27 characters, which are seven tokens, and a
  text just over the budget becomes longer than it was.\<close>

theorem small_budget_is_exceeded:
  assumes "0 < cb_limit section cb" "cb_limit section cb < 7" "27 \<le> length s"
  shows "estimate_tokens (cb_truncate section s cb) = 7"
proof -
  have "estimate_tokens s > cb_limit section cb"
    using assms by (cases s) (auto simp: estimate_tokens_def CHARS_PER_TOKEN_def)
  with assms have "length (cb_truncate section s cb) = 27"
    by (simp add: cb_truncate_def Let_def CHARS_PER_TOKEN_def length_ELLIPSIS max_def)
  then show ?thesis by (cases "cb_truncate section s cb") (auto simp: estimate_tokens_def CHARS_PER_TOKEN_def)
qed

lemma truncation_lengthens:
  "cb_limit section cb = 1 \<Longrightarrow> length (cb_truncate section ''hello'' cb) = 18"
  by (simp add: cb_truncate_def Let_def estimate_tokens_def CHARS_PER_TOKEN_def length_ELLIPSIS)

text \<open>The default allocations are a partition of the window: the limits of the five sections are positive and add up
  to at most the total.\<close>

theorem default_limits_partition:
  "list_all (\<lambda>(_, n). n \<ge> 1) (cb_limits (new_context_budget total_tokens [])) \<and>
   sum_list (map snd (cb_limits (new_context_budget total_tokens []))) \<le> cb_total (new_context_budget total_tokens [])"
proof -
  define n where "n = max 256 total_tokens"
  have n: "256 \<le> n" by (simp add: n_def)
  have "\<lfloor>real_of_int n * (30/100)\<rfloor> + \<lfloor>real_of_int n * (25/100)\<rfloor> + \<lfloor>real_of_int n * (15/100)\<rfloor> +
      \<lfloor>real_of_int n * (20/100)\<rfloor> + \<lfloor>real_of_int n * (10/100)\<rfloor> \<le> n"
    by linarith
  moreover have "1 \<le> \<lfloor>real_of_int n * (30/100)\<rfloor>" "1 \<le> \<lfloor>real_of_int n * (25/100)\<rfloor>" "1 \<le> \<lfloor>real_of_int n * (15/100)\<rfloor>"
    "1 \<le> \<lfloor>real_of_int n * (20/100)\<rfloor>" "1 \<le> \<lfloor>real_of_int n * (10/100)\<rfloor>"
    using n by (simp_all add: le_floor_iff)
  moreover have "cb_total (new_context_budget total_tokens []) = n" "cb_limits (new_context_budget total_tokens []) =
      [(''scratchpad'', max 1 \<lfloor>real_of_int n * (30/100)\<rfloor>), (''memory_context'', max 1 \<lfloor>real_of_int n * (25/100)\<rfloor>),
       (''task'', max 1 \<lfloor>real_of_int n * (15/100)\<rfloor>), (''prompt'', max 1 \<lfloor>real_of_int n * (20/100)\<rfloor>),
       (''params'', max 1 \<lfloor>real_of_int n * (10/100)\<rfloor>)]"
    unfolding new_context_budget_def Let_def n_def [symmetric] DEFAULT_ALLOCATIONS_def share_limit_def by simp_all
  ultimately show ?thesis by (simp add: max_absorb2)
qed

end
