(* ===== verification/Entity_Graph.thy ===== *)
theory Entity_Graph
  imports Semantic_Memory
begin

text \<open>
  The graph queries of the semantic memory (\<open>SemanticMemory.query_subgraph\<close>, \<open>related_entities\<close> and
  \<open>entity_names\<close> of \<open>src/memory_system.py\<close>): entities are adjacent when a fact mentions both. The rows that
  SQLite returns for the adjacency query of an entity are a parameter \<open>peers\<close>: SQL leaves open which of
  the shared facts a group reports and how ties of the ordering are broken. \<open>peers_ok\<close> states what the query
  text promises.
\<close>

subsection \<open>Adjacency\<close>

text \<open>A fact that mentions both entities: the join of the query.\<close>

definition shares_fact :: "semantic \<Rightarrow> string \<Rightarrow> entity \<Rightarrow> int \<Rightarrow> bool" where
  "shares_fact sm name e2 f \<longleftrightarrow> en_name e2 \<noteq> name \<and> (f, en_id e2) \<in> set (sm_links sm) \<and>
     list_ex (\<lambda>e1. en_name e1 = name \<and> (f, en_id e1) \<in> set (sm_links sm)) (sm_entities sm)"

definition adjacent :: "semantic \<Rightarrow> string \<Rightarrow> string \<Rightarrow> bool" where
  "adjacent sm a b \<longleftrightarrow> (\<exists>e\<in>set (sm_entities sm). en_name e = b \<and> (\<exists>f. shares_fact sm a e f))"

type_synonym peer_query = "semantic \<Rightarrow> string \<Rightarrow> (entity \<times> int) list"

text \<open>One row per adjacent entity, with a shared fact, by decreasing number of mentions.\<close>

definition peers_ok :: "peer_query \<Rightarrow> semantic \<Rightarrow> bool" where
  "peers_ok peers sm \<longleftrightarrow> (\<forall>name.
     (\<forall>(e, f)\<in>set (peers sm name). e \<in> set (sm_entities sm) \<and> shares_fact sm name e f) \<and>
     distinct (map (en_id \<circ> fst) (peers sm name)) \<and>
     (\<forall>b. adjacent sm name b \<longrightarrow> b \<in> en_name ` fst ` set (peers sm name)) \<and>
     sorted (map (\<lambda>(e, _). - en_mentions e) (peers sm name)))"

definition co_occurrences :: "semantic \<Rightarrow> string \<Rightarrow> entity \<Rightarrow> int list" where
  "co_occurrences sm name e = filter (shares_fact sm name e) (remdups (map fst (sm_links sm)))"

definition related_entities :: "string \<Rightarrow> int \<Rightarrow> semantic \<Rightarrow> (string \<times> int \<times> int) list" where
  "related_entities entity_name limit sm =
     (let name = py_lower (sanitize_text entity_name 64);
          rows = filter (\<lambda>(_, _, n). n > 0)
            (map (\<lambda>e. (en_name e, en_mentions e, int (length (co_occurrences sm name e)))) (sm_entities sm))
      in take (nat (max 1 limit)) (sort_key (\<lambda>(_, _, n). - n) rows))"

definition entity_names :: "int \<Rightarrow> semantic \<Rightarrow> string list" where
  "entity_names limit sm =
     map en_name (take (nat (max 1 limit)) (sort_key (\<lambda>e. - en_mentions e) (sm_entities sm)))"

subsection \<open>The walk\<close>

record graph_node =
  gn_id :: int
  gn_name :: string
  gn_mentions :: int
  gn_hops :: nat

record subgraph =
  sg_nodes :: "graph_node list"
  sg_edges :: "(string \<times> string \<times> int) list"

definition add_node :: "entity \<Rightarrow> nat \<Rightarrow> subgraph \<Rightarrow> subgraph" where
  "add_node e hops g =
     g\<lparr>sg_nodes := sg_nodes g @ [\<lparr>gn_id = en_id e, gn_name = en_name e, gn_mentions = en_mentions e, gn_hops = hops\<rparr>]\<rparr>"

definition seen_node :: "int \<Rightarrow> subgraph \<Rightarrow> bool" where
  "seen_node i g = (i \<in> set (map gn_id (sg_nodes g)))"

definition add_edge :: "string \<times> string \<times> int \<Rightarrow> subgraph \<Rightarrow> subgraph" where
  "add_edge k g = (if k \<in> set (sg_edges g) then g else g\<lparr>sg_edges := sg_edges g @ [k]\<rparr>)"

definition full :: "int \<Rightarrow> subgraph \<Rightarrow> bool" where
  "full limit g = (int (length (sg_nodes g)) \<ge> limit)"

text \<open>The inner loop: edges are noted, new peers become nodes until the limit is reached, and those that are not at
  the last hop are walked next.\<close>

fun visit_peers :: "int \<Rightarrow> nat \<Rightarrow> nat \<Rightarrow> string \<Rightarrow> (entity \<times> int) list \<Rightarrow> subgraph \<times> string list \<Rightarrow> subgraph \<times> string list" where
  "visit_peers limit depth hops current [] s = s"
| "visit_peers limit depth hops current ((e, f) # ps) (g, next_frontier) =
     (let g1 = add_edge (current, en_name e, f) g in
      if full limit g1 then (g1, next_frontier)
      else if seen_node (en_id e) g1 then visit_peers limit depth hops current ps (g1, next_frontier)
      else visit_peers limit depth hops current ps
             (add_node e (hops + 1) g1, if hops + 1 < depth then next_frontier @ [en_name e] else next_frontier))"

definition visit_root :: "nat \<Rightarrow> entity \<Rightarrow> subgraph \<Rightarrow> subgraph" where
  "visit_root hops e g = (if seen_node (en_id e) g then g else add_node e hops g)"

fun visit_frontier :: "peer_query \<Rightarrow> int \<Rightarrow> nat \<Rightarrow> nat \<Rightarrow> semantic \<Rightarrow> string list \<Rightarrow> subgraph \<times> string list \<Rightarrow> subgraph \<times> string list" where
  "visit_frontier peers limit depth hops sm [] s = s"
| "visit_frontier peers limit depth hops sm (current # cs) (g, next_frontier) =
     (if full limit g then (g, next_frontier)
      else case find (\<lambda>e. en_name e = current) (sm_entities sm) of
             None \<Rightarrow> visit_frontier peers limit depth hops sm cs (g, next_frontier)
           | Some e \<Rightarrow>
               (let g1 = visit_root hops e g;
                    peer_limit = max 1 (limit - int (length (sg_nodes g1)))
                in visit_frontier peers limit depth hops sm cs
                     (visit_peers limit depth hops current (take (nat peer_limit) (peers sm current)) (g1, next_frontier))))"

text \<open>The \<open>while\<close> loop; \<open>hops\<close> grows to \<open>depth\<close> at most.\<close>

function walk :: "peer_query \<Rightarrow> int \<Rightarrow> nat \<Rightarrow> semantic \<Rightarrow> nat \<Rightarrow> string list \<Rightarrow> subgraph \<Rightarrow> subgraph" where
  "walk peers limit depth sm hops frontier g =
     (if frontier = [] \<or> hops > depth \<or> full limit g then g
      else case visit_frontier peers limit depth hops sm frontier (g, []) of
             (g', next_frontier) \<Rightarrow> walk peers limit depth sm (hops + 1) next_frontier g')"
  by pat_completeness auto
termination
  by (relation "measure (\<lambda>(_, _, depth, _, hops, _, _). depth + 1 - hops)") auto

declare walk.simps [simp del]

definition query_subgraph :: "peer_query \<Rightarrow> string \<Rightarrow> int \<Rightarrow> int \<Rightarrow> semantic \<Rightarrow> string \<times> int \<times> subgraph" where
  "query_subgraph peers entity_name depth limit sm =
     (let name = py_lower (sanitize_text entity_name 64); max_depth = max 1 depth
      in (name, max_depth, walk peers limit (nat max_depth) sm 0 [name] \<lparr>sg_nodes = [], sg_edges = []\<rparr>))"

subsection \<open>What the walk returns\<close>

text \<open>Within \<open>n\<close> hops of an entity.\<close>

fun in_hops :: "semantic \<Rightarrow> string \<Rightarrow> nat \<Rightarrow> string \<Rightarrow> bool" where
  "in_hops sm origin 0 x = (x = origin)"
| "in_hops sm origin (Suc n) x = (in_hops sm origin n x \<or> (\<exists>y. in_hops sm origin n y \<and> adjacent sm y x))"

definition node_ok :: "semantic \<Rightarrow> string \<Rightarrow> nat \<Rightarrow> graph_node \<Rightarrow> bool" where
  "node_ok sm origin depth n \<longleftrightarrow> gn_hops n \<le> depth \<and> in_hops sm origin (gn_hops n) (gn_name n) \<and>
     (\<exists>e\<in>set (sm_entities sm). en_id e = gn_id n \<and> en_name e = gn_name n \<and> en_mentions e = gn_mentions n)"

definition edge_ok :: "semantic \<Rightarrow> string \<times> string \<times> int \<Rightarrow> bool" where
  "edge_ok sm = (\<lambda>(a, b, f). \<exists>e\<in>set (sm_entities sm). en_name e = b \<and> shares_fact sm a e f)"

definition subgraph_ok :: "semantic \<Rightarrow> string \<Rightarrow> nat \<Rightarrow> int \<Rightarrow> subgraph \<Rightarrow> bool" where
  "subgraph_ok sm origin depth limit g \<longleftrightarrow> int (length (sg_nodes g)) \<le> max 0 limit \<and> distinct (map gn_id (sg_nodes g)) \<and>
     list_all (node_ok sm origin depth) (sg_nodes g) \<and> distinct (sg_edges g) \<and> list_all (edge_ok sm) (sg_edges g)"

lemma add_edge_ok: "subgraph_ok sm origin depth limit g \<Longrightarrow> edge_ok sm k \<Longrightarrow> subgraph_ok sm origin depth limit (add_edge k g)"
  by (simp add: subgraph_ok_def add_edge_def)

lemma add_node_ok:
  assumes "subgraph_ok sm origin depth limit g" "\<not> full limit g" "\<not> seen_node (en_id e) g"
    and "e \<in> set (sm_entities sm)" "hops \<le> depth" "in_hops sm origin hops (en_name e)"
  shows "subgraph_ok sm origin depth limit (add_node e hops g)"
  using assms by (auto simp: subgraph_ok_def add_node_def full_def seen_node_def node_ok_def)

lemma visit_peers_ok:
  assumes "subgraph_ok sm origin depth limit g" "list_all (in_hops sm origin (hops + 1)) nf"
    and "\<forall>(e, f)\<in>set ps. e \<in> set (sm_entities sm) \<and> shares_fact sm current e f"
    and "in_hops sm origin hops current" "hops < depth"
  shows "subgraph_ok sm origin depth limit (fst (visit_peers limit depth hops current ps (g, nf))) \<and>
     list_all (in_hops sm origin (hops + 1)) (snd (visit_peers limit depth hops current ps (g, nf))) \<and>
     (snd (visit_peers limit depth hops current ps (g, nf)) = nf \<or> hops + 1 < depth)"
  using assms(1-3)
proof (induction ps arbitrary: g nf)
  case (Cons p ps)
  obtain e f where p: "p = (e, f)" by (cases p)
  define g1 where "g1 = add_edge (current, en_name e, f) g"
  have e: "e \<in> set (sm_entities sm)" "shares_fact sm current e f" using Cons.prems(3) p by auto
  then have ok1: "subgraph_ok sm origin depth limit g1"
    using Cons.prems(1) by (auto simp: g1_def edge_ok_def intro!: add_edge_ok)
  have near: "in_hops sm origin (hops + 1) (en_name e)" using assms(4) e by (auto simp: adjacent_def)
  have new: "subgraph_ok sm origin depth limit (add_node e (hops + 1) g1)" if "\<not> full limit g1" "\<not> seen_node (en_id e) g1"
    using add_node_ok [OF ok1 that e(1) _ near] assms(5) by simp
  show ?case
    using Cons.IH [OF ok1 Cons.prems(2)] Cons.IH [OF new, of "nf @ [en_name e]"] Cons.IH [OF new, of nf]
      Cons.prems near ok1 by (auto simp: p Let_def g1_def [symmetric])
qed simp

lemma find_SomeD: "find P xs = Some x \<Longrightarrow> x \<in> set xs \<and> P x"
  by (induction xs) (auto split: if_splits)

lemma visit_frontier_ok:
  assumes peers: "peers_ok peers sm" and "hops < depth"
    and "subgraph_ok sm origin depth limit g" "list_all (in_hops sm origin hops) cs" "list_all (in_hops sm origin (hops + 1)) nf"
    and "nf = [] \<or> hops + 1 < depth"
  shows "subgraph_ok sm origin depth limit (fst (visit_frontier peers limit depth hops sm cs (g, nf))) \<and>
     list_all (in_hops sm origin (hops + 1)) (snd (visit_frontier peers limit depth hops sm cs (g, nf))) \<and>
     (snd (visit_frontier peers limit depth hops sm cs (g, nf)) = [] \<or> hops + 1 < depth)"
  using assms(3-6)
proof (induction cs arbitrary: g nf)
  case (Cons c cs)
  show ?case
  proof (cases "full limit g \<or> find (\<lambda>e. en_name e = c) (sm_entities sm) = None")
    case True
    with Cons show ?thesis by (auto split: option.split)
  next
    case False
    then obtain e where e: "find (\<lambda>e. en_name e = c) (sm_entities sm) = Some e" by auto
    define g1 where "g1 = visit_root hops e g"
    have ok1: "subgraph_ok sm origin depth limit g1"
      using Cons.prems(1,2) False find_SomeD [OF e] assms(2) by (auto simp: g1_def visit_root_def intro!: add_node_ok)
    obtain g2 nf2 where v: "visit_peers limit depth hops c
        (take (nat (max 1 (limit - int (length (sg_nodes g1))))) (peers sm c)) (g1, nf) = (g2, nf2)" by fastforce
    have rows: "\<forall>(e, f)\<in>set (take n (peers sm c)). e \<in> set (sm_entities sm) \<and> shares_fact sm c e f" for n
      using peers set_take_subset [of n "peers sm c"] by (fastforce simp: peers_ok_def)
    let ?n = "nat (max 1 (limit - int (length (sg_nodes g1))))"
    from visit_peers_ok [OF ok1 Cons.prems(3) rows [of ?n] _ assms(2)] Cons.prems(2) v
    have "subgraph_ok sm origin depth limit g2" "list_all (in_hops sm origin (hops + 1)) nf2" "nf2 = nf \<or> hops + 1 < depth"
      by (simp_all del: in_hops.simps)
    with Cons.IH [of g2 nf2] Cons.prems(2,4) False e v show ?thesis
      by (auto simp: Let_def g1_def [symmetric] simp del: in_hops.simps)
  qed
qed auto

lemma in_hops_mono: "in_hops sm origin n x \<Longrightarrow> n \<le> m \<Longrightarrow> in_hops sm origin m x"
  by (induction m) (auto simp: le_Suc_eq)

lemma walk_ok:
  assumes "peers_ok peers sm" "subgraph_ok sm origin depth limit g" "list_all (in_hops sm origin hops) frontier"
    and "frontier = [] \<or> hops < depth"
  shows "subgraph_ok sm origin depth limit (walk peers limit depth sm hops frontier g)"
  using assms
proof (induction peers limit depth sm hops frontier g rule: walk.induct)
  case (1 peers limit depth sm hops frontier g)
  obtain g' nf where v: "visit_frontier peers limit depth hops sm frontier (g, []) = (g', nf)" by fastforce
  show ?case
  proof (cases "frontier = [] \<or> hops > depth \<or> full limit g")
    case True
    with 1 show ?thesis by (simp add: walk.simps)
  next
    case False
    with 1 have "hops < depth" by auto
    from visit_frontier_ok [OF 1(2) this 1(3,4), of "[]"] v
    have "subgraph_ok sm origin depth limit g'" "list_all (in_hops sm origin (hops + 1)) nf" "nf = [] \<or> hops + 1 < depth"
      by simp_all
    from 1(1) [OF False v [symmetric] 1(2) this] False v show ?thesis
      by (subst walk.simps) simp
  qed
qed


text \<open>A query that meets \<open>peers_ok\<close> on a small table: two entities mentioned by one fact.\<close>

definition small_graph :: semantic where
  "small_graph = (new_semantic 16)\<lparr>
     sm_entities := [\<lparr>en_id = 1, en_name = ''redis'', en_mentions = 2, en_created_at = []\<rparr>,
                     \<lparr>en_id = 2, en_name = ''billing'', en_mentions = 1, en_created_at = []\<rparr>],
     sm_links := [(7, 1), (7, 2)]\<rparr>"

definition small_peers :: peer_query where
  "small_peers sm name = map (\<lambda>e. (e, 7)) (filter (\<lambda>e. shares_fact sm name e 7) (sm_entities sm))"

lemma small_peers_ok: "peers_ok small_peers small_graph"
  by (auto simp: peers_ok_def small_peers_def adjacent_def shares_fact_def small_graph_def new_semantic_def)

lemma small_query:
  "query_subgraph small_peers ''redis'' 2 10 small_graph =
     (''redis'', 2, \<lparr>sg_nodes = [\<lparr>gn_id = 1, gn_name = ''redis'', gn_mentions = 2, gn_hops = 0\<rparr>,
        \<lparr>gn_id = 2, gn_name = ''billing'', gn_mentions = 1, gn_hops = 1\<rparr>],
      sg_edges = [(''redis'', ''billing'', 7), (''billing'', ''redis'', 7)]\<rparr>)"
proof -
  have "list_all plain_char ''redis''" by code_simp
  then have "sanitize_text ''redis'' 64 = ''redis''" by (simp add: sanitize_text_plain)
  moreover have "py_lower ''redis'' = ''redis''" by code_simp
  ultimately have name: "py_lower (sanitize_text ''redis'' 64) = ''redis''" by simp
  show ?thesis
    unfolding query_subgraph_def Let_def name
    by (simp add: walk.simps visit_root_def add_node_def add_edge_def seen_node_def full_def small_peers_def shares_fact_def
        small_graph_def new_semantic_def Let_def)
qed


end
