(* ===== verification/Robotics.thy ===== *)
theory Robotics
  imports Prelude
begin

text \<open>
  The robotics handler, \<open>src/robotics_handler.py\<close>, over the publishing interface of \<open>src/ros2_interface.py\<close>:
  dispatch of robot actions, safety limits, the emergency stop latch, the watchdog, sensor and
  continuous-command threads, and the rate limit and message sanitising on the way to the robot. What is sent
  is a trace. The middleware's connection, the motion planner's answers, the state and scan sources and
  the clock are arguments (\<open>robot_env\<close>). Floats are kept with NaN and the infinities, because comparisons
  with them decide what is published. A handler call is cut in two steps, the test of the emergency stop
  latch and the action itself, since the watchdog and sensor threads may run in between.
\<close>

subsection \<open>Floats\<close>

datatype pyfloat = Fin real | Inf | MInf | Nan

fun fl_less :: "pyfloat \<Rightarrow> pyfloat \<Rightarrow> bool" where
  "fl_less (Fin a) (Fin b) = (a < b)"
| "fl_less (Fin a) Inf = True"
| "fl_less MInf (Fin b) = True"
| "fl_less MInf Inf = True"
| "fl_less _ _ = False"

text \<open>Python's \<open>min(a, b)\<close> and \<open>max(a, b)\<close> keep the first argument unless the second compares strictly.\<close>

definition fl_min :: "pyfloat \<Rightarrow> pyfloat \<Rightarrow> pyfloat" where
  "fl_min a b = (if fl_less b a then b else a)"

definition fl_max :: "pyfloat \<Rightarrow> pyfloat \<Rightarrow> pyfloat" where
  "fl_max a b = (if fl_less a b then b else a)"

definition clamp_velocity :: "pyfloat \<Rightarrow> real \<Rightarrow> pyfloat" where
  "clamp_velocity value limit = fl_max (Fin (- limit)) (fl_min (Fin limit) value)"

text \<open>The number a value compares as, and \<open>float(v)\<close>; \<open>num\<close> gives the value of a float's \<open>repr\<close>, \<open>parse\<close> reads text.\<close>

fun number_of :: "(string \<Rightarrow> pyfloat) \<Rightarrow> pyval \<Rightarrow> pyfloat option" where
  "number_of num (PInt i) = Some (Fin (of_int i))"
| "number_of num (PBool b) = Some (Fin (if b then 1 else 0))"
| "number_of num (PFloat r) = Some (num r)"
| "number_of num _ = None"

definition float_of :: "(string \<Rightarrow> pyfloat) \<Rightarrow> (string \<Rightarrow> pyfloat option) \<Rightarrow> pyval \<Rightarrow> py_exn + pyfloat" where
  "float_of num parse v =
     (case v of
        PStr s \<Rightarrow> (case parse s of None \<Rightarrow> Inl ValueErr | Some x \<Rightarrow> Inr x)
      | _ \<Rightarrow> (case number_of num v of None \<Rightarrow> Inl TypeErr | Some x \<Rightarrow> Inr x))"

subsection \<open>State\<close>

definition robot_motion_types :: "string list" where
  "robot_motion_types = [''robot_navigate'', ''robot_manipulate'', ''robot_gripper'', ''robot_look'']"

definition robot_safety_types :: "string list" where
  "robot_safety_types = [''robot_stop'']"

definition robot_read_types :: "string list" where
  "robot_read_types = [''robot_query_state'', ''robot_scan'']"

record traj_point =
  pt_positions :: "pyfloat list"
  pt_velocities :: "pyfloat list"
  pt_accelerations :: "pyfloat list"
  pt_time :: real

record trajectory =
  tj_joints :: "string list"
  tj_points :: "traj_point list"

text \<open>\<open>CmdVel\<close>: linear x and y and angular z of a twist on \<open>/cmd_vel\<close>; \<open>Traj\<close>: a joint trajectory on a topic.\<close>

datatype ros_msg = CmdVel pyfloat pyfloat pyfloat | Traj string trajectory

abbreviation zero_twist :: ros_msg where
  "zero_twist \<equiv> CmdVel (Fin 0) (Fin 0) (Fin 0)"

fun topic_of :: "ros_msg \<Rightarrow> string" where
  "topic_of (CmdVel x y z) = ''/cmd_vel''"
| "topic_of (Traj topic _) = topic"

subsection \<open>The publishing interface\<close>

text \<open>The interface with its publishers; \<open>bs_real\<close> distinguishes the ROS 2 implementation, which raises for a topic without
  a publisher, from the recording stub.\<close>

record bus =
  bs_real :: bool
  bs_min_interval :: real
  bs_topics :: "string list"
  bs_last :: "(string \<times> real) list"
  bs_sent :: "(real \<times> ros_msg) list"

definition new_bus :: "bool \<Rightarrow> real \<Rightarrow> bus" where
  "new_bus is_real rate_limit_hz =
     \<lparr>bs_real = is_real, bs_min_interval = 1 / max (1/10) rate_limit_hz, bs_topics = [], bs_last = [], bs_sent = []\<rparr>"

definition create_publisher :: "string \<Rightarrow> bus \<Rightarrow> bus" where
  "create_publisher topic b = b\<lparr>bs_topics := (if topic \<in> set (bs_topics b) then bs_topics b else bs_topics b @ [topic])\<rparr>"

fun clean_float :: "pyfloat \<Rightarrow> pyfloat" where
  "clean_float (Fin x) = Fin (max (-100) (min 100 x))"
| "clean_float _ = Fin 0"

fun zero_bad :: "pyfloat \<Rightarrow> pyfloat" where
  "zero_bad (Fin x) = Fin x"
| "zero_bad _ = Fin 0"

definition clean_point :: "traj_point \<Rightarrow> traj_point" where
  "clean_point p = p\<lparr>pt_positions := map zero_bad (pt_positions p), pt_velocities := map zero_bad (pt_velocities p),
     pt_accelerations := map zero_bad (pt_accelerations p)\<rparr>"

definition validate_joint_trajectory :: "trajectory \<Rightarrow> py_exn + trajectory" where
  "validate_joint_trajectory tj =
     (if tj_joints tj = [] then Inl ValueErr
      else if \<not> sorted (map pt_time (tj_points tj)) then Inl ValueErr
      else Inr (tj\<lparr>tj_points := map clean_point (tj_points tj)\<rparr>))"

fun sanitize_msg :: "ros_msg \<Rightarrow> py_exn + ros_msg" where
  "sanitize_msg (CmdVel x y z) = Inr (CmdVel (clean_float x) (clean_float y) (clean_float z))"
| "sanitize_msg (Traj topic tj) = map_sum id (Traj topic) (validate_joint_trajectory tj)"

definition throttled :: "real \<Rightarrow> ros_msg \<Rightarrow> bus \<Rightarrow> bool" where
  "throttled now m b = (m \<noteq> zero_twist \<and>
     (case map_of (bs_last b) (topic_of m) of None \<Rightarrow> False | Some t \<Rightarrow> now - t < bs_min_interval b))"

definition bus_publish :: "real \<Rightarrow> ros_msg \<Rightarrow> (bus, py_exn, unit) sx" where
  "bus_publish now m b =
     (if throttled now m b then (b, Inr ())
      else let b1 = b\<lparr>bs_last := AList.update (topic_of m) now (bs_last b)\<rparr> in
        if bs_real b \<and> topic_of m \<notin> set (bs_topics b) then (b1, Inl RuntimeErr)
        else case sanitize_msg m of
               Inl e \<Rightarrow> (b1, Inl e)
             | Inr m' \<Rightarrow> (b1\<lparr>bs_sent := bs_sent b @ [(now, m')]\<rparr>, Inr ()))"

subsection \<open>The handler's state\<close>

record robot =
  rb_max_linear :: real
  rb_max_angular :: real
  rb_bounds :: "(string \<times> (real \<times> real)) list"
  rb_watchdog_timeout :: real
  rb_sim :: bool
  rb_audited :: bool
  rb_fallback :: bool
  rb_last_command :: real
  rb_estop :: bool
  rb_continuous :: bool
  rb_twist :: "pyfloat \<times> pyfloat"
  rb_obstacle :: "real option"
  rb_pending :: "pydict option"
  rb_bus :: bus
  rb_cancels :: nat
  rb_reports :: "string list"
  rb_log :: "(string \<times> pydict) list"

record robot_env =
  re_now :: real
  re_pub :: real
  re_connected :: bool
  re_num :: "string \<Rightarrow> pyfloat"
  re_parse :: "string \<Rightarrow> pyfloat option"
  re_plan :: "pyval \<times> pyval \<times> pyval \<Rightarrow> trajectory option"
  re_valid :: "trajectory \<Rightarrow> bool \<times> string"
  re_collides :: "trajectory \<Rightarrow> bool"
  re_sim_joints :: "pyfloat list option"
  re_ros_joints :: "pyfloat list option option"
  re_sim_scan :: "pyfloat list option"
  re_ros_scan :: "pyfloat list option option"

datatype robot_result =
    Refused string
  | RobotError string
  | Done string
  | Reading string "pyfloat list"

type_synonym 'a rob = "(robot, py_exn, 'a) sx"

definition default_bounds :: "(string \<times> (real \<times> real)) list" where
  "default_bounds = [(''x'', (-2, 2)), (''y'', (-2, 2)), (''z'', (0, 2))]"

definition new_robot :: "real \<Rightarrow> real \<Rightarrow> (string \<times> (real \<times> real)) list \<Rightarrow> real \<Rightarrow> bool \<Rightarrow> bool \<Rightarrow> bool \<Rightarrow> real \<Rightarrow> bus \<Rightarrow> robot" where
  "new_robot max_linear max_angular bounds timeout sim audited fallback now b =
     \<lparr>rb_max_linear = max (1/100) max_linear, rb_max_angular = max (1/100) max_angular,
      rb_bounds = (if bounds = [] then default_bounds else bounds), rb_watchdog_timeout = max (1/10) timeout,
      rb_sim = sim, rb_audited = audited, rb_fallback = fallback, rb_last_command = now, rb_estop = False,
      rb_continuous = False, rb_twist = (Fin 0, Fin 0), rb_obstacle = None, rb_pending = None,
      rb_bus = create_publisher ''/arm_controller/follow_joint_trajectory''
        (create_publisher ''/gripper_cmd'' (create_publisher ''/cmd_vel'' b)),
      rb_cancels = 0, rb_reports = [], rb_log = []\<rparr>"

subsection \<open>Publishing\<close>

definition publish :: "robot_env \<Rightarrow> ros_msg \<Rightarrow> unit rob" where
  "publish env m r = (case bus_publish (re_pub env) m (rb_bus r) of (b, res) \<Rightarrow> (r\<lparr>rb_bus := b\<rparr>, res))"

definition update_watchdog :: "robot_env \<Rightarrow> robot \<Rightarrow> robot" where
  "update_watchdog env r = r\<lparr>rb_last_command := re_now env\<rparr>"

definition command :: "robot_env \<Rightarrow> ros_msg \<Rightarrow> 'a \<Rightarrow> 'a rob" where
  "command env m x = sx_bind (publish env m) (\<lambda>_ r. (update_watchdog env r, Inr x))"

definition one_point :: "string list \<Rightarrow> pyfloat list \<Rightarrow> trajectory" where
  "one_point joints positions =
     \<lparr>tj_joints = joints, tj_points = [\<lparr>pt_positions = positions, pt_velocities = [], pt_accelerations = [], pt_time = 1/2\<rparr>]\<rparr>"

definition robot_audit :: "string \<Rightarrow> pydict \<Rightarrow> robot \<Rightarrow> robot" where
  "robot_audit event_type payload r =
     (if rb_audited r then r\<lparr>rb_log := rb_log r @ [(event_type, payload)]\<rparr> else r)"

text \<open>A lost connection is audited and reported to the fallback controller.\<close>

definition check_connection :: "robot_env \<Rightarrow> robot \<Rightarrow> robot \<times> bool" where
  "check_connection env r =
     (if re_connected env then (r, True)
      else let r1 = robot_audit ''ros2_connection_lost'' [] r in
        (if rb_fallback r1 then r1\<lparr>rb_reports := rb_reports r1 @ [''ros2_connection_lost'']\<rparr> else r1, False))"

definition with_connection :: "robot_env \<Rightarrow> robot_result rob \<Rightarrow> robot_result rob" where
  "with_connection env act r =
     (case check_connection env r of
        (r1, False) \<Rightarrow> (r1, Inr (Refused ''ros2 connection lost''))
      | (r1, True) \<Rightarrow> act r1)"

definition robot_params :: "pydict \<Rightarrow> py_exn + pydict" where
  "robot_params decision =
     (let p = dget decision ''params'' in
      if \<not> truthy p then Inr [] else case p of PDict d \<Rightarrow> Inr d | _ \<Rightarrow> Inl AttributeErr)"

text \<open>\<open>float(params.get(key, default))\<close>.\<close>

definition float_param :: "robot_env \<Rightarrow> pydict \<Rightarrow> string \<Rightarrow> real \<Rightarrow> py_exn + pyfloat" where
  "float_param env params key dflt =
     (case map_of params key of None \<Rightarrow> Inr (Fin dflt) | Some v \<Rightarrow> float_of (re_num env) (re_parse env) v)"

definition lift_sum :: "py_exn + 'a \<Rightarrow> ('a \<Rightarrow> 'b rob) \<Rightarrow> 'b rob" where
  "lift_sum m f r = (case m of Inl e \<Rightarrow> (r, Inl e) | Inr x \<Rightarrow> f x r)"

subsection \<open>Motion\<close>

definition handle_navigate :: "robot_env \<Rightarrow> pydict \<Rightarrow> robot_result rob" where
  "handle_navigate env decision =
     with_connection env (
     lift_sum (robot_params decision) (\<lambda>params.
     lift_sum (float_param env params ''linear_x'' 0) (\<lambda>lx.
     lift_sum (float_param env params ''linear_y'' 0) (\<lambda>ly.
     lift_sum (float_param env params ''angular_z'' 0) (\<lambda>az r.
       command env (CmdVel (clamp_velocity lx (rb_max_linear r)) (clamp_velocity ly (rb_max_linear r))
          (clamp_velocity az (rb_max_angular r))) (Done ''navigate'') r)))))"

fun check_axes :: "robot_env \<Rightarrow> (string \<times> (real \<times> real)) list \<Rightarrow> pydict \<Rightarrow> string list \<Rightarrow> py_exn + bool" where
  "check_axes env bounds target [] = Inr True"
| "check_axes env bounds target (axis # axes) =
     (case map_of target axis of
        None \<Rightarrow> check_axes env bounds target axes
      | Some v \<Rightarrow>
          (case number_of (re_num env) v of
             None \<Rightarrow> Inl TypeErr
           | Some x \<Rightarrow>
               (case map_of bounds axis of
                  None \<Rightarrow> check_axes env bounds target axes
                | Some (lo, hi) \<Rightarrow>
                    if fl_less x (Fin lo) \<or> fl_less (Fin hi) x then Inr False
                    else check_axes env bounds target axes)))"

definition check_workspace :: "robot_env \<Rightarrow> pydict \<Rightarrow> robot \<Rightarrow> py_exn + bool" where
  "check_workspace env target r = check_axes env (rb_bounds r) target [''x'', ''y'', ''z'']"

definition coordinate :: "pydict \<Rightarrow> string \<Rightarrow> pyval" where
  "coordinate target axis = dget_default target axis (PFloat ''0.0'')"

definition move_arm :: "robot_env \<Rightarrow> pydict \<Rightarrow> robot_result rob" where
  "move_arm env target r =
     (case re_plan env (coordinate target ''x'', coordinate target ''y'', coordinate target ''z'') of
        None \<Rightarrow> (r, Inr (RobotError ''planning failed''))
      | Some tj \<Rightarrow>
          if \<not> fst (re_valid env tj) then (r, Inr (Refused (snd (re_valid env tj))))
          else if re_collides env tj then (r, Inr (Refused ''collision detected''))
          else command env (Traj ''/arm_controller/follow_joint_trajectory'' tj) (Done ''manipulate'') r)"

text \<open>A target that is not a dictionary fails at the first use that it does not support, before anything is
  planned.\<close>

definition handle_manipulate :: "robot_env \<Rightarrow> pydict \<Rightarrow> robot_result rob" where
  "handle_manipulate env decision =
     lift_sum (robot_params decision) (\<lambda>params.
       let target = dget_default params ''target'' (PDict []) in
       if \<not> truthy target then sx_return (RobotError ''no target specified'')
       else with_connection env (
         case target of
           PDict d \<Rightarrow> (\<lambda>r. case check_workspace env d r of
               Inl e \<Rightarrow> (r, Inl e)
             | Inr False \<Rightarrow> (r, Inr (Refused ''target outside workspace bounds''))
             | Inr True \<Rightarrow> move_arm env d r)
         | PStr s \<Rightarrow> sx_raise (if set ''xyz'' \<inter> set s \<noteq> {} then TypeErr else AttributeErr)
         | PList vs \<Rightarrow> sx_raise (if set vs \<inter> {PStr ''x'', PStr ''y'', PStr ''z''} \<noteq> {} then TypeErr else AttributeErr)
         | PTuple vs \<Rightarrow> sx_raise (if set vs \<inter> {PStr ''x'', PStr ''y'', PStr ''z''} \<noteq> {} then TypeErr else AttributeErr)
         | _ \<Rightarrow> sx_raise TypeErr))"

definition handle_gripper :: "robot_env \<Rightarrow> pydict \<Rightarrow> robot_result rob" where
  "handle_gripper env decision =
     with_connection env (
     lift_sum (robot_params decision) (\<lambda>params.
     lift_sum (float_param env params ''position'' 0) (\<lambda>p0.
       let verb = py_lower (py_strip (py_str (dget_default params ''action'' (PStr [])))) in
     lift_sum (if verb = ''grasp'' then float_param env params ''position'' (1/2)
               else if verb = ''release'' then float_param env params ''position'' 0 else Inr p0) (\<lambda>p.
       command env (Traj ''/gripper_cmd'' (one_point [''gripper_joint''] [p])) (Done ''gripper'')))))"

definition handle_look :: "robot_env \<Rightarrow> pydict \<Rightarrow> robot_result rob" where
  "handle_look env decision =
     with_connection env (\<lambda>r0.
       if rb_estop r0 then (r0, Inr (Refused ''emergency stop active''))
       else lift_sum (robot_params decision) (\<lambda>params.
            lift_sum (float_param env params ''pan'' 0) (\<lambda>pan.
            lift_sum (float_param env params ''tilt'' 0) (\<lambda>tilt.
              command env (Traj ''/head_controller/follow_joint_trajectory''
                (one_point [''neck_pan_joint'', ''neck_tilt_joint''] [clamp_velocity pan (3/2), clamp_velocity tilt 1]))
                (Done ''look'')))) r0)"

subsection \<open>Stop, reads and dispatch\<close>

definition handle_stop :: "robot_env \<Rightarrow> robot_result rob" where
  "handle_stop env r =
     sx_bind (publish env zero_twist) (\<lambda>_ r'.
       (robot_audit ''emergency_stop'' [] (r'\<lparr>rb_cancels := rb_cancels r' + 1\<rparr>), Inr (Done ''emergency_stop'')))
     (r\<lparr>rb_estop := True\<rparr>)"

definition reset_emergency_stop :: "string \<Rightarrow> robot \<Rightarrow> robot" where
  "reset_emergency_stop reset_by r =
     robot_audit ''emergency_stop_reset'' [(''reset_by'', PStr (take 120 reset_by))] (r\<lparr>rb_estop := False\<rparr>)"

definition get_scan :: "robot_env \<Rightarrow> robot \<Rightarrow> pyfloat list option" where
  "get_scan env r =
     (if rb_sim r then re_sim_scan env else case re_ros_scan env of None \<Rightarrow> None | Some s \<Rightarrow> s)"

definition handle_read :: "robot_env \<Rightarrow> pydict \<Rightarrow> robot \<Rightarrow> robot_result" where
  "handle_read env decision r =
     (if dget_default decision ''action_type'' (PStr []) = PStr ''robot_query_state''
      then if rb_sim r then Reading [] (case re_sim_joints env of None \<Rightarrow> [] | Some js \<Rightarrow> js)
           else case re_ros_joints env of
                  Some j \<Rightarrow> Reading ''ros2'' (case j of None \<Rightarrow> [] | Some js \<Rightarrow> js)
                | None \<Rightarrow> RobotError ''no state source (no simulation, no ROS 2 state feed)''
      else case get_scan env r of
             None \<Rightarrow> RobotError ''no scan source (no simulation, no ROS 2 scan feed)''
           | Some s \<Rightarrow> Reading (if rb_sim r then ''gazebo'' else ''ros2'') s)"

definition estop_reason :: string where
  "estop_reason = ''emergency stop active (operator reset required)''"

text \<open>The motion behind the latch.\<close>

definition act :: "robot_env \<Rightarrow> pydict \<Rightarrow> robot_result rob" where
  "act env decision =
     (let a = dget_default decision ''action_type'' (PStr []) in
      if a = PStr ''robot_navigate'' then handle_navigate env decision
      else if a = PStr ''robot_manipulate'' then handle_manipulate env decision
      else if a = PStr ''robot_gripper'' then handle_gripper env decision
      else if a = PStr ''robot_look'' then handle_look env decision
      else sx_return (RobotError (''unknown robotics action: '' @ py_str a)))"

text \<open>The first half of \<open>handle\<close>: \<open>None\<close> when the action may go on to \<open>act\<close>.\<close>

definition admit :: "robot_env \<Rightarrow> pydict \<Rightarrow> robot \<Rightarrow> robot \<times> (py_exn + robot_result) option" where
  "admit env decision r =
     (let a = dget_default decision ''action_type'' (PStr []) in
      if \<not> hashable a then (r, Some (Inl TypeErr))
      else if a \<in> PStr ` set robot_safety_types then map_prod id Some (handle_stop env r)
      else if a \<in> PStr ` set robot_read_types then (r, Some (Inr (handle_read env decision r)))
      else if rb_estop r then (r, Some (Inr (Refused estop_reason)))
      else (r, None))"

definition robot_handle :: "robot_env \<Rightarrow> pydict \<Rightarrow> robot_result rob" where
  "robot_handle env decision r =
     (case admit env decision r of
        (r1, Some res) \<Rightarrow> (r1, res)
      | (r1, None) \<Rightarrow> act env decision r1)"

subsection \<open>The threads\<close>

definition check_watchdog :: "robot_env \<Rightarrow> robot \<Rightarrow> bool" where
  "check_watchdog env r = (re_now env - rb_last_command r > rb_watchdog_timeout r)"

definition watchdog_tick :: "robot_env \<Rightarrow> robot \<Rightarrow> robot" where
  "watchdog_tick env r = (if check_watchdog env r \<and> \<not> rb_estop r then fst (handle_stop env r) else r)"

definition stop_continuous_navigate :: "robot_env \<Rightarrow> robot \<Rightarrow> robot" where
  "stop_continuous_navigate env r = fst (publish env zero_twist (r\<lparr>rb_continuous := False\<rparr>))"

definition continuous_twist :: "pyfloat \<Rightarrow> pyfloat \<Rightarrow> robot \<Rightarrow> pyfloat \<times> pyfloat" where
  "continuous_twist lx az r = (clamp_velocity lx (rb_max_linear r), clamp_velocity az (rb_max_angular r))"

definition start_continuous_navigate :: "robot_env \<Rightarrow> pyfloat \<Rightarrow> pyfloat \<Rightarrow> robot \<Rightarrow> robot" where
  "start_continuous_navigate env lx az r =
     (let r1 = stop_continuous_navigate env r
      in r1\<lparr>rb_twist := continuous_twist lx az r1, rb_continuous := True\<rparr>)"

definition update_continuous_navigate :: "robot_env \<Rightarrow> pyfloat \<Rightarrow> pyfloat \<Rightarrow> robot \<Rightarrow> robot" where
  "update_continuous_navigate env lx az r = update_watchdog env (r\<lparr>rb_twist := continuous_twist lx az r\<rparr>)"

text \<open>One pass of the loop that repeats the last twist.\<close>

definition continuous_tick :: "robot_env \<Rightarrow> robot \<Rightarrow> robot" where
  "continuous_tick env r =
     (if \<not> rb_continuous r then r
      else if \<not> re_connected env then fst (publish env zero_twist (r\<lparr>rb_continuous := False\<rparr>))
      else fst (command env (CmdVel (fst (rb_twist r)) (Fin 0) (snd (rb_twist r))) () r))"

definition start_sensor_feedback :: "real \<Rightarrow> robot \<Rightarrow> robot" where
  "start_sensor_feedback obstacle_distance r = r\<lparr>rb_obstacle := Some (max (1/10) obstacle_distance)\<rparr>"

definition stop_sensor_feedback :: "robot \<Rightarrow> robot" where
  "stop_sensor_feedback r = r\<lparr>rb_obstacle := None\<rparr>"

definition min_range :: "pyfloat list \<Rightarrow> pyfloat" where
  "min_range ranges = (case ranges of [] \<Rightarrow> Inf | x # xs \<Rightarrow> foldl fl_min x xs)"

definition sensor_tick :: "robot_env \<Rightarrow> robot \<Rightarrow> robot" where
  "sensor_tick env r =
     (case (rb_obstacle r, get_scan env r) of
        (Some d, Some ranges) \<Rightarrow>
          if fl_less (min_range ranges) (Fin d) \<and> \<not> rb_estop r then fst (handle_stop env r) else r
      | _ \<Rightarrow> r)"

text \<open>The handler as a machine: a call is admitted and carried out in two steps.\<close>

datatype robot_step =
    Admit robot_env pydict
  | Act robot_env
  | WatchdogTick robot_env
  | ContinuousTick robot_env
  | SensorTick robot_env
  | StartContinuous robot_env pyfloat pyfloat
  | UpdateContinuous robot_env pyfloat pyfloat
  | StopContinuous robot_env
  | StartSensors real
  | StopSensors
  | ResetStop string

fun robot_apply :: "robot_step \<Rightarrow> robot \<Rightarrow> robot" where
  "robot_apply (Admit env d) r =
     (if rb_pending r \<noteq> None then r
      else case admit env d r of (r1, Some _) \<Rightarrow> r1 | (r1, None) \<Rightarrow> r1\<lparr>rb_pending := Some d\<rparr>)"
| "robot_apply (Act env) r =
     (case rb_pending r of None \<Rightarrow> r | Some d \<Rightarrow> fst (act env d (r\<lparr>rb_pending := None\<rparr>)))"
| "robot_apply (WatchdogTick env) r = watchdog_tick env r"
| "robot_apply (ContinuousTick env) r = continuous_tick env r"
| "robot_apply (SensorTick env) r = sensor_tick env r"
| "robot_apply (StartContinuous env lx az) r = start_continuous_navigate env lx az r"
| "robot_apply (UpdateContinuous env lx az) r = update_continuous_navigate env lx az r"
| "robot_apply (StopContinuous env) r = stop_continuous_navigate env r"
| "robot_apply (StartSensors d) r = start_sensor_feedback d r"
| "robot_apply StopSensors r = stop_sensor_feedback r"
| "robot_apply (ResetStop who) r = reset_emergency_stop who r"

subsection \<open>What can be sent\<close>

definition fin_within :: "real \<Rightarrow> pyfloat \<Rightarrow> bool" where
  "fin_within limit v \<longleftrightarrow> (\<exists>x. v = Fin x \<and> \<bar>x\<bar> \<le> limit)"

lemma clamp_within: "0 \<le> limit \<Longrightarrow> fin_within limit (clamp_velocity v limit)"
  by (cases v) (auto simp: fin_within_def clamp_velocity_def fl_min_def fl_max_def)

lemma clean_within: "fin_within limit v \<Longrightarrow> fin_within limit (clean_float v)"
  by (auto simp: fin_within_def min_def max_def abs_le_iff)

definition finite_point :: "traj_point \<Rightarrow> bool" where
  "finite_point p \<longleftrightarrow> list_all (\<lambda>v. \<exists>x. v = Fin x) (pt_positions p)"

definition head_point :: "traj_point \<Rightarrow> bool" where
  "head_point p \<longleftrightarrow> (\<exists>pan tilt. pt_positions p = [pan, tilt] \<and> fin_within (3/2) pan \<and> fin_within 1 tilt)"

text \<open>Velocities within the limits; trajectories with finite positions; head positions within the joint range.\<close>

fun msg_ok :: "real \<Rightarrow> real \<Rightarrow> ros_msg \<Rightarrow> bool" where
  "msg_ok lin ang (CmdVel x y z) = (fin_within lin x \<and> fin_within lin y \<and> fin_within ang z)"
| "msg_ok lin ang (Traj topic tj) =
     (list_all finite_point (tj_points tj) \<and>
      (topic = ''/head_controller/follow_joint_trajectory'' \<longrightarrow> list_all head_point (tj_points tj)))"

fun cmd_ok :: "real \<Rightarrow> real \<Rightarrow> ros_msg \<Rightarrow> bool" where
  "cmd_ok lin ang (CmdVel x y z) = (fin_within lin x \<and> fin_within lin y \<and> fin_within ang z)"
| "cmd_ok lin ang (Traj topic tj) =
     (topic = ''/head_controller/follow_joint_trajectory'' \<longrightarrow> list_all head_point (tj_points tj))"

lemma zero_bad_fin: "\<exists>x. zero_bad v = Fin x"
  by (cases v) auto

lemma clean_head: "head_point p \<Longrightarrow> head_point (clean_point p)"
  by (auto simp: head_point_def clean_point_def fin_within_def)

lemma clean_finite: "finite_point (clean_point p)"
  by (simp add: finite_point_def clean_point_def list_all_iff zero_bad_fin)

lemma sanitize_ok: "cmd_ok lin ang m \<Longrightarrow> sanitize_msg m = Inr m' \<Longrightarrow> msg_ok lin ang m'"
  by (cases m)
     (auto simp: clean_within validate_joint_trajectory_def list_all_iff clean_head clean_finite split: if_splits)

text \<open>What an operation may change: at most one message is sent, a permitted one; the latch, the limits and the
  threads' settings stay.\<close>

definition acts :: "robot \<Rightarrow> robot \<Rightarrow> bool" where
  "acts r r' \<longleftrightarrow> rb_max_linear r' = rb_max_linear r \<and> rb_max_angular r' = rb_max_angular r \<and> rb_estop r' = rb_estop r \<and>
     rb_continuous r' = rb_continuous r \<and> rb_twist r' = rb_twist r \<and> rb_pending r' = rb_pending r \<and>
     (\<exists>ms. bs_sent (rb_bus r') = bs_sent (rb_bus r) @ ms \<and> length ms \<le> 1 \<and>
        list_all (msg_ok (rb_max_linear r) (rb_max_angular r) \<circ> snd) ms)"

definition limits_ok :: "robot \<Rightarrow> bool" where
  "limits_ok r \<longleftrightarrow> 0 \<le> rb_max_linear r \<and> 0 \<le> rb_max_angular r"

definition moves :: "'a rob \<Rightarrow> bool" where
  "moves f \<longleftrightarrow> (\<forall>r. limits_ok r \<longrightarrow> acts r (fst (f r)))"

lemma acts_refl: "acts r r"
  by (simp add: acts_def)

lemma bus_publish_sent:
  "\<exists>ms. bs_sent (fst (bus_publish now m b)) = bs_sent b @ ms \<and> length ms \<le> 1 \<and> list_all (\<lambda>(t, m'). sanitize_msg m = Inr m') ms"
  by (auto simp: bus_publish_def Let_def split: sum.split)

lemma publish_acts: "cmd_ok (rb_max_linear r) (rb_max_angular r) m \<Longrightarrow> acts r (fst (publish env m r))"
  using bus_publish_sent [of "re_pub env" m "rb_bus r"]
  by (fastforce simp: acts_def publish_def list_all_iff sanitize_ok split: prod.split)

lemma command_acts: "cmd_ok (rb_max_linear r) (rb_max_angular r) m \<Longrightarrow> acts r (fst (command env m x r))"
  using publish_acts [of r m env]
  by (auto simp: command_def sx_bind_def update_watchdog_def acts_def split: prod.splits sum.splits)

lemma moves_simple: "moves (sx_return x)" "moves (sx_raise e)" "(\<And>x. moves (f x)) \<Longrightarrow> moves (lift_sum m f)"
  by (auto simp: moves_def sx_return_def sx_raise_def lift_sum_def acts_refl split: sum.split)

lemma moves_with_connection: "moves f \<Longrightarrow> moves (with_connection env f)"
  by (auto simp: moves_def with_connection_def check_connection_def robot_audit_def Let_def acts_def limits_ok_def
      split: prod.splits bool.splits if_splits)

lemma moves_navigate: "moves (handle_navigate env d)"
proof -
  have "moves (\<lambda>r. command env (CmdVel (clamp_velocity lx (rb_max_linear r)) (clamp_velocity ly (rb_max_linear r))
      (clamp_velocity az (rb_max_angular r))) (Done ''navigate'') r)" for lx ly az
    by (simp add: moves_def limits_ok_def command_acts clamp_within)
  then show ?thesis
    unfolding handle_navigate_def by (intro moves_with_connection moves_simple)
qed

lemma moves_gripper: "moves (handle_gripper env d)"
  unfolding handle_gripper_def Let_def
  by (intro moves_with_connection moves_simple) (simp add: moves_def command_acts)

lemma moves_look: "moves (handle_look env d)"
proof -
  have head: "moves (command env (Traj ''/head_controller/follow_joint_trajectory''
      (one_point js [clamp_velocity pan (3/2), clamp_velocity tilt 1])) x)" for js pan tilt and x :: robot_result
    by (simp add: moves_def command_acts one_point_def head_point_def clamp_within)
  show ?thesis unfolding handle_look_def
    by (intro moves_with_connection)
       (use head in \<open>auto simp: moves_def lift_sum_def acts_refl split: sum.split\<close>)
qed

lemma moves_manipulate: "moves (handle_manipulate env d)"
proof -
  have arm: "acts r (fst (move_arm env t r))" for t r
    by (auto simp: move_arm_def acts_refl split: option.split intro: command_acts)
  have "moves (\<lambda>r. case check_workspace env t r of Inl e \<Rightarrow> (r, Inl e)
      | Inr False \<Rightarrow> (r, Inr (Refused s)) | Inr True \<Rightarrow> move_arm env t r)" for t s
    by (auto simp: moves_def acts_refl arm split: sum.split bool.split)
  then show ?thesis
    unfolding handle_manipulate_def Let_def
    by (intro moves_simple) (auto intro!: moves_simple moves_with_connection split: pyval.split)
qed

lemma moves_act: "moves (act env d)"
  by (simp add: act_def Let_def moves_navigate moves_manipulate moves_gripper moves_look moves_simple)

lemma zero_cmd_ok: "limits_ok r \<Longrightarrow> cmd_ok (rb_max_linear r) (rb_max_angular r) zero_twist"
  by (simp add: limits_ok_def fin_within_def)

text \<open>What stopping does: the latch is set, and a zero twist is sent or nothing.\<close>

lemma handle_stop_acts:
  assumes "limits_ok r"
  shows "acts (r\<lparr>rb_estop := True\<rparr>) (fst (handle_stop env r))"
proof -
  have "acts (r\<lparr>rb_estop := True\<rparr>) (fst (publish env zero_twist (r\<lparr>rb_estop := True\<rparr>)))"
    using assms by (intro publish_acts) (simp add: limits_ok_def fin_within_def)
  then show ?thesis
    by (auto simp: handle_stop_def sx_bind_def robot_audit_def acts_def split: prod.splits sum.splits)
qed

lemma admit_acts:
  assumes "limits_ok r"
  shows "acts r (fst (admit env d r)) \<or> fst (admit env d r) = fst (handle_stop env r)"
  by (simp add: admit_def Let_def acts_refl)

subsection \<open>Limits\<close>

definition robot_inv :: "real \<Rightarrow> real \<Rightarrow> robot \<Rightarrow> bool" where
  "robot_inv lin ang r \<longleftrightarrow> rb_max_linear r = lin \<and> rb_max_angular r = ang \<and> limits_ok r \<and> fin_within (rb_max_linear r) (fst (rb_twist r)) \<and> fin_within (rb_max_angular r) (snd (rb_twist r)) \<and>
     list_all (msg_ok (rb_max_linear r) (rb_max_angular r) \<circ> snd) (bs_sent (rb_bus r))"

lemma acts_inv: "acts r r' \<Longrightarrow> robot_inv lin ang r \<Longrightarrow> robot_inv lin ang r'"
  by (auto simp: acts_def robot_inv_def limits_ok_def)

lemma inv_cong:
  "robot_inv lin ang (r\<lparr>rb_estop := b\<rparr>) = robot_inv lin ang r" "robot_inv lin ang (r\<lparr>rb_pending := p\<rparr>) = robot_inv lin ang r"
  "robot_inv lin ang (r\<lparr>rb_continuous := b\<rparr>) = robot_inv lin ang r" "robot_inv lin ang (r\<lparr>rb_obstacle := ob\<rparr>) = robot_inv lin ang r"
  "robot_inv lin ang (r\<lparr>rb_last_command := t\<rparr>) = robot_inv lin ang r" "robot_inv lin ang (r\<lparr>rb_log := lg\<rparr>) = robot_inv lin ang r"
  by (simp_all add: robot_inv_def limits_ok_def)

lemma inv_twist: "robot_inv lin ang r \<Longrightarrow> robot_inv lin ang (r\<lparr>rb_twist := continuous_twist lx az r\<rparr>)"
  by (auto simp: robot_inv_def limits_ok_def continuous_twist_def clamp_within)

lemma inv_limits: "robot_inv lin ang r \<Longrightarrow> limits_ok r"
  by (simp add: robot_inv_def)

lemma handle_stop_inv: "robot_inv lin ang r \<Longrightarrow> robot_inv lin ang (fst (handle_stop env r))"
  using acts_inv [OF handle_stop_acts [OF inv_limits]] by (simp add: inv_cong)

lemma stop_continuous_inv: "robot_inv lin ang r \<Longrightarrow> robot_inv lin ang (stop_continuous_navigate env r)"
proof -
  assume inv: "robot_inv lin ang r"
  then have "robot_inv lin ang (r\<lparr>rb_continuous := False\<rparr>)" by (simp add: inv_cong)
  from acts_inv [OF publish_acts [OF zero_cmd_ok [OF inv_limits [OF this]]] this] show ?thesis
    by (simp add: stop_continuous_navigate_def)
qed

lemma continuous_tick_inv: "robot_inv lin ang r \<Longrightarrow> robot_inv lin ang (continuous_tick env r)"
proof -
  assume inv: "robot_inv lin ang r"
  then have "acts r (fst (command env (CmdVel (fst (rb_twist r)) (Fin 0) (snd (rb_twist r))) () r))"
    by (intro command_acts) (auto simp: robot_inv_def limits_ok_def fin_within_def)
  from acts_inv [OF this inv] stop_continuous_inv [OF inv, of env] inv show ?thesis
    by (simp add: continuous_tick_def stop_continuous_navigate_def)
qed

lemma robot_apply_inv: "robot_inv lin ang r \<Longrightarrow> robot_inv lin ang (robot_apply p r)"
proof (cases p)
  case (Admit env d)
  assume inv: "robot_inv lin ang r"
  from admit_acts [OF inv_limits [OF inv], of env d] have "robot_inv lin ang (fst (admit env d r))"
    using acts_inv inv handle_stop_inv by metis
  with inv Admit show ?thesis by (auto simp: inv_cong split: prod.splits option.splits)
next
  case (Act env)
  assume inv: "robot_inv lin ang r"
  have "robot_inv lin ang (fst (act env d (r\<lparr>rb_pending := None\<rparr>)))" for d
  proof -
    from inv have inv': "robot_inv lin ang (r\<lparr>rb_pending := None\<rparr>)" by (simp add: inv_cong)
    from moves_act [of env d] inv_limits [OF this] have "acts (r\<lparr>rb_pending := None\<rparr>) (fst (act env d (r\<lparr>rb_pending := None\<rparr>)))"
      by (simp add: moves_def)
    from acts_inv [OF this inv'] show ?thesis .
  qed
  with inv Act show ?thesis by (simp split: option.split)
qed (auto simp: watchdog_tick_def sensor_tick_def handle_stop_inv stop_continuous_inv continuous_tick_inv inv_cong inv_twist
       start_continuous_navigate_def update_continuous_navigate_def update_watchdog_def start_sensor_feedback_def
       stop_sensor_feedback_def reset_emergency_stop_def robot_audit_def Let_def split: option.split)

interpretation robot: invariant_machine robot_apply "robot_inv lin ang" for lin ang
  by unfold_locales (rule robot_apply_inv)

text \<open>C5: nothing beyond the limits reaches the robot. In every interleaving of handler calls, watchdog, sensor and
  continuous-command threads, whatever parameters the decisions carry (missing, textual, NaN or infinite), each velocity
  sent is finite and within the configured limits, each trajectory sent has finite positions, and the head stays
  within its pan and tilt range.\<close>

theorem sent_commands_within_limits:
  assumes "bs_sent b = []"
  shows "list_all (msg_ok (max (1/100) max_linear) (max (1/100) max_angular) \<circ> snd)
     (bs_sent (rb_bus (run_ops robot_apply ps (new_robot max_linear max_angular bounds timeout sim audited fallback now b))))"
proof -
  let ?r = "new_robot max_linear max_angular bounds timeout sim audited fallback now b"
  have "robot_inv (max (1/100) max_linear) (max (1/100) max_angular) ?r"
    using assms by (simp add: robot_inv_def new_robot_def limits_ok_def fin_within_def create_publisher_def le_max_iff_disj)
  from robot.inv_run [OF this, of ps] show ?thesis by (auto simp: robot_inv_def)
qed

definition demo_bus :: bus where
  "demo_bus = new_bus True 10"

definition demo_robot :: robot where
  "demo_robot = new_robot 1 1 [] 5 False False False 0 demo_bus"

definition demo_env :: "real \<Rightarrow> robot_env" where
  "demo_env t = \<lparr>re_now = t, re_pub = t, re_connected = True, re_num = (\<lambda>_. Nan), re_parse = (\<lambda>_. None),
     re_plan = (\<lambda>_. None), re_valid = (\<lambda>_. (True, [])), re_collides = (\<lambda>_. False), re_sim_joints = None,
     re_ros_joints = None, re_sim_scan = None, re_ros_scan = None\<rparr>"

definition navigate_nan :: pydict where
  "navigate_nan = [(''action_type'', PStr ''robot_navigate''), (''params'', PDict [(''linear_x'', PFloat ''nan'')])]"

theorem sent_commands_within_limits_witness:
  "list_all (msg_ok 1 1 \<circ> snd) (bs_sent (rb_bus (run_ops robot_apply
     [Admit (demo_env 1) navigate_nan, Act (demo_env 1), StartContinuous (demo_env 2) Inf (Fin (-7)), ContinuousTick (demo_env 3)] demo_robot)))"
proof -
  have b: "bs_sent demo_bus = []" by (simp add: demo_bus_def new_bus_def)
  have one: "max (1/100) 1 = (1::real)" by simp
  show ?thesis
    unfolding demo_robot_def
    by (rule sent_commands_within_limits [OF b, where max_linear = 1 and max_angular = 1, unfolded one])
qed

text \<open>A NaN is not refused: it is clamped to the limit, so that a velocity that is not a number commands full speed.\<close>

lemma nan_is_full_speed: "clamp_velocity Nan limit = (if - limit < limit then Fin limit else Fin (- limit))"
  by (simp add: clamp_velocity_def fl_min_def fl_max_def)

subsection \<open>The emergency stop\<close>

text \<open>Messages that move the robot: everything but the zero twist.\<close>

definition motions :: "robot \<Rightarrow> ros_msg list" where
  "motions r = filter (\<lambda>m. m \<noteq> zero_twist) (map snd (bs_sent (rb_bus r)))"

lemma motions_cong [simp]:
  "motions (r\<lparr>rb_estop := b\<rparr>) = motions r" "motions (r\<lparr>rb_pending := p\<rparr>) = motions r"
  "motions (r\<lparr>rb_continuous := b\<rparr>) = motions r" "motions (r\<lparr>rb_obstacle := ob\<rparr>) = motions r"
  "motions (r\<lparr>rb_last_command := t\<rparr>) = motions r" "motions (r\<lparr>rb_twist := tw\<rparr>) = motions r"
  by (simp_all add: motions_def)

lemma publish_zero: "motions (fst (publish env zero_twist r)) = motions r"
  by (auto simp: motions_def publish_def bus_publish_def throttled_def Let_def split: prod.split)

lemma publish_frame [simp]:
  "rb_estop (fst (publish env m r)) = rb_estop r" "rb_continuous (fst (publish env m r)) = rb_continuous r"
  "rb_pending (fst (publish env m r)) = rb_pending r" "rb_max_linear (fst (publish env m r)) = rb_max_linear r"
  "rb_max_angular (fst (publish env m r)) = rb_max_angular r"
  by (simp_all add: publish_def split: prod.split)

lemma handle_stop_motions:
  "motions (fst (handle_stop env r)) = motions r" "rb_estop (fst (handle_stop env r))"
  "rb_continuous (fst (handle_stop env r)) = rb_continuous r" "rb_pending (fst (handle_stop env r)) = rb_pending r"
proof -
  obtain r1 res where p: "publish env zero_twist (r\<lparr>rb_estop := True\<rparr>) = (r1, res)" by fastforce
  have "motions r1 = motions r" using publish_zero [of env "r\<lparr>rb_estop := True\<rparr>"] p by (simp add: motions_def)
  with p publish_frame [of env zero_twist "r\<lparr>rb_estop := True\<rparr>"]
  show "motions (fst (handle_stop env r)) = motions r" "rb_estop (fst (handle_stop env r))"
    "rb_continuous (fst (handle_stop env r)) = rb_continuous r" "rb_pending (fst (handle_stop env r)) = rb_pending r"
    by (auto simp: handle_stop_def sx_bind_def robot_audit_def motions_def split: sum.split)
qed

lemma acts_motions: "acts r r' \<Longrightarrow> length (motions r') \<le> length (motions r) + 1"
proof -
  assume "acts r r'"
  then obtain ms where "bs_sent (rb_bus r') = bs_sent (rb_bus r) @ ms" "length ms \<le> 1" by (auto simp: acts_def)
  moreover from this(2) have "length (filter ((\<lambda>m. m \<noteq> zero_twist) \<circ> snd) ms) \<le> 1"
    by (rule le_trans [OF length_filter_le])
  ultimately show ?thesis by (simp add: motions_def filter_map)
qed

text \<open>A stopped robot: the latch is set and no velocity is repeated; \<open>n\<close> bounds the motions sent, counting the call that
  may have passed the latch already.\<close>

definition stopped :: "nat \<Rightarrow> robot \<Rightarrow> bool" where
  "stopped n r \<longleftrightarrow> limits_ok r \<and> rb_estop r \<and> \<not> rb_continuous r \<and>
     length (motions r) + (if rb_pending r = None then 0 else 1) \<le> n"

definition keeps_stop :: "robot_step \<Rightarrow> bool" where
  "keeps_stop p = (case p of ResetStop _ \<Rightarrow> False | StartContinuous _ _ _ \<Rightarrow> False | _ \<Rightarrow> True)"

lemma admit_stopped: "rb_estop r \<Longrightarrow> fst (admit env d r) \<in> {r, fst (handle_stop env r)} \<and> snd (admit env d r) \<noteq> None"
  by (simp add: admit_def Let_def)

lemma stopped_step: "stopped n r \<Longrightarrow> keeps_stop p \<Longrightarrow> stopped n (robot_apply p r)"
proof (cases p)
  case (Admit env d)
  assume s: "stopped n r"
  have "limits_ok (fst (handle_stop env r))"
    using s handle_stop_acts [of r env] by (auto simp: stopped_def acts_def limits_ok_def)
  then have "stopped n (fst (handle_stop env r))"
    using s by (simp add: stopped_def handle_stop_motions)
  moreover obtain r1 res where "admit env d r = (r1, res)" by fastforce
  moreover from this admit_stopped [of r env d] s have "r1 \<in> {r, fst (handle_stop env r)}" "res \<noteq> None"
    by (auto simp: stopped_def)
  ultimately show ?thesis using s Admit by auto
next
  case (Act env)
  assume s: "stopped n r"
  show ?thesis
  proof (cases "rb_pending r")
    case None
    with s Act show ?thesis by simp
  next
    case (Some d)
    let ?r = "r\<lparr>rb_pending := None\<rparr>"
    have "acts ?r (fst (act env d ?r))" using s moves_act [of env d] by (simp add: moves_def stopped_def limits_ok_def)
    from this acts_motions [OF this] s Some Act show ?thesis
      by (auto simp: stopped_def acts_def limits_ok_def motions_def)
  qed
qed (auto simp: stopped_def keeps_stop_def watchdog_tick_def sensor_tick_def continuous_tick_def stop_continuous_navigate_def
       update_continuous_navigate_def update_watchdog_def start_sensor_feedback_def stop_sensor_feedback_def
       publish_zero limits_ok_def handle_stop_motions split: option.split)

lemma stopped_run: "stopped n r \<Longrightarrow> list_all keeps_stop ps \<Longrightarrow> stopped n (run_ops robot_apply ps r)"
  by (induction ps arbitrary: r) (auto simp: stopped_step)


definition stop_decision :: pydict where
  "stop_decision = [(''action_type'', PStr ''robot_stop'')]"

lemma demo_limits: "limits_ok demo_robot" "\<not> rb_continuous demo_robot" "rb_pending demo_robot = None" "motions demo_robot = []"
  by (simp_all add: demo_robot_def new_robot_def limits_ok_def motions_def create_publisher_def demo_bus_def new_bus_def)


text \<open>The watchdog stops a silent robot. When no command was issued for longer than the timeout, the next tick of the
  watchdog latches the emergency stop and sends a zero twist, which no rate limit holds back.\<close>

theorem watchdog_stops_silent_robot:
  assumes "re_now env - rb_last_command r > rb_watchdog_timeout r" "''/cmd_vel'' \<in> set (bs_topics (rb_bus r))" "\<not> rb_estop r"
  shows "rb_estop (robot_apply (WatchdogTick env) r) \<and>
     bs_sent (rb_bus (robot_apply (WatchdogTick env) r)) = bs_sent (rb_bus r) @ [(re_pub env, zero_twist)]"
  using assms
  by (simp add: watchdog_tick_def check_watchdog_def handle_stop_def sx_bind_def publish_def bus_publish_def throttled_def Let_def
      robot_audit_def)

theorem watchdog_stops_silent_robot_witness:
  "rb_estop (robot_apply (WatchdogTick (demo_env 9)) demo_robot) \<and>
   bs_sent (rb_bus (robot_apply (WatchdogTick (demo_env 9)) demo_robot)) = [(9, zero_twist)]"
proof -
  have "re_now (demo_env 9) - rb_last_command demo_robot > rb_watchdog_timeout demo_robot"
    "''/cmd_vel'' \<in> set (bs_topics (rb_bus demo_robot))" "\<not> rb_estop demo_robot" "bs_sent (rb_bus demo_robot) = []"
    by (simp_all add: demo_robot_def new_robot_def demo_env_def create_publisher_def demo_bus_def new_bus_def)
  from watchdog_stops_silent_robot [OF this(1-3)] this(4) show ?thesis by (simp add: demo_env_def)
qed

text \<open>The continuous-command thread does not look at the latch: after an emergency stop it goes on sending the last velocity,
  and with every message it also feeds the watchdog.\<close>

theorem continuous_command_survives_stop:
  assumes "rb_continuous r" "re_connected env" "fst (rb_twist r) = Fin v" "v \<noteq> 0" "\<bar>v\<bar> \<le> 100" "snd (rb_twist r) = Fin 0"
    and "''/cmd_vel'' \<in> set (bs_topics (rb_bus r))" "re_pub env \<ge> re_pub env0 + bs_min_interval (rb_bus r)"
  shows "let r' = robot_apply (ContinuousTick env) (fst (handle_stop env0 r)) in
     rb_estop r' \<and> snd (last (bs_sent (rb_bus r'))) = CmdVel (Fin v) (Fin 0) (Fin 0) \<and> rb_last_command r' = re_now env"
  using assms
  by (simp add: handle_stop_def sx_bind_def publish_def bus_publish_def throttled_def Let_def robot_audit_def continuous_tick_def
      command_def update_watchdog_def update_conv')

text \<open>A scan whose first range is NaN hides every obstacle: the minimum stays NaN, and nothing is less than the threshold.\<close>

theorem nan_range_hides_obstacles: "foldl fl_min Nan ranges = Nan" "\<not> fl_less (min_range (Nan # ranges)) (Fin d)"
proof -
  show "foldl fl_min Nan ranges = Nan"
    by (induction ranges) (simp_all add: fl_min_def)
  then show "\<not> fl_less (min_range (Nan # ranges)) (Fin d)" by (simp add: min_range_def)
qed

text \<open>With the ROS 2 implementation a look raises: no publisher is created for the head's topic. The stub records it.\<close>

theorem look_has_no_publisher:
  "snd (robot_handle (demo_env 1) [(''action_type'', PStr ''robot_look'')] demo_robot) = Inl RuntimeErr"
  by (simp add: robot_handle_def admit_def act_def dget_default_def robot_safety_types_def robot_read_types_def
      handle_look_def with_connection_def check_connection_def demo_env_def demo_robot_def new_robot_def robot_params_def dget_def
      lift_sum_def float_param_def command_def sx_bind_def publish_def bus_publish_def throttled_def create_publisher_def
      demo_bus_def new_bus_def Let_def)

lemma check_axes_sound:
  "check_axes env bounds target axes = Inr True \<Longrightarrow> axis \<in> set axes \<Longrightarrow> map_of target axis = Some v \<Longrightarrow>
     map_of bounds axis = Some (lo, hi) \<Longrightarrow>
     \<exists>x. number_of (re_num env) v = Some x \<and> \<not> fl_less x (Fin lo) \<and> \<not> fl_less (Fin hi) x"
  by (induction axes) (auto split: option.splits prod.splits if_splits)

text \<open>The arm moves only where it may. If handling a manipulation sends a trajectory, the planner produced it for the
  target's coordinates, it was validated and found free of collisions, and each coordinate that the target gives is
  not below and not above the bounds of its axis.\<close>

theorem arm_motion_checked:
  assumes "bs_sent (rb_bus (fst (handle_manipulate env d r))) \<noteq> bs_sent (rb_bus r)"
  shows "\<exists>params target tj. robot_params d = Inr params \<and> dget_default params ''target'' (PDict []) = PDict target \<and>
     re_plan env (coordinate target ''x'', coordinate target ''y'', coordinate target ''z'') = Some tj \<and>
     fst (re_valid env tj) \<and> \<not> re_collides env tj \<and>
     (\<forall>axis\<in>{''x'', ''y'', ''z''}. \<forall>v lo hi. map_of target axis = Some v \<longrightarrow> map_of (rb_bounds r) axis = Some (lo, hi) \<longrightarrow>
        (\<exists>x. number_of (re_num env) v = Some x \<and> \<not> fl_less x (Fin lo) \<and> \<not> fl_less (Fin hi) x))"
proof -
  obtain r1 ok where c: "check_connection env r = (r1, ok)" by fastforce
  then have r1: "bs_sent (rb_bus r1) = bs_sent (rb_bus r)" "rb_bounds r1 = rb_bounds r"
    by (auto simp: check_connection_def robot_audit_def Let_def split: if_splits)
  obtain params where p: "robot_params d = Inr params"
    using assms by (cases "robot_params d") (auto simp: handle_manipulate_def lift_sum_def)
  obtain target where t: "dget_default params ''target'' (PDict []) = PDict target" and ok: ok
    using assms p c r1
    by (cases "dget_default params ''target'' (PDict [])")
       (auto simp: handle_manipulate_def lift_sum_def Let_def with_connection_def sx_raise_def sx_return_def split: if_splits bool.splits)
  have sent: "bs_sent (rb_bus (fst (case check_workspace env target r1 of Inl e \<Rightarrow> (r1, Inl e)
      | Inr False \<Rightarrow> (r1, Inr (Refused ''target outside workspace bounds'')) | Inr True \<Rightarrow> move_arm env target r1))) \<noteq> bs_sent (rb_bus r1)"
    using assms p t c ok r1
    by (auto simp: handle_manipulate_def lift_sum_def Let_def with_connection_def sx_return_def split: if_splits)
  then have w: "check_workspace env target r1 = Inr True" and m: "bs_sent (rb_bus (fst (move_arm env target r1))) \<noteq> bs_sent (rb_bus r1)"
    by (auto split: sum.splits bool.splits)
  from m obtain tj where tj: "re_plan env (coordinate target ''x'', coordinate target ''y'', coordinate target ''z'') = Some tj"
    "fst (re_valid env tj)" "\<not> re_collides env tj"
    by (auto simp: move_arm_def split: option.splits if_splits)
  from w have "check_axes env (rb_bounds r) target [''x'', ''y'', ''z''] = Inr True"
    by (simp add: check_workspace_def r1)
  from check_axes_sound [OF this] have axes: "\<forall>axis\<in>{''x'', ''y'', ''z''}. \<forall>v lo hi. map_of target axis = Some v \<longrightarrow>
      map_of (rb_bounds r) axis = Some (lo, hi) \<longrightarrow>
      (\<exists>x. number_of (re_num env) v = Some x \<and> \<not> fl_less x (Fin lo) \<and> \<not> fl_less (Fin hi) x)"
    by simp
  show ?thesis
    by (rule exI [of _ params], rule exI [of _ target], rule exI [of _ tj]) (intro conjI p t tj axes)
qed

definition arm_env :: robot_env where
  "arm_env = (demo_env 1)\<lparr>re_plan := (\<lambda>_. Some (one_point [''j''] [Fin 1]))\<rparr>"

definition reach_decision :: pydict where
  "reach_decision = [(''action_type'', PStr ''robot_manipulate''), (''params'', PDict [(''target'', PDict [(''x'', PInt 1)])])]"

theorem arm_motion_checked_witness:
  "\<exists>tj. re_plan arm_env (coordinate [(''x'', PInt 1)] ''x'', coordinate [(''x'', PInt 1)] ''y'', coordinate [(''x'', PInt 1)] ''z'') = Some tj \<and>
     \<not> re_collides arm_env tj"
proof -
  have "bs_sent (rb_bus (fst (handle_manipulate arm_env reach_decision demo_robot))) \<noteq> bs_sent (rb_bus demo_robot)"
    by (simp add: handle_manipulate_def arm_env_def demo_env_def reach_decision_def robot_params_def dget_def dget_default_def lift_sum_def
        with_connection_def check_connection_def check_workspace_def demo_robot_def new_robot_def default_bounds_def move_arm_def
        command_def sx_bind_def publish_def bus_publish_def throttled_def create_publisher_def demo_bus_def new_bus_def
        validate_joint_trajectory_def one_point_def Let_def update_watchdog_def)
  from arm_motion_checked [OF this] show ?thesis
    by (auto simp: reach_decision_def robot_params_def dget_def dget_default_def)
qed

end
