(* ===== verification/Continuous_Agent.thy ===== *)
theory Continuous_Agent
  imports Autonomy
begin

text \<open>
  The daemon, \<open>src/continuous_agent.py\<close>: the loop that pulls a task, runs it through the engine's gated
  path, consolidates the memory and gives the dream its tick. A run is a list of passes. What a pass finds outside
  the loop is its \<open>pass_env\<close>: whether the stop event is set, the clock, the answer of the task source, and what
  other threads did to governor and fallback controller while the loop slept.
\<close>

subsection \<open>State\<close>

datatype pulled = Pulled pyval | SourceExhausted | SourceFailed

record pass_env =
  pe_interlude :: "fb_op list"
  pe_stop :: bool
  pe_clock :: real
  pe_pull :: pulled
  pe_now :: string
  pe_task :: task_env
  pe_text :: "eng_exn \<Rightarrow> string"
  pe_mem :: mem_env
  pe_dream :: mem_env

record agent =
  ag_engine :: engine
  ag_has_source :: bool
  ag_interval :: real
  ag_max_iterations :: "int option"
  ag_max_seconds :: "real option"
  ag_started_at :: real
  ag_loops :: nat
  ag_tasks :: nat
  ag_successes :: nat
  ag_failures :: nat

text \<open>The constructor reads the two bounds by truth value: zero means no bound.\<close>

definition new_agent :: "engine \<Rightarrow> bool \<Rightarrow> real \<Rightarrow> int option \<Rightarrow> real option \<Rightarrow> agent" where
  "new_agent e has_source interval max_iterations max_seconds =
     \<lparr>ag_engine = e, ag_has_source = has_source, ag_interval = max (1/100) interval,
      ag_max_iterations = (case max_iterations of None \<Rightarrow> None | Some n \<Rightarrow> if n = 0 then None else Some n),
      ag_max_seconds = (case max_seconds of None \<Rightarrow> None | Some s \<Rightarrow> if s = 0 then None else Some (max 0 s)),
      ag_started_at = 0, ag_loops = 0, ag_tasks = 0, ag_successes = 0, ag_failures = 0\<rparr>"

definition ag_start :: "real \<Rightarrow> agent \<Rightarrow> agent" where
  "ag_start now ag = ag\<lparr>ag_started_at := now\<rparr>"

subsection \<open>One pass\<close>

text \<open>\<open>PNone\<close> is Python's \<open>None\<close>: no task. A source may hand out any value.\<close>

definition next_task :: "pass_env \<Rightarrow> agent \<Rightarrow> pyval" where
  "next_task env ag =
     (if ag_has_source ag then
        case pe_pull env of Pulled t \<Rightarrow> t | SourceExhausted \<Rightarrow> PNone | SourceFailed \<Rightarrow> PNone
      else PDict (generate_task (pe_now env) ''text'' (PStr ''continuous self-observation and improvement'')))"

definition maintain :: "mem_env \<Rightarrow> mem_env \<Rightarrow> memory \<Rightarrow> memory \<times> (py_exn + dream_result option)" where
  "maintain env1 env2 m = tick_dream env2 (fst (consolidate_now env1 m))"

definition tally_result :: "pydict \<Rightarrow> agent \<Rightarrow> agent" where
  "tally_result result ag =
     (if dget_default result ''status'' (PStr ''unknown'') = PStr ''success''
      then ag\<lparr>ag_successes := ag_successes ag + 1\<rparr> else ag\<lparr>ag_failures := ag_failures ag + 1\<rparr>)"

definition with_maintenance :: "pass_env \<Rightarrow> engine \<Rightarrow> engine" where
  "with_maintenance env e = e\<lparr>en_memory := fst (maintain (pe_mem env) (pe_dream env) (en_memory e))\<rparr>"

definition loop_once :: "pass_env \<Rightarrow> (agent, eng_exn, unit) sx" where
  "loop_once env ag =
     (case next_task env ag of
        PNone \<Rightarrow> (ag, Inr ())
      | PDict task \<Rightarrow>
          (let ag1 = ag\<lparr>ag_tasks := ag_tasks ag + 1\<rparr> in
           case execute_task (pe_task env) task (ag_engine ag) of
             (e, Inl x) \<Rightarrow> (ag1\<lparr>ag_engine := e\<rparr>, Inl x)
           | (e, Inr result) \<Rightarrow>
               (let ag2 = tally_result result (ag1\<lparr>ag_engine := e\<rparr>) in
                case evaluate_task_performance task (PDict result) of
                  Inl x \<Rightarrow> (ag2, Inl (XExn (exn_class x)))
                | Inr _ \<Rightarrow> (ag2\<lparr>ag_engine := with_maintenance env e\<rparr>, Inr ())))
      | _ \<Rightarrow> (ag\<lparr>ag_tasks := ag_tasks ag + 1\<rparr>, Inl (XExn ''AttributeError'')))"

subsection \<open>The loop\<close>

datatype loop_end = StopRequested | TimeUp | PassesUsed | Crashed eng_exn

definition time_up :: "pass_env \<Rightarrow> agent \<Rightarrow> bool" where
  "time_up env ag = (case ag_max_seconds ag of None \<Rightarrow> False | Some s \<Rightarrow> pe_clock env - ag_started_at ag \<ge> s)"

definition passes_used :: "agent \<Rightarrow> bool" where
  "passes_used ag = (case ag_max_iterations ag of None \<Rightarrow> False | Some n \<Rightarrow> int (ag_loops ag) \<ge> n)"

definition interlude :: "pass_env \<Rightarrow> agent \<Rightarrow> agent" where
  "interlude env ag =
     ag\<lparr>ag_engine := (ag_engine ag)\<lparr>en_world := run_ops fb_apply (pe_interlude env) (en_world (ag_engine ag))\<rparr>\<rparr>"

definition report_loop_error :: "pass_env \<Rightarrow> eng_exn \<Rightarrow> agent \<Rightarrow> agent \<times> (eng_exn + unit)" where
  "report_loop_error env x ag =
     (case in_world (pe_task env) (report_violation ''continuous_loop_error'' (take 200 (pe_text env x))) (ag_engine ag) of
        (e, r) \<Rightarrow> (ag\<lparr>ag_engine := e\<rparr>, r))"

definition guarded_once :: "pass_env \<Rightarrow> agent \<Rightarrow> agent \<times> (eng_exn + unit)" where
  "guarded_once env ag =
     (case loop_once env ag of (ag', Inr _) \<Rightarrow> (ag', Inr ()) | (ag', Inl x) \<Rightarrow> report_loop_error env x ag')"

definition loop_body :: "pass_env \<Rightarrow> agent \<Rightarrow> agent \<times> loop_end option" where
  "loop_body env ag =
     (if pe_stop env then (ag, Some StopRequested)
      else if time_up env ag then (ag, Some TimeUp)
      else if passes_used ag then (ag, Some PassesUsed)
      else if g_state (w_gov (en_world (ag_engine ag))) \<in> {PAUSED, HALTED} then (ag, None)
      else case guarded_once env ag of
             (ag', Inr _) \<Rightarrow> (ag'\<lparr>ag_loops := ag_loops ag' + 1\<rparr>, None)
           | (ag', Inl x) \<Rightarrow> (ag', Some (Crashed x)))"

fun run_loop :: "pass_env list \<Rightarrow> agent \<Rightarrow> agent \<times> loop_end option" where
  "run_loop [] ag = (ag, None)"
| "run_loop (env # envs) ag =
     (case loop_body env (interlude env ag) of
        (ag', None) \<Rightarrow> run_loop envs ag'
      | (ag', Some r) \<Rightarrow> (ag', Some r))"

subsection \<open>Authority of a run\<close>

text \<open>What a part of the loop may do: leave the standing authority alone, and add effects that it and the given
  task environments back.\<close>

definition backed :: "task_env set \<Rightarrow> features \<times> consents \<times> bool \<Rightarrow> exec_effect \<Rightarrow> bool" where
  "backed E = (\<lambda>(ft, c, operator) eff.
     \<forall>a\<in>set (consent_gated_types ft). effect_action eff = PStr a \<longrightarrow> (\<exists>env\<in>E. cleared env c operator a))"

definition bounded_by :: "task_env set \<Rightarrow> engine \<Rightarrow> engine \<Rightarrow> bool" where
  "bounded_by E e e' \<longleftrightarrow> standing e' = standing e \<and>
     (\<exists>efs. trace_of e' = trace_of e @ efs \<and> list_all (backed E (standing e)) efs)"

lemma backed_mono: "backed E st eff \<Longrightarrow> E \<subseteq> F \<Longrightarrow> backed F st eff"
  by (cases st) (fastforce simp: backed_def)

lemma bounded_by_quiet: "standing e' = standing e \<Longrightarrow> trace_of e' = trace_of e \<Longrightarrow> bounded_by E e e'"
  by (simp add: bounded_by_def)

lemma bounded_by_trans:
  assumes "bounded_by E e e1" and "bounded_by F e1 e2"
  shows "bounded_by (E \<union> F) e e2"
proof -
  from assms obtain efs gs where "trace_of e2 = trace_of e @ efs @ gs"
    and "list_all (backed E (standing e)) efs" "list_all (backed F (standing e)) gs" "standing e2 = standing e"
    by (auto simp: bounded_by_def)
  then show ?thesis
    by (auto simp: bounded_by_def list_all_iff intro!: exI [of _ "efs @ gs"] intro: backed_mono)
qed

lemma bounded_by_quiet_after: "bounded_by E e e1 \<Longrightarrow> standing e2 = standing e1 \<Longrightarrow> trace_of e2 = trace_of e1 \<Longrightarrow> bounded_by E e e2"
  by (simp add: bounded_by_def)

lemma execute_task_bounded: "bounded_by {env} e (fst (execute_task env task e))"
proof -
  obtain efs where "trace_of (fst (execute_task env task e)) = trace_of e @ efs"
    "list_all (authorized env (fst (evaluate_fallbacks env e))) efs"
    using execute_task_effects by blast
  then show ?thesis
    unfolding bounded_by_def using execute_task_standing [of env task e] evaluate_fallbacks_frame [of env e]
    by (auto simp: list_all_iff backed_def authorized_def standing_def intro!: exI [of _ efs])
qed

lemma with_maintenance_frame [simp]:
  "standing (with_maintenance env e) = standing e" "trace_of (with_maintenance env e) = trace_of e"
  "en_world (with_maintenance env e) = en_world e"
  by (simp_all add: with_maintenance_def standing_def)

lemma tally_result_frame [simp]:
  "ag_engine (tally_result r ag) = ag_engine ag" "ag_loops (tally_result r ag) = ag_loops ag"
  "ag_tasks (tally_result r ag) = ag_tasks ag" "ag_max_iterations (tally_result r ag) = ag_max_iterations ag"
  "ag_max_seconds (tally_result r ag) = ag_max_seconds ag" "ag_started_at (tally_result r ag) = ag_started_at ag"
  "ag_successes (tally_result r ag) + ag_failures (tally_result r ag) = ag_successes ag + ag_failures ag + 1"
  by (simp_all add: tally_result_def)

text \<open>The three outcomes of a pass's work: nothing, a task that ends before its result is in, and one that was tallied.\<close>

lemma loop_once_cases:
  obtains (idle) "loop_once env ag = (ag, Inr ())"
    | (no_dict) "loop_once env ag = (ag\<lparr>ag_tasks := ag_tasks ag + 1\<rparr>, Inl (XExn ''AttributeError''))"
    | (raised) task x where "next_task env ag = PDict task"
        "loop_once env ag = (ag\<lparr>ag_tasks := ag_tasks ag + 1, ag_engine := fst (execute_task (pe_task env) task (ag_engine ag))\<rparr>, Inl x)"
    | (untyped) task result x where "next_task env ag = PDict task"
        "loop_once env ag = (tally_result result (ag\<lparr>ag_tasks := ag_tasks ag + 1,
           ag_engine := fst (execute_task (pe_task env) task (ag_engine ag))\<rparr>), Inl x)"
    | (ran) task result where "next_task env ag = PDict task"
        "loop_once env ag = ((tally_result result (ag\<lparr>ag_tasks := ag_tasks ag + 1,
           ag_engine := fst (execute_task (pe_task env) task (ag_engine ag))\<rparr>))
             \<lparr>ag_engine := with_maintenance env (fst (execute_task (pe_task env) task (ag_engine ag)))\<rparr>, Inr ())"
proof (cases "\<exists>task. next_task env ag = PDict task")
  case True
  then obtain task where task: "next_task env ag = PDict task" ..
  obtain e r where ex: "execute_task (pe_task env) task (ag_engine ag) = (e, r)" by fastforce
  show ?thesis
  proof (cases r)
    case (Inl x)
    have "loop_once env ag = (ag\<lparr>ag_tasks := ag_tasks ag + 1, ag_engine := fst (execute_task (pe_task env) task (ag_engine ag))\<rparr>, Inl x)"
      by (simp add: loop_once_def task ex Inl Let_def)
    then show ?thesis by (rule raised [OF task])
  next
    case (Inr result)
    show ?thesis
    proof (cases "evaluate_task_performance task (PDict result)")
      case (Inl x)
      show ?thesis by (rule untyped [OF task]) (simp add: loop_once_def task ex Inr Inl Let_def)
    next
      case (Inr y)
      show ?thesis by (rule ran [OF task]) (simp add: loop_once_def task ex \<open>r = Inr result\<close> Inr Let_def)
    qed
  qed
next
  case False
  show ?thesis
  proof (cases "next_task env ag = PNone")
    case True
    show ?thesis by (rule idle) (simp add: loop_once_def True)
  next
    case not_none: False
    show ?thesis by (rule no_dict) (use False not_none in \<open>simp add: loop_once_def split: pyval.split\<close>)
  qed
qed

lemma loop_once_bounded: "bounded_by {pe_task env} (ag_engine ag) (ag_engine (fst (loop_once env ag)))"
  by (cases rule: loop_once_cases [of env ag])
     (auto simp: bounded_by_quiet execute_task_bounded intro: bounded_by_quiet_after [OF execute_task_bounded])

lemma report_loop_error_frame:
  "standing (ag_engine (fst (report_loop_error env x ag))) = standing (ag_engine ag)"
  "trace_of (ag_engine (fst (report_loop_error env x ag))) = trace_of (ag_engine ag)"
  using in_world_keeps_standing mute_in_world
  by (auto simp: report_loop_error_def keeps_standing_def mute_def split: prod.splits) (metis fst_conv)+

lemma guarded_once_bounded: "bounded_by {pe_task env} (ag_engine ag) (ag_engine (fst (guarded_once env ag)))"
proof -
  obtain ag' r where once: "loop_once env ag = (ag', r)" by fastforce
  with loop_once_bounded [of env ag] have "bounded_by {pe_task env} (ag_engine ag) (ag_engine ag')" by simp
  then show ?thesis
    by (cases r) (auto simp: guarded_once_def once report_loop_error_frame intro: bounded_by_quiet_after)
qed

lemma loop_body_bounded: "bounded_by {pe_task env} (ag_engine ag) (ag_engine (fst (loop_body env ag)))"
  using guarded_once_bounded [of env ag]
  by (auto simp: loop_body_def bounded_by_quiet split: prod.splits sum.splits)

lemma interlude_frame [simp]:
  "standing (ag_engine (interlude env ag)) = standing (ag_engine ag)"
  "trace_of (ag_engine (interlude env ag)) = trace_of (ag_engine ag)"
  "ag_loops (interlude env ag) = ag_loops ag" "ag_tasks (interlude env ag) = ag_tasks ag"
  "ag_successes (interlude env ag) = ag_successes ag" "ag_failures (interlude env ag) = ag_failures ag"
  "ag_max_iterations (interlude env ag) = ag_max_iterations ag" "ag_max_seconds (interlude env ag) = ag_max_seconds ag"
  "ag_started_at (interlude env ag) = ag_started_at ag"
  by (simp_all add: interlude_def standing_def)

lemma run_loop_bounded: "bounded_by (pe_task ` set envs) (ag_engine ag) (ag_engine (fst (run_loop envs ag)))"
proof (induction envs arbitrary: ag)
  case (Cons env envs)
  obtain ag' r where body: "loop_body env (interlude env ag) = (ag', r)" by fastforce
  have first: "bounded_by {pe_task env} (ag_engine ag) (ag_engine ag')"
    using loop_body_bounded [of env "interlude env ag"] body by (simp add: bounded_by_def)
  show ?case
  proof (cases r)
    case None
    with bounded_by_trans [OF first Cons.IH [of ag']] body show ?thesis by simp
  next
    case (Some s)
    with bounded_by_trans [OF first bounded_by_quiet [OF refl refl, of "pe_task ` set envs"]] body show ?thesis by simp
  qed
qed (simp add: bounded_by_quiet)


definition look_pass :: pass_env where
  "look_pass = \<lparr>pe_interlude = [], pe_stop = False, pe_clock = 0, pe_pull = Pulled (PDict look_task), pe_now = [],
     pe_task = look_env, pe_text = (\<lambda>_. ''error''), pe_mem = calm_env, pe_dream = calm_env\<rparr>"


subsection \<open>Bounds of a run\<close>

text \<open>The bounds are fixed for the run, and the counters of a pass move together.\<close>

lemma guarded_once_counts:
  "ag_max_iterations (fst (guarded_once env ag)) = ag_max_iterations ag \<and> ag_max_seconds (fst (guarded_once env ag)) = ag_max_seconds ag \<and>
   ag_started_at (fst (guarded_once env ag)) = ag_started_at ag \<and> ag_loops (fst (guarded_once env ag)) = ag_loops ag \<and>
   ag_tasks (fst (guarded_once env ag)) \<le> ag_tasks ag + 1 \<and>
   (ag_successes ag + ag_failures ag \<le> ag_tasks ag \<longrightarrow>
    ag_successes (fst (guarded_once env ag)) + ag_failures (fst (guarded_once env ag)) \<le> ag_tasks (fst (guarded_once env ag)))"
proof -
  have report: "f (fst (report_loop_error env x ag')) = f ag'"
    if "\<And>e. f (ag'\<lparr>ag_engine := e\<rparr>) = f ag'" for f :: "agent \<Rightarrow> 'b" and x ag'
    using that by (simp add: report_loop_error_def split: prod.split)
  show ?thesis
    by (cases rule: loop_once_cases [of env ag])
       (simp_all add: guarded_once_def report [of ag_max_iterations] report [of ag_max_seconds] report [of ag_started_at]
          report [of ag_loops] report [of ag_tasks] report [of ag_successes] report [of ag_failures])
qed

definition counts_ok :: "agent \<Rightarrow> bool" where
  "counts_ok ag \<longleftrightarrow> ag_tasks ag \<le> ag_loops ag \<and> ag_successes ag + ag_failures ag \<le> ag_tasks ag \<and>
     (case ag_max_iterations ag of None \<Rightarrow> True | Some n \<Rightarrow> ag_loops ag \<le> nat n)"

lemma loop_body_counts:
  assumes "counts_ok ag"
  shows "case loop_body env ag of
      (ag', Some (Crashed x)) \<Rightarrow> ag_loops ag' = ag_loops ag \<and> ag_tasks ag' \<le> ag_loops ag' + 1 \<and>
        ag_successes ag' + ag_failures ag' \<le> ag_tasks ag' \<and> \<not> passes_used ag
    | (ag', _) \<Rightarrow> counts_ok ag'"
proof -
  obtain ag' r where once: "guarded_once env ag = (ag', r)" by fastforce
  with guarded_once_counts [of env ag] assms show ?thesis
    by (auto simp: loop_body_def counts_ok_def passes_used_def split: option.splits sum.splits)
qed

lemma loop_body_bounds:
  "ag_max_iterations (fst (loop_body env ag)) = ag_max_iterations ag \<and> ag_max_seconds (fst (loop_body env ag)) = ag_max_seconds ag \<and>
   ag_started_at (fst (loop_body env ag)) = ag_started_at ag"
  using guarded_once_counts [of env ag] by (auto simp: loop_body_def split: prod.splits sum.splits)

lemma run_loop_counts:
  assumes "counts_ok ag" and "run_loop envs ag = (ag', r)"
  shows "ag_tasks ag' \<le> ag_loops ag' + 1 \<and> ag_successes ag' + ag_failures ag' \<le> ag_tasks ag' \<and>
    ag_max_iterations ag' = ag_max_iterations ag \<and>
    (case ag_max_iterations ag of None \<Rightarrow> True | Some n \<Rightarrow> ag_loops ag' \<le> nat n \<and> ag_tasks ag' \<le> nat n)"
  using assms
proof (induction envs arbitrary: ag)
  case (Cons env envs)
  obtain ag1 r1 where body: "loop_body env (interlude env ag) = (ag1, r1)" by fastforce
  have "counts_ok (interlude env ag)" using Cons.prems(1) by (simp add: counts_ok_def split: option.splits)
  note step = loop_body_counts [OF this, of env, unfolded body]
  have fixed: "ag_max_iterations ag1 = ag_max_iterations ag" using loop_body_bounds [of env "interlude env ag"] body by simp
  show ?case
  proof (cases r1)
    case None
    with step have "counts_ok ag1" by simp
    from Cons.IH [OF this] Cons.prems(2) body None fixed show ?thesis by simp
  next
    case (Some s)
    with step fixed Cons.prems(2) body show ?thesis
      by (cases s) (auto simp: counts_ok_def passes_used_def split: option.splits)
  qed
qed (auto simp: counts_ok_def split: option.splits)

text \<open>The daemon keeps its bound. With \<open>max_iterations\<close> at a value other than zero, however many passes the
  loop makes, it completes at most that many and runs at most that many tasks (none when the value is negative), and
  each task is counted at most once as a success or a failure, crashes included.\<close>

theorem passes_within_bound:
  assumes "n \<noteq> 0"
    and "run_loop envs (ag_start now (new_agent e has_source interval (Some n) max_seconds)) = (ag, r)"
  shows "ag_loops ag \<le> nat n \<and> ag_tasks ag \<le> nat n \<and> ag_successes ag + ag_failures ag \<le> ag_tasks ag"
proof -
  have "counts_ok (ag_start now (new_agent e has_source interval (Some n) max_seconds))"
    by (simp add: counts_ok_def ag_start_def new_agent_def)
  from run_loop_counts [OF this assms(2)] assms(1) show ?thesis by (simp add: ag_start_def new_agent_def)
qed

theorem passes_within_bound_witness:
  "\<exists>ag r. run_loop [look_pass, look_pass] (ag_start 0 (new_agent (look_engine None) True 1 (Some 1) None)) = (ag, r) \<and> ag_loops ag \<le> 1"
proof -
  obtain ag r where "run_loop [look_pass, look_pass] (ag_start 0 (new_agent (look_engine None) True 1 (Some 1) None)) = (ag, r)"
    by fastforce
  with passes_within_bound [of 1 "[look_pass, look_pass]" 0 "look_engine None" True 1 None ag r] show ?thesis by auto
qed

text \<open>The stop event and the time bound are each seen at the head of the next pass.\<close>

theorem stop_or_deadline_ends_run:
  assumes "env \<in> set envs" and "pe_stop env \<or> time_up env ag"
  shows "snd (run_loop envs ag) \<noteq> None"
  using assms
proof (induction envs arbitrary: ag)
  case (Cons v envs)
  obtain ag1 r1 where body: "loop_body v (interlude v ag) = (ag1, r1)" by fastforce
  have "ag_max_seconds ag1 = ag_max_seconds ag" "ag_started_at ag1 = ag_started_at ag"
    using loop_body_bounds [of v "interlude v ag"] body by simp_all
  then have same: "time_up w ag1 = time_up w ag" "time_up w (interlude v ag) = time_up w ag" for w
    by (simp_all add: time_up_def split: option.split)
  show ?case
  proof (cases r1)
    case None
    with body same(2) have "\<not> (pe_stop v \<or> time_up v ag)" by (auto simp: loop_body_def split: if_splits)
    with Cons.prems have "env \<in> set envs" by auto
    with Cons.IH [of ag1] Cons.prems(2) same body None show ?thesis by simp
  qed (simp add: body)
qed simp

subsection \<open>A halted daemon\<close>

abbreviation agent_gov :: "agent \<Rightarrow> governor" where
  "agent_gov ag \<equiv> w_gov (en_world (ag_engine ag))"

lemma engage_halted: "g_state g = HALTED \<Longrightarrow> fst (engage gov_halt gov_safe_state gov_pause sev r g) = g"
  by (cases sev) (simp_all add: gov_halt_def gov_safe_state_def gov_pause_def latch_def)

lemma fb_fire_halted: "g_state (w_gov w) = HALTED \<Longrightarrow> w_gov (fst (fb_fire k d w)) = w_gov w"
  by (simp add: fb_fire_fields engage_halted)

lemma fb_fire_all_halted: "g_state (w_gov w) = HALTED \<Longrightarrow> w_gov (fst (fb_fire_all ts w)) = w_gov w"
proof (induction ts arbitrary: w rule: fb_fire_all.induct)
  case (2 kind detail ts)
  from fb_fire_halted [OF 2(2), of kind detail] 2 show ?case
    by (auto simp: sx_bind_def split: prod.splits sum.splits)
qed (simp add: sx_return_def)

text \<open>What any other thread does to a halted world leaves it halted.\<close>

interpretation halted_world: invariant_machine fb_apply "\<lambda>w. gov_inv (w_gov w) \<and> g_state (w_gov w) = HALTED"
proof
  fix w :: fb_world and p
  assume h: "gov_inv (w_gov w) \<and> g_state (w_gov w) = HALTED"
  show "gov_inv (w_gov (fb_apply p w)) \<and> g_state (w_gov (fb_apply p w)) = HALTED"
  proof (cases p)
    case (FReport kind detail)
    with h show ?thesis by (auto simp: report_violation_def Let_def fb_fire_halted split: option.splits)
  qed (use h halted_apply [of "w_gov w"] in \<open>auto simp: fb_evaluate_def fb_fire_all_halted fb_resume_def gov_resume_def\<close>)
qed

lemma interlude_halted:
  "gov_inv (agent_gov ag) \<and> g_state (agent_gov ag) = HALTED \<Longrightarrow>
   gov_inv (agent_gov (interlude env ag)) \<and> g_state (agent_gov (interlude env ag)) = HALTED"
  using halted_world.inv_run [of "en_world (ag_engine ag)" "pe_interlude env"] by (simp add: interlude_def)

text \<open>C7: A halted daemon is inert, for ever. Once the governor is HALTED, no run of the loop, whatever other threads do
  in between (resume attempts included), pulls a task, has an effect, counts a pass or crashes.\<close>

theorem halted_daemon_is_inert:
  assumes "gov_inv (agent_gov ag)" and "g_state (agent_gov ag) = HALTED"
  shows "el_trace (en_exec (ag_engine (fst (run_loop envs ag)))) = el_trace (en_exec (ag_engine ag)) \<and>
    ag_tasks (fst (run_loop envs ag)) = ag_tasks ag \<and> ag_loops (fst (run_loop envs ag)) = ag_loops ag \<and>
    g_state (agent_gov (fst (run_loop envs ag))) = HALTED \<and> snd (run_loop envs ag) \<noteq> Some (Crashed x)"
  using assms
proof (induction envs arbitrary: ag)
  case (Cons env envs)
  obtain ag1 r1 where body: "loop_body env (interlude env ag) = (ag1, r1)" by fastforce
  from interlude_halted Cons.prems have h: "gov_inv (agent_gov (interlude env ag))" "g_state (agent_gov (interlude env ag)) = HALTED"
    by blast+
  with body have "ag1 = interlude env ag" "r1 \<noteq> Some (Crashed x)" by (auto simp: loop_body_def split: if_splits)
  with Cons.IH [of ag1] h body show ?case by (auto split: option.split)
qed simp

theorem halted_daemon_is_inert_witness:
  "ag_tasks (fst (run_loop [look_pass, look_pass] (new_agent (look_engine (Some HALTED)) True 1 None None))) = 0"
proof -
  have "gov_inv (agent_gov (new_agent (look_engine (Some HALTED)) True 1 None None))"
    "g_state (agent_gov (new_agent (look_engine (Some HALTED)) True 1 None None)) = HALTED"
    by (simp_all add: new_agent_def look_defs gov_inv_def latch_modes_def)
  from halted_daemon_is_inert [OF this, of "[look_pass, look_pass]"] show ?thesis by (simp add: new_agent_def)
qed

text \<open>Passes over a paused or halted governor are not counted, so the iteration bound does not end them: a
  halted daemon without a time bound spins until it is stopped, whatever \<open>max_iterations\<close> is.\<close>

theorem halted_daemon_never_ends:
  assumes "gov_inv (agent_gov ag)" and "g_state (agent_gov ag) = HALTED"
    and "ag_max_seconds ag = None" and "\<not> passes_used ag" and "list_all (\<lambda>env. \<not> pe_stop env) envs"
  shows "snd (run_loop envs ag) = None"
  using assms
proof (induction envs arbitrary: ag)
  case (Cons env envs)
  from interlude_halted Cons.prems have h: "gov_inv (agent_gov (interlude env ag))" "g_state (agent_gov (interlude env ag)) = HALTED"
    by blast+
  have "\<not> time_up env (interlude env ag)" "\<not> passes_used (interlude env ag)"
    using Cons.prems(3,4) by (simp_all add: time_up_def passes_used_def split: option.splits)
  with h Cons.prems(5) have "loop_body env (interlude env ag) = (interlude env ag, None)" by (simp add: loop_body_def)
  moreover have "snd (run_loop envs (interlude env ag)) = None"
    using Cons.IH [OF h] Cons.prems(3,5) \<open>\<not> passes_used (interlude env ag)\<close> by simp
  ultimately show ?case by simp
qed simp

subsection \<open>Unexpected exceptions\<close>

lemma execute_task_resting:
  "resting (w_gov (en_world e)) \<Longrightarrow> resting (w_gov (en_world (fst (execute_task env task e))))"
  using task_body_resting [of e env task] by (auto simp: execute_task_def handle_exn_resting split: prod.splits sum.splits)

lemma loop_once_resting: "resting (agent_gov ag) \<Longrightarrow> resting (agent_gov (fst (loop_once env ag)))"
  by (cases rule: loop_once_cases [of env ag]) (auto intro: execute_task_resting)

text \<open>C40: The loop survives what it does not expect and stands still afterwards. When a pass raises, with the
  default severity for the loop's own trigger, the daemon does not crash: it comes out of the pass paused (or halted if it was), counts the
  pass, and no later pass pulls a task before an operator resumes it.\<close>

theorem loop_error_pauses_daemon:
  assumes "resting (agent_gov ag)" and "loop_once env ag = (ag1, Inl x)"
    and "severity_of (w_fb (en_world (ag_engine ag1))) ''continuous_loop_error'' = SevPause"
  shows "\<exists>ag2. guarded_once env ag = (ag2, Inr ()) \<and> g_state (agent_gov ag2) \<in> {PAUSED, HALTED} \<and>
    ag_tasks (fst (loop_body later ag2)) = ag_tasks ag2 \<and>
    el_trace (en_exec (ag_engine (fst (loop_body later ag2)))) = el_trace (en_exec (ag_engine ag2))"
proof -
  let ?d = "take 200 (pe_text env x)"
  let ?k = "''continuous_loop_error''"
  let ?w = "(en_world (ag_engine ag1))\<lparr>w_fb := count_violation ?k ?d (w_fb (en_world (ag_engine ag1)))\<rparr>"
  from loop_once_resting [OF assms(1), of env] assms(2) have rest: "resting (w_gov ?w)" by simp
  have sev: "severity_of (w_fb ?w) ?k = SevPause"
    using assms(3) by (auto simp: count_violation_def severity_of_def severity_name_def split: if_splits)
  have rv: "report_violation ?k ?d (en_world (ag_engine ag1)) = fb_fire ?k ?d ?w"
    by (simp add: report_violation_def Let_def threshold_for_def)
  obtain w r where fire: "fb_fire ?k ?d ?w = (w, r)" by fastforce
  with sev fb_fire_raises_iff [of ?k ?d ?w] have r: "r = Inr ()" by (cases r) auto
  have "g_state (w_gov w) \<in> {PAUSED, HALTED}"
    using fb_fire_fields [of ?k ?d ?w] fire sev rest
    by (auto simp: gov_pause_def latch_def resting_def)
  then have st: "g_state (agent_gov ag2) \<in> {PAUSED, HALTED}" "guarded_once env ag = (ag2, Inr ())"
    if "ag2 = ag1\<lparr>ag_engine := flush_log (pe_task env) ((ag_engine ag1)\<lparr>en_world := w\<rparr>)\<rparr>" for ag2
    using that by (auto simp: guarded_once_def assms(2) report_loop_error_def in_world_def rv fire r)
  then show ?thesis
    by (intro exI conjI) (auto simp: loop_body_def)
qed

text \<open>A task that names no type runs, is tallied, and then raises in the evaluation of its performance: one such
  task pauses the daemon, and its memory is not consolidated in that pass.\<close>

lemma untyped_task_raises:
  assumes "next_task env ag = PDict task" and "map_of task ''type'' = None"
  shows "\<exists>ag1 x. loop_once env ag = (ag1, Inl x)"
  using assms by (auto simp: loop_once_def evaluate_task_performance_def Let_def split: prod.split sum.split)

definition junk_pass :: pass_env where
  "junk_pass = look_pass\<lparr>pe_pull := Pulled (PStr ''hello'')\<rparr>"

theorem loop_error_pauses_daemon_witness:
  "\<exists>ag2. guarded_once junk_pass (new_agent (look_engine None) True 1 None None) = (ag2, Inr ()) \<and>
     ag_tasks (fst (loop_body look_pass ag2)) = ag_tasks ag2"
proof -
  let ?ag = "new_agent (look_engine None) True 1 None None"
  have "resting (agent_gov ?ag)"
    by (simp add: new_agent_def look_defs resting_def latch_ok_def)
  moreover have "loop_once junk_pass ?ag = (?ag\<lparr>ag_tasks := 1\<rparr>, Inl (XExn ''AttributeError''))"
    by (simp add: loop_once_def next_task_def junk_pass_def new_agent_def look_pass_def)
  moreover have "severity_of (w_fb (en_world (ag_engine (?ag\<lparr>ag_tasks := 1\<rparr>)))) ''continuous_loop_error'' = SevPause"
    by (simp add: new_agent_def look_defs severity_of_def severity_name_def py_lower_def lower_char_def char_code_def
        default_severities_def)
  ultimately show ?thesis
    using loop_error_pauses_daemon [of ?ag junk_pass "?ag\<lparr>ag_tasks := 1\<rparr>" "XExn ''AttributeError''" look_pass] by blast
qed

subsection \<open>The dream stage\<close>

lemma consolidate_impl_tier1: "mm_tier1 (fst (consolidate_impl env es m)) = mm_tier1 m"
proof -
  have store: "mm_tier1 (fst (store_groups env gs s p m)) = mm_tier1 m" for gs s p m
    by (induction env gs s p m rule: store_groups.induct) (auto simp: Let_def split: sum.splits prod.splits)
  have decay: "mm_tier1 (fst (decay_and_prune env m)) = mm_tier1 m" for m
    by (simp add: decay_and_prune_def Let_def split: prod.splits)
  show ?thesis
    by (auto simp: consolidate_impl_def sx_return_def split: sum.splits intro!: sx_bind_frame [where fld = mm_tier1] decay store)
qed

lemma consolidate_now_empties: "em_events (mm_tier1 (fst (consolidate_now env m))) = []"
proof -
  obtain t1 events where d: "em_drain (mm_tier1 m) = (t1, events)" by fastforce
  then have t1: "em_events t1 = []" by (auto simp: em_drain_def Let_def)
  obtain m' r where i: "consolidate_impl env events (m\<lparr>mm_tier1 := t1\<rparr>) = (m', r)" by fastforce
  with consolidate_impl_tier1 [of env events "m\<lparr>mm_tier1 := t1\<rparr>"] t1 have "em_events (mm_tier1 m') = []" by simp
  then show ?thesis
    by (cases r) (auto simp: consolidate_now_def d i em_mark_consolidated_def em_compact_def Let_def split: option.split)
qed

text \<open>The daemon never dreams. A pass consolidates, which drains the episodic buffer whether or not it then fails,
  and ticks the dream right afterwards, which reads that buffer: unless another thread records an event between the
  two calls, in every pass and with every cadence the tick
  returns nothing or a dream over no events, and the core identity is as before, although the loop's comment
  calls this the only path that mutates it.\<close>

theorem daemon_never_dreams:
  "\<exists>r. snd (maintain env1 env2 m) = Inr r \<and> (case r of None \<Rightarrow> True | Some d \<Rightarrow> \<not> dr_dreamed d \<and> dr_added d = []) \<and>
     mm_tier3 (fst (maintain env1 env2 m)) = mm_tier3 m"
proof -
  let ?m = "fst (consolidate_now env1 m)"
  have "em_recent (Some 50) (mm_tier1 ?m) = []" "mm_tier3 ?m = mm_tier3 m"
    using consolidate_now_empties [of env1 m] consolidate_now_tier3 [of env1 m] by (simp_all add: em_recent_def)
  then show ?thesis by (simp add: maintain_def tick_dream_def dream_def sx_bind_def sx_return_def Let_def)
qed

end
