(* ===== verification/Mobile_Registry.thy ===== *)
theory Mobile_Registry
  imports Policy Governor
begin

text \<open>
  Pairing of mobile nodes, the first half of \<open>src/mobile_nodes.py\<close>: bounding of manifests and of their capability
  block, topics, and \<open>MobileNodeRegistry\<close>. The wall clock and the monotonic clock are arguments; \<open>fl\<close> gives the value of a
  float's text and is undefined for NaN and infinities; what goes to the audit chain is a list of events.
\<close>

subsection \<open>Manifests\<close>

datatype mob_exn = OverflowErr | MobExn py_exn

definition KNOWN_WORKLOADS :: "string list" where
  "KNOWN_WORKLOADS = [''nrr_render'', ''vision'']"

definition COMPUTE_CAPS_KEY :: string where
  "COMPUTE_CAPS_KEY = ''compute_caps''"

text \<open>\<open>float(i)\<close> raises for integers that round beyond the largest double.\<close>

definition float_overflows :: "int \<Rightarrow> bool" where
  "float_overflows i \<longleftrightarrow> \<bar>i\<bar> \<ge> 2 ^ 1024 - 2 ^ 970"

definition within_1e15 :: "(string \<Rightarrow> real option) \<Rightarrow> string \<Rightarrow> bool" where
  "within_1e15 fl r = (case fl r of None \<Rightarrow> False | Some x \<Rightarrow> - (10 ^ 15) < x \<and> x < 10 ^ 15)"

definition bound_int :: "int \<Rightarrow> mob_exn + pyval" where
  "bound_int i =
     (if float_overflows i then Inl OverflowErr
      else if - (10 ^ 15) < i \<and> i < 10 ^ 15 then Inr (PInt i) else Inr (PFloat ''0.0''))"

definition bound_float :: "(string \<Rightarrow> real option) \<Rightarrow> string \<Rightarrow> pyval" where
  "bound_float fl r = (if within_1e15 fl r then PFloat r else PFloat ''0.0'')"

definition clean_texts :: "int \<Rightarrow> nat \<Rightarrow> pyval list \<Rightarrow> pyval" where
  "clean_texts len n xs = PList (map (\<lambda>v. PStr (sanitize_text (py_str v) len)) (take n xs))"

fun caps_value :: "(string \<Rightarrow> real option) \<Rightarrow> pyval \<Rightarrow> mob_exn + pyval" where
  "caps_value fl (PBool b) = Inr (PBool b)"
| "caps_value fl (PInt i) = bound_int i"
| "caps_value fl (PFloat r) = Inr (bound_float fl r)"
| "caps_value fl (PList xs) = Inr (clean_texts 64 8 xs)"
| "caps_value fl (PTuple xs) = Inr (clean_texts 64 8 xs)"
| "caps_value fl v = Inr (PStr (sanitize_text (py_str v) 256))"

fun sub_value :: "(string \<Rightarrow> real option) \<Rightarrow> pyval \<Rightarrow> mob_exn + pyval" where
  "sub_value fl (PBool b) = Inr (PBool b)"
| "sub_value fl (PInt i) = bound_int i"
| "sub_value fl (PFloat r) = Inr (bound_float fl r)"
| "sub_value fl v = Inr (PStr (sanitize_text (py_str v) 256))"

text \<open>The loops over the items of a dictionary: names that sanitise to nothing are skipped, a name that occurs
  again overwrites.\<close>

fun clean_items :: "(string \<Rightarrow> pyval \<Rightarrow> mob_exn + pyval) \<Rightarrow> pydict \<Rightarrow> pydict \<Rightarrow> mob_exn + pydict" where
  "clean_items f [] acc = Inr acc"
| "clean_items f ((k, v) # kvs) acc =
     (let name = sanitize_text k 48 in
      if name = [] then clean_items f kvs acc
      else case f name v of Inl x \<Rightarrow> Inl x | Inr w \<Rightarrow> clean_items f kvs (dset name w acc))"

definition sanitize_caps_block :: "(string \<Rightarrow> real option) \<Rightarrow> pydict \<Rightarrow> mob_exn + pydict" where
  "sanitize_caps_block fl caps = clean_items (\<lambda>_. caps_value fl) (take 16 caps) []"

fun manifest_value :: "(string \<Rightarrow> real option) \<Rightarrow> string \<Rightarrow> pyval \<Rightarrow> mob_exn + pyval" where
  "manifest_value fl name (PDict d) =
     map_sum id PDict (if name = COMPUTE_CAPS_KEY then sanitize_caps_block fl d
                       else clean_items (\<lambda>_. sub_value fl) (take 16 d) [])"
| "manifest_value fl name (PBool b) = Inr (PBool b)"
| "manifest_value fl name (PInt i) = bound_int i"
| "manifest_value fl name (PFloat r) = Inr (bound_float fl r)"
| "manifest_value fl name (PList xs) = Inr (clean_texts 256 16 xs)"
| "manifest_value fl name (PTuple xs) = Inr (clean_texts 256 16 xs)"
| "manifest_value fl name v = Inr (PStr (sanitize_text (py_str v) 256))"

definition sanitize_manifest :: "(string \<Rightarrow> real option) \<Rightarrow> pydict \<Rightarrow> mob_exn + pydict" where
  "sanitize_manifest fl manifest = clean_items (manifest_value fl) (take 32 manifest) []"

text \<open>A boolean is an integer for \<open>isinstance\<close>.\<close>

fun caps_vram :: "(string \<Rightarrow> real option) \<Rightarrow> pyval \<Rightarrow> pydict" where
  "caps_vram fl (PBool b) = (if b then [(''vram_mb'', PInt 1)] else [])"
| "caps_vram fl (PInt i) = (if 0 < i \<and> i < 10 ^ 6 then [(''vram_mb'', PInt i)] else [])"
| "caps_vram fl (PFloat r) =
     (case fl r of None \<Rightarrow> [] | Some x \<Rightarrow> if 0 < x \<and> x < 10 ^ 6 then [(''vram_mb'', PInt \<lfloor>x\<rfloor>)] else [])"
| "caps_vram fl v = []"

definition known_workloads :: "pyval list \<Rightarrow> pydict" where
  "known_workloads ws =
     (let clean = filter (\<lambda>w. w \<in> set KNOWN_WORKLOADS) (map (\<lambda>w. sanitize_text (py_str w) 32) (take 8 ws))
      in if clean = [] then [] else [(''workloads'', PList (map PStr clean))])"

fun caps_workloads :: "pyval \<Rightarrow> pydict" where
  "caps_workloads (PList ws) = known_workloads ws"
| "caps_workloads (PTuple ws) = known_workloads ws"
| "caps_workloads v = []"

fun caps_flag :: "string \<Rightarrow> pyval \<Rightarrow> pydict" where
  "caps_flag k (PBool b) = [(k, PBool b)]"
| "caps_flag k v = []"

definition sanitize_compute_caps :: "(string \<Rightarrow> real option) \<Rightarrow> pydict \<Rightarrow> pydict" where
  "sanitize_compute_caps fl manifest =
     (case dget manifest COMPUTE_CAPS_KEY of
        PDict caps \<Rightarrow>
          caps_flag ''fp16'' (dget caps ''fp16'') @ caps_flag ''int8'' (dget caps ''int8'') @
          caps_vram fl (dget caps ''vram_mb'') @ caps_workloads (dget caps ''workloads'')
      | _ \<Rightarrow> [])"

definition node_supports_workload :: "pydict \<Rightarrow> string \<Rightarrow> bool" where
  "node_supports_workload manifest workload =
     (case dget manifest COMPUTE_CAPS_KEY of
        PDict caps \<Rightarrow> (case dget caps ''workloads'' of
            PList ws \<Rightarrow> PStr (sanitize_text workload 32) \<in> set ws
          | _ \<Rightarrow> False)
      | _ \<Rightarrow> False)"

subsection \<open>Topics\<close>

fun split_char :: "char \<Rightarrow> string \<Rightarrow> string list" where
  "split_char c [] = [[]]"
| "split_char c (x # xs) =
     (if x = c then [] # split_char c xs
      else case split_char c xs of [] \<Rightarrow> [[x]] | p # ps \<Rightarrow> (x # p) # ps)"

definition parse_mobile_topic :: "string \<Rightarrow> (string \<times> string) option" where
  "parse_mobile_topic topic =
     (case split_char (CHR ''/'') (strip_slashes topic) of
        [a, b, device, tail] \<Rightarrow> if a = ''shugocore'' \<and> b = ''mobile'' then Some (device, tail) else None
      | _ \<Rightarrow> None)"

definition mobile_topic :: "string \<Rightarrow> string \<Rightarrow> string" where
  "mobile_topic device tail = ''/shugocore/mobile/'' @ device @ ''/'' @ tail"

subsection \<open>The registry\<close>

record pairing =
  pr_device_id :: string
  pr_manifest :: pydict
  pr_paired_by :: string
  pr_paired_at :: real
  pr_expires_at :: real

record registry =
  rg_ttl_hours :: real
  rg_heartbeat_timeout :: real
  rg_paired :: "(string \<times> pairing) list"
  rg_heartbeats :: "(string \<times> real) list"
  rg_log :: "audit_event list"

definition new_registry :: "real \<Rightarrow> real \<Rightarrow> registry" where
  "new_registry ttl timeout =
     \<lparr>rg_ttl_hours = max (1/100) ttl, rg_heartbeat_timeout = max 1 timeout, rg_paired = [], rg_heartbeats = [], rg_log = []\<rparr>"

definition pair_manifest :: "(string \<Rightarrow> real option) \<Rightarrow> pyval \<Rightarrow> mob_exn + pydict" where
  "pair_manifest fl manifest =
     (case sanitize_manifest fl (if is_dict manifest then as_dict manifest else []) of
        Inl x \<Rightarrow> Inl x
      | Inr safe \<Rightarrow> Inr (dset COMPUTE_CAPS_KEY (PDict (sanitize_compute_caps fl safe)) safe))"

text \<open>\<open>t1\<close> and \<open>t2\<close> are the two readings of the wall clock.\<close>

definition pair_node :: "(string \<Rightarrow> real option) \<Rightarrow> real \<Rightarrow> real \<Rightarrow> real \<Rightarrow> string \<Rightarrow> pyval \<Rightarrow> string \<Rightarrow>
    (registry, mob_exn, pairing) sx" where
  "pair_node fl t1 t2 tick device_id manifest paired_by r =
     (let device = sanitize_text device_id 48 in
      if device = [] then (r, Inl (MobExn ValueErr))
      else case pair_manifest fl manifest of
             Inl x \<Rightarrow> (r, Inl x)
           | Inr m \<Rightarrow>
               (let entry = \<lparr>pr_device_id = device, pr_manifest = m, pr_paired_by = sanitize_text paired_by 120,
                             pr_paired_at = t1, pr_expires_at = t2 + rg_ttl_hours r * 3600\<rparr>
                in (r\<lparr>rg_paired := AList.update device entry (rg_paired r),
                      rg_heartbeats := AList.update device tick (rg_heartbeats r),
                      rg_log := rg_log r @ [(''mobile_node_paired'',
                        [(''device_id'', PStr device), (''paired_by'', PStr (pr_paired_by entry))])]\<rparr>, Inr entry)))"

definition unpair_node :: "string \<Rightarrow> registry \<Rightarrow> registry \<times> bool" where
  "unpair_node device_id r =
     (let removed = map_of (rg_paired r) device_id;
          r1 = r\<lparr>rg_paired := AList.delete device_id (rg_paired r), rg_heartbeats := AList.delete device_id (rg_heartbeats r)\<rparr>
      in if removed \<noteq> None
         then (r1\<lparr>rg_log := rg_log r1 @ [(''mobile_node_unpaired'', [(''device_id'', PStr (sanitize_text device_id 48))])]\<rparr>, True)
         else (r1, False))"

definition is_paired :: "real \<Rightarrow> string \<Rightarrow> registry \<Rightarrow> bool" where
  "is_paired now device_id r = (case map_of (rg_paired r) device_id of None \<Rightarrow> False | Some e \<Rightarrow> pr_expires_at e > now)"

definition node_heartbeat :: "real \<Rightarrow> string \<Rightarrow> registry \<Rightarrow> registry \<times> bool" where
  "node_heartbeat tick device r =
     (if map_of (rg_paired r) device = None then (r, False)
      else (r\<lparr>rg_heartbeats := AList.update device tick (rg_heartbeats r)\<rparr>, True))"

definition node_alive :: "real \<Rightarrow> string \<Rightarrow> registry \<Rightarrow> bool" where
  "node_alive tick device r =
     (case map_of (rg_heartbeats r) device of None \<Rightarrow> False | Some t \<Rightarrow> tick - t \<le> rg_heartbeat_timeout r)"

definition expired_nodes :: "real \<Rightarrow> registry \<Rightarrow> string list" where
  "expired_nodes now r = map fst (filter (\<lambda>(_, e). pr_expires_at e \<le> now) (rg_paired r))"

record node_info =
  ni_device_id :: string
  ni_manifest :: pydict
  ni_paired_by :: string
  ni_expires_at :: real
  ni_alive :: bool

definition node_info_of :: "real \<Rightarrow> registry \<Rightarrow> string \<times> pairing \<Rightarrow> node_info" where
  "node_info_of tick r = (\<lambda>(d, e).
     \<lparr>ni_device_id = d, ni_manifest = pr_manifest e, ni_paired_by = pr_paired_by e, ni_expires_at = pr_expires_at e,
      ni_alive = (tick - (case map_of (rg_heartbeats r) d of None \<Rightarrow> 0 | Some t \<Rightarrow> t) \<le> rg_heartbeat_timeout r)\<rparr>)"

definition list_mobile_nodes :: "real \<Rightarrow> real \<Rightarrow> registry \<Rightarrow> node_info list" where
  "list_mobile_nodes now tick r =
     map (node_info_of tick r) (filter (\<lambda>(_, e). pr_expires_at e > now) (sort_key fst (rg_paired r)))"

definition node_manifest :: "string \<Rightarrow> registry \<Rightarrow> pydict" where
  "node_manifest device_id r = (case map_of (rg_paired r) device_id of None \<Rightarrow> [] | Some e \<Rightarrow> pr_manifest e)"

definition nodes_for_workload :: "real \<Rightarrow> real \<Rightarrow> string \<Rightarrow> registry \<Rightarrow> node_info list" where
  "nodes_for_workload now tick workload r =
     (let name = sanitize_text workload 32 in
      if name \<notin> set KNOWN_WORKLOADS then []
      else map (node_info_of tick r)
             (filter (\<lambda>(_, e). pr_expires_at e > now \<and> node_supports_workload (pr_manifest e) name) (sort_key fst (rg_paired r))))"

subsection \<open>Pairing as a register of expiry times\<close>

datatype reg_op =
    RPair real real real string pyval string
  | RUnpair string
  | RBeat real string

fun reg_apply :: "(string \<Rightarrow> real option) \<Rightarrow> reg_op \<Rightarrow> registry \<Rightarrow> registry" where
  "reg_apply fl (RPair t1 t2 tick d m who) r = fst (pair_node fl t1 t2 tick d m who r)"
| "reg_apply fl (RUnpair d) r = fst (unpair_node d r)"
| "reg_apply fl (RBeat tick d) r = fst (node_heartbeat tick d r)"

text \<open>The specification keeps one expiry time for each device: pairing sets it, unpairing removes it, and nothing else
  touches it. A pairing whose id sanitises to nothing, or whose manifest holds a number too large for a float, is void.\<close>

fun grant_op :: "(string \<Rightarrow> real option) \<Rightarrow> real \<Rightarrow> reg_op \<Rightarrow> (string \<rightharpoonup> real) \<Rightarrow> (string \<rightharpoonup> real)" where
  "grant_op fl ttl (RPair t1 t2 tick d m who) g =
     (if sanitize_text d 48 = [] \<or> (\<exists>x. pair_manifest fl m = Inl x) then g
      else g(sanitize_text d 48 \<mapsto> t2 + ttl * 3600))"
| "grant_op fl ttl (RUnpair d) g = g(d := None)"
| "grant_op fl ttl (RBeat tick d) g = g"

definition grants :: "registry \<Rightarrow> (string \<rightharpoonup> real)" where
  "grants r = map_option pr_expires_at \<circ> map_of (rg_paired r)"

lemma is_paired_grants: "is_paired now d r \<longleftrightarrow> (\<exists>t. grants r d = Some t \<and> now < t)"
  by (auto simp: is_paired_def grants_def split: option.splits)

interpretation reg: functional_refinement "reg_apply fl" "\<lambda>r. rg_ttl_hours r = ttl" "grant_op fl ttl" grants for fl ttl
proof
  fix r :: registry and p
  assume ttl: "rg_ttl_hours r = ttl"
  show "rg_ttl_hours (reg_apply fl p r) = ttl"
    using ttl by (cases p) (auto simp: pair_node_def unpair_node_def node_heartbeat_def Let_def split: sum.splits)
  show "grants (reg_apply fl p r) = grant_op fl ttl p (grants r)"
  proof (cases p)
    case (RPair t1 t2 tick d m who)
    then show ?thesis using ttl
      by (auto simp: grants_def pair_node_def Let_def update_conv' fun_eq_iff split: sum.splits)
  qed (auto simp: grants_def unpair_node_def node_heartbeat_def Let_def delete_conv' fun_eq_iff)
qed

text \<open>C21: A device is paired exactly while the operator's last word on it says so. After any history of pairings,
  unpairings and heartbeats, a device counts as paired at a time if and only if its last pairing was not
  followed by an unpairing and the time lies before that pairing's expiry; heartbeats prolong nothing.\<close>

theorem pairing_refines_grants:
  "is_paired now d (run_ops (reg_apply fl) ps (new_registry ttl timeout)) \<longleftrightarrow>
     (\<exists>t. run_ops (grant_op fl (max (1/100) ttl)) ps (\<lambda>_. None) d = Some t \<and> now < t)"
proof -
  have "rg_ttl_hours (new_registry ttl timeout) = max (1/100) ttl" "grants (new_registry ttl timeout) = (\<lambda>_. None)"
    by (auto simp: new_registry_def grants_def)
  with reg.run_refines [of "new_registry ttl timeout" "max (1/100) ttl" fl ps] show ?thesis
    by (simp add: is_paired_grants)
qed

subsection \<open>Topics round trip\<close>

lemma split_char_none: "c \<notin> set s \<Longrightarrow> split_char c s = [s]"
  by (induction s) auto

lemma split_char_ne: "split_char c s \<noteq> []"
  by (induction s) (auto split: list.split)

lemma split_char_append: "c \<notin> set s \<Longrightarrow> split_char c (s @ c # t) = s # split_char c t"
  by (induction s) (auto split: list.split)

text \<open>A topic of the mobile namespace parses back to its device and tail, if these are single components.\<close>

theorem mobile_topic_roundtrip:
  assumes "CHR ''/'' \<notin> set device" and "CHR ''/'' \<notin> set tail" and "tail \<noteq> []"
  shows "parse_mobile_topic (mobile_topic device tail) = Some (device, tail)"
proof -
  have "strip_slashes (mobile_topic device tail) = ''shugocore/mobile/'' @ device @ ''/'' @ tail"
  proof -
    have "dropWhile (\<lambda>c. c = CHR ''/'') (rev tail @ xs) = rev tail @ xs" for xs
      using assms(2,3) by (cases "rev tail") auto
    then show ?thesis by (simp add: strip_slashes_def strip_by_def mobile_topic_def)
  qed
  then have "split_char (CHR ''/'') (strip_slashes (mobile_topic device tail)) = [''shugocore'', ''mobile'', device, tail]"
    using assms split_char_append [of "CHR ''/''" "''shugocore''"] split_char_append [of "CHR ''/''" "''mobile''"]
      split_char_append [of "CHR ''/''" device] by (simp add: split_char_none)
  then show ?thesis by (simp add: parse_mobile_topic_def)
qed

subsection \<open>Bounded manifests\<close>

fun scalar_ok :: "pyval \<Rightarrow> bool" where
  "scalar_ok (PBool b) = True"
| "scalar_ok (PInt i) = (\<bar>i\<bar> < 10 ^ 15)"
| "scalar_ok (PFloat r) = True"
| "scalar_ok (PStr s) = (length s \<le> 256)"
| "scalar_ok (PList xs) = (length xs \<le> 16 \<and> list_all (\<lambda>v. \<exists>s. v = PStr s \<and> length s \<le> 256) xs)"
| "scalar_ok v = False"

definition table_ok :: "(pyval \<Rightarrow> bool) \<Rightarrow> nat \<Rightarrow> pydict \<Rightarrow> bool" where
  "table_ok ok n d \<longleftrightarrow> length d \<le> n \<and> list_all (\<lambda>(k, v). length k \<le> 48 \<and> ok v) d"

fun manifest_value_ok :: "pyval \<Rightarrow> bool" where
  "manifest_value_ok (PDict d) = table_ok scalar_ok 16 d"
| "manifest_value_ok v = scalar_ok v"

lemma bound_int_ok: "bound_int i = Inr v \<Longrightarrow> scalar_ok v"
  by (auto simp: bound_int_def split: if_splits)

lemma sanitized_len: "0 \<le> k \<Longrightarrow> length (sanitize_text s k) \<le> nat k"
  using sanitize_text_length [of s k] by simp

lemma clean_texts_ok: "0 \<le> len \<Longrightarrow> len \<le> 256 \<Longrightarrow> n \<le> 16 \<Longrightarrow> scalar_ok (clean_texts len n xs)"
  using sanitized_len [of len] by (force simp: clean_texts_def list_all_iff intro: order_trans)

lemma caps_value_ok: "caps_value fl v = Inr w \<Longrightarrow> scalar_ok w"
  using sanitized_len [of 256] by (cases v) (auto simp: bound_float_def clean_texts_ok dest: bound_int_ok)

lemma sub_value_ok: "sub_value fl v = Inr w \<Longrightarrow> scalar_ok w"
  using sanitized_len [of 256] by (cases v) (auto simp: bound_float_def dest: bound_int_ok)

lemma dset_table_ok:
  assumes "table_ok ok n d" and "length k \<le> 48" and "ok v"
  shows "table_ok ok (Suc n) (dset k v d)"
proof -
  have "length (AList.update k v d) \<le> Suc (length d)" by (induction d) auto
  moreover have "set (AList.update k v d) \<subseteq> insert (k, v) (set d)" by (induction d) auto
  ultimately show ?thesis using assms by (fastforce simp: table_ok_def dset_def list_all_iff)
qed

lemma clean_items_ok:
  assumes "clean_items f kvs acc = Inr out" and "\<And>name v w. f name v = Inr w \<Longrightarrow> ok w" and "table_ok ok n acc"
  shows "table_ok ok (n + length kvs) out"
  using assms(1,3)
proof (induction kvs arbitrary: acc n)
  case (Cons kv kvs)
  obtain k v where kv: "kv = (k, v)" by (cases kv)
  have len: "length (sanitize_text k 48) \<le> 48" using sanitized_len [of 48 k] by simp
  show ?case
  proof (cases "sanitize_text k 48 = []")
    case True
    with Cons.IH [of acc n] Cons.prems have "table_ok ok (n + length kvs) out" by (simp add: kv)
    then show ?thesis by (simp add: table_ok_def)
  next
    case False
    then obtain w where w: "f (sanitize_text k 48) v = Inr w"
      and rest: "clean_items f kvs (dset (sanitize_text k 48) w acc) = Inr out"
      using Cons.prems(1) by (auto simp: kv Let_def split: sum.splits)
    from dset_table_ok [OF Cons.prems(2) len assms(2) [OF w]] have "table_ok ok (Suc n) (dset (sanitize_text k 48) w acc)" .
    from Cons.IH [OF rest this] show ?thesis by simp
  qed
qed simp

lemma clean_items_take:
  assumes "clean_items f (take n kvs) [] = Inr out" and "\<And>name v w. f name v = Inr w \<Longrightarrow> ok w"
  shows "table_ok ok n out"
  using clean_items_ok [where n = 0 and ok = ok, OF assms] by (auto simp: table_ok_def)

lemma manifest_value_bounded: "manifest_value fl name v = Inr w \<Longrightarrow> manifest_value_ok w"
proof (cases v)
  case (PDict d)
  assume "manifest_value fl name v = Inr w"
  with PDict obtain out where w: "w = PDict out" and
    out: "(if name = COMPUTE_CAPS_KEY then sanitize_caps_block fl d else clean_items (\<lambda>_. sub_value fl) (take 16 d) []) = Inr out"
    by (cases "sanitize_caps_block fl d"; cases "clean_items (\<lambda>_. sub_value fl) (take 16 d) []") (auto split: if_splits)
  show ?thesis
    using out clean_items_take [of "\<lambda>_. caps_value fl" 16 d out scalar_ok] clean_items_take [of "\<lambda>_. sub_value fl" 16 d out scalar_ok]
    by (auto simp: w sanitize_caps_block_def dest: caps_value_ok sub_value_ok split: if_splits)
qed (use sanitized_len [of 256] in \<open>auto simp: bound_float_def bound_int_def clean_texts_def list_all_iff split: if_splits\<close>)

lemma table_ok_append: "table_ok ok a xs \<Longrightarrow> table_ok ok b ys \<Longrightarrow> table_ok ok (a + b) (xs @ ys)"
  by (simp add: table_ok_def)

lemma table_ok_mono: "table_ok ok a xs \<Longrightarrow> a \<le> b \<Longrightarrow> table_ok ok b xs"
  by (simp add: table_ok_def)

lemma pair_manifest_ok:
  assumes "pair_manifest fl manifest = Inr m"
  shows "table_ok manifest_value_ok 33 m" and "node_supports_workload m w \<Longrightarrow> sanitize_text w 32 \<in> set KNOWN_WORKLOADS"
proof -
  from assms obtain safe where safe: "sanitize_manifest fl (if is_dict manifest then as_dict manifest else []) = Inr safe"
    and m: "m = dset COMPUTE_CAPS_KEY (PDict (sanitize_compute_caps fl safe)) safe"
    by (auto simp: pair_manifest_def split: sum.splits)
  have t: "table_ok manifest_value_ok 32 safe"
    using clean_items_take [OF safe [unfolded sanitize_manifest_def]] manifest_value_bounded by blast
  have flag: "table_ok scalar_ok 1 (caps_flag k v)" if "length k \<le> 48" for k v
    using that by (cases v) (auto simp: table_ok_def)
  have vram: "table_ok scalar_ok 1 (caps_vram fl v)" for v
    by (cases v) (auto simp: table_ok_def floor_less_iff split: option.split)
  have known: "length w \<le> 256" if "w \<in> set KNOWN_WORKLOADS" for w
    using that by (auto simp: KNOWN_WORKLOADS_def)
  have "table_ok scalar_ok 1 (known_workloads ws)" for ws
  proof -
    have "length (filter P (map f (take 8 ws))) \<le> 16" for P and f :: "pyval \<Rightarrow> string"
      by (rule order_trans [OF length_filter_le]) simp
    then show ?thesis using known by (auto simp: table_ok_def known_workloads_def Let_def list_all_iff)
  qed
  then have work: "table_ok scalar_ok 1 (caps_workloads v)" for v
    by (cases v) (auto simp: table_ok_def)
  have "table_ok scalar_ok 16 (caps_flag ''fp16'' a @ caps_flag ''int8'' b @ caps_vram fl c @ caps_workloads d)" for a b c d
    using table_ok_append [OF flag [of "''fp16''" a] table_ok_append [OF flag [of "''int8''" b] table_ok_append [OF vram [of c] work [of d]]]]
    by (rule table_ok_mono) simp_all
  then have "manifest_value_ok (PDict (sanitize_compute_caps fl safe))"
    by (auto simp: sanitize_compute_caps_def table_ok_def [of _ _ "[]"] split: pyval.split)
  from dset_table_ok [OF t _ this, of COMPUTE_CAPS_KEY] show "table_ok manifest_value_ok 33 m"
    by (simp add: m COMPUTE_CAPS_KEY_def)
  have none: "map_of (caps_flag k v) ''workloads'' = None" if "k \<noteq> ''workloads''" for k v using that by (cases v) auto
  have none': "map_of (caps_vram fl v) ''workloads'' = None" for v by (cases v) (auto split: option.split)
  have some: "\<exists>clean. map_of (caps_workloads v) ''workloads'' = Some (PList (map PStr clean)) \<and> set clean \<subseteq> set KNOWN_WORKLOADS"
    if "map_of (caps_workloads v) ''workloads'' = Some x" for v x
    using that by (cases v) (auto simp: known_workloads_def Let_def split: if_splits)
  assume "node_supports_workload m w"
  then obtain ws where "map_of (sanitize_compute_caps fl safe) ''workloads'' = Some (PList ws)" "PStr (sanitize_text w 32) \<in> set ws"
    by (auto simp: node_supports_workload_def m dget_def map_of_dset split: pyval.splits option.splits)
  then obtain v where "map_of (caps_workloads v) ''workloads'' = Some (PList ws)"
    by (auto simp: sanitize_compute_caps_def none none' map_add_def split: pyval.splits)
  with some [of v "PList ws"] \<open>PStr (sanitize_text w 32) \<in> set ws\<close> show "sanitize_text w 32 \<in> set KNOWN_WORKLOADS" by auto
qed

definition manifests_ok :: "registry \<Rightarrow> bool" where
  "manifests_ok r \<longleftrightarrow> list_all (\<lambda>(d, e). table_ok manifest_value_ok 33 (pr_manifest e) \<and>
     (\<forall>w. node_supports_workload (pr_manifest e) w \<longrightarrow> sanitize_text w 32 \<in> set KNOWN_WORKLOADS)) (rg_paired r)"

interpretation regm: invariant_machine "reg_apply fl" manifests_ok for fl
proof
  fix r p
  assume ok: "manifests_ok r"
  show "manifests_ok (reg_apply fl p r)"
  proof (cases p)
    case (RPair t1 t2 tick d m who)
    have upd: "set (AList.update k v xs) \<subseteq> insert (k, v) (set xs)" for k v and xs :: "(string \<times> pairing) list"
      by (induction xs) auto
    show ?thesis
    proof (cases "sanitize_text d 48 = [] \<or> (\<exists>x. pair_manifest fl m = Inl x)")
      case True
      with ok RPair show ?thesis by (auto simp: pair_node_def Let_def)
    next
      case False
      then obtain safe where safe: "pair_manifest fl m = Inr safe" by (cases "pair_manifest fl m") auto
      from pair_manifest_ok [OF safe] ok False safe RPair show ?thesis
        by (auto simp: manifests_ok_def pair_node_def Let_def list_all_iff dest!: set_mp [OF upd])
    qed
  next
    case (RUnpair d)
    have "set (AList.delete d xs) \<subseteq> set xs" for xs :: "(string \<times> pairing) list" by (auto simp: AList.delete_eq)
    with ok RUnpair show ?thesis by (auto simp: manifests_ok_def unpair_node_def Let_def list_all_iff)
  next
    case (RBeat tick d)
    with ok show ?thesis by (simp add: manifests_ok_def node_heartbeat_def)
  qed
qed

text \<open>What a device says about itself stays small, and cannot invent workloads. In every history, whatever manifests were
  presented, a stored manifest has at most 33 entries with names of at most 48 characters, texts of at most
  256, lists of at most 16 texts, tables of at most 16 scalar entries and integers below \<open>10 ^ 15\<close>, and it advertises only workloads of the
  primary's own list.\<close>

theorem manifests_bounded:
  "list_all (\<lambda>(d, e). table_ok manifest_value_ok 33 (pr_manifest e) \<and>
     (node_supports_workload (pr_manifest e) w \<longrightarrow> sanitize_text w 32 \<in> set KNOWN_WORKLOADS))
     (rg_paired (run_ops (reg_apply fl) ps (new_registry ttl timeout)))"
proof -
  have "manifests_ok (new_registry ttl timeout)" by (simp add: manifests_ok_def new_registry_def)
  from regm.inv_run [OF this, of fl ps] show ?thesis by (auto simp: manifests_ok_def list_all_iff)
qed

text \<open>A node that is offered for a workload is paired, advertised it and has not expired.\<close>

theorem offered_node_is_entitled:
  assumes "n \<in> set (nodes_for_workload now tick w r)" and "distinct (map fst (rg_paired r))"
  shows "is_paired now (ni_device_id n) r \<and> node_supports_workload (node_manifest (ni_device_id n) r) (sanitize_text w 32)"
  using assms
  by (auto simp: nodes_for_workload_def Let_def node_info_of_def is_paired_def node_manifest_def split: if_splits)

definition silent_registry :: registry where
  "silent_registry = (new_registry 12 30)\<lparr>rg_paired := [(''d'',
     \<lparr>pr_device_id = ''d'', pr_manifest = [(COMPUTE_CAPS_KEY, PDict [(''workloads'', PList [PStr ''vision''])])],
      pr_paired_by = [], pr_paired_at = 0, pr_expires_at = 10\<rparr>)], rg_heartbeats := [(''d'', 0)]\<rparr>"

text \<open>It need not be alive: the list is documented to hold live nodes, and holds silent ones too.\<close>

theorem silent_node_offered:
  "map ni_alive (nodes_for_workload 0 1000 ''vision'' silent_registry) = [False]"
proof -
  have "sanitize_text ''vision'' 32 = ''vision''"
    by (rule sanitize_text_plain) (simp_all add: plain_char_def char_code_def)
  then show ?thesis
    by (simp add: nodes_for_workload_def KNOWN_WORKLOADS_def node_supports_workload_def dget_def node_info_of_def new_registry_def
        silent_registry_def)
qed

end
