(* ===== verification/KV_Mesh.thy ===== *)
theory KV_Mesh
  imports Json
begin

text \<open>
  The split of a model's KV cache over a mesh, \<open>src/kv_mesh\<close>: shards (\<open>shard.py\<close>), the allocator that places
  them by advertised memory (\<open>allocator.py\<close>), the messages (\<open>protocol.py\<close>) and the simulated nodes with the host-side
  simulator over them (\<open>simulator.py\<close>). A dictionary is an association list in insertion order. A shard object lives in
  one place only, the allocator's table, so that its fields are values here; \<open>assign\<close> returns the device that it also stores in the shard.
\<close>

subsection \<open>Shards\<close>

record shard_spec =
  ss_model_id :: string
  ss_num_layers :: int
  ss_num_heads :: int
  ss_head_dim :: int
  ss_max_seq_len :: int
  ss_dtype_bytes :: int

record kv_shard =
  kv_shard_id :: string
  kv_model_id :: string
  kv_layer_start :: int
  kv_layer_end :: int
  kv_head_start :: int
  kv_head_end :: int
  kv_seq_start :: int
  kv_seq_end :: int
  kv_bytes_size :: int
  kv_device_id :: "string option"
  kv_checksum :: string

record context_shard =
  cs_shard_id :: string
  cs_model_id :: string
  cs_token_start :: int
  cs_token_end :: int
  cs_bytes_size :: int
  cs_device_id :: "string option"
  cs_checksum :: string

definition kv_bytes_per_token_per_layer :: "shard_spec \<Rightarrow> int" where
  "kv_bytes_per_token_per_layer sp = 2 * ss_num_heads sp * ss_head_dim sp * ss_dtype_bytes sp"

definition kv_total_bytes :: "shard_spec \<Rightarrow> int" where
  "kv_total_bytes sp = ss_num_layers sp * ss_max_seq_len sp * kv_bytes_per_token_per_layer sp"

definition bytes_for_layers :: "int \<Rightarrow> int \<Rightarrow> int option \<Rightarrow> shard_spec \<Rightarrow> int" where
  "bytes_for_layers l_start l_end seq_len sp =
     (l_end - l_start) * (case seq_len of Some s \<Rightarrow> s | None \<Rightarrow> ss_max_seq_len sp) * kv_bytes_per_token_per_layer sp"

definition canonical_id :: "string \<Rightarrow> int \<Rightarrow> int \<Rightarrow> int \<Rightarrow> int \<Rightarrow> int \<Rightarrow> int \<Rightarrow> string" where
  "canonical_id model ls le hs he qs qe =
     model @ '':L'' @ show_int ls @ ''-'' @ show_int le @ '':H'' @ show_int hs @ ''-'' @ show_int he @
       '':S'' @ show_int qs @ ''-'' @ show_int qe"

definition kv_bspec :: "shard_spec \<Rightarrow> int \<Rightarrow> int \<Rightarrow> int \<Rightarrow> int \<Rightarrow> pydict" where
  "kv_bspec sp ls le qs qe =
     [(''model_id'', PStr (ss_model_id sp)), (''layer_start'', PInt ls), (''layer_end'', PInt le), (''head_start'', PInt 0),
      (''head_end'', PInt (ss_num_heads sp)), (''seq_start'', PInt qs), (''seq_end'', PInt qe)]"

definition kv_shard_of :: "(string \<Rightarrow> string) \<Rightarrow> shard_spec \<Rightarrow> int \<Rightarrow> int \<Rightarrow> int \<Rightarrow> int \<Rightarrow> int \<Rightarrow> kv_shard" where
  "kv_shard_of H sp ls le qs qe nbytes =
     \<lparr>kv_shard_id = canonical_id (ss_model_id sp) ls le 0 (ss_num_heads sp) qs qe, kv_model_id = ss_model_id sp,
      kv_layer_start = ls, kv_layer_end = le, kv_head_start = 0, kv_head_end = ss_num_heads sp,
      kv_seq_start = qs, kv_seq_end = qe, kv_bytes_size = nbytes, kv_device_id = None,
      kv_checksum = canonical_hash H (PDict (kv_bspec sp ls le qs qe))\<rparr>"

text \<open>The bounds of part \<open>s\<close> of \<open>n\<close>; the last part takes the remainder.\<close>

definition part_start :: "int \<Rightarrow> int \<Rightarrow> int \<Rightarrow> int" where
  "part_start len n s = s * (len div n)"

definition part_end :: "int \<Rightarrow> int \<Rightarrow> int \<Rightarrow> int" where
  "part_end len n s = (if s = n - 1 then len else (s + 1) * (len div n))"

definition seq_shard :: "(string \<Rightarrow> string) \<Rightarrow> shard_spec \<Rightarrow> int \<Rightarrow> int \<Rightarrow> kv_shard" where
  "seq_shard H sp n s =
     (let qs = part_start (ss_max_seq_len sp) n s; qe = part_end (ss_max_seq_len sp) n s
      in kv_shard_of H sp 0 (ss_num_layers sp) qs qe (ss_num_layers sp * (qe - qs) * kv_bytes_per_token_per_layer sp))"

definition layer_shard :: "(string \<Rightarrow> string) \<Rightarrow> shard_spec \<Rightarrow> int \<Rightarrow> int \<Rightarrow> kv_shard" where
  "layer_shard H sp n s =
     (let ls = part_start (ss_num_layers sp) n s; le = part_end (ss_num_layers sp) n s
      in kv_shard_of H sp ls le 0 (ss_max_seq_len sp) (bytes_for_layers ls le None sp))"

definition make_kv_shards :: "(string \<Rightarrow> string) \<Rightarrow> shard_spec \<Rightarrow> int \<Rightarrow> string \<Rightarrow> py_exn + kv_shard list" where
  "make_kv_shards H sp num_shards split =
     (if num_shards < 1 then Inl ValueErr
      else if split = ''sequence'' then Inr (map (seq_shard H sp num_shards \<circ> int) [0..<nat num_shards])
      else if split = ''layers'' then Inr (map (layer_shard H sp num_shards \<circ> int) [0..<nat num_shards])
      else Inl ValueErr)"

definition context_shard_of :: "(string \<Rightarrow> string) \<Rightarrow> shard_spec \<Rightarrow> int \<Rightarrow> int \<Rightarrow> context_shard" where
  "context_shard_of H sp n s =
     (let ts = part_start (ss_max_seq_len sp) n s; te = part_end (ss_max_seq_len sp) n s in
      \<lparr>cs_shard_id = ss_model_id sp @ '':ctx:'' @ show_int ts @ ''-'' @ show_int te, cs_model_id = ss_model_id sp,
       cs_token_start = ts, cs_token_end = te,
       cs_bytes_size = (te - ts) * ss_num_heads sp * ss_head_dim sp * ss_dtype_bytes sp, cs_device_id = None,
       cs_checksum = canonical_hash H (PDict [(''model_id'', PStr (ss_model_id sp)), (''ts'', PInt ts), (''te'', PInt te)])\<rparr>)"

definition make_context_shards :: "(string \<Rightarrow> string) \<Rightarrow> shard_spec \<Rightarrow> int \<Rightarrow> py_exn + context_shard list" where
  "make_context_shards H sp num_shards =
     (if num_shards < 1 then Inl ValueErr else Inr (map (context_shard_of H sp num_shards \<circ> int) [0..<nat num_shards]))"

subsection \<open>The allocator\<close>

record kv_node =
  kn_usable :: int
  kn_total :: int
  kn_allocated :: int

record allocator =
  al_nodes :: "(string \<times> kv_node) list"
  al_shards :: "(string \<times> kv_shard) list"

definition new_allocator :: allocator where
  "new_allocator = \<lparr>al_nodes = [], al_shards = []\<rparr>"

definition register_node :: "string \<Rightarrow> int \<Rightarrow> int \<Rightarrow> allocator \<Rightarrow> allocator" where
  "register_node d usable tot a =
     a\<lparr>al_nodes := AList.update d \<lparr>kn_usable = max 0 usable, kn_total = max 0 tot, kn_allocated = 0\<rparr> (al_nodes a)\<rparr>"

definition unregister_node :: "string \<Rightarrow> allocator \<Rightarrow> allocator \<times> kv_shard list" where
  "unregister_node d a =
     (let orphan = (\<lambda>s. if kv_device_id s = Some d then s\<lparr>kv_device_id := None\<rparr> else s) in
      (a\<lparr>al_nodes := AList.delete d (al_nodes a), al_shards := map (map_prod id orphan) (al_shards a)\<rparr>,
       map orphan (filter (\<lambda>s. kv_device_id s = Some d) (map snd (al_shards a)))))"

definition node_capacity :: "allocator \<Rightarrow> string \<Rightarrow> int \<times> int" where
  "node_capacity a d = (case map_of (al_nodes a) d of None \<Rightarrow> (0, 0) | Some n \<Rightarrow> (kn_usable n, kn_allocated n))"

definition remaining :: "allocator \<Rightarrow> string \<Rightarrow> int" where
  "remaining a d = (case node_capacity a d of (usable, allocated) \<Rightarrow> max 0 (usable - allocated))"

text \<open>A reverse sort in Python keeps the order of equal keys.\<close>

definition kv_candidates :: "string option \<Rightarrow> allocator \<Rightarrow> string list" where
  "kv_candidates prefer a =
     (let cs = sort_key (\<lambda>d. - remaining a d) (map fst (al_nodes a)) in
      case prefer of None \<Rightarrow> cs | Some p \<Rightarrow> if p \<in> set cs then p # remove1 p cs else cs)"

definition charge :: "string \<Rightarrow> int \<Rightarrow> allocator \<Rightarrow> allocator" where
  "charge d nbytes a =
     (case map_of (al_nodes a) d of None \<Rightarrow> a
      | Some n \<Rightarrow> a\<lparr>al_nodes := AList.update d (n\<lparr>kn_allocated := kn_allocated n + nbytes\<rparr>) (al_nodes a)\<rparr>)"

definition kv_assign :: "kv_shard \<Rightarrow> string option \<Rightarrow> allocator \<Rightarrow> allocator \<times> string option" where
  "kv_assign s prefer a =
     (let place = find (\<lambda>d. remaining a d \<ge> kv_bytes_size s) (kv_candidates prefer a);
          a1 = (case place of None \<Rightarrow> a | Some d \<Rightarrow> charge d (kv_bytes_size s) a)
      in (a1\<lparr>al_shards := AList.update (kv_shard_id s) (s\<lparr>kv_device_id := place\<rparr>) (al_shards a1)\<rparr>, place))"

definition refund :: "string \<Rightarrow> int \<Rightarrow> allocator \<Rightarrow> allocator" where
  "refund d nbytes a =
     (case map_of (al_nodes a) d of None \<Rightarrow> a
      | Some n \<Rightarrow> a\<lparr>al_nodes := AList.update d (n\<lparr>kn_allocated := max 0 (kn_allocated n - nbytes)\<rparr>) (al_nodes a)\<rparr>)"

definition kv_evict :: "string \<Rightarrow> allocator \<Rightarrow> allocator \<times> bool" where
  "kv_evict sid a =
     (case map_of (al_shards a) sid of
        None \<Rightarrow> (a, False)
      | Some s \<Rightarrow>
          (case kv_device_id s of
             None \<Rightarrow> (a, False)
           | Some d \<Rightarrow>
               (let a1 = refund d (kv_bytes_size s) a in
                (a1\<lparr>al_shards := AList.update sid (s\<lparr>kv_device_id := None\<rparr>) (al_shards a1)\<rparr>, True))))"

fun place_all :: "kv_shard list \<Rightarrow> allocator \<Rightarrow> allocator \<times> string list \<times> string list" where
  "place_all [] a = (a, [], [])"
| "place_all (s # ss) a =
     (case kv_assign s None a of (a1, r) \<Rightarrow>
        (case place_all ss a1 of (a2, placed, unplaced) \<Rightarrow>
           if r = None then (a2, placed, kv_shard_id s # unplaced) else (a2, kv_shard_id s # placed, unplaced)))"

definition kv_rebalance :: "allocator \<Rightarrow> allocator \<times> string list \<times> string list" where
  "kv_rebalance a = place_all (filter (\<lambda>s. kv_device_id s = None) (map snd (al_shards a))) a"

definition shard_location :: "allocator \<Rightarrow> string \<Rightarrow> string option" where
  "shard_location a sid = (case map_of (al_shards a) sid of None \<Rightarrow> None | Some s \<Rightarrow> kv_device_id s)"

definition assigned_count :: "allocator \<Rightarrow> nat" where
  "assigned_count a = length (filter (\<lambda>s. kv_device_id s \<noteq> None) (map snd (al_shards a)))"

subsection \<open>The shards tile the cache\<close>

lemma part_bounds:
  assumes "0 \<le> len" "0 \<le> s" "s < n"
  shows "0 \<le> part_start len n s" "part_start len n s \<le> part_end len n s" "part_end len n s \<le> len"
proof -
  have c: "0 \<le> len div n" using assms by (simp add: pos_imp_zdiv_nonneg_iff)
  have le: "n * (len div n) \<le> len" using assms mult_div_mod_eq [of n len] pos_mod_sign [of n len] by linarith
  have up: "k * (len div n) \<le> n * (len div n)" if "k \<le> n" for k using that c by (rule mult_right_mono)
  show "0 \<le> part_start len n s" using c assms by (simp add: part_start_def)
  show "part_start len n s \<le> part_end len n s"
    using c le up [of s] assms by (auto simp: part_start_def part_end_def intro: mult_right_mono)
  show "part_end len n s \<le> len"
    using le up [of "s + 1"] assms by (auto simp: part_end_def)
qed

lemma part_tiles:
  assumes "0 \<le> p" "p < len" "1 \<le> n"
  shows "\<exists>!i. i < nat n \<and> part_start len n (int i) \<le> p \<and> p < part_end len n (int i)"
proof -
  let ?c = "len div n"
  have c: "0 \<le> ?c" using assms by (simp add: pos_imp_zdiv_nonneg_iff)
  define i where "i = (if ?c = 0 then n - 1 else min (p div ?c) (n - 1))"
  have i: "0 \<le> i" "i < n" using assms c div_int_pos_iff [of p ?c] by (auto simp: i_def min_def)
  have in_i: "part_start len n i \<le> p \<and> p < part_end len n i"
  proof (cases "?c = 0")
    case True
    then show ?thesis using assms by (simp add: i_def part_start_def part_end_def)
  next
    case False
    with c have pos: "0 < ?c" by simp
    have "(p div ?c + 1) * ?c = p div ?c * ?c + ?c" by (simp add: algebra_simps)
    then have d: "p div ?c * ?c \<le> p" "p < (p div ?c + 1) * ?c"
      using div_mult_mod_eq [of p ?c] pos_mod_bound [OF pos, of p] pos_mod_sign [OF pos, of p] by linarith+
    show ?thesis
    proof (cases "p div ?c < n - 1")
      case True
      then show ?thesis using False d by (simp add: part_start_def part_end_def i_def min_def)
    next
      case m: False
      then have "(n - 1) * ?c \<le> p div ?c * ?c" using pos by (intro mult_right_mono) auto
      then show ?thesis using m False d assms by (simp add: part_start_def part_end_def i_def min_def)
    qed
  qed
  have uniq: "int j = i" if "j < nat n" "part_start len n (int j) \<le> p" "p < part_end len n (int j)" for j
  proof (rule ccontr)
    assume ne: "int j \<noteq> i"
    have order: "part_end len n s \<le> part_start len n t" if "0 \<le> s" "s < t" "t < n" for s t
      using that c by (auto simp: part_start_def part_end_def intro: mult_right_mono)
    from ne consider "int j < i" | "i < int j" by linarith
    then show False
      using order [of "int j" i] order [of i "int j"] that i in_i by cases linarith+
  qed
  show ?thesis
  proof (rule ex1I [of _ "nat i"])
    show "nat i < nat n \<and> part_start len n (int (nat i)) \<le> p \<and> p < part_end len n (int (nat i))"
      using i in_i by simp
  next
    fix j
    assume "j < nat n \<and> part_start len n (int j) \<le> p \<and> p < part_end len n (int j)"
    then have "int j = i" by (intro uniq) auto
    then show "j = nat i" by simp
  qed
qed

lemma part_sum:
  assumes "1 \<le> n"
  shows "(\<Sum>i\<leftarrow>[0..<nat n]. (part_end len n (int i) - part_start len n (int i)) * k) = len * k"
proof -
  let ?f = "\<lambda>i. (part_end len n (int i) - part_start len n (int i)) * k"
  have "(\<Sum>i\<leftarrow>[0..<m]. ?f i) = int m * (len div n) * k" if "m < nat n" for m
    using that by (induction m) (auto simp: part_end_def part_start_def algebra_simps)
  from this [of "nat n - 1"] have "(\<Sum>i\<leftarrow>[0..<nat n - 1]. ?f i) = (n - 1) * (len div n) * k"
    using assms by (simp add: of_nat_diff)
  moreover have "[0..<nat n] = [0..<nat n - 1] @ [nat n - 1]"
    using assms by (cases "nat n") simp_all
  moreover have "?f (nat n - 1) = (len - (n - 1) * (len div n)) * k"
    using assms by (simp add: part_end_def part_start_def of_nat_diff)
  ultimately show ?thesis by (simp add: algebra_simps)
qed

text \<open>Splitting a cache loses and duplicates nothing. Each token position (or layer, in the layer split) lies in
  exactly one of the shards, and the sizes of the shards add up to the size of the whole cache, also when the
  length is not a multiple of the number of shards or smaller than it.\<close>

theorem shards_tile_cache:
  assumes "make_kv_shards H sp n split = Inr shards"
  shows "(\<forall>p. 0 \<le> p \<and> p < (if split = ''sequence'' then ss_max_seq_len sp else ss_num_layers sp) \<longrightarrow>
      (\<exists>!i. i < length shards \<and>
        (if split = ''sequence'' then kv_seq_start (shards ! i) \<le> p \<and> p < kv_seq_end (shards ! i)
         else kv_layer_start (shards ! i) \<le> p \<and> p < kv_layer_end (shards ! i)))) \<and>
    sum_list (map kv_bytes_size shards) = kv_total_bytes sp"
proof (cases "split = ''sequence''")
  case True
  with assms have n: "1 \<le> n" and s: "shards = map (seq_shard H sp n \<circ> int) [0..<nat n]"
    by (auto simp: make_kv_shards_def split: if_splits)
  have "sum_list (map kv_bytes_size shards) = ss_max_seq_len sp * (ss_num_layers sp * kv_bytes_per_token_per_layer sp)"
    unfolding s using part_sum [OF n, of "ss_max_seq_len sp" "ss_num_layers sp * kv_bytes_per_token_per_layer sp"]
    by (simp add: comp_def seq_shard_def kv_shard_of_def Let_def algebra_simps)
  with True part_tiles [OF _ _ n, of _ "ss_max_seq_len sp"] show ?thesis
    by (simp add: s seq_shard_def kv_shard_of_def Let_def kv_total_bytes_def cong: conj_cong)
next
  case False
  with assms have n: "1 \<le> n" and s: "shards = map (layer_shard H sp n \<circ> int) [0..<nat n]"
    by (auto simp: make_kv_shards_def split: if_splits)
  have "sum_list (map kv_bytes_size shards) = ss_num_layers sp * (ss_max_seq_len sp * kv_bytes_per_token_per_layer sp)"
    unfolding s using part_sum [OF n, of "ss_num_layers sp" "ss_max_seq_len sp * kv_bytes_per_token_per_layer sp"]
    by (simp add: comp_def layer_shard_def kv_shard_of_def bytes_for_layers_def Let_def algebra_simps)
  with False part_tiles [OF _ _ n, of _ "ss_num_layers sp"] show ?thesis
    by (simp add: s layer_shard_def kv_shard_of_def Let_def kv_total_bytes_def cong: conj_cong)
qed

definition small_spec :: shard_spec where
  "small_spec = \<lparr>ss_model_id = ''m'', ss_num_layers = 2, ss_num_heads = 2, ss_head_dim = 4, ss_max_seq_len = 10, ss_dtype_bytes = 2\<rparr>"

theorem shards_tile_cache_witness:
  "\<exists>shards. make_kv_shards id small_spec 3 ''sequence'' = Inr shards \<and> sum_list (map kv_bytes_size shards) = 640"
proof -
  obtain shards where "make_kv_shards id small_spec 3 ''sequence'' = Inr shards" by (simp add: make_kv_shards_def)
  moreover from shards_tile_cache [OF this] have "sum_list (map kv_bytes_size shards) = 640"
    by (simp add: kv_total_bytes_def kv_bytes_per_token_per_layer_def small_spec_def)
  ultimately show ?thesis by blast
qed

lemma dash_inj: "show_nat a @ CHR ''-'' # xs = show_nat b @ CHR ''-'' # ys \<Longrightarrow> a = b"
proof -
  have cut: "takeWhile (\<lambda>c. c \<noteq> CHR ''-'') (show_nat n @ CHR ''-'' # zs) = show_nat n" for n zs
    using show_nat_digits [of n] by (subst takeWhile_append2) (auto dest!: digits_code)
  assume "show_nat a @ CHR ''-'' # xs = show_nat b @ CHR ''-'' # ys"
  then have "show_nat a = show_nat b" using cut by metis
  then show ?thesis by (rule show_nat_inj)
qed

lemma part_start_inj:
  assumes "n \<le> len" "1 \<le> n" "part_start len n s = part_start len n t"
  shows "s = t"
proof -
  have "0 < len div n" using assms by (simp add: pos_imp_zdiv_pos_iff)
  with assms(3) show ?thesis by (simp add: part_start_def)
qed

text \<open>The shards of a split have different ids, if there are not more of them than positions.\<close>

theorem shard_ids_distinct:
  assumes "make_kv_shards H sp n split = Inr shards"
    and "n \<le> (if split = ''sequence'' then ss_max_seq_len sp else ss_num_layers sp)"
  shows "distinct (map kv_shard_id shards)"
proof -
  have inj: "show_int a @ CHR ''-'' # xs = show_int b @ CHR ''-'' # ys \<Longrightarrow> 0 \<le> a \<Longrightarrow> 0 \<le> b \<Longrightarrow> a = b" for a b xs ys
    using dash_inj [of "nat a" xs "nat b" ys] by (simp add: show_int_def)
  show ?thesis
  proof (cases "split = ''sequence''")
    case True
    with assms have n: "1 \<le> n" "n \<le> ss_max_seq_len sp" and s: "shards = map (seq_shard H sp n \<circ> int) [0..<nat n]"
      by (auto simp: make_kv_shards_def split: if_splits)
    have "i = j" if "i < nat n" "j < nat n" "kv_shard_id (seq_shard H sp n (int i)) = kv_shard_id (seq_shard H sp n (int j))" for i j
      using that n part_bounds(1) [of "ss_max_seq_len sp" _ n] part_start_inj [OF n(2,1), of "int i" "int j"]
      by (auto simp: seq_shard_def kv_shard_of_def Let_def canonical_id_def dest!: inj)
    then show ?thesis unfolding s by (auto simp: distinct_map inj_on_def)
  next
    case False
    with assms have n: "1 \<le> n" "n \<le> ss_num_layers sp" and s: "shards = map (layer_shard H sp n \<circ> int) [0..<nat n]"
      by (auto simp: make_kv_shards_def split: if_splits)
    have "i = j" if "i < nat n" "j < nat n" "kv_shard_id (layer_shard H sp n (int i)) = kv_shard_id (layer_shard H sp n (int j))" for i j
      using that n part_bounds(1) [of "ss_num_layers sp" _ n] part_start_inj [OF n(2,1), of "int i" "int j"]
      by (auto simp: layer_shard_def kv_shard_of_def Let_def canonical_id_def dest!: inj)
    then show ?thesis unfolding s by (auto simp: distinct_map inj_on_def)
  qed
qed

text \<open>With more shards than positions, empty shards share an id, and the allocator's table keeps only one of them.\<close>

theorem empty_shards_collide:
  "\<exists>shards. make_kv_shards H (small_spec\<lparr>ss_max_seq_len := 2\<rparr>) 4 ''sequence'' = Inr shards \<and>
     kv_shard_id (shards ! 0) = kv_shard_id (shards ! 1)"
  by (simp add: make_kv_shards_def seq_shard_def kv_shard_of_def part_start_def part_end_def Let_def small_spec_def)

subsection \<open>Accounting of the allocator\<close>

datatype kv_op =
    KRegister string int int
  | KUnregister string
  | KAssign kv_shard "string option"
  | KEvict string
  | KRebalance

fun kv_apply :: "kv_op \<Rightarrow> allocator \<Rightarrow> allocator" where
  "kv_apply (KRegister d u t) a = register_node d u t a"
| "kv_apply (KUnregister d) a = fst (unregister_node d a)"
| "kv_apply (KAssign s p) a = fst (kv_assign s p a)"
| "kv_apply (KEvict sid) a = fst (kv_evict sid a)"
| "kv_apply KRebalance a = fst (kv_rebalance a)"

text \<open>A node advertises itself when it joins, and sizes are not negative.\<close>

fun kv_fair :: "kv_op \<Rightarrow> allocator \<Rightarrow> bool" where
  "kv_fair (KRegister d u t) a = (map_of (al_nodes a) d = None)"
| "kv_fair (KAssign s p) a = (0 \<le> kv_bytes_size s)"
| "kv_fair _ a = True"

definition share :: "string \<Rightarrow> kv_shard \<Rightarrow> int" where
  "share d s = (if kv_device_id s = Some d then kv_bytes_size s else 0)"

definition load :: "string \<Rightarrow> (string \<times> kv_shard) list \<Rightarrow> int" where
  "load d xs = sum_list (map (share d \<circ> snd) xs)"

lemma load_update:
  "load d (AList.update k s xs) = load d xs - (case map_of xs k of None \<Rightarrow> 0 | Some s0 \<Rightarrow> share d s0) + share d s"
  by (induction xs) (auto simp: load_def)

definition shards_ok :: "allocator \<Rightarrow> bool" where
  "shards_ok a \<longleftrightarrow> distinct (map fst (al_shards a)) \<and>
     (\<forall>k s. map_of (al_shards a) k = Some s \<longrightarrow> kv_shard_id s = k \<and> 0 \<le> kv_bytes_size s \<and>
        (\<forall>d. kv_device_id s = Some d \<longrightarrow> map_of (al_nodes a) d \<noteq> None))"

definition nodes_ok :: "allocator \<Rightarrow> bool" where
  "nodes_ok a \<longleftrightarrow> (\<forall>d n. map_of (al_nodes a) d = Some n \<longrightarrow>
     load d (al_shards a) \<le> kn_allocated n \<and> kn_allocated n \<le> kn_usable n \<and> 0 \<le> kn_usable n)"

definition alloc_ok :: "allocator \<Rightarrow> bool" where
  "alloc_ok a \<longleftrightarrow> shards_ok a \<and> nodes_ok a"

lemma load_update_le:
  assumes "shards_ok a"
  shows "load d (AList.update k s (al_shards a)) \<le> load d (al_shards a) + share d s"
proof -
  have "0 \<le> (case map_of (al_shards a) k of None \<Rightarrow> 0 | Some s0 \<Rightarrow> share d s0)"
    using assms by (auto simp: shards_ok_def share_def split: option.split)
  then show ?thesis by (simp add: load_update)
qed

lemma shards_ok_update:
  assumes "shards_ok a" and "dom (map_of ns) = dom (map_of (al_nodes a))" and "0 \<le> kv_bytes_size s"
    and "\<And>d. kv_device_id s = Some d \<Longrightarrow> map_of ns d \<noteq> None"
  shows "shards_ok (a\<lparr>al_nodes := ns, al_shards := AList.update (kv_shard_id s) s (al_shards a)\<rparr>)"
proof -
  have "map_of ns d \<noteq> None" if "map_of (al_nodes a) d \<noteq> None" for d using that assms(2) by blast
  with assms(1,3,4) show ?thesis
    unfolding shards_ok_def by (simp add: distinct_update update_conv' del: not_None_eq)
qed

lemma candidates_registered: "d \<in> set (kv_candidates prefer a) \<Longrightarrow> map_of (al_nodes a) d \<noteq> None"
proof -
  assume "d \<in> set (kv_candidates prefer a)"
  then have "d \<in> set (sort_key (\<lambda>d. - remaining a d) (map fst (al_nodes a)))"
    unfolding kv_candidates_def Let_def using notin_set_remove1 by (fastforce split: option.splits if_splits)
  then show ?thesis by (simp add: map_of_eq_None_iff)
qed

lemma assign_ok:
  assumes "alloc_ok a" and "0 \<le> kv_bytes_size s"
  shows "alloc_ok (fst (kv_assign s prefer a))"
proof (cases "find (\<lambda>d. remaining a d \<ge> kv_bytes_size s) (kv_candidates prefer a)")
  case None
  let ?s = "s\<lparr>kv_device_id := None\<rparr>"
  have a': "fst (kv_assign s prefer a) = a\<lparr>al_nodes := al_nodes a, al_shards := AList.update (kv_shard_id ?s) ?s (al_shards a)\<rparr>"
    by (simp add: kv_assign_def None Let_def)
  have "load d (AList.update (kv_shard_id s) ?s (al_shards a)) \<le> load d (al_shards a)" for d
    using load_update_le [of a d "kv_shard_id s" ?s] assms(1) by (simp add: alloc_ok_def share_def)
  then have "nodes_ok (fst (kv_assign s prefer a))"
    using assms(1) unfolding a' nodes_ok_def alloc_ok_def by simp (meson order_trans)
  moreover have "shards_ok (fst (kv_assign s prefer a))"
    unfolding a' using assms by (intro shards_ok_update) (auto simp: alloc_ok_def)
  ultimately show ?thesis by (simp add: alloc_ok_def)
next
  case (Some d)
  let ?s = "s\<lparr>kv_device_id := Some d\<rparr>"
  have fits: "remaining a d \<ge> kv_bytes_size s" "map_of (al_nodes a) d \<noteq> None"
    using Some candidates_registered by (auto simp: find_Some_iff) (metis nth_mem option.discI)
  then obtain n where n: "map_of (al_nodes a) d = Some n" by auto
  let ?ns = "AList.update d (n\<lparr>kn_allocated := kn_allocated n + kv_bytes_size s\<rparr>) (al_nodes a)"
  have ok: "load e (al_shards a) \<le> kn_allocated m" "kn_allocated m \<le> kn_usable m" "0 \<le> kn_usable m"
    if "map_of (al_nodes a) e = Some m" for e m
    using assms(1) that by (auto simp: alloc_ok_def nodes_ok_def)
  have room: "kn_allocated n + kv_bytes_size s \<le> kn_usable n"
    using fits(1) ok(2) [OF n] by (simp add: remaining_def node_capacity_def n)
  have a': "fst (kv_assign s prefer a) = a\<lparr>al_nodes := ?ns, al_shards := AList.update (kv_shard_id ?s) ?s (al_shards a)\<rparr>"
    by (simp add: kv_assign_def Some charge_def n Let_def)
  have grow: "load e (AList.update (kv_shard_id s) ?s (al_shards a)) \<le> load e (al_shards a) + (if e = d then kv_bytes_size s else 0)" for e
    using load_update_le [of a e "kv_shard_id s" ?s] assms(1) by (simp add: alloc_ok_def share_def split: if_splits)
  have "nodes_ok (fst (kv_assign s prefer a))"
    unfolding nodes_ok_def
  proof (intro allI impI)
    fix e m
    assume m: "map_of (al_nodes (fst (kv_assign s prefer a))) e = Some m"
    show "load e (al_shards (fst (kv_assign s prefer a))) \<le> kn_allocated m \<and> kn_allocated m \<le> kn_usable m \<and> 0 \<le> kn_usable m"
    proof (cases "e = d")
      case True
      with m have "m = n\<lparr>kn_allocated := kn_allocated n + kv_bytes_size s\<rparr>" by (simp add: a' update_conv')
      then show ?thesis using grow [of d] ok [OF n] room True by (simp add: a')
    next
      case False
      with m have "map_of (al_nodes a) e = Some m" by (simp add: a' update_conv')
      then show ?thesis using grow [of e] ok [of e m] False by (simp add: a')
    qed
  qed
  moreover have "shards_ok (fst (kv_assign s prefer a))"
    unfolding a' using assms n by (intro shards_ok_update) (auto simp: alloc_ok_def update_conv')
  ultimately show ?thesis by (simp add: alloc_ok_def)
qed

lemma evict_ok:
  assumes "alloc_ok a"
  shows "alloc_ok (fst (kv_evict sid a))"
proof (cases "shard_location a sid")
  case None
  then have "fst (kv_evict sid a) = a" by (simp add: kv_evict_def shard_location_def split: option.splits)
  with assms show ?thesis by simp
next
  case (Some d)
  then obtain s where s: "map_of (al_shards a) sid = Some s" "kv_device_id s = Some d"
    by (auto simp: shard_location_def split: option.splits)
  with assms obtain n where n: "map_of (al_nodes a) d = Some n" and id: "kv_shard_id s = sid" "0 \<le> kv_bytes_size s"
    by (fastforce simp: alloc_ok_def shards_ok_def)
  let ?s = "s\<lparr>kv_device_id := None\<rparr>"
  let ?n = "n\<lparr>kn_allocated := max 0 (kn_allocated n - kv_bytes_size s)\<rparr>"
  have a': "fst (kv_evict sid a) = a\<lparr>al_nodes := AList.update d ?n (al_nodes a), al_shards := AList.update (kv_shard_id ?s) ?s (al_shards a)\<rparr>"
    by (simp add: kv_evict_def s refund_def n Let_def id)
  have shrink: "load e (al_shards (fst (kv_evict sid a))) = load e (al_shards a) - (if e = d then kv_bytes_size s else 0)" for e
    using s id by (simp add: a' load_update share_def)
  have "nodes_ok (fst (kv_evict sid a))"
    unfolding nodes_ok_def
  proof (intro allI impI)
    fix e m
    assume "map_of (al_nodes (fst (kv_evict sid a))) e = Some m"
    then have m: "if e = d then m = ?n else map_of (al_nodes a) e = Some m" by (simp add: a' update_conv' split: if_splits)
    have old: "load e (al_shards a) \<le> kn_allocated k \<and> kn_allocated k \<le> kn_usable k \<and> 0 \<le> kn_usable k"
      if "map_of (al_nodes a) e = Some k" for k
      using assms that by (auto simp: alloc_ok_def nodes_ok_def)
    show "load e (al_shards (fst (kv_evict sid a))) \<le> kn_allocated m \<and> kn_allocated m \<le> kn_usable m \<and> 0 \<le> kn_usable m"
      using m old [of n] old [of m] n id(2) shrink [of e] by (auto split: if_splits)
  qed
  moreover have "shards_ok (fst (kv_evict sid a))"
    unfolding a' using assms n id by (intro shards_ok_update) (auto simp: alloc_ok_def update_conv')
  ultimately show ?thesis by (simp add: alloc_ok_def)
qed

lemma register_ok:
  assumes "alloc_ok a" and "map_of (al_nodes a) d = None"
  shows "alloc_ok (register_node d u t a)"
proof -
  have "share d s = 0" if "(k, s) \<in> set (al_shards a)" for k s
  proof -
    have "map_of (al_shards a) k = Some s" using that assms(1) by (simp add: alloc_ok_def shards_ok_def)
    with assms have "kv_device_id s \<noteq> Some d" unfolding alloc_ok_def shards_ok_def by blast
    then show ?thesis by (simp add: share_def)
  qed
  then have "map (share d \<circ> snd) (al_shards a) = map (\<lambda>_. 0) (al_shards a)" by auto
  then have "load d (al_shards a) = 0" unfolding load_def by (simp only: sum_list_0)
  with assms show ?thesis
    by (fastforce simp: alloc_ok_def shards_ok_def nodes_ok_def register_node_def update_conv')
qed

lemma unregister_ok:
  assumes "alloc_ok a"
  shows "alloc_ok (fst (unregister_node d a))"
proof -
  let ?f = "\<lambda>s. if kv_device_id s = Some d then s\<lparr>kv_device_id := None\<rparr> else s"
  have shards: "al_shards (fst (unregister_node d a)) = map (map_prod id ?f) (al_shards a)"
    and nodes: "map_of (al_nodes (fst (unregister_node d a))) = (map_of (al_nodes a))(d := None)"
    by (simp_all add: unregister_node_def Let_def delete_conv')
  have "load e (map (map_prod id ?f) (al_shards a)) = load e (al_shards a)" if "e \<noteq> d" for e
    using that by (auto simp: load_def share_def intro!: arg_cong [of _ _ sum_list])
  moreover have "map_of (map (map_prod id ?f) xs) = map_option ?f \<circ> map_of xs" for xs :: "(string \<times> kv_shard) list"
    by (induction xs) (auto simp: fun_eq_iff)
  moreover have "map fst (map (map_prod id ?f) (al_shards a)) = map fst (al_shards a)" by (simp add: comp_def)
  ultimately show ?thesis
    using assms unfolding alloc_ok_def shards_ok_def nodes_ok_def shards nodes
    by (auto split: if_splits) (drule arg_cong [of _ _ kv_device_id], simp)
qed

lemma place_all_ok: "alloc_ok a \<Longrightarrow> list_all (\<lambda>s. 0 \<le> kv_bytes_size s) ss \<Longrightarrow> alloc_ok (fst (place_all ss a))"
proof (induction ss arbitrary: a)
  case (Cons s ss)
  obtain a1 r where "kv_assign s None a = (a1, r)" by fastforce
  with assign_ok [of a s None] Cons show ?case by (auto split: prod.splits) (metis fst_conv)+
qed simp

lemma rebalance_ok: "alloc_ok a \<Longrightarrow> alloc_ok (fst (kv_rebalance a))"
  unfolding kv_rebalance_def
  by (rule place_all_ok) (auto simp: list_all_iff alloc_ok_def shards_ok_def)

interpretation kvm: guarded_machine kv_apply kv_fair alloc_ok
proof
  fix a p
  assume "alloc_ok a" "kv_fair p a"
  then show "alloc_ok (kv_apply p a)"
    by (cases p) (auto simp: assign_ok evict_ok register_ok unregister_ok rebalance_ok)
qed

text \<open>C19: The mesh never promises memory it does not have. In every history of joins, departures, assignments, evictions and
  rebalancing, with sizes that are not negative and nodes that advertise themselves when they join, the shards placed on a node
  fit into what the allocator has charged to it, and that into what the node advertised; and every placed shard is on a node that is still there.\<close>

theorem mesh_memory_within_capacity:
  assumes "lawful_run kv_fair kv_apply ps new_allocator" and "a = run_ops kv_apply ps new_allocator"
  shows "(case map_of (al_nodes a) d of
      None \<Rightarrow> \<forall>sid. shard_location a sid \<noteq> Some d
    | Some n \<Rightarrow> load d (al_shards a) \<le> kn_allocated n \<and> kn_allocated n \<le> kn_usable n)"
proof -
  have "alloc_ok new_allocator" by (simp add: alloc_ok_def shards_ok_def nodes_ok_def new_allocator_def)
  from kvm.inv_lawful_run [OF this assms(1)] assms(2) have "alloc_ok a" by simp
  then have "map_of (al_nodes a) d \<noteq> None" if "shard_location a sid = Some d" for sid
    using that unfolding alloc_ok_def shards_ok_def shard_location_def by (auto split: option.splits)
  with \<open>alloc_ok a\<close> show ?thesis by (auto simp: alloc_ok_def nodes_ok_def split: option.splits)
qed

definition plain_shard :: "string \<Rightarrow> int \<Rightarrow> kv_shard" where
  "plain_shard sid n = (kv_shard_of id small_spec 0 2 0 10 n)\<lparr>kv_shard_id := sid\<rparr>"

lemmas kv_eval = new_allocator_def plain_shard_def kv_shard_of_def register_node_def kv_assign_def kv_candidates_def
  remaining_def node_capacity_def charge_def load_def share_def Let_def

theorem mesh_memory_within_capacity_witness:
  "load ''a'' (al_shards (run_ops kv_apply [KRegister ''a'' 10 20, KAssign (plain_shard ''s'' 6) None] new_allocator)) \<le> 10"
proof -
  let ?ps = "[KRegister ''a'' 10 20, KAssign (plain_shard ''s'' 6) None]"
  have "lawful_run kv_fair kv_apply ?ps new_allocator" by (simp add: kv_eval)
  from mesh_memory_within_capacity [OF this refl, of "''a''"] show ?thesis by (simp add: kv_eval)
qed

text \<open>Advertising again while shards are placed resets the charge: the node is then filled a second time.\<close>

theorem readvertising_overcommits:
  "load ''a'' (al_shards (run_ops kv_apply
     [KRegister ''a'' 10 10, KAssign (plain_shard ''s'' 10) None, KRegister ''a'' 10 10, KAssign (plain_shard ''t'' 10) None]
     new_allocator)) = 20"
  by (simp add: kv_eval)

text \<open>A shard of negative size, which a peer's message can carry, makes room that does not exist.\<close>

theorem negative_size_overcommits:
  "shard_location (run_ops kv_apply
     [KRegister ''a'' 10 10, KAssign (plain_shard ''s'' (- 10)) None, KAssign (plain_shard ''t'' 20) None] new_allocator) ''t'' = Some ''a''"
  by (simp add: kv_eval shard_location_def)

text \<open>Assigning a placed shard again charges it a second time, and no operation but a new advertisement gives that back.\<close>

theorem reassignment_leaks_capacity:
  "let a = run_ops kv_apply [KRegister ''a'' 10 10, KAssign (plain_shard ''s'' 5) None, KAssign (plain_shard ''s'' 5) None] new_allocator
   in load ''a'' (al_shards a) = 5 \<and> remaining a ''a'' = 0 \<and> remaining (fst (kv_evict ''s'' a)) ''a'' = 5"
  by (simp add: kv_eval kv_evict_def refund_def)

subsection \<open>Messages\<close>

definition TOPIC_ADVERTISE :: string where "TOPIC_ADVERTISE = ''kv/advertise''"
definition TOPIC_ASSIGN :: string where "TOPIC_ASSIGN = ''kv/assign''"
definition TOPIC_PUT :: string where "TOPIC_PUT = ''kv/put''"
definition TOPIC_GET :: string where "TOPIC_GET = ''kv/get''"
definition TOPIC_EVICT :: string where "TOPIC_EVICT = ''kv/evict''"
definition TOPIC_HEARTBEAT :: string where "TOPIC_HEARTBEAT = ''kv/heartbeat''"

text \<open>The rendering of the time stamp is an argument.\<close>

definition make_advertise :: "string \<Rightarrow> string \<Rightarrow> int \<Rightarrow> int \<Rightarrow> pydict" where
  "make_advertise ts d usable tot =
     [(''type'', PStr ''KVAdvertise''), (''device_id'', PStr d), (''usable_ram_bytes'', PInt usable),
      (''total_ram_bytes'', PInt tot), (''ts'', PFloat ts)]"

definition make_assign :: "kv_shard \<Rightarrow> pydict" where
  "make_assign s =
     [(''type'', PStr ''KVAssign''), (''shard_id'', PStr (kv_shard_id s)), (''model_id'', PStr (kv_model_id s)),
      (''layer_start'', PInt (kv_layer_start s)), (''layer_end'', PInt (kv_layer_end s)),
      (''head_start'', PInt (kv_head_start s)), (''head_end'', PInt (kv_head_end s)),
      (''seq_start'', PInt (kv_seq_start s)), (''seq_end'', PInt (kv_seq_end s)),
      (''bytes_size'', PInt (kv_bytes_size s)), (''checksum'', PStr (kv_checksum s))]"

definition make_put :: "string \<Rightarrow> string \<Rightarrow> string \<Rightarrow> pydict" where
  "make_put sid data_b64 checksum =
     [(''type'', PStr ''KVPut''), (''shard_id'', PStr sid), (''data_b64'', PStr data_b64), (''checksum'', PStr checksum)]"

definition make_get :: "string \<Rightarrow> pydict" where
  "make_get sid = [(''type'', PStr ''KVGet''), (''shard_id'', PStr sid)]"

definition make_evict :: "string \<Rightarrow> pydict" where
  "make_evict sid = [(''type'', PStr ''KVEvict''), (''shard_id'', PStr sid)]"

definition make_heartbeat :: "string \<Rightarrow> string \<Rightarrow> pydict" where
  "make_heartbeat ts d = [(''type'', PStr ''KVHeartbeat''), (''device_id'', PStr d), (''ts'', PFloat ts)]"

definition make_response :: "string \<Rightarrow> string \<Rightarrow> string \<Rightarrow> pydict" where
  "make_response sid data_b64 checksum =
     [(''type'', PStr ''KVResponse''), (''shard_id'', PStr sid), (''data_b64'', PStr data_b64), (''checksum'', PStr checksum)]"

definition msg_type :: "pydict \<Rightarrow> string" where
  "msg_type msg = py_str (dget_default msg ''type'' (PStr []))"

subsection \<open>Simulated nodes\<close>

text \<open>\<open>base64.b64encode\<close> on bytes (numbers below 256).\<close>

definition b64_char :: "nat \<Rightarrow> char" where
  "b64_char n = ''ABCDEFGHIJKLMNOPQRSTUVWXYZabcdefghijklmnopqrstuvwxyz0123456789+/'' ! n"

fun b64encode :: "nat list \<Rightarrow> string" where
  "b64encode [] = []"
| "b64encode [a] = [b64_char (a div 4), b64_char (a mod 4 * 16), CHR ''='', CHR ''='']"
| "b64encode [a, b] = [b64_char (a div 4), b64_char (a mod 4 * 16 + b div 16), b64_char (b mod 16 * 4), CHR ''='']"
| "b64encode (a # b # c # xs) =
     [b64_char (a div 4), b64_char (a mod 4 * 16 + b div 16), b64_char (b mod 16 * 4 + c div 64), b64_char (c mod 64)] @ b64encode xs"

record sim_node =
  sn_device_id :: string
  sn_usable :: int
  sn_total :: int
  sn_store :: "(string \<times> string \<times> string) list"
  sn_allocated :: int
  sn_alive :: bool

definition new_sim_node :: "string \<Rightarrow> int \<Rightarrow> int \<Rightarrow> sim_node" where
  "new_sim_node d usable tot =
     \<lparr>sn_device_id = d, sn_usable = usable, sn_total = tot, sn_store = [], sn_allocated = 0, sn_alive = True\<rparr>"

definition capacity_remaining :: "sim_node \<Rightarrow> int" where
  "capacity_remaining n = max 0 (sn_usable n - sn_allocated n)"

text \<open>The fields of a message that \<open>make_put\<close> built.\<close>

definition sim_put :: "string \<Rightarrow> string \<Rightarrow> string \<Rightarrow> sim_node \<Rightarrow> sim_node \<times> bool" where
  "sim_put sid data checksum n =
     (let n1 = (case map_of (sn_store n) sid of
                  None \<Rightarrow> n
                | Some (old, _) \<Rightarrow> n\<lparr>sn_allocated := sn_allocated n - int (length old)\<rparr>)
      in if sn_allocated n1 + int (length data) > sn_usable n1 then (n1, False)
         else (n1\<lparr>sn_store := AList.update sid (data, checksum) (sn_store n1),
                  sn_allocated := sn_allocated n1 + int (length data)\<rparr>, True))"

definition sim_get :: "string \<Rightarrow> sim_node \<Rightarrow> pydict option" where
  "sim_get sid n = map_option (\<lambda>(data, checksum). make_response sid data checksum) (map_of (sn_store n) sid)"

definition sim_evict :: "string \<Rightarrow> sim_node \<Rightarrow> sim_node \<times> bool" where
  "sim_evict sid n =
     (case map_of (sn_store n) sid of
        None \<Rightarrow> (n, False)
      | Some (data, _) \<Rightarrow>
          (n\<lparr>sn_allocated := sn_allocated n - int (length data), sn_store := AList.delete sid (sn_store n)\<rparr>, True))"

subsection \<open>The simulator\<close>

record mesh_sim =
  ms_allocator :: allocator
  ms_nodes :: "(string \<times> sim_node) list"

definition new_mesh_sim :: mesh_sim where
  "new_mesh_sim = \<lparr>ms_allocator = new_allocator, ms_nodes = []\<rparr>"

definition join_node :: "string \<Rightarrow> int \<Rightarrow> int \<Rightarrow> mesh_sim \<Rightarrow> mesh_sim" where
  "join_node d usable tot m =
     m\<lparr>ms_nodes := AList.update d (new_sim_node d usable tot) (ms_nodes m),
       ms_allocator := register_node d usable tot (ms_allocator m)\<rparr>"

definition leave_node :: "string \<Rightarrow> mesh_sim \<Rightarrow> mesh_sim" where
  "leave_node d m =
     (case map_of (ms_nodes m) d of
        None \<Rightarrow> m
      | Some _ \<Rightarrow> m\<lparr>ms_nodes := AList.delete d (ms_nodes m), ms_allocator := fst (unregister_node d (ms_allocator m))\<rparr>)"

definition place_shards :: "kv_shard list \<Rightarrow> mesh_sim \<Rightarrow> mesh_sim \<times> string list \<times> string list" where
  "place_shards ss m = (case place_all ss (ms_allocator m) of (a, r) \<Rightarrow> (m\<lparr>ms_allocator := a\<rparr>, r))"

definition put_shard :: "string \<Rightarrow> string \<Rightarrow> nat list \<Rightarrow> string \<Rightarrow> mesh_sim \<Rightarrow> mesh_sim \<times> bool" where
  "put_shard d sid data checksum m =
     (case map_of (ms_nodes m) d of
        None \<Rightarrow> (m, False)
      | Some n \<Rightarrow>
          if \<not> sn_alive n then (m, False)
          else case sim_put sid (b64encode data) checksum n of
                 (n', ok) \<Rightarrow> (m\<lparr>ms_nodes := AList.update d n' (ms_nodes m)\<rparr>, ok))"

definition get_shard :: "string \<Rightarrow> string \<Rightarrow> mesh_sim \<Rightarrow> pydict option" where
  "get_shard d sid m =
     (case map_of (ms_nodes m) d of None \<Rightarrow> None | Some n \<Rightarrow> if sn_alive n then sim_get sid n else None)"

definition evict_shard :: "string \<Rightarrow> string \<Rightarrow> mesh_sim \<Rightarrow> mesh_sim \<times> bool" where
  "evict_shard d sid m =
     (case map_of (ms_nodes m) d of
        None \<Rightarrow> (m, False)
      | Some n \<Rightarrow>
          (case sim_evict sid n of
             (n', True) \<Rightarrow> (m\<lparr>ms_nodes := AList.update d n' (ms_nodes m), ms_allocator := fst (kv_evict sid (ms_allocator m))\<rparr>, True)
           | (n', False) \<Rightarrow> (m, False)))"

definition mesh_rebalance :: "mesh_sim \<Rightarrow> mesh_sim \<times> string list \<times> string list" where
  "mesh_rebalance m = (case kv_rebalance (ms_allocator m) of (a, r) \<Rightarrow> (m\<lparr>ms_allocator := a\<rparr>, r))"

subsection \<open>What is stored comes back\<close>

lemma sim_put_store:
  assumes "sim_put sid data c n = (n', ok)"
  shows "map_of (sn_store n') = (if ok then (map_of (sn_store n))(sid \<mapsto> (data, c)) else map_of (sn_store n)) \<and> sn_alive n' = sn_alive n"
  using assms by (auto simp: sim_put_def Let_def update_conv' split: option.splits if_splits)

text \<open>A stored shard is served back byte for byte. After a put that succeeded, a get for that shard at that node answers with
  the encoding of the data and the checksum that were put, whatever was there before, and every other shard at every
  node is served as before; a put that failed changes no answer.\<close>

theorem put_shard_roundtrip:
  assumes "put_shard d sid data checksum m = (m', ok)"
  shows "get_shard e tid m' =
    (if ok \<and> e = d \<and> tid = sid then Some (make_response sid (b64encode data) checksum) else get_shard e tid m)"
  using assms sim_put_store [of sid "b64encode data" checksum]
  by (auto simp: put_shard_def get_shard_def sim_get_def update_conv' split: option.splits if_splits prod.splits)

theorem put_shard_roundtrip_witness:
  "get_shard ''a'' ''s'' (fst (put_shard ''a'' ''s'' [77, 97, 110] ''c'' (join_node ''a'' 10 10 new_mesh_sim))) =
     Some (make_response ''s'' ''TWFu'' ''c'')"
proof -
  obtain m' ok where put: "put_shard ''a'' ''s'' [77, 97, 110] ''c'' (join_node ''a'' 10 10 new_mesh_sim) = (m', ok)" by fastforce
  then have ok by (simp add: put_shard_def join_node_def new_mesh_sim_def new_sim_node_def sim_put_def Let_def split: if_splits)
  with put_shard_roundtrip [OF put, of "''a''" "''s''"] put show ?thesis by (simp add: b64_char_def)
qed

text \<open>A node measures what it stores by the length of the encoding, a third more than the bytes the allocator
  reckons with: a shard that was placed on a node can be refused by it.\<close>

lemma b64encode_length: "length (b64encode xs) = 4 * ((length xs + 2) div 3)"
  by (induction xs rule: b64encode.induct) (simp_all, presburger)

theorem placed_shard_refused:
  "let m = fst (place_shards [plain_shard ''s'' 3] (join_node ''a'' 3 3 new_mesh_sim))
   in shard_location (ms_allocator m) ''s'' = Some ''a'' \<and> snd (put_shard ''a'' ''s'' [1, 2, 3] [] m) = False"
  by (simp add: place_shards_def join_node_def new_mesh_sim_def shard_location_def kv_eval put_shard_def new_sim_node_def
      sim_put_def b64encode_length split: prod.split)

subsection \<open>Memory of a simulated node\<close>

datatype sim_op = SPut string string string | SEvict string

fun sim_apply :: "sim_op \<Rightarrow> sim_node \<Rightarrow> sim_node" where
  "sim_apply (SPut sid data c) n = fst (sim_put sid data c n)"
| "sim_apply (SEvict sid) n = fst (sim_evict sid n)"

text \<open>No put over an existing shard is refused.\<close>

fun sim_fair :: "sim_op \<Rightarrow> sim_node \<Rightarrow> bool" where
  "sim_fair (SPut sid data c) n = (map_of (sn_store n) sid \<noteq> None \<longrightarrow> snd (sim_put sid data c n))"
| "sim_fair (SEvict sid) n = True"

definition stored_bytes :: "sim_node \<Rightarrow> int" where
  "stored_bytes n = sum_list (map (\<lambda>(_, data, _). int (length data)) (sn_store n))"

definition sim_ok :: "sim_node \<Rightarrow> bool" where
  "sim_ok n \<longleftrightarrow> distinct (map fst (sn_store n)) \<and> sn_allocated n = stored_bytes n \<and> stored_bytes n \<le> sn_usable n"

lemma stored_update:
  "sum_list (map (\<lambda>(_, data, _). int (length data)) (AList.update k (d, c) xs)) =
     sum_list (map (\<lambda>(_, data, _). int (length data)) xs) - (case map_of xs k of None \<Rightarrow> 0 | Some (old, _) \<Rightarrow> int (length old)) + int (length d)"
  by (induction xs) auto

lemma stored_delete:
  assumes "distinct (map fst xs)"
  shows "sum_list (map (\<lambda>(_, data, _). int (length data)) (AList.delete k xs)) =
     sum_list (map (\<lambda>(_, data, _). int (length data)) xs) - (case map_of xs k of None \<Rightarrow> 0 | Some (old, _) \<Rightarrow> int (length old))"
  using assms
proof (induction xs)
  case (Cons x xs)
  have "AList.delete k xs = xs" if "k \<notin> fst ` set xs" using that by (simp add: delete_idem)
  with Cons show ?case by (cases x) (auto simp: image_iff split: option.split dest: map_of_SomeD)
qed simp

interpretation simm: guarded_machine sim_apply sim_fair sim_ok
proof
  fix n p
  assume ok: "sim_ok n" and fair: "sim_fair p n"
  show "sim_ok (sim_apply p n)"
  proof (cases p)
    case (SPut sid data c)
    show ?thesis
    proof (cases "map_of (sn_store n) sid")
      case None
      with ok SPut show ?thesis
        by (auto simp: sim_ok_def sim_put_def stored_bytes_def stored_update distinct_update Let_def)
    next
      case (Some old)
      with ok fair SPut show ?thesis
        by (auto simp: sim_ok_def sim_put_def stored_bytes_def stored_update distinct_update Let_def
            simp del: map_of_eq_Some_iff split: prod.splits if_splits)
    qed
  next
    case (SEvict sid)
    have "distinct (map fst (AList.delete sid (sn_store n)))" using ok by (simp add: sim_ok_def distinct_delete)
    with ok SEvict show ?thesis
      by (auto simp: sim_ok_def sim_evict_def stored_bytes_def stored_delete split: option.splits)
  qed
qed

text \<open>A node never stores more than it advertised, and its counter is exact, in every history without a refused
  overwriting.\<close>

theorem sim_node_within_capacity:
  assumes "lawful_run sim_fair sim_apply ps (new_sim_node d usable tot)" and "0 \<le> usable"
  shows "let n = run_ops sim_apply ps (new_sim_node d usable tot)
    in sn_allocated n = stored_bytes n \<and> stored_bytes n \<le> sn_usable n"
proof -
  have "sim_ok (new_sim_node d usable tot)" using assms(2) by (simp add: sim_ok_def new_sim_node_def stored_bytes_def)
  from simm.inv_lawful_run [OF this assms(1)] show ?thesis by (simp add: sim_ok_def Let_def)
qed

text \<open>A refused overwriting takes the old copy off the counter and keeps it in the store: afterwards the node accepts
  more than it has room for.\<close>

theorem refused_overwrite_overfills:
  "let n = run_ops sim_apply [SPut ''s'' ''AAAA'' [], SPut ''s'' ''AAAAAAAA'' [], SPut ''t'' ''AAAA'' []] (new_sim_node ''a'' 4 4)
   in stored_bytes n = 8 \<and> sn_usable n = 4"
  by (simp add: sim_put_def new_sim_node_def stored_bytes_def Let_def)

end
