(* ===== verification/Mobile_Nodes.thy ===== *)
theory Mobile_Nodes
  imports Mobile_Registry KV_Mesh Working_Memory Fallbacks
begin

text \<open>
  The host side of the mobile fleet, the second half of \<open>src/mobile_nodes.py\<close>: ingestion of sensor data
  (\<open>MobileNodeManager\<close>), compute offload (\<open>MobileComputeBroker\<close>), the execution handler, and the adapter of the KV mesh.
  Messages are Python values as the transport decodes them. The waiting loop of an offload runs once for each
  batch of results that arrives before its deadline; the bus is a list of what was published.
\<close>

subsection \<open>Bounding of payloads\<close>

definition MAX_SNAPSHOT_BYTES :: nat where
  "MAX_SNAPSHOT_BYTES = 16 * 1024"

text \<open>\<open>PNone\<close> is the \<open>None\<close> that stands for a refused value. The counter is what is left of the cap of 32.\<close>

fun san :: "(string \<Rightarrow> real option) \<Rightarrow> pyval \<Rightarrow> mob_exn + pyval"
  and san_list :: "(string \<Rightarrow> real option) \<Rightarrow> nat \<Rightarrow> pyval list \<Rightarrow> mob_exn + pyval list"
  and san_items :: "(string \<Rightarrow> real option) \<Rightarrow> nat \<Rightarrow> pydict \<Rightarrow> pydict \<Rightarrow> mob_exn + pydict" where
  "san fl (PBool b) = Inr (PBool b)"
| "san fl (PInt i) = bound_int i"
| "san fl (PFloat r) = Inr (bound_float fl r)"
| "san fl (PDict d) =
     (if length (py_str (PDict d)) > MAX_SNAPSHOT_BYTES then Inr PNone else map_sum id PDict (san_items fl 32 d []))"
| "san fl (PList xs) =
     (if length (py_str (PList xs)) > MAX_SNAPSHOT_BYTES then Inr PNone else map_sum id PList (san_list fl 32 xs))"
| "san fl (PTuple xs) =
     (if length (py_str (PTuple xs)) > MAX_SNAPSHOT_BYTES then Inr PNone else map_sum id PList (san_list fl 32 xs))"
| "san fl (PStr s) =
     (if length s > MAX_SNAPSHOT_BYTES then Inr PNone else Inr (PStr (sanitize_text s 400)))"
| "san fl PNone = Inr (PStr (sanitize_text ''None'' 400))"
| "san_list fl n [] = Inr []"
| "san_list fl n (x # xs) =
     (if n = 0 then Inr []
      else case san fl x of
             Inl e \<Rightarrow> Inl e
           | Inr y \<Rightarrow> map_sum id ((#) y) (san_list fl (n - 1) xs))"
| "san_items fl n [] acc = Inr acc"
| "san_items fl n ((k, v) # kvs) acc =
     (if n = 0 then Inr acc
      else case san fl v of
             Inl e \<Rightarrow> Inl e
           | Inr w \<Rightarrow> san_items fl (n - 1) kvs (dset (sanitize_text k 48) w acc))"

subsection \<open>Ingestion\<close>

record mobile_manager =
  mb_registry :: registry
  mb_caps :: capabilities
  mb_memory :: "episodic option"
  mb_world :: "fb_world option"
  mb_snapshots :: "(string \<times> (string \<times> pydict) list) list"
  mb_refused :: "(string \<times> nat) list"
  mb_subscribed :: "(string \<times> string) list"
  mb_log :: "audit_event list"

record ingest_env =
  ie_fl :: "string \<Rightarrow> real option"
  ie_now :: real
  ie_tick :: real
  ie_ts :: string
  ie_iso :: string
  ie_fromiso :: "string \<Rightarrow> real option"

datatype ingest_exn = IngestOverflow | IngestFallback fb_error

definition subscribe_device :: "real \<Rightarrow> string \<Rightarrow> mobile_manager \<Rightarrow> mobile_manager \<times> bool" where
  "subscribe_device now d m =
     (if \<not> is_paired now d (mb_registry m) then (m, False)
      else (m\<lparr>mb_subscribed := mb_subscribed m @ map (Pair d) (mobile_sensor_topics (mb_caps m))\<rparr>, True))"

definition refuse_topic :: "string \<Rightarrow> string \<Rightarrow> string \<Rightarrow> mobile_manager \<Rightarrow> mobile_manager \<times> (ingest_exn + pydict option)" where
  "refuse_topic d tail reason m =
     (let key = d @ ''/'' @ tail;
          n = (case map_of (mb_refused m) key of None \<Rightarrow> 0 | Some k \<Rightarrow> k) + 1;
          m1 = m\<lparr>mb_refused := AList.update key n (mb_refused m),
                 mb_log := mb_log m @ [(''mobile_topic_refused'', [(''device_id'', PStr (sanitize_text d 48)),
                   (''tail'', PStr (sanitize_text tail 32)), (''reason'', PStr reason)])]\<rparr>
      in case mb_world m1 of
           None \<Rightarrow> (m1, Inr None)
         | Some w \<Rightarrow>
             if n < 3 then (m1, Inr None)
             else case report_violation ''mobile_sensor_anomaly'' (''repeated ACL refusals from '' @ key) w of
                    (w', r) \<Rightarrow> (m1\<lparr>mb_world := Some w'\<rparr>, map_sum IngestFallback (\<lambda>_. None) r))"

definition remember_sensor :: "ingest_env \<Rightarrow> string \<Rightarrow> string \<Rightarrow> pyval \<Rightarrow> mobile_manager \<Rightarrow> mobile_manager" where
  "remember_sensor env d tail data m =
     (case mb_memory m of
        None \<Rightarrow> m
      | Some t1 \<Rightarrow>
          if tail = ''heartbeat'' then m
          else m\<lparr>mb_memory := Some (fst (em_record (ie_fromiso env) (ie_now env) (ie_iso env) ''mobile_sensor''
                   [(''device_id'', PStr d), (''tail'', PStr tail), (''summary'', PStr (sanitize_text (py_str data) 200))] [] t1))\<rparr>)"

definition store_snapshot :: "string \<Rightarrow> string \<Rightarrow> pydict \<Rightarrow> mobile_manager \<Rightarrow> mobile_manager" where
  "store_snapshot d tail rec m =
     m\<lparr>mb_snapshots := AList.update d
         (AList.update tail rec (case map_of (mb_snapshots m) d of None \<Rightarrow> [] | Some s \<Rightarrow> s)) (mb_snapshots m)\<rparr>"

definition ingest :: "ingest_env \<Rightarrow> string \<Rightarrow> string \<Rightarrow> pyval \<Rightarrow> mobile_manager \<Rightarrow> mobile_manager \<times> (ingest_exn + pydict option)" where
  "ingest env d tail message m =
     (case validate_mobile_topic (mb_caps m) d tail of
        (False, reason) \<Rightarrow> refuse_topic d tail reason m
      | (True, _) \<Rightarrow>
          if \<not> is_paired (ie_now env) d (mb_registry m) then (m, Inr None)
          else
            let m1 = (if tail = ''heartbeat''
                      then m\<lparr>mb_registry := fst (node_heartbeat (ie_tick env) d (mb_registry m))\<rparr> else m)
            in case san (ie_fl env) message of
                 Inl _ \<Rightarrow> (m1, Inl IngestOverflow)
               | Inr PNone \<Rightarrow>
                   (m1\<lparr>mb_log := mb_log m1 @ [(''mobile_payload_refused'', [(''device_id'', PStr (sanitize_text d 48)),
                      (''tail'', PStr (sanitize_text tail 32)), (''reason'', PStr ''payload failed sanitization'')])]\<rparr>, Inr None)
               | Inr data \<Rightarrow>
                   (let rec = [(''device_id'', PStr d), (''tail'', PStr tail), (''data'', data), (''ts'', PFloat (ie_ts env))]
                    in (remember_sensor env d tail data (store_snapshot d tail rec m1), Inr (Some rec))))"

definition get_sensor_snapshot :: "string \<Rightarrow> mobile_manager \<Rightarrow> (string \<times> pydict) list" where
  "get_sensor_snapshot d m = sort_key fst (case map_of (mb_snapshots m) d of None \<Rightarrow> [] | Some s \<Rightarrow> s)"

definition check_liveness :: "real \<Rightarrow> real \<Rightarrow> mobile_manager \<Rightarrow> mobile_manager \<times> (ingest_exn + string list)" where
  "check_liveness now tick m =
     (let lost = map ni_device_id (filter (\<lambda>n. \<not> ni_alive n) (list_mobile_nodes now tick (mb_registry m))) in
      case mb_world m of
        None \<Rightarrow> (m, Inr lost)
      | Some w \<Rightarrow>
          if lost = [] then (m, Inr [])
          else case report_violation ''mobile_node_lost'' (''heartbeat lost: '' @ join_sep '', '' lost) w of
                 (w', r) \<Rightarrow> (m\<lparr>mb_world := Some w'\<rparr>, map_sum IngestFallback (\<lambda>_. lost) r))"

subsection \<open>Compute offload\<close>

record compute_broker =
  cb_results :: "(string \<times> pydict) list"
  cb_listening :: "string list"
  cb_published :: "(string \<times> pydict) list"
  cb_log :: "audit_event list"

record offload_env =
  oe_now :: real
  oe_tick :: real
  oe_request_id :: string
  oe_publish_error :: "string option"
  oe_arrivals :: "pyval list list"
  oe_fmt1 :: "real \<Rightarrow> string"

definition cb_listen :: "string \<Rightarrow> compute_broker \<Rightarrow> compute_broker" where
  "cb_listen d b = (if d \<in> set (cb_listening b) then b else b\<lparr>cb_listening := d # cb_listening b\<rparr>)"

definition on_result :: "pyval \<Rightarrow> compute_broker \<Rightarrow> compute_broker" where
  "on_result message b =
     (case message of
        PDict msg \<Rightarrow>
          (let rid = py_str (dget_default msg ''request_id'' (PStr [])) in
           if rid = [] then b else b\<lparr>cb_results := AList.update rid msg (cb_results b)\<rparr>)
      | _ \<Rightarrow> b)"

fun await_result :: "string \<Rightarrow> pyval list list \<Rightarrow> compute_broker \<Rightarrow> compute_broker \<times> pydict option" where
  "await_result rid [] b = (b, None)"
| "await_result rid (msgs # rest) b =
     (let b1 = fold on_result msgs b in
      case map_of (cb_results b1) rid of
        Some r \<Rightarrow> (b1\<lparr>cb_results := AList.delete rid (cb_results b1)\<rparr>, Some r)
      | None \<Rightarrow> await_result rid rest b1)"

definition cb_audit :: "string \<Rightarrow> pydict \<Rightarrow> compute_broker \<Rightarrow> compute_broker" where
  "cb_audit ty p b = b\<lparr>cb_log := cb_log b @ [(ty, p)]\<rparr>"

text \<open>The caller's timeout, if any, has been read as a number; zero means the configured one.\<close>

definition request_compute :: "capabilities \<Rightarrow> registry \<Rightarrow> offload_env \<Rightarrow> string \<Rightarrow> string \<Rightarrow> pydict \<Rightarrow> real option \<Rightarrow>
    compute_broker \<Rightarrow> compute_broker \<times> pydict" where
  "request_compute caps r env d workload payload timeout b =
     (let name = sanitize_text workload 32; safe_d = sanitize_text d 48 in
      if name \<notin> set KNOWN_WORKLOADS then
        (cb_audit ''mobile_compute_refused_unknown_workload'' [(''device_id'', PStr safe_d), (''workload'', PStr name)] b,
         [(''status'', PStr ''refused''), (''reason'', PStr (''unknown workload '' @ quoted name))])
      else if \<not> is_paired (oe_now env) d r then (b, [(''status'', PStr ''refused''), (''reason'', PStr ''device not paired'')])
      else if \<not> node_alive (oe_tick env) d r then (b, [(''status'', PStr ''refused''), (''reason'', PStr ''device heartbeat lost'')])
      else if \<not> node_supports_workload (node_manifest d r) name then
        (cb_audit ''mobile_compute_refused_no_capability'' [(''device_id'', PStr safe_d), (''workload'', PStr name)] b,
         [(''status'', PStr ''refused''),
          (''reason'', PStr (''device '' @ quoted safe_d @ '' does not advertise workload '' @ quoted name))])
      else
        let rid = oe_request_id env;
            t = (case timeout of None \<Rightarrow> mobile_compute_timeout caps | Some x \<Rightarrow> if x = 0 then mobile_compute_timeout caps else x);
            b1 = cb_listen d b
        in case oe_publish_error env of
             Some e \<Rightarrow> (b1, [(''status'', PStr ''error''), (''reason'', PStr (''publish failed: '' @ e))])
           | None \<Rightarrow>
               (let b2 = b1\<lparr>cb_published := cb_published b1 @ [(mobile_topic d ''compute_request'',
                            [(''request_id'', PStr rid), (''workload'', PStr (sanitize_text workload 32)), (''payload'', PDict payload)])]\<rparr>
                in case await_result rid (oe_arrivals env) b2 of
                     (b3, Some result) \<Rightarrow>
                       (cb_audit ''mobile_compute_completed'' [(''device_id'', PStr d), (''request_id'', PStr rid)] b3,
                        [(''status'', PStr ''success''), (''result'', PDict result)])
                   | (b3, None) \<Rightarrow>
                       (cb_audit ''mobile_compute_timeout'' [(''device_id'', PStr d), (''request_id'', PStr rid)] b3,
                        [(''status'', PStr ''error''), (''reason'', PStr (''compute timeout after '' @ oe_fmt1 env t @ ''s''))])))"

subsection \<open>The execution handler\<close>

datatype mobile_reply =
    NodeList "node_info list"
  | NodeStatus string bool "(string \<times> pydict) list"
  | ComputeReply string pydict
  | MobileRefused string

text \<open>A boolean counts as a number. A timeout that is not a finite number is outside the model.\<close>

fun timeout_param :: "(string \<Rightarrow> real option) \<Rightarrow> pyval \<Rightarrow> real option" where
  "timeout_param fl (PInt i) = Some (of_int i)"
| "timeout_param fl (PBool b) = Some (if b then 1 else 0)"
| "timeout_param fl (PFloat r) = fl r"
| "timeout_param fl v = None"

definition mobile_handle :: "(string \<Rightarrow> real option) \<Rightarrow> offload_env \<Rightarrow> pydict \<Rightarrow> mobile_manager \<Rightarrow> compute_broker \<Rightarrow>
    compute_broker \<times> (py_exn + mobile_reply)" where
  "mobile_handle fl env decision m b =
     (let action = py_str (dget_default decision ''action_type'' (PStr [])); params = py_or (dget decision ''params'') (PDict []) in
      if action = ''mobile_list_nodes'' then (b, Inr (NodeList (list_mobile_nodes (oe_now env) (oe_tick env) (mb_registry m))))
      else if action = ''mobile_node_status'' then
        (case params of
           PDict ps \<Rightarrow>
             (let d = sanitize_text (py_str (dget_default ps ''device_id'' (PStr []))) 48 in
              if \<not> is_paired (oe_now env) d (mb_registry m) then (b, Inr (MobileRefused ''device not paired''))
              else (b, Inr (NodeStatus d (node_alive (oe_tick env) d (mb_registry m)) (get_sensor_snapshot d m))))
         | _ \<Rightarrow> (b, Inl AttributeErr))
      else if action = ''mobile_request_compute'' then
        (case params of
           PDict ps \<Rightarrow>
             (let d = sanitize_text (py_str (dget_default ps ''device_id'' (PStr []))) 48;
                  workload = py_str (dget_default ps ''workload'' (PStr ''vision''));
                  payload = (if is_dict (dget ps ''payload'') then as_dict (dget ps ''payload'') else [])
              in case request_compute (mb_caps m) (mb_registry m) env d workload payload (timeout_param fl (dget ps ''timeout'')) b of
                   (b', result) \<Rightarrow> (b', Inr (ComputeReply d result)))
         | _ \<Rightarrow> (b, Inl AttributeErr))
      else (b, Inr (MobileRefused (''unknown mobile action '' @ quoted action))))"

subsection \<open>The adapter of the KV mesh\<close>

record kv_adapter =
  ka_allocator :: allocator
  ka_log :: "audit_event list"

definition ka_audit :: "string \<Rightarrow> pydict \<Rightarrow> kv_adapter \<Rightarrow> kv_adapter" where
  "ka_audit ty p ka = ka\<lparr>ka_log := ka_log ka @ [(ty, p)]\<rparr>"

definition ka_publish :: "real \<Rightarrow> registry \<Rightarrow> string \<Rightarrow> string \<Rightarrow> pydict \<Rightarrow> kv_adapter \<Rightarrow> kv_adapter" where
  "ka_publish now r d tail msg ka =
     (if \<not> is_paired now d r
      then ka_audit ''kv_publish_refused_unpaired'' [(''device_id'', PStr d), (''topic'', PStr tail)] ka
      else ka_audit ''kv_publish'' [(''device_id'', PStr d), (''topic'', PStr tail), (''type'', PStr (msg_type msg))] ka)"

definition ka_advertise :: "real \<Rightarrow> registry \<Rightarrow> string \<Rightarrow> string \<Rightarrow> int \<Rightarrow> int \<Rightarrow> kv_adapter \<Rightarrow> kv_adapter \<times> pydict" where
  "ka_advertise now r ts d usable tot ka =
     (let msg = make_advertise ts d usable tot in (ka_publish now r d TOPIC_ADVERTISE msg ka, msg))"

definition ka_assign :: "real \<Rightarrow> registry \<Rightarrow> kv_shard \<Rightarrow> kv_adapter \<Rightarrow> kv_adapter \<times> pydict option" where
  "ka_assign now r s ka =
     (case kv_device_id s of
        None \<Rightarrow> (ka, None)
      | Some d \<Rightarrow> (let msg = make_assign s in (ka_publish now r d TOPIC_ASSIGN msg ka, Some msg)))"

definition ka_put :: "real \<Rightarrow> registry \<Rightarrow> string \<Rightarrow> string \<Rightarrow> string \<Rightarrow> string \<Rightarrow> kv_adapter \<Rightarrow> kv_adapter \<times> pydict" where
  "ka_put now r d sid data checksum ka =
     (let msg = make_put sid data checksum in (ka_publish now r d TOPIC_PUT msg ka, msg))"

definition ka_get :: "real \<Rightarrow> registry \<Rightarrow> string \<Rightarrow> string \<Rightarrow> kv_adapter \<Rightarrow> kv_adapter \<times> pydict" where
  "ka_get now r d sid ka = (let msg = make_get sid in (ka_publish now r d TOPIC_GET msg ka, msg))"

definition ka_evict :: "real \<Rightarrow> registry \<Rightarrow> string \<Rightarrow> string \<Rightarrow> kv_adapter \<Rightarrow> kv_adapter \<times> pydict" where
  "ka_evict now r d sid ka = (let msg = make_evict sid in (ka_publish now r d TOPIC_EVICT msg ka, msg))"

definition ka_heartbeat :: "real \<Rightarrow> registry \<Rightarrow> string \<Rightarrow> string \<Rightarrow> kv_adapter \<Rightarrow> kv_adapter \<times> pydict" where
  "ka_heartbeat now r ts d ka = (let msg = make_heartbeat ts d in (ka_publish now r d TOPIC_HEARTBEAT msg ka, msg))"

fun need_ints :: "pydict \<Rightarrow> string list \<Rightarrow> py_exn + int list" where
  "need_ints p [] = Inr []"
| "need_ints p (k # ks) =
     (case map_of p k of
        None \<Rightarrow> Inl KeyErr
      | Some v \<Rightarrow> (case py_int v of Inl x \<Rightarrow> Inl x | Inr i \<Rightarrow> map_sum id ((#) i) (need_ints p ks)))"

text \<open>\<open>KVShard(...)\<close> from the fields of a message, in the order in which they are read.\<close>

definition shard_of_msg :: "pydict \<Rightarrow> py_exn + kv_shard" where
  "shard_of_msg p =
     (case (map_of p ''shard_id'', map_of p ''model_id'') of
        (Some sid, Some model) \<Rightarrow>
          (case need_ints p [''layer_start'', ''layer_end'', ''head_start'', ''head_end'', ''seq_start'', ''seq_end'', ''bytes_size''] of
             Inr [ls, le, hs, he, qs, qe, n] \<Rightarrow>
               Inr \<lparr>kv_shard_id = py_str sid, kv_model_id = py_str model, kv_layer_start = ls, kv_layer_end = le,
                    kv_head_start = hs, kv_head_end = he, kv_seq_start = qs, kv_seq_end = qe, kv_bytes_size = n,
                    kv_device_id = Some (py_str sid), kv_checksum = py_str (dget_default p ''checksum'' (PStr []))\<rparr>
           | Inr _ \<Rightarrow> Inl KeyErr
           | Inl x \<Rightarrow> Inl x)
      | _ \<Rightarrow> Inl KeyErr)"

definition ram_fields :: "pydict \<Rightarrow> py_exn + int \<times> int" where
  "ram_fields p =
     (case py_int (dget_default p ''usable_ram_bytes'' (PInt 0)) of
        Inl x \<Rightarrow> Inl x
      | Inr u \<Rightarrow> map_sum id (Pair u) (py_int (dget_default p ''total_ram_bytes'' (PInt 0))))"

definition handle_inbound :: "real \<Rightarrow> registry \<Rightarrow> string \<Rightarrow> string \<Rightarrow> pydict \<Rightarrow> (kv_adapter, py_exn, unit) sx" where
  "handle_inbound now r d tail p ka =
     (if \<not> is_paired now d r
      then (ka_audit ''kv_inbound_refused_unpaired'' [(''device_id'', PStr d), (''topic'', PStr tail)] ka, Inr ())
      else if msg_type p = ''KVAdvertise'' then
        (case ram_fields p of
           Inl x \<Rightarrow> (ka, Inl x)
         | Inr (u, t) \<Rightarrow> (ka_audit ''kv_advertise_received'' [(''device_id'', PStr d), (''usable_ram_bytes'', PInt u)]
                            (ka\<lparr>ka_allocator := register_node d u t (ka_allocator ka)\<rparr>), Inr ()))
      else if msg_type p = ''KVAssign'' then
        (case shard_of_msg p of
           Inl x \<Rightarrow> (ka, Inl x)
         | Inr s \<Rightarrow> (ka_audit ''kv_assign_received'' [(''shard_id'', PStr (kv_shard_id s)), (''device_id'', PStr d)]
                       (ka\<lparr>ka_allocator := fst (kv_assign s None (ka_allocator ka))\<rparr>), Inr ()))
      else if msg_type p = ''KVPut'' then
        (case map_of p ''shard_id'' of
           None \<Rightarrow> (ka, Inl KeyErr)
         | Some sid \<Rightarrow> (ka_audit ''kv_put_received'' [(''shard_id'', sid), (''device_id'', PStr d)] ka, Inr ()))
      else if msg_type p = ''KVGet'' then (ka, if map_of p ''shard_id'' = None then Inl KeyErr else Inr ())
      else if msg_type p = ''KVEvict'' then
        (case map_of p ''shard_id'' of
           None \<Rightarrow> (ka, Inl KeyErr)
         | Some sid \<Rightarrow> (ka_audit ''kv_evict_received'' [(''shard_id'', sid), (''device_id'', PStr d)]
                          (ka\<lparr>ka_allocator := fst (kv_evict (py_str sid) (ka_allocator ka))\<rparr>), Inr ()))
      else if msg_type p = ''KVHeartbeat'' then (ka, Inr ())
      else (ka_audit ''kv_inbound_unknown_type''
              [(''device_id'', PStr d), (''type'', PStr (msg_type p)), (''topic'', PStr tail)] ka, Inr ()))"

subsection \<open>What is ingested is bounded\<close>

fun payload_ok :: "pyval \<Rightarrow> bool" where
  "payload_ok PNone = True"
| "payload_ok (PBool b) = True"
| "payload_ok (PInt i) = (\<bar>i\<bar> < 10 ^ 15)"
| "payload_ok (PFloat r) = True"
| "payload_ok (PStr s) = (length s \<le> 400)"
| "payload_ok (PList xs) = (length xs \<le> 32 \<and> list_all payload_ok xs)"
| "payload_ok (PDict d) = (length d \<le> 32 \<and> list_all (\<lambda>kv. length (fst kv) \<le> 48 \<and> payload_ok (snd kv)) d)"
| "payload_ok (PTuple xs) = False"

lemma dset_items:
  "set (dset k v d) \<subseteq> insert (k, v) (set d)" "length (dset k v d) \<le> Suc (length d)"
  unfolding dset_def by (induction d) auto

lemma map_sum_Inr: "map_sum f g x = Inr y \<longleftrightarrow> (\<exists>z. x = Inr z \<and> y = g z)"
  by (cases x) auto

lemma san_ok:
  "san fl v = Inr w \<Longrightarrow> payload_ok w"
  "san_list fl n xs = Inr ys \<Longrightarrow> length ys \<le> n \<and> list_all payload_ok ys"
  "san_items fl n kvs acc = Inr out \<Longrightarrow> list_all (\<lambda>kv. length (fst kv) \<le> 48 \<and> payload_ok (snd kv)) acc \<Longrightarrow>
     length out \<le> length acc + n \<and> list_all (\<lambda>kv. length (fst kv) \<le> 48 \<and> payload_ok (snd kv)) out"
proof (induction fl v and fl n xs and fl n kvs acc arbitrary: w and ys and out rule: san_san_list_san_items.induct)
  case (12 fl n k v kvs acc)
  show ?case
  proof (cases "n = 0")
    case False
    with 12(3) obtain w where w: "san fl v = Inr w" and rest: "san_items fl (n - 1) kvs (dset (sanitize_text k 48) w acc) = Inr out"
      by (auto split: sum.splits)
    have "list_all (\<lambda>kv. length (fst kv) \<le> 48 \<and> payload_ok (snd kv)) (dset (sanitize_text k 48) w acc)"
      using dset_items(1) [of "sanitize_text k 48" w acc] 12(4) 12(1) [OF False w] sanitized_len [of 48 k]
      by (auto simp: list_all_iff)
    with 12(2) [OF False w rest] dset_items(2) [of "sanitize_text k 48" w acc] False show ?thesis by auto
  qed (use 12 in simp)
next
  case (10 fl n x xs)
  then show ?case by (cases n) (auto simp: map_sum_Inr split: sum.splits)
qed (use sanitized_len [of 400] in \<open>auto simp: map_sum_Inr bound_int_def bound_float_def split: if_splits\<close>)


definition open_config :: cap_config where
  "open_config = default_cap_config\<lparr>cfg_mobile_devices_allowlist := Some [''d'']\<rparr>"

definition demo_manager :: mobile_manager where
  "demo_manager = \<lparr>mb_registry = silent_registry, mb_caps = new_capabilities open_config, mb_memory = None, mb_world = None,
     mb_snapshots = [], mb_refused = [], mb_subscribed = [], mb_log = []\<rparr>"

definition demo_ingest :: ingest_env where
  "demo_ingest = \<lparr>ie_fl = (\<lambda>_. None), ie_now = 0, ie_tick = 0, ie_ts = ''0.0'', ie_iso = [], ie_fromiso = (\<lambda>_. None)\<rparr>"


subsection \<open>Offloaded work\<close>

lemma on_result_frame: "cb_published (on_result x b) = cb_published b" "cb_listening (on_result x b) = cb_listening b"
  by (auto simp: on_result_def Let_def split: pyval.split)

lemma fold_on_result_frame: "cb_published (fold on_result xs b) = cb_published b"
  by (induction xs arbitrary: b) (simp_all add: on_result_frame)

lemma await_frame: "cb_published (fst (await_result rid arrivals b)) = cb_published b"
  by (induction arrivals arbitrary: b) (auto simp: Let_def fold_on_result_frame split: option.split)

definition results_keyed :: "compute_broker \<Rightarrow> bool" where
  "results_keyed b \<longleftrightarrow> (\<forall>rid msg. map_of (cb_results b) rid = Some msg \<longrightarrow> py_str (dget_default msg ''request_id'' (PStr [])) = rid)"

lemma on_result_keyed: "results_keyed b \<Longrightarrow> results_keyed (on_result x b)"
  by (auto simp: results_keyed_def on_result_def Let_def update_conv' split: pyval.split)

lemma fold_on_result_keyed: "results_keyed b \<Longrightarrow> results_keyed (fold on_result xs b)"
  by (induction xs arbitrary: b) (simp_all add: on_result_keyed)

lemma await_keyed:
  assumes "results_keyed b" and "await_result rid arrivals b = (b', Some msg)"
  shows "py_str (dget_default msg ''request_id'' (PStr [])) = rid"
  using assms
proof (induction arrivals arbitrary: b)
  case (Cons msgs rest)
  from fold_on_result_keyed [OF Cons.prems(1), of msgs] Cons show ?case
    by (auto simp: Let_def results_keyed_def split: option.splits)
qed simp

text \<open>Work leaves the host only for a device that may do it, and a success answers the request. A request publishes nothing,
  or exactly one message, on the request topic of its device, and then the workload is a known one, the
  device is paired and alive, and it advertised the workload when it was paired; a result that is
  reported as success carries the id of this request.\<close>

theorem offload_fails_closed:
  assumes "request_compute caps r env d workload payload timeout b = (b', result)"
  shows "(cb_published b' = cb_published b \<or>
      (\<exists>msg. cb_published b' = cb_published b @ [(mobile_topic d ''compute_request'', msg)]) \<and>
      sanitize_text workload 32 \<in> set KNOWN_WORKLOADS \<and> is_paired (oe_now env) d r \<and> node_alive (oe_tick env) d r \<and>
      node_supports_workload (node_manifest d r) (sanitize_text workload 32)) \<and>
    (results_keyed b \<and> dget result ''status'' = PStr ''success'' \<longrightarrow>
      (\<exists>msg. dget result ''result'' = PDict msg \<and> py_str (dget_default msg ''request_id'' (PStr [])) = oe_request_id env))"
proof -
  have listen: "cb_published (cb_listen d b) = cb_published b" "results_keyed b \<Longrightarrow> results_keyed (cb_listen d b)"
    by (simp_all add: cb_listen_def results_keyed_def)
  let ?b2 = "(cb_listen d b)\<lparr>cb_published := cb_published (cb_listen d b) @ [(mobile_topic d ''compute_request'',
    [(''request_id'', PStr (oe_request_id env)), (''workload'', PStr (sanitize_text workload 32)), (''payload'', PDict payload)])]\<rparr>"
  obtain b3 res where w: "await_result (oe_request_id env) (oe_arrivals env) ?b2 = (b3, res)" by fastforce
  have pub: "cb_published b3 = cb_published ?b2" using await_frame [of "oe_request_id env" "oe_arrivals env" ?b2] w by simp
  have key: "py_str (dget_default msg ''request_id'' (PStr [])) = oe_request_id env" if "results_keyed b" "res = Some msg" for msg
    using await_keyed [of ?b2 "oe_request_id env" "oe_arrivals env" b3 msg] w that listen(2) by (simp add: results_keyed_def)
  show ?thesis
  proof (cases "sanitize_text workload 32 \<in> set KNOWN_WORKLOADS \<and> is_paired (oe_now env) d r \<and> node_alive (oe_tick env) d r \<and>
      node_supports_workload (node_manifest d r) (sanitize_text workload 32) \<and> oe_publish_error env = None")
    case True
    with assms have "cb_published b' = cb_published b3"
      "result = (case res of Some msg \<Rightarrow> [(''status'', PStr ''success''), (''result'', PDict msg)]
         | None \<Rightarrow> result) \<and> (res = None \<longrightarrow> dget result ''status'' = PStr ''error'')"
      by (auto simp: request_compute_def Let_def w cb_audit_def dget_def split: option.splits)
    with True key pub listen(1) show ?thesis by (cases res) (auto simp: dget_def)
  next
    case False
    with assms listen(1) show ?thesis
      by (auto simp: request_compute_def Let_def cb_audit_def dget_def split: if_splits option.splits)
  qed
qed

definition demo_broker :: compute_broker where
  "demo_broker = \<lparr>cb_results = [], cb_listening = [], cb_published = [], cb_log = []\<rparr>"

definition demo_offload :: offload_env where
  "demo_offload = \<lparr>oe_now = 0, oe_tick = 0, oe_request_id = ''r1'', oe_publish_error = None,
     oe_arrivals = [[], [PDict [(''request_id'', PStr ''r1''), (''out'', PInt 3)]]], oe_fmt1 = (\<lambda>_. ''30.0'')\<rparr>"

theorem offload_fails_closed_witness:
  "\<exists>b' result msg. request_compute (new_capabilities open_config) silent_registry demo_offload ''d'' ''vision'' [] None demo_broker = (b', result) \<and>
     dget result ''result'' = PDict msg \<and> py_str (dget_default msg ''request_id'' (PStr [])) = ''r1'' \<and> length (cb_published b') = 1"
proof -
  obtain b' result where rc: "request_compute (new_capabilities open_config) silent_registry demo_offload ''d'' ''vision'' [] None demo_broker = (b', result)"
    by fastforce
  have "sanitize_text ''vision'' 32 = ''vision''"
    by (rule sanitize_text_plain) (simp_all add: plain_char_def char_code_def)
  with rc have "dget result ''status'' = PStr ''success''" "length (cb_published b') = 1"
    by (auto simp: request_compute_def Let_def silent_registry_def demo_offload_def demo_broker_def is_paired_def node_alive_def
        new_registry_def node_manifest_def node_supports_workload_def dget_def KNOWN_WORKLOADS_def cb_listen_def on_result_def
        dget_default_def cb_audit_def)
  moreover have "results_keyed demo_broker" by (simp add: results_keyed_def demo_broker_def)
  ultimately show ?thesis
    using offload_fails_closed [OF rc] rc by (auto simp: demo_offload_def)
qed

text \<open>A result for which nobody waits any more, or ever did, stays in the table: results that answer no request are
  kept without bound.\<close>

theorem unsolicited_results_accumulate:
  assumes "distinct ids" and "[] \<notin> set ids" and "set ids \<inter> dom (map_of (cb_results b)) = {}"
  shows "length (cb_results (fold on_result (map (\<lambda>i. PDict [(''request_id'', PStr i)]) ids) b)) = length (cb_results b) + length ids"
  using assms
proof (induction ids arbitrary: b)
  case (Cons i ids)
  let ?b = "on_result (PDict [(''request_id'', PStr i)]) b"
  have new: "cb_results ?b = AList.update i [(''request_id'', PStr i)] (cb_results b)"
    using Cons.prems(2) by (auto simp: on_result_def dget_default_def)
  have "length (AList.update i v xs) = Suc (length xs)" if "map_of xs i = None" for v and xs :: "(string \<times> pydict) list"
    using that by (induction xs) (auto split: if_splits)
  moreover have "map_of (cb_results b) i = None" using Cons.prems(3) by auto
  ultimately have "length (cb_results ?b) = Suc (length (cb_results b))" by (simp add: new)
  moreover have "set ids \<inter> dom (map_of (cb_results ?b)) = {}" using Cons.prems by (auto simp: new update_conv')
  ultimately show ?case using Cons.IH [of ?b] Cons.prems by simp
qed simp

subsection \<open>The mesh behind the adapter\<close>

text \<open>An assignment survives its message. A paired node that receives the message built for a shard brings its
  allocator into exactly the state that assigning the shard itself would give.\<close>

theorem assign_message_roundtrip:
  assumes "is_paired now d r"
  shows "ka_allocator (fst (handle_inbound now r d tail (make_assign s) ka)) = fst (kv_assign s None (ka_allocator ka)) \<and>
    snd (handle_inbound now r d tail (make_assign s) ka) = Inr ()"
proof -
  have "shard_of_msg (make_assign s) = Inr (s\<lparr>kv_device_id := Some (kv_shard_id s)\<rparr>)"
    by (simp add: shard_of_msg_def make_assign_def dget_default_def)
  moreover have "fst (kv_assign (s\<lparr>kv_device_id := x\<rparr>) None a) = fst (kv_assign s None a)" for x a
    by (simp add: kv_assign_def Let_def cong: option.case_cong)
  moreover have "msg_type (make_assign s) = ''KVAssign''" by (simp add: msg_type_def make_assign_def dget_default_def)
  ultimately show ?thesis using assms by (simp add: handle_inbound_def ka_audit_def)
qed

theorem assign_message_roundtrip_witness:
  "ka_allocator (fst (handle_inbound 0 silent_registry ''d'' TOPIC_ASSIGN (make_assign (plain_shard ''s'' 5))
     \<lparr>ka_allocator = new_allocator, ka_log = []\<rparr>)) = fst (kv_assign (plain_shard ''s'' 5) None new_allocator)"
proof -
  have "is_paired 0 ''d'' silent_registry" by (simp add: silent_registry_def is_paired_def)
  from assign_message_roundtrip [OF this, of TOPIC_ASSIGN "plain_shard ''s'' 5" "\<lparr>ka_allocator = new_allocator, ka_log = []\<rparr>"]
  show ?thesis by simp
qed

text \<open>A device that is not paired changes nothing but the log, and its malformed messages raise nothing.\<close>

theorem unpaired_device_is_inert:
  assumes "\<not> is_paired now d r"
  shows "ka_allocator (fst (handle_inbound now r d tail p ka)) = ka_allocator ka \<and> snd (handle_inbound now r d tail p ka) = Inr ()"
  using assms by (simp add: handle_inbound_def ka_audit_def)

text \<open>A paired device can take a shard off another device, and re-advertising resets its own charge (see
  \<open>readvertising_overcommits\<close>): pairing is all that the adapter checks.\<close>

theorem paired_device_evicts_others_shard:
  assumes "is_paired now d r" and "shard_location (ka_allocator ka) sid = Some other"
  shows "shard_location (ka_allocator (fst (handle_inbound now r d tail (make_evict sid) ka))) sid = None"
proof -
  obtain s where s: "map_of (al_shards (ka_allocator ka)) sid = Some s" "kv_device_id s = Some other"
    using assms(2) by (auto simp: shard_location_def split: option.splits)
  have "shard_location (fst (kv_evict sid a)) sid = None" for a
    by (auto simp: kv_evict_def shard_location_def refund_def Let_def update_conv' split: option.splits)
  with assms(1) show ?thesis
    by (simp add: handle_inbound_def make_evict_def msg_type_def dget_default_def ka_audit_def)
qed

text \<open>The topics of the KV contract have one component more than the mobile namespace allows, so that they do not parse as topics
  of a device.\<close>

theorem kv_topics_outside_namespace:
  assumes "CHR ''/'' \<notin> set d" and "tail \<in> {TOPIC_ADVERTISE, TOPIC_ASSIGN, TOPIC_PUT, TOPIC_GET, TOPIC_EVICT, TOPIC_HEARTBEAT}"
  shows "parse_mobile_topic (mobile_topic d tail) = None"
proof -
  obtain t where t: "tail = ''kv'' @ ''/'' @ t" "CHR ''/'' \<notin> set t" "t \<noteq> []"
    using assms(2)
    by (auto simp: TOPIC_ADVERTISE_def TOPIC_ASSIGN_def TOPIC_PUT_def TOPIC_GET_def TOPIC_EVICT_def TOPIC_HEARTBEAT_def)
  have "dropWhile (\<lambda>c. c = CHR ''/'') (rev t @ xs) = rev t @ xs" for xs using t(2,3) by (cases "rev t") auto
  then have "strip_slashes (mobile_topic d tail) = ''shugocore'' @ CHR ''/'' # ''mobile'' @ CHR ''/'' # d @ CHR ''/'' # ''kv'' @ CHR ''/'' # t"
    by (simp add: strip_slashes_def strip_by_def mobile_topic_def t(1))
  then have "split_char (CHR ''/'') (strip_slashes (mobile_topic d tail)) = [''shugocore'', ''mobile'', d, ''kv'', t]"
    using assms(1) t(2) by (simp only: split_char_append split_char_none) (simp add: split_char_append split_char_none)
  then show ?thesis by (simp add: parse_mobile_topic_def)
qed

end
