(* ===== verification/Personality.thy ===== *)
theory Personality
  imports Prelude
begin

text \<open>
  The character: \<open>src/personality/loader.py\<close> (the operator's configuration), \<open>src/personality/model.py\<close>
  (genesis, growth, comparison, persistence, rendering) and \<open>src/personality/growth.py\<close> (feedback and the synthesis of
  deltas from what happened). Trait values are reals; a dictionary is an association list.
  The float texts of Python (\<open>repr\<close>, \<open>float\<close>, the formats with two digits and as a percentage) are the parameter \<open>floats\<close>. Reading
  and writing the files is not modelled: the loaders take the parsed JSON, or none when there is no readable file.
\<close>

record floats =
  fl_repr :: "real \<Rightarrow> string"
  fl_value :: "string \<Rightarrow> real"
  fl_parse :: "string \<Rightarrow> real option"
  fl_fmt2 :: "real \<Rightarrow> string"
  fl_pct :: "real \<Rightarrow> string"

text \<open>\<open>float(v)\<close>. Every use is followed by a clamp or a range check on [0,1], under which NaN and infinity behave as any
  number above 1 and minus infinity as any number below 0.\<close>

fun py_float :: "floats \<Rightarrow> pyval \<Rightarrow> py_exn + real" where
  "py_float F (PInt i) = Inr (of_int i)"
| "py_float F (PBool b) = Inr (if b then 1 else 0)"
| "py_float F (PFloat r) = Inr (fl_value F r)"
| "py_float F (PStr s) = (case fl_parse F s of None \<Rightarrow> Inl ValueErr | Some x \<Rightarrow> Inr x)"
| "py_float F _ = Inl TypeErr"

text \<open>\<open>==\<close> on values: numbers by value, dictionaries without regard to order.\<close>

fun num_value :: "floats \<Rightarrow> pyval \<Rightarrow> real option" where
  "num_value F (PInt i) = Some (of_int i)"
| "num_value F (PBool b) = Some (if b then 1 else 0)"
| "num_value F (PFloat r) = Some (fl_value F r)"
| "num_value F _ = None"

lemma zip_size [termination_simp]: "(a, b) \<in> set (zip xs ys) \<Longrightarrow> size a < Suc (size_list size xs)"
  by (metis less_Suc_eq_le size_list_estimation' set_zip_leftD order_refl)

fun py_eq :: "floats \<Rightarrow> pyval \<Rightarrow> pyval \<Rightarrow> bool" where
  "py_eq F PNone w = (w = PNone)"
| "py_eq F (PStr s) w = (w = PStr s)"
| "py_eq F (PList xs) w =
     (case w of PList ys \<Rightarrow> length xs = length ys \<and> list_all (\<lambda>(x, y). py_eq F x y) (zip xs ys) | _ \<Rightarrow> False)"
| "py_eq F (PTuple xs) w =
     (case w of PTuple ys \<Rightarrow> length xs = length ys \<and> list_all (\<lambda>(x, y). py_eq F x y) (zip xs ys) | _ \<Rightarrow> False)"
| "py_eq F (PDict a) w =
     (case w of PDict b \<Rightarrow> length a = length b \<and>
        list_all (\<lambda>(k, v). case map_of b k of None \<Rightarrow> False | Some u \<Rightarrow> py_eq F v u) a | _ \<Rightarrow> False)"
| "py_eq F v w = (num_value F v = num_value F w)"

definition pfl :: "floats \<Rightarrow> real \<Rightarrow> pyval" where
  "pfl F x = PFloat (fl_repr F x)"

subsection \<open>The configuration\<close>

definition PROACTIVITY_DEFAULTS :: "(string \<times> bool) list" where
  "PROACTIVITY_DEFAULTS = [(''greet_on_arrival'', True), (''ask_follow_up'', True), (''offer_help'', False)]"

definition apos :: string where "apos = [CHR 0x27]"

definition DEFAULT_GREETING :: string where
  "DEFAULT_GREETING = ''Hello '' @ em_dash @ '' I'' @ apos @ ''m {name}. Good to see you.''"

definition DEFAULT_OFFER :: string where
  "DEFAULT_OFFER = ''{name} here '' @ em_dash @ '' anything you'' @ apos @ ''d like a hand with?''"

definition normalise_proactivity :: "pyval \<Rightarrow> pydict" where
  "normalise_proactivity raw =
     map (\<lambda>(k, d). (k, PBool (truthy (dget_default (as_dict raw) k (PBool d))))) PROACTIVITY_DEFAULTS"

record profile =
  pf_name :: pyval
  pf_traits :: pydict
  pf_speech :: pydict
  pf_boundaries :: pydict
  pf_proactivity :: pydict

definition default_profile :: profile where
  "default_profile =
     \<lparr>pf_name = PStr ''Shugo'',
      pf_traits = [(''warmth'', PStr ''warm and caring without being overbearing''),
        (''wit'', PStr (''occasional dry humor, never at the user'' @ apos @ ''s expense'')),
        (''curiosity'', PStr ''genuinely asks follow-up questions''),
        (''patience'', PStr ''never rushes the user'')],
      pf_speech = [(''style'', PStr ''conversational, like a smart friend''), (''formality'', PStr ''casual''),
        (''max_sentences'', PInt 3), (''first_person'', PBool True),
        (''never_say'', PList [PStr ''As an AI'', PStr (''I'' @ apos @ ''m just an AI''), PStr (''I don'' @ apos @ ''t have feelings'')]),
        (''greeting'', PStr DEFAULT_GREETING), (''offer'', PStr DEFAULT_OFFER)],
      pf_boundaries = [(''refuse_harmful'', PBool True), (''honest_about_limitations'', PBool True), (''no_impersonation'', PBool True)],
      pf_proactivity = map (\<lambda>(k, b). (k, PBool b)) PROACTIVITY_DEFAULTS\<rparr>"

text \<open>\<open>{**a, **b}\<close>.\<close>

definition dict_merge :: "pydict \<Rightarrow> pydict \<Rightarrow> pydict" where
  "dict_merge a b = fold (\<lambda>(k, v). dset k v) b a"

text \<open>The block \<open>d.get(key) or {}\<close> unpacked over the defaults; a truthy value that is no mapping raises.\<close>

definition overlay :: "pydict \<Rightarrow> pydict \<Rightarrow> string \<Rightarrow> py_exn + pydict" where
  "overlay defaults d key =
     (if \<not> truthy (dget d key) then Inr defaults
      else case dget d key of PDict b \<Rightarrow> Inr (dict_merge defaults b) | _ \<Rightarrow> Inl TypeErr)"

definition profile_from_dict :: "pyval \<Rightarrow> py_exn + profile" where
  "profile_from_dict v =
     (case v of PDict d \<Rightarrow>
        (case overlay (pf_traits default_profile) d ''traits'' of Inl x \<Rightarrow> Inl x | Inr traits \<Rightarrow>
         case overlay (pf_speech default_profile) d ''speech'' of Inl x \<Rightarrow> Inl x | Inr speech \<Rightarrow>
         case overlay (pf_boundaries default_profile) d ''boundaries'' of Inl x \<Rightarrow> Inl x | Inr boundaries \<Rightarrow>
         Inr \<lparr>pf_name = dget_default d ''name'' (pf_name default_profile), pf_traits = traits, pf_speech = speech,
              pf_boundaries = boundaries, pf_proactivity = normalise_proactivity (dget d ''proactivity'')\<rparr>)
      | _ \<Rightarrow> Inl AttributeErr)"

definition load_personality :: "pyval option \<Rightarrow> profile" where
  "load_personality file =
     (case file of None \<Rightarrow> default_profile
      | Some v \<Rightarrow> (case profile_from_dict v of Inl _ \<Rightarrow> default_profile | Inr p \<Rightarrow> p))"

subsection \<open>The model\<close>

definition GROWTH_RATE :: real where "GROWTH_RATE = 1/10"

definition BASELINE_TRAITS :: "(string \<times> real) list" where
  "BASELINE_TRAITS = [(''warmth'', 1/2), (''humor'', 4/10), (''curiosity'', 1/2), (''verbosity'', 1/2), (''formality'', 3/10), (''proactivity'', 3/10)]"

record trait_state =
  tr_value :: real
  tr_confidence :: real
  tr_evidence :: int
  tr_last_gen :: int

definition clamp01 :: "real \<Rightarrow> real" where
  "clamp01 x = max 0 (min 1 x)"

definition new_trait :: "real \<Rightarrow> real \<Rightarrow> int \<Rightarrow> int \<Rightarrow> trait_state" where
  "new_trait v c n g = \<lparr>tr_value = clamp01 v, tr_confidence = clamp01 c, tr_evidence = n, tr_last_gen = g\<rparr>"

record personality =
  pm_name :: pyval
  pm_generation :: int
  pm_policy :: pyval
  pm_traits :: "(string \<times> trait_state) list"
  pm_voice :: pydict
  pm_history :: "pyval list"
  pm_persona :: "pydict option"
  pm_created_at :: pyval
  pm_updated_at :: pyval

text \<open>\<open>list(v or [])\<close>.\<close>

definition list_or_empty :: "pyval \<Rightarrow> py_exn + pyval list" where
  "list_or_empty v = (if truthy v then py_iter v else Inr [])"

definition extract_policy :: "profile \<Rightarrow> py_exn + pydict" where
  "extract_policy p =
     (case list_or_empty (dget (pf_speech p) ''never_say'') of Inl x \<Rightarrow> Inl x | Inr never \<Rightarrow>
      Inr [(''boundaries'', PDict (pf_boundaries p)), (''never_say'', PList never),
           (''first_person'', PBool (truthy (dget_default (pf_speech p) ''first_person'' (PBool True)))),
           (''refuse_harmful'', PBool (truthy (dget_default (pf_boundaries p) ''refuse_harmful'' (PBool True)))),
           (''greeting'', PStr (py_str (py_or (dget (pf_speech p) ''greeting'') (PStr DEFAULT_GREETING)))),
           (''offer'', PStr (py_str (py_or (dget (pf_speech p) ''offer'') (PStr DEFAULT_OFFER)))),
           (''proactivity'', PDict (normalise_proactivity (PDict (pf_proactivity p))))])"

definition growth_entry :: "floats \<Rightarrow> int \<Rightarrow> string \<Rightarrow> (string \<times> real) list \<Rightarrow> real \<Rightarrow> pyval" where
  "growth_entry F gen note deltas now =
     PDict [(''gen'', PInt gen), (''note'', PStr note), (''deltas'', PDict (map (\<lambda>(t, d). (t, pfl F d)) deltas)), (''at'', pfl F now)]"

definition genesis :: "floats \<Rightarrow> real \<Rightarrow> profile \<Rightarrow> py_exn + personality" where
  "genesis F now p =
     (case extract_policy p of Inl x \<Rightarrow> Inl x | Inr policy \<Rightarrow>
      case py_int (dget_default (pf_speech p) ''max_sentences'' (PInt 3)) of Inl x \<Rightarrow> Inl x | Inr n \<Rightarrow>
      Inr \<lparr>pm_name = pf_name p, pm_generation = 0, pm_policy = PDict policy,
           pm_traits = map (\<lambda>(t, v). (t, new_trait v 0 0 0)) BASELINE_TRAITS,
           pm_voice = [(''max_sentences'', PInt n),
             (''style'', dget_default (pf_speech p) ''style'' (PStr ''conversational, like a smart friend''))],
           pm_history = [growth_entry F 0 ''genesis (baby state)'' [] now], pm_persona = None,
           pm_created_at = pfl F now, pm_updated_at = pfl F now\<rparr>)"

text \<open>The moves are computed from the traits as they are, then written back.\<close>

definition bounded_move :: "real \<Rightarrow> real \<Rightarrow> real" where
  "bounded_move v d = clamp01 (v + max (- GROWTH_RATE) (min GROWTH_RATE d))"

definition pending_moves :: "(string \<times> real) list \<Rightarrow> (string \<times> trait_state) list \<Rightarrow> (string \<times> real \<times> real) list" where
  "pending_moves deltas traits =
     concat (map (\<lambda>(t, d). case map_of traits t of
        None \<Rightarrow> []
      | Some st \<Rightarrow> [(t, bounded_move (tr_value st) d, py_round 6 (bounded_move (tr_value st) d - tr_value st))]) deltas)"

definition observe_trait :: "string \<Rightarrow> real \<Rightarrow> (string \<times> trait_state) list \<Rightarrow> (string \<times> trait_state) list" where
  "observe_trait t v traits =
     map (\<lambda>(k, st). (k, if k = t then st\<lparr>tr_evidence := tr_evidence st + 1,
        tr_confidence := min 1 (tr_confidence st + 1/10), tr_value := v\<rparr> else st)) traits"

definition stamp_traits :: "int \<Rightarrow> string list \<Rightarrow> (string \<times> trait_state) list \<Rightarrow> (string \<times> trait_state) list" where
  "stamp_traits gen ts traits = map (\<lambda>(k, st). (k, if k \<in> set ts then st\<lparr>tr_last_gen := gen\<rparr> else st)) traits"

definition apply_delta :: "floats \<Rightarrow> real \<Rightarrow> string \<Rightarrow> (string \<times> real) list \<Rightarrow> personality \<Rightarrow> personality \<times> (string \<times> real) list" where
  "apply_delta F now note deltas pm =
     (let pending = pending_moves deltas (pm_traits pm);
          traits = fold (\<lambda>(t, v, _). observe_trait t v) pending (pm_traits pm);
          applied = map (\<lambda>(t, _, mv). (t, mv)) (filter (\<lambda>(_, _, mv). mv \<noteq> 0) pending);
          gen = pm_generation pm + 1
      in if applied = [] then (pm\<lparr>pm_traits := traits\<rparr>, [])
         else (pm\<lparr>pm_generation := gen, pm_updated_at := pfl F now, pm_traits := stamp_traits gen (map fst applied) traits,
                  pm_history := pm_history pm @ [growth_entry F gen note applied now]\<rparr>, applied))"

record model_diff =
  md_from_gen :: int
  md_to_gen :: int
  md_deltas :: "(string \<times> real) list"
  md_drift :: real
  md_policy_violation :: bool

definition trait_deltas :: "personality \<Rightarrow> personality \<Rightarrow> (string \<times> real) list" where
  "trait_deltas a b =
     concat (map (\<lambda>(t, st). case map_of (pm_traits b) t of None \<Rightarrow> [] | Some st' \<Rightarrow> [(t, py_round 6 (tr_value st' - tr_value st))]) (pm_traits a))"

definition personality_diff :: "floats \<Rightarrow> personality \<Rightarrow> personality \<Rightarrow> model_diff" where
  "personality_diff F a b =
     (let ds = trait_deltas a b;
          drift = (if ds = [] then 0 else sqrt (sum_list (map (\<lambda>(_, d). d * d) ds) / of_nat (length ds)))
      in \<lparr>md_from_gen = pm_generation a, md_to_gen = pm_generation b, md_deltas = ds, md_drift = py_round 6 drift,
          md_policy_violation = (\<not> py_eq F (pm_policy a) (pm_policy b))\<rparr>)"

definition compare_models :: "floats \<Rightarrow> personality \<Rightarrow> personality \<Rightarrow> py_exn + model_diff" where
  "compare_models F a b = (if \<not> py_eq F (pm_name a) (pm_name b) then Inl ValueErr else Inr (personality_diff F a b))"

subsection \<open>Persistence\<close>

definition trait_to_dict :: "floats \<Rightarrow> trait_state \<Rightarrow> pydict" where
  "trait_to_dict F s = [(''value'', pfl F (tr_value s)), (''confidence'', pfl F (tr_confidence s)),
     (''evidence_count'', PInt (tr_evidence s)), (''last_gen'', PInt (tr_last_gen s))]"

definition personality_to_dict :: "floats \<Rightarrow> personality \<Rightarrow> pydict" where
  "personality_to_dict F pm =
     [(''name'', pm_name pm), (''generation'', PInt (pm_generation pm)), (''policy'', pm_policy pm),
      (''traits'', PDict (map (\<lambda>(t, s). (t, PDict (trait_to_dict F s))) (pm_traits pm))),
      (''voice'', PDict (pm_voice pm)), (''history'', PList (pm_history pm)),
      (''persona'', (case pm_persona pm of None \<Rightarrow> PNone | Some d \<Rightarrow> PDict d)),
      (''created_at'', pm_created_at pm), (''updated_at'', pm_updated_at pm)]"

definition trait_from_dict :: "floats \<Rightarrow> pyval \<Rightarrow> py_exn + trait_state" where
  "trait_from_dict F v =
     (case v of PDict d \<Rightarrow>
        (case py_float F (dget_default d ''value'' (PFloat ''0.5'')) of Inl x \<Rightarrow> Inl x | Inr val \<Rightarrow>
         case py_float F (dget_default d ''confidence'' (PFloat ''0.0'')) of Inl x \<Rightarrow> Inl x | Inr conf \<Rightarrow>
         case py_int (dget_default d ''evidence_count'' (PInt 0)) of Inl x \<Rightarrow> Inl x | Inr n \<Rightarrow>
         case py_int (dget_default d ''last_gen'' (PInt 0)) of Inl x \<Rightarrow> Inl x | Inr g \<Rightarrow>
         Inr (new_trait val conf n g))
      | _ \<Rightarrow> Inl AttributeErr)"

fun traits_from_dict :: "floats \<Rightarrow> pydict \<Rightarrow> py_exn + (string \<times> trait_state) list" where
  "traits_from_dict F [] = Inr []"
| "traits_from_dict F ((t, v) # d) =
     (case trait_from_dict F v of Inl x \<Rightarrow> Inl x | Inr s \<Rightarrow>
      case traits_from_dict F d of Inl x \<Rightarrow> Inl x | Inr ts \<Rightarrow> Inr ((t, s) # ts))"

text \<open>\<open>dict(v or {})\<close>. A sequence must consist of pairs (a two-character text is one); keys that are not text are outside
  \<open>pydict\<close> and are refused here like unhashable ones.\<close>

fun pair_of :: "pyval list \<Rightarrow> py_exn + string \<times> pyval" where
  "pair_of [PStr k, v] = Inr (k, v)"
| "pair_of [_, _] = Inl TypeErr"
| "pair_of _ = Inl ValueErr"

fun pairs_dict :: "pyval list \<Rightarrow> pydict \<Rightarrow> py_exn + pydict" where
  "pairs_dict [] d = Inr d"
| "pairs_dict (v # vs) d =
     (case py_iter v of Inl x \<Rightarrow> Inl x | Inr xs \<Rightarrow>
      case pair_of xs of Inl x \<Rightarrow> Inl x | Inr (k, u) \<Rightarrow> pairs_dict vs (dset k u d))"

definition dict_or_empty :: "pyval \<Rightarrow> py_exn + pydict" where
  "dict_or_empty v =
     (if \<not> truthy v then Inr []
      else case v of PDict d \<Rightarrow> Inr d
        | _ \<Rightarrow> (case py_iter v of Inl x \<Rightarrow> Inl x | Inr xs \<Rightarrow> pairs_dict xs []))"

text \<open>The body of the \<open>try\<close>; \<open>now\<close> replaces a missing time.\<close>

definition personality_body :: "floats \<Rightarrow> real \<Rightarrow> pyval \<Rightarrow> py_exn + personality" where
  "personality_body F now data =
     (case data of PDict d \<Rightarrow>
        (case map_of d ''traits'' of None \<Rightarrow> Inl KeyErr | Some raw \<Rightarrow>
         case map_of d ''policy'' of None \<Rightarrow> Inl KeyErr | Some policy \<Rightarrow>
         case raw of PDict trd \<Rightarrow>
           (case traits_from_dict F trd of Inl x \<Rightarrow> Inl x | Inr traits \<Rightarrow>
            case list_or_empty (dget d ''history'') of Inl x \<Rightarrow> Inl x | Inr history \<Rightarrow>
            case dict_or_empty (dget d ''voice'') of Inl x \<Rightarrow> Inl x | Inr voice \<Rightarrow>
            case dict_or_empty (dget d ''persona'') of Inl x \<Rightarrow> Inl x | Inr persona \<Rightarrow>
            case py_int (dget_default d ''generation'' (PInt 0)) of Inl x \<Rightarrow> Inl x | Inr gen \<Rightarrow>
            Inr \<lparr>pm_name = dget_default d ''name'' (PStr ''Shugo''), pm_generation = gen, pm_policy = policy, pm_traits = traits,
                 pm_voice = voice, pm_history = history, pm_persona = (if persona = [] then None else Some persona),
                 pm_created_at = (if dget d ''created_at'' = PNone then pfl F now else dget d ''created_at''),
                 pm_updated_at = (if dget d ''updated_at'' = PNone then pfl F now else dget d ''updated_at'')\<rparr>)
         | _ \<Rightarrow> Inl AttributeErr)
      | _ \<Rightarrow> Inl TypeErr)"

definition personality_from_dict :: "floats \<Rightarrow> real \<Rightarrow> pyval \<Rightarrow> py_exn + personality option" where
  "personality_from_dict F now data =
     (case personality_body F now data of
        Inr pm \<Rightarrow> Inr (Some pm)
      | Inl x \<Rightarrow> if x \<in> {KeyErr, TypeErr, AttributeErr} then Inr None else Inl x)"

definition personality_load :: "floats \<Rightarrow> real \<Rightarrow> pyval option \<Rightarrow> py_exn + personality option" where
  "personality_load F now file = (case file of None \<Rightarrow> Inr None | Some data \<Rightarrow> personality_from_dict F now data)"

subsection \<open>Rendering\<close>

definition TRAIT_PHRASES :: "(string \<times> string \<times> string \<times> string) list" where
  "TRAIT_PHRASES =
     [(''warmth'', ''reserved but kind'', ''kind but measured'', ''genuinely warm and caring''),
      (''humor'', ''serious in tone'', ''occasionally witty'', ''quick with dry humor''),
      (''curiosity'', ''content to listen'', ''curious about the user'', ''deeply curious, asks follow-up questions''),
      (''verbosity'', ''concise by nature'', ''balanced in length'', ''expressive and expansive''),
      (''formality'', ''casual, like a smart friend'', ''relaxed but polite'', ''proper and formal''),
      (''proactivity'', ''reactive, waits to be asked'', ''helpful when asked'', ''proactive, offers help unprompted'')]"

definition bucket :: "real \<Rightarrow> nat" where
  "bucket v = (if v < 4/10 then 0 else if v < 7/10 then 1 else 2)"

definition trait_text :: "floats \<Rightarrow> string \<Rightarrow> trait_state \<Rightarrow> string" where
  "trait_text F t s =
     (case map_of TRAIT_PHRASES t of
        Some (a, b, c) \<Rightarrow> [a, b, c] ! bucket (tr_value s)
      | None \<Rightarrow> t @ '' '' @ fl_fmt2 F (tr_value s))"

definition as_profile :: "floats \<Rightarrow> personality \<Rightarrow> py_exn + profile" where
  "as_profile F pm =
     (case map_of (pm_traits pm) ''formality'' of None \<Rightarrow> Inl KeyErr | Some formality \<Rightarrow>
      case py_int (dget_default (pm_voice pm) ''max_sentences'' (PInt 3)) of Inl x \<Rightarrow> Inl x | Inr n \<Rightarrow>
      case pm_policy pm of PDict pol \<Rightarrow>
        (case list_or_empty (dget pol ''never_say'') of Inl x \<Rightarrow> Inl x | Inr never \<Rightarrow>
         case dict_or_empty (dget pol ''boundaries'') of Inl x \<Rightarrow> Inl x | Inr boundaries \<Rightarrow>
         Inr \<lparr>pf_name = pm_name pm, pf_traits = map (\<lambda>(t, s). (t, PStr (trait_text F t s))) (pm_traits pm),
              pf_speech = [(''style'', dget_default (pm_voice pm) ''style'' (PStr ''conversational'')),
                (''formality'', PStr (if tr_value formality < 1/2 then ''casual'' else ''formal'')),
                (''max_sentences'', PInt n),
                (''first_person'', PBool (truthy (dget_default pol ''first_person'' (PBool True)))),
                (''never_say'', PList never),
                (''greeting'', PStr (py_str (py_or (dget pol ''greeting'') (PStr DEFAULT_GREETING)))),
                (''offer'', PStr (py_str (py_or (dget pol ''offer'') (PStr DEFAULT_OFFER))))],
              pf_boundaries = boundaries, pf_proactivity = normalise_proactivity (dget pol ''proactivity'')\<rparr>)
      | _ \<Rightarrow> Inl AttributeErr)"

subsection \<open>Growth from what happened\<close>

text \<open>Each pattern matches finitely many texts; it is written as those of them that contain no other.\<close>

definition FEEDBACK_PATTERNS :: "(string \<times> string list list \<times> string list list) list" where
  "FEEDBACK_PATTERNS =
     [(''verbosity'',
        [[''more detail''], [''explain more''], [''go on''], [''tell me more''], [''longer answer''], [''in depth'']],
        [[''talk too much'', ''talking too much''], [''too long''], [''be brief'', ''be short'', ''be more brief'', ''be more short''],
         [''less detail''], [''stop rambling''], [''shorter answer'']]),
      (''humor'',
        [[''youre funny'', ''you'' @ apos @ ''re funny''], [''so funny''], [''love your jokes''], [''hilarious''],
         [''crack me up'', ''cracks me up'', ''cracking me up''], [''good one'', ''good joke'']],
        [[''not funny''], [''annoying''], [''cringe''], [''bad joke''], [''too silly'']]),
      (''warmth'',
        [[''thanks'', ''thank you''], [''youre the best'', ''you'' @ apos @ ''re the best''], [''love you''],
         [''appreciate you'', ''appreciate that''],
         [''youre sweet'', ''youre kind'', ''you'' @ apos @ ''re sweet'', ''you'' @ apos @ ''re kind'']],
        [[''you dont care'', ''you don'' @ apos @ ''t care'', ''you do not care''], [''s cold'', ''so cold''], [''rude''],
         [''youre heartless'', ''you'' @ apos @ ''re heartless'']])]"

definition pattern_hits :: "string list list \<Rightarrow> string \<Rightarrow> int" where
  "pattern_hits ps t = int (length (filter (list_ex (py_contains t)) ps))"

definition extract_feedback :: "string \<Rightarrow> (string \<times> int) list" where
  "extract_feedback transcript =
     (let t = py_lower transcript in
      if t = [] then []
      else filter (\<lambda>(_, n). n \<noteq> 0) (map (\<lambda>(tr, pos, neg). (tr, pattern_hits pos t - pattern_hits neg t)) FEEDBACK_PATTERNS))"

record growth_stats =
  gs_turns :: int
  gs_questions :: int
  gs_commands :: int
  gs_tool_runs :: int
  gs_tool_failures :: int
  gs_new_facts :: int
  gs_feedback :: "(string \<times> int) list"

text \<open>The calls of \<open>bump\<close>, in order.\<close>

definition growth_bumps :: "floats \<Rightarrow> growth_stats \<Rightarrow> (string \<times> real \<times> string) list" where
  "growth_bumps F s =
     (let turns = max 0 (gs_turns s); questions = max 0 (gs_questions s); commands = max 0 (gs_commands s);
          tool_runs = max 0 (gs_tool_runs s); tool_failures = max 0 (gs_tool_failures s); new_facts = max 0 (gs_new_facts s);
          q_ratio = real_of_int questions / real_of_int turns; command_ratio = real_of_int commands / real_of_int turns;
          fail_ratio = (if tool_runs = 0 then 0 else real_of_int tool_failures / real_of_int tool_runs)
      in (if q_ratio \<ge> 3/10 then [(''curiosity'', 8/100, ''questions '' @ fl_pct F q_ratio)] else []) @
         (if new_facts \<ge> 3 then [(''warmth'', 6/100, show_int new_facts @ '' facts shared'')]
          else if new_facts \<ge> 1 then [(''warmth'', 4/100, show_int new_facts @ '' fact(s) shared'')] else []) @
         (if turns \<ge> 20 then [(''warmth'', 5/100, ''long session ('' @ show_int turns @ '' turns)'')] else []) @
         (if command_ratio \<ge> 1/2 then [(''proactivity'', 5/100, ''commands '' @ fl_pct F command_ratio)] else []) @
         (if fail_ratio > 3/10 then [(''proactivity'', - 6/100, ''tool failures '' @ fl_pct F fail_ratio)] else []) @
         concat (map (\<lambda>(t, net).
           if net > 0 then [(t, min (1/10) (6/100 * real_of_int net), ''praised '' @ t)]
           else if net < 0 then [(t, max (- 1/10) (6/100 * real_of_int net), ''criticized '' @ t)] else []) (gs_feedback s)))"

definition sum_bumps :: "(string \<times> real \<times> string) list \<Rightarrow> (string \<times> real) list" where
  "sum_bumps bs = fold (\<lambda>(t, x, _) ds. AList.update t ((case map_of ds t of None \<Rightarrow> 0 | Some y \<Rightarrow> y) + x) ds) bs []"

definition synthesize_deltas :: "floats \<Rightarrow> growth_stats \<Rightarrow> (string \<times> real) list \<times> string" where
  "synthesize_deltas F s =
     (if max 0 (gs_turns s) = 0 then ([], [])
      else (map (\<lambda>(t, v). (t, py_round 4 v)) (filter (\<lambda>(_, v). v \<noteq> 0) (sum_bumps (growth_bumps F s))),
            join_sep ''; '' (map (\<lambda>(_, _, r). r) (growth_bumps F s))))"

record growth_report =
  gr_generation :: int
  gr_applied :: "(string \<times> real) list"
  gr_reasons :: string

definition grow_from_memory :: "floats \<Rightarrow> real \<Rightarrow> growth_stats \<Rightarrow> string \<Rightarrow> personality \<Rightarrow> personality \<times> growth_report option" where
  "grow_from_memory F now s note pm =
     (case synthesize_deltas F s of (deltas, reasons) \<Rightarrow>
        if deltas = [] then (pm, None)
        else case apply_delta F now (note @ '': '' @ reasons) deltas pm of
               (pm', applied) \<Rightarrow>
                 (pm', if applied = [] then None
                       else Some \<lparr>gr_generation = pm_generation pm', gr_applied = applied, gr_reasons = reasons\<rparr>))"

subsection \<open>Growth is gradual and leaves the perimeters alone\<close>

definition trait_ok :: "trait_state \<Rightarrow> bool" where
  "trait_ok s \<longleftrightarrow> 0 \<le> tr_value s \<and> tr_value s \<le> 1 \<and> 0 \<le> tr_confidence s \<and> tr_confidence s \<le> 1"

definition traits_ok :: "personality \<Rightarrow> bool" where
  "traits_ok pm = list_all (\<lambda>(_, s). trait_ok s) (pm_traits pm)"

definition trait_value :: "personality \<Rightarrow> string \<Rightarrow> real" where
  "trait_value pm t = (case map_of (pm_traits pm) t of None \<Rightarrow> 0 | Some s \<Rightarrow> tr_value s)"

datatype growth_op = Delta real string "(string \<times> real) list" | Memory real string growth_stats

fun growth_step :: "floats \<Rightarrow> growth_op \<Rightarrow> personality \<Rightarrow> personality" where
  "growth_step F (Delta now note deltas) pm = fst (apply_delta F now note deltas pm)"
| "growth_step F (Memory now note s) pm = fst (grow_from_memory F now s note pm)"

text \<open>What \<open>n\<close> growths may do to a model.\<close>

definition grown :: "nat \<Rightarrow> personality \<Rightarrow> personality \<Rightarrow> bool" where
  "grown n a b \<longleftrightarrow>
     traits_ok b \<and> pm_policy b = pm_policy a \<and> pm_name b = pm_name a \<and> pm_voice b = pm_voice a \<and> pm_persona b = pm_persona a \<and>
     map fst (pm_traits b) = map fst (pm_traits a) \<and>
     (\<forall>t. \<bar>trait_value b t - trait_value a t\<bar> \<le> real n * GROWTH_RATE) \<and>
     pm_generation a \<le> pm_generation b \<and> pm_generation b \<le> pm_generation a + int n \<and>
     (\<exists>es. pm_history b = pm_history a @ es \<and>
        map (\<lambda>e. dget (as_dict e) ''gen'') es = map PInt [pm_generation a + 1 .. pm_generation b])"

lemma observe_frame [simp]:
  "map fst (observe_trait t v ts) = map fst ts"
  "map_of (observe_trait t v ts) k =
     map_option (\<lambda>s. if k = t then s\<lparr>tr_evidence := tr_evidence s + 1, tr_confidence := min 1 (tr_confidence s + 1/10), tr_value := v\<rparr> else s)
       (map_of ts k)"
  by (induction ts) (auto simp: observe_trait_def)

lemma stamp_frame [simp]:
  "map fst (stamp_traits g us ts) = map fst ts"
  "map_of (stamp_traits g us ts) k = map_option (\<lambda>s. if k \<in> set us then s\<lparr>tr_last_gen := g\<rparr> else s) (map_of ts k)"
  by (induction ts) (auto simp: stamp_traits_def)

lemma stamp_ok [simp]: "list_all (\<lambda>(_, s). trait_ok s) (stamp_traits g us ts) = list_all (\<lambda>(_, s). trait_ok s) ts"
  by (induction ts) (auto simp: stamp_traits_def trait_ok_def split: if_splits)

lemma observe_ok:
  "list_all (\<lambda>(_, s). trait_ok s) ts \<Longrightarrow> 0 \<le> v \<Longrightarrow> v \<le> 1 \<Longrightarrow> list_all (\<lambda>(_, s). trait_ok s) (observe_trait t v ts)"
  by (induction ts) (auto simp: observe_trait_def trait_ok_def)

lemma clamp01_range [simp]: "0 \<le> clamp01 x" "clamp01 x \<le> 1"
  by (auto simp: clamp01_def)

lemma bounded_move_near: "0 \<le> v \<Longrightarrow> v \<le> 1 \<Longrightarrow> \<bar>bounded_move v d - v\<bar> \<le> GROWTH_RATE"
  by (auto simp: bounded_move_def clamp01_def GROWTH_RATE_def abs_real_def max_def min_def)

lemma pending_from:
  "(t, v, mv) \<in> set (pending_moves ds ts) \<Longrightarrow> \<exists>s d. map_of ts t = Some s \<and> v = bounded_move (tr_value s) d"
  by (auto simp: pending_moves_def split: option.splits) (metis option.inject)

lemma fold_observe:
  "map fst (fold (\<lambda>(t, v, _). observe_trait t v) ps ts) = map fst ts"
  "map_of ts k = Some s \<Longrightarrow> \<exists>s'. map_of (fold (\<lambda>(t, v, _). observe_trait t v) ps ts) k = Some s' \<and>
     (tr_value s' = tr_value s \<or> (\<exists>v mv. (k, v, mv) \<in> set ps \<and> tr_value s' = v))"
proof (induction ps arbitrary: ts s)
  case (Cons p ps)
  obtain t v mv where p: "p = (t, v, mv)" by (cases p)
  { case 1 show ?case by (simp add: p Cons.IH(1)) }
  { case 2
    then have "map_of (observe_trait t v ts) k =
        Some (if k = t then s\<lparr>tr_evidence := tr_evidence s + 1, tr_confidence := min 1 (tr_confidence s + 1/10), tr_value := v\<rparr> else s)"
      by simp
    from Cons.IH(2) [OF this] show ?case by (auto simp: p split: if_splits) }
qed auto

lemma fold_observe_ok:
  "list_all (\<lambda>(_, s). trait_ok s) ts \<Longrightarrow> (\<And>t v mv. (t, v, mv) \<in> set ps \<Longrightarrow> 0 \<le> v \<and> v \<le> 1) \<Longrightarrow>
   list_all (\<lambda>(_, s). trait_ok s) (fold (\<lambda>(t, v, _). observe_trait t v) ps ts)"
proof (induction ps arbitrary: ts)
  case (Cons p ps)
  obtain t v mv where p: "p = (t, v, mv)" by (cases p)
  have v: "0 \<le> v" "v \<le> 1" using Cons.prems(2) [of t v mv] by (simp_all add: p)
  show ?case
    using Cons.IH [OF observe_ok [OF Cons.prems(1) v, of t]] Cons.prems(2) by (auto simp: p)
qed simp

text \<open>The traits after one delta: the same names, in range, each within the growth rate.\<close>

lemma delta_traits:
  assumes "list_all (\<lambda>(_, s). trait_ok s) ts"
    and ts': "ts' = fold (\<lambda>(t, v, _). observe_trait t v) (pending_moves ds ts) ts"
  shows "list_all (\<lambda>(_, s). trait_ok s) ts'" and "map fst ts' = map fst ts"
    and "map_of ts k = Some s \<Longrightarrow> \<exists>s'. map_of ts' k = Some s' \<and> \<bar>tr_value s' - tr_value s\<bar> \<le> GROWTH_RATE"
proof -
  show "list_all (\<lambda>(_, s). trait_ok s) ts'"
    unfolding ts' by (rule fold_observe_ok [OF assms(1)]) (auto dest!: pending_from simp: bounded_move_def)
  show "map fst ts' = map fst ts"
    unfolding ts' by (rule fold_observe)
  assume k: "map_of ts k = Some s"
  have "trait_ok s"
    using assms(1) map_of_SomeD [OF k] by (auto simp: list_all_iff)
  then have near: "\<And>d. \<bar>bounded_move (tr_value s) d - tr_value s\<bar> \<le> GROWTH_RATE"
    by (auto simp: trait_ok_def intro: bounded_move_near)
  obtain s' where s': "map_of ts' k = Some s'"
      and or: "tr_value s' = tr_value s \<or> (\<exists>v mv. (k, v, mv) \<in> set (pending_moves ds ts) \<and> tr_value s' = v)"
    using fold_observe(2) [OF k, of "pending_moves ds ts"] unfolding ts' by blast
  from or have "\<bar>tr_value s' - tr_value s\<bar> \<le> GROWTH_RATE"
    using k near by (auto dest!: pending_from simp: GROWTH_RATE_def)
  with s' show "\<exists>s'. map_of ts' k = Some s' \<and> \<bar>tr_value s' - tr_value s\<bar> \<le> GROWTH_RATE" by blast
qed

lemma value_near:
  assumes "map fst b = map fst a"
    and "\<And>s. map_of a k = Some s \<Longrightarrow> \<exists>s'. map_of b k = Some s' \<and> \<bar>tr_value s' - tr_value s\<bar> \<le> r" and "0 \<le> r"
  shows "\<bar>(case map_of b k of None \<Rightarrow> 0 | Some s \<Rightarrow> tr_value s) - (case map_of a k of None \<Rightarrow> 0 | Some s \<Rightarrow> tr_value s)\<bar> \<le> r"
proof (cases "map_of a k")
  case None
  then have "map_of b k = None" using assms(1) by (metis list.set_map map_of_eq_None_iff)
  then show ?thesis using None assms(3) by simp
next
  case (Some s)
  then show ?thesis using assms(2) by force
qed

lemma apply_delta_cases:
  obtains (still) "fst (apply_delta F now note ds pm) =
      pm\<lparr>pm_traits := fold (\<lambda>(t, v, _). observe_trait t v) (pending_moves ds (pm_traits pm)) (pm_traits pm)\<rparr>"
      "snd (apply_delta F now note ds pm) = []"
  | (moved) us applied where "fst (apply_delta F now note ds pm) =
      pm\<lparr>pm_generation := pm_generation pm + 1, pm_updated_at := pfl F now,
         pm_traits := stamp_traits (pm_generation pm + 1) us (fold (\<lambda>(t, v, _). observe_trait t v) (pending_moves ds (pm_traits pm)) (pm_traits pm)),
         pm_history := pm_history pm @ [growth_entry F (pm_generation pm + 1) note applied now]\<rparr>"
      "snd (apply_delta F now note ds pm) = applied" "applied \<noteq> []"
proof (cases "snd (apply_delta F now note ds pm) = []")
  case True
  then show thesis by (intro still) (simp_all add: apply_delta_def Let_def split: if_splits)
next
  case False
  then show thesis
    by (intro moved [where applied = "snd (apply_delta F now note ds pm)" and us = "map fst (snd (apply_delta F now note ds pm))"])
      (simp_all add: apply_delta_def Let_def split: if_splits)
qed

lemma stamped_near:
  assumes "\<exists>s'. map_of ts k = Some s' \<and> \<bar>tr_value s' - x\<bar> \<le> r"
  shows "\<exists>s'. map_of (stamp_traits g us ts) k = Some s' \<and> \<bar>tr_value s' - x\<bar> \<le> r"
  using assms by (cases "k \<in> set us") auto

lemma grown_delta:
  assumes "traits_ok pm"
  shows "grown 1 pm (fst (apply_delta F now label ds pm))"
proof -
  define ts where "ts = fold (\<lambda>(t, v, _). observe_trait t v) (pending_moves ds (pm_traits pm)) (pm_traits pm)"
  note traits = delta_traits [OF assms [unfolded traits_ok_def] ts_def]
  have rate: "0 \<le> GROWTH_RATE" by (simp add: GROWTH_RATE_def)
  show ?thesis
  proof (cases rule: apply_delta_cases [of F now label ds pm])
    case still
    have "\<bar>trait_value (fst (apply_delta F now label ds pm)) k - trait_value pm k\<bar> \<le> GROWTH_RATE" for k
      unfolding still(1) ts_def [symmetric] trait_value_def
      by simp (rule value_near [OF traits(2) traits(3) rate])
    then show ?thesis
      using traits(1,2) by (simp add: grown_def still(1) ts_def [symmetric] traits_ok_def)
  next
    case (moved us applied)
    have "pm_traits (fst (apply_delta F now label ds pm)) = stamp_traits (pm_generation pm + 1) us ts"
      by (simp add: moved(1) ts_def)
    then have "\<bar>trait_value (fst (apply_delta F now label ds pm)) k - trait_value pm k\<bar> \<le> GROWTH_RATE" for k
      unfolding trait_value_def by (simp only:) (rule value_near [OF _ stamped_near rate], simp_all add: traits)
    then show ?thesis
      unfolding grown_def using traits(1,2)
      by (simp add: moved(1) ts_def [symmetric] traits_ok_def growth_entry_def dget_def)
  qed
qed

lemma grown_refl: "traits_ok pm \<Longrightarrow> grown n pm pm"
  by (simp add: grown_def GROWTH_RATE_def)

lemma upto_join: "a \<le> b \<Longrightarrow> b \<le> c \<Longrightarrow> [a + 1..b] @ [b + 1..c] = [a + 1..(c :: int)]"
  by (cases "a = b") (auto simp: upto_split2 [of "a + 1" b c])

lemma grown_trans:
  assumes "grown m a b" "grown n b c"
  shows "grown (m + n) a c"
proof -
  obtain es fs where es: "pm_history b = pm_history a @ es"
      "map (\<lambda>e. dget (as_dict e) ''gen'') es = map PInt [pm_generation a + 1 .. pm_generation b]"
    and fs: "pm_history c = pm_history b @ fs"
      "map (\<lambda>e. dget (as_dict e) ''gen'') fs = map PInt [pm_generation b + 1 .. pm_generation c]"
    using assms unfolding grown_def by blast
  have gens: "pm_generation a \<le> pm_generation b" "pm_generation b \<le> pm_generation c"
    using assms by (simp_all add: grown_def)
  have "map (\<lambda>e. dget (as_dict e) ''gen'') (es @ fs) = map PInt [pm_generation a + 1 .. pm_generation c]"
    unfolding upto_join [OF gens, symmetric] map_append es(2) fs(2) ..
  moreover have "\<bar>trait_value c t - trait_value a t\<bar> \<le> real (m + n) * GROWTH_RATE" for t
  proof -
    have "\<bar>trait_value b t - trait_value a t\<bar> \<le> real m * GROWTH_RATE" "\<bar>trait_value c t - trait_value b t\<bar> \<le> real n * GROWTH_RATE"
      using assms unfolding grown_def by blast+
    then show ?thesis by (simp add: distrib_right)
  qed
  ultimately show ?thesis
    using assms es(1) fs(1) unfolding grown_def by (auto intro: exI [of _ "es @ fs"])
qed

lemma growth_from_memory_cases:
  "fst (grow_from_memory F now s note pm) = pm \<or>
   (\<exists>ds note'. fst (grow_from_memory F now s note pm) = fst (apply_delta F now note' ds pm))"
  by (auto simp: grow_from_memory_def split: prod.splits) (metis fst_conv)

lemma grown_step: "traits_ok pm \<Longrightarrow> grown 1 pm (growth_step F p pm)"
proof (cases p)
  case (Memory now label s)
  assume ok: "traits_ok pm"
  show ?thesis
    using growth_from_memory_cases [of F now s label pm] grown_refl [OF ok] grown_delta [OF ok] by (auto simp: Memory)
qed (simp add: grown_delta del: One_nat_def)

interpretation growth: invariant_machine "growth_step F" traits_ok
  by unfold_locales (use grown_step in \<open>auto simp: grown_def\<close>)

lemma grown_run: "traits_ok pm \<Longrightarrow> grown (length ps) pm (run_ops (growth_step F) ps pm)"
proof (induction ps arbitrary: pm)
  case (Cons p ps)
  have "grown (1 + length ps) pm (run_ops (growth_step F) ps (growth_step F p pm))"
    using grown_trans [OF grown_step [OF Cons.prems] Cons.IH [OF growth.inv_apply [OF Cons.prems]]] .
  then show ?case by simp
qed (simp add: grown_refl)

lemma list_or_empty_list [simp]: "list_or_empty (PList xs) = Inr xs"
  by (simp add: list_or_empty_def)

lemma dict_or_empty_dict [simp]: "dict_or_empty (PDict d) = Inr d"
  by (simp add: dict_or_empty_def)

text \<open>C20: Growth is gradual and cannot rewrite the perimeters. After any sequence of growths (deltas of any size for any trait
  names, or growth from memory) the name, the frozen policy, the voice and the persona record are what they were; the same
  traits exist, each in [0,1] and moved by at most \<open>GROWTH_RATE\<close> per growth; and the history has been extended by one entry per
  generation, numbered consecutively up to the current one.\<close>

theorem growth_is_gradual:
  assumes "traits_ok pm" and b: "b = run_ops (growth_step F) ops pm"
  shows "traits_ok b \<and> pm_policy b = pm_policy pm \<and> pm_name b = pm_name pm \<and> pm_voice b = pm_voice pm \<and>
    pm_persona b = pm_persona pm \<and> map fst (pm_traits b) = map fst (pm_traits pm) \<and>
    (\<forall>t. \<bar>trait_value b t - trait_value pm t\<bar> \<le> real (length ops) * GROWTH_RATE) \<and>
    pm_generation b \<le> pm_generation pm + int (length ops) \<and>
    (\<exists>es. pm_history b = pm_history pm @ es \<and>
       map (\<lambda>e. dget (as_dict e) ''gen'') es = map PInt [pm_generation pm + 1 .. pm_generation b])"
  using grown_run [OF assms(1), of ops F] unfolding b grown_def by simp

definition plain_floats :: floats where
  "plain_floats = \<lparr>fl_repr = (\<lambda>x. if x = 0 then ''0.0'' else if x = 1/2 then ''0.5'' else if x = 4/10 then ''0.4'' else if x = 3/10 then ''0.3'' else ''0.1''),
     fl_value = (\<lambda>s. if s = ''0.0'' then 0 else if s = ''0.5'' then 1/2 else if s = ''0.4'' then 4/10 else if s = ''0.3'' then 3/10 else 1/10),
     fl_parse = (\<lambda>_. None), fl_fmt2 = (\<lambda>_. ''0.50''), fl_pct = (\<lambda>_. ''50%'')\<rparr>"

definition born :: personality where
  "born = (case genesis plain_floats 0 default_profile of Inr pm \<Rightarrow> pm)"

lemma born_alive: "genesis plain_floats 0 default_profile = Inr born"
  by (simp add: born_def genesis_def extract_policy_def default_profile_def dget_def dget_default_def)

lemmas newborn_defs = genesis_def new_trait_def BASELINE_TRAITS_def clamp01_def

lemma genesis_traits_ok: "genesis F now p = Inr pm \<Longrightarrow> traits_ok pm"
  by (auto simp: newborn_defs traits_ok_def trait_ok_def split: sum.splits)

lemma genesis_traits: "genesis F now p = Inr pm \<Longrightarrow> pm_traits pm = map (\<lambda>(t, v). (t, new_trait v 0 0 0)) BASELINE_TRAITS"
  by (auto simp: genesis_def split: sum.splits)

lemma genesis_meta:
  "genesis F now p = Inr pm \<Longrightarrow> pm_persona pm = None \<and> pm_created_at pm = pfl F now \<and> pm_updated_at pm = pfl F now \<and> pm_generation pm = 0"
  by (auto simp: genesis_def split: sum.splits)

lemma genesis_voice:
  "genesis F now p = Inr pm \<Longrightarrow> \<exists>n. py_int (dget_default (pf_speech p) ''max_sentences'' (PInt 3)) = Inr n \<and>
     dget_default (pm_voice pm) ''max_sentences'' (PInt 3) = PInt n"
  by (auto simp: genesis_def dget_default_def [of "_ # _"] split: sum.splits)

lemma genesis_policy:
  "genesis F now p = Inr pm \<Longrightarrow> \<exists>pol. extract_policy p = Inr pol \<and> pm_policy pm = PDict pol \<and> pm_name pm = pf_name p"
  by (auto simp: genesis_def split: sum.splits)

theorem growth_is_gradual_witness:
  "trait_value (run_ops (growth_step plain_floats) [Delta 1 ''x'' [(''warmth'', 5), (''greed'', 1)], Delta 2 ''y'' [(''humor'', - 5)]] born) ''warmth'' \<le> 7/10"
proof -
  define b where "b = run_ops (growth_step plain_floats) [Delta 1 ''x'' [(''warmth'', 5), (''greed'', 1)], Delta 2 ''y'' [(''humor'', - 5)]] born"
  have "trait_value born ''warmth'' = 1/2"
    by (simp add: trait_value_def genesis_traits [OF born_alive] BASELINE_TRAITS_def new_trait_def clamp01_def)
  moreover have "\<bar>trait_value b ''warmth'' - trait_value born ''warmth''\<bar> \<le> real 2 * GROWTH_RATE"
    using growth_is_gradual [OF genesis_traits_ok [OF born_alive] b_def] by simp
  ultimately have "trait_value b ''warmth'' \<le> 7/10"
    unfolding GROWTH_RATE_def by linarith
  then show ?thesis unfolding b_def .
qed

subsection \<open>What the operator set survives\<close>

lemma normalise_idem: "normalise_proactivity (PDict (normalise_proactivity v)) = normalise_proactivity v"
  by (simp add: normalise_proactivity_def PROACTIVITY_DEFAULTS_def dget_default_def)

definition worded :: "profile \<Rightarrow> string \<Rightarrow> string \<Rightarrow> bool" where
  "worded p k s \<longleftrightarrow> dget (pf_speech p) k = PStr s \<and> s \<noteq> []"

lemma formality_baseline: "''formality'' \<in> set (map fst (map (\<lambda>(t, v). (t, new_trait v 0 0 0)) BASELINE_TRAITS))"
  by (simp add: BASELINE_TRAITS_def)

text \<open>The operator's settings survive genesis, growth and rendering. A model born from a configuration and grown in any way
  renders to a profile with the configured name, boundaries, forbidden phrases, first person, sentence limit, style and
  wordings, and with exactly the permissions for unprompted speech that were configured.\<close>

theorem configuration_survives_growth:
  assumes born: "genesis F now p = Inr pm"
  shows "\<exists>q never n. as_profile F (run_ops (growth_step F) ops pm) = Inr q \<and>
    pf_name q = pf_name p \<and> pf_boundaries q = pf_boundaries p \<and>
    pf_proactivity q = normalise_proactivity (PDict (pf_proactivity p)) \<and>
    list_or_empty (dget (pf_speech p) ''never_say'') = Inr never \<and> dget (pf_speech q) ''never_say'' = PList never \<and>
    py_int (dget_default (pf_speech p) ''max_sentences'' (PInt 3)) = Inr n \<and> dget (pf_speech q) ''max_sentences'' = PInt n \<and>
    dget (pf_speech q) ''first_person'' = PBool (truthy (dget_default (pf_speech p) ''first_person'' (PBool True))) \<and>
    (\<forall>s. worded p ''greeting'' s \<longrightarrow> worded q ''greeting'' s) \<and> (\<forall>s. worded p ''offer'' s \<longrightarrow> worded q ''offer'' s)"
proof -
  define b where "b = run_ops (growth_step F) ops pm"
  have same: "pm_policy b = pm_policy pm" "pm_name b = pm_name pm" "pm_voice b = pm_voice pm"
      "map fst (pm_traits b) = map fst (pm_traits pm)"
    using grown_run [OF genesis_traits_ok [OF born], of ops F] by (simp_all add: b_def grown_def)
  have "''formality'' \<in> fst ` set (pm_traits b)"
    using same(4) genesis_traits [OF born] by (metis (no_types) formality_baseline list.set_map)
  then obtain f where f: "map_of (pm_traits b) ''formality'' = Some f"
    by (metis map_of_eq_None_iff not_None_eq)
  obtain never n where never: "list_or_empty (dget (pf_speech p) ''never_say'') = Inr never"
      and n: "py_int (dget_default (pf_speech p) ''max_sentences'' (PInt 3)) = Inr n"
    using born by (auto simp: genesis_def extract_policy_def split: sum.splits)
  show ?thesis
    unfolding b_def [symmetric] as_profile_def f same
    using born never n
    by (auto simp: genesis_def extract_policy_def dget_def dget_default_def normalise_idem worded_def py_or_def)
qed

theorem configuration_survives_growth_witness:
  "\<exists>q. as_profile plain_floats (run_ops (growth_step plain_floats) [Delta 1 ''x'' [(''formality'', 1)]] born) = Inr q \<and>
     dget (pf_proactivity q) ''offer_help'' = PBool False \<and> worded q ''greeting'' DEFAULT_GREETING"
proof -
  have "worded default_profile ''greeting'' DEFAULT_GREETING"
    by (simp add: worded_def default_profile_def dget_def DEFAULT_GREETING_def)
  moreover have "dget (normalise_proactivity (PDict (pf_proactivity default_profile))) ''offer_help'' = PBool False"
    by (simp add: default_profile_def normalise_proactivity_def PROACTIVITY_DEFAULTS_def dget_def dget_default_def)
  ultimately show ?thesis
    using configuration_survives_growth [OF born_alive, of "[Delta 1 ''x'' [(''formality'', 1)]]"] by metis
qed

subsection \<open>Persistence and comparison\<close>

definition exact_floats :: "floats \<Rightarrow> personality \<Rightarrow> bool" where
  "exact_floats F pm = list_all (\<lambda>(_, s). fl_value F (fl_repr F (tr_value s)) = tr_value s \<and>
     fl_value F (fl_repr F (tr_confidence s)) = tr_confidence s) (pm_traits pm)"

lemma trait_roundtrip:
  "trait_ok s \<Longrightarrow> fl_value F (fl_repr F (tr_value s)) = tr_value s \<Longrightarrow> fl_value F (fl_repr F (tr_confidence s)) = tr_confidence s \<Longrightarrow>
   trait_from_dict F (PDict (trait_to_dict F s)) = Inr s"
  by (simp add: trait_from_dict_def trait_to_dict_def dget_default_def pfl_def new_trait_def clamp01_def trait_ok_def)

lemma traits_roundtrip:
  "list_all (\<lambda>(_, s). trait_ok s) ts \<Longrightarrow>
   list_all (\<lambda>(_, s). fl_value F (fl_repr F (tr_value s)) = tr_value s \<and> fl_value F (fl_repr F (tr_confidence s)) = tr_confidence s) ts \<Longrightarrow>
   traits_from_dict F (map (\<lambda>(t, s). (t, PDict (trait_to_dict F s))) ts) = Inr ts"
  by (induction ts) (auto simp: trait_roundtrip)

text \<open>A saved model loads as the model that was saved, given that the float texts of its trait values read back as the same
  numbers (Python's \<open>repr\<close>), that its values are in range and that its times and its persona record, if any, are set.\<close>

theorem personality_roundtrip:
  assumes "traits_ok pm" "exact_floats F pm" "pm_persona pm \<noteq> Some []"
    "pm_created_at pm \<noteq> PNone" "pm_updated_at pm \<noteq> PNone"
  shows "personality_load F now (Some (PDict (personality_to_dict F pm))) = Inr (Some pm)"
proof -
  have "traits_from_dict F (map (\<lambda>(t, s). (t, PDict (trait_to_dict F s))) (pm_traits pm)) = Inr (pm_traits pm)"
    using assms(1,2) traits_roundtrip unfolding traits_ok_def exact_floats_def by blast
  then have "personality_body F now (PDict (personality_to_dict F pm)) = Inr pm"
    using assms(3-5) by (cases "pm_persona pm")
      (auto simp: personality_body_def personality_to_dict_def dget_def dget_default_def dict_or_empty_def)
  then show ?thesis by (simp add: personality_load_def personality_from_dict_def)
qed

theorem personality_roundtrip_witness:
  "personality_load plain_floats 7 (Some (PDict (personality_to_dict plain_floats born))) = Inr (Some born)"
proof (rule personality_roundtrip)
  show "traits_ok born" by (rule genesis_traits_ok [OF born_alive])
  show "exact_floats plain_floats born"
    by (simp add: exact_floats_def genesis_traits [OF born_alive] BASELINE_TRAITS_def new_trait_def clamp01_def plain_floats_def)
  show "pm_persona born \<noteq> Some []" "pm_created_at born \<noteq> PNone" "pm_updated_at born \<noteq> PNone"
    using genesis_meta [OF born_alive] by (simp_all add: pfl_def)
qed

text \<open>A damaged file is not always reported as absent: a trait value that is a text but no number makes loading raise
  \<open>ValueError\<close>, so the caller does not fall back to genesis; and a file with an empty trait table loads but cannot be rendered.\<close>

theorem damaged_model_raises:
  "fl_parse F ''high'' = None \<Longrightarrow>
   personality_load F now (Some (PDict [(''policy'', PDict []), (''traits'', PDict [(''warmth'', PDict [(''value'', PStr ''high'')])])])) = Inl ValueErr"
  "\<exists>pm. personality_load F now (Some (PDict [(''policy'', PDict []), (''traits'', PDict [])])) = Inr (Some pm) \<and> as_profile F pm = Inl KeyErr"
  by (simp_all add: personality_load_def personality_from_dict_def personality_body_def trait_from_dict_def dget_default_def
      dget_def list_or_empty_def dict_or_empty_def as_profile_def)

theorem damaged_model_raises_witness:
  "personality_load plain_floats 0 (Some (PDict [(''policy'', PDict []), (''traits'', PDict [(''warmth'', PDict [(''value'', PStr ''high'')])])])) = Inl ValueErr"
  by (rule damaged_model_raises(1)) (simp add: plain_floats_def)

text \<open>A text \<open>is cold\<close> about the weather counts as criticism of the character's warmth.\<close>

theorem weather_is_criticism: "extract_feedback ''It is cold outside'' = [(''warmth'', - 1)]"
  by code_simp

text \<open>Explicit criticism does not dominate: with a long session and shared facts the criticised trait still grows.\<close>

theorem criticism_outweighed:
  "fst (synthesize_deltas F \<lparr>gs_turns = 20, gs_questions = 0, gs_commands = 0, gs_tool_runs = 0, gs_tool_failures = 0,
     gs_new_facts = 3, gs_feedback = [(''warmth'', - 2)]\<rparr>) = [(''warmth'', 1/100)]"
  by (simp add: synthesize_deltas_def growth_bumps_def sum_bumps_def py_round_def round_even_def Let_def)

text \<open>A delta below the rounding of the record moves a trait without a generation, an entry or a report.\<close>

theorem small_drift_unrecorded:
  "let (pm, applied) = apply_delta F now nt [(''warmth'', 4 / 10 ^ 7)] born in
   trait_value pm ''warmth'' = trait_value born ''warmth'' + 4 / 10 ^ 7 \<and> applied = [] \<and>
   pm_generation pm = pm_generation born \<and> pm_history pm = pm_history born"
  by (simp add: apply_delta_def pending_moves_def genesis_traits [OF born_alive] BASELINE_TRAITS_def new_trait_def clamp01_def
      bounded_move_def GROWTH_RATE_def py_round_def round_even_def Let_def trait_value_def observe_trait_def)

fun keys_distinct :: "pyval \<Rightarrow> bool" where
  "keys_distinct (PList xs) = list_all keys_distinct xs"
| "keys_distinct (PTuple xs) = list_all keys_distinct xs"
| "keys_distinct (PDict d) = (distinct (map fst d) \<and> list_all (\<lambda>(_, v). keys_distinct v) d)"
| "keys_distinct _ = True"

lemma py_eq_refl: "keys_distinct v \<Longrightarrow> py_eq F v v"
proof (induction v rule: keys_distinct.induct)
  case (3 d)
  have "case map_of d k of None \<Rightarrow> False | Some u \<Rightarrow> py_eq F v u" if "(k, v) \<in> set d" for k v
    using 3 that by (auto simp: list_all_iff)
  then show ?case by (auto simp: list_all_iff)
qed (auto simp: list_all_iff in_set_zip)

lemma round_even_near: "\<bar>of_int (round_even y) - y\<bar> \<le> 1/2"
  by (simp add: round_even_def Let_def abs_le_iff; linarith)

lemma py_round_near: "\<bar>py_round n x - x\<bar> \<le> 1 / (2 * 10 ^ n)"
proof -
  have "\<bar>of_int (round_even (x * 10 ^ n)) - x * 10 ^ n\<bar> / 10 ^ n \<le> (1/2) / 10 ^ n"
    by (rule divide_right_mono [OF round_even_near]) simp
  moreover have "py_round n x - x = (of_int (round_even (x * 10 ^ n)) - x * 10 ^ n) / 10 ^ n"
    by (simp add: py_round_def diff_divide_distrib)
  ultimately show ?thesis by (simp add: abs_divide)
qed

lemma rms_le:
  assumes "ds \<noteq> []" "\<And>t d. (t, d) \<in> set ds \<Longrightarrow> \<bar>d\<bar> \<le> M" "0 \<le> M"
  shows "sqrt (sum_list (map (\<lambda>(_, d). d * d) ds) / of_nat (length ds)) \<le> M"
proof -
  have "sum_list (map (\<lambda>(_, d). d * d) ds) \<le> of_nat (length ds) * M\<^sup>2"
    using assms(2)
  proof (induction ds)
    case (Cons p ds)
    obtain t d where p: "p = (t, d)" by (cases p)
    have "d * d \<le> M\<^sup>2"
      using Cons.prems [of t d] power_mono [of "\<bar>d\<bar>" M 2] by (simp add: p power2_eq_square)
    moreover have "sum_list (map (\<lambda>(_, d). d * d) ds) \<le> of_nat (length ds) * M\<^sup>2"
      by (rule Cons.IH) (use Cons.prems in auto)
    ultimately show ?case by (simp add: p distrib_right)
  qed simp
  then have "sum_list (map (\<lambda>(_, d). d * d) ds) / of_nat (length ds) \<le> M\<^sup>2"
    using assms(1) by (simp add: divide_le_eq mult.commute)
  then show ?thesis using assms(3) by (simp add: real_le_lsqrt)
qed

lemma trait_deltas_near:
  assumes "grown n a b" "(t, d) \<in> set (trait_deltas a b)" and distinct: "distinct (map fst (pm_traits a))"
  shows "\<bar>d\<bar> \<le> real n * GROWTH_RATE + 1 / (2 * 10 ^ 6)"
proof -
  obtain s s' where s: "(t, s) \<in> set (pm_traits a)" and s': "map_of (pm_traits b) t = Some s'"
      and d: "d = py_round 6 (tr_value s' - tr_value s)"
    using assms(2) by (auto simp: trait_deltas_def split: option.splits) (metis option.inject)
  have "\<bar>tr_value s' - tr_value s\<bar> \<le> real n * GROWTH_RATE"
    using assms(1) s' map_of_is_SomeI [OF distinct s] unfolding grown_def trait_value_def by (metis option.simps(5))
  then show ?thesis using py_round_near [of 6 "tr_value s' - tr_value s"] unfolding d by linarith
qed

text \<open>Comparing a model with itself after \<open>n\<close> growths never raises and never reports a policy violation; the drift it
  reports is at most \<open>n\<close> times the growth rate, up to the rounding to six digits.\<close>

theorem drift_is_bounded:
  assumes "traits_ok pm" "distinct (map fst (pm_traits pm))" "keys_distinct (pm_policy pm)" "keys_distinct (pm_name pm)"
  shows "\<exists>r. compare_models F pm (run_ops (growth_step F) ops pm) = Inr r \<and> \<not> md_policy_violation r \<and>
    md_drift r \<le> real (length ops) * GROWTH_RATE + 1 / 10 ^ 6"
proof -
  define b where "b = run_ops (growth_step F) ops pm"
  define ds where "ds = trait_deltas pm b"
  define drift where "drift = (if ds = [] then 0 else sqrt (sum_list (map (\<lambda>(_, d). d * d) ds) / of_nat (length ds)))"
  have g: "grown (length ops) pm b"
    unfolding b_def by (rule grown_run [OF assms(1)])
  have "0 \<le> real (length ops) * GROWTH_RATE"
    by (simp add: GROWTH_RATE_def)
  then have "drift \<le> real (length ops) * GROWTH_RATE + 1 / (2 * 10 ^ 6)"
    using rms_le [of ds, OF _ trait_deltas_near [OF g _ assms(2), folded ds_def]] by (simp add: drift_def)
  then have "py_round 6 drift \<le> real (length ops) * GROWTH_RATE + 1 / 10 ^ 6"
    using py_round_near [of 6 drift] by linarith
  moreover have "py_eq F (pm_policy pm) (pm_policy b)" "py_eq F (pm_name pm) (pm_name b)"
    using g assms(3,4) by (simp_all add: grown_def py_eq_refl)
  ultimately show ?thesis
    unfolding b_def [symmetric] compare_models_def personality_diff_def ds_def [symmetric] drift_def by simp
qed

theorem drift_is_bounded_witness:
  "\<exists>r. compare_models plain_floats born (run_ops (growth_step plain_floats) [Delta 1 ''x'' [(''humor'', 1)]] born) = Inr r \<and>
     \<not> md_policy_violation r \<and> md_drift r \<le> 1 * GROWTH_RATE + 1 / 10 ^ 6"
proof -
  have "keys_distinct (pm_policy born)" "keys_distinct (pm_name born)"
    using genesis_policy [OF born_alive]
    by (auto simp: extract_policy_def default_profile_def dget_def dget_default_def normalise_proactivity_def PROACTIVITY_DEFAULTS_def)
  moreover have "distinct (map fst (pm_traits born))"
    by (simp add: genesis_traits [OF born_alive] BASELINE_TRAITS_def)
  ultimately show ?thesis
    using drift_is_bounded [OF genesis_traits_ok [OF born_alive], of plain_floats "[Delta 1 ''x'' [(''humor'', 1)]]"]
    by (simp del: run_ops.simps)
qed

end
