(* ===== verification/Persona_Shaper.thy ===== *)
theory Persona_Shaper
  imports Personality
begin

text \<open>
  The persona shaper, \<open>src/persona.py\<close>: a model on another node that rephrases a line of speech. The endpoint is a parameter:
  \<open>fetch\<close> answers a GET (none when it raises) and \<open>post\<close> the chat request (with the exception's text when it raises).
\<close>

definition CHAT_PATH :: string where "CHAT_PATH = ''/v1/chat/completions''"

definition chat_endpoint :: "string \<Rightarrow> string" where
  "chat_endpoint url =
     (let base = py_rstrip_char (CHR ''/'') (py_strip url);
          base' = (if py_startswith base ''http://'' \<or> py_startswith base ''https://'' then base else ''http://'' @ base)
      in if base = [] then [] else if py_endswith base' CHAT_PATH then base' else base' @ CHAT_PATH)"

record shaper =
  sh_url :: string
  sh_model :: string
  sh_resolved :: string
  sh_instructions :: string
  sh_shaped :: nat
  sh_fallbacks :: nat

definition new_shaper :: "string \<Rightarrow> string \<Rightarrow> string \<Rightarrow> shaper" where
  "new_shaper url model instructions =
     \<lparr>sh_url = chat_endpoint url, sh_model = py_strip model, sh_resolved = [], sh_instructions = instructions, sh_shaped = 0, sh_fallbacks = 0\<rparr>"

definition sh_enabled :: "shaper \<Rightarrow> bool" where
  "sh_enabled sh \<longleftrightarrow> sh_url sh \<noteq> []"

text \<open>\<open>s.split('//', 1)[-1]\<close>.\<close>

fun after_slashes :: "string \<Rightarrow> string" where
  "after_slashes (a # b # s) = (if a = CHR ''/'' \<and> b = CHR ''/'' then s else after_slashes (b # s))"
| "after_slashes s = []"

definition sh_label :: "shaper \<Rightarrow> string" where
  "sh_label sh =
     (if \<not> sh_enabled sh then ''off''
      else let label = (if sh_model sh \<noteq> [] then sh_model sh else if sh_resolved sh \<noteq> [] then sh_resolved sh else ''persona'');
               rest = (if py_contains (sh_url sh) ''//'' then after_slashes (sh_url sh) else sh_url sh)
           in label @ ''@'' @ takeWhile (\<lambda>c. c \<noteq> CHR ''/'') rest)"

definition REWRITE_INSTRUCTION :: string where
  "REWRITE_INSTRUCTION = ''Rewrite the line below so it sounds like this character. Keep the meaning, '' @
     ''the facts and any names exactly; keep it as spoken language. Answer with '' @
     ''the rewritten line only -- no quotes, no commentary.''"

definition verdict_details :: "pydict \<Rightarrow> string list" where
  "verdict_details v =
     (let budget = py_or (dget v ''max_sentences'') (dget v ''verbosity'') in
      (if truthy (dget v ''tone'') then [''tone: '' @ py_str (dget v ''tone'')] else []) @
      (if truthy budget then [''length: '' @ py_str budget] else []) @
      (if dget v ''appropriateness'' \<noteq> PNone then [''appropriateness: '' @ py_str (dget v ''appropriateness'')] else []))"

definition sh_prompt :: "pyval \<Rightarrow> shaper \<Rightarrow> string" where
  "sh_prompt verdict sh =
     (let character = py_strip (sh_instructions sh); detail = verdict_details (as_dict verdict) in
      join_sep [CHR 10]
        ((if character \<noteq> [] then [character] else []) @ [REWRITE_INSTRUCTION] @
         (if detail \<noteq> [] then [''Governor: '' @ join_sep ''; '' detail @ ''.''] else [])))"

fun first_name :: "pyval list \<Rightarrow> string" where
  "first_name [] = []"
| "first_name (v # vs) =
     (let name = py_strip (py_str (py_or (py_or (dget (as_dict v) ''id'') (dget (as_dict v) ''name'')) (PStr [])))
      in if name \<noteq> [] then name else first_name vs)"

fun listed_model :: "(string \<Rightarrow> pyval option) \<Rightarrow> string \<Rightarrow> (string \<times> string) list \<Rightarrow> py_exn + string" where
  "listed_model fetch base [] = Inr []"
| "listed_model fetch base ((path, key) # ps) =
     (case fetch (base @ path) of None \<Rightarrow> listed_model fetch base ps | Some body \<Rightarrow>
      case list_or_empty (dget (as_dict body) key) of Inl x \<Rightarrow> Inl x | Inr items \<Rightarrow>
        if first_name items \<noteq> [] then Inr (first_name items) else listed_model fetch base ps)"

definition first_model :: "(string \<Rightarrow> pyval option) \<Rightarrow> shaper \<Rightarrow> shaper \<times> (py_exn + string)" where
  "first_model fetch sh =
     (if sh_resolved sh \<noteq> [] then (sh, Inr (sh_resolved sh))
      else case listed_model fetch (take (length (sh_url sh) - length CHAT_PATH) (sh_url sh))
                  [(''/v1/models'', ''data''), (''/api/tags'', ''models'')] of
             Inl x \<Rightarrow> (sh, Inl x)
           | Inr name \<Rightarrow> (sh\<lparr>sh_resolved := name\<rparr>, Inr name))"

definition first_message :: "pyval \<Rightarrow> string" where
  "first_message choices =
     (case choices of PList (c # _) \<Rightarrow>
        (let first = as_dict c; message = as_dict (dget first ''message'');
             t = py_or (py_or (dget message ''content'') (dget first ''text'')) (PStr [])
         in py_strip (strip_by (\<lambda>c. c = CHR 34) (py_strip (py_str t))))
      | _ \<Rightarrow> [])"

definition shape_result :: "string \<Rightarrow> string \<Rightarrow> string \<Rightarrow> string \<Rightarrow> pydict" where
  "shape_result t source draft reason =
     [(''text'', PStr t), (''source'', PStr source), (''draft'', PStr draft), (''reason'', PStr reason)]"

definition chat_payload :: "pyval \<Rightarrow> string \<Rightarrow> string \<Rightarrow> shaper \<Rightarrow> pyval" where
  "chat_payload verdict model draft sh =
     PDict [(''model'', PStr model), (''temperature'', PFloat ''0.7''), (''max_tokens'', PInt 220),
       (''messages'', PList [PDict [(''role'', PStr ''system''), (''content'', PStr (sh_prompt verdict sh))],
                             PDict [(''role'', PStr ''user''), (''content'', PStr draft)]])]"

definition shape :: "(string \<Rightarrow> pyval option) \<Rightarrow> (pyval \<Rightarrow> string + pyval) \<Rightarrow> string \<Rightarrow> pyval \<Rightarrow> shaper \<Rightarrow> shaper \<times> (py_exn + pydict)" where
  "shape fetch post draft verdict sh =
     (if \<not> sh_enabled sh then (sh, Inr (shape_result draft ''draft'' draft ''no persona endpoint''))
      else if py_strip draft = [] then (sh, Inr (shape_result draft ''draft'' draft ''nothing to say''))
      else case (if sh_model sh \<noteq> [] then (sh, Inr (sh_model sh)) else first_model fetch sh) of
        (sh, Inl x) \<Rightarrow> (sh, Inl x)
      | (sh, Inr model) \<Rightarrow>
          if model = [] then (sh\<lparr>sh_fallbacks := sh_fallbacks sh + 1\<rparr>,
             Inr (shape_result draft ''unavailable'' draft ''the endpoint lists no model to ask''))
          else case post (chat_payload verdict model draft sh) of
            Inl reason \<Rightarrow> (sh\<lparr>sh_fallbacks := sh_fallbacks sh + 1\<rparr>, Inr (shape_result draft ''unavailable'' draft reason))
          | Inr body \<Rightarrow>
              let shaped = first_message (dget (as_dict body) ''choices'') in
              if shaped = [] then (sh\<lparr>sh_fallbacks := sh_fallbacks sh + 1\<rparr>,
                 Inr (shape_result draft ''unavailable'' draft ''ValueError: empty completion''))
              else (sh\<lparr>sh_shaped := sh_shaped sh + 1\<rparr>,
                 Inr (shape_result shaped ''persona'' draft [] @
                   [(''instructions'', PStr (py_strip (sh_instructions sh)))])))"

subsection \<open>The shaper never costs the line\<close>

text \<open>Whatever the endpoint does, the shaper answers with the draft itself or with a non-empty completion of the endpoint; each
  request is counted once, as shaped or as a fallback, and only a completion counts as shaped. It raises only when the
  model listing is malformed.\<close>

theorem shape_keeps_the_line:
  assumes "sh_enabled sh" "py_strip draft \<noteq> []" "shape fetch post draft verdict sh = (sh', r)"
  shows "(\<exists>x. r = Inl x \<and> sh' = sh) \<or>
    (\<exists>d t. r = Inr d \<and> dget d ''text'' = PStr t \<and> dget d ''draft'' = PStr draft \<and>
       ((dget d ''source'' = PStr ''unavailable'' \<and> t = draft \<and> sh_fallbacks sh' = sh_fallbacks sh + 1 \<and> sh_shaped sh' = sh_shaped sh) \<or>
        (dget d ''source'' = PStr ''persona'' \<and> t \<noteq> [] \<and> sh_shaped sh' = sh_shaped sh + 1 \<and> sh_fallbacks sh' = sh_fallbacks sh)))"
proof -
  have frame: "sh_shaped (fst (first_model fetch sh)) = sh_shaped sh \<and> sh_fallbacks (fst (first_model fetch sh)) = sh_fallbacks sh"
    by (simp add: first_model_def split: sum.splits)
  have raised: "snd (first_model fetch sh) = Inl x \<Longrightarrow> fst (first_model fetch sh) = sh" for x
    by (auto simp: first_model_def split: sum.splits if_splits)
  show ?thesis
    using assms frame raised
    by (cases "first_model fetch sh")
      (auto simp: shape_def shape_result_def dget_def Let_def split: sum.splits if_splits)
qed

definition voice_node :: shaper where "voice_node = new_shaper ''voice:8080'' ''m'' []"

theorem shape_keeps_the_line_witness:
  "\<exists>d t. snd (shape (\<lambda>_. None) (\<lambda>_. Inl ''URLError: down'') ''Hello.'' PNone voice_node) = Inr d \<and> dget d ''text'' = PStr t \<and> t = ''Hello.''"
proof -
  have on: "sh_enabled voice_node" "py_strip ''Hello.'' \<noteq> []" and "sh_model voice_node = ''m''"
    by code_simp+
  then have "shape (\<lambda>_. None) (\<lambda>_. Inl ''URLError: down'') ''Hello.'' PNone voice_node =
      (voice_node\<lparr>sh_fallbacks := sh_fallbacks voice_node + 1\<rparr>, Inr (shape_result ''Hello.'' ''unavailable'' ''Hello.'' ''URLError: down''))"
    by (simp add: shape_def)
  from shape_keeps_the_line [OF on this] show ?thesis
    by (simp add: \<open>shape _ _ _ _ _ = _\<close> shape_result_def dget_def)
qed

end
