(* ===== verification/Persona_Pack.thy ===== *)
theory Persona_Pack
  imports Personality Json
begin

text \<open>
  Persona packs, \<open>src/personality/persona_pack.py\<close>: the validation of a pack that arrives from outside, and the birth of a
  model from it over the operator's own configuration. The wording of refusals is not modelled; the hash function is a
  parameter.
\<close>

definition PERSONA_SCHEMA :: string where "PERSONA_SCHEMA = ''shugocore.persona/1''"

text \<open>\<open>^a b{0,n}$\<close> with \<open>re.match\<close>: the dollar also matches before a final newline.\<close>

definition re_slug :: "(char \<Rightarrow> bool) \<Rightarrow> (char \<Rightarrow> bool) \<Rightarrow> nat \<Rightarrow> string \<Rightarrow> bool" where
  "re_slug a b n s =
     (let t = (if s \<noteq> [] \<and> List.last s = CHR 10 then butlast s else s)
      in t \<noteq> [] \<and> a (hd t) \<and> list_all b (tl t) \<and> length (tl t) \<le> n)"

definition slug_lower :: "char \<Rightarrow> bool" where "slug_lower c \<longleftrightarrow> 97 \<le> char_code c \<and> char_code c \<le> 122"
definition slug_digit :: "char \<Rightarrow> bool" where "slug_digit c \<longleftrightarrow> 48 \<le> char_code c \<and> char_code c \<le> 57"

definition trait_name_ok :: "string \<Rightarrow> bool" where
  "trait_name_ok = re_slug slug_lower (\<lambda>c. slug_lower c \<or> slug_digit c \<or> c = CHR ''_'') 31"

definition pack_id_ok :: "string \<Rightarrow> bool" where
  "pack_id_ok = re_slug (\<lambda>c. slug_lower c \<or> slug_digit c) (\<lambda>c. slug_lower c \<or> slug_digit c \<or> c \<in> {CHR ''.'', CHR ''_'', CHR ''-''}) 63"

datatype pack_exn = PersonaError | PackRaise py_exn

definition unit_number :: "floats \<Rightarrow> real \<Rightarrow> pack_exn + real" where
  "unit_number F x = (if 0 \<le> x \<and> x \<le> 1 then Inr (py_round 6 x) else Inl PersonaError)"

fun unit_float :: "floats \<Rightarrow> pyval \<Rightarrow> pack_exn + real" where
  "unit_float F (PInt i) = unit_number F (of_int i)"
| "unit_float F (PFloat r) = unit_number F (fl_value F r)"
| "unit_float F _ = Inl PersonaError"

text \<open>\<open>max(0, int(v or 0))\<close>.\<close>

definition pack_count :: "pyval \<Rightarrow> pack_exn + int" where
  "pack_count v = (case py_int (py_or v (PInt 0)) of Inl x \<Rightarrow> Inl (PackRaise x) | Inr n \<Rightarrow> Inr (max 0 n))"

definition trait_from_spec :: "floats \<Rightarrow> pyval \<Rightarrow> pack_exn + trait_state" where
  "trait_from_spec F spec =
     (case spec of PDict d \<Rightarrow>
        (case unit_float F (dget d ''value'') of Inl x \<Rightarrow> Inl x | Inr v \<Rightarrow>
         case unit_float F (dget_default d ''confidence'' (PFloat ''0.0'')) of Inl x \<Rightarrow> Inl x | Inr c \<Rightarrow>
         case pack_count (dget d ''evidence_count'') of Inl x \<Rightarrow> Inl x | Inr n \<Rightarrow>
         case pack_count (dget d ''last_gen'') of Inl x \<Rightarrow> Inl x | Inr g \<Rightarrow>
         Inr (new_trait v c n g))
      | _ \<Rightarrow> (case unit_float F spec of Inl x \<Rightarrow> Inl x | Inr v \<Rightarrow> Inr (new_trait v 0 0 0)))"

fun specs_to_traits :: "floats \<Rightarrow> pydict \<Rightarrow> pack_exn + (string \<times> trait_state) list" where
  "specs_to_traits F [] = Inr []"
| "specs_to_traits F ((t, spec) # d) =
     (if \<not> trait_name_ok t then Inl PersonaError
      else case trait_from_spec F spec of Inl x \<Rightarrow> Inl x | Inr s \<Rightarrow>
           case specs_to_traits F d of Inl x \<Rightarrow> Inl x | Inr ts \<Rightarrow> Inr ((t, s) # ts))"

definition traits_from_raw :: "floats \<Rightarrow> pyval \<Rightarrow> pack_exn + (string \<times> trait_state) list" where
  "traits_from_raw F raw =
     (case raw of PNone \<Rightarrow> Inr [] | PDict d \<Rightarrow> specs_to_traits F d | _ \<Rightarrow> Inl PersonaError)"

record persona_pack =
  pk_schema :: string
  pk_id :: string
  pk_version :: string
  pk_name :: string
  pk_traits :: "(string \<times> trait_state) list"
  pk_voice :: pydict
  pk_speech :: pydict
  pk_policy :: pydict
  pk_proactivity :: pydict
  pk_voice_model :: "pydict option"
  pk_provenance :: pydict
  pk_licence :: pydict
  pk_digest :: string
  pk_declared :: "string option"
  pk_source :: string

definition may_redistribute :: "persona_pack \<Rightarrow> bool" where
  "may_redistribute pk \<longleftrightarrow> dget (pk_licence pk) ''redistributable'' \<noteq> PBool False"

definition pack_identity :: "persona_pack \<Rightarrow> string" where
  "pack_identity pk = pk_id pk @ ''@'' @ pk_version pk"

definition pack_meta :: "floats \<Rightarrow> real \<Rightarrow> persona_pack \<Rightarrow> pydict" where
  "pack_meta F stamp pk =
     [(''id'', PStr (pk_id pk)), (''version'', PStr (pk_version pk)), (''schema'', PStr (pk_schema pk)),
      (''digest'', PStr (pk_digest pk)), (''adopted_at'', pfl F stamp)] @
     (if pk_source pk \<noteq> [] then [(''source'', PStr (pk_source pk))] else []) @
     (case pk_voice_model pk of None \<Rightarrow> [] | Some vm \<Rightarrow>
        if vm = [] then []
        else [(''voice_model'', PDict (map (\<lambda>k. (k, dget vm k))
          (filter (\<lambda>k. dget vm k \<noteq> PNone) [''kind'', ''uri'', ''sha256'', ''base'', ''licence''])))])"

definition compute_digest :: "(string \<Rightarrow> string) \<Rightarrow> pydict \<Rightarrow> string" where
  "compute_digest H payload = canonical_hash H (PDict (ddel ''hash'' payload))"

text \<open>\<open>str(d.get(k) or '')\<close>.\<close>

definition text_field :: "pydict \<Rightarrow> string \<Rightarrow> string" where
  "text_field d k = py_str (py_or (dget d k) (PStr []))"

definition object_or_none :: "pyval \<Rightarrow> bool" where
  "object_or_none v \<longleftrightarrow> v = PNone \<or> is_dict v"

definition pack_from_dict :: "floats \<Rightarrow> (string \<Rightarrow> string) \<Rightarrow> string \<Rightarrow> pyval \<Rightarrow> pack_exn + persona_pack" where
  "pack_from_dict F H source data =
     (case data of PDict d \<Rightarrow>
        let version = py_strip (text_field d ''version''); vm = dget d ''voice_model'';
            digest = compute_digest H d; declared = dget d ''hash''
        in if text_field d ''schema'' \<noteq> PERSONA_SCHEMA then Inl PersonaError
           else if \<not> pack_id_ok (text_field d ''persona_id'') then Inl PersonaError
           else if version = [] \<or> length version > 64 then Inl PersonaError
           else if \<not> list_all (\<lambda>k. object_or_none (dget d k))
                    [''licence'', ''provenance'', ''voice'', ''speech'', ''policy'', ''voice_model''] then Inl PersonaError
           else if is_dict vm \<and> py_strip (text_field (as_dict vm) ''uri'') = [] then Inl PersonaError
           else if declared \<noteq> PNone \<and> py_str declared \<noteq> digest then Inl PersonaError
           else (case traits_from_raw F (dget d ''traits'') of Inl x \<Rightarrow> Inl x | Inr traits \<Rightarrow>
             Inr \<lparr>pk_schema = text_field d ''schema'', pk_id = text_field d ''persona_id'', pk_version = version,
                  pk_name = text_field d ''name'', pk_traits = traits, pk_voice = as_dict (dget d ''voice''),
                  pk_speech = as_dict (dget d ''speech''), pk_policy = as_dict (dget d ''policy''),
                  pk_proactivity = normalise_proactivity (dget d ''proactivity''),
                  pk_voice_model = (if is_dict vm then Some (as_dict vm) else None),
                  pk_provenance = as_dict (dget d ''provenance''), pk_licence = as_dict (dget d ''licence''),
                  pk_digest = digest, pk_declared = (if declared = PNone then None else Some (py_str declared)),
                  pk_source = source\<rparr>)
      | _ \<Rightarrow> Inl PersonaError)"

subsection \<open>Adoption\<close>

definition clean_phrases :: "pyval list \<Rightarrow> string list" where
  "clean_phrases vs = filter (\<lambda>s. s \<noteq> []) (map (\<lambda>v. py_strip (py_str v)) vs)"

fun merge_never_say :: "string list \<Rightarrow> string list \<Rightarrow> string list \<times> string list" where
  "merge_never_say merged [] = (merged, [])"
| "merge_never_say merged (t # ts) =
     (if t \<in> set merged then merge_never_say merged ts
      else case merge_never_say (merged @ [t]) ts of (m, added) \<Rightarrow> (m, t # added))"

fun merge_boundaries :: "pydict \<Rightarrow> pydict \<Rightarrow> pydict \<times> string list \<times> string list" where
  "merge_boundaries merged [] = (merged, [], [])"
| "merge_boundaries merged ((k, v) # d) =
     (case v of
        PBool b \<Rightarrow>
          if b \<and> \<not> truthy (dget merged k) then
            (case merge_boundaries (dset k (PBool True) merged) d of (m, on, off) \<Rightarrow> (m, k # on, off))
          else if \<not> b \<and> truthy (dget merged k) then
            (case merge_boundaries merged d of
               (m, on, off) \<Rightarrow> (m, on, (k @ ''=false cannot relax a boundary this node has on'') # off))
          else merge_boundaries (if map_of merged k = None then dset k v merged else merged) d
      | _ \<Rightarrow> (case merge_boundaries merged d of (m, on, off) \<Rightarrow> (m, on, (k @ ''='' @ py_repr v @ '' is not a boolean'') # off)))"

definition or_flag :: "pyval \<Rightarrow> pyval \<Rightarrow> pyval" where
  "or_flag a b = PBool (truthy a \<or> truthy b)"

definition adopt_flag :: "pydict \<Rightarrow> string \<Rightarrow> pydict \<Rightarrow> pydict" where
  "adopt_flag declared k pol = (case map_of declared k of None \<Rightarrow> pol | Some v \<Rightarrow> dset k (or_flag (dget pol k) v) pol)"

definition adopt_wording :: "pydict \<Rightarrow> string \<Rightarrow> pydict \<Rightarrow> pydict" where
  "adopt_wording speech k pol =
     (case dget speech k of PStr s \<Rightarrow> if py_strip s \<noteq> [] then dset k (PStr s) pol else pol | _ \<Rightarrow> pol)"

definition adopt_voice :: "pydict \<Rightarrow> string \<Rightarrow> pydict \<Rightarrow> pydict" where
  "adopt_voice declared k voice = (if dget declared k \<noteq> PNone then dset k (dget declared k) voice else voice)"

definition adopt_traits :: "(string \<times> trait_state) list \<Rightarrow> (string \<times> trait_state) list \<Rightarrow> (string \<times> trait_state) list" where
  "adopt_traits declared traits = fold (\<lambda>(t, s). AList.update t s) declared traits"

text \<open>The forbidden phrases a pack declares, in its speech block and then in its policy block.\<close>

definition declared_never :: "floats \<Rightarrow> persona_pack \<Rightarrow> py_exn + pyval list" where
  "declared_never F pk =
     (case list_or_empty (dget (pk_speech pk) ''never_say'') of Inl x \<Rightarrow> Inl x | Inr a \<Rightarrow>
      case list_or_empty (dget (pk_policy pk) ''never_say'') of Inl x \<Rightarrow> Inl x | Inr b \<Rightarrow>
      Inr (a @ filter (\<lambda>p. \<not> list_ex (\<lambda>q. py_eq F q p) a) b))"

definition adopt_never :: "persona_pack \<Rightarrow> pyval list \<Rightarrow> pydict \<Rightarrow> py_exn + pydict \<times> string list" where
  "adopt_never pk declared pol =
     (if truthy (dget (pk_speech pk) ''never_say'') \<or> truthy (dget (pk_policy pk) ''never_say'')
      then (case list_or_empty (dget pol ''never_say'') of Inl x \<Rightarrow> Inl x | Inr old \<Rightarrow>
            case merge_never_say (clean_phrases old) (clean_phrases declared) of (m, added) \<Rightarrow>
              Inr (dset ''never_say'' (PList (map PStr m)) pol, added))
      else Inr (pol, []))"

definition adopt_boundaries :: "persona_pack \<Rightarrow> pydict \<Rightarrow> py_exn + pydict \<times> string list \<times> string list" where
  "adopt_boundaries pk pol =
     (if \<not> truthy (dget (pk_policy pk) ''boundaries'') then Inr (pol, [], [])
      else case dict_or_empty (dget pol ''boundaries'') of Inl x \<Rightarrow> Inl x | Inr old \<Rightarrow>
           case dget (pk_policy pk) ''boundaries'' of
             PDict d \<Rightarrow> (case merge_boundaries old d of (m, on, off) \<Rightarrow> Inr (dset ''boundaries'' (PDict m) pol, on, off))
           | _ \<Rightarrow> Inl AttributeErr)"

record birth_report =
  br_pack :: string
  br_digest :: string
  br_traits :: "string list"
  br_added_traits :: "string list"
  br_wording :: "string list"
  br_voice :: "string list"
  br_reinforced :: "string list"
  br_refused :: "string list"
  br_warnings :: "string list"

definition baseline_trait :: "string \<Rightarrow> bool" where
  "baseline_trait t \<longleftrightarrow> t \<in> set (map fst BASELINE_TRAITS)"

definition birth_notes :: "pydict \<Rightarrow> string list \<Rightarrow> string list \<Rightarrow> string list \<Rightarrow> persona_pack \<Rightarrow> birth_report" where
  "birth_notes pol added on off pk =
     \<lparr>br_pack = pack_identity pk, br_digest = pk_digest pk,
      br_traits = filter baseline_trait (map fst (pk_traits pk)),
      br_added_traits = filter (\<lambda>t. \<not> baseline_trait t) (map fst (pk_traits pk)),
      br_wording = filter (\<lambda>k. case dget (pk_speech pk) k of PStr s \<Rightarrow> py_strip s \<noteq> [] | _ \<Rightarrow> False) [''greeting'', ''offer''],
      br_voice = filter (\<lambda>k. dget (pk_voice pk) k \<noteq> PNone) [''max_sentences'', ''style''],
      br_reinforced =
        (if added \<noteq> [] then [''never_say += '' @ py_repr (PList (map PStr added))] else []) @
        map (\<lambda>k. ''boundaries.'' @ k @ '' = true'') on @
        map (\<lambda>k. k @ '' = true'') (filter (\<lambda>k. truthy (dget (pk_policy pk) k) \<and> \<not> truthy (dget pol k)) [''refuse_harmful'', ''first_person'']),
      br_refused =
        map (\<lambda>r. ''boundaries: '' @ r) off @
        (if pk_proactivity pk \<noteq> normalise_proactivity PNone
         then [''proactivity '' @ py_repr (PDict (pk_proactivity pk)) @ '' '' @ em_dash @ '' an artifact cannot change what this '' @
               ''node is permitted to originate; the operator'' @ apos @ ''s config stands''] else []),
      br_warnings =
        map (\<lambda>t. ''trait '' @ repr_str t @ '' is not one this build reasons about yet: kept and '' @
               ''grown with the rest, but no rule consults it'') (filter (\<lambda>t. \<not> baseline_trait t) (map fst (pk_traits pk))) @
        (if \<not> may_redistribute pk then [''the pack'' @ apos @ ''s licence forbids redistribution: fine to run here, but it '' @
               ''must not be committed or shipped (see MODELS.md)''] else [])\<rparr>"

definition birth :: "floats \<Rightarrow> real \<Rightarrow> real \<Rightarrow> persona_pack \<Rightarrow> profile \<Rightarrow> py_exn + personality \<times> birth_report" where
  "birth F now stamp pk local =
     (case genesis F now local of Inl x \<Rightarrow> Inl x | Inr pm \<Rightarrow>
      let pol0 = as_dict (pm_policy pm);
          pol1 = adopt_wording (pk_speech pk) ''offer'' (adopt_wording (pk_speech pk) ''greeting'' pol0)
      in case declared_never F pk of Inl x \<Rightarrow> Inl x | Inr declared \<Rightarrow>
         case adopt_never pk declared pol1 of Inl x \<Rightarrow> Inl x | Inr (pol2, added) \<Rightarrow>
         case adopt_boundaries pk pol2 of Inl x \<Rightarrow> Inl x | Inr (pol3, on, off) \<Rightarrow>
         Inr (pm\<lparr>pm_traits := adopt_traits (pk_traits pk) (pm_traits pm),
                 pm_voice := adopt_voice (pk_voice pk) ''style'' (adopt_voice (pk_voice pk) ''max_sentences'' (pm_voice pm)),
                 pm_policy := PDict (adopt_flag (pk_policy pk) ''first_person'' (adopt_flag (pk_policy pk) ''refuse_harmful'' pol3)),
                 pm_history := [growth_entry F 0 (''adopted persona '' @ pack_identity pk) [] stamp],
                 pm_persona := Some (pack_meta F stamp pk)\<rparr>,
              birth_notes pol0 added on off pk))"

subsection \<open>What an accepted pack is\<close>

lemma new_trait_ok [simp]: "trait_ok (new_trait v c n g)"
  by (simp add: trait_ok_def new_trait_def)

lemma specs_ok:
  "specs_to_traits F d = Inr ts \<Longrightarrow> list_all (\<lambda>(t, s). trait_name_ok t \<and> trait_ok s) ts \<and> map fst ts = map fst d"
  by (induction d arbitrary: ts rule: specs_to_traits.induct)
    (auto simp: trait_from_spec_def split: if_splits sum.splits pyval.splits)

lemma pack_from_dictE:
  assumes "pack_from_dict F H source (PDict d) = Inr pk"
  obtains ts where "traits_from_raw F (dget d ''traits'') = Inr ts" "pk_traits pk = ts"
    "text_field d ''schema'' = PERSONA_SCHEMA" "pk_schema pk = PERSONA_SCHEMA" "pack_id_ok (pk_id pk)"
    "pk_version pk \<noteq> []" "length (pk_version pk) \<le> 64" "pk_digest pk = compute_digest H d"
    "pk_declared pk = None \<or> pk_declared pk = Some (pk_digest pk)" "pk_declared pk = None \<longleftrightarrow> dget d ''hash'' = PNone"
  using assms by (auto simp: pack_from_dict_def Let_def split: if_splits sum.splits)

text \<open>An accepted pack names the one schema this build reads, has a usable id and a version of 1 to 64 characters, carries
  only traits with usable names and values in [0,1], and, where it declares a hash, that hash is the canonical hash of the
  rest of its content.\<close>

theorem accepted_pack_is_well_formed:
  assumes "pack_from_dict F H source data = Inr pk"
  shows "\<exists>d. data = PDict d \<and> pk_schema pk = PERSONA_SCHEMA \<and> pack_id_ok (pk_id pk) \<and>
    pk_version pk \<noteq> [] \<and> length (pk_version pk) \<le> 64 \<and>
    list_all (\<lambda>(t, s). trait_name_ok t \<and> trait_ok s) (pk_traits pk) \<and>
    pk_digest pk = canonical_hash H (PDict (ddel ''hash'' d)) \<and>
    (dget d ''hash'' = PNone \<or> pk_declared pk = Some (canonical_hash H (PDict (ddel ''hash'' d))))"
proof -
  obtain d where d: "data = PDict d"
    using assms by (auto simp: pack_from_dict_def split: pyval.splits)
  show ?thesis
  proof (rule pack_from_dictE [OF assms [unfolded d]])
    fix ts
    assume "traits_from_raw F (dget d ''traits'') = Inr ts" "pk_traits pk = ts"
    then have "list_all (\<lambda>(t, s). trait_name_ok t \<and> trait_ok s) (pk_traits pk)"
      using specs_ok by (fastforce simp: traits_from_raw_def split: pyval.splits)
    moreover assume "pk_schema pk = PERSONA_SCHEMA" "pack_id_ok (pk_id pk)"
      "pk_version pk \<noteq> []" "length (pk_version pk) \<le> 64" "pk_digest pk = compute_digest H d"
      "pk_declared pk = None \<or> pk_declared pk = Some (pk_digest pk)" "pk_declared pk = None \<longleftrightarrow> dget d ''hash'' = PNone"
    ultimately show ?thesis
      unfolding d by (auto simp: compute_digest_def)
  qed
qed

definition sample_pack_data :: pydict where
  "sample_pack_data =
     [(''schema'', PStr PERSONA_SCHEMA), (''persona_id'', PStr ''calm''), (''version'', PStr ''1.0''),
      (''traits'', PDict [(''playfulness'', PInt 1)]),
      (''speech'', PDict [(''never_say'', PList [PStr ''obey''])]),
      (''policy'', PDict [(''boundaries'', PDict [(''refuse_harmful'', PBool False)]), (''refuse_harmful'', PBool False)]),
      (''voice'', PDict [(''max_sentences'', PStr ''many'')])]"

definition sample_pack :: persona_pack where
  "sample_pack = (case pack_from_dict plain_floats (\<lambda>s. s) [] (PDict sample_pack_data) of Inr pk \<Rightarrow> pk)"

lemma sample_pack_accepted: "pack_from_dict plain_floats (\<lambda>s. s) [] (PDict sample_pack_data) = Inr sample_pack"
proof -
  have "pack_id_ok ''calm''" "trait_name_ok ''playfulness''" "py_strip ''1.0'' = ''1.0''"
    by code_simp+
  then show ?thesis
    by (simp add: sample_pack_def pack_from_dict_def sample_pack_data_def text_field_def dget_def py_or_def PERSONA_SCHEMA_def
        object_or_none_def traits_from_raw_def trait_from_spec_def unit_number_def Let_def)
qed

theorem accepted_pack_is_well_formed_witness: "pk_schema sample_pack = PERSONA_SCHEMA \<and> pack_id_ok (pk_id sample_pack)"
  using accepted_pack_is_well_formed [OF sample_pack_accepted] by blast

subsection \<open>Adoption only tightens the perimeters\<close>

lemma merge_never_keeps: "set merged \<subseteq> set (fst (merge_never_say merged ts))"
  by (induction merged ts rule: merge_never_say.induct) (auto split: prod.splits)

lemma merge_boundaries_keeps:
  "truthy (dget merged k) \<Longrightarrow> dget (fst (merge_boundaries merged d)) k = dget merged k"
proof (induction merged d arbitrary: rule: merge_boundaries.induct)
  case (2 merged k' v d)
  show ?case
  proof (cases "\<exists>b. v = PBool b")
    case True
    then obtain b where v: "v = PBool b" by blast
    show ?thesis
      using 2 by (cases "k = k'") (auto simp: v dget_def map_of_dset split: prod.splits if_splits)
  next
    case False
    then show ?thesis
      using 2 by (cases v) (auto split: prod.splits)
  qed
qed simp

lemma adopt_flag_keeps: "truthy (dget pol k) \<Longrightarrow> truthy (dget (adopt_flag d k' pol) k)"
  by (auto simp: adopt_flag_def or_flag_def split: option.splits)

lemma adopt_frames:
  "k \<noteq> k' \<Longrightarrow> dget (adopt_flag d k' pol) k = dget pol k"
  "k \<noteq> k' \<Longrightarrow> dget (adopt_wording d k' pol) k = dget pol k"
  "adopt_boundaries pk pol = Inr (pol', x) \<Longrightarrow> k \<noteq> ''boundaries'' \<Longrightarrow> dget pol' k = dget pol k"
  "adopt_never pk vs pol = Inr (pol', y) \<Longrightarrow> k \<noteq> ''never_say'' \<Longrightarrow> dget pol' k = dget pol k"
  by (auto simp: adopt_flag_def adopt_wording_def adopt_boundaries_def adopt_never_def
      split: option.splits pyval.splits if_splits sum.splits prod.splits)

lemma adopted_boundaries:
  assumes "adopt_boundaries pk pol = Inr (pol', x)" "dget pol ''boundaries'' = PDict b"
  shows "\<exists>b'. dget pol' ''boundaries'' = PDict b' \<and> (\<forall>k. truthy (dget b k) \<longrightarrow> dget b' k = dget b k)"
proof (cases "truthy (dget (pk_policy pk) ''boundaries'')")
  case True
  then obtain d where "pol' = dset ''boundaries'' (PDict (fst (merge_boundaries b d))) pol"
    using assms by (auto simp: adopt_boundaries_def split: prod.splits pyval.splits) (metis fst_conv)
  then show ?thesis by (simp add: merge_boundaries_keeps)
qed (use assms in \<open>simp add: adopt_boundaries_def\<close>)

lemma pack_traits_ok:
  assumes "pack_from_dict F H source data = Inr pk"
  shows "list_all (\<lambda>(_, s). trait_ok s) (pk_traits pk)"
proof -
  obtain d ts where "traits_from_raw F (dget d ''traits'') = Inr ts" "pk_traits pk = ts"
    using assms by (auto simp: pack_from_dict_def Let_def split: pyval.splits if_splits sum.splits)
  then show ?thesis
    using specs_ok by (fastforce simp: traits_from_raw_def list_all_iff split: pyval.splits)
qed

lemma adopt_never_keeps:
  assumes "adopt_never pk vs pol = Inr (pol', y)" "dget pol ''never_say'' = PList old" "PStr s \<in> set old" "py_strip s \<noteq> []"
  shows "\<exists>new. dget pol' ''never_say'' = PList new \<and> (PStr s \<in> set new \<or> PStr (py_strip s) \<in> set new)"
proof -
  have "py_strip s \<in> set (clean_phrases old)"
    using assms(3,4) by (force simp: clean_phrases_def)
  then have "py_strip s \<in> set (fst (merge_never_say (clean_phrases old) (clean_phrases vs)))"
    using merge_never_keeps by blast
  then show ?thesis
    using assms(1-3) by (auto simp: adopt_never_def split: if_splits sum.splits prod.splits)
qed

lemma adopt_traits_ok:
  assumes "list_all (\<lambda>(_, s). trait_ok s) ts" "list_all (\<lambda>(_, s). trait_ok s) ds"
  shows "list_all (\<lambda>(_, s). trait_ok s) (adopt_traits ds ts)"
  using assms(2,1)
proof (induction ds arbitrary: ts)
  case (Cons d ds)
  obtain t s where d: "d = (t, s)" by (cases d)
  have "list_all (\<lambda>(_, s). trait_ok s) (AList.update t s ts)"
    using Cons.prems by (induction ts) (auto simp: d)
  then show ?case using Cons by (simp add: d adopt_traits_def)
qed (simp add: adopt_traits_def)

lemma birthE:
  assumes "birth F now stamp pk local = Inr (pm, report)"
  obtains pm0 pol0 pol2 pol3 vs y x where "genesis F now local = Inr pm0" "pm_policy pm0 = PDict pol0" "extract_policy local = Inr pol0"
    "adopt_never pk vs (adopt_wording (pk_speech pk) ''offer'' (adopt_wording (pk_speech pk) ''greeting'' pol0)) = Inr (pol2, y)"
    "adopt_boundaries pk pol2 = Inr (pol3, x)"
    "pm_policy pm = PDict (adopt_flag (pk_policy pk) ''first_person'' (adopt_flag (pk_policy pk) ''refuse_harmful'' pol3))"
    "pm_traits pm = adopt_traits (pk_traits pk) (pm_traits pm0)" "pm_generation pm = pm_generation pm0"
    "pm_voice pm = adopt_voice (pk_voice pk) ''style'' (adopt_voice (pk_voice pk) ''max_sentences'' (pm_voice pm0))"
    "pm_persona pm = Some (pack_meta F stamp pk)"
proof -
  obtain pm0 where g: "genesis F now local = Inr pm0"
    using assms by (auto simp: birth_def split: sum.splits)
  obtain pol0 where pol0: "extract_policy local = Inr pol0" "pm_policy pm0 = PDict pol0"
    using genesis_policy [OF g] by blast
  define pol1 where "pol1 = adopt_wording (pk_speech pk) ''offer'' (adopt_wording (pk_speech pk) ''greeting'' pol0)"
  obtain vs pol2 y where never: "adopt_never pk vs pol1 = Inr (pol2, y)" and vs: "declared_never F pk = Inr vs"
    using assms by (auto simp: birth_def g pol0 pol1_def split: sum.splits)
  obtain pol3 on off where bounds: "adopt_boundaries pk pol2 = Inr (pol3, on, off)"
    using assms never vs by (auto simp: birth_def g pol0 pol1_def split: sum.splits)
  show thesis
    by (rule that [OF g pol0(2,1) never [unfolded pol1_def] bounds])
      (use assms never vs bounds in \<open>auto simp: birth_def g pol0 pol1_def [symmetric] Let_def\<close>)
qed

lemma extract_policy_fields:
  "extract_policy p = Inr pol \<Longrightarrow> dget pol ''boundaries'' = PDict (pf_boundaries p) \<and> (\<exists>vs. dget pol ''never_say'' = PList vs)"
  by (auto simp: extract_policy_def dget_def split: sum.splits)

text \<open>C14: Adopting a pack can only tighten the perimeters. Whatever an accepted pack declares, in the model born from it every
  boundary that the node has on keeps its value, every forbidden phrase of the node is still forbidden (as it is, or stripped of
  surrounding space, which matches at least as much), refusing harm and the first person are not switched off, the permissions
  for unprompted speech are exactly the operator's, all traits are in [0,1], and the model records the pack's digest.\<close>

theorem adoption_only_tightens:
  assumes pack: "pack_from_dict F H source data = Inr pk" and local: "extract_policy local = Inr pol"
    and birth: "birth F now stamp pk local = Inr (pm, report)"
  shows "\<exists>pol' b'. pm_policy pm = PDict pol' \<and> dget pol' ''boundaries'' = PDict b' \<and>
    (\<forall>k. truthy (dget (pf_boundaries local) k) \<longrightarrow> dget b' k = dget (pf_boundaries local) k) \<and>
    (\<forall>old s. dget pol ''never_say'' = PList old \<and> PStr s \<in> set old \<and> py_strip s \<noteq> [] \<longrightarrow>
       (\<exists>new. dget pol' ''never_say'' = PList new \<and> (PStr s \<in> set new \<or> PStr (py_strip s) \<in> set new))) \<and>
    (\<forall>k\<in>{''refuse_harmful'', ''first_person''}. truthy (dget pol k) \<longrightarrow> truthy (dget pol' k)) \<and>
    dget pol' ''proactivity'' = dget pol ''proactivity'' \<and>
    traits_ok pm \<and> pm_generation pm = 0 \<and> (\<exists>meta. pm_persona pm = Some meta \<and> dget meta ''digest'' = PStr (pk_digest pk))"
proof (rule birthE [OF birth])
  fix pm0 pol0 pol2 pol3 vs y x
  assume g: "genesis F now local = Inr pm0" and "extract_policy local = Inr pol0"
    and never: "adopt_never pk vs (adopt_wording (pk_speech pk) ''offer'' (adopt_wording (pk_speech pk) ''greeting'' pol0)) = Inr (pol2, y)"
    and bounds: "adopt_boundaries pk pol2 = Inr (pol3, x)"
    and policy: "pm_policy pm = PDict (adopt_flag (pk_policy pk) ''first_person'' (adopt_flag (pk_policy pk) ''refuse_harmful'' pol3))"
    and rest: "pm_traits pm = adopt_traits (pk_traits pk) (pm_traits pm0)" "pm_generation pm = pm_generation pm0"
      "pm_persona pm = Some (pack_meta F stamp pk)"
  then have pol: "pol0 = pol" using local by simp
  define pol' where "pol' = adopt_flag (pk_policy pk) ''first_person'' (adopt_flag (pk_policy pk) ''refuse_harmful'' pol3)"
  note frames = adopt_frames(1,2) adopt_frames(3) [OF bounds] adopt_frames(4) [OF never]
  have b2: "dget pol2 ''boundaries'' = PDict (pf_boundaries local)"
    using extract_policy_fields [OF local] by (simp add: frames pol)
  obtain b' where b': "dget pol' ''boundaries'' = PDict b'"
      and on: "\<And>k. truthy (dget (pf_boundaries local) k) \<Longrightarrow> dget b' k = dget (pf_boundaries local) k"
    using adopted_boundaries [OF bounds b2] by (auto simp: pol'_def frames)
  have "\<exists>new. dget pol' ''never_say'' = PList new \<and> (PStr s \<in> set new \<or> PStr (py_strip s) \<in> set new)"
    if "dget pol ''never_say'' = PList old" "PStr s \<in> set old" "py_strip s \<noteq> []" for old s
    using adopt_never_keeps [OF never _ that(2,3)] that(1) by (simp add: pol'_def frames pol)
  moreover have "truthy (dget pol k) \<Longrightarrow> truthy (dget pol' k)" if "k \<in> {''refuse_harmful'', ''first_person''}" for k
    using that by (auto simp: pol'_def frames pol intro!: adopt_flag_keeps)
  moreover have "dget pol' ''proactivity'' = dget pol ''proactivity''"
    by (simp add: pol'_def frames pol)
  moreover have "traits_ok pm"
    using adopt_traits_ok [OF genesis_traits_ok [OF g, unfolded traits_ok_def] pack_traits_ok [OF pack]]
    by (simp add: traits_ok_def rest)
  moreover have "pm_generation pm = 0" "pm_persona pm = Some (pack_meta F stamp pk)"
    using rest genesis_meta [OF g] by simp_all
  moreover have "dget (pack_meta F stamp pk) ''digest'' = PStr (pk_digest pk)"
    by (simp add: pack_meta_def dget_def)
  ultimately show ?thesis
    using policy b' on unfolding pol'_def [symmetric] by blast
qed

lemma pack_fields:
  "pack_from_dict F H source (PDict d) = Inr pk \<Longrightarrow> pk_speech pk = as_dict (dget d ''speech'') \<and>
     pk_policy pk = as_dict (dget d ''policy'') \<and> pk_voice pk = as_dict (dget d ''voice'')"
  by (auto simp: pack_from_dict_def Let_def split: if_splits sum.splits)

lemma adopt_never_total: "dget pol ''never_say'' = PList old \<Longrightarrow> \<exists>pol' y. adopt_never pk vs pol = Inr (pol', y)"
  by (simp add: adopt_never_def split: prod.split)

lemma adopt_boundaries_total:
  "dget pol ''boundaries'' = PDict b \<Longrightarrow> dget (pk_policy pk) ''boundaries'' = PDict d \<Longrightarrow> \<exists>r. adopt_boundaries pk pol = Inr r"
  by (simp add: adopt_boundaries_def split: prod.split)

lemma sample_pack_fields:
  "pk_speech sample_pack = [(''never_say'', PList [PStr ''obey''])]"
  "pk_policy sample_pack = [(''boundaries'', PDict [(''refuse_harmful'', PBool False)]), (''refuse_harmful'', PBool False)]"
  "pk_voice sample_pack = [(''max_sentences'', PStr ''many'')]"
  using pack_fields [OF sample_pack_accepted] by (simp_all add: sample_pack_data_def dget_def)

lemma sample_declares: "dget (pk_policy sample_pack) ''boundaries'' = PDict [(''refuse_harmful'', PBool False)]"
  by (simp add: sample_pack_fields dget_def)

lemma extract_default:
  "\<exists>pol. extract_policy default_profile = Inr pol \<and>
     dget pol ''never_say'' = PList [PStr ''As an AI'', PStr (''I'' @ apos @ ''m just an AI''), PStr (''I don'' @ apos @ ''t have feelings'')]"
  by (simp add: extract_policy_def default_profile_def dget_def)

definition adopted :: "personality \<times> birth_report" where
  "adopted = (case birth plain_floats 0 1 sample_pack default_profile of Inr r \<Rightarrow> r)"

lemma adopted_birth: "birth plain_floats 0 1 sample_pack default_profile = Inr adopted"
proof -
  obtain pol where pol: "extract_policy default_profile = Inr pol" "pm_policy born = PDict pol"
    using genesis_policy [OF born_alive] by blast
  note fields = extract_policy_fields [OF pol(1)]
  define pol1 where "pol1 = adopt_wording (pk_speech sample_pack) ''offer'' (adopt_wording (pk_speech sample_pack) ''greeting'' pol)"
  have declared: "declared_never plain_floats sample_pack = Inr [PStr ''obey'']"
    by (simp add: declared_never_def sample_pack_fields dget_def list_or_empty_def)
  obtain pol2 y where never: "adopt_never sample_pack [PStr ''obey''] pol1 = Inr (pol2, y)"
    using fields adopt_never_total [of pol1 _ sample_pack "[PStr ''obey'']"] by (auto simp: adopt_frames(2) pol1_def)
  obtain r where bounds: "adopt_boundaries sample_pack pol2 = Inr r"
    using fields adopt_boundaries_total [OF _ sample_declares, of pol2 "pf_boundaries default_profile"]
    by (auto simp: adopt_frames(4) [OF never] adopt_frames(2) pol1_def)
  show ?thesis
    using bounds by (simp add: adopted_def birth_def born_alive pol pol1_def [symmetric] declared never split: prod.split)
qed

theorem adoption_only_tightens_witness:
  "\<exists>pol' b' new. pm_policy (fst adopted) = PDict pol' \<and> dget pol' ''boundaries'' = PDict b' \<and> dget b' ''refuse_harmful'' = PBool True \<and>
     dget pol' ''never_say'' = PList new \<and> PStr ''As an AI'' \<in> set new"
proof -
  obtain pol where pol: "extract_policy default_profile = Inr pol" and never: "dget pol ''never_say'' =
      PList [PStr ''As an AI'', PStr (''I'' @ apos @ ''m just an AI''), PStr (''I don'' @ apos @ ''t have feelings'')]"
    using extract_default by blast
  have on: "dget (pf_boundaries default_profile) ''refuse_harmful'' = PBool True"
    by (simp add: default_profile_def dget_def)
  have strip: "py_strip ''As an AI'' = ''As an AI''"
    by code_simp
  show ?thesis
    using adoption_only_tightens [OF sample_pack_accepted pol, of 0 1 "fst adopted" "snd adopted"] never on strip
    by (simp add: adopted_birth) (metis list.set_intros(1) list.distinct(1) truthy.simps(2))
qed

text \<open>A trait name may end in a newline: the pattern's dollar matches before it.\<close>

theorem newline_in_trait_name: "trait_name_ok (''warmth'' @ [CHR 10])"
  by code_simp

end
