(* ===== verification/Personality_Governor.thy ===== *)
theory Personality_Governor
  imports Persona_Shaper Persona_Pack Proposals
begin

text \<open>
  The personality layer that every decision passes: \<open>src/personality/governor.py\<close> (the structured policy, the verdict on a
  proposed action, the application of the verdict) and its callers in \<open>src/decision_engine.py\<close> (\<open>_apply_personality\<close> and
  \<open>_apply_persona\<close>). \<open>Decision\<close> takes this layer as its parameter \<open>tx_personality\<close>; here it is modelled. The text of an
  exception is the parameter \<open>msg\<close>.
\<close>

subsection \<open>Sentences and register\<close>

definition is_terminal :: "char \<Rightarrow> bool" where
  "is_terminal c \<longleftrightarrow> c = CHR ''.'' \<or> c = CHR ''!'' \<or> c = CHR ''?''"

fun split_on :: "(char \<Rightarrow> bool) \<Rightarrow> string \<Rightarrow> string list" where
  "split_on P [] = [[]]"
| "split_on P (c # s) =
     (if P c then [] # split_on P s
      else case split_on P s of [] \<Rightarrow> [[c]] | w # ws \<Rightarrow> (c # w) # ws)"

text \<open>Splitting at runs of terminators or at each one differs only by empty parts, which are not counted.\<close>

definition count_sentences :: "string \<Rightarrow> nat" where
  "count_sentences t =
     (if t = [] then 0 else max 1 (length (filter (\<lambda>p. py_strip p \<noteq> []) (split_on is_terminal t))))"

lemma length_dropWhile_less [termination_simp]: "length (dropWhile P s) < Suc (length s)"
  by (simp add: le_imp_less_Suc length_dropWhile_le)

text \<open>\<open>re.split(r'(?<=[.!?])\s+', t)\<close>; the flag says whether the previous character is a terminator.\<close>

fun split_sentences :: "bool \<Rightarrow> string \<Rightarrow> string list" where
  "split_sentences t [] = [[]]"
| "split_sentences t (c # s) =
     (if t \<and> is_space c then [] # split_sentences False (dropWhile is_space s)
      else case split_sentences (is_terminal c) s of [] \<Rightarrow> [[c]] | w # ws \<Rightarrow> (c # w) # ws)"

definition truncate_to_budget :: "string \<Rightarrow> nat \<Rightarrow> string" where
  "truncate_to_budget t budget =
     (let r = py_strip (join_sep '' '' (take budget (split_sentences False t)))
      in if r \<noteq> [] \<and> \<not> is_terminal (List.last r) then r @ ''.'' else r)"

text \<open>\<open>\w\<close> on the first 256 code points.\<close>

definition word_char :: "char \<Rightarrow> bool" where
  "word_char c =
     (let n = char_code c in
      slug_lower c \<or> slug_digit c \<or> (65 \<le> n \<and> n \<le> 90) \<or> n = 95 \<or> (192 \<le> n \<and> n \<noteq> 215 \<and> n \<noteq> 247) \<or>
      n \<in> {170, 178, 179, 181, 185, 186, 188, 189, 190})"

text \<open>The length of the tail of a contraction after the word \<open>w\<close>.\<close>

definition contraction_tail :: "string \<Rightarrow> string \<Rightarrow> nat option" where
  "contraction_tail w rest =
     (if 2 \<le> length w \<and> List.last w = CHR ''n'' \<and> py_startswith rest (apos @ ''t'') then Some 2
      else if list_ex (\<lambda>e. py_startswith rest (apos @ e)) [''re'', ''ll'', ''ve''] then Some 3
      else if list_ex (\<lambda>e. py_startswith rest (apos @ e)) [''d'', ''m''] then Some 2
      else None)"

function contractions :: "string \<Rightarrow> nat" where
  "contractions [] = 0"
| "contractions (c # s) =
     (if \<not> word_char c then contractions s
      else case contraction_tail (takeWhile word_char (c # s)) (dropWhile word_char (c # s)) of
             Some n \<Rightarrow> 1 + contractions (drop n (dropWhile word_char (c # s)))
           | None \<Rightarrow> contractions (dropWhile word_char (c # s)))"
  by pat_completeness auto

termination
  by (relation "measure length") (auto simp: less_Suc_eq_le length_dropWhile_le le_diff_conv intro: le_trans [OF length_dropWhile_le])

subsection \<open>The structured policy\<close>

record pers_policy =
  pp_budget :: int
  pp_warmth :: real
  pp_formality :: real
  pp_proactivity :: real
  pp_never :: "pyval list"
  pp_boundaries :: pydict
  pp_first_person :: bool
  pp_refuse_harmful :: bool

definition BLOCK_THRESHOLD :: real where "BLOCK_THRESHOLD = 3/10"
definition TONE_FLOOR :: real where "TONE_FLOOR = 2/10"
definition PROACTIVITY_THRESHOLD :: real where "PROACTIVITY_THRESHOLD = 4/10"

definition trait_or :: "real \<Rightarrow> personality \<Rightarrow> string \<Rightarrow> real" where
  "trait_or d pm t = (case map_of (pm_traits pm) t of None \<Rightarrow> d | Some s \<Rightarrow> tr_value s)"

definition governor_policy :: "personality \<Rightarrow> py_exn + pers_policy" where
  "governor_policy pm =
     (case py_int (dget_default (pm_voice pm) ''max_sentences'' (PInt 3)) of Inl x \<Rightarrow> Inl x | Inr n \<Rightarrow>
      case pm_policy pm of PDict pol \<Rightarrow>
        (case list_or_empty (dget pol ''never_say'') of Inl x \<Rightarrow> Inl x | Inr never \<Rightarrow>
         case dict_or_empty (dget pol ''boundaries'') of Inl x \<Rightarrow> Inl x | Inr boundaries \<Rightarrow>
         Inr \<lparr>pp_budget = max 1 (min 8 (round_even (of_int n * (1/2 + trait_or (1/2) pm ''verbosity'')))),
              pp_warmth = trait_or (1/2) pm ''warmth'', pp_formality = trait_or (3/10) pm ''formality'',
              pp_proactivity = trait_or (3/10) pm ''proactivity'', pp_never = never, pp_boundaries = boundaries,
              pp_first_person = truthy (dget_default pol ''first_person'' (PBool True)),
              pp_refuse_harmful = truthy (dget_default pol ''refuse_harmful'' (PBool True))\<rparr>)
      | _ \<Rightarrow> Inl AttributeErr)"

definition tone_match :: "string \<Rightarrow> pers_policy \<Rightarrow> real" where
  "tone_match t pol =
     (if py_words t = [] then 1
      else let casual = min 1 (real (contractions t) / real (length (py_words t)) / (15/100));
               score = (if pp_formality pol \<ge> 1/2 then max TONE_FLOOR (1 - casual) else max TONE_FLOOR (casual + 3/10))
           in max 0 (min 1 score))"

subsection \<open>The verdict\<close>

datatype disposition = Pass | Modify | Reroute

fun disposition_value :: "disposition \<Rightarrow> string" where
  "disposition_value Pass = ''pass''"
| "disposition_value Modify = ''modify''"
| "disposition_value Reroute = ''reroute''"

record verdict =
  pv_verdict :: disposition
  pv_tone :: real
  pv_verbosity_ok :: bool
  pv_appropriateness :: real
  pv_adjustments :: pydict
  pv_route_to :: "string option"
  pv_reason :: string

definition new_verdict :: verdict where
  "new_verdict = \<lparr>pv_verdict = Pass, pv_tone = 1, pv_verbosity_ok = True, pv_appropriateness = 1, pv_adjustments = [],
     pv_route_to = None, pv_reason = []\<rparr>"

definition opt_str :: "string option \<Rightarrow> pyval" where
  "opt_str x = (case x of None \<Rightarrow> PNone | Some s \<Rightarrow> PStr s)"

definition verdict_to_dict :: "floats \<Rightarrow> verdict \<Rightarrow> pydict" where
  "verdict_to_dict F v =
     [(''verdict'', PStr (disposition_value (pv_verdict v))), (''tone_score'', pfl F (pv_tone v)),
      (''verbosity_ok'', PBool (pv_verbosity_ok v)), (''appropriateness'', pfl F (pv_appropriateness v)),
      (''adjustments'', PDict (pv_adjustments v)), (''route_to'', opt_str (pv_route_to v)), (''reason'', PStr (pv_reason v))]"

fun first_text :: "pydict \<Rightarrow> string list \<Rightarrow> string" where
  "first_text params [] = []"
| "first_text params (k # ks) =
     (case dget params k of PStr s \<Rightarrow> if py_strip s \<noteq> [] then py_strip s else first_text params ks | _ \<Rightarrow> first_text params ks)"

definition extract_text :: "pyval \<Rightarrow> py_exn + string" where
  "extract_text params =
     (if \<not> truthy params then Inr []
      else case params of PDict d \<Rightarrow> Inr (first_text d [''text'', ''question'', ''content'', ''message''])
           | _ \<Rightarrow> Inl AttributeErr)"

fun never_hits :: "string \<Rightarrow> pyval list \<Rightarrow> py_exn + string list" where
  "never_hits t [] = Inr []"
| "never_hits t (v # vs) =
     (if t = [] \<or> \<not> truthy v then never_hits t vs
      else case v of PStr p \<Rightarrow>
        (case never_hits t vs of Inl x \<Rightarrow> Inl x
         | Inr hs \<Rightarrow> Inr (if py_contains (py_lower t) (py_lower p) then p # hs else hs))
      | _ \<Rightarrow> Inl AttributeErr)"

definition RATHER_NOT :: string where "RATHER_NOT = ''I'' @ apos @ ''d rather not say that.''"

definition blocked_verdict :: "floats \<Rightarrow> string list \<Rightarrow> verdict" where
  "blocked_verdict F hits =
     new_verdict\<lparr>pv_verdict := Reroute, pv_appropriateness := 0, pv_route_to := Some ''speak'',
       pv_adjustments := [(''text'', PStr RATHER_NOT), (''route_to'', PStr ''speak''), (''personality_blocked'', PList (map PStr hits))],
       pv_reason := ''content rule hit: forbidden phrase(s) '' @ py_repr (PList (map PStr hits)) @ ''; appropriateness '' @
         fl_fmt2 F 0 @ '' <= block threshold '' @ fl_fmt2 F BLOCK_THRESHOLD\<rparr>"

text \<open>The checks after the content rules: verbosity, register, proactivity, disposition.\<close>

definition style_verdict :: "floats \<Rightarrow> pers_policy \<Rightarrow> pyval \<Rightarrow> bool \<Rightarrow> string \<Rightarrow> verdict" where
  "style_verdict F pol action_type self_initiated t =
     (let n = count_sentences t;
          ok = (t = [] \<or> int n \<le> pp_budget pol);
          v = new_verdict\<lparr>pv_verbosity_ok := ok, pv_tone := (if t = [] then 1 else tone_match t pol)\<rparr>
      in if self_initiated \<and> action_type = PStr ''speak'' \<and> pp_proactivity pol < PROACTIVITY_THRESHOLD
         then v\<lparr>pv_verdict := Reroute, pv_route_to := Some ''ask_user'', pv_adjustments := [(''route_to'', PStr ''ask_user'')],
                pv_reason := ''proactivity suppressed: trait '' @ fl_fmt2 F (pp_proactivity pol) @ '' < threshold '' @
                  fl_fmt2 F PROACTIVITY_THRESHOLD\<rparr>
         else if \<not> ok
         then v\<lparr>pv_verdict := Modify, pv_adjustments := [(''text'', PStr (truncate_to_budget t (nat (pp_budget pol))))],
                pv_reason := ''verbosity '' @ show_nat n @ '' > budget '' @ show_int (pp_budget pol) @ ''; truncated''\<rparr>
         else v\<lparr>pv_reason := ''within personality policy''\<rparr>)"

definition annotate :: "floats \<Rightarrow> (py_exn \<Rightarrow> string) \<Rightarrow> personality \<Rightarrow> bool \<Rightarrow> pydict \<Rightarrow> verdict" where
  "annotate F msg pm self_initiated action =
     (case (case extract_text (dget action ''params'') of Inl x \<Rightarrow> Inl x | Inr t \<Rightarrow>
            case governor_policy pm of Inl x \<Rightarrow> Inl x | Inr pol \<Rightarrow>
            case never_hits t (pp_never pol) of Inl x \<Rightarrow> Inl x | Inr hits \<Rightarrow>
            Inr (if hits \<noteq> [] then blocked_verdict F hits
                 else style_verdict F pol (dget action ''action_type'') self_initiated t)) of
        Inl x \<Rightarrow> new_verdict\<lparr>pv_reason := ''governor error (fail open): '' @ msg x\<rparr>
      | Inr v \<Rightarrow> v)"

definition apply_verdict :: "verdict \<Rightarrow> pydict \<Rightarrow> py_exn + pydict" where
  "apply_verdict v action =
     (let route = (if pv_verdict v = Reroute then dget_default (pv_adjustments v) ''route_to'' (opt_str (pv_route_to v)) else PNone)
      in if pv_verdict v = Pass then Inr action
         else if pv_adjustments v = [] \<and> \<not> truthy route then Inr action
         else case dict_or_empty (dget action ''params'') of Inl x \<Rightarrow> Inl x | Inr params \<Rightarrow>
           if pv_verdict v = Reroute then
             let a = (if truthy route then dset ''action_type'' route action else action);
                 ps = (case map_of (pv_adjustments v) ''text'' of None \<Rightarrow> params | Some t \<Rightarrow> dset ''text'' t params)
             in Inr (dset ''personality_rerouted'' (PBool True) (dset ''params'' (PDict ps) a))
           else Inr (dset ''personality_modified'' (PBool True)
                  (dset ''params'' (PDict (dict_merge params (pv_adjustments v))) action)))"

subsection \<open>The callers in the decision engine\<close>

fun exn_label :: "py_exn \<Rightarrow> string" where
  "exn_label ValueErr = ''ValueError''"
| "exn_label TypeErr = ''TypeError''"
| "exn_label AttributeErr = ''AttributeError''"
| "exn_label KeyErr = ''KeyError''"
| "exn_label OSErr = ''OSError''"
| "exn_label RuntimeErr = ''RuntimeError''"

record pers_layer =
  pl_governor :: "personality option"
  pl_shaper :: "shaper option"
  pl_fetch :: "string \<Rightarrow> pyval option"
  pl_post :: "pyval \<Rightarrow> string + pyval"

text \<open>The decision with the shaper's words; the events are what the layer records in memory.\<close>

definition persona_result :: "string \<Rightarrow> pydict \<Rightarrow> pydict \<Rightarrow> string \<Rightarrow> pydict \<Rightarrow> pydict \<times> (string \<times> pydict) list" where
  "persona_result label params decision draft result =
     (let said = py_strip (text_field result ''text'');
          spoken = (if said = [] then draft else said);
          d = (if spoken \<noteq> draft then dset ''params'' (PDict (dset ''text'' (PStr spoken) params)) decision else decision)
      in (dset ''persona'' (PDict [(''source'', dget result ''source''), (''label'', PStr label), (''draft'', PStr draft),
            (''reason'', PStr (take 200 (text_field result ''reason'')))]) d,
          [(''persona_phrasing'', [(''source'', dget result ''source''), (''label'', PStr label), (''action_type'', dget decision ''action_type'')])]))"

definition apply_persona :: "(py_exn \<Rightarrow> string) \<Rightarrow> bool \<Rightarrow> pydict \<Rightarrow> pers_layer \<Rightarrow> pers_layer \<times> pydict \<times> (string \<times> pydict) list" where
  "apply_persona msg advisory decision pl =
     (case pl_shaper pl of None \<Rightarrow> (pl, decision, []) | Some sh \<Rightarrow>
      let params = as_dict (dget decision ''params''); draft = py_strip (text_field params ''text'')
      in if advisory \<or> \<not> sh_enabled sh then (pl, decision, [])
         else if text_field decision ''action_type'' \<notin> {''speak'', ''ask_user''} then (pl, decision, [])
         else if draft = [] then (pl, decision, [])
         else case shape (pl_fetch pl) (pl_post pl) draft (dget decision ''personality_verdict'') sh of
           (sh', r) \<Rightarrow> (pl\<lparr>pl_shaper := Some sh'\<rparr>,
             persona_result (sh_label sh) params decision draft
               (case r of Inl x \<Rightarrow> shape_result draft ''unavailable'' draft (exn_label x @ '': '' @ msg x) | Inr result \<Rightarrow> result)))"

definition apply_personality :: "floats \<Rightarrow> (py_exn \<Rightarrow> string) \<Rightarrow> pydict \<Rightarrow> bool \<Rightarrow> pydict \<Rightarrow> pers_layer \<Rightarrow> pers_layer \<times> pydict \<times> (string \<times> pydict) list" where
  "apply_personality F msg task advisory decision pl =
     (case pl_governor pl of None \<Rightarrow> apply_persona msg advisory decision pl | Some pm \<Rightarrow>
      let v = annotate F msg pm (truthy (dget task ''self_initiated'')) decision
      in case (if advisory then Inr decision else apply_verdict v decision) of
           Inl x \<Rightarrow> apply_persona msg advisory
             (dset ''personality_verdict'' (PDict [(''verdict'', PStr ''pass''), (''reason'', PStr (''governor failure (ignored): '' @ msg x))]) decision) pl
         | Inr d \<Rightarrow>
             (case apply_persona msg advisory (dset ''personality_verdict'' (PDict (verdict_to_dict F v)) d) pl of
                (pl', d', es) \<Rightarrow> (pl', d',
                  (''personality_verdict'', [(''verdict'', PStr (disposition_value (pv_verdict v))), (''reason'', PStr (pv_reason v)),
                     (''tone_score'', pfl F (pv_tone v)), (''appropriateness'', pfl F (pv_appropriateness v)),
                     (''action_type'', dget d ''action_type'')]) # es)))"

subsection \<open>The layer never escalates\<close>

lemma annotate_cases:
  obtains (failed) r where "annotate F msg pm si action = new_verdict\<lparr>pv_reason := r\<rparr>"
  | (blocked) t pol hits where "extract_text (dget action ''params'') = Inr t" "governor_policy pm = Inr pol"
      "never_hits t (pp_never pol) = Inr hits" "hits \<noteq> []" "annotate F msg pm si action = blocked_verdict F hits"
  | (style) t pol where "extract_text (dget action ''params'') = Inr t" "governor_policy pm = Inr pol"
      "never_hits t (pp_never pol) = Inr []" "annotate F msg pm si action = style_verdict F pol (dget action ''action_type'') si t"
proof (cases "\<exists>t pol hits. extract_text (dget action ''params'') = Inr t \<and> governor_policy pm = Inr pol \<and> never_hits t (pp_never pol) = Inr hits")
  case True
  then obtain t pol hits where ok: "extract_text (dget action ''params'') = Inr t" "governor_policy pm = Inr pol"
      "never_hits t (pp_never pol) = Inr hits" by blast
  show thesis
  proof (cases "hits = []")
    case True
    then show thesis using ok by (intro style [of t pol]) (simp_all add: annotate_def)
  next
    case False
    then show thesis using ok by (intro blocked [of t pol hits]) (simp_all add: annotate_def)
  qed
next
  case False
  then have "\<exists>r. annotate F msg pm si action = new_verdict\<lparr>pv_reason := r\<rparr>"
    by (cases "extract_text (dget action ''params'')"; cases "governor_policy pm")
      (auto simp: annotate_def split: sum.split)
  then show thesis using failed by blast
qed

lemma annotate_route:
  assumes "pv_verdict (annotate F msg pm si action) = Reroute"
  shows "dget_default (pv_adjustments (annotate F msg pm si action)) ''route_to'' x \<in> {PStr ''speak'', PStr ''ask_user''}"
  using assms
  by (cases rule: annotate_cases [of F msg pm si action])
    (auto simp: new_verdict_def blocked_verdict_def style_verdict_def dget_default_def Let_def split: if_splits)

lemma apply_verdict_type:
  assumes "apply_verdict (annotate F msg pm si action) action = Inr a"
  shows "dget a ''action_type'' = dget action ''action_type'' \<or> dget a ''action_type'' \<in> {PStr ''speak'', PStr ''ask_user''}"
proof (cases "pv_verdict (annotate F msg pm si action) = Reroute")
  case True
  note r = annotate_route [OF this]
  show ?thesis
    using assms True r [of "opt_str (pv_route_to (annotate F msg pm si action))"]
    by (auto simp: apply_verdict_def Let_def split: if_splits sum.splits)
next
  case False
  then show ?thesis
    using assms by (cases "pv_verdict (annotate F msg pm si action)") (auto simp: apply_verdict_def Let_def split: if_splits sum.splits)
qed

lemma persona_frame:
  assumes "apply_persona msg advisory d pl = (pl', d', es)"
  shows "dget d' ''action_type'' = dget d ''action_type''" "advisory \<Longrightarrow> d' = d"
    "pl_governor pl' = pl_governor pl" "pl_shaper pl = None \<or> (\<exists>sh. pl_shaper pl = Some sh \<and> \<not> sh_enabled sh) \<Longrightarrow> d' = d"
  using assms
  by (auto simp: apply_persona_def persona_result_def Let_def split: option.splits if_splits prod.splits sum.splits)

lemma apply_personality_cases:
  assumes "apply_personality F msg task advisory d pl = (pl', d', es)"
  obtains (off) "pl_governor pl = None" "apply_persona msg advisory d pl = (pl', d', es)"
  | (failed) pm x nt where "pl_governor pl = Some pm" "\<not> advisory"
      "apply_verdict (annotate F msg pm (truthy (dget task ''self_initiated'')) d) d = Inl x"
      "apply_persona msg advisory (dset ''personality_verdict'' nt d) pl = (pl', d', es)"
  | (judged) pm v a es' where "pl_governor pl = Some pm" "v = annotate F msg pm (truthy (dget task ''self_initiated'')) d"
      "if advisory then a = d else apply_verdict v d = Inr a"
      "apply_persona msg advisory (dset ''personality_verdict'' (PDict (verdict_to_dict F v)) a) pl = (pl', d', es')"
proof (cases "pl_governor pl")
  case None
  then show thesis using assms by (intro off) (simp_all add: apply_personality_def)
next
  case (Some pm)
  define v where "v = annotate F msg pm (truthy (dget task ''self_initiated'')) d"
  show thesis
  proof (cases "if advisory then Inr d else apply_verdict v d")
    case (Inl x)
    then show thesis
      using assms Some by (intro failed) (auto simp: apply_personality_def v_def Let_def split: if_splits)
  next
    case (Inr a)
    then show thesis
      using assms Some
      by (intro judged [OF Some v_def, of a "tl es"]) (auto simp: apply_personality_def v_def Let_def split: if_splits prod.splits)
  qed
qed

text \<open>C8: The personality layer never escalates. Whatever the character, its policy (malformed ones included), the proposed
  decision and the persona endpoint, the type of the resulting action is the proposed one, or speaking or asking the user; so
  if it is consent-gated, it was proposed. On the tool path the layer changes neither the type nor the parameters.\<close>

theorem personality_never_escalates:
  assumes "apply_personality F msg task advisory d pl = (pl', d', es)"
  shows "(dget d' ''action_type'' = dget d ''action_type'' \<or> dget d' ''action_type'' = PStr ''speak'' \<or> dget d' ''action_type'' = PStr ''ask_user'') \<and>
    (\<forall>ty. ty \<in> set (consent_gated_types ft) \<and> dget d' ''action_type'' = PStr ty \<longrightarrow> dget d ''action_type'' = PStr ty) \<and>
    (advisory \<longrightarrow> dget d' ''action_type'' = dget d ''action_type'' \<and> dget d' ''params'' = dget d ''params'')"
proof -
  have ty: "dget d' ''action_type'' = dget d ''action_type'' \<or> dget d' ''action_type'' \<in> {PStr ''speak'', PStr ''ask_user''}"
    using assms
  proof (cases rule: apply_personality_cases)
    case (judged pm v a es')
    then show ?thesis
      using apply_verdict_type [of F msg pm "truthy (dget task ''self_initiated'')" d a] persona_frame(1) [OF judged(4)]
      by (auto split: if_splits)
  qed (auto dest!: persona_frame(1))
  moreover have "''speak'' \<notin> set (consent_gated_types ft)" "''ask_user'' \<notin> set (consent_gated_types ft)"
    by (auto simp: consent_gated_types_def action_class_defs)
  moreover have "dget d' ''action_type'' = dget d ''action_type'' \<and> dget d' ''params'' = dget d ''params''" if advisory
    using assms that by (cases rule: apply_personality_cases) (auto dest!: persona_frame(2))
  ultimately show ?thesis by auto
qed

subsection \<open>Forbidden phrases\<close>

lemma never_hits_total: "list_all (\<lambda>v. \<exists>s. v = PStr s) vs \<Longrightarrow> \<exists>hs. never_hits t vs = Inr hs"
  by (induction vs) auto

lemma never_hits_found:
  "never_hits t vs = Inr hs \<Longrightarrow> PStr p \<in> set vs \<Longrightarrow> p \<noteq> [] \<Longrightarrow> t \<noteq> [] \<Longrightarrow> py_contains (py_lower t) (py_lower p) \<Longrightarrow> hs \<noteq> []"
  by (induction vs arbitrary: hs) (auto split: if_splits pyval.splits sum.splits)

lemma contains_nonempty: "py_contains t p \<Longrightarrow> p \<noteq> [] \<Longrightarrow> t \<noteq> []"
  by (cases t) auto

lemma extract_text_dict: "extract_text params = Inr t \<Longrightarrow> t \<noteq> [] \<Longrightarrow> \<exists>d. params = PDict d"
  by (auto simp: extract_text_def split: if_splits pyval.splits)

definition no_shaper :: "pers_layer \<Rightarrow> bool" where
  "no_shaper pl \<longleftrightarrow> (case pl_shaper pl of None \<Rightarrow> True | Some sh \<Rightarrow> \<not> sh_enabled sh)"

lemma blocked_applied:
  "apply_verdict (blocked_verdict F hits) (action :: pydict) =
     (case dict_or_empty (dget action ''params'') of Inl x \<Rightarrow> Inl x
      | Inr ps \<Rightarrow> Inr (dset ''personality_rerouted'' (PBool True)
          (dset ''params'' (PDict (dset ''text'' (PStr RATHER_NOT) ps)) (dset ''action_type'' (PStr ''speak'') action))))"
  by (simp add: apply_verdict_def blocked_verdict_def new_verdict_def dget_default_def split: sum.split)


definition say_decision :: "string \<Rightarrow> pydict" where
  "say_decision s = [(''action_type'', PStr ''speak''), (''params'', PDict [(''text'', PStr s)])]"

definition quiet_layer :: "personality \<Rightarrow> pers_layer" where
  "quiet_layer pm = \<lparr>pl_governor = Some pm, pl_shaper = None, pl_fetch = (\<lambda>_. None), pl_post = (\<lambda>_. Inl [])\<rparr>"

lemma born_policy:
  "\<exists>pol. governor_policy born = Inr pol \<and> pp_never pol =
     [PStr ''As an AI'', PStr (''I'' @ apos @ ''m just an AI''), PStr (''I don'' @ apos @ ''t have feelings'')]"
proof -
  obtain pol where pol: "extract_policy default_profile = Inr pol" "pm_policy born = PDict pol"
    using genesis_policy [OF born_alive] by blast
  have voice: "dget_default (pm_voice born) ''max_sentences'' (PInt 3) = PInt 3"
    using genesis_voice [OF born_alive] by (auto simp: dget_default_def default_profile_def)
  show ?thesis
    using extract_default extract_policy_fields [OF pol(1)] pol by (auto simp: governor_policy_def voice)
qed


theorem personality_never_escalates_witness:
  "dget (fst (snd (apply_personality plain_floats (\<lambda>_. []) [] True [(''action_type'', PStr ''news_api'')] (quiet_layer born)))) ''action_type'' = PStr ''news_api''"
proof -
  obtain pl' d' es where r: "apply_personality plain_floats (\<lambda>_. []) [] True [(''action_type'', PStr ''news_api'')] (quiet_layer born) = (pl', d', es)"
    by (metis prod.exhaust)
  have "dget d' ''action_type'' = dget [(''action_type'', PStr ''news_api'')] ''action_type''"
    using personality_never_escalates [OF r] by blast
  then show ?thesis unfolding r by (simp add: dget_def)
qed

subsection \<open>Where the layer fails open\<close>

lemma unreadable_policy_passes: "governor_policy pm = Inl x \<Longrightarrow> pv_verdict (annotate F msg pm si action) = Pass"
  by (simp add: annotate_def new_verdict_def split: sum.split)

lemma adopted_voice: "dget_default (pm_voice (fst adopted)) ''max_sentences'' (PInt 3) = PStr ''many''"
proof (rule birthE [of plain_floats 0 1 sample_pack default_profile "fst adopted" "snd adopted"])
  show "birth plain_floats 0 1 sample_pack default_profile = Inr (fst adopted, snd adopted)"
    by (simp add: adopted_birth)
  fix pm0
  assume "pm_voice (fst adopted) = adopt_voice (pk_voice sample_pack) ''style'' (adopt_voice (pk_voice sample_pack) ''max_sentences'' (pm_voice pm0))"
  then show ?thesis
    by (simp add: adopt_voice_def sample_pack_fields dget_def map_of_dset dget_default_def)
qed

text \<open>The content rules fail open, and an accepted pack can make them. A pack whose voice block carries a sentence limit that is
  not a number passes validation; in the model born from it the structured policy cannot be computed, so every action passes
  unchanged, with its forbidden phrases, although those phrases are all still in the policy.\<close>

theorem pack_disables_content_rules:
  "pack_from_dict plain_floats (\<lambda>s. s) [] (PDict sample_pack_data) = Inr sample_pack \<and>
   birth plain_floats 0 1 sample_pack default_profile = Inr adopted \<and>
   pv_verdict (annotate F msg (fst adopted) si action) = Pass"
proof -
  have "governor_policy (fst adopted) = Inl ValueErr"
    by (simp add: governor_policy_def adopted_voice) code_simp
  then show ?thesis
    using sample_pack_accepted adopted_birth unreadable_policy_passes by blast
qed

text \<open>A forbidden phrase that the persona endpoint puts in is spoken: the phrases are checked before the shaper runs.\<close>

definition rude_body :: pyval where
  "rude_body = PDict [(''choices'', PList [PDict [(''text'', PStr ''As an AI, hello.'')]])]"

theorem persona_may_say_forbidden:
  "dget (as_dict (dget (fst (snd (apply_persona msg False (say_decision ''Hello.'')
      \<lparr>pl_governor = Some born, pl_shaper = Some voice_node, pl_fetch = (\<lambda>_. None), pl_post = (\<lambda>_. Inr rude_body)\<rparr>))) ''params'')) ''text''
     = PStr ''As an AI, hello.''"
proof -
  have on: "sh_enabled voice_node" "sh_model voice_node = ''m''" "py_strip ''Hello.'' = ''Hello.''" "py_strip ''As an AI, hello.'' = ''As an AI, hello.''"
    "first_message (dget (as_dict rude_body) ''choices'') = ''As an AI, hello.''"
    by code_simp+
  then show ?thesis
    by (simp add: apply_persona_def say_decision_def text_field_def dget_def [of "_ # _"] py_or_def shape_def persona_result_def shape_result_def
        Let_def)
qed

text \<open>The persona model is told the appropriateness only: tone and length are read under keys that the verdict does not have.\<close>

theorem persona_told_appropriateness_only:
  "verdict_details (verdict_to_dict F v) = [''appropriateness: '' @ fl_repr F (pv_appropriateness v)]"
  by (simp add: verdict_details_def verdict_to_dict_def dget_def py_or_def pfl_def)

text \<open>Counting and truncating disagree on what a sentence is: terminators without white space after them are counted but not cut.\<close>

theorem truncation_misses_dotted_text:
  "count_sentences (truncate_to_budget ''Open settings.network.proxy.host now.'' 1) = 4"
  by code_simp

subsection \<open>The verdict, exactly\<close>

definition forbidden :: "pers_policy \<Rightarrow> string \<Rightarrow> bool" where
  "forbidden pol t = list_ex (\<lambda>v. case v of PStr p \<Rightarrow> p \<noteq> [] \<and> py_contains (py_lower t) (py_lower p) | _ \<Rightarrow> False) (pp_never pol)"

lemma never_hits_iff:
  "never_hits t vs = Inr hs \<Longrightarrow> t \<noteq> [] \<Longrightarrow>
   hs \<noteq> [] \<longleftrightarrow> list_ex (\<lambda>v. case v of PStr p \<Rightarrow> p \<noteq> [] \<and> py_contains (py_lower t) (py_lower p) | _ \<Rightarrow> False) vs"
  by (induction vs arbitrary: hs) (auto split: if_splits pyval.splits sum.splits)

lemma never_hits_empty: "never_hits [] vs = Inr []"
  by (induction vs) auto

lemma forbidden_iff_hits: "never_hits t (pp_never pol) = Inr hs \<Longrightarrow> hs \<noteq> [] \<longleftrightarrow> forbidden pol t"
proof (cases "t = []")
  case True
  assume "never_hits t (pp_never pol) = Inr hs"
  moreover have "\<not> forbidden pol []"
    by (auto simp: forbidden_def list_ex_iff py_lower_def split: pyval.splits)
  ultimately show ?thesis by (simp add: True never_hits_empty)
qed (simp add: never_hits_iff forbidden_def)

text \<open>The verdict, exactly. With a readable policy whose forbidden phrases are texts, an action is rerouted exactly when its
  text contains a forbidden phrase or it is unprompted speech of a character whose proactivity is below the threshold;
  otherwise it is shortened exactly when it has more sentences than the budget, which is between 1 and 8.\<close>

theorem verdict_exactly:
  assumes "extract_text (dget action ''params'') = Inr t" "governor_policy pm = Inr pol" "list_all (\<lambda>v. \<exists>s. v = PStr s) (pp_never pol)"
    and v: "v = annotate F msg pm si action"
    and quiet: "quiet = (si \<and> dget action ''action_type'' = PStr ''speak'' \<and> pp_proactivity pol < PROACTIVITY_THRESHOLD)"
  shows "(pv_verdict v = Reroute \<longleftrightarrow> forbidden pol t \<or> quiet) \<and>
    (pv_verdict v = Modify \<longleftrightarrow> \<not> forbidden pol t \<and> \<not> quiet \<and> pp_budget pol < int (count_sentences t)) \<and>
    1 \<le> pp_budget pol \<and> pp_budget pol \<le> 8"
proof -
  obtain hs where hs: "never_hits t (pp_never pol) = Inr hs"
    using never_hits_total [OF assms(3)] by blast
  have budget: "1 \<le> pp_budget pol" "pp_budget pol \<le> 8"
    using assms(2) by (auto simp: governor_policy_def split: sum.splits pyval.splits)
  show ?thesis
  proof (cases "hs = []")
    case True
    then have "\<not> forbidden pol t" "v = style_verdict F pol (dget action ''action_type'') si t"
      using forbidden_iff_hits [OF hs] assms(1,2) hs by (simp_all add: v annotate_def)
    then show ?thesis
      using budget by (auto simp: style_verdict_def new_verdict_def quiet Let_def count_sentences_def)
  next
    case False
    then have "forbidden pol t" "v = blocked_verdict F hs"
      using forbidden_iff_hits [OF hs] assms(1,2) hs by (simp_all add: v annotate_def)
    then show ?thesis
      using budget by (simp add: blocked_verdict_def new_verdict_def)
  qed
qed

theorem verdict_exactly_witness:
  "pv_verdict (annotate plain_floats (\<lambda>_. []) born True (say_decision ''Hello there.'')) = Reroute"
proof -
  obtain pol where pol: "governor_policy born = Inr pol" and never: "pp_never pol =
      [PStr ''As an AI'', PStr (''I'' @ apos @ ''m just an AI''), PStr (''I don'' @ apos @ ''t have feelings'')]"
    using born_policy by blast
  have t: "extract_text (dget (say_decision ''Hello there.'') ''params'') = Inr ''Hello there.''"
    by code_simp
  have "trait_or (3/10) born ''proactivity'' = 3/10"
    by (simp add: trait_or_def genesis_traits [OF born_alive] BASELINE_TRAITS_def new_trait_def clamp01_def)
  then have "pp_proactivity pol < PROACTIVITY_THRESHOLD"
    using pol by (auto simp: governor_policy_def PROACTIVITY_THRESHOLD_def split: sum.splits pyval.splits)
  moreover have "dget (say_decision ''Hello there.'') ''action_type'' = PStr ''speak''"
    by (simp add: say_decision_def dget_def)
  ultimately show ?thesis
    using verdict_exactly [OF t pol _ refl refl, of plain_floats "\<lambda>_. []" True] by (simp add: never)
qed

subsection \<open>Truncation meets the budget\<close>

text \<open>The number of sentences, counted in one pass: a sentence counts at its first visible character.\<close>

fun sentences :: "bool \<Rightarrow> string \<Rightarrow> nat" where
  "sentences f [] = 0"
| "sentences f (c # s) =
     (if is_terminal c then sentences False s
      else if is_space c then sentences f s
      else (if f then 0 else 1) + sentences True s)"

fun in_sentence :: "bool \<Rightarrow> string \<Rightarrow> bool" where
  "in_sentence f [] = f"
| "in_sentence f (c # s) = in_sentence (if is_terminal c then False else if is_space c then f else True) s"

fun well_spaced :: "string \<Rightarrow> bool" where
  "well_spaced (c # d # s) = ((is_terminal c \<longrightarrow> is_terminal d \<or> is_space d) \<and> well_spaced (d # s))"
| "well_spaced s = True"

lemma strip_empty_iff: "py_strip p = [] \<longleftrightarrow> list_all is_space p"
  by (auto simp: py_strip_def strip_by_def dropWhile_eq_Nil_conv list_all_iff dest: set_dropWhileD)
    (metis dropWhile_eq_Nil_conv hd_dropWhile hd_in_set)

lemma split_on_nonempty: "split_on P s \<noteq> []"
  by (cases s) (auto split: list.splits)

lemma sentences_count:
  "length (filter (\<lambda>p. py_strip p \<noteq> []) (split_on is_terminal s)) = sentences False s"
  "length (filter (\<lambda>p. py_strip p \<noteq> []) (tl (split_on is_terminal s))) = sentences True s"
proof (induction s)
  case (Cons c s)
  obtain w ws where w: "split_on is_terminal s = w # ws"
    using split_on_nonempty by (meson list.exhaust)
  { case 1 show ?case using Cons by (simp add: w strip_empty_iff split: if_splits) }
  { case 2 show ?case using Cons by (simp add: w strip_empty_iff) }
qed (simp_all add: strip_empty_iff)

lemma sentences_append: "sentences f (a @ b) = sentences f a + sentences (in_sentence f a) b"
  by (induction a arbitrary: f) auto

lemma sentences_spaces: "list_all is_space s \<Longrightarrow> (\<And>c. c \<in> set s \<Longrightarrow> \<not> is_terminal c) \<Longrightarrow> sentences f s = 0 \<and> in_sentence f s = f"
  by (induction s) auto

lemma space_not_terminal: "is_space c \<Longrightarrow> \<not> is_terminal c"
  by (auto simp: is_space_def is_terminal_def char_code_def)

lemma well_spaced_tail: "well_spaced (c # s) \<Longrightarrow> well_spaced s"
  by (cases s) auto

lemma well_spaced_dropWhile: "well_spaced s \<Longrightarrow> well_spaced (dropWhile P s)"
  by (induction s) (auto dest: well_spaced_tail)

lemma split_pieces:
  assumes "well_spaced s" "b \<longrightarrow> s = [] \<or> is_terminal (hd s) \<or> is_space (hd s)"
  shows "\<exists>w ws. split_sentences b s = w # ws \<and> sentences True w = 0 \<and> sentences False w \<le> (if b then 0 else 1) \<and>
    (ws \<noteq> [] \<longrightarrow> \<not> in_sentence False w \<and> (\<not> b \<longrightarrow> \<not> in_sentence True w)) \<and>
    list_all (\<lambda>p. sentences False p \<le> 1) ws \<and> list_all (\<lambda>p. \<not> in_sentence False p) (butlast ws)"
  using assms
proof (induction b s rule: split_sentences.induct)
  case (2 b c s)
  show ?case
  proof (cases "b \<and> is_space c")
    case True
    then obtain w ws where "split_sentences False (dropWhile is_space s) = w # ws" "sentences False w \<le> 1"
        "ws \<noteq> [] \<longrightarrow> \<not> in_sentence False w" "list_all (\<lambda>p. sentences False p \<le> 1) ws" "list_all (\<lambda>p. \<not> in_sentence False p) (butlast ws)"
      using 2(1) [OF True] well_spaced_dropWhile [OF well_spaced_tail [OF 2(3)]] by auto
    then show ?thesis using True by auto
  next
    case False
    have next_ok: "is_terminal c \<longrightarrow> s = [] \<or> is_terminal (hd s) \<or> is_space (hd s)"
      using 2(3) by (cases s) auto
    obtain w ws where w: "split_sentences (is_terminal c) s = w # ws" "sentences True w = 0" "sentences False w \<le> (if is_terminal c then 0 else 1)"
        "ws \<noteq> [] \<longrightarrow> \<not> in_sentence False w \<and> (\<not> is_terminal c \<longrightarrow> \<not> in_sentence True w)"
        "list_all (\<lambda>p. sentences False p \<le> 1) ws" "list_all (\<lambda>p. \<not> in_sentence False p) (butlast ws)"
      using 2(2) [OF False well_spaced_tail [OF 2(3)] next_ok] by auto
    have "is_terminal c" if b using 2(4) False that by auto
    then show ?thesis using False w by (auto split: if_splits)
  qed
qed simp

lemma join_sentences:
  assumes "list_all (\<lambda>p. sentences False p \<le> 1) ps" "list_all (\<lambda>p. \<not> in_sentence False p) (butlast ps)"
  shows "sentences False (join_sep '' '' ps) \<le> length ps"
  using assms
proof (induction ps)
  case (Cons p ps)
  show ?case
  proof (cases ps)
    case Nil
    then show ?thesis using Cons.prems by (simp add: join_sep_def)
  next
    case (Cons q qs)
    have "join_sep '' '' (p # ps) = p @ '' '' @ join_sep '' '' ps"
      by (simp add: Cons join_sep_def)
    moreover have "sentences False ('' '' @ x) = sentences False x" for x
      by (simp add: is_terminal_def is_space_def char_code_def)
    ultimately show ?thesis
      using Cons.prems Cons.IH Cons by (simp add: sentences_append)
  qed
qed (simp add: join_sep_def)

lemma strip_parts: "\<exists>a b. s = a @ py_strip s @ b \<and> list_all is_space a \<and> list_all is_space b"
proof -
  define m where "m = dropWhile is_space s"
  have s: "s = takeWhile is_space s @ m" by (simp add: m_def)
  have "rev m = takeWhile is_space (rev m) @ dropWhile is_space (rev m)" by simp
  then have "m = py_strip s @ rev (takeWhile is_space (rev m))"
    unfolding py_strip_def strip_by_def m_def by (metis rev_append rev_rev_ident)
  moreover have "list_all is_space (takeWhile is_space s)" "list_all is_space (rev (takeWhile is_space (rev m)))"
    by (auto simp: list_all_iff dest: set_takeWhileD)
  ultimately show ?thesis using s by metis
qed

lemma sentences_strip: "sentences False (py_strip s) = sentences False s"
proof -
  obtain a b where s: "s = a @ py_strip s @ b" and "list_all is_space a" "list_all is_space b"
    using strip_parts by blast
  then have "sentences False (a @ m @ b) = sentences False m" for m
    using sentences_spaces [of a] sentences_spaces [of b] space_not_terminal
    by (simp add: sentences_append list_all_iff)
  then show ?thesis using s by metis
qed

lemma set_butlast_take: "set (butlast (take n xs)) \<subseteq> set (butlast xs)"
proof (cases "n < length xs")
  case True
  then have "n - 1 \<le> length xs - 1" by simp
  from set_take_subset_set_take [OF this, of xs] True show ?thesis
    by (simp add: butlast_take butlast_conv_take)
qed simp

lemma truncated_within_budget:
  assumes "well_spaced t" "1 \<le> n"
  shows "count_sentences (truncate_to_budget t n) \<le> n"
proof -
  define ps where "ps = take n (split_sentences False t)"
  have "list_all (\<lambda>p. sentences False p \<le> 1) (split_sentences False t)"
      "list_all (\<lambda>p. \<not> in_sentence False p) (butlast (split_sentences False t))"
    using split_pieces [OF assms(1), of False] by auto
  then have "list_all (\<lambda>p. sentences False p \<le> 1) ps" "list_all (\<lambda>p. \<not> in_sentence False p) (butlast ps)"
    using set_butlast_take [of n "split_sentences False t"] by (auto simp: ps_def list_all_iff dest: in_set_takeD)
  then have "sentences False (join_sep '' '' ps) \<le> n"
    using join_sentences [of ps] by (simp add: ps_def)
  moreover have "sentences False (r @ ''.'') = sentences False r" for r
    by (simp add: sentences_append is_terminal_def)
  ultimately have "sentences False (truncate_to_budget t n) \<le> n"
    by (simp add: truncate_to_budget_def Let_def sentences_strip ps_def [symmetric])
  then show ?thesis
    using assms(2) by (simp add: count_sentences_def sentences_count(1))
qed

text \<open>A text that is shortened is within the budget afterwards, when each terminator in it is followed by another one, by white
  space or by the end of the text.\<close>

theorem shortened_text_within_budget:
  assumes "extract_text (dget action ''params'') = Inr t" "governor_policy pm = Inr pol" "well_spaced t"
    and "pv_verdict (annotate F msg pm si action) = Modify"
  shows "\<exists>r. pv_adjustments (annotate F msg pm si action) = [(''text'', PStr r)] \<and> int (count_sentences r) \<le> pp_budget pol"
proof (cases rule: annotate_cases [of F msg pm si action])
  case (style t' pol')
  have "1 \<le> pp_budget pol"
    using assms(2) by (auto simp: governor_policy_def split: sum.splits pyval.splits)
  then have "int (count_sentences (truncate_to_budget t (nat (pp_budget pol)))) \<le> pp_budget pol"
    using truncated_within_budget [OF assms(3), of "nat (pp_budget pol)"] by linarith
  then show ?thesis
    using assms style by (auto simp: style_verdict_def new_verdict_def Let_def split: if_splits)
qed (use assms in \<open>auto simp: new_verdict_def blocked_verdict_def\<close>)

theorem shortened_text_within_budget_witness:
  "\<exists>r. pv_adjustments (annotate plain_floats (\<lambda>_. []) born False (say_decision ''One. Two. Three. Four. Five.'')) = [(''text'', PStr r)] \<and>
     int (count_sentences r) \<le> 8"
proof -
  obtain pol where pol: "governor_policy born = Inr pol" and never: "pp_never pol =
      [PStr ''As an AI'', PStr (''I'' @ apos @ ''m just an AI''), PStr (''I don'' @ apos @ ''t have feelings'')]"
    using born_policy by blast
  have t: "extract_text (dget (say_decision ''One. Two. Three. Four. Five.'') ''params'') = Inr ''One. Two. Three. Four. Five.''"
      "well_spaced ''One. Two. Three. Four. Five.''" "count_sentences ''One. Two. Three. Four. Five.'' = 5"
      "never_hits ''One. Two. Three. Four. Five.'' [PStr ''As an AI'', PStr (''I'' @ apos @ ''m just an AI''), PStr (''I don'' @ apos @ ''t have feelings'')] = Inr []"
    by code_simp+
  have n: "dget_default (pm_voice born) ''max_sentences'' (PInt 3) = PInt 3"
    using genesis_voice [OF born_alive] by (auto simp: dget_default_def default_profile_def)
  have half: "trait_or (1/2) born ''verbosity'' = 1/2"
    by (simp add: trait_or_def genesis_traits [OF born_alive] BASELINE_TRAITS_def new_trait_def clamp01_def)
  have "round_even (of_int 3 * (1/2 + trait_or (1/2) born ''verbosity'')) = 3"
    unfolding half by (simp add: round_even_def)
  then have budget: "pp_budget pol = 3"
    using pol by (simp add: governor_policy_def n split: sum.splits pyval.splits) auto
  have "pv_verdict (annotate plain_floats (\<lambda>_. []) born False (say_decision ''One. Two. Three. Four. Five.'')) = Modify"
    by (simp add: annotate_def t(1,3) pol t(4) [folded never] style_verdict_def new_verdict_def budget)
  from shortened_text_within_budget [OF t(1) pol t(2) this] show ?thesis
    by (auto simp: budget)
qed

end
