(* ===== verification/Layer_Split.thy ===== *)
theory Layer_Split
  imports Mesh_Election "HOL-Library.Word"
begin

text \<open>
  Splitting a model's layers over peripherals, \<open>src/mesh_rpc.py\<close>: the search for the server binary, the test for a private
  address, the headroom of a device, the plan of the split, and the launcher of the unauthenticated RPC server. The
  standard library's reading of an address and its notion of a private one are parameters, an IPv4 address is a 32-bit word; the
  process table is a trace of spawned commands, and the answer of a signal a parameter. The Windows branches and the memory
  of other processes are not modelled.
\<close>

subsection \<open>The binary\<close>

definition RPC_BINARY_NAMES :: "string list" where
  "RPC_BINARY_NAMES = [''ggml-rpc-server'', ''rpc-server'']"

text \<open>\<open>os.path.join(prefix, 'bin', name)\<close>.\<close>

definition bin_path :: "string \<Rightarrow> string \<Rightarrow> string" where
  "bin_path pre name = pre @ (if py_endswith pre ''/'' then [] else ''/'') @ ''bin/'' @ name"

text \<open>\<open>usable\<close> says whether a path exists and is executable; \<open>which\<close> is the lookup on the search path.\<close>

definition find_rpc_server :: "string \<Rightarrow> string \<Rightarrow> (string \<Rightarrow> bool) \<Rightarrow> (string \<Rightarrow> string option) \<Rightarrow> string option" where
  "find_rpc_server override pre usable which =
     (if py_strip override \<noteq> [] then Some (py_strip override)
      else case find usable (if pre = [] then [] else map (bin_path pre) RPC_BINARY_NAMES) of
             Some p \<Rightarrow> Some p
           | None \<Rightarrow> (case find (\<lambda>n. which n \<noteq> None \<and> which n \<noteq> Some []) RPC_BINARY_NAMES of None \<Rightarrow> None | Some n \<Rightarrow> which n))"

subsection \<open>Private addresses\<close>

datatype ip_addr = V4 "32 word" | V6 "128 word"

record ip_lib =
  ip_parse :: "string \<Rightarrow> ip_addr option"
  ip_private :: "ip_addr \<Rightarrow> bool"
  ip_loopback :: "ip_addr \<Rightarrow> bool"
  ip_link_local :: "ip_addr \<Rightarrow> bool"

fun ip_unspecified :: "ip_addr \<Rightarrow> bool" where
  "ip_unspecified (V4 a) = (a = 0)"
| "ip_unspecified (V6 a) = (a = 0)"

text \<open>Membership in 100.64.0.0/10.\<close>

fun in_cgnat :: "ip_addr \<Rightarrow> bool" where
  "in_cgnat (V4 a) = (drop_bit 22 a = 0x191)"
| "in_cgnat (V6 a) = False"

definition is_private_bind :: "ip_lib \<Rightarrow> string \<Rightarrow> bool" where
  "is_private_bind L host =
     (let t = py_strip host in
      if t = [] then False
      else if t = ''localhost'' then True
      else case ip_parse L t of None \<Rightarrow> False
           | Some a \<Rightarrow> if ip_unspecified a then False
                        else if in_cgnat a then True
                        else ip_loopback L a \<or> ip_private L a \<or> ip_link_local L a)"

subsection \<open>Headroom and the plan\<close>

definition DEFAULT_RESERVE_BYTES :: int where "DEFAULT_RESERVE_BYTES = 192 * 1024 * 1024"

definition usable_headroom :: "pyval \<Rightarrow> pyval \<Rightarrow> int \<Rightarrow> py_exn + int" where
  "usable_headroom mem advertised reserve =
     (case py_int (py_or mem (PInt 0)) of Inl x \<Rightarrow> Inl x | Inr measured \<Rightarrow>
      if measured \<le> 0 then Inr 0
      else if truthy advertised
      then (case py_int advertised of Inl x \<Rightarrow> Inl x | Inr a \<Rightarrow> Inr (max 0 (min measured a - reserve)))
      else Inr (max 0 (measured - reserve)))"

record candidate =
  cd_id :: string
  cd_layers :: int
  cd_room :: int

datatype node_check = Ignored | Skipped string string "int option" | Fits candidate

definition thermal_value :: "pyval \<Rightarrow> int option" where
  "thermal_value v = (if v = PNone then None else case py_int v of Inl _ \<Rightarrow> None | Inr n \<Rightarrow> Some n)"

text \<open>One pass of the loop over the nodes; the third part of \<open>Skipped\<close> is the headroom it recorded.\<close>

definition check_node :: "int \<Rightarrow> int \<Rightarrow> pydict \<Rightarrow> py_exn + node_check" where
  "check_node reserve cost node =
     (let d = py_strip (py_str (py_or (dget node ''device_id'') (PStr []))) in
      if d = [] then Inr Ignored
      else if dget node ''paired'' = PBool False then Inr (Skipped d ''unpaired'' None)
      else if (case thermal_value (dget node ''thermal_status'') of None \<Rightarrow> False | Some n \<Rightarrow> n \<ge> THERMAL_REFUSE_STATUS)
      then Inr (Skipped d (''thermal_status='' @ show_int (the (thermal_value (dget node ''thermal_status'')))) None)
      else case usable_headroom (dget node ''mem_available_bytes'') (dget node ''advertised_bytes'') reserve of
             Inl x \<Rightarrow> Inl x
           | Inr room \<Rightarrow>
               if room div cost \<le> 0 then Inr (Skipped d ''insufficient_headroom'' (Some room))
               else Inr (Fits \<lparr>cd_id = d, cd_layers = room div cost, cd_room = room\<rparr>))"

fun check_nodes :: "int \<Rightarrow> int \<Rightarrow> pydict list \<Rightarrow> py_exn + node_check list" where
  "check_nodes reserve cost [] = Inr []"
| "check_nodes reserve cost (n # ns) =
     (case check_node reserve cost n of Inl x \<Rightarrow> Inl x | Inr c \<Rightarrow>
      case check_nodes reserve cost ns of Inl x \<Rightarrow> Inl x | Inr cs \<Rightarrow> Inr (c # cs))"

definition fitting :: "node_check list \<Rightarrow> candidate list" where
  "fitting cs = concat (map (\<lambda>c. case c of Fits x \<Rightarrow> [x] | _ \<Rightarrow> []) cs)"

definition skipped_of :: "node_check list \<Rightarrow> (string \<times> string) list" where
  "skipped_of cs = concat (map (\<lambda>c. case c of Skipped d r _ \<Rightarrow> [(d, r)] | _ \<Rightarrow> []) cs)"

definition headroom_of :: "node_check list \<Rightarrow> (string \<times> int) list" where
  "headroom_of cs = fold (\<lambda>c h. case c of Fits x \<Rightarrow> AList.update (cd_id x) (cd_room x) h
     | Skipped d _ (Some room) \<Rightarrow> AList.update d room h | _ \<Rightarrow> h) cs []"

fun take_layers :: "int \<Rightarrow> candidate list \<Rightarrow> (string \<times> int) list \<Rightarrow> (string \<times> int) list" where
  "take_layers left [] asg = asg"
| "take_layers left (c # cs) asg =
     (if left \<le> 0 then asg
      else if min (cd_layers c) left \<le> 0 then take_layers left cs asg
      else take_layers (left - min (cd_layers c) left) cs (AList.update (cd_id c) (min (cd_layers c) left) asg))"

record split_plan =
  sp_assignments :: "(string \<times> int) list"
  sp_remote :: int
  sp_local :: int
  sp_skipped :: "(string \<times> string) list"
  sp_headroom :: "(string \<times> int) list"
  sp_cost :: int
  sp_cache :: int
  sp_slots :: int

text \<open>The cache per layer; a value that is no number counts as none here.\<close>

definition cache_cost :: "pyval \<Rightarrow> pyval \<Rightarrow> int" where
  "cache_cost cache slots =
     (case py_int (py_or cache (PInt 0)) of Inl _ \<Rightarrow> 0 | Inr c \<Rightarrow>
      case py_int (py_or slots (PInt 1)) of Inl _ \<Rightarrow> 0 | Inr s \<Rightarrow> max 0 c * max 1 s)"

definition plan_budget :: "int \<Rightarrow> int \<Rightarrow> int" where
  "plan_budget all_layers local_min = max 0 (all_layers - max 0 (min local_min all_layers))"

definition plan_layer_split :: "pydict list \<Rightarrow> int \<Rightarrow> int \<Rightarrow> int \<Rightarrow> int \<Rightarrow> pyval \<Rightarrow> pyval \<Rightarrow> py_exn + split_plan" where
  "plan_layer_split nodes total_layers bytes_per_layer local_min reserve cache slots =
     (let all_layers = max 0 total_layers; cost = max 1 bytes_per_layer + cache_cost cache slots;
          budget = plan_budget all_layers local_min
      in case check_nodes reserve cost nodes of Inl x \<Rightarrow> Inl x | Inr cs \<Rightarrow>
         let asg = take_layers budget (sort_key (\<lambda>c. (- cd_room c, cd_id c)) (fitting cs)) [];
             remote = sum_list (map snd asg)
         in case py_int (py_or slots (PInt 1)) of Inl x \<Rightarrow> Inl x | Inr s \<Rightarrow>
            Inr \<lparr>sp_assignments = asg, sp_remote = remote, sp_local = all_layers - remote, sp_skipped = skipped_of cs,
                 sp_headroom = headroom_of cs, sp_cost = cost, sp_cache = cache_cost cache slots, sp_slots = max 1 s\<rparr>)"

subsection \<open>The launcher\<close>

record launcher =
  ln_binary :: "string option"
  ln_host :: string
  ln_port :: int
  ln_threads :: int
  ln_devices :: "string list"
  ln_extra :: "string list"
  ln_allow_lan :: bool
  ln_proc :: "nat option"
  ln_spawned :: "string list list"
  ln_audit :: "(string \<times> pydict) list"

text \<open>\<open>binary\<close> is the given path, or else what \<open>find_rpc_server\<close> found.\<close>

definition new_launcher :: "string option \<Rightarrow> string \<Rightarrow> int \<Rightarrow> int option \<Rightarrow> int \<Rightarrow> string list \<Rightarrow> string list \<Rightarrow> bool \<Rightarrow> launcher" where
  "new_launcher binary host port threads cpus devices extra allow_lan =
     \<lparr>ln_binary = binary, ln_host = (if host = [] then ''127.0.0.1'' else host), ln_port = max 1 (min 65535 port),
      ln_threads = (case threads of Some t \<Rightarrow> if t \<noteq> 0 then max 1 t else max 1 (cpus div 2) | None \<Rightarrow> max 1 (cpus div 2)),
      ln_devices = devices, ln_extra = extra, ln_allow_lan = allow_lan, ln_proc = None, ln_spawned = [], ln_audit = []\<rparr>"

definition rpc_endpoint :: "launcher \<Rightarrow> string" where
  "rpc_endpoint l = ln_host l @ '':'' @ show_int (ln_port l)"

definition rpc_command :: "launcher \<Rightarrow> string list" where
  "rpc_command l =
     [case ln_binary l of None \<Rightarrow> [] | Some b \<Rightarrow> b, ''-H'', ln_host l, ''-p'', show_int (ln_port l), ''-t'', show_int (ln_threads l)] @
     (if ln_devices l \<noteq> [] then [''-d'', join_sep '','' (ln_devices l)] else []) @ ln_extra l"

definition ln_log :: "string \<Rightarrow> pydict \<Rightarrow> launcher \<Rightarrow> launcher" where
  "ln_log ty p l = l\<lparr>ln_audit := ln_audit l @ [(ty, p)]\<rparr>"

text \<open>\<open>spawn\<close> is the process id of the child, or nothing when spawning raises.\<close>

definition rpc_spawn :: "nat option \<Rightarrow> launcher \<Rightarrow> launcher \<times> bool" where
  "rpc_spawn spawn l =
     (case spawn of
        None \<Rightarrow> (l\<lparr>ln_proc := None\<rparr>, False)
      | Some pid \<Rightarrow> (ln_log ''mesh_rpc_started'' [(''endpoint'', PStr (rpc_endpoint l)), (''threads'', PInt (ln_threads l))]
           (l\<lparr>ln_proc := Some pid, ln_spawned := ln_spawned l @ [rpc_command l]\<rparr>), True))"

definition rpc_start :: "ip_lib \<Rightarrow> nat option \<Rightarrow> launcher \<Rightarrow> launcher \<times> bool" where
  "rpc_start L spawn l =
     (if ln_binary l = None \<or> ln_binary l = Some [] then (l, False)
      else if \<not> is_private_bind L (ln_host l)
      then if \<not> ln_allow_lan l then (ln_log ''mesh_rpc_bind_refused'' [(''host'', PStr (ln_host l))] l, False)
           else rpc_spawn spawn (ln_log ''mesh_rpc_bind_exposed'' [(''host'', PStr (ln_host l)), (''port'', PInt (ln_port l))] l)
      else rpc_spawn spawn l)"

text \<open>What signalling a process with 0 says: it is there, there is none, it is there and not ours, another error.\<close>

datatype kill_probe = Signalled | NoSuchProcess | NotPermitted | OtherOsError

definition process_alive :: "(int \<Rightarrow> kill_probe) \<Rightarrow> pyval \<Rightarrow> bool" where
  "process_alive kill0 pid =
     (case py_int pid of Inl _ \<Rightarrow> False | Inr p \<Rightarrow> if p \<le> 0 then False else kill0 p = Signalled \<or> kill0 p = NotPermitted)"

text \<open>The directory part of a path, and the child's environment with the loader path the binary needs.\<close>

definition path_dirname :: "string \<Rightarrow> string" where
  "path_dirname p = (let up = rev (dropWhile (\<lambda>c. c \<noteq> CHR ''/'') (rev p)) in
     if up \<noteq> [] \<and> (\<exists>c\<in>set up. c \<noteq> CHR ''/'') then py_rstrip_char (CHR ''/'') up else up)"

definition child_env :: "(string \<times> string) list \<Rightarrow> launcher \<Rightarrow> (string \<times> string) list" where
  "child_env env l =
     (let dir = path_dirname (case ln_binary l of None \<Rightarrow> [] | Some b \<Rightarrow> b);
          old = (case map_of env ''LD_LIBRARY_PATH'' of None \<Rightarrow> [] | Some v \<Rightarrow> v)
      in if dir = [] then env
         else AList.update ''LD_LIBRARY_PATH'' (join_sep '':'' (filter (\<lambda>p. p \<noteq> []) [dir, old])) env)"

definition rpc_running :: "(nat \<Rightarrow> bool) \<Rightarrow> launcher \<Rightarrow> bool" where
  "rpc_running alive l = (case ln_proc l of None \<Rightarrow> False | Some pid \<Rightarrow> alive pid)"

definition rpc_stop :: "launcher \<Rightarrow> launcher \<times> bool" where
  "rpc_stop l =
     (case ln_proc l of
        None \<Rightarrow> (l, True)
      | Some _ \<Rightarrow> (ln_log ''mesh_rpc_stopped'' [(''endpoint'', PStr (rpc_endpoint l))] (l\<lparr>ln_proc := None\<rparr>), True))"

subsection \<open>The plan fits\<close>

lemma check_nodes_sound:
  "check_nodes reserve cost nodes = Inr cs \<Longrightarrow> c \<in> set cs \<Longrightarrow> \<exists>n\<in>set nodes. check_node reserve cost n = Inr c"
  by (induction nodes arbitrary: cs) (auto split: sum.splits)

definition entitled :: "int \<Rightarrow> pydict \<Rightarrow> string \<Rightarrow> int \<Rightarrow> bool" where
  "entitled reserve n d bytes \<longleftrightarrow>
     py_strip (py_str (py_or (dget n ''device_id'') (PStr []))) = d \<and> dget n ''paired'' \<noteq> PBool False \<and>
     (case thermal_value (dget n ''thermal_status'') of None \<Rightarrow> True | Some t \<Rightarrow> t < THERMAL_REFUSE_STATUS) \<and>
     (\<exists>room measured. usable_headroom (dget n ''mem_available_bytes'') (dget n ''advertised_bytes'') reserve = Inr room \<and> bytes \<le> room \<and>
        py_int (py_or (dget n ''mem_available_bytes'') (PInt 0)) = Inr measured \<and> room + reserve \<le> measured)"

lemma headroom_measured:
  "usable_headroom mem adv reserve = Inr room \<Longrightarrow> 0 < room \<Longrightarrow> \<exists>measured. py_int (py_or mem (PInt 0)) = Inr measured \<and> room + reserve \<le> measured"
  by (auto simp: usable_headroom_def split: sum.splits if_splits)

lemma fits_entitled:
  assumes "check_node reserve cost n = Inr (Fits c)" "0 < cost" "k \<le> cd_layers c"
  shows "entitled reserve n (cd_id c) (k * cost) \<and> 0 < cd_layers c"
proof -
  obtain room where room: "usable_headroom (dget n ''mem_available_bytes'') (dget n ''advertised_bytes'') reserve = Inr room"
      and c: "cd_id c = py_strip (py_str (py_or (dget n ''device_id'') (PStr [])))" "cd_layers c = room div cost" "0 < room div cost"
      and ok: "dget n ''paired'' \<noteq> PBool False" "case thermal_value (dget n ''thermal_status'') of None \<Rightarrow> True | Some t \<Rightarrow> t < THERMAL_REFUSE_STATUS"
    using assms(1) by (auto simp: check_node_def Let_def split: if_splits sum.splits option.splits)
  have "0 < room" using c(3) assms(2) by (simp add: pos_imp_zdiv_pos_iff)
  have "k * cost \<le> room div cost * cost" using assms(2,3) c(2) by (simp add: mult_right_mono)
  also have "\<dots> \<le> room" using assms(2) pos_mod_sign [of cost room] by (simp flip: minus_mod_eq_div_mult)
  finally show ?thesis
    using room c ok headroom_measured [OF room \<open>0 < room\<close>] by (auto simp: entitled_def)
qed

lemma set_update_subset_insert: "set (AList.update k v al) \<subseteq> insert (k, v) (set al)"
  by (induction al) auto

lemma sum_update_le:
  fixes v :: int
  assumes "\<And>k w. (k, w) \<in> set asg \<Longrightarrow> 0 \<le> w"
  shows "sum_list (map snd (AList.update d v asg)) \<le> sum_list (map snd asg) + v"
  using assms
proof (induction asg)
  case (Cons p asg)
  have "0 \<le> snd p" using Cons.prems [of "fst p" "snd p"] by simp
  moreover have "sum_list (map snd (AList.update d v asg)) \<le> sum_list (map snd asg) + v"
    by (rule Cons.IH) (use Cons.prems in auto)
  ultimately show ?case by (cases p) simp
qed simp

definition served_by :: "candidate set \<Rightarrow> string \<times> int \<Rightarrow> bool" where
  "served_by A p \<longleftrightarrow> 0 < snd p \<and> (\<exists>c\<in>A. cd_id c = fst p \<and> snd p \<le> cd_layers c)"

lemma take_layers_sound:
  assumes "0 \<le> left" "\<forall>p\<in>set asg. served_by A p" "set cs \<subseteq> A"
  shows "(\<forall>p\<in>set (take_layers left cs asg). served_by A p) \<and>
    sum_list (map snd (take_layers left cs asg)) \<le> sum_list (map snd asg) + left"
  using assms
proof (induction left cs asg rule: take_layers.induct)
  case (2 left c cs asg)
  note IH = 2(1,2) and left = 2(3) and asg = 2(4) and cs = 2(5)
  define v where "v = min (cd_layers c) left"
  consider (none) "left = 0" | (skip) "0 < left" "v \<le> 0" | (take) "0 < left" "0 < v"
    using left by linarith
  then show ?case
  proof cases
    case none
    then show ?thesis using asg by simp
  next
    case skip
    then have "take_layers left (c # cs) asg = take_layers left cs asg" by (auto simp: v_def min_def split: if_splits)
    then show ?thesis using IH(1) skip left asg cs by (simp add: v_def)
  next
    case take
    have step: "take_layers left (c # cs) asg = take_layers (left - v) cs (AList.update (cd_id c) v asg)"
      using take by (simp flip: v_def)
    have "served_by A (cd_id c, v)"
      using cs take by (auto simp: served_by_def v_def)
    then have new: "\<forall>p\<in>set (AList.update (cd_id c) v asg). served_by A p"
      using asg set_update_subset_insert [of "cd_id c" v asg] by blast
    have sum: "sum_list (map snd (AList.update (cd_id c) v asg)) \<le> sum_list (map snd asg) + v"
      by (rule sum_update_le) (use asg in \<open>force simp: served_by_def\<close>)
    have "(\<forall>p\<in>set (take_layers (left - v) cs (AList.update (cd_id c) v asg)). served_by A p) \<and>
      sum_list (map snd (take_layers (left - v) cs (AList.update (cd_id c) v asg))) \<le> sum_list (map snd (AList.update (cd_id c) v asg)) + (left - v)"
      unfolding v_def by (rule IH(2)) (use take new cs in \<open>auto simp: v_def\<close>)
    then show ?thesis unfolding step using sum by auto
  qed
qed auto

lemma fitting_iff: "c \<in> set (fitting cs) \<longleftrightarrow> Fits c \<in> set cs"
  by (force simp: fitting_def split: node_check.splits)

lemma cache_cost_nonneg: "0 \<le> cache_cost cache slots"
  by (simp add: cache_cost_def split: sum.split)

lemma plan_budget_nonneg: "0 \<le> plan_budget n local_min"
  by (simp add: plan_budget_def)

lemma plan_cases:
  assumes "plan_layer_split nodes n bytes local_min reserve cache slots = Inr p"
  obtains cs asg where "check_nodes reserve (sp_cost p) nodes = Inr cs"
    "asg = take_layers (plan_budget (max 0 n) local_min) (sort_key (\<lambda>c. (- cd_room c, cd_id c)) (fitting cs)) []"
    "sp_assignments p = asg" "sp_remote p = sum_list (map snd asg)" "sp_local p = max 0 n - sp_remote p"
    "sp_cost p = max 1 bytes + cache_cost cache slots"
proof -
  obtain cs where cs: "check_nodes reserve (max 1 bytes + cache_cost cache slots) nodes = Inr cs"
    using assms by (cases "check_nodes reserve (max 1 bytes + cache_cost cache slots) nodes") (simp_all add: plan_layer_split_def)
  obtain k where k: "py_int (py_or slots (PInt 1)) = Inr k"
    using assms cs by (cases "py_int (py_or slots (PInt 1))") (simp_all add: plan_layer_split_def Let_def)
  show thesis
    by (rule that [OF _ refl]) (use assms in \<open>auto simp: plan_layer_split_def Let_def cs k\<close>)
qed


definition tablet :: pydict where
  "tablet = [(''device_id'', PStr ''tab''), (''mem_available_bytes'', PInt 1000), (''thermal_status'', PInt 1)]"

lemma tablet_plan:
  "\<exists>p. plan_layer_split [tablet] 10 50 1 400 (PInt 10) (PInt 2) = Inr p \<and> sp_assignments p = [(''tab'', 8)] \<and> sp_cost p = 70"
proof -
  have "py_strip ''tab'' = ''tab''" by code_simp
  then show ?thesis
    by (simp add: plan_layer_split_def tablet_def check_node_def dget_def py_or_def thermal_value_def THERMAL_REFUSE_STATUS_def
        usable_headroom_def fitting_def cache_cost_def plan_budget_def)
qed


subsection \<open>The plan uses what there is\<close>

lemma update_append_new: "k \<notin> fst ` set al \<Longrightarrow> AList.update k v al = al @ [(k, v)]"
  by (induction al) auto

lemma take_layers_sum:
  assumes "0 \<le> left" "distinct (map cd_id cs)" "fst ` set asg \<inter> cd_id ` set cs = {}" "\<And>c. c \<in> set cs \<Longrightarrow> 0 < cd_layers c"
  shows "sum_list (map snd (take_layers left cs asg)) = sum_list (map snd asg) + min left (sum_list (map cd_layers cs))"
  using assms
proof (induction left cs asg rule: take_layers.induct)
  case (2 left c cs asg)
  have rest: "0 \<le> sum_list (map cd_layers cs)"
    by (rule sum_list_nonneg) (use 2(6) in \<open>auto simp: less_imp_le\<close>)
  have pos: "0 < cd_layers c" using 2(6) by simp
  show ?case
  proof (cases "left = 0")
    case True
    then show ?thesis using rest pos by simp
  next
    case False
    define v where "v = min (cd_layers c) left"
    have v: "0 < left" "0 < v" using False pos 2(3) by (auto simp: v_def)
    have le: "v \<le> left" by (simp add: v_def)
    have fresh: "cd_id c \<notin> fst ` set asg" using 2(5) by auto
    then have upd: "AList.update (cd_id c) v asg = asg @ [(cd_id c, v)]"
      by (rule update_append_new)
    have disj: "fst ` set (AList.update (cd_id c) v asg) \<inter> cd_id ` set cs = {}"
      using 2(4,5) by (auto simp: upd)
    have "sum_list (map snd (take_layers (left - v) cs (AList.update (cd_id c) v asg))) =
      sum_list (map snd (AList.update (cd_id c) v asg)) + min (left - v) (sum_list (map cd_layers cs))"
      using 2(2) [folded v_def] v le 2(4,6) disj by simp
    moreover have "take_layers left (c # cs) asg = take_layers (left - v) cs (AList.update (cd_id c) v asg)"
      using v by (simp flip: v_def)
    moreover have "sum_list (map snd (AList.update (cd_id c) v asg)) = sum_list (map snd asg) + v"
      by (simp add: upd)
    ultimately have "sum_list (map snd (take_layers left (c # cs) asg)) =
      sum_list (map snd asg) + v + min (left - v) (sum_list (map cd_layers cs))"
      by simp
    moreover have "v + min (left - v) (sum_list (map cd_layers cs)) = min left (cd_layers c + sum_list (map cd_layers cs))"
      using rest by (auto simp: v_def min_def)
    ultimately show ?thesis by simp
  qed
qed simp

lemma fits_positive: "check_node reserve cost n = Inr (Fits c) \<Longrightarrow> 0 < cd_layers c"
  by (auto simp: check_node_def Let_def split: if_splits sum.splits option.splits)

text \<open>The greedy assignment leaves nothing unused: when the devices that fit are distinct, the layers sent away are all that
  may leave the host, or all that the devices together can hold.\<close>

theorem plan_is_maximal:
  assumes "plan_layer_split nodes n bytes local_min reserve cache slots = Inr p"
    and cs: "check_nodes reserve (sp_cost p) nodes = Inr cs" and "distinct (map cd_id (fitting cs))"
  shows "sp_remote p = min (plan_budget (max 0 n) local_min) (sum_list (map cd_layers (fitting cs)))"
proof (rule plan_cases [OF assms(1)])
  fix cs' asg
  assume "check_nodes reserve (sp_cost p) nodes = Inr cs'"
    and asg: "asg = take_layers (plan_budget (max 0 n) local_min) (sort_key (\<lambda>c. (- cd_room c, cd_id c)) (fitting cs')) []"
    and p: "sp_remote p = sum_list (map snd asg)"
  then have same: "cs' = cs" using cs by simp
  define xs where "xs = sort_key (\<lambda>c. (- cd_room c, cd_id c)) (fitting cs)"
  have mset: "mset xs = mset (fitting cs)" by (simp add: xs_def)
  have "0 < cd_layers c" if "c \<in> set xs" for c
    using that check_nodes_sound [OF cs] fits_positive by (fastforce simp: xs_def fitting_iff)
  moreover have "distinct (map cd_id xs)"
    using assms(3) mset by (metis mset_eq_imp_distinct_iff mset_map)
  ultimately have "sum_list (map snd asg) = min (plan_budget (max 0 n) local_min) (sum_list (map cd_layers xs))"
    using take_layers_sum [OF plan_budget_nonneg, of xs "[]" "max 0 n" local_min] by (simp add: asg same xs_def)
  moreover have "sum_list (map cd_layers xs) = sum_list (map cd_layers (fitting cs))"
    using mset by (metis mset_map sum_mset_sum_list)
  ultimately show ?thesis using p by simp
qed

text \<open>A number of slots that is no number is tolerated for the cache and raises when the result is built.\<close>

theorem bad_slots_raise: "plan_layer_split [] n bytes local_min reserve cache (PStr ''two'') = Inl ValueErr"
proof -
  have "parse_int ''two'' = None" by code_simp
  then show ?thesis by (simp add: plan_layer_split_def py_or_def)
qed

text \<open>A negative reserve promises more than was measured.\<close>

theorem negative_reserve_overcommits: "usable_headroom (PInt 100) PNone (- 50) = Inr 150"
  by (simp add: usable_headroom_def py_or_def)

subsection \<open>The launcher never exposes the socket silently\<close>

datatype launch_op = LStart "nat option" | LStop

fun launch_step :: "ip_lib \<Rightarrow> launch_op \<Rightarrow> launcher \<Rightarrow> launcher" where
  "launch_step L (LStart spawn) l = fst (rpc_start L spawn l)"
| "launch_step L LStop l = fst (rpc_stop l)"

definition exposures :: "launcher \<Rightarrow> nat" where
  "exposures l = length (filter (\<lambda>(ty, p). ty = ''mesh_rpc_bind_exposed'' \<and> dget p ''host'' = PStr (ln_host l)) (ln_audit l))"

definition launch_inv :: "ip_lib \<Rightarrow> string \<Rightarrow> bool \<Rightarrow> launcher \<Rightarrow> bool" where
  "launch_inv L host allow l \<longleftrightarrow> ln_host l = host \<and> ln_allow_lan l = allow \<and>
     (\<not> is_private_bind L host \<longrightarrow> length (ln_spawned l) \<le> exposures l \<and> (\<not> allow \<longrightarrow> ln_spawned l = []))"

lemma spawn_frame:
  "ln_host (fst (rpc_spawn spawn l)) = ln_host l" "ln_allow_lan (fst (rpc_spawn spawn l)) = ln_allow_lan l"
  "exposures (fst (rpc_spawn spawn l)) = exposures l" "length (ln_spawned (fst (rpc_spawn spawn l))) \<le> Suc (length (ln_spawned l))"
  by (auto simp: rpc_spawn_def ln_log_def exposures_def split: option.split)

lemma log_frame:
  "ln_host (ln_log ty p l) = ln_host l" "ln_allow_lan (ln_log ty p l) = ln_allow_lan l" "ln_spawned (ln_log ty p l) = ln_spawned l"
  "exposures (ln_log ty p l) = exposures l + (if ty = ''mesh_rpc_bind_exposed'' \<and> dget p ''host'' = PStr (ln_host l) then 1 else 0)"
  by (simp_all add: ln_log_def exposures_def)

interpretation launch: invariant_machine "launch_step L" "launch_inv L host allow"
proof
  fix s :: launcher and p :: launch_op
  assume inv: "launch_inv L host allow s"
  show "launch_inv L host allow (launch_step L p s)"
  proof (cases p)
    case (LStart spawn)
    show ?thesis
    proof (cases "ln_binary s = None \<or> ln_binary s = Some []")
      case True
      then show ?thesis using inv by (simp add: LStart rpc_start_def)
    next
      case False
      consider "is_private_bind L host" | "\<not> is_private_bind L host" "allow" | "\<not> is_private_bind L host" "\<not> allow" by blast
      then show ?thesis
      proof cases
        case 1
        then show ?thesis using inv False by (auto simp: LStart rpc_start_def launch_inv_def spawn_frame)
      next
        case 2
        define l where "l = ln_log ''mesh_rpc_bind_exposed'' [(''host'', PStr host), (''port'', PInt (ln_port s))] s"
        have l: "launch_step L p s = fst (rpc_spawn spawn l)"
          using inv False 2 by (auto simp: LStart rpc_start_def launch_inv_def l_def)
        have "exposures l = Suc (exposures s)" "ln_spawned l = ln_spawned s" "ln_host l = host" "ln_allow_lan l = allow"
          using inv by (simp_all add: l_def log_frame dget_def launch_inv_def)
        then show ?thesis
          unfolding l launch_inv_def spawn_frame using inv 2 spawn_frame(4) [of spawn l]
          by (auto simp: launch_inv_def intro: order_trans)
      next
        case 3
        then show ?thesis using inv False by (auto simp: LStart rpc_start_def launch_inv_def log_frame)
      qed
    qed
  next
    case LStop
    then show ?thesis
      using inv by (auto simp: rpc_stop_def launch_inv_def ln_log_def exposures_def split: option.split)
  qed
qed


definition plain_ip :: ip_lib where
  "plain_ip = \<lparr>ip_parse = (\<lambda>s. if s = ''8.8.8.8'' then Some (V4 0x08080808) else if s = ''100.100.1.1'' then Some (V4 0x64640101)
     else if s = ''127.0.0.1'' then Some (V4 0x7F000001) else None),
     ip_private = (\<lambda>a. a = V4 0x7F000001), ip_loopback = (\<lambda>a. a = V4 0x7F000001), ip_link_local = (\<lambda>_. False)\<rparr>"

lemma plain_binds: "\<not> is_private_bind plain_ip ''8.8.8.8''" "is_private_bind plain_ip ''100.100.1.1''" "is_private_bind plain_ip ''127.0.0.1''"
proof -
  have "py_strip ''8.8.8.8'' = ''8.8.8.8''" "py_strip ''100.100.1.1'' = ''100.100.1.1''" "py_strip ''127.0.0.1'' = ''127.0.0.1''"
    by code_simp+
  then show "\<not> is_private_bind plain_ip ''8.8.8.8''" "is_private_bind plain_ip ''100.100.1.1''" "is_private_bind plain_ip ''127.0.0.1''"
    by (simp_all add: is_private_bind_def plain_ip_def)
qed


text \<open>Extra arguments come after the checked host, so they can bind the server elsewhere without the check and without an entry.\<close>

theorem extra_arguments_rebind:
  "let l = fst (rpc_start plain_ip (Some 7) (new_launcher (Some ''rpc-server'') ''127.0.0.1'' 50052 None 4 [] [''-H'', ''0.0.0.0''] False))
   in (\<exists>pre. ln_spawned l = [pre @ [''-H'', ''0.0.0.0'']]) \<and> exposures l = 0"
  by (simp add: rpc_start_def new_launcher_def plain_binds rpc_spawn_def rpc_command_def ln_log_def exposures_def)

text \<open>The child finds the libraries beside its binary, and keeps the inherited path.\<close>

theorem child_env_keeps_inherited:
  assumes "ln_binary l = Some b" "path_dirname b \<noteq> []" "map_of env ''LD_LIBRARY_PATH'' = Some old" "old \<noteq> []"
  shows "map_of (child_env env l) ''LD_LIBRARY_PATH'' = Some (path_dirname b @ '':'' @ old)"
    "k \<noteq> ''LD_LIBRARY_PATH'' \<Longrightarrow> map_of (child_env env l) k = map_of env k"
  using assms by (simp_all add: child_env_def Let_def join_sep_def update_conv')

text \<open>A second start replaces the handle of a running child, which no later stop ends.\<close>

theorem restart_orphans_child:
  "let l = run_ops (launch_step plain_ip) [LStart (Some 7), LStart (Some 8)] (new_launcher (Some ''rpc-server'') ''127.0.0.1'' 50052 None 4 [] [] False)
   in length (ln_spawned l) = 2 \<and> ln_proc l = Some 8 \<and> ln_proc (fst (rpc_stop l)) = None"
  by (simp add: rpc_start_def new_launcher_def plain_binds rpc_spawn_def ln_log_def rpc_stop_def)

end
