(* ===== verification/Gguf.thy ===== *)
theory Gguf
  imports Prelude "HOL-Library.Word"
begin

text \<open>
  The reader of GGUF headers, \<open>src/gguf_meta.py\<close>: from the bytes of a model file to the geometry that the layer planner needs, and
  the sizes computed from it. A file is a list of bytes and reading consumes a prefix of it. Text is a list of Unicode code
  points here, decoded as Python decodes UTF-8 with replacement. \<open>int\<close> of a text and \<open>str\<close> of a float are parameters.
\<close>

type_synonym byte = "8 word"
type_synonym utext = "nat list"

subsection \<open>UTF-8\<close>

definition codes :: "string \<Rightarrow> utext" where
  "codes s = map char_code s"

definition in_range :: "nat \<Rightarrow> nat \<Rightarrow> byte \<Rightarrow> bool" where
  "in_range lo hi b \<longleftrightarrow> lo \<le> unat b \<and> unat b \<le> hi"

text \<open>What a leading byte announces: the number of bytes that follow, the range of the first of them, and its own bits.\<close>

definition utf8_lead :: "byte \<Rightarrow> (nat \<times> nat \<times> nat \<times> nat) option" where
  "utf8_lead b =
     (if in_range 0xC2 0xDF b then Some (1, 0x80, 0xBF, unat b mod 32)
      else if in_range 0xE0 0xE0 b then Some (2, 0xA0, 0xBF, 0)
      else if in_range 0xED 0xED b then Some (2, 0x80, 0x9F, 0xD)
      else if in_range 0xE1 0xEF b then Some (2, 0x80, 0xBF, unat b mod 16)
      else if in_range 0xF0 0xF0 b then Some (3, 0x90, 0xBF, 0)
      else if in_range 0xF1 0xF3 b then Some (3, 0x80, 0xBF, unat b mod 8)
      else if in_range 0xF4 0xF4 b then Some (3, 0x80, 0x8F, 4)
      else None)"

text \<open>How many of the announced bytes are there: an ill-formed sequence is replaced up to the first byte that does not fit.\<close>

definition utf8_fitting :: "nat \<Rightarrow> nat \<Rightarrow> nat \<Rightarrow> byte list \<Rightarrow> nat" where
  "utf8_fitting n lo hi bs =
     (case bs of [] \<Rightarrow> 0
      | b # r \<Rightarrow> if in_range lo hi b then Suc (length (takeWhile (in_range 0x80 0xBF) (take (n - 1) r))) else 0)"

definition utf8_value :: "nat \<Rightarrow> byte list \<Rightarrow> nat" where
  "utf8_value hd_bits bs = foldl (\<lambda>a b. 64 * a + unat b mod 64) hd_bits bs"

function utf8_replace :: "byte list \<Rightarrow> utext" where
  "utf8_replace [] = []"
| "utf8_replace (b # bs) =
     (if unat b < 0x80 then unat b # utf8_replace bs
      else case utf8_lead b of
        None \<Rightarrow> 0xFFFD # utf8_replace bs
      | Some (n, lo, hi, v) \<Rightarrow>
          if utf8_fitting n lo hi bs = n then utf8_value v (take n bs) # utf8_replace (drop n bs)
          else 0xFFFD # utf8_replace (drop (utf8_fitting n lo hi bs) bs))"
  by pat_completeness auto
termination by (relation "measure length") auto

definition byte_of :: "nat \<Rightarrow> byte" where
  "byte_of n = word_of_nat n"

definition cont_byte :: "nat \<Rightarrow> byte" where
  "cont_byte n = byte_of (0x80 + n mod 64)"

definition utf8_char :: "nat \<Rightarrow> byte list" where
  "utf8_char c =
     (if c < 0x80 then [byte_of c]
      else if c < 0x800 then [byte_of (0xC0 + c div 64), cont_byte c]
      else if c < 0x10000 then [byte_of (0xE0 + c div 4096), cont_byte (c div 64), cont_byte c]
      else [byte_of (0xF0 + c div 262144), cont_byte (c div 4096), cont_byte (c div 64), cont_byte c])"

definition utf8_encode :: "utext \<Rightarrow> byte list" where
  "utf8_encode t = concat (map utf8_char t)"

subsection \<open>Values\<close>

fun from_le :: "byte list \<Rightarrow> nat" where
  "from_le [] = 0"
| "from_le (b # bs) = unat b + 256 * from_le bs"

definition u32 :: "byte list \<Rightarrow> nat" where
  "u32 data = (if length data \<ge> 4 then from_le (take 4 data) else 0)"

definition u64 :: "byte list \<Rightarrow> nat" where
  "u64 data = (if length data \<ge> 8 then from_le (take 8 data) else 0)"

text \<open>\<open>int.from_bytes(data, 'little', signed=True)\<close>.\<close>

definition signed_le :: "byte list \<Rightarrow> int" where
  "signed_le bs = (let n = int (from_le bs); m = 256 ^ length bs in if 2 * n < m then n else n - m)"

text \<open>A single-precision float: not a number, an infinity (negative or not), or a signed mantissa times a power of two.\<close>

datatype f32 = FNan | FInf bool | FNum int int

definition unpack_f :: "byte list \<Rightarrow> f32" where
  "unpack_f data =
     (let n = from_le data; neg = n div 2 ^ 31 = 1; ex = n div 2 ^ 23 mod 256; m = n mod 2 ^ 23;
          signed = (\<lambda>k. if neg then - int k else int k)
      in if ex = 255 then (if m = 0 then FInf neg else FNan)
         else if ex = 0 then FNum (signed m) (- 149)
         else FNum (signed (m + 2 ^ 23)) (int ex - 150))"

datatype gval = GNone | GBool bool | GInt int | GFloat f32 | GStr utext

definition FIXED_WIDTH :: "(nat \<times> nat) list" where
  "FIXED_WIDTH = [(0, 1), (1, 1), (2, 2), (3, 2), (4, 4), (5, 4), (6, 4), (7, 1), (10, 8), (11, 8), (12, 8)]"

definition read_string :: "byte list \<Rightarrow> utext option \<times> byte list" where
  "read_string h =
     (let raw = take 8 h; h1 = drop 8 h in
      if length raw < 8 then (None, h1)
      else let n = u64 raw in
        if n = 0 then (Some [], h1)
        else if n > 4 * 1024 * 1024 then (None, h1)
        else let data = take n h1; h2 = drop n h1 in
          if length data < n then (None, h2) else (Some (utf8_replace data), h2))"

text \<open>The branch of \<open>_item_size\<close> for the kind 12 and that of \<open>_read_value\<close> are never reached: 12 is in \<open>_FIXED_WIDTH\<close>.\<close>

definition item_size :: "nat \<Rightarrow> byte list \<Rightarrow> nat \<times> byte list" where
  "item_size kind h =
     (case map_of FIXED_WIDTH kind of
        Some w \<Rightarrow> (if length (take w h) = w then w else 0, drop w h)
      | None \<Rightarrow>
          if kind = 8 then
            (case read_string h of (None, h1) \<Rightarrow> (0, h1) | (Some t, h1) \<Rightarrow> (8 + length (utf8_encode t), h1))
          else if kind = 9 then (if length (take 12 h) = 12 then 16 else 0, drop 12 h)
          else (0, h))"

fun skip_items :: "nat \<Rightarrow> nat \<Rightarrow> nat \<Rightarrow> byte list \<Rightarrow> nat \<times> byte list" where
  "skip_items kind 0 spent h = (spent, h)"
| "skip_items kind (Suc n) spent h =
     (case item_size kind h of (sz, h1) \<Rightarrow> if sz = 0 then (spent, h1) else skip_items kind n (spent + sz) h1)"

definition read_fixed :: "nat \<Rightarrow> byte list \<Rightarrow> gval" where
  "read_fixed kind data =
     (if kind = 6 then GFloat (unpack_f data)
      else if kind = 7 then GBool (unat (hd data) \<noteq> 0)
      else if kind \<in> {1, 3, 5, 11} then GInt (signed_le data)
      else GInt (int (from_le data)))"

datatype scan = StopScan | Scanned gval nat "byte list"

text \<open>The depth is 0 in every call.\<close>

definition read_value :: "nat \<Rightarrow> byte list \<Rightarrow> scan" where
  "read_value depth h =
     (let raw = take 4 h; h1 = drop 4 h in
      if length raw < 4 then Scanned GNone 0 h1
      else let kind = u32 raw in
        if depth > 2 then Scanned GNone 4 h1
        else case map_of FIXED_WIDTH kind of
          Some w \<Rightarrow> (let data = take w h1; h2 = drop w h1 in
             if length data < w then Scanned GNone 4 h2 else Scanned (read_fixed kind data) (4 + w) h2)
        | None \<Rightarrow>
            if kind = 8 then
              (case read_string h1 of (None, h2) \<Rightarrow> Scanned GNone (4 + 8) h2
               | (Some t, h2) \<Rightarrow> Scanned (GStr t) (4 + (8 + length (utf8_encode t))) h2)
            else if kind = 9 then
              (let head = take 12 h1; h2 = drop 12 h1 in
               if length head < 12 then Scanned GNone 4 h2
               else let item_kind = u32 (take 4 head); items = u64 (drop 4 head) in
                 if items > 4096 then StopScan
                 else case skip_items item_kind items 16 h2 of (spent, h3) \<Rightarrow> Scanned GNone spent h3)
            else Scanned GNone 4 h1)"

subsection \<open>The header\<close>

definition GGUF_MAGIC :: "byte list" where "GGUF_MAGIC = [0x47, 0x47, 0x55, 0x46]"

definition WANTED_SUFFIXES :: "string list" where
  "WANTED_SUFFIXES = [''block_count'', ''attention.head_count'', ''attention.head_count_kv'', ''attention.key_length'',
     ''attention.value_length'', ''embedding_length'', ''context_length'']"

definition NEEDED :: "string list" where
  "NEEDED = [''block_count'', ''attention.head_count'', ''embedding_length'', ''attention.head_count_kv'']"

type_synonym gmeta = "(string \<times> gval) list"

fun gtruthy :: "gval \<Rightarrow> bool" where
  "gtruthy GNone = False"
| "gtruthy (GBool b) = b"
| "gtruthy (GInt n) = (n \<noteq> 0)"
| "gtruthy (GFloat (FNum m e)) = (m \<noteq> 0)"
| "gtruthy (GFloat _) = True"
| "gtruthy (GStr t) = (t \<noteq> [])"

fun gstr :: "(f32 \<Rightarrow> string) \<Rightarrow> gval \<Rightarrow> utext" where
  "gstr fr GNone = codes ''None''"
| "gstr fr (GBool b) = codes (if b then ''True'' else ''False'')"
| "gstr fr (GInt n) = codes (show_int n)"
| "gstr fr (GFloat x) = codes (fr x)"
| "gstr fr (GStr t) = t"

definition text_or_empty :: "(f32 \<Rightarrow> string) \<Rightarrow> gval \<Rightarrow> utext" where
  "text_or_empty fr v = (if gtruthy v then gstr fr v else [])"

definition starts :: "utext \<Rightarrow> utext \<Rightarrow> bool" where
  "starts t p \<longleftrightarrow> take (length p) t = p"

text \<open>\<open>name.split('.', 1)[1]\<close>, of a name with a dot.\<close>

definition after_dot :: "utext \<Rightarrow> utext" where
  "after_dot t = tl (dropWhile (\<lambda>c. c \<noteq> 46) t)"

definition wanted_key :: "utext \<Rightarrow> string option" where
  "wanted_key sfx = find (\<lambda>w. codes w = sfx) WANTED_SUFFIXES"

text \<open>What one pair adds: the architecture, or a wanted key under its prefix.\<close>

definition take_pair :: "(f32 \<Rightarrow> string) \<Rightarrow> utext \<Rightarrow> gval \<Rightarrow> utext \<times> gmeta \<Rightarrow> utext \<times> gmeta" where
  "take_pair fr name v s =
     (case s of (arch, out) \<Rightarrow>
      if name = codes ''general.architecture'' then (text_or_empty fr v, out)
      else if arch \<noteq> [] \<and> starts name (arch @ [46]) then
        (case wanted_key (after_dot name) of None \<Rightarrow> (arch, out) | Some w \<Rightarrow> (arch, AList.update w v out))
      else (arch, out))"

definition scan_done :: "utext \<times> gmeta \<Rightarrow> bool" where
  "scan_done s \<longleftrightarrow> fst s \<noteq> [] \<and> (\<forall>k\<in>set NEEDED. k \<in> fst ` set (snd s))"

fun parse_pairs :: "(f32 \<Rightarrow> string) \<Rightarrow> nat \<Rightarrow> nat \<Rightarrow> nat \<Rightarrow> byte list \<Rightarrow> utext \<times> gmeta \<Rightarrow> utext \<times> gmeta" where
  "parse_pairs fr max_bytes 0 consumed h s = s"
| "parse_pairs fr max_bytes (Suc n) consumed h s =
     (case read_string h of
        (None, _) \<Rightarrow> s
      | (Some name, h1) \<Rightarrow>
          if consumed + (length name + 8) > max_bytes then s
          else case read_value 0 h1 of
            StopScan \<Rightarrow> s
          | Scanned v sz h2 \<Rightarrow>
              (let s' = take_pair fr name v s in
               if scan_done s' then s' else parse_pairs fr max_bytes n (consumed + (length name + 8) + sz) h2 s'))"

definition close_meta :: "utext \<times> gmeta \<Rightarrow> gmeta" where
  "close_meta s = (if fst s \<noteq> [] then AList.update ''architecture'' (GStr (fst s)) (snd s) else snd s)"

definition parse_header :: "(f32 \<Rightarrow> string) \<Rightarrow> nat \<Rightarrow> nat \<Rightarrow> byte list \<Rightarrow> gmeta" where
  "parse_header fr max_bytes max_pairs h =
     (if take 4 h \<noteq> GGUF_MAGIC then []
      else let h1 = drop 4 h; version = u32 (take 4 h1); h2 = drop 4 h1 in
        if version \<notin> {2, 3} then []
        else let h3 = drop 8 h2; pairs = u64 (take 8 h3); h4 = drop 8 h3 in
          if pairs = 0 \<or> pairs > max_pairs then []
          else close_meta (parse_pairs fr max_bytes pairs 0 h4 ([], [])))"

text \<open>A file that cannot be opened gives no metadata.\<close>

definition read_metadata :: "(f32 \<Rightarrow> string) \<Rightarrow> byte list option \<Rightarrow> gmeta" where
  "read_metadata fr file =
     (case file of None \<Rightarrow> [] | Some h \<Rightarrow> parse_header fr (4 * 1024 * 1024) 4096 h)"

subsection \<open>Geometry\<close>

datatype int_exn = IntType | IntValue | IntOverflow

text \<open>\<open>int(x)\<close>: a float is truncated, an infinity overflows.\<close>

fun gint :: "(utext \<Rightarrow> int option) \<Rightarrow> gval \<Rightarrow> int_exn + int" where
  "gint si GNone = Inl IntType"
| "gint si (GBool b) = Inr (if b then 1 else 0)"
| "gint si (GInt n) = Inr n"
| "gint si (GFloat FNan) = Inl IntValue"
| "gint si (GFloat (FInf neg)) = Inl IntOverflow"
| "gint si (GFloat (FNum m e)) = Inr (if e \<ge> 0 then m * 2 ^ nat e else sgn m * (\<bar>m\<bar> div 2 ^ nat (- e)))"
| "gint si (GStr t) = (case si t of None \<Rightarrow> Inl IntValue | Some n \<Rightarrow> Inr n)"

definition mget :: "gmeta \<Rightarrow> string \<Rightarrow> gval" where
  "mget m k = (case map_of m k of None \<Rightarrow> GNone | Some v \<Rightarrow> v)"

definition gor :: "gval \<Rightarrow> gval \<Rightarrow> gval" where
  "gor a b = (if gtruthy a then a else b)"

text \<open>\<open>except (TypeError, ValueError): return 0\<close>; the division by zero that the source names cannot happen.\<close>

definition zero_unless_overflow :: "int_exn + int \<Rightarrow> int_exn + int" where
  "zero_unless_overflow r = (case r of Inl IntOverflow \<Rightarrow> Inl IntOverflow | Inl _ \<Rightarrow> Inr 0 | Inr n \<Rightarrow> Inr n)"

definition layer_count :: "(utext \<Rightarrow> int option) \<Rightarrow> gmeta \<Rightarrow> int_exn + int" where
  "layer_count si m =
     zero_unless_overflow (case gint si (case map_of m ''block_count'' of None \<Rightarrow> GInt 0 | Some v \<Rightarrow> v) of
        Inl x \<Rightarrow> Inl x | Inr n \<Rightarrow> Inr (max 0 n))"

definition head_dim :: "(utext \<Rightarrow> int option) \<Rightarrow> gmeta \<Rightarrow> int_exn + int" where
  "head_dim si m =
     (case gint si (gor (mget m ''attention.key_length'') (GInt 0)) of Inl x \<Rightarrow> Inl x | Inr d \<Rightarrow>
      if d \<noteq> 0 then Inr d
      else case gint si (gor (mget m ''embedding_length'') (GInt 0)) of Inl x \<Rightarrow> Inl x | Inr e \<Rightarrow>
        case gint si (gor (mget m ''attention.head_count'') (GInt 0)) of Inl x \<Rightarrow> Inl x | Inr t \<Rightarrow>
        Inr (if t \<noteq> 0 then e div t else 0))"

definition kv_bytes_per_token :: "(utext \<Rightarrow> int option) \<Rightarrow> gmeta \<Rightarrow> int \<Rightarrow> int_exn + int" where
  "kv_bytes_per_token si m dtype_bytes =
     zero_unless_overflow
       (case gint si (gor (gor (mget m ''attention.head_count_kv'') (mget m ''attention.head_count'')) (GInt 0)) of
          Inl x \<Rightarrow> Inl x | Inr heads \<Rightarrow>
        case head_dim si m of Inl x \<Rightarrow> Inl x | Inr hdim \<Rightarrow>
        Inr (if heads \<le> 0 \<or> hdim \<le> 0 then 0
             else 2 * heads * hdim * max 1 (if dtype_bytes \<noteq> 0 then dtype_bytes else 2)))"

definition slot_cache_bytes :: "(utext \<Rightarrow> int option) \<Rightarrow> gmeta \<Rightarrow> int \<Rightarrow> int \<Rightarrow> int \<Rightarrow> int \<Rightarrow> int_exn + int" where
  "slot_cache_bytes si m context slots layers dtype_bytes =
     (case kv_bytes_per_token si m dtype_bytes of Inl x \<Rightarrow> Inl x | Inr per_token \<Rightarrow>
      case (if layers \<noteq> 0 then Inr layers else layer_count si m) of Inl x \<Rightarrow> Inl x | Inr k \<Rightarrow>
      Inr (max 0 (per_token * max 0 context * max 1 (if slots \<noteq> 0 then slots else 1) * max 0 k)))"

subsection \<open>Decoding inverts encoding\<close>

definition scalar :: "nat \<Rightarrow> bool" where
  "scalar c \<longleftrightarrow> c < 0x110000 \<and> (c < 0xD800 \<or> 0xDFFF < c)"

lemma unat_byte: "unat (byte_of n) = n mod 256"
  by (simp add: byte_of_def unat_of_nat)

lemma unat_small: "n < 256 \<Longrightarrow> unat (byte_of n) = n"
  by (simp add: unat_byte)

lemma unat_cont: "unat (cont_byte n) = 0x80 + n mod 64"
proof -
  have "n mod 64 < 64" by simp
  then show ?thesis unfolding cont_byte_def by (subst unat_small) auto
qed

lemma cont_in_range: "in_range 0x80 0xBF (cont_byte n)"
proof -
  have "n mod 64 < 64" by simp
  then show ?thesis unfolding in_range_def unat_cont by linarith
qed

lemma cont_bits: "unat (cont_byte n) mod 64 = n mod 64"
  using mod_mult_self1 [of "n mod 64" 2 64] by (simp add: unat_cont add.commute)

lemma lead_two: "unat b = 0xC0 + d \<Longrightarrow> 2 \<le> d \<Longrightarrow> d < 32 \<Longrightarrow> utf8_lead b = Some (1, 0x80, 0xBF, d)"
  using mod_mult_self1 [of d 6 32] by (simp add: utf8_lead_def in_range_def add.commute)

lemma lead_three:
  assumes "unat b = 0xE0 + d" "d < 16"
  shows "utf8_lead b = Some (2, if d = 0 then 0xA0 else 0x80, if d = 13 then 0x9F else 0xBF, d)"
proof -
  have "(0xE0 + d) mod 16 = d" using assms(2) mod_mult_self1 [of d 14 16] by (simp add: add.commute)
  then show ?thesis using assms by (auto simp: utf8_lead_def in_range_def)
qed

lemma lead_four:
  assumes "unat b = 0xF0 + d" "d < 5"
  shows "utf8_lead b = Some (3, if d = 0 then 0x90 else 0x80, if d = 4 then 0x8F else 0xBF, d)"
proof -
  have "(0xF0 + d) mod 8 = d" using assms(2) mod_mult_self1 [of d 30 8] by (simp add: add.commute)
  then show ?thesis using assms by (auto simp: utf8_lead_def in_range_def)
qed

lemma utf8_one: "c < 0x80 \<Longrightarrow> utf8_replace (utf8_char c @ r) = c # utf8_replace r"
  by (simp add: utf8_char_def unat_small)

lemma utf8_two:
  assumes "0x80 \<le> c" "c < 0x800"
  shows "utf8_replace (utf8_char c @ r) = c # utf8_replace r"
proof -
  define d where "d = c div 64"
  have d: "2 \<le> d" "d < 32" "64 * d + c mod 64 = c" using assms by (auto simp: d_def)
  have lead: "utf8_lead (byte_of (0xC0 + d)) = Some (1, 0x80, 0xBF, d)"
    using d unat_small [of "0xC0 + d"] by (intro lead_two) auto
  have big: "\<not> unat (byte_of (0xC0 + d)) < 0x80" using d by (simp add: unat_small)
  have fit: "utf8_fitting 1 0x80 0xBF (cont_byte c # r) = 1" using cont_in_range by (simp add: utf8_fitting_def)
  have v: "utf8_value d [cont_byte c] = c" using d(3) by (simp add: utf8_value_def cont_bits)
  have "utf8_char c = [byte_of (0xC0 + d), cont_byte c]" using assms by (simp add: utf8_char_def d_def)
  then show ?thesis using lead big fit v by simp
qed

lemma utf8_three:
  assumes "0x800 \<le> c" "c < 0x10000" "scalar c"
  shows "utf8_replace (utf8_char c @ r) = c # utf8_replace r"
proof -
  define d where "d = c div 4096"
  define e where "e = c div 64"
  have e: "64 * d + e mod 64 = e" "64 * e + c mod 64 = c" by (auto simp: d_def e_def div_mult2_eq [of c 64 64, simplified])
  have d: "d < 16" "d = 0 \<Longrightarrow> 0x20 \<le> e mod 64" "d = 13 \<Longrightarrow> e mod 64 < 0x20"
    using assms e unfolding scalar_def by (auto simp: d_def)
  define lo where "lo = (if d = 0 then 0xA0 else 0x80 :: nat)"
  define hi where "hi = (if d = 13 then 0x9F else 0xBF :: nat)"
  have lead: "utf8_lead (byte_of (0xE0 + d)) = Some (2, lo, hi, d)"
    unfolding lo_def hi_def using d(1) by (intro lead_three) (auto simp: unat_small)
  have "e mod 64 < 64" by simp
  then have first: "in_range lo hi (cont_byte e)"
    using d(2,3) by (auto simp: lo_def hi_def in_range_def unat_cont)
  have big: "\<not> unat (byte_of (0xE0 + d)) < 0x80" using d by (simp add: unat_small)
  have fit: "utf8_fitting 2 lo hi (cont_byte e # cont_byte c # r) = 2"
    using cont_in_range first by (simp add: utf8_fitting_def)
  have v: "utf8_value d [cont_byte e, cont_byte c] = c" using e by (simp add: utf8_value_def cont_bits)
  have "utf8_char c = [byte_of (0xE0 + d), cont_byte e, cont_byte c]"
    using assms by (simp add: utf8_char_def d_def e_def)
  then show ?thesis using lead big fit v by simp
qed

lemma utf8_four:
  assumes "0x10000 \<le> c" "scalar c"
  shows "utf8_replace (utf8_char c @ r) = c # utf8_replace r"
proof -
  define d where "d = c div 262144"
  define e where "e = c div 4096"
  define f where "f = c div 64"
  have e: "64 * d + e mod 64 = e" "64 * e + f mod 64 = f" "64 * f + c mod 64 = c"
    by (auto simp: d_def e_def f_def div_mult2_eq [of c 64 64, simplified] div_mult2_eq [of c 4096 64, simplified])
  have d: "d < 5" "d = 0 \<Longrightarrow> 0x10 \<le> e mod 64" "d = 4 \<Longrightarrow> e mod 64 < 0x10"
    using assms e unfolding scalar_def by (auto simp: d_def)
  define lo where "lo = (if d = 0 then 0x90 else 0x80 :: nat)"
  define hi where "hi = (if d = 4 then 0x8F else 0xBF :: nat)"
  have lead: "utf8_lead (byte_of (0xF0 + d)) = Some (3, lo, hi, d)"
    unfolding lo_def hi_def using d(1) by (intro lead_four) (auto simp: unat_small)
  have "e mod 64 < 64" by simp
  then have first: "in_range lo hi (cont_byte e)"
    using d(2,3) by (auto simp: lo_def hi_def in_range_def unat_cont)
  have big: "\<not> unat (byte_of (0xF0 + d)) < 0x80" using d by (simp add: unat_small)
  have fit: "utf8_fitting 3 lo hi (cont_byte e # cont_byte f # cont_byte c # r) = 3"
    using cont_in_range first by (simp add: utf8_fitting_def numeral_3_eq_3)
  have v: "utf8_value d [cont_byte e, cont_byte f, cont_byte c] = c" using e by (simp add: utf8_value_def cont_bits)
  have "utf8_char c = [byte_of (0xF0 + d), cont_byte e, cont_byte f, cont_byte c]"
    using assms by (simp add: utf8_char_def d_def e_def f_def)
  then show ?thesis using lead big fit v by (simp add: numeral_3_eq_3)
qed

lemma utf8_char_round_trip: "scalar c \<Longrightarrow> utf8_replace (utf8_char c @ r) = c # utf8_replace r"
  using utf8_one utf8_two utf8_three utf8_four by (cases "c < 0x80"; cases "c < 0x800"; cases "c < 0x10000") auto

text \<open>Text that is written as UTF-8 is read back unchanged.\<close>

lemma utf8_round_trip:
  assumes "\<forall>c\<in>set t. scalar c"
  shows "utf8_replace (utf8_encode t) = t"
  using assms by (induction t) (simp_all add: utf8_encode_def utf8_char_round_trip)

subsection \<open>Headers as the format defines them\<close>

text \<open>The reference: a header is a list of named values, written as the format prescribes. An array's items do not repeat their type.\<close>

fun to_le :: "nat \<Rightarrow> nat \<Rightarrow> byte list" where
  "to_le 0 n = []"
| "to_le (Suc k) n = byte_of n # to_le k (n div 256)"

datatype gsrc = SFixed nat "byte list" | SText utext | SFixedArray nat "byte list list" | STextArray "utext list"

definition text_ok :: "utext \<Rightarrow> bool" where
  "text_ok t \<longleftrightarrow> (\<forall>c\<in>set t. scalar c) \<and> length (utf8_encode t) \<le> 4 * 1024 * 1024"

fun src_ok :: "gsrc \<Rightarrow> bool" where
  "src_ok (SFixed k d) = (map_of FIXED_WIDTH k = Some (length d))"
| "src_ok (SText t) = text_ok t"
| "src_ok (SFixedArray k ds) = (length ds \<le> 4096 \<and> (\<forall>d\<in>set ds. map_of FIXED_WIDTH k = Some (length d)) \<and> map_of FIXED_WIDTH k \<noteq> None)"
| "src_ok (STextArray ts) = (length ts \<le> 4096 \<and> (\<forall>t\<in>set ts. text_ok t))"

definition enc_text :: "utext \<Rightarrow> byte list" where
  "enc_text t = to_le 8 (length (utf8_encode t)) @ utf8_encode t"

fun enc_src :: "gsrc \<Rightarrow> byte list" where
  "enc_src (SFixed k d) = to_le 4 k @ d"
| "enc_src (SText t) = to_le 4 8 @ enc_text t"
| "enc_src (SFixedArray k ds) = to_le 4 9 @ to_le 4 k @ to_le 8 (length ds) @ concat ds"
| "enc_src (STextArray ts) = to_le 4 9 @ to_le 4 8 @ to_le 8 (length ts) @ concat (map enc_text ts)"

fun src_value :: "gsrc \<Rightarrow> gval" where
  "src_value (SFixed k d) = read_fixed k d"
| "src_value (SText t) = GStr t"
| "src_value _ = GNone"

definition enc_pairs :: "(utext \<times> gsrc) list \<Rightarrow> byte list" where
  "enc_pairs ps = concat (map (\<lambda>(name, v). enc_text name @ enc_src v) ps)"

definition gguf_file :: "nat \<Rightarrow> nat \<Rightarrow> (utext \<times> gsrc) list \<Rightarrow> byte list" where
  "gguf_file version tensors ps =
     GGUF_MAGIC @ to_le 4 version @ to_le 8 tensors @ to_le 8 (length ps) @ enc_pairs ps"

lemma length_to_le [simp]: "length (to_le k n) = k"
  by (induction k arbitrary: n) auto

lemma from_to_le: "from_le (to_le k n) = n mod 256 ^ k"
proof (induction k arbitrary: n)
  case (Suc k)
  show ?case using mod_mult2_eq [of n 256 "256 ^ k"] by (simp add: Suc unat_byte)
qed simp

lemma u32_to_le: "n < 2 ^ 32 \<Longrightarrow> u32 (to_le 4 n) = n"
  by (simp add: u32_def from_to_le)

lemma u64_to_le: "n < 2 ^ 64 \<Longrightarrow> u64 (to_le 8 n) = n"
  by (simp add: u64_def from_to_le)

lemma signed_le_to_le:
  assumes "- (2 ^ 31) \<le> i" "i < 2 ^ 31"
  shows "signed_le (to_le 4 (nat (i mod 2 ^ 32))) = i"
proof -
  have "from_le (to_le 4 (nat (i mod 2 ^ 32))) = nat (i mod 2 ^ 32)"
    by (simp add: from_to_le nat_less_iff)
  moreover have "i mod 2 ^ 32 = (if i < 0 then i + 2 ^ 32 else i)"
    using assms mod_pos_pos_trivial [of "i + 2 ^ 32" "2 ^ 32"] by (auto simp: mod_pos_pos_trivial)
  ultimately show ?thesis using assms by (auto simp: signed_le_def Let_def split: if_splits)
qed

lemma take_drop_append [simp]:
  "length a = n \<Longrightarrow> take n (a @ b) = a" "length a = n \<Longrightarrow> drop n (a @ b) = b"
  by auto

lemma read_string_enc:
  assumes "text_ok t"
  shows "read_string (enc_text t @ rest) = (Some t, rest)"
proof (cases "t = []")
  case True
  then show ?thesis by (simp add: read_string_def enc_text_def u64_to_le utf8_encode_def)
next
  case False
  then have "utf8_encode t \<noteq> []" by (cases t) (auto simp: utf8_encode_def utf8_char_def)
  moreover have "utf8_replace (utf8_encode t) = t" using assms by (intro utf8_round_trip) (simp add: text_ok_def)
  moreover have "length (utf8_encode t) \<le> 4194304" using assms by (simp add: text_ok_def)
  ultimately show ?thesis by (simp add: read_string_def enc_text_def u64_to_le)
qed

lemma length_enc_text: "length (enc_text t) = 8 + length (utf8_encode t)"
  by (simp add: enc_text_def)

lemma fixed_kind_small: "map_of FIXED_WIDTH k = Some w \<Longrightarrow> k \<noteq> 8 \<and> k \<noteq> 9 \<and> k < 13 \<and> 0 < w"
  by (auto simp: FIXED_WIDTH_def split: if_splits)

lemma skip_fixed_items:
  assumes "map_of FIXED_WIDTH k = Some w" "\<forall>d\<in>set ds. length d = w"
  shows "skip_items k (length ds) n (concat ds @ rest) = (n + length (concat ds), rest)"
  using assms(2) fixed_kind_small [OF assms(1)] by (induction ds arbitrary: n) (auto simp: item_size_def assms(1))

lemma item_size_text: "text_ok t \<Longrightarrow> item_size 8 (enc_text t @ rest) = (length (enc_text t), rest)"
  by (simp add: item_size_def FIXED_WIDTH_def read_string_enc length_enc_text)

lemma skip_text_items:
  assumes "\<forall>t\<in>set ts. text_ok t"
  shows "skip_items 8 (length ts) n (concat (map enc_text ts) @ rest) = (n + length (concat (map enc_text ts)), rest)"
  using assms by (induction ts arbitrary: n) (auto simp: item_size_text length_enc_text)

lemma read_value_enc:
  assumes "src_ok v"
  shows "read_value 0 (enc_src v @ rest) = Scanned (src_value v) (length (enc_src v)) rest"
proof (cases v)
  case (SFixed k d)
  then have k: "map_of FIXED_WIDTH k = Some (length d)" using assms by simp
  have "k < 2 ^ 32" using fixed_kind_small [OF k] by simp
  then show ?thesis using SFixed k by (simp add: read_value_def u32_to_le)
next
  case (SText t)
  then show ?thesis using assms by (simp add: read_value_def u32_to_le FIXED_WIDTH_def read_string_enc length_enc_text)
next
  case (SFixedArray k ds)
  then obtain w where k: "map_of FIXED_WIDTH k = Some w" "\<forall>d\<in>set ds. length d = w" and n: "length ds \<le> 4096"
    using assms by force
  have "k < 2 ^ 32" using fixed_kind_small [OF k(1)] by simp
  then show ?thesis using SFixedArray n skip_fixed_items [OF k]
    by (simp add: read_value_def u32_to_le u64_to_le FIXED_WIDTH_def)
next
  case (STextArray ts)
  then show ?thesis using assms skip_text_items [of ts]
    by (simp add: read_value_def u32_to_le u64_to_le FIXED_WIDTH_def)
qed

text \<open>The scan over named values instead of bytes.\<close>

fun scan_pairs :: "(f32 \<Rightarrow> string) \<Rightarrow> nat \<Rightarrow> nat \<Rightarrow> (utext \<times> gsrc) list \<Rightarrow> utext \<times> gmeta \<Rightarrow> utext \<times> gmeta" where
  "scan_pairs fr max_bytes consumed [] s = s"
| "scan_pairs fr max_bytes consumed ((name, v) # ps) s =
     (if consumed + (length name + 8) > max_bytes then s
      else let s' = take_pair fr name (src_value v) s in
        if scan_done s' then s' else scan_pairs fr max_bytes (consumed + (length name + 8) + length (enc_src v)) ps s')"

definition pairs_ok :: "(utext \<times> gsrc) list \<Rightarrow> bool" where
  "pairs_ok ps \<longleftrightarrow> (\<forall>p\<in>set ps. text_ok (fst p) \<and> src_ok (snd p))"

lemma parse_pairs_enc:
  "pairs_ok ps \<Longrightarrow> parse_pairs fr mb (length ps) consumed (enc_pairs ps @ rest) s = scan_pairs fr mb consumed ps s"
proof (induction ps arbitrary: consumed s)
  case (Cons p ps)
  obtain name v where p: "p = (name, v)" by (cases p)
  have ok: "text_ok name" "src_ok v" "pairs_ok ps" using Cons.prems by (auto simp: pairs_ok_def p)
  have enc: "enc_pairs (p # ps) @ rest = enc_text name @ (enc_src v @ (enc_pairs ps @ rest))"
    by (simp add: enc_pairs_def p)
  show ?case unfolding enc
    by (simp add: p read_string_enc [OF ok(1)] read_value_enc [OF ok(2)] Cons.IH [OF ok(3)] Let_def)
qed simp

text \<open>A header written as the format prescribes is read as the scan over its named values, whatever follows the header in the
  file: the reader stays in step with the bytes through numbers, texts and arrays.\<close>

theorem header_is_read_in_step:
  assumes "version \<in> {2, 3}" "ps \<noteq> []" "length ps \<le> 4096" "pairs_ok ps"
  shows "read_metadata fr (Some (gguf_file version tensors ps @ rest)) =
    close_meta (scan_pairs fr (4 * 1024 * 1024) 0 ps ([], []))"
proof -
  have magic: "length GGUF_MAGIC = 4" by (simp add: GGUF_MAGIC_def)
  have v: "u32 (to_le 4 version) = version" "u64 (to_le 8 (length ps)) = length ps"
    using assms by (auto simp: u32_to_le u64_to_le)
  have "read_metadata fr (Some (gguf_file version tensors ps @ rest)) =
      parse_header fr (4 * 1024 * 1024) 4096 (GGUF_MAGIC @ to_le 4 version @ to_le 8 tensors @ to_le 8 (length ps) @ enc_pairs ps @ rest)"
    by (simp add: read_metadata_def gguf_file_def)
  also have "\<dots> = close_meta (parse_pairs fr (4 * 1024 * 1024) (length ps) 0 (enc_pairs ps @ rest) ([], []))"
    using assms(1-3) by (auto simp: parse_header_def magic v Let_def)
  finally show ?thesis using parse_pairs_enc [OF assms(4)] by simp
qed

subsection \<open>The geometry is the one the file states\<close>

definition meta_name :: "utext \<Rightarrow> string \<Rightarrow> utext" where
  "meta_name arch w = arch @ [46] @ codes w"

lemma after_dot_name: "46 \<notin> set arch \<Longrightarrow> after_dot (arch @ 46 # t) = t"
  by (induction arch) (auto simp: after_dot_def)

lemma starts_dot_iff: "starts name (arch @ [46]) \<longleftrightarrow> (\<exists>t. name = arch @ 46 # t)"
proof
  assume "starts name (arch @ [46])"
  then have "name = (arch @ [46]) @ drop (length (arch @ [46])) name"
    unfolding starts_def by (metis append_take_drop_id)
  then show "\<exists>t. name = arch @ 46 # t" by (metis append.assoc append_Cons append_Nil)
qed (auto simp: starts_def)

lemma codes_inj: "codes a = codes b \<longleftrightarrow> a = b"
  unfolding codes_def char_code_def by (simp add: inj_map_eq_map inj_def)

lemma wanted_key_iff: "wanted_key t = Some w \<longleftrightarrow> w \<in> set WANTED_SUFFIXES \<and> codes w = t"
proof -
  have "find (\<lambda>w. codes w = t) ws = Some w \<longleftrightarrow> w \<in> set ws \<and> codes w = t" for ws
    by (induction ws) (auto simp: codes_inj)
  then show ?thesis by (simp add: wanted_key_def)
qed

lemma take_pair_arch_kept: "name \<noteq> codes ''general.architecture'' \<Longrightarrow> fst (take_pair fr name v (arch, out)) = arch"
  by (auto simp: take_pair_def split: option.split)

lemma take_pair_value:
  assumes "w \<in> set WANTED_SUFFIXES" "arch \<noteq> []" "46 \<notin> set arch" "meta_name arch w \<noteq> codes ''general.architecture''"
  shows "take_pair fr (meta_name arch w) v (arch, out) = (arch, AList.update w v out)"
proof -
  have "starts (meta_name arch w) (arch @ [46])" by (auto simp: meta_name_def starts_dot_iff)
  moreover have "wanted_key (after_dot (meta_name arch w)) = Some w"
    using assms(1,3) by (simp add: meta_name_def after_dot_name wanted_key_iff)
  ultimately show ?thesis using assms by (simp add: take_pair_def)
qed

lemma take_pair_other:
  assumes "name \<noteq> codes ''general.architecture''" "name \<noteq> meta_name arch w" "46 \<notin> set arch"
  shows "map_of (snd (take_pair fr name v (arch, out))) w = map_of out w"
proof (cases "arch \<noteq> [] \<and> starts name (arch @ [46])")
  case True
  then obtain t where t: "name = arch @ 46 # t" by (auto simp: starts_dot_iff)
  have "wanted_key t \<noteq> Some w" using assms(2) by (auto simp: wanted_key_iff meta_name_def t)
  then show ?thesis using True assms by (auto simp: take_pair_def t after_dot_name update_conv' split: option.split)
qed (use assms in \<open>auto simp: take_pair_def\<close>)

definition plain_names :: "(utext \<times> gsrc) list \<Rightarrow> bool" where
  "plain_names ps \<longleftrightarrow> codes ''general.architecture'' \<notin> fst ` set ps \<and> distinct (map fst ps)"

lemma scan_keeps:
  assumes "plain_names ps" "meta_name arch w \<notin> fst ` set ps" "46 \<notin> set arch"
  shows "map_of (snd (scan_pairs fr mb n ps (arch, out))) w = map_of out w \<and> fst (scan_pairs fr mb n ps (arch, out)) = arch"
  using assms
proof (induction ps arbitrary: n out)
  case (Cons p ps)
  obtain name v where p: "p = (name, v)" by (cases p)
  have name: "name \<noteq> codes ''general.architecture''" "name \<noteq> meta_name arch w" using Cons.prems by (auto simp: plain_names_def p)
  obtain out' where s': "take_pair fr name (src_value v) (arch, out) = (arch, out')" and out': "map_of out' w = map_of out w"
    using take_pair_arch_kept [OF name(1)] take_pair_other [OF name Cons.prems(3)] by (metis prod.collapse)
  have "plain_names ps" "meta_name arch w \<notin> fst ` set ps" using Cons.prems by (auto simp: plain_names_def)
  then show ?case using Cons.IH Cons.prems(3) by (simp add: p s' out' Let_def)
qed simp

definition header_size :: "(utext \<times> gsrc) list \<Rightarrow> nat" where
  "header_size ps = sum_list (map (\<lambda>(name, v). length name + 8 + length (enc_src v)) ps)"

lemma scan_finds:
  assumes "plain_names ps" "(meta_name arch w, v) \<in> set ps" "46 \<notin> set arch" "arch \<noteq> []" "w \<in> set NEEDED" "map_of out w = None"
    "n + header_size ps \<le> mb"
  shows "map_of (snd (scan_pairs fr mb n ps (arch, out))) w = Some (src_value v)"
  using assms
proof (induction ps arbitrary: n out)
  case (Cons p ps)
  obtain name u where p: "p = (name, u)" by (cases p)
  have plain: "plain_names ps" "name \<noteq> codes ''general.architecture''" using Cons.prems(1) by (auto simp: plain_names_def p)
  have fit: "n + (length name + 8) \<le> mb" "n + (length name + 8) + length (enc_src u) + header_size ps \<le> mb"
    using Cons.prems(7) by (auto simp: header_size_def p)
  have want: "w \<in> set WANTED_SUFFIXES" using Cons.prems(5) by (auto simp: NEEDED_def WANTED_SUFFIXES_def)
  show ?case
  proof (cases "name = meta_name arch w")
    case True
    have v: "u = v" using Cons.prems(1,2) True by (force simp: plain_names_def p)
    have gone: "meta_name arch w \<notin> fst ` set ps" using Cons.prems(1) True by (auto simp: plain_names_def p)
    have "map_of (AList.update w (src_value v) out) w = Some (src_value v)" by (simp add: update_conv')
    then show ?thesis
      using scan_keeps [OF plain(1) gone Cons.prems(3)] take_pair_value [OF want Cons.prems(4,3)] plain(2) fit(1)
      by (simp add: p True v Let_def)
  next
    case False
    obtain out' where s': "take_pair fr name (src_value u) (arch, out) = (arch, out')" and out': "map_of out' w = None"
      using take_pair_arch_kept [OF plain(2)] take_pair_other [OF plain(2) False Cons.prems(3)] Cons.prems(6) by (metis prod.collapse)
    have "\<not> scan_done (arch, out')" using out' Cons.prems(5) by (auto simp: scan_done_def map_of_eq_None_iff)
    moreover have "(meta_name arch w, v) \<in> set ps" using Cons.prems(2) False by (auto simp: p)
    ultimately show ?thesis using Cons.IH [OF plain(1)] Cons.prems(3-5) out' fit by (simp add: p s' Let_def)
  qed
qed simp


lemma ascii_text_ok:
  assumes "\<forall>c\<in>set s. char_code c < 0x80" "length s \<le> 4 * 1024 * 1024"
  shows "text_ok (codes s)"
proof -
  have "length (utf8_encode (codes s)) = length s"
    using assms(1) by (induction s) (auto simp: utf8_encode_def codes_def utf8_char_def)
  moreover have "\<forall>c\<in>set s. scalar (char_code c)" using assms(1) by (auto simp: scalar_def)
  ultimately show ?thesis using assms(2) by (simp add: text_ok_def codes_def)
qed

lemmas ascii_simps = ascii_text_ok char_code_def


text \<open>Whatever the bytes are, the metadata has no other keys than the wanted ones and the architecture, each once.\<close>

definition meta_ok :: "gmeta \<Rightarrow> bool" where
  "meta_ok m \<longleftrightarrow> distinct (map fst m) \<and> fst ` set m \<subseteq> insert ''architecture'' (set WANTED_SUFFIXES)"

lemma take_pair_ok:
  assumes "distinct (map fst (snd s)) \<and> fst ` set (snd s) \<subseteq> set WANTED_SUFFIXES"
  shows "distinct (map fst (snd (take_pair fr name v s))) \<and> fst ` set (snd (take_pair fr name v s)) \<subseteq> set WANTED_SUFFIXES"
proof (cases s)
  case (Pair arch out)
  show ?thesis
  proof (cases "wanted_key (after_dot name)")
    case None
    then show ?thesis using assms by (simp add: take_pair_def Pair)
  next
    case (Some w)
    then have "w \<in> set WANTED_SUFFIXES" by (simp add: wanted_key_iff)
    then show ?thesis using assms Some by (simp add: take_pair_def Pair distinct_update dom_update)
  qed
qed

lemma parse_pairs_ok:
  assumes "distinct (map fst (snd s)) \<and> fst ` set (snd s) \<subseteq> set WANTED_SUFFIXES"
  shows "distinct (map fst (snd (parse_pairs fr mb k n h s))) \<and> fst ` set (snd (parse_pairs fr mb k n h s)) \<subseteq> set WANTED_SUFFIXES"
  using assms
proof (induction fr mb k n h s rule: parse_pairs.induct)
  case (2 fr mb k n h s)
  note step = take_pair_ok [OF "2.prems"]
  show ?case using "2.IH" "2.prems" step by (simp add: Let_def split: prod.split option.split scan.split)
qed simp

theorem metadata_has_wanted_keys: "meta_ok (read_metadata fr file)"
proof -
  have "meta_ok (close_meta (parse_pairs fr mb k n h ([], [])))" for mb k n h
    using parse_pairs_ok [of "([], [])" fr mb k n h]
    by (auto simp: meta_ok_def close_meta_def distinct_update dom_update)
  moreover have "meta_ok []" by (simp add: meta_ok_def)
  ultimately show ?thesis by (simp add: read_metadata_def parse_header_def Let_def split: option.split)
qed

subsection \<open>Sizes\<close>

lemma kv_bytes_nonneg: "kv_bytes_per_token si m d = Inr n \<Longrightarrow> 0 \<le> n"
  by (auto simp: kv_bytes_per_token_def zero_unless_overflow_def split: sum.splits int_exn.splits if_splits)

text \<open>The cache of a model whose head size is not stated: it is derived from the width and the number of heads.\<close>

lemma kv_bytes_derived:
  assumes "mget m ''attention.head_count_kv'' = GInt kv" "mget m ''attention.head_count'' = GInt heads" "mget m ''embedding_length'' = GInt width"
    "mget m ''attention.key_length'' = GNone" "0 < kv" "0 < heads" "heads \<le> width" "0 < d"
  shows "kv_bytes_per_token si m d = Inr (2 * kv * (width div heads) * d)"
proof -
  have "0 < width div heads" using assms by (simp add: pos_imp_zdiv_pos_iff)
  then show ?thesis using assms by (simp add: kv_bytes_per_token_def head_dim_def gor_def zero_unless_overflow_def)
qed

lemma slot_cache_scales:
  assumes "kv_bytes_per_token si m d = Inr n" "0 < layers" "0 \<le> context" "0 < slots"
  shows "slot_cache_bytes si m context slots layers d = Inr (n * context * slots * layers)"
  using assms kv_bytes_nonneg [OF assms(1)] by (simp add: slot_cache_bytes_def)

text \<open>A double is read as the integer of its bits, since the table of widths shadows the branch that decodes it.\<close>

lemma double_read_as_integer: "read_value 0 (to_le 4 12 @ [0, 0, 0, 0, 0, 0, 0xF0, 0x3F]) = Scanned (GInt 4607182418800017408) 12 []"
  using read_value_enc [of "SFixed 12 [0, 0, 0, 0, 0, 0, 0xF0, 0x3F]" "[]"] by (simp add: FIXED_WIDTH_def read_fixed_def)

text \<open>A layer count stated as an infinite float escapes the handlers that promise 0 for an unknown count.\<close>

lemma infinite_layer_count_escapes:
  "layer_count si (read_metadata fr (Some (gguf_file 3 0 [(codes ''general.architecture'', SText (codes ''m'')),
     (codes ''m.block_count'', SFixed 6 [0, 0, 0x80, 0x7F])]))) = Inl IntOverflow"
proof -
  let ?ps = "[(codes ''general.architecture'', SText (codes ''m'')), (codes ''m.block_count'', SFixed 6 [0, 0, 0x80, 0x7F])]"
  have ok: "pairs_ok ?ps" by (simp add: pairs_ok_def ascii_simps FIXED_WIDTH_def)
  have "read_metadata fr (Some (gguf_file 3 0 ?ps @ [])) = close_meta (scan_pairs fr (4 * 1024 * 1024) 0 ?ps ([], []))"
    by (rule header_is_read_in_step) (use ok in auto)
  moreover have "scan_pairs fr (4 * 1024 * 1024) 0 ?ps ([], []) = (codes ''m'', [(''block_count'', GFloat (FInf False))])"
    by (simp add: codes_def char_code_def take_pair_def text_or_empty_def scan_done_def NEEDED_def starts_def after_dot_def
        wanted_key_def WANTED_SUFFIXES_def read_fixed_def unpack_f_def Let_def enc_text_def utf8_encode_def utf8_char_def)
  ultimately show ?thesis by (simp add: close_meta_def codes_def layer_count_def zero_unless_overflow_def)
qed

text \<open>An inner array is skipped by its header only: the scan goes on inside it.\<close>

lemma nested_array_out_of_step:
  "read_value 0 (to_le 4 9 @ to_le 4 9 @ to_le 8 1 @ (to_le 4 4 @ to_le 8 1 @ to_le 4 5) @ rest) = Scanned GNone 32 (to_le 4 5 @ rest)"
  by (simp add: read_value_def u32_to_le u64_to_le FIXED_WIDTH_def item_size_def Let_def)

end
