(* ===== verification/Interaction_Bus.thy ===== *)
theory Interaction_Bus
  imports Security
begin

text \<open>
  The human-facing edge, \<open>src/human_interaction.py\<close>: the contract for observations of a human and for responses of the agent,
  and the bounded bus that carries them, with its presence state machine, the pairing of questions with spoken answers and
  the views the agent reasons over. Clock readings and the random part of a conversation id are arguments. A listener is
  a number; what a publication hands to the listeners is part of its result, their exceptions are swallowed by the code.
  What Python's float reads from a text or a \<open>repr\<close>, and how it prints a number, is the parameter \<open>float_io\<close>.
\<close>

subsection \<open>Constants\<close>

definition OBSERVATION_TYPES :: "string list" where
  "OBSERVATION_TYPES = [''visual'', ''speech'', ''presence'', ''gesture'', ''interaction'', ''sound'']"

definition RESPONSE_TYPES :: "string list" where
  "RESPONSE_TYPES = [''speech'', ''visual'', ''action'', ''acknowledgement'']"

definition PRIVACY_SCOPES :: "string list" where
  "PRIVACY_SCOPES = [''local'', ''ephemeral'']"

definition USER_PRESENT_EVENT :: string where "USER_PRESENT_EVENT = ''USER_PRESENT''"
definition USER_LEFT_EVENT :: string where "USER_LEFT_EVENT = ''USER_LEFT''"
definition USER_RETURNED_EVENT :: string where "USER_RETURNED_EVENT = ''USER_RETURNED''"

definition PRESENCE_EVENTS :: "string list" where
  "PRESENCE_EVENTS = [USER_PRESENT_EVENT, USER_LEFT_EVENT, USER_RETURNED_EVENT]"

datatype user_presence = USER_ABSENT | USER_PRESENT

definition MAX_SOURCE_LEN :: int where "MAX_SOURCE_LEN = 40"
definition MAX_PAYLOAD_VALUE_LEN :: int where "MAX_PAYLOAD_VALUE_LEN = 160"
definition MAX_PAYLOAD_KEY_LEN :: int where "MAX_PAYLOAD_KEY_LEN = 40"
definition MAX_PAYLOAD_KEYS :: nat where "MAX_PAYLOAD_KEYS = 12"
definition MAX_RESPONSE_CONTENT_LEN :: int where "MAX_RESPONSE_CONTENT_LEN = 300"
definition MAX_CONVERSATION_TURNS :: nat where "MAX_CONVERSATION_TURNS = 12"
definition MAX_CONTEXT_TURNS :: nat where "MAX_CONTEXT_TURNS = 6"
definition ANSWER_TTL_S :: real where "ANSWER_TTL_S = 120"
definition MAX_CONVERSATION_EVENTS :: nat where "MAX_CONVERSATION_EVENTS = 8"
definition DEBOUNCE_S :: real where "DEBOUNCE_S = 3 / 2"

subsection \<open>Numbers from providers\<close>

text \<open>\<open>fp_parse\<close> gives the \<open>repr\<close> of \<open>float(s)\<close>, if it does not raise; \<open>fp_value\<close> the number a \<open>repr\<close> stands for.\<close>

record float_io =
  fp_parse :: "string \<Rightarrow> string option"
  fp_value :: "string \<Rightarrow> real"
  fp_show :: "real \<Rightarrow> string"

definition finite_repr :: "float_io \<Rightarrow> string \<Rightarrow> real option" where
  "finite_repr F r = (if r \<in> {''nan'', ''inf'', ''-inf''} then None else Some (fp_value F r))"

text \<open>\<open>float(n)\<close> raises \<open>OverflowError\<close> for an integer that rounds beyond the largest double; the code does not catch it.\<close>

datatype overflow = OverflowError

definition float_limit :: int where "float_limit = 2 ^ 1024 - 2 ^ 970"

fun clean_number :: "float_io \<Rightarrow> pyval \<Rightarrow> overflow + real option" where
  "clean_number F (PInt i) = (if float_limit \<le> \<bar>i\<bar> then Inl OverflowError else Inr (Some (of_int i)))"
| "clean_number F (PBool b) = Inr (Some (if b then 1 else 0))"
| "clean_number F (PFloat r) = Inr (finite_repr F r)"
| "clean_number F (PStr s) = Inr (case fp_parse F s of None \<Rightarrow> None | Some r \<Rightarrow> finite_repr F r)"
| "clean_number F _ = Inr None"

subsection \<open>Trimming spoken text\<close>

text \<open>\<open>s.rfind(p)\<close> for a non-empty \<open>p\<close>: the last position at which it occurs, or -1.\<close>

definition py_rfind :: "string \<Rightarrow> string \<Rightarrow> int" where
  "py_rfind s p = (case filter (\<lambda>i. py_startswith (drop i s) p) (rev [0..<length s]) of [] \<Rightarrow> - 1 | i # _ \<Rightarrow> int i)"

definition py_rstrip :: "string \<Rightarrow> string" where
  "py_rstrip s = rev (dropWhile is_space (rev s))"

definition SENTENCE_ENDS :: "string list" where
  "SENTENCE_ENDS = [''. '', ''! '', ''? '', ''.'', ''!'', ''?'']"

definition truncate_sentence :: "string \<Rightarrow> nat \<Rightarrow> string" where
  "truncate_sentence t limit =
     (let cleaned = sanitize_text t (int (max (limit * 2) limit)) in
      if length cleaned \<le> limit then cleaned
      else let c = take limit cleaned in
        case find (\<lambda>sep. py_rfind c sep > int (limit div 2)) SENTENCE_ENDS of
          Some sep \<Rightarrow> py_rstrip (take (nat (py_rfind c sep + 1)) c)
        | None \<Rightarrow> if py_rfind c '' '' > int (limit div 2) then py_rstrip (take (nat (py_rfind c '' '')) c)
                   else py_rstrip c)"

subsection \<open>Payloads\<close>

text \<open>The value stored for one item; a number that is not finite is dropped.\<close>

fun payload_item :: "float_io \<Rightarrow> pyval \<Rightarrow> overflow + pyval option" where
  "payload_item F (PBool b) = Inr (Some (PBool b))"
| "payload_item F (PInt i) = (case clean_number F (PInt i) of Inl x \<Rightarrow> Inl x | Inr n \<Rightarrow> Inr (if n = None then None else Some (PInt i)))"
| "payload_item F (PFloat r) = (case clean_number F (PFloat r) of Inl x \<Rightarrow> Inl x | Inr n \<Rightarrow> Inr (if n = None then None else Some (PFloat r)))"
| "payload_item F (PStr s) = Inr (Some (PStr (sanitize_text s MAX_PAYLOAD_VALUE_LEN)))"
| "payload_item F v = Inr (Some (PStr (sanitize_text (py_str v) MAX_PAYLOAD_KEY_LEN)))"

fun payload_items :: "float_io \<Rightarrow> (string \<times> pyval) list \<Rightarrow> pydict \<Rightarrow> overflow + pydict" where
  "payload_items F [] clean = Inr clean"
| "payload_items F ((k, v) # kvs) clean =
     (let key = sanitize_text k MAX_PAYLOAD_KEY_LEN in
      if key = [] then payload_items F kvs clean
      else case payload_item F v of
        Inl x \<Rightarrow> Inl x
      | Inr None \<Rightarrow> payload_items F kvs clean
      | Inr (Some w) \<Rightarrow> payload_items F kvs (dset key w clean))"

fun sanitize_payload :: "float_io \<Rightarrow> pyval \<Rightarrow> overflow + pydict" where
  "sanitize_payload F PNone = Inr []"
| "sanitize_payload F (PBool b) = Inr [(''value'', PBool b)]"
| "sanitize_payload F (PInt i) = (case clean_number F (PInt i) of Inl x \<Rightarrow> Inl x | Inr n \<Rightarrow> Inr (if n = None then [] else [(''value'', PInt i)]))"
| "sanitize_payload F (PFloat r) = (case clean_number F (PFloat r) of Inl x \<Rightarrow> Inl x | Inr n \<Rightarrow> Inr (if n = None then [] else [(''value'', PFloat r)]))"
| "sanitize_payload F (PDict d) = payload_items F (take MAX_PAYLOAD_KEYS d) []"
| "sanitize_payload F v = Inr [(''text'', PStr (sanitize_text (py_str v) MAX_PAYLOAD_VALUE_LEN))]"

subsection \<open>Observations\<close>

record human_observation =
  ho_type :: string
  ho_source :: string
  ho_payload :: pydict
  ho_id :: "string option"
  ho_conf :: real
  ho_conf_invalid :: bool
  ho_ts :: real
  ho_scope :: string

definition non_empty :: "string \<Rightarrow> string option" where
  "non_empty s = (if s = [] then None else Some s)"

text \<open>The constructor; \<open>now\<close> is the reading of \<open>time.time()\<close>.\<close>

definition new_observation :: "float_io \<Rightarrow> real \<Rightarrow> string \<Rightarrow> string \<Rightarrow> pyval \<Rightarrow> pyval \<Rightarrow> pyval \<Rightarrow> string \<Rightarrow> string \<Rightarrow> overflow + human_observation" where
  "new_observation F now ty source payload conf ts scope oid =
     (case sanitize_payload F payload of Inl x \<Rightarrow> Inl x | Inr p \<Rightarrow>
      case clean_number F conf of Inl x \<Rightarrow> Inl x | Inr c \<Rightarrow>
      case (if ts = PNone then Inr (Some now) else clean_number F ts) of Inl x \<Rightarrow> Inl x | Inr t \<Rightarrow>
      Inr \<lparr>ho_type = py_lower (py_strip ty), ho_source = sanitize_text source MAX_SOURCE_LEN, ho_payload = p,
           ho_id = non_empty oid, ho_conf = (case c of None \<Rightarrow> 0 | Some x \<Rightarrow> x), ho_conf_invalid = (c = None),
           ho_ts = (case t of None \<Rightarrow> now | Some x \<Rightarrow> x), ho_scope = py_lower (py_strip scope)\<rparr>)"

definition ho_validate :: "float_io \<Rightarrow> human_observation \<Rightarrow> bool \<times> string" where
  "ho_validate F o1 =
     (if ho_type o1 \<notin> set OBSERVATION_TYPES then (False, ''unknown observation type: '' @ repr_str (ho_type o1))
      else if ho_source o1 = [] then (False, ''empty source'')
      else if ho_conf_invalid o1 \<or> \<not> (0 \<le> ho_conf o1 \<and> ho_conf o1 \<le> 1)
      then (False, ''confidence out of range: '' @ fp_show F (ho_conf o1))
      else if ho_scope o1 \<notin> set PRIVACY_SCOPES then (False, ''unknown privacy scope: '' @ repr_str (ho_scope o1))
      else (True, ''ok''))"

definition ho_to_dict :: "float_io \<Rightarrow> human_observation \<Rightarrow> pydict" where
  "ho_to_dict F o1 =
     [(''type'', PStr (ho_type o1)), (''source'', PStr (ho_source o1)), (''payload'', PDict (ho_payload o1)),
      (''confidence'', PFloat (fp_show F (ho_conf o1))), (''timestamp'', PFloat (fp_show F (ho_ts o1))),
      (''privacy_scope'', PStr (ho_scope o1))] @
     (case ho_id o1 of None \<Rightarrow> [] | Some i \<Rightarrow> [(''observation_id'', PStr i)])"

text \<open>\<open>str(v or s)\<close>.\<close>

definition str_or :: "pyval \<Rightarrow> string \<Rightarrow> string" where
  "str_or v s = (if truthy v then py_str v else s)"

definition ho_from_dict :: "float_io \<Rightarrow> real \<Rightarrow> pyval \<Rightarrow> overflow + human_observation option \<times> string" where
  "ho_from_dict F now data =
     (case data of
        PDict d \<Rightarrow>
          (case new_observation F now (str_or (dget d ''type'') []) (str_or (dget d ''source'') []) (dget d ''payload'')
                 (dget_default d ''confidence'' (PFloat ''1.0'')) (dget d ''timestamp'') (str_or (dget d ''privacy_scope'') ''local'')
                 (str_or (dget d ''observation_id'') []) of
             Inl x \<Rightarrow> Inl x
           | Inr o1 \<Rightarrow> Inr (if fst (ho_validate F o1) then Some o1 else None, snd (ho_validate F o1)))
      | _ \<Rightarrow> Inr (None, ''not an object''))"

subsection \<open>Responses\<close>

record agent_response =
  ar_type :: string
  ar_content :: string
  ar_target :: string
  ar_priority :: real
  ar_id :: "string option"
  ar_in_response_to :: "string option"
  ar_expects :: bool

definition new_response :: "float_io \<Rightarrow> string \<Rightarrow> string \<Rightarrow> string \<Rightarrow> pyval \<Rightarrow> bool \<Rightarrow> string \<Rightarrow> string \<Rightarrow> overflow + agent_response" where
  "new_response F ty content target priority expects rid irt =
     (case clean_number F priority of Inl x \<Rightarrow> Inl x | Inr p \<Rightarrow>
      Inr \<lparr>ar_type = py_lower (py_strip ty), ar_content = sanitize_text content MAX_RESPONSE_CONTENT_LEN,
           ar_target = sanitize_text target MAX_SOURCE_LEN, ar_priority = (case p of None \<Rightarrow> 1/2 | Some x \<Rightarrow> x),
           ar_id = non_empty rid, ar_in_response_to = non_empty irt, ar_expects = expects\<rparr>)"

definition ar_validate :: "float_io \<Rightarrow> agent_response \<Rightarrow> bool \<times> string" where
  "ar_validate F r =
     (if ar_type r \<notin> set RESPONSE_TYPES then (False, ''unknown response type: '' @ repr_str (ar_type r))
      else if ar_content r = [] then (False, ''empty content'')
      else if \<not> (0 \<le> ar_priority r \<and> ar_priority r \<le> 1) then (False, ''priority out of range: '' @ fp_show F (ar_priority r))
      else (True, ''ok''))"

definition ar_to_dict :: "float_io \<Rightarrow> agent_response \<Rightarrow> pydict" where
  "ar_to_dict F r =
     [(''type'', PStr (ar_type r)), (''content'', PStr (ar_content r)), (''target'', PStr (ar_target r)),
      (''priority'', PFloat (fp_show F (ar_priority r))), (''expects_answer'', PBool (ar_expects r))] @
     (case ar_id r of None \<Rightarrow> [] | Some i \<Rightarrow> [(''response_id'', PStr i)]) @
     (case ar_in_response_to r of None \<Rightarrow> [] | Some i \<Rightarrow> [(''in_response_to'', PStr i)])"

definition ar_from_dict :: "float_io \<Rightarrow> pyval \<Rightarrow> overflow + agent_response option \<times> string" where
  "ar_from_dict F data =
     (case data of
        PDict d \<Rightarrow>
          (case new_response F (str_or (dget d ''type'') []) (str_or (dget d ''content'') []) (str_or (dget d ''target'') [])
                 (dget_default d ''priority'' (PFloat ''0.5'')) (truthy (dget_default d ''expects_answer'' (PBool False)))
                 (str_or (dget d ''response_id'') []) (str_or (dget d ''in_response_to'') []) of
             Inl x \<Rightarrow> Inl x
           | Inr r \<Rightarrow> Inr (if fst (ar_validate F r) then Some r else None, snd (ar_validate F r)))
      | _ \<Rightarrow> Inr (None, ''not an object''))"

subsection \<open>The bus\<close>

record bus_entry =
  en_type :: string
  en_source :: string
  en_payload :: pydict
  en_conf :: real
  en_ts :: real
  en_scope :: string
  en_obs_id :: string
  en_conv :: string
  en_turn :: "string option"
  en_seq :: nat
  en_event :: "string option"

record conv_turn =
  ct_human :: bool
  ct_text :: string
  ct_ts :: real
  ct_response :: "string option"
  ct_conv :: string

record round_trip =
  rt_question :: string
  rt_answer :: string
  rt_seconds :: real
  rt_ts :: real
  rt_conv :: string
  rt_turn :: "string option"
  rt_obs_id :: string

record ibus =
  ib_cap :: nat
  ib_buffer :: "bus_entry list"
  ib_listeners :: "nat list"
  ib_presence :: user_presence
  ib_been_present :: bool
  ib_changed_at :: real
  ib_counts :: "(string \<times> nat) list"
  ib_event_counts :: "(string \<times> nat) list"
  ib_rejected :: nat
  ib_last_ts :: real
  ib_seq :: nat
  ib_conv :: string
  ib_obs_seq :: nat
  ib_rsp_seq :: nat
  ib_turn_seq :: nat
  ib_turn :: "string option"
  ib_last_response :: "agent_response option"
  ib_responses :: nat
  ib_conversation :: "conv_turn list"
  ib_last_question :: "string option"
  ib_last_answer :: "string option"
  ib_pending :: "(string \<times> real) option"
  ib_trips :: "round_trip list"
  ib_last_response_ts :: "real option"

text \<open>The constructor; \<open>conv\<close> is the random conversation id.\<close>

definition new_ibus :: "int \<Rightarrow> string \<Rightarrow> ibus" where
  "new_ibus capacity conv =
     \<lparr>ib_cap = nat (max 16 capacity), ib_buffer = [], ib_listeners = [], ib_presence = USER_ABSENT, ib_been_present = False,
      ib_changed_at = 0, ib_counts = map (\<lambda>t. (t, 0)) OBSERVATION_TYPES, ib_event_counts = map (\<lambda>e. (e, 0)) PRESENCE_EVENTS,
      ib_rejected = 0, ib_last_ts = 0, ib_seq = 0, ib_conv = conv, ib_obs_seq = 0, ib_rsp_seq = 0, ib_turn_seq = 0, ib_turn = None,
      ib_last_response = None, ib_responses = 0, ib_conversation = [], ib_last_question = None, ib_last_answer = None,
      ib_pending = None, ib_trips = [], ib_last_response_ts = None\<rparr>"

definition bump_count :: "string \<Rightarrow> (string \<times> nat) list \<Rightarrow> (string \<times> nat) list" where
  "bump_count k m = AList.update k ((case map_of m k of None \<Rightarrow> 0 | Some n \<Rightarrow> n) + 1) m"

definition reject :: "ibus \<Rightarrow> ibus" where
  "reject b = b\<lparr>ib_rejected := ib_rejected b + 1\<rparr>"

definition present_implied :: "human_observation \<Rightarrow> bool" where
  "present_implied o1 \<longleftrightarrow>
     \<not> ((ho_type o1 = ''presence'' \<and> dget (ho_payload o1) ''present'' = PBool False) \<or>
        (ho_type o1 = ''visual'' \<and> dget (ho_payload o1) ''person_present'' = PBool False))"

definition transcript_of :: "human_observation \<Rightarrow> string" where
  "transcript_of o1 = (if ho_type o1 = ''speech'' then py_strip (str_or (dget (ho_payload o1) ''transcript'') []) else [])"

text \<open>Speech starts or continues a turn.\<close>

definition enter_turn :: "string \<Rightarrow> ibus \<Rightarrow> ibus" where
  "enter_turn tr b =
     (if tr \<noteq> [] \<and> ib_turn b = None
      then b\<lparr>ib_turn_seq := ib_turn_seq b + 1, ib_turn := Some (''turn-'' @ show_nat (ib_turn_seq b + 1))\<rparr> else b)"

text \<open>The question an utterance answers: the pending one, while it is fresh.\<close>

definition answered_question :: "real \<Rightarrow> string \<Rightarrow> ibus \<Rightarrow> (string \<times> real) option" where
  "answered_question now tr b =
     (if tr = [] then None
      else case ib_pending b of None \<Rightarrow> None
           | Some q \<Rightarrow> if now - snd q \<le> ANSWER_TTL_S then Some q else None)"

definition hear :: "real \<Rightarrow> string \<Rightarrow> real \<Rightarrow> string \<Rightarrow> ibus \<Rightarrow> ibus" where
  "hear now tr ts oid b =
     (if tr = [] then b
      else let b1 = (case answered_question now tr b of
               None \<Rightarrow> b
             | Some q \<Rightarrow> b\<lparr>ib_last_answer := Some tr,
                 ib_trips := push_bounded MAX_CONVERSATION_EVENTS
                   \<lparr>rt_question = fst q, rt_answer = tr, rt_seconds = py_round 2 (now - snd q), rt_ts = ts,
                    rt_conv = ib_conv b, rt_turn = ib_turn b, rt_obs_id = oid\<rparr> (ib_trips b)\<rparr>)
           in b1\<lparr>ib_pending := None,
                 ib_conversation := push_bounded MAX_CONVERSATION_TURNS
                   \<lparr>ct_human = True, ct_text = tr, ct_ts = ts, ct_response = None, ct_conv = ib_conv b\<rparr> (ib_conversation b1)\<rparr>)"

text \<open>The presence state machine; \<open>fresh\<close> is the conversation id a return draws.\<close>

definition presence_step :: "real \<Rightarrow> bool \<Rightarrow> string \<Rightarrow> ibus \<Rightarrow> ibus \<times> string option" where
  "presence_step now present fresh b =
     (if \<bar>now - ib_changed_at b\<bar> \<ge> DEBOUNCE_S
      then if present \<and> ib_presence b = USER_ABSENT
           then let b1 = b\<lparr>ib_presence := USER_PRESENT, ib_changed_at := now, ib_been_present := True\<rparr> in
                if ib_been_present b
                then (b1\<lparr>ib_conv := fresh, ib_turn_seq := 0, ib_turn := None\<rparr>, Some USER_RETURNED_EVENT)
                else (b1, Some USER_PRESENT_EVENT)
           else if \<not> present \<and> ib_presence b = USER_PRESENT
           then (b\<lparr>ib_presence := USER_ABSENT, ib_changed_at := now\<rparr>, Some USER_LEFT_EVENT)
           else (b, None)
      else (b, None))"

definition count_event :: "string option \<Rightarrow> ibus \<Rightarrow> ibus" where
  "count_event ev b = (case ev of None \<Rightarrow> b | Some e \<Rightarrow> b\<lparr>ib_event_counts := bump_count e (ib_event_counts b)\<rparr>)"

text \<open>The entry of an observation. It is appended to the buffer before the presence step writes its event into it; the
  buffer holds the same dictionary, so the event is part of the buffered entry.\<close>

definition bus_entry_of :: "real \<Rightarrow> human_observation \<Rightarrow> ibus \<Rightarrow> bus_entry" where
  "bus_entry_of now o1 b =
     (let tr = transcript_of o1; b1 = enter_turn tr b in
      \<lparr>en_type = ho_type o1, en_source = ho_source o1,
       en_payload = (case answered_question now tr b of None \<Rightarrow> ho_payload o1 | Some q \<Rightarrow> dset ''answer_to'' (PStr (fst q)) (ho_payload o1)),
       en_conf = ho_conf o1, en_ts = ho_ts o1, en_scope = ho_scope o1, en_obs_id = ''obs-'' @ show_nat (ib_obs_seq b + 1),
       en_conv = ib_conv b, en_turn = (if tr \<noteq> [] then ib_turn b1 else None), en_seq = ib_seq b + 1, en_event = None\<rparr>)"

record publication =
  pb_bus :: ibus
  pb_accepted :: bool
  pb_detail :: string
  pb_delivered :: "(nat \<times> bus_entry) list"

text \<open>The critical section for an accepted observation.\<close>

definition admit_observation :: "real \<Rightarrow> string \<Rightarrow> human_observation \<Rightarrow> ibus \<Rightarrow> ibus \<times> bus_entry" where
  "admit_observation now fresh o1 b =
     (let tr = transcript_of o1; oid = ''obs-'' @ show_nat (ib_obs_seq b + 1);
          b1 = hear now tr (ho_ts o1) oid (enter_turn tr (b\<lparr>ib_seq := ib_seq b + 1, ib_obs_seq := ib_obs_seq b + 1\<rparr>));
          (b2, ev) = presence_step now (present_implied o1) fresh b1;
          entry = (bus_entry_of now o1 b)\<lparr>en_event := ev\<rparr>
      in (count_event ev (b2\<lparr>ib_buffer := push_bounded (ib_cap b) entry (ib_buffer b),
             ib_counts := bump_count (ho_type o1) (ib_counts b), ib_last_ts := ho_ts o1\<rparr>), entry))"

text \<open>\<open>publish\<close>; \<open>None\<close> stands for an argument that is no observation.\<close>

definition ib_publish :: "float_io \<Rightarrow> real \<Rightarrow> string \<Rightarrow> human_observation option \<Rightarrow> ibus \<Rightarrow> publication" where
  "ib_publish F now fresh ob b =
     (case ob of
        None \<Rightarrow> \<lparr>pb_bus = reject b, pb_accepted = False, pb_detail = ''not a HumanObservation'', pb_delivered = []\<rparr>
      | Some o1 \<Rightarrow>
          if \<not> fst (ho_validate F o1)
          then \<lparr>pb_bus = reject b, pb_accepted = False, pb_detail = snd (ho_validate F o1), pb_delivered = []\<rparr>
          else (case admit_observation now fresh o1 b of (b1, entry) \<Rightarrow>
            \<lparr>pb_bus = b1, pb_accepted = True, pb_detail = (case en_event entry of None \<Rightarrow> ''ok'' | Some e \<Rightarrow> e),
             pb_delivered = map (\<lambda>l. (l, entry)) (ib_listeners b1)\<rparr>))"

definition record_rejected :: "ibus \<Rightarrow> ibus" where
  "record_rejected b = reject b"

text \<open>\<open>record_agent_response\<close>; the three times are the readings of the clock, in the order of the code.\<close>

definition record_agent_response :: "float_io \<Rightarrow> real \<Rightarrow> real \<Rightarrow> real \<Rightarrow> agent_response option \<Rightarrow> ibus \<Rightarrow> ibus \<times> bool \<times> string" where
  "record_agent_response F t1 t2 t3 resp b =
     (case resp of
        None \<Rightarrow> (reject b, False, ''not an AgentResponse'')
      | Some r \<Rightarrow>
          if \<not> fst (ar_validate F r) then (reject b, False, snd (ar_validate F r))
          else let rid = ''rsp-'' @ show_nat (ib_rsp_seq b + 1);
                   r1 = r\<lparr>ar_id := Some rid, ar_in_response_to := ib_turn b\<rparr>;
                   b1 = b\<lparr>ib_rsp_seq := ib_rsp_seq b + 1, ib_last_response := Some r1, ib_responses := ib_responses b + 1,
                          ib_last_response_ts := Some t1\<rparr>;
                   b2 = (if ar_type r = ''speech''
                         then b1\<lparr>ib_conversation := push_bounded MAX_CONVERSATION_TURNS
                                   \<lparr>ct_human = False, ct_text = ar_content r, ct_ts = t2, ct_response = Some rid, ct_conv = ib_conv b\<rparr>
                                   (ib_conversation b),
                                 ib_turn := None\<rparr> else b1);
                   b3 = (if ar_type r = ''speech'' \<and> ar_expects r
                         then b2\<lparr>ib_last_question := Some (ar_content r), ib_pending := Some (ar_content r, t3)\<rparr> else b2)
               in (b3, True, ''ok''))"

definition expect_answer :: "real \<Rightarrow> string \<Rightarrow> ibus \<Rightarrow> ibus \<times> bool" where
  "expect_answer now question b =
     (let t = sanitize_text question MAX_RESPONSE_CONTENT_LEN in
      if t = [] then (b, False) else (b\<lparr>ib_last_question := Some t, ib_pending := Some (t, now)\<rparr>, True))"

definition drain_conversation_events :: "ibus \<Rightarrow> ibus \<times> round_trip list" where
  "drain_conversation_events b = (b\<lparr>ib_trips := []\<rparr>, ib_trips b)"

definition export_conversation_turns :: "ibus \<Rightarrow> conv_turn list" where
  "export_conversation_turns b = ib_conversation b"

definition add_listener :: "nat \<Rightarrow> ibus \<Rightarrow> ibus" where
  "add_listener l b = b\<lparr>ib_listeners := ib_listeners b @ [l]\<rparr>"

definition remove_listener :: "nat \<Rightarrow> ibus \<Rightarrow> ibus" where
  "remove_listener l b = b\<lparr>ib_listeners := filter (\<lambda>x. x \<noteq> l) (ib_listeners b)\<rparr>"

subsection \<open>Views\<close>

definition newest_of :: "string \<Rightarrow> ibus \<Rightarrow> bus_entry option" where
  "newest_of ty b = find (\<lambda>e. en_type e = ty) (rev (ib_buffer b))"

definition stage :: "real \<Rightarrow> real \<Rightarrow> real option \<Rightarrow> string" where
  "stage now max_age seen = (case seen of None \<Rightarrow> ''unknown'' | Some t \<Rightarrow> if now - t \<le> max_age then ''ok'' else ''stale'')"

definition told_stage :: "bool option \<Rightarrow> string" where
  "told_stage v = (case v of None \<Rightarrow> ''unknown'' | Some x \<Rightarrow> if x then ''ok'' else ''down'')"

definition health_stages :: "real \<Rightarrow> bool option \<Rightarrow> bool option \<Rightarrow> bool option \<Rightarrow> ibus \<Rightarrow> (string \<times> string) list" where
  "health_stages now model_ready tts_attached memory_ok b =
     [(''sensors'', stage now 60 (if ib_last_ts b = 0 then None else Some (ib_last_ts b))),
      (''vision'', stage now 60 (map_option en_ts (newest_of ''visual'' b))),
      (''hearing'', stage now 120 (map_option en_ts (newest_of ''speech'' b))),
      (''speech'', told_stage tts_attached), (''model'', told_stage model_ready), (''memory'', told_stage memory_ok)]"

definition health_overall :: "(string \<times> string) list \<Rightarrow> string" where
  "health_overall stages =
     (if ''down'' \<in> snd ` set stages then ''down''
      else if list_all (\<lambda>s. map_of stages s = Some ''unknown'') [''sensors'', ''vision'', ''hearing''] then ''unknown''
      else if length (filter (\<lambda>s. snd s = ''ok'') stages) \<ge> 3 then ''ok''
      else ''stale'')"

record health =
  hl_stages :: "(string \<times> string) list"
  hl_overall :: string
  hl_round_trips :: nat
  hl_backing :: string

definition pipeline_health :: "real \<Rightarrow> bool option \<Rightarrow> bool option \<Rightarrow> bool option \<Rightarrow> string \<Rightarrow> ibus \<Rightarrow> health" where
  "pipeline_health now model_ready tts_attached memory_ok backing b =
     \<lparr>hl_stages = health_stages now model_ready tts_attached memory_ok b,
      hl_overall = health_overall (health_stages now model_ready tts_attached memory_ok b),
      hl_round_trips = length (ib_trips b), hl_backing = (if backing = [] then ''unknown'' else backing)\<rparr>"

definition last_person_present :: "real \<Rightarrow> ibus \<Rightarrow> bool option" where
  "last_person_present now b =
     (case newest_of ''visual'' b of None \<Rightarrow> None
      | Some e \<Rightarrow> if now - en_ts e > 60 then None
                   else let v = dget (en_payload e) ''person_present'' in if v = PNone then None else Some (truthy v))"

definition last_human_words :: "conv_turn list \<Rightarrow> string list option" where
  "last_human_words conv =
     (if conv \<noteq> [] \<and> ct_human (last conv) \<and> ct_text (last conv) \<noteq> [] \<and> 3 \<le> length (py_words (py_strip (ct_text (last conv))))
      then Some (py_words (py_lower (py_strip (ct_text (last conv))))) else None)"

definition intent_verb :: "string list \<Rightarrow> string" where
  "intent_verb w = (if w ! 0 \<in> {''can'', ''please'', ''i'', ''shugo''} then w ! 1 else w ! 0)"

record user_context =
  uc_person :: "bool option"
  uc_speech_recent :: bool
  uc_vision_recent :: bool
  uc_transcript :: "string option"
  uc_gaze :: "pyval option"
  uc_attention :: "string option"
  uc_conf :: "real option"

record human_ctx =
  hc_presence :: user_presence
  hc_since :: "real option"
  hc_recorded :: nat
  hc_conversation :: "conv_turn list"
  hc_pending :: "string option"
  hc_conv :: string
  hc_turn :: "string option"
  hc_subject :: "string option"
  hc_verb :: "string option"
  hc_user :: user_context

definition observation_age :: "real \<Rightarrow> ibus \<Rightarrow> real option" where
  "observation_age now b = (if ib_last_ts b = 0 then None else Some (py_round 1 (now - ib_last_ts b)))"

definition context_turns :: "ibus \<Rightarrow> conv_turn list" where
  "context_turns b = drop (length (ib_conversation b) - MAX_CONTEXT_TURNS) (ib_conversation b)"

definition mean_confidence :: "real \<Rightarrow> ibus \<Rightarrow> real option" where
  "mean_confidence now b =
     (let cs = map en_conf (filter (\<lambda>e. now - en_ts e \<le> 30) (ib_buffer b))
      in if cs = [] then None else Some (py_round 2 (sum_list cs / real (length cs))))"

definition user_context_of :: "real \<Rightarrow> ibus \<Rightarrow> user_context" where
  "user_context_of now b =
     (let conv = context_turns b; vis = newest_of ''visual'' b;
          said = (if conv \<noteq> [] \<and> ct_human (last conv) then Some (ct_text (last conv)) else None) in
      \<lparr>uc_person = last_person_present now b,
       uc_speech_recent = list_ex (\<lambda>e. en_type e = ''speech'' \<and> now - en_ts e \<le> 30) (ib_buffer b),
       uc_vision_recent = (case vis of None \<Rightarrow> False | Some e \<Rightarrow> now - en_ts e \<le> 30),
       uc_transcript = said,
       uc_gaze = (case vis of None \<Rightarrow> None
                  | Some e \<Rightarrow> if truthy (dget (en_payload e) ''gaze_direction'') then Some (dget (en_payload e) ''gaze_direction'') else None),
       uc_attention = (if said = Some [] then None else said),
       uc_conf = mean_confidence now b\<rparr>)"

definition human_context :: "real \<Rightarrow> ibus \<Rightarrow> human_ctx" where
  "human_context now b =
     (let conv = context_turns b in
      \<lparr>hc_presence = ib_presence b, hc_since = observation_age now b, hc_recorded = sum_list (map snd (ib_counts b)),
       hc_conversation = conv,
       hc_pending = (case ib_pending b of None \<Rightarrow> None | Some q \<Rightarrow> if now - snd q \<le> ANSWER_TTL_S then Some (fst q) else None),
       hc_conv = ib_conv b, hc_turn = ib_turn b, hc_subject = map_option last (last_human_words conv),
       hc_verb = map_option intent_verb (last_human_words conv), hc_user = user_context_of now b\<rparr>)"

record bus_stats =
  bs_presence :: user_presence
  bs_observations :: nat
  bs_by_type :: "(string \<times> nat) list"
  bs_events :: "(string \<times> nat) list"
  bs_rejected :: nat
  bs_buffered :: nat
  bs_age :: "real option"
  bs_person :: "bool option"
  bs_transcript :: "string option"
  bs_transcript_ts :: real
  bs_spoken :: "string option"
  bs_responses :: nat
  bs_question :: "string option"
  bs_answer :: "string option"
  bs_turns :: nat
  bs_conv :: string
  bs_turn :: "string option"
  bs_response_id :: "string option"
  bs_trips :: nat
  bs_last_trip :: "round_trip option"

definition ib_stats :: "real \<Rightarrow> ibus \<Rightarrow> bus_stats" where
  "ib_stats now b =
     (let sp = newest_of ''speech'' b in
      \<lparr>bs_presence = ib_presence b, bs_observations = sum_list (map snd (ib_counts b)), bs_by_type = ib_counts b,
       bs_events = ib_event_counts b, bs_rejected = ib_rejected b, bs_buffered = length (ib_buffer b),
       bs_age = observation_age now b, bs_person = last_person_present now b,
       bs_transcript = (case sp of None \<Rightarrow> None
          | Some e \<Rightarrow> if truthy (dget (en_payload e) ''transcript'') then Some (py_str (dget (en_payload e) ''transcript'')) else None),
       bs_transcript_ts = (case sp of None \<Rightarrow> 0 | Some e \<Rightarrow> en_ts e),
       bs_spoken = (case ib_last_response b of None \<Rightarrow> None | Some r \<Rightarrow> if ar_type r = ''speech'' then Some (ar_content r) else None),
       bs_responses = ib_responses b, bs_question = ib_last_question b, bs_answer = ib_last_answer b,
       bs_turns = length (ib_conversation b), bs_conv = ib_conv b, bs_turn = ib_turn b,
       bs_response_id = (case ib_last_response b of None \<Rightarrow> None | Some r \<Rightarrow> ar_id r), bs_trips = length (ib_trips b),
       bs_last_trip = (if ib_trips b = [] then None else Some (last (ib_trips b)))\<rparr>)"

subsection \<open>What passes the contract is bounded\<close>

fun bounded_value :: "pyval \<Rightarrow> bool" where
  "bounded_value (PBool b) = True"
| "bounded_value (PInt i) = (\<bar>i\<bar> < float_limit)"
| "bounded_value (PFloat r) = (r \<notin> {''nan'', ''inf'', ''-inf''})"
| "bounded_value (PStr s) = (length s \<le> 160)"
| "bounded_value _ = False"

definition bounded_items :: "pydict \<Rightarrow> bool" where
  "bounded_items p \<longleftrightarrow> distinct (map fst p) \<and> (\<forall>kv\<in>set p. fst kv \<noteq> [] \<and> length (fst kv) \<le> 40 \<and> bounded_value (snd kv))"

lemma sanitized_short: "0 \<le> k \<Longrightarrow> length (sanitize_text s k) \<le> nat k"
  using sanitize_text_length [of s k] by simp

lemma bounded_sanitized [simp]:
  "length (sanitize_text s MAX_PAYLOAD_VALUE_LEN) \<le> 160" "length (sanitize_text s MAX_PAYLOAD_KEY_LEN) \<le> 160"
  using sanitized_short [of 160 s] sanitized_short [of 40 s] by (simp_all add: MAX_PAYLOAD_VALUE_LEN_def MAX_PAYLOAD_KEY_LEN_def)

lemma length_update_le: "length (AList.update k v al) \<le> Suc (length al)"
  by (induction al) auto

lemma set_update_sub: "set (AList.update k v al) \<subseteq> insert (k, v) (set al)"
  by (induction al) auto

lemma dset_bounded:
  assumes "bounded_items p" "bounded_value v" "sanitize_text k MAX_PAYLOAD_KEY_LEN \<noteq> []"
  shows "bounded_items (dset (sanitize_text k MAX_PAYLOAD_KEY_LEN) v p)"
    "length (dset (sanitize_text k MAX_PAYLOAD_KEY_LEN) v p) \<le> Suc (length p)"
proof -
  have "length (sanitize_text k MAX_PAYLOAD_KEY_LEN) \<le> 40"
    using sanitized_short [of 40 k] by (simp add: MAX_PAYLOAD_KEY_LEN_def)
  then show "bounded_items (dset (sanitize_text k MAX_PAYLOAD_KEY_LEN) v p)"
    using assms set_update_sub [of "sanitize_text k MAX_PAYLOAD_KEY_LEN" v p]
    by (auto simp: bounded_items_def dset_def distinct_update)
qed (simp add: dset_def length_update_le)

lemma payload_item_bounded: "payload_item F v = Inr (Some w) \<Longrightarrow> bounded_value w"
  by (cases v) (auto simp: finite_repr_def split: if_splits simp del: py_str.simps)

lemma payload_items_bounded:
  "payload_items F kvs p = Inr q \<Longrightarrow> bounded_items p \<Longrightarrow> bounded_items q \<and> length q \<le> length p + length kvs"
proof (induction kvs arbitrary: p)
  case (Cons kv kvs)
  obtain k v where kv: "kv = (k, v)" by (cases kv)
  define key where "key = sanitize_text k MAX_PAYLOAD_KEY_LEN"
  consider (skip) "payload_items F kvs p = Inr q"
    | (put) w where "payload_items F kvs (dset key w p) = Inr q" "bounded_value w" "key \<noteq> []"
  proof (cases "key = []")
    case True
    then show ?thesis using Cons.prems(1) skip by (simp add: kv key_def)
  next
    case False
    then show ?thesis
      using Cons.prems(1) skip put payload_item_bounded [of F v]
      by (auto simp: kv Let_def simp flip: key_def split: sum.splits option.splits)
  qed
  then show ?case
  proof cases
    case skip
    then show ?thesis using Cons.IH [OF skip] Cons.prems(2) by auto
  next
    case put
    have "bounded_items (dset key w p)" "length (dset key w p) \<le> Suc (length p)"
      using dset_bounded [of p w k] put Cons.prems(2) by (simp_all add: key_def)
    then show ?thesis using Cons.IH [OF put(1)] by auto
  qed
qed simp

lemma sanitize_payload_bounded:
  assumes "sanitize_payload F v = Inr p"
  shows "bounded_items p \<and> length p \<le> 12"
proof (cases v)
  case (PDict d)
  then have "payload_items F (take MAX_PAYLOAD_KEYS d) [] = Inr p" using assms by simp
  from payload_items_bounded [OF this] show ?thesis by (auto simp: bounded_items_def MAX_PAYLOAD_KEYS_def)
next
  case (PInt i)
  then show ?thesis using assms by (auto simp: bounded_items_def finite_repr_def split: if_splits)
next
  case (PFloat r)
  then show ?thesis using assms by (auto simp: bounded_items_def finite_repr_def split: if_splits)
qed (use assms in \<open>auto simp: bounded_items_def\<close>)

text \<open>Whatever a provider sends, an observation that passes the contract is bounded: its type and privacy scope are known, its
  source is between 1 and 40 characters long, its confidence lies in [0,1], and its payload is a flat dictionary of at most 12 distinct
  non-empty keys of at most 40 characters whose values are truth values, finite numbers or texts of at most 160 characters.\<close>

theorem admitted_observation_is_bounded:
  assumes "ho_from_dict F now data = Inr (Some ob, reason)"
  shows "ho_type ob \<in> set OBSERVATION_TYPES \<and> ho_scope ob \<in> set PRIVACY_SCOPES \<and> ho_source ob \<noteq> [] \<and> length (ho_source ob) \<le> 40 \<and>
    0 \<le> ho_conf ob \<and> ho_conf ob \<le> 1 \<and> bounded_items (ho_payload ob) \<and> length (ho_payload ob) \<le> 12"
proof -
  obtain d ty source payload conf ts scope oid where
      o1: "new_observation F now ty source payload conf ts scope oid = Inr ob" and valid: "fst (ho_validate F ob)"
    using assms by (auto simp: ho_from_dict_def split: pyval.splits sum.splits if_splits)
  have "sanitize_payload F payload = Inr (ho_payload ob)" and src: "ho_source ob = sanitize_text source MAX_SOURCE_LEN"
    using o1 by (auto simp: new_observation_def split: sum.splits if_splits)
  moreover have "length (ho_source ob) \<le> 40"
    using sanitized_short [of 40 source] by (simp add: src MAX_SOURCE_LEN_def)
  ultimately show ?thesis
    using sanitize_payload_bounded [of F payload] valid by (simp add: ho_validate_def split: if_splits)
qed

definition sample_io :: float_io where
  "sample_io = \<lparr>fp_parse = (\<lambda>_. None), fp_value = (\<lambda>r. if r = ''1.0'' then 1 else if r = ''2.5'' then 5/2 else 0),
     fp_show = (\<lambda>x. if x = 1 then ''1.0'' else if x = 5/2 then ''2.5'' else ''0.0'')\<rparr>"

definition hello :: pyval where
  "hello = PDict [(''type'', PStr ''Speech''), (''source'', PStr ''mic''), (''payload'', PDict [(''transcript'', PStr ''hello'')]),
     (''timestamp'', PFloat ''2.5'')]"

definition hello_obs :: human_observation where
  "hello_obs = \<lparr>ho_type = ''speech'', ho_source = ''mic'', ho_payload = [(''transcript'', PStr ''hello'')], ho_id = None, ho_conf = 1,
     ho_conf_invalid = False, ho_ts = 5/2, ho_scope = ''local''\<rparr>"

lemma sample_texts:
  "sanitize_text ''mic'' 40 = ''mic''" "sanitize_text ''transcript'' 40 = ''transcript''" "sanitize_text ''hello'' 160 = ''hello''"
  "py_lower (py_strip ''Speech'') = ''speech''" "py_lower (py_strip ''local'') = ''local''" "py_strip ''hello'' = ''hello''"
proof -
  show "py_lower (py_strip ''Speech'') = ''speech''" "py_lower (py_strip ''local'') = ''local''" "py_strip ''hello'' = ''hello''"
    by code_simp+
qed (rule sanitize_text_plain; simp add: plain_char_def char_code_def)+

lemma hello_admitted: "ho_from_dict sample_io 9 hello = Inr (Some hello_obs, ''ok'')"
  by (simp add: ho_from_dict_def hello_def new_observation_def dget_def dget_default_def str_or_def sample_texts
      MAX_PAYLOAD_KEYS_def MAX_PAYLOAD_KEY_LEN_def MAX_PAYLOAD_VALUE_LEN_def MAX_SOURCE_LEN_def dset_def finite_repr_def
      sample_io_def non_empty_def hello_obs_def ho_validate_def OBSERVATION_TYPES_def PRIVACY_SCOPES_def)

theorem admitted_observation_is_bounded_witness:
  "ho_from_dict sample_io 9 hello = Inr (Some hello_obs, ''ok'') \<and> length (ho_source hello_obs) \<le> 40"
  using hello_admitted admitted_observation_is_bounded [OF hello_admitted] by simp

text \<open>A number that no double can hold raises, although the reading of untrusted input promises never to.\<close>

theorem huge_number_escapes:
  "ho_from_dict F now (PDict [(''type'', PStr ''speech''), (''source'', PStr ''mic''), (''confidence'', PInt (2 ^ 1024))]) = Inl OverflowError"
  by (simp add: ho_from_dict_def new_observation_def dget_def dget_default_def float_limit_def)

subsection \<open>Round trip of an observation\<close>

text \<open>What reading keeps: a text the sanitiser leaves alone, a value that is stored as it is, a number that its \<open>repr\<close> identifies.\<close>

definition stable_item :: "string \<times> pyval \<Rightarrow> bool" where
  "stable_item kv \<longleftrightarrow> fst kv \<noteq> [] \<and> sanitize_text (fst kv) MAX_PAYLOAD_KEY_LEN = fst kv \<and> bounded_value (snd kv) \<and>
     (\<forall>s. snd kv = PStr s \<longrightarrow> sanitize_text s MAX_PAYLOAD_VALUE_LEN = s)"

definition shown_ok :: "float_io \<Rightarrow> real \<Rightarrow> bool" where
  "shown_ok F x \<longleftrightarrow> finite_repr F (fp_show F x) = Some x"

lemma update_fresh: "k \<notin> fst ` set al \<Longrightarrow> AList.update k v al = al @ [(k, v)]"
  by (induction al) auto

lemma stable_item_kept: "stable_item kv \<Longrightarrow> payload_item F (snd kv) = Inr (Some (snd kv))"
  by (cases "snd kv") (auto simp: stable_item_def finite_repr_def)

lemma payload_items_stable:
  assumes "list_all stable_item kvs" "distinct (map fst (p @ kvs))"
  shows "payload_items F kvs p = Inr (p @ kvs)"
  using assms
proof (induction kvs arbitrary: p)
  case (Cons kv kvs)
  have "payload_items F (kv # kvs) p = payload_items F kvs (p @ [kv])"
    using Cons.prems stable_item_kept [of kv F]
    by (cases kv) (auto simp: stable_item_def dset_def update_fresh)
  moreover have "payload_items F kvs (p @ [kv]) = Inr ((p @ [kv]) @ kvs)"
    by (rule Cons.IH) (use Cons.prems in auto)
  ultimately show ?case by simp
qed simp

lemma type_stable: "t \<in> set OBSERVATION_TYPES \<Longrightarrow> py_lower (py_strip t) = t"
proof -
  have "list_all (\<lambda>t. py_lower (py_strip t) = t) OBSERVATION_TYPES" by code_simp
  then show "t \<in> set OBSERVATION_TYPES \<Longrightarrow> py_lower (py_strip t) = t" by (auto simp: list_all_iff)
qed

lemma scope_stable: "t \<in> set PRIVACY_SCOPES \<Longrightarrow> py_lower (py_strip t) = t"
proof -
  have "list_all (\<lambda>t. py_lower (py_strip t) = t) PRIVACY_SCOPES" by code_simp
  then show "t \<in> set PRIVACY_SCOPES \<Longrightarrow> py_lower (py_strip t) = t" by (auto simp: list_all_iff)
qed

lemma valid_fields:
  "fst (ho_validate F ob) \<longleftrightarrow> ho_type ob \<in> set OBSERVATION_TYPES \<and> ho_source ob \<noteq> [] \<and> \<not> ho_conf_invalid ob \<and> 0 \<le> ho_conf ob \<and>
     ho_conf ob \<le> 1 \<and> ho_scope ob \<in> set PRIVACY_SCOPES"
  "fst (ho_validate F ob) \<Longrightarrow> snd (ho_validate F ob) = ''ok''"
  by (auto simp: ho_validate_def split: if_splits)

lemma known_non_empty: "t \<in> set OBSERVATION_TYPES \<Longrightarrow> t \<noteq> []" "t \<in> set PRIVACY_SCOPES \<Longrightarrow> t \<noteq> []"
  by (auto simp: OBSERVATION_TYPES_def PRIVACY_SCOPES_def)

text \<open>What an observation exports can be read back: for a valid observation whose texts the sanitiser leaves alone and whose numbers
  their printed form identifies, reading its dictionary gives the same observation, with the reason \<open>ok\<close>.\<close>

theorem observation_round_trip:
  assumes "fst (ho_validate F ob)" "sanitize_text (ho_source ob) MAX_SOURCE_LEN = ho_source ob" "ho_id ob \<noteq> Some []"
    and "list_all stable_item (ho_payload ob)" "distinct (map fst (ho_payload ob))" "length (ho_payload ob) \<le> MAX_PAYLOAD_KEYS"
    and "shown_ok F (ho_conf ob)" "shown_ok F (ho_ts ob)"
  shows "ho_from_dict F now (PDict (ho_to_dict F ob)) = Inr (Some ob, ''ok'')"
proof -
  note valid = assms(1) [unfolded valid_fields(1)]
  have "sanitize_payload F (PDict (ho_payload ob)) = Inr (ho_payload ob)"
    using payload_items_stable [of "ho_payload ob" "[]" F] assms(4,5,6) by simp
  then have "new_observation F now (ho_type ob) (ho_source ob) (PDict (ho_payload ob)) (PFloat (fp_show F (ho_conf ob)))
      (PFloat (fp_show F (ho_ts ob))) (ho_scope ob) (case ho_id ob of None \<Rightarrow> [] | Some i \<Rightarrow> i) = Inr ob"
    using assms(2,3,7,8) valid
    by (simp add: new_observation_def shown_ok_def type_stable scope_stable non_empty_def split: option.split)
  then show ?thesis
    using assms(1) valid known_non_empty
    by (cases "ho_id ob") (auto simp: ho_from_dict_def ho_to_dict_def dget_def dget_default_def str_or_def valid_fields(2))
qed

theorem observation_round_trip_witness:
  "ho_from_dict sample_io 9 (PDict (ho_to_dict sample_io hello_obs)) = Inr (Some hello_obs, ''ok'')"
  by (rule observation_round_trip)
     (simp_all add: valid_fields hello_obs_def OBSERVATION_TYPES_def PRIVACY_SCOPES_def stable_item_def sample_texts MAX_SOURCE_LEN_def
       MAX_PAYLOAD_KEY_LEN_def MAX_PAYLOAD_VALUE_LEN_def MAX_PAYLOAD_KEYS_def shown_ok_def finite_repr_def sample_io_def)

subsection \<open>Operations as a machine\<close>

datatype ib_op =
    IPublish real string "human_observation option"
  | IRejected
  | IRespond real real real "agent_response option"
  | IExpect real string
  | IDrain
  | IListen nat
  | IUnlisten nat

fun ib_step :: "float_io \<Rightarrow> ib_op \<Rightarrow> ibus \<Rightarrow> ibus" where
  "ib_step F (IPublish now fresh ob) b = pb_bus (ib_publish F now fresh ob b)"
| "ib_step F IRejected b = record_rejected b"
| "ib_step F (IRespond t1 t2 t3 r) b = fst (record_agent_response F t1 t2 t3 r b)"
| "ib_step F (IExpect now q) b = fst (expect_answer now q b)"
| "ib_step F IDrain b = fst (drain_conversation_events b)"
| "ib_step F (IListen l) b = add_listener l b"
| "ib_step F (IUnlisten l) b = remove_listener l b"

text \<open>What each part of a publication leaves alone, and what it writes.\<close>

lemma turn_frame [frame_simps]:
  "ib_cap (enter_turn tr b) = ib_cap b" "ib_buffer (enter_turn tr b) = ib_buffer b" "ib_listeners (enter_turn tr b) = ib_listeners b"
  "ib_presence (enter_turn tr b) = ib_presence b" "ib_been_present (enter_turn tr b) = ib_been_present b"
  "ib_changed_at (enter_turn tr b) = ib_changed_at b" "ib_counts (enter_turn tr b) = ib_counts b"
  "ib_event_counts (enter_turn tr b) = ib_event_counts b" "ib_rejected (enter_turn tr b) = ib_rejected b"
  "ib_seq (enter_turn tr b) = ib_seq b" "ib_conv (enter_turn tr b) = ib_conv b" "ib_obs_seq (enter_turn tr b) = ib_obs_seq b"
  "ib_rsp_seq (enter_turn tr b) = ib_rsp_seq b" "ib_responses (enter_turn tr b) = ib_responses b"
  "ib_conversation (enter_turn tr b) = ib_conversation b" "ib_pending (enter_turn tr b) = ib_pending b" "ib_trips (enter_turn tr b) = ib_trips b"
  by (simp_all add: enter_turn_def)

lemma hear_frame [frame_simps]:
  "ib_cap (hear now tr ts oid b) = ib_cap b" "ib_buffer (hear now tr ts oid b) = ib_buffer b"
  "ib_listeners (hear now tr ts oid b) = ib_listeners b" "ib_presence (hear now tr ts oid b) = ib_presence b"
  "ib_been_present (hear now tr ts oid b) = ib_been_present b" "ib_changed_at (hear now tr ts oid b) = ib_changed_at b"
  "ib_counts (hear now tr ts oid b) = ib_counts b" "ib_event_counts (hear now tr ts oid b) = ib_event_counts b"
  "ib_rejected (hear now tr ts oid b) = ib_rejected b" "ib_seq (hear now tr ts oid b) = ib_seq b"
  "ib_conv (hear now tr ts oid b) = ib_conv b" "ib_obs_seq (hear now tr ts oid b) = ib_obs_seq b"
  "ib_rsp_seq (hear now tr ts oid b) = ib_rsp_seq b" "ib_responses (hear now tr ts oid b) = ib_responses b"
  "ib_turn_seq (hear now tr ts oid b) = ib_turn_seq b" "ib_turn (hear now tr ts oid b) = ib_turn b"
  by (simp_all add: hear_def Let_def split: option.split)

lemma hear_writes:
  "ib_pending (hear now tr ts oid b) = (if tr = [] then ib_pending b else None)"
  "ib_conversation (hear now tr ts oid b) = (if tr = [] then ib_conversation b else push_bounded MAX_CONVERSATION_TURNS
     \<lparr>ct_human = True, ct_text = tr, ct_ts = ts, ct_response = None, ct_conv = ib_conv b\<rparr> (ib_conversation b))"
  "ib_trips (hear now tr ts oid b) = (case answered_question now tr b of None \<Rightarrow> ib_trips b
     | Some q \<Rightarrow> push_bounded MAX_CONVERSATION_EVENTS \<lparr>rt_question = fst q, rt_answer = tr, rt_seconds = py_round 2 (now - snd q), rt_ts = ts,
                    rt_conv = ib_conv b, rt_turn = ib_turn b, rt_obs_id = oid\<rparr> (ib_trips b))"
  by (simp_all add: hear_def Let_def answered_question_def split: option.split)

lemma presence_frame [frame_simps]:
  "ib_cap (fst (presence_step now p fresh b)) = ib_cap b" "ib_buffer (fst (presence_step now p fresh b)) = ib_buffer b"
  "ib_listeners (fst (presence_step now p fresh b)) = ib_listeners b" "ib_counts (fst (presence_step now p fresh b)) = ib_counts b"
  "ib_event_counts (fst (presence_step now p fresh b)) = ib_event_counts b" "ib_rejected (fst (presence_step now p fresh b)) = ib_rejected b"
  "ib_seq (fst (presence_step now p fresh b)) = ib_seq b" "ib_obs_seq (fst (presence_step now p fresh b)) = ib_obs_seq b"
  "ib_rsp_seq (fst (presence_step now p fresh b)) = ib_rsp_seq b" "ib_responses (fst (presence_step now p fresh b)) = ib_responses b"
  "ib_conversation (fst (presence_step now p fresh b)) = ib_conversation b" "ib_pending (fst (presence_step now p fresh b)) = ib_pending b"
  "ib_trips (fst (presence_step now p fresh b)) = ib_trips b"
  by (simp_all add: presence_step_def Let_def)

lemma answered_frame [frame_simps]:
  "answered_question now tr (enter_turn tr' b) = answered_question now tr b"
  "answered_question now tr (b\<lparr>ib_seq := n, ib_obs_seq := m\<rparr>) = answered_question now tr b"
  by (simp_all add: answered_question_def frame_simps)

lemma count_frame [frame_simps]:
  "ib_cap (count_event ev b) = ib_cap b" "ib_buffer (count_event ev b) = ib_buffer b" "ib_listeners (count_event ev b) = ib_listeners b"
  "ib_presence (count_event ev b) = ib_presence b" "ib_been_present (count_event ev b) = ib_been_present b"
  "ib_changed_at (count_event ev b) = ib_changed_at b" "ib_counts (count_event ev b) = ib_counts b"
  "ib_rejected (count_event ev b) = ib_rejected b" "ib_seq (count_event ev b) = ib_seq b" "ib_conv (count_event ev b) = ib_conv b"
  "ib_obs_seq (count_event ev b) = ib_obs_seq b" "ib_rsp_seq (count_event ev b) = ib_rsp_seq b"
  "ib_responses (count_event ev b) = ib_responses b" "ib_turn_seq (count_event ev b) = ib_turn_seq b" "ib_turn (count_event ev b) = ib_turn b"
  "ib_conversation (count_event ev b) = ib_conversation b" "ib_pending (count_event ev b) = ib_pending b" "ib_trips (count_event ev b) = ib_trips b"
  by (simp_all add: count_event_def split: option.split)

subsection \<open>Presence\<close>

text \<open>The automaton the bus promises, apart from everything else it keeps: whether the user is there, was there before, and
  since when.\<close>

type_synonym presence_state = "user_presence \<times> bool \<times> real"

fun presence_spec :: "real \<Rightarrow> bool \<Rightarrow> presence_state \<Rightarrow> presence_state \<times> string option" where
  "presence_spec now present (p, seen, since) =
     (if \<bar>now - since\<bar> < DEBOUNCE_S then ((p, seen, since), None)
      else case p of
        USER_ABSENT \<Rightarrow> if present then ((USER_PRESENT, True, now), Some (if seen then USER_RETURNED_EVENT else USER_PRESENT_EVENT))
                        else ((p, seen, since), None)
      | USER_PRESENT \<Rightarrow> if present then ((p, seen, since), None) else ((USER_ABSENT, seen, now), Some USER_LEFT_EVENT))"

definition presence_view :: "ibus \<Rightarrow> presence_state" where
  "presence_view b = (ib_presence b, ib_been_present b, ib_changed_at b)"

lemma presence_step_spec:
  "presence_view (fst (presence_step now p fresh b)) = fst (presence_spec now p (presence_view b))"
  "snd (presence_step now p fresh b) = snd (presence_spec now p (presence_view b))"
  by (auto simp: presence_step_def presence_view_def Let_def split: user_presence.split)

definition heard_state :: "real \<Rightarrow> human_observation \<Rightarrow> ibus \<Rightarrow> ibus" where
  "heard_state now o1 b = hear now (transcript_of o1) (ho_ts o1) (''obs-'' @ show_nat (ib_obs_seq b + 1))
     (enter_turn (transcript_of o1) (b\<lparr>ib_seq := ib_seq b + 1, ib_obs_seq := ib_obs_seq b + 1\<rparr>))"

lemma heard_frame [frame_simps]:
  "ib_cap (heard_state now o1 b) = ib_cap b" "ib_buffer (heard_state now o1 b) = ib_buffer b" "ib_listeners (heard_state now o1 b) = ib_listeners b"
  "presence_view (heard_state now o1 b) = presence_view b" "ib_counts (heard_state now o1 b) = ib_counts b"
  "ib_event_counts (heard_state now o1 b) = ib_event_counts b" "ib_rejected (heard_state now o1 b) = ib_rejected b"
  "ib_seq (heard_state now o1 b) = Suc (ib_seq b)" "ib_obs_seq (heard_state now o1 b) = Suc (ib_obs_seq b)" "ib_conv (heard_state now o1 b) = ib_conv b"
  "ib_rsp_seq (heard_state now o1 b) = ib_rsp_seq b" "ib_responses (heard_state now o1 b) = ib_responses b"
  by (simp_all add: heard_state_def frame_simps presence_view_def)

lemma admit_alt:
  "fst (admit_observation now fresh o1 b) = count_event (snd (presence_step now (present_implied o1) fresh (heard_state now o1 b)))
     ((fst (presence_step now (present_implied o1) fresh (heard_state now o1 b)))
        \<lparr>ib_buffer := push_bounded (ib_cap b) (snd (admit_observation now fresh o1 b)) (ib_buffer b),
         ib_counts := bump_count (ho_type o1) (ib_counts b), ib_last_ts := ho_ts o1\<rparr>)"
  "snd (admit_observation now fresh o1 b) = (bus_entry_of now o1 b)\<lparr>en_event := snd (presence_step now (present_implied o1) fresh (heard_state now o1 b))\<rparr>"
  by (simp_all add: admit_observation_def heard_state_def Let_def case_prod_beta)

lemma admit_fields:
  "ib_cap (fst (admit_observation now fresh o1 b)) = ib_cap b"
  "ib_buffer (fst (admit_observation now fresh o1 b)) = push_bounded (ib_cap b) (snd (admit_observation now fresh o1 b)) (ib_buffer b)"
  "ib_listeners (fst (admit_observation now fresh o1 b)) = ib_listeners b"
  "ib_counts (fst (admit_observation now fresh o1 b)) = bump_count (ho_type o1) (ib_counts b)"
  "ib_rejected (fst (admit_observation now fresh o1 b)) = ib_rejected b"
  "ib_seq (fst (admit_observation now fresh o1 b)) = Suc (ib_seq b)" "ib_obs_seq (fst (admit_observation now fresh o1 b)) = Suc (ib_obs_seq b)"
  "ib_rsp_seq (fst (admit_observation now fresh o1 b)) = ib_rsp_seq b" "ib_responses (fst (admit_observation now fresh o1 b)) = ib_responses b"
  "ib_conversation (fst (admit_observation now fresh o1 b)) = ib_conversation (heard_state now o1 b)"
  "ib_pending (fst (admit_observation now fresh o1 b)) = ib_pending (heard_state now o1 b)" "ib_trips (fst (admit_observation now fresh o1 b)) = ib_trips (heard_state now o1 b)"
  by (simp_all add: admit_alt(1) frame_simps)

lemma admit_presence:
  "presence_view (fst (admit_observation now fresh o1 b)) = fst (presence_spec now (present_implied o1) (presence_view b))"
  "en_event (snd (admit_observation now fresh o1 b)) = snd (presence_spec now (present_implied o1) (presence_view b))"
proof -
  have "presence_view (count_event ev (s\<lparr>ib_buffer := x, ib_counts := y, ib_last_ts := z\<rparr>)) = presence_view s" for ev s x y z
    by (simp add: presence_view_def frame_simps)
  then show "presence_view (fst (admit_observation now fresh o1 b)) = fst (presence_spec now (present_implied o1) (presence_view b))"
    by (simp only: admit_alt(1) presence_step_spec frame_simps)
  show "en_event (snd (admit_observation now fresh o1 b)) = snd (presence_spec now (present_implied o1) (presence_view b))"
    by (simp add: admit_alt(2) presence_step_spec frame_simps)
qed

fun presence_op :: "float_io \<Rightarrow> ib_op \<Rightarrow> presence_state \<Rightarrow> presence_state" where
  "presence_op F (IPublish now fresh (Some o1)) s = (if fst (ho_validate F o1) then fst (presence_spec now (present_implied o1) s) else s)"
| "presence_op F _ s = s"

lemma publish_cases:
  "ib_publish F now fresh None b = \<lparr>pb_bus = reject b, pb_accepted = False, pb_detail = ''not a HumanObservation'', pb_delivered = []\<rparr>"
  "\<not> fst (ho_validate F o1) \<Longrightarrow> ib_publish F now fresh (Some o1) b =
     \<lparr>pb_bus = reject b, pb_accepted = False, pb_detail = snd (ho_validate F o1), pb_delivered = []\<rparr>"
  "fst (ho_validate F o1) \<Longrightarrow> pb_bus (ib_publish F now fresh (Some o1) b) = fst (admit_observation now fresh o1 b)"
  "fst (ho_validate F o1) \<Longrightarrow> pb_accepted (ib_publish F now fresh (Some o1) b)"
  "fst (ho_validate F o1) \<Longrightarrow> pb_detail (ib_publish F now fresh (Some o1) b) =
     (case en_event (snd (admit_observation now fresh o1 b)) of None \<Rightarrow> ''ok'' | Some e \<Rightarrow> e)"
  by (simp_all add: ib_publish_def case_prod_beta)

lemma reject_frame [frame_simps]:
  "presence_view (reject b) = presence_view b" "ib_cap (reject b) = ib_cap b" "ib_buffer (reject b) = ib_buffer b"
  "ib_counts (reject b) = ib_counts b" "ib_seq (reject b) = ib_seq b" "ib_obs_seq (reject b) = ib_obs_seq b"
  "ib_rsp_seq (reject b) = ib_rsp_seq b" "ib_responses (reject b) = ib_responses b" "ib_conversation (reject b) = ib_conversation b"
  "ib_pending (reject b) = ib_pending b" "ib_trips (reject b) = ib_trips b"
  by (simp_all add: reject_def presence_view_def)

lemma respond_frame [frame_simps]:
  "presence_view (fst (record_agent_response F t1 t2 t3 r b)) = presence_view b"
  "ib_cap (fst (record_agent_response F t1 t2 t3 r b)) = ib_cap b" "ib_buffer (fst (record_agent_response F t1 t2 t3 r b)) = ib_buffer b"
  "ib_counts (fst (record_agent_response F t1 t2 t3 r b)) = ib_counts b" "ib_seq (fst (record_agent_response F t1 t2 t3 r b)) = ib_seq b"
  "ib_obs_seq (fst (record_agent_response F t1 t2 t3 r b)) = ib_obs_seq b" "ib_trips (fst (record_agent_response F t1 t2 t3 r b)) = ib_trips b"
  by (simp_all add: record_agent_response_def Let_def reject_def presence_view_def split: option.split)

lemma side_ops_frame [frame_simps]:
  "presence_view (fst (expect_answer now q b)) = presence_view b" "presence_view (fst (drain_conversation_events b)) = presence_view b"
  "presence_view (add_listener l b) = presence_view b" "presence_view (remove_listener l b) = presence_view b"
  by (simp_all add: expect_answer_def drain_conversation_events_def add_listener_def remove_listener_def presence_view_def Let_def)

interpretation presence_ref: functional_refinement "ib_step F" "\<lambda>_. True" "presence_op F" presence_view
proof
  fix s :: ibus and p :: ib_op
  show "presence_view (ib_step F p s) = presence_op F p (presence_view s)"
  proof (cases p)
    case (IPublish now fresh ob)
    show ?thesis
    proof (cases ob)
      case None
      then show ?thesis by (simp add: IPublish publish_cases frame_simps)
    next
      case (Some o1)
      then show ?thesis by (cases "fst (ho_validate F o1)") (simp_all add: IPublish publish_cases frame_simps admit_presence)
    qed
  qed (simp_all add: record_rejected_def frame_simps)
qed simp

text \<open>The presence events of a run, with their times, as callers see them: the detail of an accepted publication other than \<open>ok\<close>.\<close>

fun op_event :: "float_io \<Rightarrow> ib_op \<Rightarrow> ibus \<Rightarrow> (real \<times> string) list" where
  "op_event F (IPublish now fresh ob) b =
     (let p = ib_publish F now fresh ob b in if pb_accepted p \<and> pb_detail p \<noteq> ''ok'' then [(now, pb_detail p)] else [])"
| "op_event F _ b = []"

fun presence_log :: "float_io \<Rightarrow> ib_op list \<Rightarrow> ibus \<Rightarrow> (real \<times> string) list" where
  "presence_log F [] b = []"
| "presence_log F (p # ps) b = op_event F p b @ presence_log F ps (ib_step F p b)"

text \<open>A lifecycle: arrivals and departures alternate, the first arrival is \<open>USER_PRESENT\<close> and every later one \<open>USER_RETURNED\<close>, and
  two consecutive events are at least the debounce time apart.\<close>

fun lifecycle :: "presence_state \<Rightarrow> (real \<times> string) list \<Rightarrow> bool" where
  "lifecycle s [] = True"
| "lifecycle (p, seen, since) ((t, e) # evs) =
     (DEBOUNCE_S \<le> \<bar>t - since\<bar> \<and>
      (case p of USER_ABSENT \<Rightarrow> e = (if seen then USER_RETURNED_EVENT else USER_PRESENT_EVENT) \<and> lifecycle (USER_PRESENT, True, t) evs
       | USER_PRESENT \<Rightarrow> e = USER_LEFT_EVENT \<and> lifecycle (USER_ABSENT, seen, t) evs))"

lemma op_event_spec:
  "op_event F p b =
     (case p of IPublish now fresh (Some o1) \<Rightarrow>
        if fst (ho_validate F o1) then (case snd (presence_spec now (present_implied o1) (presence_view b)) of None \<Rightarrow> [] | Some e \<Rightarrow> [(now, e)]) else []
      | _ \<Rightarrow> [])"
proof (cases p)
  case (IPublish now fresh ob)
  show ?thesis
  proof (cases ob)
    case (Some o1)
    have "snd (presence_spec now (present_implied o1) (presence_view b)) \<noteq> Some ''ok''"
      by (auto simp: presence_view_def USER_PRESENT_EVENT_def USER_LEFT_EVENT_def USER_RETURNED_EVENT_def split: user_presence.split)
    then show ?thesis
      using Some IPublish by (cases "fst (ho_validate F o1)") (auto simp: publish_cases admit_presence Let_def split: option.split)
  qed (simp add: IPublish publish_cases)
qed simp_all

lemma lifecycle_step:
  "lifecycle (fst (presence_spec now p s)) evs \<Longrightarrow>
     lifecycle s ((case snd (presence_spec now p s) of None \<Rightarrow> [] | Some e \<Rightarrow> [(now, e)]) @ evs)"
  by (cases s) (auto split: user_presence.splits if_splits)

lemma run_lifecycle: "lifecycle (presence_view b) (presence_log F ps b)"
proof (induction ps arbitrary: b)
  case (Cons p ps)
  have run: "lifecycle (presence_op F p (presence_view b)) (presence_log F ps (ib_step F p b))"
    using Cons [of "ib_step F p b"] presence_ref.simulates [of F p b] by simp
  then show ?case
  proof (cases p)
    case (IPublish now fresh ob)
    with run show ?thesis by (cases ob) (simp_all add: op_event_spec lifecycle_step split: if_splits)
  qed simp_all
qed simp

text \<open>C15: The presence events of the bus form a lifecycle, whatever providers publish and however the clock runs: arrivals and departures
  alternate, the first arrival is \<open>USER_PRESENT\<close>, every later one \<open>USER_RETURNED\<close>, and consecutive events are at least 1.5 s apart, so a
  flapping provider cannot flood the journal.\<close>

theorem presence_events_form_lifecycle:
  "lifecycle (USER_ABSENT, False, 0) (presence_log F ops (new_ibus capacity conv))"
  using run_lifecycle [of "new_ibus capacity conv" F ops] by (simp add: presence_view_def new_ibus_def)

subsection \<open>Buffer and counters\<close>

definition newest_ids :: "nat list \<Rightarrow> nat \<Rightarrow> bool" where
  "newest_ids ns n \<longleftrightarrow> ns = [Suc n - length ns..<Suc n]"

definition ib_inv :: "ibus \<Rightarrow> bool" where
  "ib_inv b \<longleftrightarrow> 16 \<le> ib_cap b \<and> newest_ids (map en_seq (ib_buffer b)) (ib_seq b) \<and>
     length (ib_buffer b) = min (ib_cap b) (ib_seq b) \<and> ib_obs_seq b = ib_seq b \<and> ib_rsp_seq b = ib_responses b \<and>
     map fst (ib_counts b) = OBSERVATION_TYPES \<and> sum_list (map snd (ib_counts b)) = ib_seq b \<and>
     length (ib_conversation b) \<le> MAX_CONVERSATION_TURNS \<and> length (ib_trips b) \<le> MAX_CONVERSATION_EVENTS"

lemma bump_keys: "k \<in> set (map fst m) \<Longrightarrow> map fst (bump_count k m) = map fst m"
  by (simp add: bump_count_def) (induction m, auto)

lemma bump_sum: "distinct (map fst m) \<Longrightarrow> sum_list (map snd (bump_count k m)) = Suc (sum_list (map snd m))"
proof (induction m)
  case (Cons p m)
  obtain j n where p: "p = (j, n)" by (cases p)
  show ?case
  proof (cases "j = k")
    case True
    then show ?thesis by (simp add: bump_count_def p)
  next
    case False
    then have "bump_count k (p # m) = p # bump_count k m" by (simp add: bump_count_def p)
    then show ?thesis using Cons by simp
  qed
qed (simp add: bump_count_def)

lemma push_consecutive:
  assumes "0 < cap" "f e = Suc n" "newest_ids (map f xs) n" "length xs = min cap n"
  shows "newest_ids (map f (push_bounded cap e xs)) (Suc n)"
proof -
  have xs: "map f xs = [Suc n - length xs..<Suc n]" using assms(3) by (simp only: newest_ids_def length_map)
  have "map f (push_bounded cap e xs) = drop (length xs + 1 - cap) (map f xs @ [Suc n])"
    by (simp only: push_bounded_def drop_map [symmetric] map_append list.map assms(2))
  also have "\<dots> = drop (length xs + 1 - cap) ([Suc n - length xs..<Suc n] @ [Suc n])" by (simp only: xs)
  also have "[Suc n - length xs..<Suc n] @ [Suc n] = [Suc n - length xs..<Suc (Suc n)]"
    by simp
  also have "drop (length xs + 1 - cap) [Suc n - length xs..<Suc (Suc n)] = [Suc n - length xs + (length xs + 1 - cap)..<Suc (Suc n)]"
    by (rule drop_upt)
  also have "Suc n - length xs + (length xs + 1 - cap) = Suc (Suc n) - length (push_bounded cap e xs)"
    using assms(1,4) by (auto simp: length_push_bounded min_def)
  finally show ?thesis unfolding newest_ids_def length_map .
qed

lemma distinct_types: "distinct OBSERVATION_TYPES"
  by (simp add: OBSERVATION_TYPES_def)

lemma heard_bounds:
  "length (ib_conversation b) \<le> MAX_CONVERSATION_TURNS \<Longrightarrow> length (ib_conversation (heard_state now o1 b)) \<le> MAX_CONVERSATION_TURNS"
  "length (ib_trips b) \<le> MAX_CONVERSATION_EVENTS \<Longrightarrow> length (ib_trips (heard_state now o1 b)) \<le> MAX_CONVERSATION_EVENTS"
  by (simp_all add: heard_state_def hear_writes frame_simps length_push_bounded split: option.split)

lemma admit_inv:
  assumes "ib_inv b" "fst (ho_validate F o1)"
  shows "ib_inv (fst (admit_observation now fresh o1 b))"
proof -
  have ty: "ho_type o1 \<in> set OBSERVATION_TYPES" using assms(2) by (simp add: valid_fields)
  have e: "en_seq (snd (admit_observation now fresh o1 b)) = Suc (ib_seq b)"
    by (simp add: admit_alt(2) bus_entry_of_def Let_def)
  have "newest_ids (map en_seq (push_bounded (ib_cap b) (snd (admit_observation now fresh o1 b)) (ib_buffer b))) (Suc (ib_seq b))"
    by (rule push_consecutive) (use assms(1) e in \<open>auto simp: ib_inv_def\<close>)
  moreover have "length (push_bounded (ib_cap b) (snd (admit_observation now fresh o1 b)) (ib_buffer b)) = min (ib_cap b) (Suc (ib_seq b))"
    using assms(1) by (auto simp: length_push_bounded ib_inv_def)
  moreover have "map fst (bump_count (ho_type o1) (ib_counts b)) = OBSERVATION_TYPES" "sum_list (map snd (bump_count (ho_type o1) (ib_counts b))) = Suc (ib_seq b)"
    using assms(1) ty bump_keys [of "ho_type o1" "ib_counts b"] bump_sum [of "ib_counts b"] distinct_types by (auto simp: ib_inv_def)
  ultimately show ?thesis
    using assms(1) heard_bounds [of b] by (simp add: ib_inv_def admit_fields)
qed

lemma respond_inv: "ib_inv b \<Longrightarrow> ib_inv (fst (record_agent_response F t1 t2 t3 r b))"
  by (simp add: record_agent_response_def Let_def ib_inv_def reject_def length_push_bounded split: option.split)

interpretation ibus_machine: invariant_machine "ib_step F" ib_inv
proof
  fix s :: ibus and p :: ib_op
  assume inv: "ib_inv s"
  show "ib_inv (ib_step F p s)"
  proof (cases p)
    case (IPublish now fresh ob)
    have "ib_inv (reject s)" using inv by (simp add: ib_inv_def reject_def)
    then show ?thesis
      using admit_inv [OF inv] by (cases ob; cases "fst (ho_validate F (the ob))") (simp_all add: IPublish publish_cases)
  next
    case (IRespond t1 t2 t3 r)
    then show ?thesis using respond_inv [OF inv] by simp
  qed (use inv in \<open>simp_all add: ib_inv_def record_rejected_def reject_def expect_answer_def drain_conversation_events_def add_listener_def
      remove_listener_def Let_def\<close>)
qed

text \<open>The bus is bounded and its books balance, over any sequence of publications, responses, questions, drains and subscriptions:
  the buffer holds exactly the newest observations, at most the capacity, with consecutive sequence numbers; the counts by type add up to the
  observations accepted, which is also what the statistics and the context report; conversation and round trips stay within 12 and 8.\<close>

theorem interaction_bus_books_balance:
  fixes F ops capacity conv
  defines "b \<equiv> run_ops (ib_step F) ops (new_ibus capacity conv)"
  shows "map en_seq (ib_buffer b) = [Suc (ib_seq b) - length (ib_buffer b)..<Suc (ib_seq b)] \<and>
    length (ib_buffer b) = min (ib_cap b) (ib_seq b) \<and> bs_observations (ib_stats now b) = ib_seq b \<and>
    hc_recorded (human_context now b) = ib_seq b \<and> map fst (ib_counts b) = OBSERVATION_TYPES \<and>
    length (ib_conversation b) \<le> 12 \<and> length (ib_trips b) \<le> 8 \<and> length (hc_conversation (human_context now b)) \<le> 6"
proof -
  have "ib_inv (new_ibus capacity conv)"
    by (simp add: ib_inv_def new_ibus_def newest_ids_def OBSERVATION_TYPES_def)
  then have inv: "ib_inv b" unfolding b_def by (rule ibus_machine.inv_run)
  then have "map en_seq (ib_buffer b) = [Suc (ib_seq b) - length (ib_buffer b)..<Suc (ib_seq b)]"
    unfolding ib_inv_def newest_ids_def length_map by blast
  with inv show ?thesis
    by (simp del: upt_Suc add: ib_inv_def ib_stats_def human_context_def context_turns_def Let_def MAX_CONVERSATION_TURNS_def
        MAX_CONVERSATION_EVENTS_def MAX_CONTEXT_TURNS_def)
qed

subsection \<open>Questions and answers\<close>

text \<open>The questions a step poses, with the time, and the pairings it makes: the question with its time, the answer, and when it was heard_state.\<close>

fun op_asks :: "float_io \<Rightarrow> ib_op \<Rightarrow> (string \<times> real) list" where
  "op_asks F (IRespond t1 t2 t3 (Some r)) = (if fst (ar_validate F r) \<and> ar_type r = ''speech'' \<and> ar_expects r then [(ar_content r, t3)] else [])"
| "op_asks F (IExpect now q) = (let t = sanitize_text q MAX_RESPONSE_CONTENT_LEN in if t = [] then [] else [(t, now)])"
| "op_asks F _ = []"

fun op_pairs :: "float_io \<Rightarrow> ib_op \<Rightarrow> ibus \<Rightarrow> ((string \<times> real) \<times> string \<times> real) list" where
  "op_pairs F (IPublish now fresh (Some o1)) b =
     (if fst (ho_validate F o1)
      then (case answered_question now (transcript_of o1) b of None \<Rightarrow> [] | Some q \<Rightarrow> [(q, transcript_of o1, now)]) else [])"
| "op_pairs F _ b = []"

type_synonym ledger = "ibus \<times> (string \<times> real) list \<times> ((string \<times> real) \<times> string \<times> real) list"

fun ledger_step :: "float_io \<Rightarrow> ib_op \<Rightarrow> ledger \<Rightarrow> ledger" where
  "ledger_step F p (b, asked, paired) = (ib_step F p b, asked @ op_asks F p, paired @ op_pairs F p b)"

definition pending_list :: "ibus \<Rightarrow> (string \<times> real) list" where
  "pending_list b = (case ib_pending b of None \<Rightarrow> [] | Some q \<Rightarrow> [q])"

text \<open>The text of a round trip: question and answer.\<close>

definition trip_words :: "round_trip \<Rightarrow> string \<times> string" where
  "trip_words t = (rt_question t, rt_answer t)"

definition pair_words :: "(string \<times> real) \<times> string \<times> real \<Rightarrow> string \<times> string" where
  "pair_words x = (fst (fst x), fst (snd x))"

fun ledger_inv :: "ledger \<Rightarrow> bool" where
  "ledger_inv (b, asked, paired) \<longleftrightarrow>
     subseq (map fst paired @ pending_list b) asked \<and>
     list_all (\<lambda>(q, a, t). a \<noteq> [] \<and> t - snd q \<le> ANSWER_TTL_S) paired \<and>
     suffix (map trip_words (ib_trips b)) (map pair_words paired)"

lemma op_pairs_publish:
  assumes "fst (ho_validate F o1)"
  shows "pending_list (fst (admit_observation now fresh o1 b)) = (if transcript_of o1 = [] then pending_list b else [])"
    "op_pairs F (IPublish now fresh (Some o1)) b \<noteq> [] \<Longrightarrow> map fst (op_pairs F (IPublish now fresh (Some o1)) b) = pending_list b"
    "list_all (\<lambda>(q, a, t). a \<noteq> [] \<and> t - snd q \<le> ANSWER_TTL_S) (op_pairs F (IPublish now fresh (Some o1)) b)"
    "transcript_of o1 = [] \<Longrightarrow> op_pairs F (IPublish now fresh (Some o1)) b = []"
  using assms
  by (auto simp: pending_list_def admit_fields heard_state_def hear_writes frame_simps answered_question_def split: option.splits if_splits)

lemma suffix_map_push: "suffix (map f (push_bounded n x xs)) (map f xs @ [f x])"
  using map_mono_suffix [OF suffix_push_bounded, of f n x xs] by simp

lemma trips_publish:
  assumes "fst (ho_validate F o1)"
  shows "suffix (map trip_words (ib_trips (fst (admit_observation now fresh o1 b)))) (map trip_words (ib_trips b) @ map pair_words (op_pairs F (IPublish now fresh (Some o1)) b))"
proof (cases "answered_question now (transcript_of o1) b")
  case None
  then show ?thesis using assms by (simp add: admit_fields heard_state_def hear_writes frame_simps)
next
  case (Some q)
  then obtain t where "ib_trips (fst (admit_observation now fresh o1 b)) = push_bounded MAX_CONVERSATION_EVENTS t (ib_trips b)"
      "trip_words t = pair_words (q, transcript_of o1, now)"
    by (simp add: admit_fields heard_state_def hear_writes frame_simps trip_words_def pair_words_def)
  then show ?thesis
    using suffix_map_push [of trip_words MAX_CONVERSATION_EVENTS t "ib_trips b"] assms Some by (simp del: suffix_snoc)
qed

lemma ledger_publish:
  assumes "ledger_inv (b, asked, paired)" "fst (ho_validate F o1)"
  shows "ledger_inv (ledger_step F (IPublish now fresh (Some o1)) (b, asked, paired))"
proof -
  let ?p = "IPublish now fresh (Some o1)" and ?b = "fst (admit_observation now fresh o1 b)"
  note P = op_pairs_publish [OF assms(2), of now fresh b]
  have "subseq (map fst (paired @ op_pairs F ?p b) @ pending_list ?b) (map fst paired @ pending_list b)"
  proof (cases "op_pairs F ?p b = []")
    case True
    then show ?thesis by (simp add: P(1) prefix_imp_subseq del: op_pairs.simps)
  next
    case False
    then have "transcript_of o1 \<noteq> []" using P(4) by blast
    then show ?thesis using P(1,2) False by (simp del: op_pairs.simps)
  qed
  then have "subseq (map fst (paired @ op_pairs F ?p b) @ pending_list ?b) asked"
    using assms(1) by (auto intro: subseq_order.trans)
  moreover have "suffix (map trip_words (ib_trips ?b)) (map pair_words (paired @ op_pairs F ?p b))"
    using trips_publish [OF assms(2), of now fresh b] assms(1)
    by (auto simp: suffix_def simp del: op_pairs.simps)
  ultimately show ?thesis
    using assms P(3) by (simp add: publish_cases del: op_pairs.simps)
qed

lemma ledger_ask:
  assumes "ledger_inv (b, asked, paired)" "ib_trips b' = ib_trips b" "pending_list b' = (if qs = [] then pending_list b else qs)"
  shows "ledger_inv (b', asked @ qs, paired)"
proof -
  have "subseq (map fst paired) (map fst paired @ pending_list b)" by (simp add: prefix_imp_subseq)
  then have "subseq (map fst paired) asked" using assms(1) by (auto intro: subseq_order.trans)
  then have "subseq (map fst paired @ qs) (asked @ qs)" by (rule list_emb_append_mono) simp
  then show ?thesis using assms by auto
qed

lemma ask_pending:
  "pending_list (fst (record_agent_response F t1 t2 t3 r b)) = (if op_asks F (IRespond t1 t2 t3 r) = [] then pending_list b else op_asks F (IRespond t1 t2 t3 r))"
  "pending_list (fst (expect_answer now q b)) = (if op_asks F (IExpect now q) = [] then pending_list b else op_asks F (IExpect now q))"
  by (cases r) (simp_all add: record_agent_response_def expect_answer_def pending_list_def reject_def Let_def)

interpretation ledger_machine: invariant_machine "ledger_step F" ledger_inv
proof
  fix s :: ledger and p :: ib_op
  assume inv: "ledger_inv s"
  obtain b asked paired where s: "s = (b, asked, paired)" by (cases s)
  note inv = inv [unfolded s]
  show "ledger_inv (ledger_step F p s)"
  proof (cases p)
    case (IPublish now fresh ob)
    show ?thesis
    proof (cases "\<exists>o1. ob = Some o1 \<and> fst (ho_validate F o1)")
      case True
      then show ?thesis using ledger_publish [OF inv] by (auto simp: s IPublish simp del: ledger_step.simps)
    next
      case False
      then show ?thesis
        using inv by (cases ob) (auto simp: s IPublish publish_cases pending_list_def reject_def)
    qed
  next
    case (IRespond t1 t2 t3 r)
    have "ledger_inv (fst (record_agent_response F t1 t2 t3 r b), asked @ op_asks F p, paired)"
      unfolding IRespond by (rule ledger_ask [OF inv]) (simp_all add: frame_simps ask_pending)
    then show ?thesis by (simp add: s IRespond del: ledger_inv.simps)
  next
    case (IExpect now q)
    have "ib_trips (fst (expect_answer now q b)) = ib_trips b" by (simp add: expect_answer_def Let_def)
    then have "ledger_inv (fst (expect_answer now q b), asked @ op_asks F p, paired)"
      unfolding IExpect by (rule ledger_ask [OF inv]) (rule ask_pending)
    then show ?thesis by (simp add: s IExpect del: ledger_inv.simps op_asks.simps)
  qed (use inv in \<open>auto simp: s pending_list_def record_rejected_def reject_def drain_conversation_events_def add_listener_def remove_listener_def\<close>)
qed

text \<open>C16: Answers are paired with the questions that were asked, over any interleaving of questions, speech and other operations: the
  questions paired so far are a subsequence of the questions asked, so each is answered at most once and in order; every answer has words
  and was heard_state at most 120 s after its question; and the round trips the bus holds are the most recent of these pairings.\<close>

theorem answers_pair_with_questions:
  assumes "run_ops (ledger_step F) ops (new_ibus capacity conv, [], []) = (b, asked, paired)"
  shows "b = run_ops (ib_step F) ops (new_ibus capacity conv) \<and> subseq (map fst paired) asked \<and>
    list_all (\<lambda>(q, a, t). a \<noteq> [] \<and> t - snd q \<le> 120) paired \<and>
    suffix (map trip_words (ib_trips b)) (map pair_words paired)"
proof -
  have "fst (run_ops (ledger_step F) ops (b0, as, ps)) = run_ops (ib_step F) ops b0" for b0 as ps
    by (induction ops arbitrary: b0 as ps) simp_all
  from this [of "new_ibus capacity conv" "[]" "[]"] have b: "b = run_ops (ib_step F) ops (new_ibus capacity conv)"
    using assms by simp
  have "ledger_inv (new_ibus capacity conv, [], [])" by (simp add: pending_list_def new_ibus_def)
  then have inv: "ledger_inv (b, asked, paired)" using ledger_machine.inv_run [of _ F ops] assms by metis
  have "subseq (map fst paired) (map fst paired @ pending_list b)" by (simp add: prefix_imp_subseq)
  then have "subseq (map fst paired) asked" using inv by (auto intro: subseq_order.trans)
  then show ?thesis using inv b by (simp add: ANSWER_TTL_S_def)
qed

lemma hello_valid: "fst (ho_validate F hello_obs)" "transcript_of hello_obs = ''hello''" "present_implied hello_obs"
  by (simp_all add: valid_fields hello_obs_def OBSERVATION_TYPES_def PRIVACY_SCOPES_def transcript_of_def present_implied_def dget_def str_or_def
      sample_texts)

definition qa_run :: "ib_op list" where
  "qa_run = [IExpect 10 ''ready?'', IPublish 30 ''c2'' (Some hello_obs), IPublish 40 ''c3'' (Some hello_obs)]"

lemma qa_ledger:
  "run_ops (ledger_step sample_io) qa_run (new_ibus 16 ''c1'', [], []) =
     (run_ops (ib_step sample_io) qa_run (new_ibus 16 ''c1''), [(''ready?'', 10)], [((''ready?'', 10), ''hello'', 30)])"
proof -
  have t: "sanitize_text ''ready?'' 300 = ''ready?''" by (rule sanitize_text_plain) (simp_all add: plain_char_def char_code_def)
  define b1 where "b1 = fst (expect_answer 10 ''ready?'' (new_ibus 16 ''c1''))"
  define b2 where "b2 = fst (admit_observation 30 ''c2'' hello_obs b1)"
  have b1: "answered_question 30 ''hello'' b1 = Some (''ready?'', 10)"
    by (simp add: b1_def expect_answer_def t MAX_RESPONSE_CONTENT_LEN_def answered_question_def ANSWER_TTL_S_def Let_def)
  have b2: "answered_question 40 ''hello'' b2 = None"
    by (simp add: b2_def answered_question_def admit_fields heard_state_def hear_writes hello_valid)
  show ?thesis
    using b1 b2 by (simp add: qa_run_def publish_cases hello_valid t MAX_RESPONSE_CONTENT_LEN_def Let_def flip: b1_def b2_def)
qed

theorem answers_pair_with_questions_witness:
  "subseq [(''ready?'', 10)] [(''ready?'', 10 :: real)] \<and>
    suffix (map trip_words (ib_trips (run_ops (ib_step sample_io) qa_run (new_ibus 16 ''c1'')))) [(''ready?'', ''hello'')]"
  using answers_pair_with_questions [OF qa_ledger] by (simp add: pair_words_def)

subsection \<open>Views and their limits\<close>

text \<open>The bus never calls the pipeline healthy without evidence: the overall verdict is \<open>ok\<close> only if no stage is reported down,
  at least three stages are fresh or confirmed, and some sensor has reported; before any observation it is never \<open>ok\<close> or \<open>stale\<close>.\<close>

theorem health_needs_evidence:
  fixes b now m t mem backing
  defines "h \<equiv> pipeline_health now m t mem backing b"
  shows "(hl_overall h = ''ok'' \<longrightarrow> m \<noteq> Some False \<and> t \<noteq> Some False \<and> mem \<noteq> Some False \<and>
      3 \<le> length (filter (\<lambda>s. snd s = ''ok'') (hl_stages h)) \<and> (ib_last_ts b \<noteq> 0 \<or> ib_buffer b \<noteq> [])) \<and>
    (ib_last_ts b = 0 \<and> ib_buffer b = [] \<longrightarrow> hl_overall h \<in> {''down'', ''unknown''})"
proof -
  have told: "told_stage v = ''down'' \<longleftrightarrow> v = Some False" for v by (simp add: told_stage_def split: option.split)
  have none: "ib_buffer b = [] \<Longrightarrow> newest_of ty b = None" for ty by (simp add: newest_of_def)
  have ok: "hl_overall h = ''ok'' \<Longrightarrow> ''down'' \<notin> snd ` set (hl_stages h) \<and> 3 \<le> length (filter (\<lambda>s. snd s = ''ok'') (hl_stages h)) \<and>
      \<not> list_all (\<lambda>s. map_of (hl_stages h) s = Some ''unknown'') [''sensors'', ''vision'', ''hearing'']"
    unfolding h_def pipeline_health_def health_overall_def by (simp split: if_splits)
  have idle: "ib_last_ts b = 0 \<Longrightarrow> ib_buffer b = [] \<Longrightarrow> list_all (\<lambda>s. map_of (hl_stages h) s = Some ''unknown'') [''sensors'', ''vision'', ''hearing'']"
    by (simp add: h_def pipeline_health_def health_stages_def stage_def none)
  have down: "''down'' \<notin> snd ` set (hl_stages h) \<Longrightarrow> m \<noteq> Some False \<and> t \<noteq> Some False \<and> mem \<noteq> Some False"
    unfolding h_def pipeline_health_def health_stages_def
    using told [of m] told [of t] told [of mem] by auto
  have overall: "hl_overall h \<in> {''down'', ''unknown''}"
    if "list_all (\<lambda>s. map_of (hl_stages h) s = Some ''unknown'') [''sensors'', ''vision'', ''hearing'']"
  proof -
    have "hl_overall h = health_overall (hl_stages h)" by (simp add: h_def pipeline_health_def)
    also have "\<dots> = (if ''down'' \<in> snd ` set (hl_stages h) then ''down'' else ''unknown'')"
      unfolding health_overall_def by (simp only: that if_True)
    finally show ?thesis by simp
  qed
  have evidence: "hl_overall h = ''ok'' \<Longrightarrow> ib_last_ts b \<noteq> 0 \<or> ib_buffer b \<noteq> []"
    using ok idle by blast
  show ?thesis
    using ok down overall [OF idle] evidence by meson
qed

text \<open>The three truths the shell passes in are enough for \<open>ok\<close>, with every sensor stage stale.\<close>

theorem healthy_with_stale_sensors:
  assumes "ib_last_ts b \<noteq> 0" "60 < now - ib_last_ts b"
  shows "hl_overall (pipeline_health now (Some True) (Some True) (Some True) backing b) = ''ok''"
proof -
  have st: "stage n a v \<noteq> ''down''" for n a v by (simp add: stage_def split: option.split)
  show ?thesis
    using assms st by (simp add: pipeline_health_def health_overall_def health_stages_def told_stage_def stage_def split: option.split)
qed

text \<open>Freshness is judged by the provider's time stamp: one from the future is fresh for as long as it is in the future.\<close>

theorem future_timestamp_is_fresh:
  assumes "ib_last_ts b \<noteq> 0" "now \<le> ib_last_ts b"
  shows "map_of (hl_stages (pipeline_health now m t mem backing b)) ''sensors'' = Some ''ok''"
  using assms by (simp add: pipeline_health_def health_stages_def stage_def)

text \<open>A departure within the debounce time of the arrival is lost, not delayed.\<close>

theorem quick_departure_is_lost:
  assumes "fst (ho_validate F o1)" "\<bar>now - ib_changed_at b\<bar> < DEBOUNCE_S"
  shows "ib_presence (pb_bus (ib_publish F now fresh (Some o1) b)) = ib_presence b"
proof -
  have "presence_view (pb_bus (ib_publish F now fresh (Some o1) b)) = presence_view b"
    using assms by (simp add: publish_cases admit_presence) (simp add: presence_view_def)
  then show ?thesis by (simp add: presence_view_def)
qed

text \<open>The utterance with which the user returns is filed under the conversation that ended, and the turn it opened is forgotten: the
  answer to it names no turn.\<close>

theorem returning_utterance_is_filed_under_the_old_conversation:
  assumes "transcript_of o1 \<noteq> []" "present_implied o1" "ib_presence b = USER_ABSENT" "ib_been_present b" "DEBOUNCE_S \<le> \<bar>now - ib_changed_at b\<bar>"
  shows "en_conv (snd (admit_observation now fresh o1 b)) = ib_conv b \<and> ct_conv (last (ib_conversation (fst (admit_observation now fresh o1 b)))) = ib_conv b \<and>
    ib_conv (fst (admit_observation now fresh o1 b)) = fresh \<and> ib_turn (fst (admit_observation now fresh o1 b)) = None"
proof -
  have "presence_view (heard_state now o1 b) = presence_view b" by (simp add: frame_simps)
  then have "ib_presence (heard_state now o1 b) = USER_ABSENT" "ib_been_present (heard_state now o1 b)" "ib_changed_at (heard_state now o1 b) = ib_changed_at b"
    using assms by (simp_all add: presence_view_def)
  then have "ib_conv (fst (admit_observation now fresh o1 b)) = fresh" "ib_turn (fst (admit_observation now fresh o1 b)) = None"
    using assms by (simp_all add: admit_alt(1) presence_step_def frame_simps Let_def)
  moreover have "last (ib_conversation (fst (admit_observation now fresh o1 b))) =
      \<lparr>ct_human = True, ct_text = transcript_of o1, ct_ts = ho_ts o1, ct_response = None, ct_conv = ib_conv b\<rparr>"
    using assms(1) by (simp add: admit_fields heard_state_def hear_writes frame_simps newest_push_bounded MAX_CONVERSATION_TURNS_def)
  ultimately show ?thesis by (simp add: admit_alt(2) bus_entry_of_def Let_def)
qed

text \<open>A provider can mark its own observation as an answer: the key the bus uses for the pairing is not reserved.\<close>

theorem provider_can_claim_an_answer:
  assumes "ib_pending b = None" "dget (ho_payload o1) ''answer_to'' = v"
  shows "dget (en_payload (snd (admit_observation now fresh o1 b))) ''answer_to'' = v"
  using assms by (simp add: admit_alt(2) bus_entry_of_def Let_def answered_question_def)

subsection \<open>Trimmed speech\<close>

lemma rfind_some:
  assumes "int m < py_rfind s p"
  obtains i where "py_rfind s p = int i" "i < length s" "m < i" "py_startswith (drop i s) p"
proof (cases "filter (\<lambda>i. py_startswith (drop i s) p) (rev [0..<length s])")
  case Nil
  then show ?thesis using assms by (simp add: py_rfind_def)
next
  case (Cons i js)
  have "i \<in> set (filter (\<lambda>i. py_startswith (drop i s) p) (rev [0..<length s]))" unfolding Cons by simp
  then have "i < length s" "py_startswith (drop i s) p" by simp_all
  then show ?thesis using that [of i] Cons assms by (simp add: py_rfind_def)
qed

lemma rfind_newest:
  assumes "i < length s" "py_startswith (drop i s) p"
  shows "int i \<le> py_rfind s p"
proof (cases "filter (\<lambda>i. py_startswith (drop i s) p) (rev [0..<length s])")
  case Nil
  then have "i \<notin> {j \<in> set (rev [0..<length s]). py_startswith (drop j s) p}" by (metis empty_iff list.set(1) set_filter)
  then show ?thesis using assms by simp
next
  case (Cons j js)
  have "sorted_wrt (\<ge>) (rev [0..<length s])" by (simp add: sorted_wrt_rev)
  then have "sorted_wrt (\<ge>) (j # js)" using Cons sorted_wrt_filter by metis
  moreover have "i \<in> set (j # js)" using assms by (simp flip: Cons)
  ultimately have "i \<le> j" by auto
  then show ?thesis using Cons by (simp add: py_rfind_def)
qed

lemma rstrip_prefix: "prefix (py_rstrip s) s"
proof -
  have "suffix (dropWhile is_space (rev s)) (rev s)" by (rule suffix_dropWhile)
  then show ?thesis by (simp add: py_rstrip_def suffix_to_prefix)
qed

lemma rstrip_id: "s = [] \<or> \<not> is_space (last s) \<Longrightarrow> py_rstrip s = s"
  by (cases s rule: rev_cases) (auto simp: py_rstrip_def)

lemma rstrip_next:
  assumes "length (py_rstrip s) < length s"
  shows "is_space (s ! length (py_rstrip s))"
proof -
  define w where "w = takeWhile is_space (rev s)"
  have s: "s = py_rstrip s @ rev w"
    by (metis py_rstrip_def rev_append rev_rev_ident takeWhile_dropWhile_id w_def)
  then have "w \<noteq> []" using assms by auto
  then have "last w \<in> set w" by simp
  then have "is_space (last w)" by (metis set_takeWhileD w_def)
  moreover have "s ! length (py_rstrip s) = last w"
    by (metis s \<open>w \<noteq> []\<close> hd_conv_nth hd_rev nth_append_length_plus add.right_neutral rev_is_Nil_conv)
  ultimately show ?thesis by simp
qed

definition terminal :: "char \<Rightarrow> bool" where "terminal c \<longleftrightarrow> c \<in> {CHR ''.'', CHR ''!'', CHR ''?''}"

lemma separators:
  "sep \<in> set SENTENCE_ENDS \<Longrightarrow> sep \<noteq> [] \<and> terminal (hd sep)" "terminal c \<Longrightarrow> [c] \<in> set SENTENCE_ENDS" "terminal c \<Longrightarrow> \<not> is_space c"
  by (auto simp: SENTENCE_ENDS_def terminal_def is_space_def char_code_def)

lemma startswith_hd: "py_startswith (drop i s) p \<Longrightarrow> p \<noteq> [] \<Longrightarrow> i < length s \<Longrightarrow> s ! i = hd p"
  by (cases p) (auto simp: py_startswith_iff prefix_def nth_via_drop)

lemma startswith_char: "i < length s \<Longrightarrow> py_startswith (drop i s) [s ! i]"
  by (simp add: py_startswith_iff Cons_nth_drop_Suc [symmetric])

text \<open>Where trimming may stop: at the end of the whole text, after a terminal, before white space, or, with neither in the second half of the
  limit, anywhere.\<close>

definition trimmed_at_boundary :: "nat \<Rightarrow> string \<Rightarrow> string \<Rightarrow> bool" where
  "trimmed_at_boundary limit cleaned r \<longleftrightarrow> r = cleaned \<or> (r \<noteq> [] \<and> terminal (last r)) \<or>
     (length r < length cleaned \<and> is_space (cleaned ! length r)) \<or>
     (\<forall>i. limit div 2 < i \<and> i < limit \<longrightarrow> \<not> terminal (cleaned ! i) \<and> cleaned ! i \<noteq> CHR '' '')"

lemma rstrip_boundary:
  assumes "n < length cleaned" "is_space (cleaned ! n)"
  shows "length (py_rstrip (take n cleaned)) < length cleaned \<and> is_space (cleaned ! length (py_rstrip (take n cleaned)))"
proof (cases "length (py_rstrip (take n cleaned)) < n")
  case True
  then show ?thesis using rstrip_next [of "take n cleaned"] assms(1) by simp
next
  case False
  have "length (py_rstrip (take n cleaned)) \<le> n" using prefix_length_le [OF rstrip_prefix, of "take n cleaned"] by simp
  then show ?thesis using False assms by simp
qed

text \<open>Spoken text is trimmed to the limit and not in the middle of a word if there is a choice: the result is a beginning of
  the sanitised text, at most the limit long, and it is the whole text, or ends with a sentence mark, or stops before white space, or
  there is no mark and no blank in the second half of the limit.\<close>

theorem truncate_sentence_boundary:
  fixes t limit
  defines "cleaned \<equiv> sanitize_text t (int (max (limit * 2) limit))" and "r \<equiv> truncate_sentence t limit"
  shows "prefix r cleaned \<and> length r \<le> limit \<and> trimmed_at_boundary limit cleaned r"
proof -
  define c where "c = take limit cleaned"
  have c: "prefix c cleaned" by (simp add: c_def take_is_prefix)
  consider (all) "length cleaned \<le> limit" "r = cleaned"
    | (mark) sep where "limit < length cleaned" "sep \<in> set SENTENCE_ENDS" "int (limit div 2) < py_rfind c sep" "r = py_rstrip (take (nat (py_rfind c sep + 1)) c)"
    | (blank) "limit < length cleaned" "int (limit div 2) < py_rfind c '' ''" "r = py_rstrip (take (nat (py_rfind c '' '')) c)"
    | (hard) "limit < length cleaned" "\<forall>sep\<in>set SENTENCE_ENDS. py_rfind c sep \<le> int (limit div 2)" "py_rfind c '' '' \<le> int (limit div 2)" "r = py_rstrip c"
  proof (cases "length cleaned \<le> limit")
    case True
    then have "r = cleaned" unfolding r_def truncate_sentence_def Let_def cleaned_def [symmetric] by (rule if_P)
    then show ?thesis using all True by blast
  next
    case False
    have r: "r = (case find (\<lambda>sep. py_rfind c sep > int (limit div 2)) SENTENCE_ENDS of
          Some sep \<Rightarrow> py_rstrip (take (nat (py_rfind c sep + 1)) c)
        | None \<Rightarrow> if py_rfind c '' '' > int (limit div 2) then py_rstrip (take (nat (py_rfind c '' '')) c) else py_rstrip c)"
      unfolding r_def truncate_sentence_def Let_def cleaned_def [symmetric] c_def by (rule if_not_P [OF False])
    show ?thesis
    proof (cases "find (\<lambda>sep. py_rfind c sep > int (limit div 2)) SENTENCE_ENDS")
      case None
      then have seps: "\<forall>sep\<in>set SENTENCE_ENDS. py_rfind c sep \<le> int (limit div 2)" by (auto simp: find_None_iff not_less)
      have "r = (if py_rfind c '' '' > int (limit div 2) then py_rstrip (take (nat (py_rfind c '' '')) c) else py_rstrip c)"
        using r by (simp add: None)
      then show ?thesis using seps False blank hard by (cases "py_rfind c '' '' > int (limit div 2)") simp_all
    next
      case (Some sep)
      then have "sep \<in> set SENTENCE_ENDS" "int (limit div 2) < py_rfind c sep" by (auto simp: find_Some_iff)
      then show ?thesis using r False Some mark by simp
    qed
  qed
  then show ?thesis
  proof cases
    case all
    then show ?thesis by (simp add: trimmed_at_boundary_def)
  next
    case mark
    obtain i where i: "py_rfind c sep = int i" "i < length c" "py_startswith (drop i c) sep" using rfind_some [OF mark(3)] by blast
    have hd: "terminal (c ! i)" using separators(1) [OF mark(2)] startswith_hd [OF i(3) _ i(2)] by simp
    have tk: "take (Suc i) c = take i c @ [c ! i]" using i(2) by (rule take_Suc_conv_app_nth)
    have r: "r = take (Suc i) c"
      using mark(4) i(1) separators(3) [OF hd] by (simp add: nat_add_distrib rstrip_id tk)
    have "prefix r cleaned" using prefix_order.trans [OF take_is_prefix c] by (simp add: r)
    moreover have "length r \<le> limit" using i(2) by (simp add: r c_def)
    moreover have "r \<noteq> [] \<and> terminal (last r)" using hd by (simp add: r tk)
    ultimately show ?thesis by (simp add: trimmed_at_boundary_def)
  next
    case blank
    obtain i where i: "py_rfind c '' '' = int i" "i < length c" "py_startswith (drop i c) '' ''" using rfind_some [OF blank(2)] by blast
    have "c ! i = CHR '' ''" using startswith_hd [OF i(3) _ i(2)] by simp
    then have sp: "is_space (cleaned ! i)" "i < length cleaned" using i(2) by (simp_all add: c_def is_space_def char_code_def)
    have "take i c = take i cleaned" using i(2) by (simp add: c_def min_absorb1)
    then have r: "r = py_rstrip (take i cleaned)" using blank(3) by (simp add: i(1))
    have "length r \<le> i" using prefix_length_le [OF rstrip_prefix, of "take i cleaned"] by (simp add: r)
    moreover have "prefix r cleaned" using prefix_order.trans [OF rstrip_prefix take_is_prefix] by (simp add: r)
    ultimately show ?thesis
      using rstrip_boundary [OF sp(2,1)] i(2) by (simp add: trimmed_at_boundary_def r c_def)
  next
    case hard
    have "\<not> terminal (cleaned ! i) \<and> cleaned ! i \<noteq> CHR '' ''" if "limit div 2 < i" "i < limit" for i
    proof -
      have il: "i < length c" "c ! i = cleaned ! i" using that hard(1) by (simp_all add: c_def)
      have "int i \<le> py_rfind c [c ! i]" by (rule rfind_newest [OF il(1) startswith_char [OF il(1)]])
      then have "[c ! i] \<notin> set SENTENCE_ENDS" "[c ! i] \<noteq> '' ''" using hard(2,3) that(1) by fastforce+
      then show ?thesis using separators(2) il(2) by auto
    qed
    moreover have "prefix r cleaned" using prefix_order.trans [OF rstrip_prefix c] by (simp add: hard(4))
    moreover have "length r \<le> limit" using prefix_length_le [OF rstrip_prefix, of c] by (simp add: hard(4) c_def)
    ultimately show ?thesis by (simp add: trimmed_at_boundary_def)
  qed
qed

text \<open>A mark inside a number counts as the end of a sentence, and a full stop is preferred to a later question mark.\<close>

lemma dropWhile_hd: "xs \<noteq> [] \<Longrightarrow> \<not> P (hd xs) \<Longrightarrow> dropWhile P xs = xs"
  by (cases xs) auto

lemma sanitize_text_spaced:
  assumes "list_all (\<lambda>c. 32 \<le> char_code c \<and> char_code c \<le> 126) s" "plain_char (hd s)" "plain_char (last s)" "s \<noteq> []"
    and "collapse_spaces (map of_char s) = map of_char s" "int (length s) \<le> k"
  shows "sanitize_text s k = s"
proof -
  let ?ns = "map of_char s :: nat list"
  have p: "32 \<le> n \<and> n \<le> 126" if "n \<in> set ?ns" for n
    using that assms(1) by (auto simp: list_all_iff char_code_def)
  have "map (\<lambda>n. if control_point n then 32 else n) ?ns = ?ns"
    by (rule map_idI) (use p in \<open>fastforce simp: control_point_def\<close>)
  moreover have "filter (\<lambda>n. \<not> invisible_point n) ?ns = ?ns"
    by (rule filter_True) (use p in \<open>fastforce simp: invisible_point_def\<close>)
  moreover have "strip_by space_point ?ns = ?ns"
    using assms(2-4) by (simp add: strip_by_def dropWhile_hd hd_map last_map hd_rev plain_char_def char_code_def space_point_def)
  ultimately have "sanitize_points ?ns k = ?ns"
    using assms(5,6) by (simp only: sanitize_points_def Let_def) simp
  then show ?thesis by (simp add: sanitize_text_def comp_def)
qed

theorem trimming_splits_a_number: "truncate_sentence ''pi is 3.14159 or so'' 12 = ''pi is 3.''"
proof -
  have "sanitize_text ''pi is 3.14159 or so'' 24 = ''pi is 3.14159 or so''"
    by (rule sanitize_text_spaced) (simp_all add: char_code_def plain_char_def)
  moreover have "map (py_rfind ''pi is 3.1415'') SENTENCE_ENDS = [- 1, - 1, - 1, 7, - 1, - 1]" "py_rstrip ''pi is 3.'' = ''pi is 3.''"
    by code_simp+
  ultimately show ?thesis by (simp add: truncate_sentence_def SENTENCE_ENDS_def)
qed

theorem trimming_misses_the_last_sentence: "truncate_sentence ''It is done. Is it? Maybe'' 19 = ''It is done.''"
proof -
  have "sanitize_text ''It is done. Is it? Maybe'' 38 = ''It is done. Is it? Maybe''"
    by (rule sanitize_text_spaced) (simp_all add: char_code_def plain_char_def)
  moreover have "map (py_rfind ''It is done. Is it? '') SENTENCE_ENDS = [10, - 1, 17, 10, - 1, 17]" "py_rstrip ''It is done.'' = ''It is done.''"
    by code_simp+
  ultimately show ?thesis by (simp add: truncate_sentence_def SENTENCE_ENDS_def)
qed

end
