(* ===== verification/Py_Regex.thy ===== *)
theory Py_Regex
  imports Prelude
begin

text \<open>
  The part of Python's \<open>re\<close> module that the rule-based components use: alternation, sequence, optional parts, greedy and lazy
  repetition of a character class, groups, anchors, word boundaries and negative lookahead. A match is computed the way the
  backtracking matcher finds it: all matches at a position in the order of preference, the first of which is the one Python reports.
  Repetition is only over character classes, so matching is structural recursion. For the patterns compiled with
  \<open>IGNORECASE\<close>, which are written in lower case, the text is matched in lower case and groups are read from the original.
\<close>

datatype cclass = CWord | CSpace | CDigit | CAny | CWordSpace

definition rx_digit :: "char \<Rightarrow> bool" where
  "rx_digit c = (48 \<le> char_code c \<and> char_code c \<le> 57)"

text \<open>\<open>\w\<close> over the 8-bit code points: letters, digits, the other numerals and the underscore.\<close>

definition rx_word :: "char \<Rightarrow> bool" where
  "rx_word c = (let n = char_code c in (97 \<le> n \<and> n \<le> 122) \<or> (65 \<le> n \<and> n \<le> 90) \<or> (48 \<le> n \<and> n \<le> 57) \<or> n = 95 \<or>
     n \<in> {0xAA, 0xB2, 0xB3, 0xB5, 0xB9, 0xBA, 0xBC, 0xBD, 0xBE} \<or> (0xC0 \<le> n \<and> n \<noteq> 0xD7 \<and> n \<noteq> 0xF7))"

fun in_class :: "cclass \<Rightarrow> char \<Rightarrow> bool" where
  "in_class CWord c = rx_word c"
| "in_class CSpace c = is_space c"
| "in_class CDigit c = rx_digit c"
| "in_class CAny c = (c \<noteq> CHR 0x0A)"
| "in_class CWordSpace c = (rx_word c \<or> is_space c)"

datatype rx =
    RStr string
  | RSeq rx rx
  | RAlt rx rx
  | ROpt rx
  | RRep nat cclass
  | RLazy nat nat cclass
  | RGroup nat rx
  | RBol
  | REol
  | RBound
  | RNot rx

type_synonym captures = "(nat \<times> nat \<times> nat) list"

definition class_run :: "cclass \<Rightarrow> string \<Rightarrow> nat \<Rightarrow> nat" where
  "class_run cl s i = length (takeWhile (in_class cl) (drop i s))"

definition word_at :: "string \<Rightarrow> nat \<Rightarrow> bool" where
  "word_at s i = (i < length s \<and> rx_word (s ! i))"

definition at_boundary :: "string \<Rightarrow> nat \<Rightarrow> bool" where
  "at_boundary s i = ((0 < i \<and> word_at s (i - 1)) \<noteq> word_at s i)"

fun rx_ends :: "string \<Rightarrow> rx \<Rightarrow> nat \<Rightarrow> captures \<Rightarrow> (nat \<times> captures) list" where
  "rx_ends s (RStr p) i g = (if py_startswith (drop i s) p then [(i + length p, g)] else [])"
| "rx_ends s (RSeq a b) i g = concat (map (\<lambda>(j, h). rx_ends s b j h) (rx_ends s a i g))"
| "rx_ends s (RAlt a b) i g = rx_ends s a i g @ rx_ends s b i g"
| "rx_ends s (ROpt a) i g = rx_ends s a i g @ [(i, g)]"
| "rx_ends s (RRep n cl) i g = map (\<lambda>k. (i + k, g)) (rev [n..<Suc (class_run cl s i)])"
| "rx_ends s (RLazy n m cl) i g = map (\<lambda>k. (i + k, g)) [n..<Suc (min m (class_run cl s i))]"
| "rx_ends s (RGroup n a) i g = map (\<lambda>(j, h). (j, AList.update n (i, j) h)) (rx_ends s a i g)"
| "rx_ends s RBol i g = (if i = 0 then [(i, g)] else [])"
| "rx_ends s REol i g = (if i = length s \<or> (Suc i = length s \<and> s ! i = CHR 0x0A) then [(i, g)] else [])"
| "rx_ends s RBound i g = (if at_boundary s i then [(i, g)] else [])"
| "rx_ends s (RNot a) i g = (if rx_ends s a i g = [] then [(i, g)] else [])"

text \<open>\<open>re.match\<close> and \<open>re.search\<close>: start, end and groups of the match.\<close>

definition rx_at :: "rx \<Rightarrow> string \<Rightarrow> nat \<Rightarrow> (nat \<times> nat \<times> captures) option" where
  "rx_at r s i = (case rx_ends s r i [] of [] \<Rightarrow> None | (j, g) # _ \<Rightarrow> Some (i, j, g))"

fun first_some :: "('a \<Rightarrow> 'b option) \<Rightarrow> 'a list \<Rightarrow> 'b option" where
  "first_some f [] = None"
| "first_some f (x # xs) = (case f x of None \<Rightarrow> first_some f xs | Some y \<Rightarrow> Some y)"

definition rx_search :: "rx \<Rightarrow> string \<Rightarrow> (nat \<times> nat \<times> captures) option" where
  "rx_search r s = first_some (rx_at r s) [0..<Suc (length s)]"

definition rx_found :: "rx \<Rightarrow> string \<Rightarrow> bool" where
  "rx_found r s = (rx_search r s \<noteq> None)"

definition slice :: "string \<Rightarrow> nat \<Rightarrow> nat \<Rightarrow> string" where
  "slice s i j = take (j - i) (drop i s)"

text \<open>\<open>m.group(n)\<close>, read from the text \<open>s\<close>; every group read by the sources takes part in the match.\<close>

definition rx_group :: "string \<Rightarrow> nat \<times> nat \<times> captures \<Rightarrow> nat \<Rightarrow> string" where
  "rx_group s m n = (case map_of (snd (snd m)) n of None \<Rightarrow> [] | Some (i, j) \<Rightarrow> slice s i j)"

text \<open>\<open>re.sub\<close> of a pattern that matches no empty text, by a replacement without back references; \<open>low\<close> is the text matched against.\<close>

function rx_sub :: "rx \<Rightarrow> string \<Rightarrow> string \<Rightarrow> string \<Rightarrow> nat \<Rightarrow> string" where
  "rx_sub r repl low s i =
     (if length s \<le> i then []
      else case rx_at r low i of
        Some (_, j, _) \<Rightarrow> if i < j then repl @ rx_sub r repl low s j else s ! i # rx_sub r repl low s (Suc i)
      | None \<Rightarrow> s ! i # rx_sub r repl low s (Suc i))"
  by pat_completeness auto
termination
  by (relation "measure (\<lambda>(r, repl, low, s, i). length s - i)") auto

declare rx_sub.simps [simp del]

subsection \<open>Building patterns\<close>

fun rseq :: "rx list \<Rightarrow> rx" where
  "rseq [] = RStr []"
| "rseq [r] = r"
| "rseq (r # rs) = RSeq r (rseq rs)"

fun ralt :: "rx list \<Rightarrow> rx" where
  "ralt [] = RNot (RStr [])"
| "ralt [r] = r"
| "ralt (r # rs) = RAlt r (ralt rs)"

definition rwords :: "string list \<Rightarrow> rx" where
  "rwords ws = ralt (map RStr ws)"

definition spaces :: rx where "spaces = RRep 1 CSpace"

definition apo :: rx where "apo = ROpt (RStr [CHR 0x27])"

subsection \<open>Matches lie within the text\<close>

lemma rx_ends_bounds: "(j, h) \<in> set (rx_ends s r i g) \<Longrightarrow> i \<le> length s \<Longrightarrow> i \<le> j \<and> j \<le> length s"
proof (induction r arbitrary: i j g h)
  case (RStr p)
  then have "length p \<le> length s - i" by (auto simp: py_startswith_iff split: if_splits dest: prefix_length_le)
  then show ?case using RStr by (auto split: if_splits)
next
  case (RSeq a b)
  then obtain k f where "(k, f) \<in> set (rx_ends s a i g)" "(j, h) \<in> set (rx_ends s b k f)" by auto
  then show ?case using RSeq.IH(1) [of k f i g] RSeq.IH(2) [of j h k f] RSeq.prems(2) by fastforce
next
  case (RRep n cl)
  have "class_run cl s i \<le> length s - i" unfolding class_run_def using length_takeWhile_le [of "in_class cl" "drop i s"] by simp
  then show ?case using RRep by auto
next
  case (RLazy n m cl)
  have "class_run cl s i \<le> length s - i" unfolding class_run_def using length_takeWhile_le [of "in_class cl" "drop i s"] by simp
  then show ?case using RLazy by auto
next
  case (RAlt a b)
  then show ?case by (metis Un_iff rx_ends.simps(3) set_append)
next
  case (ROpt a)
  show ?case using ROpt.prems ROpt.IH [of j h i g] by auto
next
  case (RGroup n a)
  then show ?case by fastforce
qed (auto split: if_splits)

text \<open>A search gives the leftmost match.\<close>

lemma first_some_upt:
  "first_some f [a..<b] = Some y \<Longrightarrow> \<exists>i. a \<le> i \<and> i < b \<and> f i = Some y \<and> (\<forall>k. a \<le> k \<and> k < i \<longrightarrow> f k = None)"
proof (induction "b - a" arbitrary: a)
  case (Suc n)
  then have ab: "a < b" by simp
  show ?case
  proof (cases "f a")
    case None
    then have "first_some f [Suc a..<b] = Some y" using Suc.prems ab by (simp add: upt_conv_Cons)
    moreover have "n = b - Suc a" using Suc.hyps(2) by simp
    ultimately obtain i where "Suc a \<le> i" "i < b" "f i = Some y" "\<forall>k. Suc a \<le> k \<and> k < i \<longrightarrow> f k = None"
      using Suc.hyps(1) by blast
    then show ?thesis using None by (metis Suc_leD Suc_leI le_neq_implies_less)
  next
    case (Some z)
    then show ?thesis using Suc.prems ab by (auto simp: upt_conv_Cons)
  qed
qed simp

lemma first_some_None: "first_some f xs = None \<longleftrightarrow> (\<forall>x\<in>set xs. f x = None)"
  by (induction xs) (auto split: option.split)

lemma rx_search_leftmost:
  assumes "rx_search r s = Some (i, j, g)"
  shows "i \<le> j \<and> j \<le> length s \<and> rx_at r s i = Some (i, j, g) \<and> (\<forall>k<i. rx_at r s k = None)"
proof -
  obtain k where k: "k \<le> length s" "rx_at r s k = Some (i, j, g)" "\<forall>m<k. rx_at r s m = None"
    using first_some_upt [OF assms [unfolded rx_search_def]] by (auto simp: less_Suc_eq_le)
  then have "k = i" "(j, g) \<in> set (rx_ends s r i [])" by (auto simp: rx_at_def split: list.splits)
  then show ?thesis using k rx_ends_bounds [of j g s r i "[]"] by simp
qed

subsection \<open>What groups capture\<close>

text \<open>Every group of \<open>r\<close> captures only texts that satisfy \<open>G\<close>; and every match of \<open>r\<close> sets the group \<open>n\<close>.\<close>

fun groups_ok :: "string \<Rightarrow> (nat \<Rightarrow> string \<Rightarrow> bool) \<Rightarrow> rx \<Rightarrow> bool" where
  "groups_ok s G (RSeq a b) = (groups_ok s G a \<and> groups_ok s G b)"
| "groups_ok s G (RAlt a b) = (groups_ok s G a \<and> groups_ok s G b)"
| "groups_ok s G (ROpt a) = groups_ok s G a"
| "groups_ok s G (RGroup n a) = (groups_ok s G a \<and> (\<forall>i j g h. (j, h) \<in> set (rx_ends s a i g) \<longrightarrow> G n (slice s i j)))"
| "groups_ok s G _ = True"

fun sets_group :: "nat \<Rightarrow> rx \<Rightarrow> bool" where
  "sets_group n (RSeq a b) = (sets_group n a \<or> sets_group n b)"
| "sets_group n (RAlt a b) = (sets_group n a \<and> sets_group n b)"
| "sets_group n (RGroup m a) = (m = n \<or> sets_group n a)"
| "sets_group n _ = False"

definition captured_ok :: "string \<Rightarrow> (nat \<Rightarrow> string \<Rightarrow> bool) \<Rightarrow> captures \<Rightarrow> bool" where
  "captured_ok s G g \<longleftrightarrow> (\<forall>n i j. map_of g n = Some (i, j) \<longrightarrow> G n (slice s i j))"

lemma rx_ends_captured: "(j, h) \<in> set (rx_ends s r i g) \<Longrightarrow> groups_ok s G r \<Longrightarrow> captured_ok s G g \<Longrightarrow> captured_ok s G h"
proof (induction r arbitrary: i j g h)
  case (RSeq a b)
  then obtain k f where "(k, f) \<in> set (rx_ends s a i g)" "(j, h) \<in> set (rx_ends s b k f)" by auto
  then show ?case using RSeq.IH(1) [of k f i g] RSeq.IH(2) [of j h k f] RSeq.prems by simp
next
  case (RAlt a b)
  then show ?case by (metis Un_iff groups_ok.simps(2) rx_ends.simps(3) set_append)
next
  case (ROpt a)
  show ?case using ROpt.prems ROpt.IH [of j h i g] by auto
next
  case (RGroup n a)
  then obtain f where f: "(j, f) \<in> set (rx_ends s a i g)" "h = AList.update n (i, j) f" by auto
  have "captured_ok s G f" using RGroup.IH [OF f(1)] RGroup.prems by simp
  moreover have "G n (slice s i j)" using f(1) RGroup.prems(2) by (metis groups_ok.simps(4))
  ultimately show ?case using f(2) by (auto simp: captured_ok_def update_conv')
qed (auto split: if_splits)

lemma rx_ends_sets:
  "(j, h) \<in> set (rx_ends s r i g) \<Longrightarrow> sets_group n r \<or> map_of g n \<noteq> None \<Longrightarrow> map_of h n \<noteq> None"
proof (induction r arbitrary: i j g h)
  case (RSeq a b)
  then obtain k f where kf: "(k, f) \<in> set (rx_ends s a i g)" "(j, h) \<in> set (rx_ends s b k f)" by auto
  then show ?case using RSeq.IH(1) [OF kf(1)] RSeq.IH(2) [OF kf(2)] RSeq.prems(2) by auto
next
  case (RAlt a b)
  then show ?case by (metis Un_iff sets_group.simps(2) rx_ends.simps(3) set_append)
next
  case (ROpt a)
  show ?case using ROpt.prems ROpt.IH [of j h i g] by auto
next
  case (RGroup m a)
  then obtain f where f: "(j, f) \<in> set (rx_ends s a i g)" "h = AList.update m (i, j) f" by auto
  show ?case using RGroup.IH [OF f(1)] RGroup.prems(2) f(2) by (auto simp: update_conv')
qed (auto split: if_splits)

text \<open>The reader's view: a group that every match sets reads as a text it may capture.\<close>

lemma rx_search_group:
  assumes "rx_search r s = Some m" "groups_ok s G r" "sets_group n r"
  obtains i j where "map_of (snd (snd m)) n = Some (i, j)" "G n (slice s i j)"
proof -
  obtain i j g where m: "m = (i, j, g)" by (cases m)
  have "(j, g) \<in> set (rx_ends s r i [])"
    using rx_search_leftmost [of r s i j g] assms(1) by (auto simp: m rx_at_def split: list.splits)
  then have "captured_ok s G g" "map_of g n \<noteq> None"
    using rx_ends_captured [of j g s r i "[]" G] rx_ends_sets [of j g s r i "[]" n] assms(2,3) by (simp_all add: captured_ok_def)
  then show ?thesis using that by (auto simp: m captured_ok_def)
qed

lemma ends_rwords: "(j, h) \<in> set (rx_ends s (rwords ws) i g) \<Longrightarrow> slice s i j \<in> set ws"
proof (induction ws rule: induct_list012)
  case (2 w)
  then show ?case by (auto simp: rwords_def slice_def py_startswith_def split: if_splits)
next
  case (3 w v ws)
  then show ?case by (auto simp: rwords_def slice_def py_startswith_def split: if_splits)
qed (simp add: rwords_def py_startswith_def)

lemma ends_class: "(j, h) \<in> set (rx_ends s (RRep n cl) i g) \<Longrightarrow> list_all (in_class cl) (slice s i j) \<and> length (slice s i j) = j - i \<and> n \<le> j - i"
proof -
  assume "(j, h) \<in> set (rx_ends s (RRep n cl) i g)"
  then obtain k where k: "j = i + k" "n \<le> k" "k \<le> class_run cl s i" by auto
  have "prefix (take k (drop i s)) (takeWhile (in_class cl) (drop i s))"
    using k(3) takeWhile_is_prefix [of "in_class cl" "drop i s"] unfolding class_run_def
    by (metis take_is_prefix takeWhile_eq_take take_take min_absorb1)
  then have "set (take k (drop i s)) \<subseteq> set (takeWhile (in_class cl) (drop i s))" by (rule set_mono_prefix)
  then have "list_all (in_class cl) (take k (drop i s))" by (auto simp: list_all_iff dest: set_takeWhileD)
  moreover have "k \<le> length (drop i s)" using k(3) unfolding class_run_def by (meson le_trans length_takeWhile_le)
  ultimately show ?thesis using k by (simp add: slice_def)
qed

lemma caps_ok_words: "groups_ok s G (rwords ws)" "sets_group n (RSeq a b) \<longleftrightarrow> sets_group n a \<or> sets_group n b"
proof -
  show "groups_ok s G (rwords ws)" by (induction ws rule: induct_list012) (simp_all add: rwords_def)
qed simp

end
