(* ===== verification/Intents.thy ===== *)
theory Intents
  imports Py_Regex
begin

text \<open>
  What the user wants: the rule-based intent parser of \<open>src/subsystems/intent.py\<close> and the dialogue state of
  \<open>src/subsystems/dialogue.py\<close> (clarifications, coreference, memory of entities). The patterns are those of the sources,
  written as terms of \<open>rx\<close>. The entities of an intent are a dictionary; the clock is an argument.
\<close>

subsection \<open>Patterns\<close>

definition GREETING_PATTERNS :: "rx list" where
  "GREETING_PATTERNS =
     [RSeq RBol (ralt [RStr ''hi'', RStr ''hello'', RStr ''hey'', rseq [RStr ''good'', spaces, rwords [''morning'', ''afternoon'', ''evening'']],
        RStr ''howdy'', rseq [RStr ''what'', apo, RStr ''s'', spaces, RStr ''up'']]),
      RSeq RBol (rwords [''yo'', ''sup'', ''greetings''])]"

definition FAREWELL_PATTERNS :: "rx list" where
  "FAREWELL_PATTERNS =
     [RSeq (ralt [RStr ''goodbye'', RStr ''bye'', rseq [RStr ''see'', spaces, RStr ''you''], RStr ''later'',
        rseq [RStr ''good'', spaces, RStr ''night''], rseq [RStr ''take'', spaces, RStr ''care'']]) REol,
      RSeq RBol (ralt [RStr ''bye'', RStr ''later'', rseq [RStr ''gotta'', spaces, RStr ''go''], rseq [RStr ''i'', apo, RStr ''m'', spaces, RStr ''leaving'']])]"

definition COMMAND_PATTERNS :: "rx list" where
  "COMMAND_PATTERNS =
     [RSeq RBol (ralt (map RStr [''set'', ''create'', ''start'', ''stop'', ''turn'', ''open'', ''close'', ''play'', ''pause'', ''remind'', ''show'', ''tell'', ''find'',
        ''search'', ''send'', ''call'', ''text'', ''navigate''] @ [rseq [RStr ''go'', spaces, RStr ''to'']])),
      ralt [rseq [RStr ''set'', spaces, RStr ''a'', spaces, RStr ''timer''], rseq [RStr ''remind'', spaces, RStr ''me''],
        rseq [RStr ''turn'', spaces, rwords [''on'', ''off'']], rseq [RStr ''play'', spaces, ROpt (RSeq (RStr ''some'') spaces), RStr ''music''],
        rseq [RStr ''what'', spaces, RStr ''time'', spaces, RStr ''is'', spaces, RStr ''it''],
        rseq [RStr ''what'', apo, RStr ''s'', spaces, RStr ''the'', spaces, RStr ''weather''],
        rseq [RStr ''check'', spaces, ROpt (RSeq (RStr ''my'') spaces), rwords [''battery'', ''email'', ''calendar'']]],
      rseq [rwords [''call'', ''text'', ''message''], spaces, RRep 1 CWord],
      rseq [RBol, rwords [''remember'', ''recall'', ''forget''], RBound],
      rseq [RBol, RNot (RSeq (rwords [''what'', ''who'', ''where'', ''when'', ''why'', ''how'']) RBound), RRep 0 CAny, RBound, rwords [''remember'', ''forget''],
        spaces, rwords [''that'', ''about'', ''to''], RBound],
      rseq [RBol, rwords [''sync'', ''share'', ''mesh''], RBound]]"

definition QUESTION_PATTERNS :: "rx list" where
  "QUESTION_PATTERNS =
     [RSeq RBol (rwords [''what'', ''who'', ''where'', ''when'', ''why'', ''how'', ''which'', ''is'', ''are'', ''can'', ''could'', ''would'', ''do'', ''does'', ''did'',
        ''have'', ''has'', ''will'']),
      RSeq (RStr ''?'') REol]"

definition CHITCHAT_PATTERNS :: "rx list" where
  "CHITCHAT_PATTERNS =
     [ralt [rseq [RStr ''how'', spaces, RStr ''are'', spaces, RStr ''you''], rseq [RStr ''how'', apo, RStr ''s'', spaces, RStr ''it'', spaces, RStr ''going''],
        rseq [RStr ''what'', apo, RStr ''s'', spaces, RStr ''new''], rseq [RStr ''tell'', spaces, RStr ''me'', spaces, RStr ''a'', spaces, RStr ''joke''],
        rseq [RStr ''do'', spaces, RStr ''you'', spaces, rwords [''like'', ''love'', ''hate'']],
        rseq [RStr ''what'', spaces, RStr ''do'', spaces, RStr ''you'', spaces, RStr ''think'', spaces, RStr ''about'']],
      rseq [RStr ''i'', spaces, rwords [''love'', ''hate'', ''like'', ''miss'', ''want''], spaces],
      rwords [''thank'', ''thanks'', ''thx'']]"

definition TOOL_TOPICS :: "(rx \<times> string) list" where
  "TOOL_TOPICS =
     [(ralt [RStr ''temperature'', RStr ''thermometer'', rseq [RStr ''how'', spaces, rwords [''hot'', ''cold''], RBound],
        rseq [RAlt (rseq [RStr ''is'', spaces, RStr ''it'']) (rseq [RStr ''it'', apo, RStr ''s'']), spaces, rwords [''hot'', ''cold'', ''warm''], RBound],
        rseq [rwords [''hot'', ''cold''], spaces, ralt [RStr ''outside'', rseq [RStr ''in'', spaces, RStr ''here''], rseq [RStr ''in'', spaces, RStr ''this'', spaces, RStr ''room'']], RBound],
        rseq [RStr ''degree'', ROpt (RStr ''s''), RBound]], ''temperature''),
      (ralt [RStr ''weather'', RStr ''forecast'', rseq [RBound, RStr ''rain'', RBound], rseq [RBound, RStr ''snow'', RBound]], ''weather''),
      (ralt [rseq [RStr ''what'', apo, RStr ''s'', spaces, RStr ''the'', spaces, RStr ''time''], rseq [RStr ''what'', spaces, RStr ''time'', spaces, RStr ''is'', spaces, RStr ''it''],
        rseq [RStr ''tell'', spaces, RStr ''me'', spaces, RStr ''the'', spaces, RStr ''time''],
        rseq [RStr ''have'', spaces, RStr ''you'', spaces, RStr ''got'', spaces, RStr ''the'', spaces, RStr ''time''],
        rseq [RStr ''got'', spaces, RStr ''the'', spaces, RStr ''time''], rseq [RStr ''current'', spaces, RStr ''time''],
        rseq [RBound, RStr ''the'', spaces, RStr ''time'', RBound], rseq [RBound, RStr ''clock'', RBound]], ''time''),
      (ralt [rseq [RStr ''what'', apo, RStr ''s'', spaces, RStr ''the'', spaces, RStr ''date''],
        rseq [RStr ''what'', spaces, RStr ''is'', spaces, RStr ''the'', spaces, RStr ''date''],
        rseq [RStr ''what'', apo, RStr ''s'', spaces, RStr ''today'', apo, RStr ''s'', spaces, RStr ''date''],
        rseq [RStr ''what'', spaces, RStr ''day'', spaces, RStr ''is'', spaces, RStr ''it''],
        rseq [RStr ''what'', apo, RStr ''s'', spaces, RStr ''the'', spaces, RStr ''day''], rseq [RStr ''today'', apo, RStr ''s'', spaces, RStr ''date'']], ''date''),
      (ralt [RStr ''battery'', rseq [RStr ''charge'', spaces, RStr ''level''],
        rseq [RStr ''how'', spaces, RStr ''much'', spaces, rwords [''power'', ''charge'']]], ''battery''),
      (ralt [rseq [RBound, RStr ''sensor'', ROpt (RStr ''s''), RBound], RStr ''telemetry'', rseq [RBound, RStr ''reading'', ROpt (RStr ''s''), RBound],
        RStr ''accelerometer'', RStr ''gyroscope'', rseq [RBound, RStr ''imu'', RBound]], ''sensors'')]"

subsection \<open>Classification\<close>

datatype intent_type = QUESTION | COMMAND | CHITCHAT | GREETING | FAREWELL | CONFUSED

record user_intent =
  ui_type :: intent_type
  ui_transcript :: string
  ui_conf :: real
  ui_entities :: pydict

definition matches_any :: "rx list \<Rightarrow> string \<Rightarrow> bool" where
  "matches_any rs t = list_ex (\<lambda>r. rx_found r (py_lower t)) rs"

text \<open>\<open>re.search\<close> with \<open>IGNORECASE\<close>, as a reader of the groups.\<close>

definition search_ci :: "rx \<Rightarrow> string \<Rightarrow> (nat \<Rightarrow> string) option" where
  "search_ci r t = map_option (rx_group t) (rx_search r (py_lower t))"

definition UNIT_WORDS :: "string list" where
  "UNIT_WORDS = [''minute'', ''min'', ''second'', ''sec'', ''hour'', ''hr'']"

definition NUMBER_WORDS :: "(string \<times> int) list" where
  "NUMBER_WORDS = [(''zero'', 0), (''one'', 1), (''two'', 2), (''three'', 3), (''four'', 4), (''five'', 5), (''six'', 6), (''seven'', 7), (''eight'', 8),
     (''nine'', 9), (''ten'', 10), (''eleven'', 11), (''twelve'', 12), (''fifteen'', 15), (''twenty'', 20), (''thirty'', 30)]"

definition COUNT_WORDS :: "string list" where
  "COUNT_WORDS = map fst NUMBER_WORDS @ [''a'', ''an'']"

definition word_number :: "string \<Rightarrow> int" where
  "word_number w = (if w \<in> {''a'', ''an''} then 1 else case map_of NUMBER_WORDS w of None \<Rightarrow> 1 | Some n \<Rightarrow> n)"

definition digit_duration :: rx where
  "digit_duration = rseq [RGroup 1 (RRep 1 CDigit), RRep 0 CSpace, RGroup 2 (rwords UNIT_WORDS), ROpt (RStr ''s'')]"

definition word_duration :: rx where
  "word_duration = rseq [RBound, RGroup 1 (rwords COUNT_WORDS), spaces, RGroup 2 (rwords UNIT_WORDS), ROpt (RStr ''s''), RBound]"

definition target_pattern :: rx where
  "target_pattern = rseq [rwords [''call'', ''text'', ''message''], spaces, RGroup 1 (RRep 1 CWord)]"

definition action_pattern :: rx where
  "action_pattern = RSeq RBol (RGroup 1 (rwords [''set'', ''create'', ''start'', ''stop'', ''turn'', ''open'', ''close'', ''play'', ''pause'', ''remind'', ''remember'',
     ''recall'', ''forget'', ''show'', ''tell'', ''find'', ''search'', ''send'', ''call'', ''text'', ''sync'', ''share'', ''mesh'']))"

definition memory_pattern :: rx where
  "memory_pattern = rseq [RBound, rwords [''remember'', ''recall'', ''forget''], spaces, ROpt (RSeq (rwords [''that'', ''about'', ''to'']) spaces),
     RGroup 1 (RRep 1 CAny)]"

definition digits_int :: "string \<Rightarrow> int" where
  "digits_int s = (case dec_value 0 s of None \<Rightarrow> 0 | Some n \<Rightarrow> n)"

definition duration_entities :: "string \<Rightarrow> pydict" where
  "duration_entities t =
     (case search_ci digit_duration t of
        Some m \<Rightarrow> [(''duration_value'', PInt (digits_int (m 1))), (''duration_unit'', PStr (py_lower (m 2)))]
      | None \<Rightarrow> (case search_ci word_duration t of
          Some m \<Rightarrow> [(''duration_value'', PInt (word_number (py_lower (m 1)))), (''duration_unit'', PStr (py_lower (m 2)))]
        | None \<Rightarrow> []))"

definition extract_command_entities :: "string \<Rightarrow> pydict" where
  "extract_command_entities t =
     duration_entities t @
     (case search_ci target_pattern t of Some m \<Rightarrow> [(''target'', PStr (m 1))] | None \<Rightarrow> []) @
     (case search_ci action_pattern t of Some m \<Rightarrow> [(''action_verb'', PStr (py_lower (m 1)))] | None \<Rightarrow> []) @
     (case search_ci memory_pattern t of Some m \<Rightarrow> [(''memory_text'', PStr (py_strip (m 1)))] | None \<Rightarrow> [])"

definition mk_intent :: "intent_type \<Rightarrow> string \<Rightarrow> real \<Rightarrow> pydict \<Rightarrow> user_intent" where
  "mk_intent ty t c en = \<lparr>ui_type = ty, ui_transcript = t, ui_conf = c, ui_entities = en\<rparr>"

definition classify :: "string \<Rightarrow> user_intent" where
  "classify transcript =
     (let t = py_strip transcript in
      if t = [] then mk_intent CONFUSED t (1/10) []
      else if matches_any FAREWELL_PATTERNS t then mk_intent FAREWELL t (9/10) []
      else if matches_any GREETING_PATTERNS t then mk_intent GREETING t (9/10) []
      else if matches_any COMMAND_PATTERNS t then mk_intent COMMAND t (85/100) (extract_command_entities t)
      else if matches_any QUESTION_PATTERNS t then mk_intent QUESTION t (8/10) []
      else if matches_any CHITCHAT_PATTERNS t then mk_intent CHITCHAT t (7/10) []
      else if length (py_words t) \<le> 3 then mk_intent CHITCHAT t (4/10) []
      else mk_intent QUESTION t (4/10) [])"

definition tool_topic :: "string \<Rightarrow> string option" where
  "tool_topic transcript =
     (let t = py_lower (py_strip transcript) in
      if t = [] \<or> 120 < length t then None
      else map_option snd (find (\<lambda>(r, topic). rx_found r t) TOOL_TOPICS))"

subsection \<open>Dialogue state\<close>

datatype slot_transform = TNum | TWordNum | TUnit

text \<open>The answers a clarification accepts: pattern, slot, and what becomes of the match.\<close>

definition digit_answer :: rx where
  "digit_answer = rseq [RGroup 1 (RRep 1 CDigit), RRep 0 CSpace, RGroup 2 (rwords UNIT_WORDS), ROpt (RStr ''s''), RBound]"

definition bare_answer :: rx where
  "bare_answer = rseq [rwords [''for'', ''about''], spaces, RGroup 1 (RRep 1 CDigit)]"

definition CLARIFICATION_PATTERNS :: "string \<Rightarrow> (rx \<times> string \<times> slot_transform) list" where
  "CLARIFICATION_PATTERNS category =
     (if category = ''timer_duration''
      then [(digit_answer, ''duration_value'', TNum), (digit_answer, ''duration_unit'', TUnit), (bare_answer, ''duration_value'', TNum),
            (word_duration, ''duration_value'', TWordNum), (word_duration, ''duration_unit'', TUnit)]
      else [])"

definition NEW_INTENT_WORDS :: "string list" where
  "NEW_INTENT_WORDS = [''set'', ''create'', ''start'', ''stop'', ''turn'', ''open'', ''close'', ''play'', ''pause'', ''remind'', ''what'', ''who'', ''where'', ''when'',
     ''why'', ''how'', ''hello'', ''hi'', ''hey'', ''goodbye'', ''bye'', ''timer'', ''alarm'', ''weather'', ''battery'', ''music'', ''call'', ''text'']"

record dialogue_state =
  ds_category :: "string option"
  ds_transcript :: string
  ds_entities :: pydict
  ds_at :: real
  ds_timeout :: real
  ds_last :: string
  ds_recent :: "string list"
  ds_max :: nat

definition new_dialogue :: "nat \<Rightarrow> real \<Rightarrow> dialogue_state" where
  "new_dialogue max_entities timeout =
     \<lparr>ds_category = None, ds_transcript = [], ds_entities = [], ds_at = 0, ds_timeout = timeout, ds_last = [], ds_recent = [], ds_max = max_entities\<rparr>"

definition clear_pending :: "dialogue_state \<Rightarrow> dialogue_state" where
  "clear_pending d = d\<lparr>ds_category := None, ds_transcript := [], ds_entities := [], ds_at := 0\<rparr>"

text \<open>\<open>has_pending\<close> forgets a question that is too old. An empty category counts as none.\<close>

definition has_pending :: "real \<Rightarrow> dialogue_state \<Rightarrow> dialogue_state \<times> bool" where
  "has_pending now d =
     (if ds_category d = None \<or> ds_category d = Some [] then (d, False)
      else if ds_at d \<noteq> 0 \<and> now - ds_at d > ds_timeout d then (clear_pending d, False)
      else (d, True))"

definition begin_clarification :: "real \<Rightarrow> string \<Rightarrow> string \<Rightarrow> pydict \<Rightarrow> dialogue_state \<Rightarrow> dialogue_state" where
  "begin_clarification now category original entities d =
     d\<lparr>ds_category := Some category, ds_transcript := original, ds_entities := entities, ds_at := now\<rparr>"

definition answer_patterns :: "dialogue_state \<Rightarrow> (rx \<times> string \<times> slot_transform) list" where
  "answer_patterns d = (case ds_category d of None \<Rightarrow> [] | Some c \<Rightarrow> CLARIFICATION_PATTERNS c)"

definition looks_like_answer :: "real \<Rightarrow> string \<Rightarrow> dialogue_state \<Rightarrow> dialogue_state \<times> bool" where
  "looks_like_answer now transcript d =
     (case has_pending now d of (d1, pending) \<Rightarrow>
      if \<not> pending \<or> transcript = [] then (d1, False)
      else let lowered = py_lower (py_strip transcript); first = (if lowered = [] then [] else hd (py_words lowered)) in
        (d1, first \<notin> set NEW_INTENT_WORDS \<and> list_ex (\<lambda>(r, _, _). rx_found r lowered) (answer_patterns d1)))"

definition slot_value :: "slot_transform \<Rightarrow> (nat \<Rightarrow> string) \<Rightarrow> pyval" where
  "slot_value tr m =
     (case tr of TNum \<Rightarrow> PInt (digits_int (m 1)) | TWordNum \<Rightarrow> PInt (word_number (py_lower (m 1))) | TUnit \<Rightarrow> PStr (py_lower (m 2)))"

definition merge_slot :: "string \<Rightarrow> rx \<times> string \<times> slot_transform \<Rightarrow> pydict \<Rightarrow> pydict" where
  "merge_slot lowered p en =
     (case p of (r, slot, tr) \<Rightarrow>
      case rx_search r lowered of None \<Rightarrow> en | Some m \<Rightarrow> dset slot (slot_value tr (rx_group lowered m)) en)"

definition resolve_answer :: "real \<Rightarrow> string \<Rightarrow> dialogue_state \<Rightarrow> dialogue_state \<times> user_intent option" where
  "resolve_answer now transcript d =
     (case looks_like_answer now transcript d of (d1, ok) \<Rightarrow>
      if \<not> ok then (d1, None)
      else let merged = fold (merge_slot (py_lower (py_strip transcript))) (answer_patterns d1) (ds_entities d1);
               original = (if ds_transcript d1 = [] then transcript else ds_transcript d1)
           in (clear_pending d1, Some (mk_intent COMMAND original (9/10) merged)))"

definition remember_entity :: "string option \<Rightarrow> dialogue_state \<Rightarrow> dialogue_state" where
  "remember_entity en d =
     (case en of None \<Rightarrow> d
      | Some e \<Rightarrow> if e = [] then d else d\<lparr>ds_recent := take (ds_max d) (e # remove1 e (ds_recent d))\<rparr>)"

definition last_entity :: "dialogue_state \<Rightarrow> string option" where
  "last_entity d = (case ds_recent d of [] \<Rightarrow> None | e # _ \<Rightarrow> Some e)"

definition COREF_PROJECT :: rx where
  "COREF_PROJECT = rseq [RBound, RGroup 1 (rwords [''it'', ''that'', ''this'', ''them'', ''they'', ''those'']), RBound]"

definition resolve_coreference :: "string \<Rightarrow> dialogue_state \<Rightarrow> string" where
  "resolve_coreference transcript d =
     (case last_entity d of None \<Rightarrow> transcript
      | Some e \<Rightarrow> if e = [] \<or> \<not> rx_found COREF_PROJECT (py_lower transcript) then transcript
                   else rx_sub COREF_PROJECT e (py_lower transcript) transcript 0)"

definition record_utterance :: "string \<Rightarrow> dialogue_state \<Rightarrow> dialogue_state" where
  "record_utterance t d = d\<lparr>ds_last := t\<rparr>"

definition dialogue_clear :: "dialogue_state \<Rightarrow> dialogue_state" where
  "dialogue_clear d = (clear_pending d)\<lparr>ds_last := [], ds_recent := []\<rparr>"

text \<open>The target of a command, for later pronouns.\<close>

definition the_opt :: rx where "the_opt = ROpt (RSeq (RStr ''the'') spaces)"

definition stop_at :: rx where "stop_at = ralt [RStr ''.'', RStr '','', REol]"

definition ENTITY_PATTERNS :: "rx list" where
  "ENTITY_PATTERNS =
     [rseq [rwords [''turn'', ''switch''], spaces, RGroup 1 (RSeq the_opt (RLazy 2 24 CWordSpace)), spaces, rwords [''on'', ''off''], RBound],
      rseq [rwords [''turn'', ''switch''], spaces, rwords [''on'', ''off''], spaces, the_opt, RGroup 1 (RLazy 2 24 CWordSpace), stop_at],
      rseq [rwords [''call'', ''text'', ''message'', ''email''], spaces, the_opt, RGroup 1 (RLazy 2 24 CWordSpace), stop_at],
      rseq [rwords [''play'', ''pause'', ''stop''], spaces, ROpt (RSeq (RStr ''some'') spaces), the_opt, RGroup 1 (RLazy 2 24 CWordSpace), stop_at],
      rseq [rwords [''open'', ''close''], spaces, the_opt, RGroup 1 (RLazy 2 24 CWordSpace), stop_at]]"

definition entity_by :: "string \<Rightarrow> rx \<Rightarrow> string option" where
  "entity_by low r =
     (case rx_search r low of None \<Rightarrow> None
      | Some m \<Rightarrow> let e = py_strip (rx_group low m 1) in if 2 \<le> length e \<and> e \<notin> {''timer'', ''alarm''} then Some e else None)"

definition extract_named_entity :: "string \<Rightarrow> string option" where
  "extract_named_entity transcript = first_some (entity_by (py_lower transcript)) ENTITY_PATTERNS"

subsection \<open>Classification is total and its entities well formed\<close>

text \<open>Every utterance gets exactly one class, with a confidence between 0.1 and 0.9, on the stripped text; only commands carry entities;
  and the class for confusion is given to blank text and to nothing else.\<close>

theorem classify_total:
  "ui_transcript (classify t) = py_strip t \<and> 1/10 \<le> ui_conf (classify t) \<and> ui_conf (classify t) \<le> 9/10 \<and>
    (ui_entities (classify t) = [] \<or> ui_type (classify t) = COMMAND) \<and> (ui_type (classify t) = CONFUSED) = (py_strip t = [])"
  by (simp add: classify_def mk_intent_def Let_def)

lemma lower_slice: "py_lower (slice s i j) = slice (py_lower s) i j"
  by (simp add: slice_def py_lower_def drop_map take_map)

text \<open>What the second group of the duration patterns holds.\<close>

definition unit_group :: "nat \<Rightarrow> string \<Rightarrow> bool" where
  "unit_group n w \<longleftrightarrow> (n = 2 \<longrightarrow> w \<in> set UNIT_WORDS)"

lemma duration_groups:
  "groups_ok s unit_group word_duration" "sets_group 2 word_duration" "groups_ok s unit_group digit_duration" "sets_group 2 digit_duration"
  unfolding word_duration_def digit_duration_def spaces_def using ends_rwords [of _ _ s UNIT_WORDS]
  by (auto simp: unit_group_def caps_ok_words simp del: rx_ends.simps)

lemma dec_value_nonneg: "0 \<le> n \<Longrightarrow> dec_value n w = Some m \<Longrightarrow> 0 \<le> m"
proof (induction w arbitrary: n)
  case (Cons c w)
  then have "48 \<le> char_code c" "dec_value (10 * n + int (char_code c) - 48) w = Some m" by (auto split: if_splits)
  then show ?case using Cons.IH [of "10 * n + int (char_code c) - 48"] Cons.prems(1) by simp
qed simp

lemma word_number_nonneg: "0 \<le> word_number w"
proof -
  have "list_all (\<lambda>p. 0 \<le> snd p) NUMBER_WORDS" by (simp add: NUMBER_WORDS_def)
  then show ?thesis by (force simp: word_number_def list_all_iff split: option.split dest: map_of_SomeD)
qed

lemma durations_wf:
  "duration_entities t = [] \<or>
    (\<exists>n u. 0 \<le> n \<and> u \<in> set UNIT_WORDS \<and> duration_entities t = [(''duration_value'', PInt n), (''duration_unit'', PStr u)])"
proof (cases "rx_search digit_duration (py_lower t)")
  case (Some m)
  obtain i j where g2: "map_of (snd (snd m)) 2 = Some (i, j)" "unit_group 2 (slice (py_lower t) i j)"
    by (rule rx_search_group [OF Some duration_groups(3,4)])
  then have "py_lower (rx_group t m 2) \<in> set UNIT_WORDS" by (simp add: rx_group_def lower_slice unit_group_def)
  moreover have "0 \<le> digits_int (rx_group t m 1)"
    by (simp add: digits_int_def split: option.split) (metis dec_value_nonneg order_refl)
  ultimately show ?thesis using Some by (auto simp: duration_entities_def search_ci_def)
next
  case None
  show ?thesis
  proof (cases "rx_search word_duration (py_lower t)")
    case (Some m)
    obtain i j where "map_of (snd (snd m)) 2 = Some (i, j)" "unit_group 2 (slice (py_lower t) i j)"
      by (rule rx_search_group [OF Some duration_groups(1,2)])
    then have "py_lower (rx_group t m 2) \<in> set UNIT_WORDS" by (simp add: rx_group_def lower_slice unit_group_def)
    then show ?thesis using None Some word_number_nonneg by (auto simp: duration_entities_def search_ci_def)
  qed (use None in \<open>simp add: duration_entities_def search_ci_def\<close>)
qed

text \<open>A duration the parser reads off an utterance is a whole number that is not negative together with a unit the timer knows: the two
  entities come together, whatever the utterance.\<close>

theorem durations_are_well_formed:
  "duration_entities t = [] \<or>
    (\<exists>n u. 0 \<le> n \<and> u \<in> set UNIT_WORDS \<and> duration_entities t = [(''duration_value'', PInt n), (''duration_unit'', PStr u)])"
  by (rule durations_wf)

subsection \<open>The memory of entities\<close>

lemma remdups_snoc: "remdups (xs @ [e]) = removeAll e (remdups xs) @ [e]"
  by (induction xs) auto

lemma take_remove1: "distinct ys \<Longrightarrow> take m (e # remove1 e (take m ys)) = take m (e # removeAll e ys)"
proof (cases m)
  case (Suc k)
  assume "distinct ys"
  then have "take k (remove1 e (take (Suc k) ys)) = take k (removeAll e ys)"
  proof (induction ys arbitrary: k)
    case (Cons y ys)
    show ?case
    proof (cases "y = e")
      case True
      then have "removeAll e ys = ys" using Cons.prems by simp
      then show ?thesis using True by (simp add: take_take min_def)
    next
      case False
      then show ?thesis using Cons by (cases k) auto
    qed
  qed simp
  then show ?thesis using Suc by simp
qed simp

text \<open>The memory of entities is a least-recently-used list: after any sequence of mentions it holds the distinct entities mentioned, newest
  first, cut to the capacity, exactly as the reference definition on the whole history gives them; empty mentions are ignored.\<close>

theorem entity_memory_is_lru:
  fixes es :: "string list"
  shows "ds_recent (fold (\<lambda>e. remember_entity (Some e)) es (new_dialogue m timeout)) = take m (rev (remdups (filter (\<lambda>e. e \<noteq> []) es)))"
proof -
  have "ds_max (fold (\<lambda>e. remember_entity (Some e)) es (new_dialogue m timeout)) = m" for es
    by (induction es rule: rev_induct) (simp_all add: new_dialogue_def remember_entity_def)
  then show ?thesis
  proof (induction es rule: rev_induct)
    case (snoc e es)
    show ?case
    proof (cases "e = []")
      case False
      have "rev (removeAll e (remdups (filter (\<lambda>e. e \<noteq> []) es))) = removeAll e (rev (remdups (filter (\<lambda>e. e \<noteq> []) es)))"
        by (simp add: rev_filter removeAll_filter_not_eq)
      then show ?thesis
        using snoc False take_remove1 [of "rev (remdups (filter (\<lambda>e. e \<noteq> []) es))" m e]
        by (simp add: remember_entity_def remdups_snoc)
    qed (use snoc in \<open>simp add: remember_entity_def\<close>)
  qed (simp add: new_dialogue_def)
qed

subsection \<open>Clarifications\<close>

lemma has_pending_cases:
  "snd (has_pending now d) \<Longrightarrow> fst (has_pending now d) = d \<and> ds_category d \<noteq> None \<and> (ds_at d = 0 \<or> now - ds_at d \<le> ds_timeout d)"
  by (auto simp: has_pending_def split: if_splits)

lemma looks_like_answer_cases:
  "snd (looks_like_answer now t d) \<Longrightarrow> fst (looks_like_answer now t d) = d \<and> snd (has_pending now d) \<and> answer_patterns d \<noteq> []"
  using has_pending_cases [of now d]
  by (auto simp: looks_like_answer_def Let_def case_prod_beta split: if_splits)

lemma merge_slots_keep:
  "k \<notin> (fst \<circ> snd) ` set ps \<Longrightarrow> dget (fold (merge_slot t) ps en) k = dget en k"
  by (induction ps arbitrary: en) (auto simp: merge_slot_def split: prod.splits option.splits)

lemma answer_slots: "(fst \<circ> snd) ` set (answer_patterns d) \<subseteq> {''duration_value'', ''duration_unit''}"
  by (auto simp: answer_patterns_def CLARIFICATION_PATTERNS_def split: option.split)

lemma cleared_has_none: "has_pending now (clear_pending d) = (clear_pending d, False)"
  by (simp add: has_pending_def clear_pending_def)

text \<open>An answer is merged into the question it belongs to, once and in time: an utterance that resolves a clarification gives a command on
  the original request with all its entities, except the duration it supplies; it was heard within the time limit; the clarification is then
  closed, so no later utterance resolves it again.\<close>

theorem clarification_resolves_once:
  assumes "resolve_answer now t d = (d', Some it)" "ds_at d \<noteq> 0" "ds_transcript d \<noteq> []"
  shows "ui_type it = COMMAND \<and> ui_transcript it = ds_transcript d \<and> now - ds_at d \<le> ds_timeout d \<and>
    (k \<in> {''duration_value'', ''duration_unit''} \<or> dget (ui_entities it) k = dget (ds_entities d) k) \<and>
    snd (resolve_answer later t2 d') = None"
proof -
  have ok: "snd (looks_like_answer now t d)" using assms(1) by (auto simp: resolve_answer_def case_prod_beta split: if_splits)
  note look = looks_like_answer_cases [OF ok]
  have d': "d' = clear_pending d" and it: "it = mk_intent COMMAND (ds_transcript d) (9/10)
      (fold (merge_slot (py_lower (py_strip t))) (answer_patterns d) (ds_entities d))"
    using assms(1,3) ok look by (auto simp: resolve_answer_def case_prod_beta Let_def)
  have "now - ds_at d \<le> ds_timeout d" using has_pending_cases [of now d] look assms(2) by simp
  moreover have "dget (ui_entities it) k = dget (ds_entities d) k" if "k \<notin> {''duration_value'', ''duration_unit''}"
  proof -
    have "k \<notin> (fst \<circ> snd) ` set (answer_patterns d)" using that answer_slots [of d] by blast
    then show ?thesis by (simp add: it mk_intent_def merge_slots_keep)
  qed
  moreover have "snd (resolve_answer later t2 d') = None"
    by (simp add: resolve_answer_def looks_like_answer_def d' cleared_has_none)
  ultimately show ?thesis by (auto simp: it mk_intent_def)
qed

definition asked_timer :: dialogue_state where
  "asked_timer = begin_clarification 1 ''timer_duration'' ''set a timer'' [(''action_verb'', PStr ''set'')] (new_dialogue 5 120)"

definition timer_answer :: user_intent where
  "timer_answer = mk_intent COMMAND ''set a timer'' (9/10)
     [(''action_verb'', PStr ''set''), (''duration_value'', PInt 5), (''duration_unit'', PStr ''minute'')]"

lemma timer_resolved: "resolve_answer 91 ''five minutes'' asked_timer = (clear_pending asked_timer, Some timer_answer)"
proof -
  have d: "has_pending 91 asked_timer = (asked_timer, True)" "answer_patterns asked_timer = CLARIFICATION_PATTERNS ''timer_duration''"
      "ds_entities asked_timer = [(''action_verb'', PStr ''set'')]" "ds_transcript asked_timer = ''set a timer''"
    by (simp_all add: has_pending_def asked_timer_def begin_clarification_def new_dialogue_def answer_patterns_def)
  have e: "py_lower (py_strip ''five minutes'') = ''five minutes''" "hd (py_words ''five minutes'') \<notin> set NEW_INTENT_WORDS"
      "list_ex (\<lambda>(r, _, _). rx_found r ''five minutes'') (CLARIFICATION_PATTERNS ''timer_duration'')"
      "fold (merge_slot ''five minutes'') (CLARIFICATION_PATTERNS ''timer_duration'') [(''action_verb'', PStr ''set'')] =
       [(''action_verb'', PStr ''set''), (''duration_value'', PInt 5), (''duration_unit'', PStr ''minute'')]"
    by code_simp+
  have "looks_like_answer 91 ''five minutes'' asked_timer = (asked_timer, True)"
    using e(1-3) by (simp add: looks_like_answer_def d Let_def)
  then show ?thesis using e(1,4) by (simp add: resolve_answer_def d Let_def timer_answer_def)
qed

theorem clarification_resolves_once_witness:
  "resolve_answer 91 ''five minutes'' asked_timer = (clear_pending asked_timer, Some timer_answer) \<and>
    dget (ui_entities timer_answer) ''action_verb'' = PStr ''set'' \<and> snd (resolve_answer 92 ''six minutes'' (clear_pending asked_timer)) = None"
  using timer_resolved clarification_resolves_once [OF timer_resolved, of "''action_verb''" 92 "''six minutes''"]
  by (simp add: asked_timer_def begin_clarification_def dget_def)

subsection \<open>Where the rules misread\<close>

text \<open>Prefixes without a word boundary: what begins with \<open>yo\<close> or \<open>hi\<close> is a greeting; a final \<open>later\<close> is a farewell, also in a command.\<close>

theorem your_is_read_as_a_greeting: "ui_type (classify ''your battery level'') = GREETING" "ui_type (classify ''hide the map'') = GREETING"
  by code_simp+

theorem later_is_read_as_a_farewell: "ui_type (classify ''remind me later'') = FAREWELL"
  by code_simp

text \<open>Compound numbers: half an hour is read as an hour, twenty five minutes as five.\<close>

theorem compound_durations_are_misread:
  "duration_entities ''set a timer for half an hour'' = [(''duration_value'', PInt 1), (''duration_unit'', PStr ''hour'')]"
  "duration_entities ''set a timer for twenty five minutes'' = [(''duration_value'', PInt 5), (''duration_unit'', PStr ''minute'')]"
  by code_simp+

text \<open>A pronoun that refers to nothing is replaced all the same, before the utterance is classified.\<close>

theorem idle_pronoun_is_replaced:
  "resolve_coreference ''what time is it'' (remember_entity (Some ''the lights'') (new_dialogue 5 timeout)) = ''what time is the lights''"
proof -
  have "rx_found COREF_PROJECT (py_lower ''what time is it'')"
      "rx_sub COREF_PROJECT ''the lights'' (py_lower ''what time is it'') ''what time is it'' 0 = ''what time is the lights''"
    by code_simp+
  then show ?thesis by (simp add: resolve_coreference_def last_entity_def remember_entity_def new_dialogue_def)
qed

text \<open>The memory handler's question opens a clarification that nothing can answer.\<close>

theorem memory_clarification_has_no_answer:
  "snd (resolve_answer now t (begin_clarification t0 ''memory'' original entities d)) = None"
proof -
  have "\<not> snd (looks_like_answer now t (begin_clarification t0 ''memory'' original entities d))"
  proof
    assume "snd (looks_like_answer now t (begin_clarification t0 ''memory'' original entities d))"
    from looks_like_answer_cases [OF this] show False
      by (simp add: answer_patterns_def begin_clarification_def CLARIFICATION_PATTERNS_def)
  qed
  then show ?thesis by (simp add: resolve_answer_def case_prod_beta)
qed

end
