(* ===== verification/Talk_Timers.thy ===== *)
theory Talk_Timers
  imports Personality
begin

text \<open>
  The timers of \<open>src/subsystems/tools.py\<close>: the agent polls them in its loop; with a path they are mirrored to a file and survive a
  restart. The file is the parsed JSON it holds, and \<open>tg_writable\<close> says whether writing succeeds (a failing write leaves
  the file as it was, as the replacement of the file is atomic). A callback is recorded with the due time of its timer and the time of the call.
  One reading of the clock stands for the readings of one call. Float texts are the parameter \<open>floats\<close> of the
  personality theories.
\<close>

subsection \<open>A timer\<close>

record talk_timer =
  tm_id :: string
  tm_duration :: real
  tm_label :: pyval
  tm_callback :: bool
  tm_created :: real
  tm_due :: real
  tm_fired :: "real option"
  tm_away :: bool

definition new_timer :: "real \<Rightarrow> real \<Rightarrow> pyval \<Rightarrow> string \<Rightarrow> bool \<Rightarrow> talk_timer" where
  "new_timer now duration label tid callback =
     \<lparr>tm_id = tid, tm_duration = duration, tm_label = py_or label (PStr ''Timer''), tm_callback = callback, tm_created = now,
      tm_due = now + duration, tm_fired = None, tm_away = False\<rparr>"

definition remaining_seconds :: "real \<Rightarrow> talk_timer \<Rightarrow> real" where
  "remaining_seconds now t = max 0 (tm_due t - now)"

definition to_persist_dict :: "floats \<Rightarrow> talk_timer \<Rightarrow> pydict" where
  "to_persist_dict F t = [(''timer_id'', PStr (tm_id t)), (''label'', tm_label t), (''duration_seconds'', pfl F (tm_duration t)), (''due_at'', pfl F (tm_due t))]"

text \<open>A malformed entry gives nothing; an entry that is no dictionary raises.\<close>

definition from_persist_dict :: "floats \<Rightarrow> real \<Rightarrow> pyval \<Rightarrow> py_exn + talk_timer option" where
  "from_persist_dict F now v =
     (case v of
        PDict d \<Rightarrow>
          (case py_float F (dget_default d ''duration_seconds'' (PInt 0)) of Inl _ \<Rightarrow> Inr None | Inr duration \<Rightarrow>
           case py_float F (dget_default d ''due_at'' (PInt 0)) of Inl _ \<Rightarrow> Inr None | Inr due \<Rightarrow>
           if \<not> truthy (dget d ''timer_id'') \<or> due \<le> 0 then Inr None
           else Inr (Some ((new_timer now duration (py_or (dget d ''label'') (PStr ''Timer'')) (py_str (dget d ''timer_id'')) False)\<lparr>tm_due := due\<rparr>)))
      | _ \<Rightarrow> Inl AttributeErr)"

subsection \<open>The manager\<close>

record timer_manager =
  tg_timers :: "(string \<times> talk_timer) list"
  tg_persist :: bool
  tg_file :: "pyval option"
  tg_writable :: bool
  tg_calls :: "(pyval \<times> real \<times> real) list"

definition pending_of :: "timer_manager \<Rightarrow> talk_timer list" where
  "pending_of m = filter (\<lambda>t. tm_fired t = None) (map snd (tg_timers m))"

definition timers_save :: "floats \<Rightarrow> timer_manager \<Rightarrow> timer_manager" where
  "timers_save F m =
     (if tg_persist m \<and> tg_writable m then m\<lparr>tg_file := Some (PList (map (\<lambda>t. PDict (to_persist_dict F t)) (pending_of m)))\<rparr> else m)"

text \<open>Loading stops at the first entry that raises, and keeps what it has.\<close>

fun load_items :: "floats \<Rightarrow> real \<Rightarrow> pyval list \<Rightarrow> (string \<times> talk_timer) list \<Rightarrow> (string \<times> talk_timer) list" where
  "load_items F now [] ts = ts"
| "load_items F now (v # vs) ts =
     (case from_persist_dict F now v of
        Inl _ \<Rightarrow> ts
      | Inr None \<Rightarrow> load_items F now vs ts
      | Inr (Some t) \<Rightarrow> load_items F now vs (AList.update (tm_id t) t ts))"

definition new_manager :: "floats \<Rightarrow> real \<Rightarrow> bool \<Rightarrow> bool \<Rightarrow> pyval option \<Rightarrow> timer_manager" where
  "new_manager F now persist writable file =
     \<lparr>tg_timers = (case file of Some (PList vs) \<Rightarrow> if persist then load_items F now vs [] else [] | _ \<Rightarrow> []),
      tg_persist = persist, tg_file = file, tg_writable = writable, tg_calls = []\<rparr>"

definition fire_timer :: "real \<Rightarrow> talk_timer \<Rightarrow> talk_timer" where
  "fire_timer now t = t\<lparr>tm_fired := Some now\<rparr>"

definition call_of :: "real \<Rightarrow> talk_timer \<Rightarrow> (pyval \<times> real \<times> real) list" where
  "call_of now t = (if tm_callback t then [(tm_label t, tm_due t, now)] else [])"

definition timers_restore :: "real \<Rightarrow> timer_manager \<Rightarrow> timer_manager \<times> talk_timer list" where
  "timers_restore now m =
     (let missed = (\<lambda>t. tm_fired t = None \<and> remaining_seconds now t \<le> 0);
          ts = map (\<lambda>(k, t). (k, if missed t then t\<lparr>tm_away := True\<rparr> else t)) (tg_timers m)
      in (m\<lparr>tg_timers := ts\<rparr>, map (\<lambda>t. t\<lparr>tm_away := True\<rparr>) (filter missed (map snd (tg_timers m)))))"

text \<open>\<open>set\<close>: a duration of zero fires at once and stays for the next check. \<open>tid\<close> is the given or drawn id.\<close>

definition timers_set :: "floats \<Rightarrow> real \<Rightarrow> real \<Rightarrow> pyval \<Rightarrow> string \<Rightarrow> bool \<Rightarrow> timer_manager \<Rightarrow> timer_manager \<times> talk_timer" where
  "timers_set F now duration label tid callback m =
     (let seconds = max 0 duration; t = new_timer now seconds label tid callback in
      if seconds > 0 then (timers_save F (m\<lparr>tg_timers := AList.update tid t (tg_timers m)\<rparr>), t)
      else (timers_save F (m\<lparr>tg_timers := AList.update tid (fire_timer now t) (tg_timers m), tg_calls := tg_calls m @ call_of now t\<rparr>), fire_timer now t))"

definition timers_cancel :: "floats \<Rightarrow> string \<Rightarrow> timer_manager \<Rightarrow> timer_manager \<times> talk_timer option" where
  "timers_cancel F tid m = (timers_save F (m\<lparr>tg_timers := filter (\<lambda>(k, _). k \<noteq> tid) (tg_timers m)\<rparr>), map_of (tg_timers m) tid)"

text \<open>One pass of \<open>check\<close> over the timers: what is kept, what is reported, and the callbacks made.\<close>

fun check_pass :: "real \<Rightarrow> (string \<times> talk_timer) list \<Rightarrow> (string \<times> talk_timer) list \<times> talk_timer list \<times> (pyval \<times> real \<times> real) list" where
  "check_pass now [] = ([], [], [])"
| "check_pass now ((k, t) # ts) =
     (case check_pass now ts of (kept, fired, calls) \<Rightarrow>
      if tm_fired t \<noteq> None then (kept, t # fired, calls)
      else if remaining_seconds now t \<le> 0 then (kept, fire_timer now t # fired, call_of now t @ calls)
      else ((k, t) # kept, fired, calls))"

definition timers_check :: "floats \<Rightarrow> real \<Rightarrow> timer_manager \<Rightarrow> timer_manager \<times> talk_timer list" where
  "timers_check F now m =
     (case check_pass now (tg_timers m) of (kept, fired, calls) \<Rightarrow>
      let m1 = m\<lparr>tg_timers := kept, tg_calls := tg_calls m @ calls\<rparr>
      in (if fired \<noteq> [] then timers_save F m1 else m1, fired))"

definition timers_clear :: "floats \<Rightarrow> timer_manager \<Rightarrow> timer_manager" where
  "timers_clear F m = timers_save F (m\<lparr>tg_timers := []\<rparr>)"

subsection \<open>A check fires what is due\<close>

definition due_now :: "real \<Rightarrow> talk_timer \<Rightarrow> bool" where
  "due_now now t \<longleftrightarrow> tm_fired t \<noteq> None \<or> tm_due t \<le> now"

definition mark_fired :: "real \<Rightarrow> talk_timer \<Rightarrow> talk_timer" where
  "mark_fired now t = (if tm_fired t = None then fire_timer now t else t)"

lemma check_pass_spec:
  "check_pass now ts =
     (filter (\<lambda>(k, t). \<not> due_now now t) ts, map (mark_fired now) (filter (due_now now) (map snd ts)),
      concat (map (call_of now) (filter (\<lambda>t. tm_fired t = None \<and> tm_due t \<le> now) (map snd ts))))"
  by (induction now ts rule: check_pass.induct) (auto simp: due_now_def mark_fired_def remaining_seconds_def)

lemma save_frame [simp]:
  "tg_timers (timers_save F m) = tg_timers m" "tg_calls (timers_save F m) = tg_calls m" "tg_persist (timers_save F m) = tg_persist m"
  "tg_writable (timers_save F m) = tg_writable m"
  by (simp_all add: timers_save_def)

text \<open>A check of the timers fires what is due and nothing else: it reports, in creation order, exactly the timers that had fired or whose
  time has come; every other timer stays, unchanged and in order; and a second check at the same time reports nothing.\<close>

theorem check_fires_exactly_what_is_due:
  "snd (timers_check F now m) = map (mark_fired now) (filter (due_now now) (map snd (tg_timers m))) \<and>
    tg_timers (fst (timers_check F now m)) = filter (\<lambda>(k, t). \<not> due_now now t) (tg_timers m) \<and>
    snd (timers_check F now (fst (timers_check F now m))) = []"
proof -
  have kept: "tg_timers (fst (timers_check F now s)) = filter (\<lambda>(k, t). \<not> due_now now t) (tg_timers s)" for s
    by (simp add: timers_check_def check_pass_spec Let_def)
  have fired: "snd (timers_check F now s) = map (mark_fired now) (filter (due_now now) (map snd (tg_timers s)))" for s
    by (simp add: timers_check_def check_pass_spec Let_def)
  have "filter (due_now now) (map snd (filter (\<lambda>(k, t). \<not> due_now now t) ts)) = []" for ts :: "(string \<times> talk_timer) list"
    by (induction ts) auto
  then show ?thesis by (simp add: kept fired)
qed

subsection \<open>Runs\<close>

datatype timer_op = TSet real real string string bool | TCancel string | TCheck real | TRestore real | TClear

fun timer_step :: "floats \<Rightarrow> timer_op \<Rightarrow> timer_manager \<Rightarrow> timer_manager" where
  "timer_step F (TSet now duration label tid callback) m = fst (timers_set F now duration (PStr label) tid callback m)"
| "timer_step F (TCancel tid) m = fst (timers_cancel F tid m)"
| "timer_step F (TCheck now) m = fst (timers_check F now m)"
| "timer_step F (TRestore now) m = fst (timers_restore now m)"
| "timer_step F TClear m = timers_clear F m"

text \<open>The callbacks a run has armed so far, beside the manager.\<close>

fun arms :: "timer_op \<Rightarrow> nat" where
  "arms (TSet now duration label tid callback) = (if callback then 1 else 0)"
| "arms _ = 0"

fun armed_step :: "floats \<Rightarrow> timer_op \<Rightarrow> timer_manager \<times> nat \<Rightarrow> timer_manager \<times> nat" where
  "armed_step F p (m, n) = (timer_step F p m, n + arms p)"

definition loaded :: "talk_timer \<Rightarrow> bool" where
  "loaded t \<longleftrightarrow> tm_callback t \<and> tm_fired t = None"

fun calls_inv :: "timer_manager \<times> nat \<Rightarrow> bool" where
  "calls_inv (m, n) \<longleftrightarrow> (\<forall>(l, due, t)\<in>set (tg_calls m). due \<le> t) \<and> length (tg_calls m) + length (filter loaded (map snd (tg_timers m))) \<le> n"

lemma filter_update_le:
  "length (filter P (map snd (AList.update k v ts))) \<le> (if P v then 1 else 0) + length (filter P (map snd ts))"
  by (induction ts) auto

lemma filter_sub_le: "length (filter P (map snd (filter Q ts))) \<le> length (filter P (map snd ts))"
  by (induction ts) auto

lemma check_calls:
  "length (concat (map (call_of now) (filter (\<lambda>t. tm_fired t = None \<and> tm_due t \<le> now) (map snd ts)))) +
     length (filter loaded (map snd (filter (\<lambda>(k, t). \<not> due_now now t) ts))) \<le> length (filter loaded (map snd ts))"
  by (induction ts) (auto simp: call_of_def loaded_def due_now_def)

lemma restored_frame:
  "filter loaded (map snd (tg_timers (fst (timers_restore now m)))) =
     map (\<lambda>t. if tm_fired t = None \<and> remaining_seconds now t \<le> 0 then t\<lparr>tm_away := True\<rparr> else t) (filter loaded (map snd (tg_timers m)))"
  "tg_calls (fst (timers_restore now m)) = tg_calls m"
proof -
  have "filter loaded (map snd (map (\<lambda>(k, t). (k, if P t then t\<lparr>tm_away := True\<rparr> else t)) ts)) =
      map (\<lambda>t. if P t then t\<lparr>tm_away := True\<rparr> else t) (filter loaded (map snd ts))" for P and ts :: "(string \<times> talk_timer) list"
    by (induction ts) (auto simp: loaded_def)
  then show "filter loaded (map snd (tg_timers (fst (timers_restore now m)))) =
     map (\<lambda>t. if tm_fired t = None \<and> remaining_seconds now t \<le> 0 then t\<lparr>tm_away := True\<rparr> else t) (filter loaded (map snd (tg_timers m)))"
    by (simp add: timers_restore_def Let_def)
qed (simp add: timers_restore_def Let_def)

lemma set_fields:
  fixes now duration label tid callback
  defines "t \<equiv> new_timer now (max 0 duration) label tid callback"
  shows "tg_timers (fst (timers_set F now duration label tid callback m)) = AList.update tid (if 0 < duration then t else fire_timer now t) (tg_timers m)"
    "tg_calls (fst (timers_set F now duration label tid callback m)) = tg_calls m @ (if 0 < duration then [] else call_of now t)"
  by (simp_all add: timers_set_def Let_def t_def)

interpretation timer_calls: invariant_machine "armed_step F" calls_inv
proof
  fix s :: "timer_manager \<times> nat" and p :: timer_op
  assume inv: "calls_inv s"
  obtain m n where s: "s = (m, n)" by (cases s)
  show "calls_inv (armed_step F p s)"
  proof (cases p)
    case (TSet now duration label tid callback)
    define t where "t = new_timer now (max 0 duration) (PStr label) tid callback"
    define v where "v = (if 0 < duration then t else fire_timer now t)"
    define cs where "cs = (if 0 < duration then [] else call_of now t)"
    have "\<forall>(l, due, c)\<in>set cs. due \<le> c" "length cs + (if loaded v then 1 else 0) \<le> arms p"
      by (auto simp: cs_def v_def call_of_def t_def new_timer_def TSet loaded_def fire_timer_def)
    moreover have "length (filter loaded (map snd (AList.update tid v (tg_timers m)))) \<le> (if loaded v then 1 else 0) + length (filter loaded (map snd (tg_timers m)))"
      by (rule filter_update_le)
    moreover have "tg_timers (timer_step F p m) = AList.update tid v (tg_timers m)" "tg_calls (timer_step F p m) = tg_calls m @ cs"
      by (simp_all add: TSet set_fields v_def cs_def t_def)
    ultimately show ?thesis using inv unfolding s armed_step.simps calls_inv.simps by auto
  next
    case (TCancel tid)
    then show ?thesis using inv filter_sub_le [of loaded "\<lambda>(k, _). k \<noteq> tid" "tg_timers m"] by (simp add: s timers_cancel_def)
  next
    case (TCheck now)
    have "\<forall>(l, due, t)\<in>set (concat (map (call_of now) (filter (\<lambda>t. tm_fired t = None \<and> tm_due t \<le> now) (map snd (tg_timers m))))). due \<le> t"
      by (auto simp: call_of_def split: if_splits)
    then show ?thesis
      using inv check_calls [of now "tg_timers m"] by (auto simp: s TCheck timers_check_def check_pass_spec Let_def)
  next
    case (TRestore now)
    then show ?thesis using inv restored_frame [of now m] by (simp add: s)
  next
    case TClear
    then show ?thesis using inv by (simp add: s timers_clear_def)
  qed
qed

text \<open>Over any sequence of setting, cancelling, checking, restoring and clearing, no callback is made before its timer is due, and there are
  never more callbacks than timers set with one, so none is made twice.\<close>

theorem callbacks_are_timely_and_single:
  assumes "run_ops (armed_step F) ops (new_manager F now persist writable None, 0) = (m, n)"
  shows "(\<forall>(l, due, t)\<in>set (tg_calls m). due \<le> t) \<and> length (tg_calls m) \<le> sum_list (map arms ops) \<and>
    m = run_ops (timer_step F) ops (new_manager F now persist writable None)"
proof -
  have run: "run_ops (armed_step F) ops (m0, n0) = (run_ops (timer_step F) ops m0, n0 + sum_list (map arms ops))" for m0 n0
    by (induction ops arbitrary: m0 n0) simp_all
  have "calls_inv (new_manager F now persist writable None, 0)" by (simp add: new_manager_def)
  from timer_calls.inv_run [OF this, of F ops] assms have "calls_inv (m, n)" by simp
  moreover have "n = sum_list (map arms ops)" "m = run_ops (timer_step F) ops (new_manager F now persist writable None)"
    using assms by (simp_all add: run)
  ultimately show ?thesis by auto
qed

subsection \<open>Surviving a restart\<close>

definition file_items :: "timer_manager \<Rightarrow> pyval list" where
  "file_items m = (case tg_file m of Some (PList vs) \<Rightarrow> vs | _ \<Rightarrow> [])"

definition mirror_inv :: "floats \<Rightarrow> timer_manager \<Rightarrow> bool" where
  "mirror_inv F m \<longleftrightarrow> tg_persist m \<and> tg_writable m \<and> file_items m = map (\<lambda>t. PDict (to_persist_dict F t)) (pending_of m) \<and>
     distinct (map fst (tg_timers m)) \<and> (\<forall>(k, t)\<in>set (tg_timers m). tm_id t = k \<and> truthy (tm_label t))"

lemma save_mirrors: "tg_persist m \<Longrightarrow> tg_writable m \<Longrightarrow> file_items (timers_save F m) = map (\<lambda>t. PDict (to_persist_dict F t)) (pending_of (timers_save F m))"
  by (simp add: timers_save_def file_items_def pending_of_def)

lemma update_keeps:
  "(\<forall>(k, t)\<in>set ts. tm_id t = k \<and> truthy (tm_label t)) \<Longrightarrow> tm_id v = tid \<Longrightarrow> truthy (tm_label v) \<Longrightarrow>
     (\<forall>(k, t)\<in>set (AList.update tid v ts). tm_id t = k \<and> truthy (tm_label t))"
  by (induction ts) auto

lemma set_mirror:
  assumes "mirror_inv F m"
  shows "mirror_inv F (fst (timers_set F now duration (PStr label) tid callback m))"
proof -
  define t where "t = new_timer now (max 0 duration) (PStr label) tid callback"
  define v where "v = (if 0 < duration then t else fire_timer now t)"
  define m' where "m' = (if 0 < duration then m\<lparr>tg_timers := AList.update tid v (tg_timers m)\<rparr>
    else m\<lparr>tg_timers := AList.update tid v (tg_timers m), tg_calls := tg_calls m @ call_of now t\<rparr>)"
  have set: "fst (timers_set F now duration (PStr label) tid callback m) = timers_save F m'"
    by (simp add: timers_set_def Let_def m'_def v_def t_def)
  have m': "tg_timers m' = AList.update tid v (tg_timers m)" "tg_persist m' = tg_persist m" "tg_writable m' = tg_writable m"
    by (simp_all add: m'_def)
  have v: "tm_id v = tid" "truthy (tm_label v)" by (simp_all add: v_def t_def new_timer_def fire_timer_def py_or_def)
  have "\<forall>(k, t)\<in>set (AList.update tid v (tg_timers m)). tm_id t = k \<and> truthy (tm_label t)"
    by (rule update_keeps [OF _ v]) (use assms in \<open>simp add: mirror_inv_def\<close>)
  then show ?thesis
    using assms unfolding set mirror_inv_def by (simp only: m' save_frame save_mirrors distinct_update)
qed

lemma filter_none: "filter (due_now now) (map snd ts) = [] \<Longrightarrow> filter (\<lambda>(k, t). \<not> due_now now t) ts = ts"
  by (induction ts) (auto split: if_splits)

lemma distinct_map_filter: "distinct (map f xs) \<Longrightarrow> distinct (map f (filter P xs))"
  by (induction xs) auto

lemma check_mirror: "mirror_inv F m \<Longrightarrow> mirror_inv F (fst (timers_check F now m))"
proof (cases "filter (due_now now) (map snd (tg_timers m)) = []")
  case True
  assume "mirror_inv F m"
  then show ?thesis
    using True filter_none [OF True] by (simp add: mirror_inv_def timers_check_def check_pass_spec Let_def file_items_def pending_of_def)
next
  case False
  assume "mirror_inv F m"
  then show ?thesis
    using False by (auto simp: mirror_inv_def timers_check_def check_pass_spec Let_def save_mirrors distinct_map_filter)
qed

lemma restore_mirror: "mirror_inv F m \<Longrightarrow> mirror_inv F (fst (timers_restore now m))"
proof -
  assume inv: "mirror_inv F m"
  define upd where "upd = (\<lambda>t. if tm_fired t = None \<and> remaining_seconds now t \<le> 0 then t\<lparr>tm_away := True\<rparr> else t)"
  have upd: "tm_fired (upd t) = tm_fired t" "to_persist_dict F (upd t) = to_persist_dict F t" "tm_id (upd t) = tm_id t" "tm_label (upd t) = tm_label t" for t
    by (simp_all add: upd_def to_persist_dict_def)
  have restored: "fst (timers_restore now m) = m\<lparr>tg_timers := map (\<lambda>(k, t). (k, upd t)) (tg_timers m)\<rparr>"
    by (simp add: timers_restore_def Let_def upd_def)
  have keys: "map fst (map (\<lambda>(k, t). (k, upd t)) ts) = map fst ts" for ts :: "(string \<times> talk_timer) list"
    by (induction ts) auto
  have items: "map (\<lambda>t. PDict (to_persist_dict F t)) (filter (\<lambda>t. tm_fired t = None) (map snd (map (\<lambda>(k, t). (k, upd t)) ts))) =
      map (\<lambda>t. PDict (to_persist_dict F t)) (filter (\<lambda>t. tm_fired t = None) (map snd ts))" for ts :: "(string \<times> talk_timer) list"
    by (induction ts) (auto simp: upd)
  show ?thesis
    using inv keys [of "tg_timers m"] items [of "tg_timers m"] unfolding restored mirror_inv_def file_items_def pending_of_def
    by (auto simp del: map_map simp: upd)
qed

interpretation mirror: invariant_machine "timer_step F" "mirror_inv F"
proof
  fix s :: timer_manager and p :: timer_op
  assume inv: "mirror_inv F s"
  show "mirror_inv F (timer_step F p s)"
  proof (cases p)
    case (TCancel tid)
    then show ?thesis using inv by (auto simp: mirror_inv_def timers_cancel_def save_mirrors distinct_map_filter)
  next
    case TClear
    then show ?thesis using inv by (simp add: mirror_inv_def timers_clear_def save_mirrors)
  qed (use inv in \<open>simp_all add: set_mirror check_mirror restore_mirror\<close>)
qed

text \<open>What a timer is, apart from the callback and the time at which this process created it.\<close>

definition timer_core :: "talk_timer \<Rightarrow> string \<times> pyval \<times> real \<times> real" where
  "timer_core t = (tm_id t, tm_label t, tm_duration t, tm_due t)"

definition storable :: "floats \<Rightarrow> talk_timer \<Rightarrow> bool" where
  "storable F t \<longleftrightarrow> tm_id t \<noteq> [] \<and> 0 < tm_due t \<and> fl_value F (fl_repr F (tm_due t)) = tm_due t \<and> fl_value F (fl_repr F (tm_duration t)) = tm_duration t"

lemma persist_round_trip:
  assumes "storable F t" "truthy (tm_label t)"
  obtains u where "from_persist_dict F now (PDict (to_persist_dict F t)) = Inr (Some u)" "timer_core u = timer_core t" "tm_callback u = False" "tm_fired u = None"
  using assms that by (simp add: from_persist_dict_def to_persist_dict_def dget_def dget_default_def pfl_def storable_def new_timer_def py_or_def timer_core_def)

lemma update_new_key: "k \<notin> fst ` set al \<Longrightarrow> AList.update k v al = al @ [(k, v)]"
  by (induction al) auto

lemma load_items_core:
  assumes "list_all (\<lambda>t. storable F t \<and> truthy (tm_label t)) ts" "distinct (map fst acc @ map tm_id ts)"
  shows "map (timer_core \<circ> snd) (load_items F now (map (\<lambda>t. PDict (to_persist_dict F t)) ts) acc) = map (timer_core \<circ> snd) acc @ map timer_core ts \<and>
    list_all (\<lambda>(k, t). tm_callback t \<longrightarrow> (k, t) \<in> set acc) (load_items F now (map (\<lambda>t. PDict (to_persist_dict F t)) ts) acc)"
  using assms
proof (induction ts arbitrary: acc)
  case (Cons t ts)
  obtain u where u: "from_persist_dict F now (PDict (to_persist_dict F t)) = Inr (Some u)" "timer_core u = timer_core t" "tm_callback u = False"
    using persist_round_trip [of F t now] Cons.prems(1) by auto
  have id: "tm_id u = tm_id t" using u(2) by (simp add: timer_core_def)
  have upd: "AList.update (tm_id u) u acc = acc @ [(tm_id u, u)]"
    by (rule update_new_key) (use Cons.prems(2) in \<open>auto simp: id\<close>)
  define out where "out = load_items F now (map (\<lambda>t. PDict (to_persist_dict F t)) ts) (acc @ [(tm_id u, u)])"
  have rest: "map (timer_core \<circ> snd) out = map (timer_core \<circ> snd) (acc @ [(tm_id u, u)]) @ map timer_core ts \<and>
    list_all (\<lambda>(k, t). tm_callback t \<longrightarrow> (k, t) \<in> set (acc @ [(tm_id u, u)])) out"
    unfolding out_def by (rule Cons.IH) (use Cons.prems in \<open>auto simp: id\<close>)
  have step: "load_items F now (map (\<lambda>t. PDict (to_persist_dict F t)) (t # ts)) acc = out"
    by (simp add: u(1) upd out_def)
  have "map (timer_core \<circ> snd) out = map (timer_core \<circ> snd) acc @ map timer_core (t # ts)" using rest u(2) by simp
  moreover have "list_all (\<lambda>(k, t). tm_callback t \<longrightarrow> (k, t) \<in> set acc) out" using rest u(3) by (auto simp: list_all_iff)
  ultimately show ?case unfolding step by blast
qed (auto simp: list_all_iff)

text \<open>C32: Pending timers survive a restart: with a file that can be written, a manager built on the file left by any run holds exactly the
  pending timers of that run, in order, with their ids, labels, durations and due times, whenever their numbers are
  identified by their printed form.\<close>

theorem timers_survive_restart:
  assumes "list_all (storable F) (pending_of (run_ops (timer_step F) ops (new_manager F start True True None)))"
  shows "map (timer_core \<circ> snd) (tg_timers (new_manager F now True True (tg_file (run_ops (timer_step F) ops (new_manager F start True True None))))) =
    map timer_core (pending_of (run_ops (timer_step F) ops (new_manager F start True True None)))"
proof -
  define m where "m = run_ops (timer_step F) ops (new_manager F start True True None)"
  have "mirror_inv F (new_manager F start True True None)" by (simp add: mirror_inv_def new_manager_def file_items_def pending_of_def)
  then have inv: "mirror_inv F m" unfolding m_def by (rule mirror.inv_run)
  have "distinct (map tm_id (pending_of m))"
  proof -
    have "map tm_id (map snd (tg_timers m)) = map fst (tg_timers m)" using inv by (auto simp: mirror_inv_def)
    then have "distinct (map tm_id (map snd (tg_timers m)))" using inv unfolding mirror_inv_def by metis
    then show ?thesis unfolding pending_of_def by (rule distinct_map_filter)
  qed
  moreover have "list_all (\<lambda>t. storable F t \<and> truthy (tm_label t)) (pending_of m)"
    using assms inv by (auto simp: list_all_iff mirror_inv_def pending_of_def m_def)
  ultimately have "map (timer_core \<circ> snd) (load_items F now (file_items m) []) = map timer_core (pending_of m)"
    using load_items_core [of F "pending_of m" "[]" now] inv by (simp add: mirror_inv_def)
  then show ?thesis unfolding m_def [symmetric]
    by (auto simp: new_manager_def file_items_def split: option.splits pyval.splits)
qed

definition tea_floats :: floats where
  "tea_floats = \<lparr>fl_repr = (\<lambda>x. if x = 300 then ''300.0'' else if x = 310 then ''310.0'' else ''0.0''),
     fl_value = (\<lambda>r. if r = ''300.0'' then 300 else if r = ''310.0'' then 310 else 0), fl_parse = (\<lambda>_. None), fl_fmt2 = (\<lambda>_. []), fl_pct = (\<lambda>_. [])\<rparr>"

lemma tea_pending:
  "pending_of (run_ops (timer_step tea_floats) [TSet 10 300 ''tea'' ''t1'' True, TCheck 20] (new_manager tea_floats 0 True True None)) =
     [new_timer 10 300 (PStr ''tea'') ''t1'' True]"
  by (simp add: timers_set_def timers_check_def check_pass_spec new_manager_def timers_save_def pending_of_def new_timer_def due_now_def Let_def)

theorem timers_survive_restart_witness:
  "map (timer_core \<circ> snd) (tg_timers (new_manager tea_floats 50 True True
     (tg_file (run_ops (timer_step tea_floats) [TSet 10 300 ''tea'' ''t1'' True, TCheck 20] (new_manager tea_floats 0 True True None))))) =
   [(''t1'', PStr ''tea'', 300, 310)]"
proof -
  have "storable tea_floats (new_timer 10 300 (PStr ''tea'') ''t1'' True)"
    by (simp add: storable_def new_timer_def tea_floats_def)
  then have "list_all (storable tea_floats)
      (pending_of (run_ops (timer_step tea_floats) [TSet 10 300 ''tea'' ''t1'' True, TCheck 20] (new_manager tea_floats 0 True True None)))"
    unfolding tea_pending by simp
  from timers_survive_restart [OF this, of 50] show ?thesis
    unfolding tea_pending by (simp add: timer_core_def new_timer_def py_or_def)
qed

theorem callbacks_are_timely_and_single_witness:
  "length (tg_calls (fst (run_ops (armed_step tea_floats) [TSet 10 300 ''tea'' ''t1'' True, TCheck 310, TCheck 311]
     (new_manager tea_floats 0 False True None, 0)))) \<le> 1"
  using callbacks_are_timely_and_single [of tea_floats "[TSet 10 300 ''tea'' ''t1'' True, TCheck 310, TCheck 311]" 0 False True, OF prod.collapse [symmetric]]
  by simp

text \<open>A timer that comes back from the file has lost its callback: it is reported by the check and calls nothing.\<close>

theorem restored_timer_has_no_callback:
  assumes "from_persist_dict F now v = Inr (Some t)"
  shows "tm_callback t = False \<and> call_of later t = []"
  using assms by (auto simp: from_persist_dict_def new_timer_def call_of_def split: pyval.splits sum.splits if_splits)

text \<open>One entry of the file that is no object ends the loading, and the timers after it are lost.\<close>

theorem bad_entry_loses_the_rest: "load_items F now (PInt 0 # vs) ts = ts"
  by (simp add: from_persist_dict_def)

subsection \<open>The agent's poll\<close>

text \<open>The poll of the agent's loop, \<open>src/shugocore_agent.py\<close>: what is said is what the callbacks say, and a line for each reported timer that
  is marked as missed.\<close>

definition poll_timers :: "floats \<Rightarrow> real \<Rightarrow> timer_manager \<Rightarrow> timer_manager \<times> string list" where
  "poll_timers F now m =
     (case timers_check F now m of (m1, fired) \<Rightarrow>
      (m1, map (\<lambda>(label, _, _). py_str label @ '' is done!'') (drop (length (tg_calls m)) (tg_calls m1)) @
           map (\<lambda>t. ''While you were away, your '' @ py_lower (py_str (tm_label t)) @ '' fired.'') (filter tm_away fired)))"

lemma load_items_plain:
  "list_all (\<lambda>(k, t). \<not> tm_callback t \<and> \<not> tm_away t) ts \<Longrightarrow> list_all (\<lambda>(k, t). \<not> tm_callback t \<and> \<not> tm_away t) (load_items F now vs ts)"
proof (induction F now vs ts rule: load_items.induct)
  case (2 F now v vs ts)
  have "list_all (\<lambda>(k, t). \<not> tm_callback t \<and> \<not> tm_away t) (AList.update (tm_id t) t ts)"
    if "from_persist_dict F now v = Inr (Some t)" for t
  proof -
    have "\<not> tm_callback t \<and> \<not> tm_away t"
      using that by (auto simp: from_persist_dict_def new_timer_def split: pyval.splits sum.splits if_splits)
    then show ?thesis using 2(3) by (induction ts) auto
  qed
  then show ?case using 2 by (auto split: sum.split option.split)
qed simp

lemma poll_silent:
  assumes "list_all (\<lambda>(k, t). \<not> tm_callback t \<and> \<not> tm_away t) (tg_timers m)"
  shows "snd (poll_timers F now m) = []"
proof -
  have "concat (map (call_of now) (filter P (map snd (tg_timers m)))) = []" for P
    using assms by (auto simp: call_of_def list_all_iff)
  moreover have "filter tm_away (map (mark_fired now) (filter P (map snd (tg_timers m)))) = []" for P
    using assms by (fastforce simp: list_all_iff mark_fired_def fire_timer_def filter_empty_conv)
  ultimately show ?thesis by (simp add: poll_timers_def timers_check_def check_pass_spec Let_def)
qed

text \<open>After a restart in time nothing is said when a timer expires: a timer loaded from the file has no callback, and it is marked as missed only
  if it had expired at the restart.\<close>

theorem timers_expire_silently_after_restart:
  assumes "list_all (\<lambda>(k, t). now < tm_due t) (tg_timers (new_manager F now True writable file))"
  shows "snd (poll_timers F later (fst (timers_restore now (new_manager F now True writable file)))) = []"
proof (rule poll_silent)
  have "list_all (\<lambda>(k, t). \<not> tm_callback t \<and> \<not> tm_away t) (tg_timers (new_manager F now True writable file))"
    by (simp add: new_manager_def load_items_plain split: option.split pyval.split)
  then show "list_all (\<lambda>(k, t). \<not> tm_callback t \<and> \<not> tm_away t) (tg_timers (fst (timers_restore now (new_manager F now True writable file))))"
    using assms by (fastforce simp: timers_restore_def Let_def list_all_iff remaining_seconds_def split: if_splits)
qed

end
