(* ===== verification/Commands.thy ===== *)
theory Commands
  imports Intents Talk_Timers
begin

text \<open>
  From an intent to an action: \<open>src/subsystems/fallback.py\<close> (retries and strategy chains), the registry and the standard tools of
  \<open>src/subsystems/tools.py\<close>, and the command executor with its default handlers, \<open>src/subsystems/command_router.py\<close>; and the
  conversation state machine of \<open>src/conversation/manager.py\<close>. Whatever a tool or a handler changes is the state that is passed
  through; an exception is its text. The providers of battery, sensors and facts, and the formatted time, are arguments.
\<close>

subsection \<open>Retries and chains\<close>

record retry_policy =
  rp_attempts :: nat
  rp_base :: real
  rp_factor :: real

definition new_policy :: "int \<Rightarrow> real \<Rightarrow> real \<Rightarrow> retry_policy" where
  "new_policy attempts base factor = \<lparr>rp_attempts = nat (max 1 attempts), rp_base = max 0 base, rp_factor = max 1 factor\<rparr>"

text \<open>The sleep before the retry after attempt \<open>k\<close>; no sleep for a delay of zero.\<close>

definition sleep_before_retry :: "retry_policy \<Rightarrow> nat \<Rightarrow> real list" where
  "sleep_before_retry p k = (let delay = rp_base p * rp_factor p ^ k in if delay > 0 then [min delay 5] else [])"

datatype ('e, 'a) retry_result = RaisedThrough 'e | Succeeded 'a | GaveUp "'e option"

fun retry_loop :: "retry_policy \<Rightarrow> ('e \<Rightarrow> bool) \<Rightarrow> ('s \<Rightarrow> 's \<times> ('e + 'a)) \<Rightarrow> nat \<Rightarrow> nat \<Rightarrow> 'e option \<Rightarrow> 's \<Rightarrow> 's \<times> ('e, 'a) retry_result \<times> real list" where
  "retry_loop p allowed f k 0 failure s = (s, GaveUp failure, [])"
| "retry_loop p allowed f k (Suc n) failure s =
     (case f s of
        (s1, Inr x) \<Rightarrow> (s1, Succeeded x, [])
      | (s1, Inl e) \<Rightarrow>
          if \<not> allowed e then (s1, RaisedThrough e, [])
          else case retry_loop p allowed f (Suc k) n (Some e) s1 of
            (s2, r, sleeps) \<Rightarrow> (s2, r, (if n = 0 then [] else sleep_before_retry p k) @ sleeps))"

definition retry_call :: "retry_policy \<Rightarrow> ('e \<Rightarrow> bool) \<Rightarrow> ('s \<Rightarrow> 's \<times> ('e + 'a)) \<Rightarrow> 's \<Rightarrow> 's \<times> ('e, 'a) retry_result \<times> real list" where
  "retry_call p allowed f s = retry_loop p allowed f 0 (rp_attempts p) None s"

text \<open>A chain of strategies: each gives a flag and a result, or raises, which counts as a failure with the exception as its result.\<close>

fun chain_run :: "(string \<times> ('s \<Rightarrow> 's \<times> ('e + bool \<times> 'r))) list \<Rightarrow> string \<times> bool \<times> ('e + 'r) option \<Rightarrow> 's \<Rightarrow> 's \<times> string \<times> bool \<times> ('e + 'r) option" where
  "chain_run [] seen s = (s, seen)"
| "chain_run ((name, strategy) # rest) seen s =
     (case strategy s of
        (s1, Inl e) \<Rightarrow> chain_run rest (name, False, Some (Inl e)) s1
      | (s1, Inr (ok, r)) \<Rightarrow> if ok then (s1, name, True, Some (Inr r)) else chain_run rest (name, False, Some (Inr r)) s1)"

definition fallback_run :: "(string \<times> ('s \<Rightarrow> 's \<times> ('e + bool \<times> 'r))) list \<Rightarrow> 's \<Rightarrow> 's \<times> string \<times> bool \<times> ('e + 'r) option" where
  "fallback_run strategies s = chain_run strategies (''none'', False, None) s"

subsection \<open>Tools\<close>

record tool_result =
  tr_ok :: bool
  tr_output :: string
  tr_data :: pydict

definition ok_result :: "string \<Rightarrow> pydict \<Rightarrow> tool_result" where
  "ok_result out data = \<lparr>tr_ok = True, tr_output = out, tr_data = data\<rparr>"

definition err_result :: "string \<Rightarrow> tool_result" where
  "err_result message = \<lparr>tr_ok = False, tr_output = (if message = [] then ''That didn'' @ apos @ ''t work.'' else message), tr_data = []\<rparr>"

type_synonym 's tool_handler = "pydict \<Rightarrow> 's \<Rightarrow> 's \<times> (string + tool_result)"
type_synonym 's tool_registry = "(string \<times> 's tool_handler) list"

definition tool_call :: "string \<Rightarrow> 's tool_handler \<Rightarrow> pydict \<Rightarrow> 's \<Rightarrow> 's \<times> tool_result" where
  "tool_call name h args s =
     (case h args s of (s1, Inr r) \<Rightarrow> (s1, r) | (s1, Inl exc) \<Rightarrow> (s1, err_result (name @ '' failed: '' @ exc)))"

definition registry_call :: "'s tool_registry \<Rightarrow> string \<Rightarrow> pydict \<Rightarrow> 's \<Rightarrow> 's \<times> tool_result" where
  "registry_call reg name args s =
     (case map_of reg name of
        None \<Rightarrow> (s, err_result (''I don'' @ apos @ ''t have a '' @ name @ '' tool yet.''))
      | Some h \<Rightarrow> tool_call name h args s)"

definition registry_has :: "'s tool_registry \<Rightarrow> string \<Rightarrow> bool" where
  "registry_has reg name = (map_of reg name \<noteq> None)"

definition register_tool :: "string \<Rightarrow> 's tool_handler \<Rightarrow> 's tool_registry \<Rightarrow> 's tool_registry" where
  "register_tool name h reg = AList.update name h reg"

definition unregister_tool :: "string \<Rightarrow> 's tool_registry \<Rightarrow> 's tool_registry" where
  "unregister_tool name reg = filter (\<lambda>(k, _). k \<noteq> name) reg"

definition UNIT_SECONDS :: "(string \<times> int) list" where
  "UNIT_SECONDS = [(''second'', 1), (''sec'', 1), (''minute'', 60), (''min'', 60), (''hour'', 3600), (''hr'', 3600)]"

definition unit_seconds :: "string \<Rightarrow> int" where
  "unit_seconds u = (case map_of UNIT_SECONDS (py_lower u) of None \<Rightarrow> 60 | Some n \<Rightarrow> n)"

definition plural :: "bool \<Rightarrow> string" where "plural many = (if many then ''s'' else [])"

text \<open>The \<open>set_timer\<close> tool, for a whole number as the router passes it; \<open>tid\<close> is the drawn id.\<close>

definition set_timer_tool :: "floats \<Rightarrow> real \<Rightarrow> string \<Rightarrow> bool \<Rightarrow> timer_manager tool_handler" where
  "set_timer_tool F now tid callback args m =
     (case dget args ''duration_value'' of
        PInt v \<Rightarrow>
          (let u = py_str (dget_default args ''duration_unit'' (PStr ''minute''));
               seconds = max 1 (v * unit_seconds u);
               (m1, t) = timers_set F now (of_int seconds) (PStr ''Timer'') tid callback m
           in (m1, Inr (ok_result (''Got it '' @ em_dash @ '' timer set for '' @ show_int v @ '' '' @ u @ plural (v \<noteq> 1) @ ''.'')
                 [(''timer_id'', PStr (tm_id t)), (''seconds'', PInt seconds)])))
      | _ \<Rightarrow> (m, Inl ''float() argument''))"

definition cancel_timer_tool :: "floats \<Rightarrow> timer_manager tool_handler" where
  "cancel_timer_tool F args m =
     (case timers_cancel F (py_str (dget args ''timer_id'')) m of
        (m1, None) \<Rightarrow> (m1, Inr (err_result (''I couldn'' @ apos @ ''t find that timer.'')))
      | (m1, Some t) \<Rightarrow> (m1, Inr (ok_result (''Cancelled '' @ py_str (tm_label t) @ ''.'') [(''timer_id'', dget args ''timer_id'')])))"

text \<open>The battery and temperature tools; the providers may raise, and a reading is a finite number.\<close>

definition battery_tool :: "(string + pyval) \<Rightarrow> 's tool_handler" where
  "battery_tool level args s =
     (case level of
        Inl exc \<Rightarrow> (s, Inr (err_result (''Battery check failed: '' @ exc)))
      | Inr v \<Rightarrow> if v = PNone then (s, Inr (err_result (''Battery data isn'' @ apos @ ''t available right now.'')))
                  else (s, Inr (ok_result (''Your battery is at '' @ py_str v @ ''%.'') [(''battery'', v)])))"

definition TEMPERATURE_KEYS :: "(string \<times> string) list" where
  "TEMPERATURE_KEYS = [(''ambient_temp_c'', ''ambient''), (''temperature_c'', ''ambient''), (''cpu_temp_c'', ''device'')]"

definition plausible_temp :: "floats \<Rightarrow> pydict \<Rightarrow> string \<Rightarrow> real option" where
  "plausible_temp F data key =
     (if map_of data key = None then None
      else case py_float F (dget data key) of Inl _ \<Rightarrow> None | Inr x \<Rightarrow> if x \<le> 0 \<or> x > 150 then None else Some x)"

definition no_temperature :: string where
  "no_temperature = ''I can'' @ apos @ ''t measure a temperature here '' @ em_dash @ '' this device has no ambient sensor and no weather service is connected.''"

text \<open>\<open>fmt1\<close> prints a number with one decimal.\<close>

definition temperature_tool :: "floats \<Rightarrow> (real \<Rightarrow> string) \<Rightarrow> (string + pydict) \<Rightarrow> 's tool_handler" where
  "temperature_tool F fmt1 sensors args s =
     (case sensors of
        Inl exc \<Rightarrow> (s, Inr (err_result (''Temperature check failed: '' @ exc)))
      | Inr data \<Rightarrow>
          (case find (\<lambda>(k, kind). plausible_temp F data k \<noteq> None) TEMPERATURE_KEYS of
             None \<Rightarrow> (s, Inr (err_result no_temperature))
           | Some (k, kind) \<Rightarrow>
               let x = the (plausible_temp F data k) in
               (s, Inr (ok_result
                  (if kind = ''device'' then ''My own device is running at '' @ fmt1 x @ '' degrees Celsius '' @ em_dash @ '' that is my thermal sensor, not the room.''
                   else ''It'' @ apos @ ''s '' @ fmt1 x @ '' degrees Celsius here.'')
                  [(''temperature_c'', pfl F x), (''source'', PStr k), (''kind'', PStr kind)]))))"

subsection \<open>The command executor\<close>

record command_result =
  cr_success :: bool
  cr_response :: string
  cr_action :: string
  cr_data :: pydict

definition result :: "bool \<Rightarrow> string \<Rightarrow> string \<Rightarrow> pydict \<Rightarrow> command_result" where
  "result ok response action data = \<lparr>cr_success = ok, cr_response = response, cr_action = action, cr_data = data\<rparr>"

definition TOPIC_KEYWORDS :: "(string \<times> string list) list" where
  "TOPIC_KEYWORDS =
     [(''temperature'', [''temperature'', ''how hot'', ''how cold'', ''thermometer'', ''degrees'', ''hot outside'', ''cold outside'', ''is it hot'', ''is it cold'']),
      (''weather'', [''weather'', ''forecast'', ''rain'', ''snow'']),
      (''date'', [''what'' @ apos @ ''s the date'', ''what is the date'', ''what day is it'', ''todays date'', ''today'' @ apos @ ''s date'']),
      (''time'', [''the time'', ''time is it'', ''current time'', ''clock'']),
      (''battery'', [''battery'', ''charge level'']),
      (''sensors'', [''sensor'', ''telemetry'', ''accelerometer'', ''gyroscope''])]"

definition mesh_words :: "string \<Rightarrow> bool" where
  "mesh_words t = (py_contains t ''mesh'' \<or> py_contains t ''sync your memory'' \<or> py_contains t ''sync memories'' \<or> py_contains t ''share what you know'' \<or>
     py_contains t ''share your memory'' \<or> (py_contains t ''sync'' \<and> py_contains t ''peer''))"

definition memory_words :: "string \<Rightarrow> string \<Rightarrow> bool" where
  "memory_words verb t = (py_contains t ''remember'' \<or> py_contains t ''forget'' \<or> verb \<in> {''remember'', ''recall'', ''forget''})"

definition categorize :: "string \<Rightarrow> string \<Rightarrow> string option \<Rightarrow> string" where
  "categorize verb t topic =
     (if py_contains t ''timer'' \<or> py_contains t ''remind'' then ''timer''
      else if mesh_words t then ''mesh''
      else if memory_words verb t then ''memory''
      else if topic \<noteq> None \<and> topic \<noteq> Some [] then the topic
      else case find (\<lambda>(category, keywords). list_ex (py_contains t) keywords) TOPIC_KEYWORDS of
        Some (category, _) \<Rightarrow> category
      | None \<Rightarrow> if verb \<in> {''search'', ''find'', ''show'', ''tell''} then ''search''
                 else if verb \<in> {''turn'', ''open'', ''close'', ''play'', ''pause'', ''start'', ''stop''} then ''device''
                 else ''unknown'')"

text \<open>\<open>d.get(k, v)\<close> of an entity that is a text.\<close>

definition entity_text :: "user_intent \<Rightarrow> string \<Rightarrow> string \<Rightarrow> string" where
  "entity_text it k v0 = py_str (dget_default (ui_entities it) k (PStr v0))"

definition entity_option :: "user_intent \<Rightarrow> string \<Rightarrow> string option" where
  "entity_option it k = (case dget (ui_entities it) k of PNone \<Rightarrow> None | v \<Rightarrow> Some (py_str v))"

type_synonym 's command_handler = "user_intent \<Rightarrow> 's \<Rightarrow> 's \<times> (string + command_result)"

record 's command_executor =
  ce_handlers :: "(string \<times> 's command_handler) list"
  ce_fallback :: "'s command_handler option"

definition register_command :: "string \<Rightarrow> 's command_handler \<Rightarrow> 's command_executor \<Rightarrow> 's command_executor" where
  "register_command name h ce = ce\<lparr>ce_handlers := AList.update name h (ce_handlers ce)\<rparr>"

definition command_policy :: retry_policy where
  "command_policy = new_policy 2 (1/10) 2"

definition execute_command :: "'s command_executor \<Rightarrow> user_intent \<Rightarrow> 's \<Rightarrow> 's \<times> (string + command_result)" where
  "execute_command ce it s =
     (let category = categorize (entity_text it ''action_verb'' []) (py_lower (ui_transcript it)) (entity_option it ''tool_topic'') in
      case map_of (ce_handlers ce) category of
        Some h \<Rightarrow>
          (case retry_call command_policy (\<lambda>_. True) (h it) s of
             (s1, Succeeded r, _) \<Rightarrow> (s1, Inr r)
           | (s1, _, _) \<Rightarrow> (s1, Inr (result False ''I had trouble with that. Could you try again?'' (category @ ''_error'') [])))
      | None \<Rightarrow>
          (case ce_fallback ce of
             Some h \<Rightarrow> h it s
           | None \<Rightarrow> (s, Inr (result False (''I can'' @ apos @ ''t do that yet, but I'' @ apos @ ''m learning!'') ''unhandled_command'' []))))"

definition command_execute :: "'s command_executor \<Rightarrow> user_intent \<Rightarrow> 's \<Rightarrow> 's \<times> (string + command_result)" where
  "command_execute ce it s =
     (case ui_type it of
        COMMAND \<Rightarrow> execute_command ce it s
      | QUESTION \<Rightarrow> (s, Inr (result True [] ''question'' []))
      | GREETING \<Rightarrow> (s, Inr (result True [] ''greeting'' []))
      | FAREWELL \<Rightarrow> (s, Inr (result True [] ''farewell'' []))
      | CHITCHAT \<Rightarrow> (s, Inr (result True [] ''chitchat'' []))
      | CONFUSED \<Rightarrow> (s, Inr (result False (''I'' @ apos @ ''m not sure what you mean. Could you rephrase that?'') ''confused'' [])))"

subsection \<open>Default handlers\<close>

text \<open>\<open>tools\<close> is the registry, if there is one; \<open>hms\<close> and \<open>today\<close> are the formatted time and date.\<close>

definition timer_by_tool :: "'s tool_registry option \<Rightarrow> pyval \<Rightarrow> string \<Rightarrow> 's \<Rightarrow> 's \<times> command_result" where
  "timer_by_tool tools v u s =
     (case tools of
        None \<Rightarrow> (s, result False ''I need my tool kit for that.'' ''set_timer_unavailable'' [])
      | Some reg \<Rightarrow>
          (case registry_call reg ''set_timer'' [(''duration_value'', v), (''duration_unit'', PStr u)] s of (s1, r) \<Rightarrow>
           if tr_ok r
           then (s1, result True (''Got it '' @ em_dash @ '' timer set for '' @ py_str v @ '' '' @ u @ plural (v \<noteq> PInt 1) @ ''.'') ''timer_set''
                   [(''duration_value'', v), (''duration_unit'', PStr u)])
           else (s1, result False (tr_output r) ''set_timer_unavailable'' [])))"

definition loose_duration :: rx where
  "loose_duration = rseq [RGroup 1 (rwords COUNT_WORDS), RRep 0 CSpace, RGroup 2 (rwords UNIT_WORDS), ROpt (RStr ''s'')]"

definition handle_timer :: "'s tool_registry option \<Rightarrow> user_intent \<Rightarrow> 's \<Rightarrow> 's \<times> command_result" where
  "handle_timer tools it s =
     (if truthy (dget (ui_entities it) ''duration_value'')
      then timer_by_tool tools (dget (ui_entities it) ''duration_value'') (entity_text it ''duration_unit'' ''minute'') s
      else case search_ci loose_duration (ui_transcript it) of
        Some m \<Rightarrow> timer_by_tool tools (PInt (word_number (py_lower (m 1)))) (py_lower (m 2)) s
      | None \<Rightarrow> (s, result True ''Timer for how long?'' ''timer_clarify'' []))"

definition handle_weather :: "user_intent \<Rightarrow> 's \<Rightarrow> 's \<times> command_result" where
  "handle_weather it s = (s, result True (''I don'' @ apos @ ''t have weather data yet, but I'' @ apos @ ''m working on connecting to a service.'') ''weather_unavailable'' [])"

text \<open>A report from a tool, or else the formatted value.\<close>

definition report_or :: "'s tool_registry option \<Rightarrow> string \<Rightarrow> string \<Rightarrow> string \<Rightarrow> 's \<Rightarrow> 's \<times> command_result" where
  "report_or tools name otherwise action s =
     (case tools of
        None \<Rightarrow> (s, result True otherwise action [])
      | Some reg \<Rightarrow>
          if registry_has reg name
          then (case registry_call reg name [] s of (s1, r) \<Rightarrow> (s1, result True (if tr_ok r then tr_output r else otherwise) action []))
          else (s, result True otherwise action []))"

definition handle_time :: "'s tool_registry option \<Rightarrow> string \<Rightarrow> user_intent \<Rightarrow> 's \<Rightarrow> 's \<times> command_result" where
  "handle_time tools hms it s = report_or tools ''get_time'' (''It'' @ apos @ ''s '' @ hms @ ''.'') ''time_report'' s"

definition handle_date :: "'s tool_registry option \<Rightarrow> string \<Rightarrow> user_intent \<Rightarrow> 's \<Rightarrow> 's \<times> command_result" where
  "handle_date tools today it s = report_or tools ''get_date'' (''Today is '' @ today @ ''.'') ''date_report'' s"

text \<open>A reading of a tool, passed on whether it succeeded or not.\<close>

definition reading_or :: "'s tool_registry option \<Rightarrow> string \<Rightarrow> string \<Rightarrow> string \<Rightarrow> string \<Rightarrow> bool \<Rightarrow> 's \<Rightarrow> 's \<times> command_result" where
  "reading_or tools name otherwise report unavailable keep s =
     (case tools of
        None \<Rightarrow> (s, result True otherwise unavailable [])
      | Some reg \<Rightarrow>
          if registry_has reg name
          then (case registry_call reg name [] s of (s1, r) \<Rightarrow>
                  (s1, result (tr_ok r) (tr_output r) (if tr_ok r then report else unavailable) (if keep then tr_data r else [])))
          else (s, result True otherwise unavailable []))"

definition handle_temperature :: "'s tool_registry option \<Rightarrow> user_intent \<Rightarrow> 's \<Rightarrow> 's \<times> command_result" where
  "handle_temperature tools it s = reading_or tools ''get_temperature'' no_temperature ''temperature_report'' ''temperature_unavailable'' True s"

definition handle_sensors :: "'s tool_registry option \<Rightarrow> user_intent \<Rightarrow> 's \<Rightarrow> 's \<times> command_result" where
  "handle_sensors tools it s = reading_or tools ''check_sensors'' (''I can'' @ apos @ ''t read the sensors right now.'') ''sensor_report'' ''sensor_unavailable'' True s"

definition handle_battery :: "'s tool_registry option \<Rightarrow> user_intent \<Rightarrow> 's \<Rightarrow> 's \<times> command_result" where
  "handle_battery tools it s = reading_or tools ''get_battery'' ''I need my tool kit to read the battery level.'' ''battery_check'' ''battery_unavailable'' False s"

definition handle_search :: "user_intent \<Rightarrow> 's \<Rightarrow> 's \<times> command_result" where
  "handle_search it s =
     (if list_ex (py_contains (py_lower (ui_transcript it))) [''search'', ''find'', ''look up'', ''google'']
      then (s, result True (''I don'' @ apos @ ''t have a search service connected, so I can'' @ apos @ ''t look that up.'') ''search_unavailable'' [])
      else (s, result True [] ''not_a_search'' []))"

definition handle_device :: "user_intent \<Rightarrow> 's \<Rightarrow> 's \<times> command_result" where
  "handle_device it s =
     (s, result False (''I can'' @ apos @ ''t '' @ entity_text it ''action_verb'' ''do that'' @ '' anything yet, but I'' @ apos @ ''m learning new tricks every day!'')
        ''device_unavailable'' [])"

text \<open>One call of a memory or mesh tool, or the refusal when it is missing.\<close>

definition by_tool :: "'s tool_registry option \<Rightarrow> string \<Rightarrow> pydict \<Rightarrow> string \<Rightarrow> string \<Rightarrow> pydict option \<Rightarrow> 's \<Rightarrow> 's \<times> command_result" where
  "by_tool tools name args refusal action data s =
     (case tools of
        None \<Rightarrow> (s, result False refusal (name @ ''_unavailable'') [])
      | Some reg \<Rightarrow>
          if \<not> registry_has reg name then (s, result False refusal (name @ ''_unavailable'') [])
          else case registry_call reg name args s of (s1, r) \<Rightarrow>
            (s1, result (tr_ok r) (tr_output r) (action @ (if tr_ok r then [] else ''_failed'')) (case data of None \<Rightarrow> tr_data r | Some d \<Rightarrow> d)))"

definition need_memory :: string where "need_memory = ''I need my memory module for that.''"
definition need_mesh :: string where "need_mesh = ''I need my mesh module for that.''"

definition handle_memory :: "'s tool_registry option \<Rightarrow> user_intent \<Rightarrow> 's \<Rightarrow> 's \<times> command_result" where
  "handle_memory tools it s =
     (let t = py_strip (entity_text it ''memory_text'' []); low = py_lower (ui_transcript it); verb = entity_text it ''action_verb'' [] in
      if py_contains low ''forget'' \<or> verb = ''forget''
      then if length t < 2 then (s, result True ''Forget what?'' ''memory_clarify'' [])
           else by_tool tools ''forget_facts'' [(''keyword'', PStr t)] need_memory ''memory_forget'' (Some [(''keyword'', PStr t)]) s
      else if py_contains low ''recall'' \<or> verb = ''recall'' \<or> py_contains low ''what do you remember'' \<or> py_contains low ''what do you know about me''
      then let k = (if 2 \<le> length t then t else []) in
           by_tool tools ''recall_facts'' [(''keyword'', PStr k)] need_memory ''memory_recall'' (Some [(''keyword'', PStr k)]) s
      else if length t < 2 then (s, result True ''Remember what?'' ''memory_clarify'' [])
      else by_tool tools ''remember_fact'' [(''text'', PStr t)] need_memory ''memory_store'' (Some [(''fact'', PStr t)]) s)"

definition handle_mesh :: "'s tool_registry option \<Rightarrow> user_intent \<Rightarrow> 's \<Rightarrow> 's \<times> command_result" where
  "handle_mesh tools it s =
     (if tools = None then (s, result False need_mesh ''mesh_unavailable'' [])
      else let low = py_lower (ui_transcript it) in
        if py_contains low ''status'' \<or> py_contains low ''who'' \<or> py_contains low ''peers''
        then by_tool tools ''mesh_status'' [] need_mesh ''mesh_status'' None s
        else let peer = py_strip (py_str (py_or (dget (ui_entities it) ''peer_id'') (PStr []))) in
             by_tool tools ''mesh_sync'' [(''peer'', if peer = [] then PNone else PStr peer)] need_mesh ''mesh_sync'' None s)"

definition default_handlers :: "'s tool_registry option \<Rightarrow> string \<Rightarrow> string \<Rightarrow> (string \<times> (user_intent \<Rightarrow> 's \<Rightarrow> 's \<times> command_result)) list" where
  "default_handlers tools hms today =
     [(''timer'', handle_timer tools), (''weather'', handle_weather), (''time'', handle_time tools hms), (''date'', handle_date tools today),
      (''temperature'', handle_temperature tools), (''sensors'', handle_sensors tools), (''battery'', handle_battery tools), (''search'', handle_search),
      (''device'', handle_device), (''memory'', handle_memory tools), (''mesh'', handle_mesh tools)]"

text \<open>The executor as the agent sets it up: the default handlers, which raise nothing themselves, and a fallback that says nothing.\<close>

definition default_executor :: "'s tool_registry option \<Rightarrow> string \<Rightarrow> string \<Rightarrow> 's command_executor" where
  "default_executor tools hms today =
     \<lparr>ce_handlers = map (\<lambda>(k, h). (k, \<lambda>it s. case h it s of (s1, r) \<Rightarrow> (s1, Inr r))) (default_handlers tools hms today),
      ce_fallback = Some (\<lambda>it s. (s, Inr (result True [] ''unhandled_command'' [])))\<rparr>"

subsection \<open>Retries are bounded and honest\<close>

text \<open>The state before attempt \<open>k\<close>, when all before it failed.\<close>

fun after_failures :: "('s \<Rightarrow> 's \<times> ('e + 'a)) \<Rightarrow> nat \<Rightarrow> 's \<Rightarrow> 's" where
  "after_failures f 0 s = s"
| "after_failures f (Suc k) s = after_failures f k (fst (f s))"

definition fails_at :: "('e \<Rightarrow> bool) \<Rightarrow> ('s \<Rightarrow> 's \<times> ('e + 'a)) \<Rightarrow> 's \<Rightarrow> nat \<Rightarrow> bool" where
  "fails_at allowed f s k \<longleftrightarrow> (\<exists>e. snd (f (after_failures f k s)) = Inl e \<and> allowed e)"

lemma fails_at_Suc: "fails_at allowed f s (Suc k) \<longleftrightarrow> fails_at allowed f (fst (f s)) k"
  by (simp add: fails_at_def)

lemma retry_loop_success:
  "fst (snd (retry_loop p allowed f k n e s)) = Succeeded x \<longleftrightarrow>
     (\<exists>j<n. (\<forall>i<j. fails_at allowed f s i) \<and> snd (f (after_failures f j s)) = Inr x)"
proof (induction n arbitrary: k e s)
  case (Suc n)
  obtain s1 r where f: "f s = (s1, r)" by (cases "f s")
  show ?case
  proof (cases r)
    case (Inr y)
    have "\<not> fails_at allowed f s 0" using f Inr by (simp add: fails_at_def)
    then have "(\<exists>j<Suc n. (\<forall>i<j. fails_at allowed f s i) \<and> snd (f (after_failures f j s)) = Inr x) \<longleftrightarrow> snd (f s) = Inr x"
      by (metis after_failures.simps(1) gr0I not_less_zero zero_less_Suc)
    then show ?thesis using f Inr by simp
  next
    case (Inl err)
    show ?thesis
    proof (cases "allowed err")
      case True
      have "(\<exists>j<Suc n. (\<forall>i<j. fails_at allowed f s i) \<and> snd (f (after_failures f j s)) = Inr x) \<longleftrightarrow>
          (\<exists>j<n. (\<forall>i<j. fails_at allowed f s1 i) \<and> snd (f (after_failures f j s1)) = Inr x)" (is "?L \<longleftrightarrow> ?R")
      proof
        assume ?L
        then obtain j where j: "j < Suc n" "\<forall>i<j. fails_at allowed f s i" "snd (f (after_failures f j s)) = Inr x" by blast
        then obtain i where "j = Suc i" using f Inl by (cases j) auto
        then show ?R using j f by (auto simp: fails_at_Suc intro!: exI [of _ i] dest: spec [of _ "Suc _"])
      next
        assume ?R
        then obtain j where "j < n" "\<forall>i<j. fails_at allowed f s1 i" "snd (f (after_failures f j s1)) = Inr x" by blast
        moreover have "fails_at allowed f s 0" using f Inl True by (simp add: fails_at_def)
        ultimately show ?L using f by (intro exI [of _ "Suc j"]) (auto simp: less_Suc_eq_0_disj fails_at_Suc)
      qed
      then show ?thesis using f Inl True Suc.IH by (simp add: case_prod_beta)
    next
      case False
      have "\<not> fails_at allowed f s 0" using f Inl False by (simp add: fails_at_def)
      then show ?thesis using f Inl False by (auto simp: less_Suc_eq_0_disj)
    qed
  qed
qed simp

lemma retry_loop_sleeps:
  "length (snd (snd (retry_loop p allowed f k n e s))) \<le> n - 1 \<and> (\<forall>d\<in>set (snd (snd (retry_loop p allowed f k n e s))). 0 < d \<and> d \<le> 5)"
proof (induction n arbitrary: k e s)
  case (Suc n)
  have one: "length (sleep_before_retry p k) \<le> 1" "\<forall>d\<in>set (sleep_before_retry p k). 0 < d \<and> d \<le> 5"
    by (auto simp: sleep_before_retry_def Let_def)
  consider "snd (snd (retry_loop p allowed f k (Suc n) e s)) = []"
    | e1 s1 where "snd (snd (retry_loop p allowed f k (Suc n) e s)) =
        (if n = 0 then [] else sleep_before_retry p k) @ snd (snd (retry_loop p allowed f (Suc k) n (Some e1) s1))"
  proof (cases "f s")
    case (Pair s1 r)
    show ?thesis
    proof (cases r)
      case (Inl err)
      then show ?thesis using that Pair by (cases "allowed err") (auto simp: case_prod_beta)
    qed (use that Pair in simp)
  qed
  then show ?case
  proof cases
    case 2
    then show ?thesis using one Suc.IH [of "Suc k" "Some e1" s1] by auto
  qed simp
qed simp

text \<open>A retried call succeeds exactly when one of its first attempts does: the result is that of the first attempt that returns, all attempts
  before it having raised allowed exceptions, within the number of attempts of the policy; between attempts it sleeps at most that number minus
  one times, never longer than 5 s each.\<close>

theorem retry_call_first_success:
  "(fst (snd (retry_call p allowed f s)) = Succeeded x \<longleftrightarrow>
      (\<exists>j<rp_attempts p. (\<forall>i<j. fails_at allowed f s i) \<and> snd (f (after_failures f j s)) = Inr x)) \<and>
    length (snd (snd (retry_call p allowed f s))) \<le> rp_attempts p - 1 \<and> list_all (\<lambda>d. 0 < d \<and> d \<le> 5) (snd (snd (retry_call p allowed f s)))"
  using retry_loop_success [of p allowed f 0 "rp_attempts p" None s x] retry_loop_sleeps [of p allowed f 0 "rp_attempts p" None s]
  by (simp add: retry_call_def list_all_iff)

text \<open>A chain that ends with a strategy that always succeeds, succeeds.\<close>

lemma chain_guaranteed:
  assumes "\<And>s. \<exists>s1 x. apology s = (s1, Inr (True, x))"
  shows "fst (snd (snd (chain_run (strategies @ [(name, apology)]) seen s)))"
proof (induction strategies arbitrary: seen s)
  case Nil
  obtain s1 x where "apology s = (s1, Inr (True, x))" using assms by blast
  then show ?case by simp
next
  case (Cons st strategies)
  obtain n f where st: "st = (n, f)" by (cases st)
  obtain s1 r where f: "f s = (s1, r)" by (cases "f s")
  show ?case
  proof (cases r)
    case (Inr y)
    then show ?thesis using Cons f by (cases y) (auto simp: st)
  qed (use Cons f in \<open>simp add: st\<close>)
qed

text \<open>A chain reports a success only if it is the first: when it ends with a success, that is the result of a strategy of the chain, under its name,
  and every strategy before it failed or raised; if none succeeds, the result is that of the last one.\<close>

theorem fallback_chain_first_success:
  assumes "fallback_run strategies s = (s', name, ok, r)" "strategies \<noteq> []"
  shows "\<exists>pre f post s0. strategies = pre @ (name, f) # post \<and> \<not> fst (snd (snd (fallback_run pre s))) \<and> s0 = fst (fallback_run pre s) \<and>
    (if ok then \<exists>x. f s0 = (s', Inr (True, x)) \<and> r = Some (Inr x)
     else post = [] \<and> ((\<exists>e. f s0 = (s', Inl e) \<and> r = Some (Inl e)) \<or> (\<exists>x. f s0 = (s', Inr (False, x)) \<and> r = Some (Inr x))))"
proof -
  have "\<exists>pre f post s0. strategies = pre @ (name, f) # post \<and> \<not> fst (snd (snd (chain_run pre seen s))) \<and> s0 = fst (chain_run pre seen s) \<and>
    (if ok then \<exists>x. f s0 = (s', Inr (True, x)) \<and> r = Some (Inr x)
     else post = [] \<and> ((\<exists>e. f s0 = (s', Inl e) \<and> r = Some (Inl e)) \<or> (\<exists>x. f s0 = (s', Inr (False, x)) \<and> r = Some (Inr x))))"
    if "chain_run strategies seen s = (s', name, ok, r)" "\<not> fst (snd seen)" "strategies \<noteq> []" for seen
    using that
  proof (induction strategies arbitrary: seen s)
    case (Cons st strategies)
    obtain n f where st: "st = (n, f)" by (cases st)
    obtain s1 o1 where f: "f s = (s1, o1)" by (cases "f s")
    show ?case
    proof (cases "\<exists>x. o1 = Inr (True, x)")
      case True
      then show ?thesis using Cons.prems f by (intro exI [of _ "[]"] exI [of _ f] exI [of _ strategies]) (auto simp: st)
    next
      case False
      then obtain res where run: "chain_run (st # strategies) seen s = chain_run strategies (n, False, Some res) s1"
          and res: "(\<exists>e. f s = (s1, Inl e) \<and> res = Inl e) \<or> (\<exists>x. f s = (s1, Inr (False, x)) \<and> res = Inr x)"
        using f by (cases o1) (auto simp: st)
      show ?thesis
      proof (cases "strategies = []")
        case True
        then show ?thesis using run res Cons.prems by (intro exI [of _ "[]"] exI [of _ f] exI [of _ "[]"]) (auto simp: st)
      next
        case ne: False
        obtain pre g post s0 where IH: "strategies = pre @ (name, g) # post" "\<not> fst (snd (snd (chain_run pre (n, False, Some res) s1)))"
            "s0 = fst (chain_run pre (n, False, Some res) s1)"
            "if ok then \<exists>x. g s0 = (s', Inr (True, x)) \<and> r = Some (Inr x)
             else post = [] \<and> ((\<exists>e. g s0 = (s', Inl e) \<and> r = Some (Inl e)) \<or> (\<exists>x. g s0 = (s', Inr (False, x)) \<and> r = Some (Inr x)))"
          using Cons.IH [of "(n, False, Some res)" s1] Cons.prems run ne by auto
        have "chain_run (st # pre) seen s = chain_run pre (n, False, Some res) s1" using res by (auto simp: st)
        then show ?thesis using IH by (intro exI [of _ "st # pre"] exI [of _ g] exI [of _ post] exI [of _ s0]) simp
      qed
    qed
  qed simp
  from this [of "(''none'', False, None)"] assms show ?thesis by (simp add: fallback_run_def)
qed

subsection \<open>The default commands\<close>

lemma retry_total: "0 < rp_attempts p \<Longrightarrow> retry_call p allowed (\<lambda>s. case h s of (s1, r) \<Rightarrow> (s1, Inr r)) s = (fst (h s), Succeeded (snd (h s)), [])"
  by (cases "rp_attempts p") (auto simp: retry_call_def split: prod.split)

lemma command_policy_attempts: "rp_attempts command_policy = 2"
  by (simp add: command_policy_def new_policy_def)

definition intent_category :: "user_intent \<Rightarrow> string" where
  "intent_category it = categorize (entity_text it ''action_verb'' []) (py_lower (ui_transcript it)) (entity_option it ''tool_topic'')"

lemma default_known:
  assumes "ui_type it = COMMAND" "map_of (default_handlers tools hms today) (intent_category it) = Some h"
  shows "command_execute (default_executor tools hms today) it s = (fst (h it s), Inr (snd (h it s)))"
proof -
  have "map_of (ce_handlers (default_executor tools hms today)) (intent_category it) = Some (\<lambda>it s. case h it s of (s1, r) \<Rightarrow> (s1, Inr r))"
    using assms(2) by (simp add: default_executor_def map_of_map_restrict) (simp add: default_handlers_def split: if_splits)
  then show ?thesis
    using assms(1) by (simp add: command_execute_def execute_command_def Let_def retry_total command_policy_attempts flip: intent_category_def)
qed

lemma default_unknown:
  assumes "ui_type it = COMMAND" "map_of (default_handlers tools hms today) (intent_category it) = None"
  shows "command_execute (default_executor tools hms today) it s = (s, Inr (result True [] ''unhandled_command'' []))"
proof -
  have "map_of (ce_handlers (default_executor tools hms today)) (intent_category it) = None"
    using assms(2) by (simp add: default_executor_def) (simp add: default_handlers_def split: if_splits)
  then show ?thesis
    using assms(1) by (simp add: command_execute_def execute_command_def Let_def default_executor_def flip: intent_category_def)
qed

text \<open>What a handler may do to the state: nothing, or one call of a tool.\<close>

definition one_call :: "'s tool_registry \<Rightarrow> 's \<Rightarrow> 's \<Rightarrow> bool" where
  "one_call reg s s' \<longleftrightarrow> s' = s \<or> (\<exists>name args. s' = fst (registry_call reg name args s))"

lemma tool_helpers_one_call:
  "one_call reg s (fst (timer_by_tool (Some reg) v u s))" "one_call reg s (fst (report_or (Some reg) name otherwise action s))"
  "one_call reg s (fst (reading_or (Some reg) name otherwise report unavailable keep s))"
  "one_call reg s (fst (by_tool (Some reg) name args refusal action data s))"
  by (auto simp: one_call_def timer_by_tool_def report_or_def reading_or_def by_tool_def case_prod_beta)

lemma one_call_refl: "one_call reg s s"
  by (simp add: one_call_def)

lemma handlers_one_call:
  assumes "(c, h) \<in> set (default_handlers (Some reg) hms today)"
  shows "one_call reg s (fst (h it s))"
proof -
  have "one_call reg s (fst (handle_timer (Some reg) it s))"
    by (simp add: handle_timer_def tool_helpers_one_call one_call_refl split: option.split)
  moreover have "one_call reg s (fst (handle_memory (Some reg) it s))"
    by (simp add: handle_memory_def Let_def tool_helpers_one_call one_call_refl)
  moreover have "one_call reg s (fst (handle_mesh (Some reg) it s))"
    by (simp add: handle_mesh_def Let_def tool_helpers_one_call)
  ultimately show ?thesis
    using assms
    by (auto simp: default_handlers_def handle_weather_def handle_time_def handle_date_def handle_temperature_def handle_sensors_def
        handle_battery_def handle_search_def handle_device_def tool_helpers_one_call one_call_refl)
qed

text \<open>C9: A spoken command acts at most once: whatever the utterance and whatever the tools do, executing it with the default handlers never raises, and
  changes the state by at most one call of one tool.\<close>

theorem command_acts_at_most_once:
  "\<exists>s' r. command_execute (default_executor (Some reg) hms today) it s = (s', Inr r) \<and> one_call reg s s'"
proof (cases "ui_type it = COMMAND")
  case True
  show ?thesis
  proof (cases "map_of (default_handlers (Some reg) hms today) (intent_category it)")
    case None
    then show ?thesis using default_unknown [OF True None] by (simp add: one_call_refl)
  next
    case (Some h)
    then show ?thesis using default_known [OF True Some] handlers_one_call [OF map_of_SomeD [OF Some]] by simp
  qed
next
  case False
  then show ?thesis by (cases "ui_type it") (simp_all add: command_execute_def one_call_refl)
qed

subsection \<open>A question a tool can answer\<close>

text \<open>Every registered tool answers with words.\<close>

definition talkative :: "'s tool_registry option \<Rightarrow> bool" where
  "talkative tools \<longleftrightarrow> (\<forall>reg name args s. tools = Some reg \<longrightarrow> tr_output (snd (registry_call reg name args s)) \<noteq> [])"

lemma words_or:
  "talkative tools \<Longrightarrow> cr_response (snd (timer_by_tool tools v u s)) \<noteq> []"
  "talkative tools \<Longrightarrow> otherwise \<noteq> [] \<Longrightarrow> cr_response (snd (report_or tools name otherwise action s)) \<noteq> []"
  "talkative tools \<Longrightarrow> otherwise \<noteq> [] \<Longrightarrow> cr_response (snd (reading_or tools name otherwise report unavailable keep s)) \<noteq> []"
  "talkative tools \<Longrightarrow> refusal \<noteq> [] \<Longrightarrow> cr_response (snd (by_tool tools name args refusal action data s)) \<noteq> []"
  by (auto simp: talkative_def timer_by_tool_def report_or_def reading_or_def by_tool_def result_def case_prod_beta split: option.split)

definition TALKING :: "string list" where
  "TALKING = [''timer'', ''mesh'', ''memory'', ''temperature'', ''weather'', ''time'', ''date'', ''battery'', ''sensors'']"

lemma talking_handler:
  assumes "talkative tools" "c \<in> set TALKING"
  obtains h where "map_of (default_handlers tools hms today) c = Some h" "\<And>it s. cr_response (snd (h it s)) \<noteq> []"
proof -
  have timer: "cr_response (snd (handle_timer tools it s)) \<noteq> []" for it s
    by (simp add: handle_timer_def words_or assms(1) split: option.split) (simp add: result_def)
  have memory: "cr_response (snd (handle_memory tools it s)) \<noteq> []" for it s
    by (simp add: handle_memory_def Let_def words_or assms(1) need_memory_def) (simp add: result_def)
  have mesh: "cr_response (snd (handle_mesh tools it s)) \<noteq> []" for it s
    by (simp add: handle_mesh_def Let_def words_or assms(1) need_mesh_def) (simp add: result_def)
  have rest: "cr_response (snd (handle_weather it s)) \<noteq> []" "cr_response (snd (handle_time tools hms it s)) \<noteq> []"
      "cr_response (snd (handle_date tools today it s)) \<noteq> []" "cr_response (snd (handle_temperature tools it s)) \<noteq> []"
      "cr_response (snd (handle_sensors tools it s)) \<noteq> []" "cr_response (snd (handle_battery tools it s)) \<noteq> []" for it s
    by (simp_all add: handle_weather_def handle_time_def handle_date_def handle_temperature_def handle_sensors_def handle_battery_def words_or
        assms(1) no_temperature_def result_def)
  show ?thesis
    using assms(2) that timer memory mesh rest by (auto simp: TALKING_def default_handlers_def)
qed

lemma topic_known: "tool_topic t = Some topic \<Longrightarrow> topic \<in> set TALKING \<and> topic \<noteq> []"
proof -
  assume "tool_topic t = Some topic"
  then obtain x where "find (\<lambda>(r, topic). rx_found r (py_lower (py_strip t))) TOOL_TOPICS = Some (x, topic)"
    by (auto simp: tool_topic_def Let_def split: if_splits)
  then have "(x, topic) \<in> set TOOL_TOPICS" by (auto simp: find_Some_iff in_set_conv_nth)
  then have "topic \<in> snd ` set TOOL_TOPICS" by force
  also have "snd ` set TOOL_TOPICS = {''temperature'', ''weather'', ''time'', ''date'', ''battery'', ''sensors''}" by (simp add: TOOL_TOPICS_def)
  finally show ?thesis by (auto simp: TALKING_def)
qed

text \<open>The intent the agent builds for a question with a topic.\<close>

definition tool_question :: "string \<Rightarrow> string \<Rightarrow> user_intent" where
  "tool_question topic transcript = mk_intent COMMAND transcript (9/10) [(''tool_topic'', PStr topic)]"

text \<open>A question that a tool can answer is answered, and not by the language model: if the parser finds a topic in the utterance and the
  registered tools answer with words (also when there is no tool at all), executing the question gives words to say, a reading or an honest refusal.\<close>

theorem toolable_question_is_answered:
  assumes "tool_topic transcript = Some topic" "talkative tools"
  shows "\<exists>s' r. command_execute (default_executor tools hms today) (tool_question topic transcript) s = (s', Inr r) \<and> cr_response r \<noteq> []"
proof -
  have "intent_category (tool_question topic transcript) \<in> {''timer'', ''mesh'', ''memory'', topic}"
    using topic_known [OF assms(1)]
    by (simp add: intent_category_def categorize_def tool_question_def mk_intent_def entity_text_def entity_option_def dget_def dget_default_def)
  then have "intent_category (tool_question topic transcript) \<in> set TALKING"
    using topic_known [OF assms(1)] by (auto simp: TALKING_def)
  then obtain h where h: "map_of (default_handlers tools hms today) (intent_category (tool_question topic transcript)) = Some h"
      "\<And>it s. cr_response (snd (h it s)) \<noteq> []"
    by (rule talking_handler [OF assms(2), where hms = hms and today = today]) blast
  have "ui_type (tool_question topic transcript) = COMMAND" by (simp add: tool_question_def mk_intent_def)
  from default_known [OF this h(1)] h(2) show ?thesis by simp
qed

theorem toolable_question_is_answered_witness:
  "\<exists>s' r. command_execute (default_executor None ''10:00 AM'' ''Monday, May 04'') (tool_question ''battery'' ''how much charge is left'') () = (s', Inr r) \<and>
     cr_response r \<noteq> []"
proof -
  have "tool_topic ''how much charge is left'' = Some ''battery''" by code_simp
  then show ?thesis by (rule toolable_question_is_answered) (simp add: talkative_def)
qed

subsection \<open>A timer, from the utterance to the due time\<close>

lemma unit_seconds_pos: "1 \<le> unit_seconds u"
proof -
  have "list_all (\<lambda>p. 1 \<le> snd p) UNIT_SECONDS" by (simp add: UNIT_SECONDS_def)
  then show ?thesis by (force simp: unit_seconds_def list_all_iff split: option.split dest: map_of_SomeD)
qed



text \<open>Zero in words sets a timer of one second and announces zero minutes.\<close>

theorem zero_minutes_is_one_second:
  assumes "map_of reg ''set_timer'' = Some (set_timer_tool F now tid callback)"
  shows "fst (command_execute (default_executor (Some reg) hms today) (classify ''set a timer for zero minutes'') m) =
    fst (timers_set F now 1 (PStr ''Timer'') tid callback m)"
proof -
  have c: "classify ''set a timer for zero minutes'' = mk_intent COMMAND ''set a timer for zero minutes'' (85/100)
      [(''duration_value'', PInt 0), (''duration_unit'', PStr ''minute''), (''action_verb'', PStr ''set'')]"
  proof -
    have "py_strip ''set a timer for zero minutes'' = ''set a timer for zero minutes''"
        "matches_any FAREWELL_PATTERNS ''set a timer for zero minutes'' = False" "matches_any GREETING_PATTERNS ''set a timer for zero minutes'' = False"
        "matches_any COMMAND_PATTERNS ''set a timer for zero minutes''"
        "extract_command_entities ''set a timer for zero minutes'' = [(''duration_value'', PInt 0), (''duration_unit'', PStr ''minute''), (''action_verb'', PStr ''set'')]"
      by code_simp+
    then show ?thesis by (simp add: classify_def Let_def)
  qed
  have p: "py_contains (py_lower ''set a timer for zero minutes'') ''timer''" by code_simp
  have m: "map_option (\<lambda>m. (word_number (py_lower (m 1)), py_lower (m 2))) (search_ci loose_duration ''set a timer for zero minutes'') = Some (0, ''minute'')"
    by code_simp
  then obtain g where g: "search_ci loose_duration ''set a timer for zero minutes'' = Some g" "word_number (py_lower (g 1)) = 0" "py_lower (g 2) = ''minute''"
    by auto
  have "intent_category (classify ''set a timer for zero minutes'') = ''timer''" using p by (simp add: c intent_category_def categorize_def mk_intent_def)
  then have h: "map_of (default_handlers (Some reg) hms today) (intent_category (classify ''set a timer for zero minutes'')) = Some (handle_timer (Some reg))"
    by (simp add: default_handlers_def)
  have ty: "ui_type (classify ''set a timer for zero minutes'') = COMMAND" by (simp add: c mk_intent_def)
  show ?thesis
    using assms default_known [OF ty h] g
    by (simp add: c mk_intent_def handle_timer_def dget_def timer_by_tool_def registry_call_def tool_call_def set_timer_tool_def Let_def case_prod_beta)
qed

text \<open>Topic words are found inside other words.\<close>

theorem trains_are_weather: "categorize ''tell'' ''tell me about trains'' None = ''weather''"
  by code_simp

end
