(* ===== verification/Conversation.thy ===== *)
theory Conversation
  imports Prelude
begin

text \<open>
  The conversation state machine, \<open>src/conversation/manager.py\<close>: whose turn it is, and the bounded history that goes into the prompt.
  Clock readings are arguments. The lock makes each method one step.
\<close>

datatype conversation_state = CIdle | CListening | CProcessing | CSpeaking | CWaiting

record conversation =
  cv_state :: conversation_state
  cv_turn_index :: nat
  cv_history :: "(string \<times> string) list"
  cv_max :: int
  cv_user :: string
  cv_agent :: string
  cv_active :: real
  cv_question :: bool

definition new_conversation :: "int \<Rightarrow> conversation" where
  "new_conversation max_history =
     \<lparr>cv_state = CIdle, cv_turn_index = 0, cv_history = [], cv_max = max_history, cv_user = [], cv_agent = [], cv_active = 0, cv_question = False\<rparr>"

definition is_in_conversation :: "conversation \<Rightarrow> bool" where
  "is_in_conversation c = (cv_state c \<noteq> CIdle)"

text \<open>\<open>xs[-n:]\<close>: the last \<open>n\<close> elements, everything for zero, and what follows the first \<open>-n\<close> for a negative \<open>n\<close>.\<close>

definition py_last :: "int \<Rightarrow> 'a list \<Rightarrow> 'a list" where
  "py_last n xs = (if n > 0 then drop (length xs - nat n) xs else drop (nat (- n)) xs)"

definition append_turn :: "string \<Rightarrow> string \<Rightarrow> conversation \<Rightarrow> conversation" where
  "append_turn role t c =
     (let h = cv_history c @ [(role, t)] in c\<lparr>cv_history := (if int (length h) > cv_max c then py_last (cv_max c) h else h)\<rparr>)"

definition on_user_speech :: "real \<Rightarrow> string \<Rightarrow> conversation \<Rightarrow> conversation" where
  "on_user_speech now transcript c = c\<lparr>cv_user := transcript, cv_active := now,
     cv_state := (case cv_state c of CIdle \<Rightarrow> CProcessing | CListening \<Rightarrow> CProcessing | CSpeaking \<Rightarrow> CProcessing | CWaiting \<Rightarrow> CProcessing | st \<Rightarrow> st)\<rparr>"

definition on_response_start :: "conversation \<Rightarrow> conversation" where
  "on_response_start c = c\<lparr>cv_state := CProcessing\<rparr>"

definition on_speak_begin :: "real \<Rightarrow> string \<Rightarrow> conversation \<Rightarrow> conversation" where
  "on_speak_begin now t c =
     (let c1 = c\<lparr>cv_agent := t, cv_state := CSpeaking\<rparr>;
          c2 = (if cv_user c1 \<noteq> [] then (append_turn ''user'' (cv_user c1) c1)\<lparr>cv_user := []\<rparr> else c1);
          c3 = append_turn ''assistant'' t c2
      in c3\<lparr>cv_turn_index := cv_turn_index c3 + 1, cv_active := now\<rparr>)"

definition on_speak_end :: "bool \<Rightarrow> conversation \<Rightarrow> conversation" where
  "on_speak_end expects_answer c = c\<lparr>cv_question := expects_answer, cv_state := (if expects_answer then CWaiting else CIdle)\<rparr>"

definition on_barge_in :: "real \<Rightarrow> conversation \<Rightarrow> conversation" where
  "on_barge_in now c = c\<lparr>cv_state := CListening, cv_active := now\<rparr>"

definition get_history :: "int \<Rightarrow> conversation \<Rightarrow> (string \<times> string) list" where
  "get_history n c = py_last n (cv_history c)"

definition get_history_text :: "int \<Rightarrow> conversation \<Rightarrow> string" where
  "get_history_text n c = join_sep [CHR 0x0A] (map (\<lambda>(role, t). take 5 (py_upper role) @ '': '' @ take 200 t) (py_last n (cv_history c)))"

definition clear_history :: "conversation \<Rightarrow> conversation" where
  "clear_history c = c\<lparr>cv_history := [], cv_turn_index := 0, cv_state := CIdle\<rparr>"

record conversation_stats =
  cs_state :: conversation_state
  cs_turns :: nat
  cs_history :: nat
  cs_user :: string
  cs_agent :: string
  cs_question :: bool
  cs_age :: "real option"

definition conv_stats :: "real \<Rightarrow> conversation \<Rightarrow> conversation_stats" where
  "conv_stats now c = \<lparr>cs_state = cv_state c, cs_turns = cv_turn_index c, cs_history = length (cv_history c), cs_user = cv_user c, cs_agent = cv_agent c,
     cs_question = cv_question c, cs_age = (if cv_active c = 0 then None else Some (py_round 1 (now - cv_active c)))\<rparr>"

subsection \<open>Runs\<close>

datatype conv_op = UserSpeech real string | ResponseStart | SpeakBegin real string | SpeakEnd bool | BargeIn real | ClearHistory

fun conv_step :: "conv_op \<Rightarrow> conversation \<Rightarrow> conversation" where
  "conv_step (UserSpeech now t) c = on_user_speech now t c"
| "conv_step ResponseStart c = on_response_start c"
| "conv_step (SpeakBegin now t) c = on_speak_begin now t c"
| "conv_step (SpeakEnd q) c = on_speak_end q c"
| "conv_step (BargeIn now) c = on_barge_in now c"
| "conv_step ClearHistory c = clear_history c"

text \<open>The dialogue as it happened: the last utterance before each answer, and the answer. The history is what remains of it.\<close>

fun dialogue_said :: "conv_op list \<Rightarrow> string \<Rightarrow> (string \<times> string) list" where
  "dialogue_said [] u = []"
| "dialogue_said (UserSpeech now t # ps) u = dialogue_said ps t"
| "dialogue_said (SpeakBegin now t # ps) u = (if u = [] then [] else [(''user'', u)]) @ (''assistant'', t) # dialogue_said ps []"
| "dialogue_said (_ # ps) u = dialogue_said ps u"

definition keep_last :: "nat \<Rightarrow> 'a list \<Rightarrow> 'a list" where
  "keep_last n xs = drop (length xs - n) xs"

lemma keep_last_snoc: "0 < n \<Longrightarrow> keep_last n (keep_last n xs @ ys) = keep_last n (xs @ ys)"
  by (cases "length xs \<le> n") (simp_all add: keep_last_def add.commute)

lemma append_turn_history: "0 < cv_max c \<Longrightarrow> cv_history (append_turn role t c) = keep_last (nat (cv_max c)) (cv_history c @ [(role, t)])"
  by (simp add: append_turn_def Let_def py_last_def keep_last_def)

lemma append_turn_frame [simp]:
  "cv_max (append_turn role t c) = cv_max c" "cv_user (append_turn role t c) = cv_user c" "cv_state (append_turn role t c) = cv_state c"
  "cv_turn_index (append_turn role t c) = cv_turn_index c"
  by (simp_all add: append_turn_def Let_def)

lemma conv_step_frame [simp]: "cv_max (conv_step p c) = cv_max c"
  by (cases p) (simp_all add: on_user_speech_def on_response_start_def on_speak_begin_def on_speak_end_def on_barge_in_def clear_history_def Let_def)

lemma speak_begin_history:
  "0 < cv_max c \<Longrightarrow> cv_history (on_speak_begin now t c) =
     keep_last (nat (cv_max c)) (cv_history c @ (if cv_user c = [] then [] else [(''user'', cv_user c)]) @ [(''assistant'', t)])"
  using keep_last_snoc [of "nat (cv_max c)" "cv_history c @ [(''user'', cv_user c)]" "[(''assistant'', t)]"]
  by (simp add: on_speak_begin_def Let_def append_turn_history)

lemma run_history:
  assumes "0 < cv_max c" "ClearHistory \<notin> set ps" "length (cv_history c) \<le> nat (cv_max c)"
  shows "cv_history (run_ops conv_step ps c) = keep_last (nat (cv_max c)) (cv_history c @ dialogue_said ps (cv_user c))"
  using assms
proof (induction ps arbitrary: c)
  case (Cons p ps)
  have step: "0 < cv_max (conv_step p c)" "ClearHistory \<notin> set ps" using Cons.prems by simp_all
  show ?case
  proof (cases p)
    case (SpeakBegin now t)
    define said where "said = (if cv_user c = [] then [] else [(''user'', cv_user c)]) @ [(''assistant'', t)]"
    have h: "cv_history (on_speak_begin now t c) = keep_last (nat (cv_max c)) (cv_history c @ said)"
      using speak_begin_history [OF Cons.prems(1)] by (simp add: said_def)
    have "cv_user (on_speak_begin now t c) = []" by (simp add: on_speak_begin_def Let_def)
    moreover have "length (cv_history (on_speak_begin now t c)) \<le> nat (cv_max c)" by (simp add: h keep_last_def)
    ultimately have "cv_history (run_ops conv_step ps (on_speak_begin now t c)) =
        keep_last (nat (cv_max c)) (keep_last (nat (cv_max c)) (cv_history c @ said) @ dialogue_said ps [])"
      using Cons.IH [of "on_speak_begin now t c"] step conv_step_frame [of p c] by (simp add: SpeakBegin h)
    then show ?thesis
      using keep_last_snoc [of "nat (cv_max c)" "cv_history c @ said" "dialogue_said ps []"] Cons.prems(1) by (simp add: SpeakBegin said_def)
  qed (use Cons in \<open>auto simp: on_user_speech_def on_response_start_def on_speak_end_def on_barge_in_def\<close>)
qed (simp add: keep_last_def)

text \<open>The history that goes into the prompt is the end of the dialogue: for a positive bound, after any sequence of speech, responses, interruptions and
  silences without a reset, the history holds the last entries, at most the bound, of the dialogue as it happened, in which every answer is
  preceded by the utterance last heard before it.\<close>

theorem history_is_end_of_dialogue:
  assumes "0 < max_history" "ClearHistory \<notin> set ps"
  shows "cv_history (run_ops conv_step ps (new_conversation max_history)) = keep_last (nat max_history) (dialogue_said ps []) \<and>
    int (length (cv_history (run_ops conv_step ps (new_conversation max_history)))) \<le> max_history"
  using run_history [of "new_conversation max_history" ps] assms by (simp add: new_conversation_def keep_last_def)

theorem history_is_end_of_dialogue_witness:
  "cv_history (run_ops conv_step [UserSpeech 1 ''hello'', SpeakBegin 2 ''hi'', SpeakEnd False, UserSpeech 3 ''bye'', SpeakBegin 4 ''see you''] (new_conversation 3)) =
     [(''assistant'', ''hi''), (''user'', ''bye''), (''assistant'', ''see you'')]"
  using history_is_end_of_dialogue [of 3 "[UserSpeech 1 ''hello'', SpeakBegin 2 ''hi'', SpeakEnd False, UserSpeech 3 ''bye'', SpeakBegin 4 ''see you'']"]
  by (simp add: keep_last_def)

text \<open>Speech always leads to processing, from whatever state: a person who speaks while the agent speaks interrupts it.\<close>

theorem speech_is_processed: "cv_state (on_user_speech now t c) = CProcessing"
  by (cases "cv_state c") (simp_all add: on_user_speech_def)

text \<open>A bound of zero bounds nothing, and asking for no history gives all of it.\<close>

theorem zero_bound_keeps_everything:
  "cv_max c = 0 \<Longrightarrow> cv_history (append_turn role t c) = cv_history c @ [(role, t)]" "get_history 0 c = cv_history c"
  by (simp_all add: append_turn_def py_last_def Let_def get_history_def)

text \<open>Of two utterances before an answer only the second is kept, and an utterance heard before a reset turns up in the history after it.\<close>

theorem unanswered_utterance_is_lost:
  "cv_history (run_ops conv_step [UserSpeech 1 ''first'', UserSpeech 2 ''second'', SpeakBegin 3 ''ok''] (new_conversation 12)) =
     [(''user'', ''second''), (''assistant'', ''ok'')]"
  by (simp add: new_conversation_def on_user_speech_def on_speak_begin_def append_turn_def Let_def)

theorem reset_keeps_the_last_utterance:
  "cv_history (run_ops conv_step [UserSpeech 1 ''secret'', ClearHistory, SpeakBegin 3 ''hello''] (new_conversation 12)) =
     [(''user'', ''secret''), (''assistant'', ''hello'')]"
  by (simp add: new_conversation_def on_user_speech_def on_speak_begin_def append_turn_def clear_history_def Let_def)

end
